(* ===== verification/LLL_Prelude.thy ===== *)
theory LLL_Prelude
  imports Main "HOL-Library.Word" "HOL-Library.Code_Target_Numeral"
begin

text \<open>
  The vocabulary every theory of the library shares: the machine integer types of the
  sources, the result type of fallible code with its sequencing operator, and the
  little-endian byte images of integers that the serialisation templates copy to and from
  memory.
\<close>

section \<open>Machine integers\<close>

type_synonym byte = "8 word"
type_synonym u8 = "8 word"
type_synonym u16 = "16 word"
type_synonym u32 = "32 word"
type_synonym u64 = "64 word"
type_synonym u256 = "256 word"
type_synonym u512 = "512 word"
type_synonym u576 = "576 word"
type_synonym u1024 = "1024 word"

section \<open>Results\<close>

text \<open>
  A function of the sources that answers \<open>return debug::error(...)\<close> ends in
  \<open>Reject\<close>; one that throws ends in \<open>Throw\<close>. Both carry the message of the source. A read
  outside an array, whose behaviour the language leaves undefined, ends in \<open>Undefined\<close>, and a
  loop that does not end in \<open>Diverges\<close>.
\<close>

datatype error = Reject string | Throw string | Undefined string | Diverges

type_synonym 'a res = "error + 'a"

text \<open>
  Sequencing: what follows runs only when the first computation returns.
  \<open>rand\<close> is the short-circuit conjunction of two tests that may throw.
\<close>

definition rbind :: "'a res \<Rightarrow> ('a \<Rightarrow> 'b res) \<Rightarrow> 'b res" where
  "rbind m f = (case m of Inl e \<Rightarrow> Inl e | Inr x \<Rightarrow> f x)"

definition rand :: "bool res \<Rightarrow> bool res \<Rightarrow> bool res" where
  "rand a b = rbind a (\<lambda>x. if x then b else Inr False)"

definition guard :: "bool \<Rightarrow> error \<Rightarrow> unit res" where
  "guard b e = (if b then Inr () else Inl e)"

text \<open>\<open>if(!f()) return debug::error(msg)\<close>: a refusal is reported with the caller's message, an
  exception passes through.\<close>

definition or_error :: "string \<Rightarrow> 'a res \<Rightarrow> 'a res" where
  "or_error msg r = (case r of Inl (Reject _) \<Rightarrow> Inl (Reject msg) | _ \<Rightarrow> r)"

text \<open>A lookup that may find nothing.\<close>

definition found :: "string \<Rightarrow> 'a option \<Rightarrow> 'a res" where
  "found msg x = (case x of None \<Rightarrow> Inl (Reject msg) | Some v \<Rightarrow> Inr v)"

lemma or_error_eq_Inr [simp]: "or_error msg r = Inr x \<longleftrightarrow> r = Inr x"
  by (auto simp: or_error_def split: sum.splits error.splits)

lemma or_error_Inr [simp]: "or_error msg (Inr x) = Inr x"
  by (simp add: or_error_def)

lemma found_eq_Inr [simp]: "found msg x = Inr v \<longleftrightarrow> x = Some v"
  by (auto simp: found_def split: option.splits)

lemma rbind_Inl [simp]: "rbind (Inl e) f = Inl e"
  by (simp add: rbind_def)

lemma rbind_Inr [simp]: "rbind (Inr x) f = f x"
  by (simp add: rbind_def)

lemma rbind_eq_Inr [simp]: "rbind m f = Inr y \<longleftrightarrow> (\<exists>x. m = Inr x \<and> f x = Inr y)"
  by (cases m) (auto simp: rbind_def)

lemma rbind_eq_Inl: "rbind m f = Inl e \<longleftrightarrow> m = Inl e \<or> (\<exists>x. m = Inr x \<and> f x = Inl e)"
  by (cases m) (auto simp: rbind_def)

lemma rbindE:
  assumes "rbind m f = Inr y"
  obtains x where "m = Inr x" and "f x = Inr y"
  using assms by auto

lemma rbind_pairE:
  assumes "rbind m (\<lambda>(a, b). g a b) = Inr y"
  obtains a b where "m = Inr (a, b)" and "g a b = Inr y"
  using assms by auto

lemma rbind_tripleE:
  assumes "rbind m (\<lambda>(a, b, c). g a b c) = Inr y"
  obtains a b c where "m = Inr (a, b, c)" and "g a b c = Inr y"
  using assms by auto

lemma if_InlE:
  assumes "(if b then Inl e else m) = Inr y"
  obtains "\<not> b" and "m = Inr y"
  using assms by (cases b) auto

lemma rbind_cong [fundef_cong]:
  "m = m' \<Longrightarrow> (\<And>x. m' = Inr x \<Longrightarrow> f x = f' x) \<Longrightarrow> rbind m f = rbind m' f'"
  by (cases m') (auto simp: rbind_def)

lemma rand_eq_Inr [simp]:
  "rand a b = Inr r \<longleftrightarrow> (a = Inr True \<and> b = Inr r) \<or> (a = Inr False \<and> r = False)"
  by (auto simp: rand_def)

lemma rand_Inr_simps [simp]:
  "rand (Inr True) b = b" "rand (Inr False) b = Inr False" "rand (Inl e) b = Inl e"
  by (simp_all add: rand_def)

lemma guard_eq_Inr [simp]: "guard b e = Inr u \<longleftrightarrow> b"
  by (simp add: guard_def)

lemma guard_simps [simp]: "guard True e = Inr ()" "guard False e = Inl e"
  by (simp_all add: guard_def)

lemma if_Inl_eq_Inr [simp]:
  "(if b then Inl e else m) = Inr y \<longleftrightarrow> \<not> b \<and> m = Inr y"
  "(if b then m else Inl e) = Inr y \<longleftrightarrow> b \<and> m = Inr y"
  by auto

text \<open>Collections: the fact sets that unfold the constants of the sources, and the
  inversion facts of the operations.\<close>

named_theorems consts_defs \<open>constants of the sources\<close>
named_theorems op_defs \<open>operations unfolded when an execution is inverted\<close>

section \<open>Little-endian images\<close>

text \<open>The \<open>n\<close> bytes of \<open>x\<close>, least significant first, and their value.\<close>

fun le_bytes :: "nat \<Rightarrow> nat \<Rightarrow> byte list" where
  "le_bytes 0 x = []"
| "le_bytes (Suc n) x = of_nat (x mod 256) # le_bytes n (x div 256)"

fun le_nat :: "byte list \<Rightarrow> nat" where
  "le_nat [] = 0"
| "le_nat (b # bs) = unat b + 256 * le_nat bs"

lemma length_le_bytes [simp]: "length (le_bytes n x) = n"
  by (induction n arbitrary: x) auto

lemma unat_byte_mod: "unat (of_nat (x mod 256) :: byte) = x mod 256"
  by (simp add: unat_of_nat)

lemma le_nat_le_bytes: "le_nat (le_bytes n x) = x mod 256 ^ n"
proof (induction n arbitrary: x)
  case (Suc n)
  have "x mod 256 ^ Suc n = 256 * (x div 256 mod 256 ^ n) + x mod 256"
    by (simp add: mod_mult2_eq)
  then show ?case by (simp add: Suc unat_byte_mod)
qed simp

lemma le_nat_less: "le_nat bs < 256 ^ length bs"
proof (induction bs)
  case (Cons b bs)
  have "unat b < 256" using unsigned_less [of b] by simp
  moreover have "256 * le_nat bs + 256 \<le> 256 * 256 ^ length bs"
    using Cons by (metis Suc_leI add.commute mult_Suc_right mult_le_mono2)
  ultimately show ?case by simp
qed simp

lemma le_bytes_le_nat: "le_bytes (length bs) (le_nat bs) = bs"
proof (induction bs)
  case (Cons b bs)
  have b: "unat b < 256" using unsigned_less [of b] by simp
  then have "(unat b + 256 * le_nat bs) mod 256 = unat b"
    and "(unat b + 256 * le_nat bs) div 256 = le_nat bs" by simp_all
  with Cons show ?case by simp
qed simp

lemma le_bytes_inj:
  assumes "le_bytes n x = le_bytes n y" and "x < 256 ^ n" and "y < 256 ^ n"
  shows "x = y"
  using assms by (metis le_nat_le_bytes mod_less)

text \<open>The byte image of a machine integer (\<open>WRITEDATA\<close>) and the integer of a byte image
  (\<open>READDATA\<close>), on a little-endian machine.\<close>

definition ser_word :: "'a::len word \<Rightarrow> byte list" where
  "ser_word w = le_bytes (LENGTH('a) div 8) (unat w)"

definition deser_word :: "byte list \<Rightarrow> 'a::len word" where
  "deser_word bs = of_nat (le_nat bs)"

lemma length_ser_word [simp]: "length (ser_word (w :: 'a::len word)) = LENGTH('a) div 8"
  by (simp add: ser_word_def)

lemma pow256_div8: "8 dvd n \<Longrightarrow> (256::nat) ^ (n div 8) = 2 ^ n"
proof -
  assume "8 dvd n"
  then obtain k where "n = 8 * k" by (auto simp: dvd_def)
  then show ?thesis by (simp add: power_mult)
qed

lemma deser_ser_word:
  assumes "8 dvd LENGTH('a::len)"
  shows "deser_word (ser_word (w :: 'a word)) = w"
proof -
  have "unat w < 256 ^ (LENGTH('a) div 8)"
    using assms unsigned_less [of w] by (simp add: pow256_div8)
  then show ?thesis by (simp add: deser_word_def ser_word_def le_nat_le_bytes)
qed

lemma ser_word_inj:
  assumes "8 dvd LENGTH('a::len)" and "ser_word (v :: 'a word) = ser_word w"
  shows "v = w"
  using assms by (metis deser_ser_word)

lemma ser_deser_word:
  assumes "8 dvd LENGTH('a::len)" and "length bs = LENGTH('a) div 8"
  shows "ser_word (deser_word bs :: 'a word) = bs"
proof -
  have "le_nat bs < 2 ^ LENGTH('a)"
    using le_nat_less [of bs] assms by (simp add: pow256_div8)
  then have "unat (deser_word bs :: 'a word) = le_nat bs"
    by (simp add: deser_word_def unat_of_nat)
  then show ?thesis using assms(2) le_bytes_le_nat [of bs] by (simp add: ser_word_def)
qed

text \<open>A string literal of the sources as the bytes of a \<open>std::string\<close>.\<close>

definition str :: "string \<Rightarrow> byte list" where
  "str s = map (\<lambda>c. of_char c) s"

lemma length_str [simp]: "length (str s) = length s"
  by (simp add: str_def)

lemma deser_word_byte [simp]: "deser_word [b] = (b :: u8)"
  by (simp add: deser_word_def)

lemma ser_word_byte [simp]: "ser_word (b :: u8) = [b]"
  using ser_deser_word [of "[b]", where ?'a = 8] by simp

end
