(* ===== verification/Serialize.thy ===== *)
theory Serialize
  imports LLL_Prelude
begin

text \<open>
  The byte streams of \<^verbatim>\<open>Util/templates/basestream.h\<close> and the serialisation templates of
  \<^verbatim>\<open>Util/templates/serialize.h\<close>. The templates are generic in the stream class, so they are
  functions of the stream's \<open>read\<close>; the contract between a stream class and the templates is
  the locale \<open>byte_reader\<close>, in which the round trips are proved once.
\<close>

section \<open>BaseStream\<close>

text \<open>The data vector and the 64-bit read position, kept as a natural number with its
  wrap-around written out.\<close>

record stream =
  sData :: "byte list"
  sPos :: nat

definition stream_of :: "byte list \<Rightarrow> stream" where
  "stream_of bs = \<lparr>sData = bs, sPos = 0\<rparr>"

abbreviation (input) STREAM_BEGIN :: u8 where "STREAM_BEGIN \<equiv> 1"
abbreviation (input) STREAM_END :: u8 where "STREAM_END \<equiv> 2"
abbreviation (input) STREAM_CURSOR :: u8 where "STREAM_CURSOR \<equiv> 3"

definition stream_get :: "stream \<Rightarrow> nat \<Rightarrow> byte res" where
  "stream_get s nPos =
     (if nPos \<ge> length (sData s) then Inl (Throw ''get out of bounds'') else Inr (sData s ! nPos))"

definition stream_end :: "stream \<Rightarrow> bool" where
  "stream_end s \<longleftrightarrow> sPos s = length (sData s)"

definition stream_seek :: "int \<Rightarrow> u8 \<Rightarrow> stream \<Rightarrow> stream res" where
  "stream_seek nSeek nFlags s =
     (if nFlags = STREAM_CURSOR then
        (let p = nat ((int (sPos s) + nSeek) mod 2 ^ 64)
         in if p > length (sData s) then Inl (Throw ''seek out of bounds'') else Inr (s\<lparr>sPos := p\<rparr>))
      else if nFlags = STREAM_BEGIN then
        (let p = nat (nSeek mod 2 ^ 64)
         in if p > length (sData s) then Inl (Throw ''seek out of bounds'') else Inr (s\<lparr>sPos := p\<rparr>))
      else if nFlags = STREAM_END then
        (let p = nat (nSeek mod 2 ^ 64)
         in if p > length (sData s) then Inl (Throw ''seek out of bounds'')
            else Inr (s\<lparr>sPos := length (sData s) - p\<rparr>))
      else Inr s)"

definition stream_read :: "nat \<Rightarrow> stream \<Rightarrow> (byte list \<times> stream) res" where
  "stream_read n s =
     (let p = (sPos s + n) mod 2 ^ 64
      in if p > length (sData s) then Inl (Throw ''reached end of stream'')
         else Inr (take n (drop (sPos s) (sData s)), s\<lparr>sPos := p\<rparr>))"

definition stream_write :: "byte list \<Rightarrow> stream \<Rightarrow> stream" where
  "stream_write bs s = s\<lparr>sData := sData s @ bs\<rparr>"

section \<open>The serialisation templates\<close>

type_synonym 's reader = "nat \<Rightarrow> 's \<Rightarrow> (byte list \<times> 's) res"

definition MAX_SIZE :: nat where
  "MAX_SIZE = 0x02000000"

definition GetSizeOfCompactSize :: "nat \<Rightarrow> nat" where
  "GetSizeOfCompactSize nSize =
     (if nSize < 253 then 1
      else if nSize \<le> 0xffff then 1 + 2
      else if nSize \<le> 0xffffffff then 1 + 4
      else 1 + 8)"

definition WriteCompactSize :: "nat \<Rightarrow> byte list" where
  "WriteCompactSize nSize =
     (if nSize < 253 then [of_nat nSize]
      else if nSize \<le> 0xffff then 253 # le_bytes 2 nSize
      else if nSize \<le> 0xffffffff then 254 # le_bytes 4 nSize
      else 255 # le_bytes 8 nSize)"

definition read_word :: "'s reader \<Rightarrow> 's \<Rightarrow> ('a::len word \<times> 's) res" where
  "read_word rd s = rbind (rd (LENGTH('a) div 8) s) (\<lambda>(bs, s). Inr (deser_word bs, s))"

definition ReadCompactSize :: "'s reader \<Rightarrow> 's \<Rightarrow> (nat \<times> 's) res" where
  "ReadCompactSize rd s =
     rbind (rd 1 s) (\<lambda>(ch, s).
       let chSize = le_nat ch in
       rbind (if chSize < 253 then Inr (chSize, s)
              else if chSize = 253 then rbind (rd 2 s) (\<lambda>(x, s). Inr (le_nat x, s))
              else if chSize = 254 then rbind (rd 4 s) (\<lambda>(x, s). Inr (le_nat x, s))
              else rbind (rd 8 s) (\<lambda>(x, s). Inr (le_nat x, s)))
         (\<lambda>(nSizeRet, s).
            if nSizeRet > MAX_SIZE then Inl (Throw ''ReadCompactSize() : size too large'')
            else Inr (nSizeRet, s)))"

text \<open>Strings are read in one piece, byte vectors in blocks of at most five million bytes so
  that a bogus size cannot exhaust the memory.\<close>

definition ser_bytes :: "byte list \<Rightarrow> byte list" where
  "ser_bytes bs = WriteCompactSize (length bs) @ bs"

definition read_string :: "'s reader \<Rightarrow> 's \<Rightarrow> (byte list \<times> 's) res" where
  "read_string rd s =
     rbind (ReadCompactSize rd s) (\<lambda>(nSize, s).
       if nSize \<noteq> 0 then rd nSize s else Inr ([], s))"

definition BLOCK_LIMIT :: nat where
  "BLOCK_LIMIT = 1 + 4999999"

function read_blocks :: "'s reader \<Rightarrow> nat \<Rightarrow> byte list \<Rightarrow> 's \<Rightarrow> (byte list \<times> 's) res" where
  "read_blocks rd n v s =
     (if n = 0 then Inr (v, s)
      else let blk = min n BLOCK_LIMIT in
           rbind (rd blk s) (\<lambda>(bs, s). read_blocks rd (n - blk) (v @ bs) s))"
  by pat_completeness auto
termination
  by (relation "measure (\<lambda>(rd, n, v, s). n)") (auto simp: BLOCK_LIMIT_def)

declare read_blocks.simps [simp del]

definition read_vector :: "'s reader \<Rightarrow> 's \<Rightarrow> (byte list \<times> 's) res" where
  "read_vector rd s =
     rbind (ReadCompactSize rd s) (\<lambda>(nSize, s). read_blocks rd nSize [] s)"

lemma MAX_SIZE_less: "n \<le> MAX_SIZE \<Longrightarrow> n < 2 ^ 26"
  by (simp add: MAX_SIZE_def)

lemma length_WriteCompactSize: "length (WriteCompactSize n) = GetSizeOfCompactSize n"
  by (simp add: WriteCompactSize_def GetSizeOfCompactSize_def)

lemma length_ser_bytes: "length (ser_bytes bs) = GetSizeOfCompactSize (length bs) + length bs"
  by (simp add: ser_bytes_def length_WriteCompactSize)

text \<open>\<open>reads rest adv ok f bs x\<close>: whenever the unread bytes start with \<open>bs\<close>, the parser \<open>f\<close>
  consumes exactly \<open>bs\<close> and returns \<open>x\<close>.\<close>

definition reads :: "('s \<Rightarrow> byte list) \<Rightarrow> (nat \<Rightarrow> 's \<Rightarrow> 's) \<Rightarrow> ('s \<Rightarrow> bool) \<Rightarrow>
    ('s \<Rightarrow> ('a \<times> 's) res) \<Rightarrow> byte list \<Rightarrow> 'a \<Rightarrow> bool" where
  "reads rest adv ok f bs x \<longleftrightarrow>
     (\<forall>s r. ok s \<and> rest s = bs @ r \<longrightarrow> f s = Inr (x, adv (length bs) s))"

section \<open>The contract of a stream class\<close>

text \<open>
  What the templates rely on: the unread bytes \<open>rest s\<close>, and a read of \<open>n\<close> bytes that
  returns the first \<open>n\<close> of them and advances by \<open>n\<close> whenever that many are left. \<open>ok\<close> is
  the invariant under which the position arithmetic of the class does not wrap.
\<close>

locale byte_reader =
  fixes rd :: "'s reader"
    and rest :: "'s \<Rightarrow> byte list"
    and adv :: "nat \<Rightarrow> 's \<Rightarrow> 's"
    and ok :: "'s \<Rightarrow> bool"
  assumes rd_ok: "ok s \<Longrightarrow> n \<le> length (rest s) \<Longrightarrow> rd n s = Inr (take n (rest s), adv n s)"
    and rd_short: "ok s \<Longrightarrow> length (rest s) < n \<Longrightarrow> n < 2 ^ 26 \<Longrightarrow> \<exists>e. rd n s = Inl e"
    and rest_adv: "ok s \<Longrightarrow> n \<le> length (rest s) \<Longrightarrow> rest (adv n s) = drop n (rest s)"
    and ok_adv: "ok s \<Longrightarrow> n \<le> length (rest s) \<Longrightarrow> ok (adv n s)"
    and adv_adv: "ok s \<Longrightarrow> m + n \<le> length (rest s) \<Longrightarrow> adv n (adv m s) = adv (m + n) s"
    and adv_0: "ok s \<Longrightarrow> adv 0 s = s"
begin

lemma read_prefix:
  assumes "ok s" and "rest s = bs @ r"
  shows "rd (length bs) s = Inr (bs, adv (length bs) s)"
    and "rest (adv (length bs) s) = r"
    and "ok (adv (length bs) s)"
  using assms rd_ok [of s "length bs"] rest_adv [of s "length bs"] ok_adv [of s "length bs"]
  by simp_all

lemma read_word_roundtrip:
  fixes w :: "'a::len word"
  assumes "8 dvd LENGTH('a)" and "ok s" and "rest s = ser_word w @ r"
  shows "read_word rd s = Inr (w, adv (LENGTH('a) div 8) s)"
  using read_prefix [OF assms(2,3)] assms(1) by (simp add: read_word_def deser_ser_word)

lemma ReadCompactSize_step:
  assumes "ok s" and "rest s = c # le_bytes k n @ r" and "n < 256 ^ k"
  shows "rd 1 s = Inr ([c], adv 1 s)"
    and "rd k (adv 1 s) = Inr (le_bytes k n, adv (1 + k) s)"
    and "le_nat (le_bytes k n) = n"
proof -
  from assms(1,2) show "rd 1 s = Inr ([c], adv 1 s)"
    using read_prefix(1) [of s "[c]"] by simp
  have r1: "rest (adv 1 s) = le_bytes k n @ r" and ok1: "ok (adv 1 s)"
    using assms(1,2) read_prefix(2,3) [of s "[c]" "le_bytes k n @ r"] by simp_all
  have "adv k (adv 1 s) = adv (1 + k) s"
    using assms(1,2) by (intro adv_adv) simp_all
  with read_prefix(1) [OF ok1 r1] show "rd k (adv 1 s) = Inr (le_bytes k n, adv (1 + k) s)"
    by simp
  from assms(3) show "le_nat (le_bytes k n) = n" by (simp add: le_nat_le_bytes)
qed

text \<open>Reading back a written size, for every size the reader accepts.\<close>

lemma ReadCompactSize_roundtrip:
  assumes "ok s" and "rest s = WriteCompactSize n @ r" and "n \<le> MAX_SIZE"
  shows "ReadCompactSize rd s = Inr (n, adv (GetSizeOfCompactSize n) s)"
proof -
  have n: "n < 2 ^ 26" using assms(3) by (rule MAX_SIZE_less)
  consider (one) "n < 253" | (two) "253 \<le> n" "n \<le> 0xffff" | (four) "0xffff < n"
    by linarith
  then show ?thesis
  proof cases
    case one
    then have "rest s = of_nat n # le_bytes 0 0 @ r" and "le_nat [of_nat n :: byte] = n"
      using assms(2) by (simp_all add: WriteCompactSize_def unat_of_nat)
    with one show ?thesis
      using ReadCompactSize_step(1) [of s "of_nat n" 0 0 r] assms(1,3)
      by (simp add: ReadCompactSize_def GetSizeOfCompactSize_def)
  next
    case two
    then have "rest s = 253 # le_bytes 2 n @ r"
      using assms(2) by (simp add: WriteCompactSize_def)
    from ReadCompactSize_step [OF assms(1) this] two show ?thesis
      using assms(3) by (simp add: ReadCompactSize_def GetSizeOfCompactSize_def)
  next
    case four
    with n have "rest s = 254 # le_bytes 4 n @ r"
      using assms(2) by (simp add: WriteCompactSize_def)
    from ReadCompactSize_step [OF assms(1) this] four n show ?thesis
      using assms(3) by (simp add: ReadCompactSize_def GetSizeOfCompactSize_def)
  qed
qed

text \<open>The block loop reads exactly what one read of the whole size would.\<close>

lemma read_blocks_ok:
  assumes "ok s" and "n \<le> length (rest s)"
  shows "read_blocks rd n v s = Inr (v @ take n (rest s), adv n s)"
  using assms
proof (induction n arbitrary: v s rule: less_induct)
  case (less n)
  define b where "b = min n BLOCK_LIMIT"
  show ?case
  proof (cases "n = 0")
    case True
    with less.prems show ?thesis by (simp add: read_blocks.simps adv_0)
  next
    case False
    then have b: "0 < b" "b \<le> n" by (auto simp: b_def BLOCK_LIMIT_def)
    with less.prems have bl: "b \<le> length (rest s)" by simp
    note r = rd_ok [OF less.prems(1) bl] rest_adv [OF less.prems(1) bl] ok_adv [OF less.prems(1) bl]
    have "read_blocks rd (n - b) (v @ take b (rest s)) (adv b s)
        = Inr ((v @ take b (rest s)) @ take (n - b) (drop b (rest s)), adv (n - b) (adv b s))"
      using less.IH [of "n - b" "adv b s"] b r less.prems(2) by simp
    moreover have "adv (n - b) (adv b s) = adv n s"
      using adv_adv [OF less.prems(1), of b "n - b"] b less.prems(2) by simp
    moreover have "take b (rest s) @ take (n - b) (drop b (rest s)) = take n (rest s)"
      using b by (metis le_add_diff_inverse take_add)
    ultimately show ?thesis
      using False r by (simp add: read_blocks.simps [of rd n] b_def Let_def)
  qed
qed

lemma read_string_roundtrip:
  assumes "ok s" and "rest s = ser_bytes bs @ r" and "length bs \<le> MAX_SIZE"
  shows "read_string rd s = Inr (bs, adv (length (ser_bytes bs)) s)"
proof -
  let ?k = "GetSizeOfCompactSize (length bs)"
  have rs: "rest s = WriteCompactSize (length bs) @ bs @ r"
    using assms(2) by (simp add: ser_bytes_def)
  note c = read_prefix [OF assms(1) rs, unfolded length_WriteCompactSize]
  have "rd (length bs) (adv ?k s) = Inr (bs, adv (length bs) (adv ?k s))"
    using read_prefix(1) [OF c(3,2)] .
  moreover have "adv (length bs) (adv ?k s) = adv (?k + length bs) s"
    by (rule adv_adv [OF assms(1)]) (simp add: rs length_WriteCompactSize)
  ultimately show ?thesis
    using ReadCompactSize_roundtrip [OF assms(1) rs assms(3)]
    by (cases bs) (simp_all add: read_string_def length_ser_bytes)
qed

lemma read_vector_roundtrip:
  assumes "ok s" and "rest s = ser_bytes bs @ r" and "length bs \<le> MAX_SIZE"
  shows "read_vector rd s = Inr (bs, adv (length (ser_bytes bs)) s)"
proof -
  let ?k = "GetSizeOfCompactSize (length bs)"
  have rs: "rest s = WriteCompactSize (length bs) @ bs @ r"
    using assms(2) by (simp add: ser_bytes_def)
  note c = read_prefix [OF assms(1) rs, unfolded length_WriteCompactSize]
  have "adv (length bs) (adv ?k s) = adv (?k + length bs) s"
    by (rule adv_adv [OF assms(1)]) (simp add: rs length_WriteCompactSize)
  then show ?thesis
    using ReadCompactSize_roundtrip [OF assms(1) rs assms(3)] read_blocks_ok [OF c(3)] c(2)
    by (simp add: read_vector_def length_ser_bytes)
qed

text \<open>Parsers compose: a record is read back field by field.\<close>

lemma reads_bind:
  assumes "reads rest adv ok f b1 x" and "reads rest adv ok (g x) b2 y"
  shows "reads rest adv ok (\<lambda>s. rbind (f s) (\<lambda>(x, s). g x s)) (b1 @ b2) y"
  unfolding reads_def
proof (intro allI impI, elim conjE)
  fix s r assume ok: "ok s" and rs: "rest s = (b1 @ b2) @ r"
  then have f: "f s = Inr (x, adv (length b1) s)"
    and ok1: "ok (adv (length b1) s)" and r1: "rest (adv (length b1) s) = b2 @ r"
    using assms(1) read_prefix(2,3) [of s b1 "b2 @ r"] by (simp_all add: reads_def)
  have "g x (adv (length b1) s) = Inr (y, adv (length b2) (adv (length b1) s))"
    using assms(2) ok1 r1 by (simp add: reads_def)
  moreover have "adv (length b2) (adv (length b1) s) = adv (length (b1 @ b2)) s"
    using adv_adv [OF ok, of "length b1" "length b2"] rs by simp
  ultimately show "rbind (f s) (\<lambda>(x, s). g x s) = Inr (y, adv (length (b1 @ b2)) s)"
    using f by simp
qed

lemma reads_return: "reads rest adv ok (\<lambda>s. Inr (x, s)) [] x"
  by (simp add: reads_def adv_0)

lemma reads_word:
  fixes w :: "'a::len word"
  assumes "8 dvd LENGTH('a)"
  shows "reads rest adv ok (read_word rd) (ser_word w) w"
  unfolding reads_def using read_word_roundtrip [OF assms] by simp

lemma reads_string:
  "length bs \<le> MAX_SIZE \<Longrightarrow> reads rest adv ok (read_string rd) (ser_bytes bs) bs"
  unfolding reads_def using read_string_roundtrip by blast

lemma reads_vector:
  "length bs \<le> MAX_SIZE \<Longrightarrow> reads rest adv ok (read_vector rd) (ser_bytes bs) bs"
  unfolding reads_def using read_vector_roundtrip by blast

text \<open>The block loop and the single read agree on every outcome up to the size limit.\<close>

lemma read_vector_eq_string:
  assumes "ok s" and "read_string rd s = Inr (bs, s')"
  shows "read_vector rd s = Inr (bs, s')"
proof -
  from assms(2) obtain n t where n: "ReadCompactSize rd s = Inr (n, t)"
    and b: "(if n \<noteq> 0 then rd n t else Inr ([], t)) = Inr (bs, s')"
    by (auto simp: read_string_def)
  show ?thesis
  proof (cases "n = 0")
    case True
    with n b show ?thesis by (simp add: read_vector_def read_blocks.simps)
  next
    case False
    have nmax: "n \<le> MAX_SIZE" using n by (auto simp: ReadCompactSize_def Let_def)
    have okt: "ok t \<and> (n \<le> length (rest t))"
    proof -
      have "1 \<le> length (rest s)"
      proof (rule ccontr)
        assume "\<not> 1 \<le> length (rest s)"
        then have "length (rest s) < 1" by linarith
        then obtain e where "rd 1 s = Inl e" using rd_short [OF assms(1)] by fastforce
        with n show False by (simp add: ReadCompactSize_def)
      qed
      note r1 = rd_ok [OF assms(1) this] ok_adv [OF assms(1) this]
      have more: "ok u \<Longrightarrow> rd k u = Inr (x, t) \<Longrightarrow> k \<le> 8 \<Longrightarrow> ok t" for u k x
        using rd_short [of u k] rd_ok [of u k] ok_adv [of u k]
        by (cases "k \<le> length (rest u)") force+
      have "ok t"
        using n r1 more [of "adv 1 s"]
        by (auto simp: ReadCompactSize_def Let_def split: if_splits)
      moreover have "n \<le> length (rest t)"
        using rd_short [OF \<open>ok t\<close>, of n] MAX_SIZE_less [OF nmax] b False
        by (metis Inl_Inr_False not_le)
      ultimately show ?thesis by simp
    qed
    with b False have "bs = take n (rest t)" "s' = adv n t"
      using rd_ok [of t n] by auto
    with n okt show ?thesis using read_blocks_ok [of t n] by (simp add: read_vector_def)
  qed
qed

end

section \<open>BaseStream is a byte reader\<close>

definition stream_rest :: "stream \<Rightarrow> byte list" where
  "stream_rest s = drop (sPos s) (sData s)"

definition stream_adv :: "nat \<Rightarrow> stream \<Rightarrow> stream" where
  "stream_adv n s = s\<lparr>sPos := sPos s + n\<rparr>"

definition stream_ok :: "stream \<Rightarrow> bool" where
  "stream_ok s \<longleftrightarrow> sPos s \<le> length (sData s) \<and> length (sData s) < 2 ^ 63"

interpretation bs: byte_reader stream_read stream_rest stream_adv stream_ok
proof (unfold_locales, goal_cases)
  case (1 s n)
  then have "(sPos s + n) mod 2 ^ 64 = sPos s + n" and "sPos s + n \<le> length (sData s)"
    by (auto simp: stream_ok_def stream_rest_def)
  then show ?case by (simp add: stream_read_def stream_rest_def stream_adv_def Let_def)
next
  case (2 s n)
  then have "(sPos s + n) mod 2 ^ 64 = sPos s + n" by (simp add: stream_ok_def)
  with 2 show ?case by (auto simp: stream_read_def stream_rest_def stream_ok_def Let_def)
next
  case (3 s n)
  then show ?case by (simp add: stream_rest_def stream_adv_def add.commute)
next
  case (4 s n)
  then show ?case by (auto simp: stream_rest_def stream_adv_def stream_ok_def)
next
  case (5 s m n)
  then show ?case by (simp add: stream_adv_def add.assoc)
next
  case (6 s)
  then show ?case by (simp add: stream_adv_def)
qed

text \<open>What no read changes.\<close>

lemma stream_read_data [simp]: "stream_read n s = Inr (bs, s') \<Longrightarrow> sData s' = sData s"
  by (auto simp: stream_read_def Let_def)

section \<open>Reading keeps the data\<close>

lemma stream_read_shape:
  assumes "stream_read n s = Inr (bs, s')"
  shows "sData s' = sData s" and "bs = take n (drop (sPos s) (sData s))"
  using assms unfolding stream_read_def Let_def by (elim if_InlE; auto)+

lemma read_word_stream_data: "read_word stream_read s = Inr (w, s') \<Longrightarrow> sData s' = sData s"
  unfolding read_word_def by (elim rbind_pairE) (simp add: stream_read_shape)

lemma ReadCompactSize_stream_data:
  assumes "ReadCompactSize stream_read s = Inr (n, s')"
  shows "sData s' = sData s"
proof -
  from assms obtain ch s1 where 1: "stream_read 1 s = Inr (ch, s1)"
    and 2: "(if le_nat ch < 253 then Inr (le_nat ch, s1)
              else if le_nat ch = 253 then rbind (stream_read 2 s1) (\<lambda>(x, s). Inr (le_nat x, s))
              else if le_nat ch = 254 then rbind (stream_read 4 s1) (\<lambda>(x, s). Inr (le_nat x, s))
              else rbind (stream_read 8 s1) (\<lambda>(x, s). Inr (le_nat x, s))) = Inr (n, s')"
    unfolding ReadCompactSize_def Let_def by (elim rbind_pairE if_InlE) simp
  from 2 have "sData s' = sData s1"
    by (cases "le_nat ch < 253"; cases "le_nat ch = 253"; cases "le_nat ch = 254")
      (auto elim!: rbind_pairE simp: stream_read_shape simp del: rbind_eq_Inr)
  then show ?thesis using stream_read_shape(1) [OF 1] by simp
qed

lemma read_blocks_stream_data:
  "read_blocks stream_read n v s = Inr (x, s') \<Longrightarrow> sData s' = sData s"
proof (induction n arbitrary: v s rule: less_induct)
  case (less n)
  show ?case
  proof (cases "n = 0")
    case True
    with less.prems show ?thesis by (simp add: read_blocks.simps)
  next
    case False
    with less.prems obtain bs s1 where r: "stream_read (min n BLOCK_LIMIT) s = Inr (bs, s1)"
      "read_blocks stream_read (n - min n BLOCK_LIMIT) (v @ bs) s1 = Inr (x, s')"
      by (subst (asm) read_blocks.simps) (auto simp: Let_def)
    have "n - min n BLOCK_LIMIT < n" using False by (simp add: BLOCK_LIMIT_def)
    from less.IH [OF this r(2)] show ?thesis using stream_read_shape(1) [OF r(1)] by simp
  qed
qed

lemma read_vector_stream_data:
  "read_vector stream_read s = Inr (x, s') \<Longrightarrow> sData s' = sData s"
  unfolding read_vector_def
  by (elim rbind_pairE) (simp add: ReadCompactSize_stream_data read_blocks_stream_data)

lemma stream_read_in:
  assumes "sPos s + n \<le> length (sData s)" and "length (sData s) < 2 ^ 64"
  shows "stream_read n s = Inr (take n (drop (sPos s) (sData s)), s\<lparr>sPos := sPos s + n\<rparr>)"
proof -
  have "(sPos s + n) mod 2 ^ 64 = sPos s + n" using assms by (intro mod_less) linarith
  then show ?thesis using assms(1) unfolding stream_read_def by (simp add: Let_def)
qed

lemma stream_read_out:
  assumes "length (sData s) < sPos s + n" and "sPos s + n < 2 ^ 64"
  shows "stream_read n s = Inl (Throw ''reached end of stream'')"
proof -
  have "(sPos s + n) mod 2 ^ 64 = sPos s + n" using assms by (intro mod_less)
  then show ?thesis using assms(1) unfolding stream_read_def by (simp add: Let_def)
qed

end
