(* ===== verification/Timelocks.thy ===== *)
theory Timelocks
  imports LLL_Prelude
begin

text \<open>
  The node's environment and the activation schedule of
  \<^verbatim>\<open>TAO/Ledger/timelocks.cpp\<close>: which block and transaction versions are valid at a given
  timestamp, on the test network and on the main network.
\<close>

section \<open>Environment\<close>

text \<open>
  What the modelled code asks of its surroundings: the unified time, the configuration flags,
  the vendored hash functions \<^verbatim>\<open>LLC::SK64\<close>, \<^verbatim>\<open>LLC::SK256\<close> and \<^verbatim>\<open>LLC::SK512\<close>, which are arbitrary
  functions of bytes here, the height, money supply and time of the best block, and the floating-point \<^verbatim>\<open>std::log10\<close> of an integer, truncated to an
  integer.
\<close>

record env =
  SK64 :: "byte list \<Rightarrow> u64"
  SK256 :: "byte list \<Rightarrow> u256"
  unifiedtimestamp :: u64
  fTestNet :: bool
  fClient :: bool
  fTrustBoost :: bool
  fLog10 :: "u64 \<Rightarrow> u64"
  SK512 :: "byte list \<Rightarrow> u512"
  bestHeight :: u32
  bestSupply :: u64
  bestTime :: u64

text \<open>An environment for concrete evaluations: a main network node in September 2020, with
  hash functions that are constant, resp. count the bytes.\<close>

definition node_2020 :: env where
  "node_2020 = \<lparr>SK64 = \<lambda>bs. of_nat (length bs), SK256 = \<lambda>_. 0,
     unifiedtimestamp = 1600000000, fTestNet = False, fClient = False, fTrustBoost = False,
     fLog10 = \<lambda>_. 0, SK512 = \<lambda>_. 0, bestHeight = 3000000, bestSupply = 100000000000000,
     bestTime = 1599999990\<rparr>"

section \<open>Tables\<close>

definition BLOCK_CURRENT_VERSION :: u32 where
  "BLOCK_CURRENT_VERSION = 8"

definition TRANSACTION_CURRENT_VERSION :: u32 where
  "TRANSACTION_CURRENT_VERSION = 2"

definition NEXUS_TESTNET_TIMELOCK :: u32 where
  "NEXUS_TESTNET_TIMELOCK = 1421250000"

definition NEXUS_NETWORK_TIMELOCK :: u32 where
  "NEXUS_NETWORK_TIMELOCK = 1411510800"

definition TESTNET_BLOCK_VERSION_TIMELOCK :: "u32 list" where
  "TESTNET_BLOCK_VERSION_TIMELOCK =
     [1412676000, 1421293891, 1421949600, 1536562800, 1537167600, 1572325200, 1582946400]"

definition NETWORK_BLOCK_VERSION_TIMELOCK :: "u32 list" where
  "NETWORK_BLOCK_VERSION_TIMELOCK =
     [1412964000, 1421949600, 1438369200, 1536977460, 1538791860, 1573539371, 1584676140]"

definition TESTNET_TRANSACTION_VERSION_TIMELOCK :: "u32 list" where
  "TESTNET_TRANSACTION_VERSION_TIMELOCK = [1572325200, 1582946400]"

definition NETWORK_TRANSACTION_VERSION_TIMELOCK :: "u32 list" where
  "NETWORK_TRANSACTION_VERSION_TIMELOCK = [1573539371, 1584676140]"

definition CHANNEL_TESTNET_TIMELOCK :: "u32 list" where
  "CHANNEL_TESTNET_TIMELOCK = [1421949600, 1411437371, 1411437371]"

definition CHANNEL_NETWORK_TIMELOCK :: "u32 list" where
  "CHANNEL_NETWORK_TIMELOCK = [1438369200, 1411510800, 1413914400]"

lemmas timelock_tables =
  BLOCK_CURRENT_VERSION_def TRANSACTION_CURRENT_VERSION_def NEXUS_TESTNET_TIMELOCK_def
  NEXUS_NETWORK_TIMELOCK_def TESTNET_BLOCK_VERSION_TIMELOCK_def
  NETWORK_BLOCK_VERSION_TIMELOCK_def TESTNET_TRANSACTION_VERSION_TIMELOCK_def
  NETWORK_TRANSACTION_VERSION_TIMELOCK_def CHANNEL_TESTNET_TIMELOCK_def
  CHANNEL_NETWORK_TIMELOCK_def

section \<open>Operations\<close>

definition NetworkActive :: "env \<Rightarrow> u64 \<Rightarrow> bool" where
  "NetworkActive E nTimestamp \<longleftrightarrow>
     \<not> nTimestamp < ucast (if fTestNet E then NEXUS_TESTNET_TIMELOCK else NEXUS_NETWORK_TIMELOCK)"

text \<open>The channel indexes a table of three; a channel above 3 reads past it.\<close>

definition ChannelActive :: "env \<Rightarrow> u64 \<Rightarrow> u32 \<Rightarrow> bool res" where
  "ChannelActive E nTimestamp nChannel =
     (if nChannel = 3 then Inr True
      else if nChannel > 3 then Inl (Throw ''channel table out of bounds'')
      else Inr (\<not> nTimestamp < ucast ((if fTestNet E then CHANNEL_TESTNET_TIMELOCK
                                       else CHANNEL_NETWORK_TIMELOCK) ! unat nChannel)))"

definition CurrentBlockVersion :: "env \<Rightarrow> u32" where
  "CurrentBlockVersion E = BLOCK_CURRENT_VERSION"

definition CurrentBlockTimelock :: "env \<Rightarrow> u32" where
  "CurrentBlockTimelock E =
     (if fTestNet E then TESTNET_BLOCK_VERSION_TIMELOCK ! unat (BLOCK_CURRENT_VERSION - 2)
      else NETWORK_BLOCK_VERSION_TIMELOCK ! unat (BLOCK_CURRENT_VERSION - 2))"

definition StartBlockTimelock :: "env \<Rightarrow> u32 \<Rightarrow> u64" where
  "StartBlockTimelock E nVersion =
     (let nCurrent = CurrentBlockVersion E in
      if nVersion = 0 \<or> nVersion > nCurrent then 0
      else if nVersion = 1 then
        ucast (if fTestNet E then NEXUS_TESTNET_TIMELOCK else NEXUS_NETWORK_TIMELOCK)
      else ucast (if fTestNet E then TESTNET_BLOCK_VERSION_TIMELOCK ! unat (nVersion - 2)
                  else NETWORK_BLOCK_VERSION_TIMELOCK ! unat (nVersion - 2)))"

definition EndBlockTimelock :: "env \<Rightarrow> u32 \<Rightarrow> u64" where
  "EndBlockTimelock E nVersion =
     (let nCurrent = CurrentBlockVersion E in
      if nVersion = 0 \<or> nVersion \<ge> nCurrent then 0
      else ucast (if fTestNet E then TESTNET_BLOCK_VERSION_TIMELOCK ! unat (nVersion - 1)
                  else NETWORK_BLOCK_VERSION_TIMELOCK ! unat (nVersion - 1)))"

definition BlockVersionActive :: "env \<Rightarrow> u64 \<Rightarrow> u32 \<Rightarrow> bool" where
  "BlockVersionActive E nTimestamp nVersion =
     (if nVersion = 0 then False
      else let nCurrent = CurrentBlockVersion E in
      if nVersion > nCurrent then False
      else let nStart = StartBlockTimelock E nVersion in
      if nStart = 0 then False
      else let nEnd = EndBlockTimelock E nVersion in
      if nVersion < nCurrent \<and> nEnd = 0 then False
      else if nTimestamp < nStart then False
      else if nVersion < nCurrent \<and> nTimestamp - 3600 > nEnd then False
      else True)"

definition CurrentTransactionVersion :: "env \<Rightarrow> u32" where
  "CurrentTransactionVersion E = TRANSACTION_CURRENT_VERSION"

text \<open>The source indexes the \<^emph>\<open>block\<close> version tables here.\<close>

definition CurrentTransactionTimelock :: "env \<Rightarrow> u32" where
  "CurrentTransactionTimelock E =
     (if fTestNet E then TESTNET_BLOCK_VERSION_TIMELOCK ! unat (TRANSACTION_CURRENT_VERSION - 1)
      else NETWORK_BLOCK_VERSION_TIMELOCK ! unat (TRANSACTION_CURRENT_VERSION - 1))"

definition StartTransactionTimelock :: "env \<Rightarrow> u32 \<Rightarrow> u64" where
  "StartTransactionTimelock E nVersion =
     (let nCurrent = CurrentTransactionVersion E in
      if nVersion = 0 \<or> nVersion > nCurrent then 0
      else ucast (if fTestNet E then TESTNET_TRANSACTION_VERSION_TIMELOCK ! unat (nVersion - 1)
                  else NETWORK_TRANSACTION_VERSION_TIMELOCK ! unat (nVersion - 1)))"

definition EndTransactionTimelock :: "env \<Rightarrow> u32 \<Rightarrow> u64" where
  "EndTransactionTimelock E nVersion =
     (let nCurrent = CurrentTransactionVersion E in
      if nVersion = 0 \<or> nVersion \<ge> nCurrent then 0
      else ucast (if fTestNet E then TESTNET_TRANSACTION_VERSION_TIMELOCK ! unat nVersion
                  else NETWORK_TRANSACTION_VERSION_TIMELOCK ! unat nVersion))"

definition TransactionVersionActive :: "env \<Rightarrow> u64 \<Rightarrow> u32 \<Rightarrow> bool" where
  "TransactionVersionActive E nTimestamp nVersion =
     (if nVersion = 0 then False
      else let nCurrent = CurrentTransactionVersion E in
      if nVersion > nCurrent then False
      else let nStart = StartTransactionTimelock E nVersion in
      if nStart = 0 then False
      else let nEnd = EndTransactionTimelock E nVersion in
      if nVersion < nCurrent \<and> nEnd = 0 then False
      else if nTimestamp < nStart then False
      else if nVersion < nCurrent \<and> nTimestamp - 3600 > nEnd then False
      else True)"

definition maxdrift :: "env \<Rightarrow> u32" where
  "maxdrift E = (if unifiedtimestamp E < StartBlockTimelock E 8 then 10 else 1)"

text \<open>\<open>unifiedtimestamp() + maxdrift()\<close>, the latest timestamp that is not in the future.\<close>

definition drift_limit :: "env \<Rightarrow> u64" where
  "drift_limit E = unifiedtimestamp E + ucast (maxdrift E)"

section \<open>The schedule\<close>

lemma u32_le_8_cases:
  fixes v :: u32
  assumes "v \<le> 8"
  shows "v \<in> {0, 1, 2, 3, 4, 5, 6, 7, 8}"
proof -
  have "unat v \<le> 8" using assms by (simp add: word_le_nat_alt)
  then have "unat v \<in> {0, 1, 2, 3, 4, 5, 6, 7, 8}" by auto
  then show ?thesis by (auto simp: word_unat_eq_iff)
qed

lemma u64_sub_gt:
  fixes t e :: u64
  assumes "3600 \<le> t"
  shows "e < t - 3600 \<longleftrightarrow> unat e + 3600 < unat t"
proof -
  have "unat (t - 3600) = unat t - 3600" using assms by (simp add: unat_sub)
  moreover have "3600 \<le> unat t" using assms by (simp add: word_le_nat_alt)
  ultimately show ?thesis by (auto simp: word_less_nat_alt)
qed

text \<open>The activation time of each block version on the main network, version 1 first.\<close>

definition net_start :: "nat \<Rightarrow> nat" where
  "net_start v = [1411510800, 1412964000, 1421949600, 1438369200, 1536977460, 1538791860,
                  1573539371, 1584676140] ! (v - 1)"

lemma network_start:
  assumes "\<not> fTestNet E" "v \<noteq> 0" "v \<le> 8"
  shows "unat (StartBlockTimelock E v) = net_start (unat v)"
  using u32_le_8_cases [OF assms(3)] assms(1,2)
  by (elim insertE) (simp_all add: StartBlockTimelock_def CurrentBlockVersion_def timelock_tables net_start_def)

lemma network_end:
  assumes "\<not> fTestNet E" "v \<noteq> 0" "v < 8"
  shows "unat (EndBlockTimelock E v) = net_start (unat v + 1)"
  using u32_le_8_cases [OF less_imp_le [OF assms(3)]] assms
  by (elim insertE) (simp_all add: EndBlockTimelock_def CurrentBlockVersion_def timelock_tables net_start_def
      word_le_nat_alt)

lemma net_start_ge:
  assumes "1 \<le> n" "n \<le> 8" shows "1411510800 \<le> net_start n"
proof -
  from assms have "n \<in> {1, 2, 3, 4, 5, 6, 7, 8}" by auto
  then show ?thesis by (auto simp: net_start_def)
qed

lemma network_block_active:
  assumes "\<not> fTestNet E"
  shows "BlockVersionActive E t v \<longleftrightarrow>
     v \<noteq> 0 \<and> v \<le> 8 \<and> net_start (unat v) \<le> unat t \<and>
     (v < 8 \<longrightarrow> unat t \<le> net_start (unat v + 1) + 3600)"
proof (cases "v \<noteq> 0 \<and> v \<le> 8")
  case True
  then have u: "1 \<le> unat v" "unat v \<le> 8" by (auto simp: word_le_nat_alt unat_gt_0 Suc_le_eq)
  note s = network_start [OF assms conjunct1 [OF True] conjunct2 [OF True]]
  have s0: "StartBlockTimelock E v \<noteq> 0"
    using s net_start_ge [OF u] by auto
  have le: "\<not> t < StartBlockTimelock E v \<longleftrightarrow> net_start (unat v) \<le> unat t"
    by (simp add: word_less_nat_alt not_less s)
  show ?thesis
  proof (cases "v < 8")
    case 8: True
    note e = network_end [OF assms conjunct1 [OF True] 8]
    have u': "unat v < 8" using 8 by (simp add: word_less_nat_alt)
    have e0: "EndBlockTimelock E v \<noteq> 0" using e net_start_ge [of "unat v + 1"] u' by auto
    have "net_start (unat v) \<le> unat t \<Longrightarrow> 3600 \<le> t"
      using net_start_ge [OF u] by (simp add: word_le_nat_alt)
    then have "net_start (unat v) \<le> unat t \<Longrightarrow>
      \<not> EndBlockTimelock E v < t - 3600 \<longleftrightarrow> unat t \<le> net_start (unat v + 1) + 3600"
      by (simp only: u64_sub_gt) (simp add: e not_less)
    with True 8 s0 e0 le show ?thesis
      unfolding BlockVersionActive_def CurrentBlockVersion_def BLOCK_CURRENT_VERSION_def Let_def
      by (metis leD)
  next
    case 8: False
    with True s0 le show ?thesis
      unfolding BlockVersionActive_def CurrentBlockVersion_def BLOCK_CURRENT_VERSION_def Let_def
      by (metis leD)
  qed
next
  case False
  then show ?thesis
    by (auto simp: BlockVersionActive_def CurrentBlockVersion_def BLOCK_CURRENT_VERSION_def)
qed

lemma net_start_mono: "1 \<le> i \<Longrightarrow> i + 1 \<le> 8 \<Longrightarrow> net_start i + 3600 < net_start (i + 1)"
proof -
  assume "1 \<le> i" "i + 1 \<le> 8"
  then have "i \<in> {1,2,3,4,5,6,7}" by auto
  then show ?thesis by (auto simp: net_start_def)
qed
lemma net_start_mono':
  assumes "1 \<le> i" "i < j" "j \<le> 8"
  shows "net_start i + 3600 < net_start j"
  using assms(2,3)
proof (induction j)
  case (Suc j)
  then show ?case using net_start_mono [of j] net_start_mono [of i] assms(1)
    by (cases "i = j") auto
qed simp

lemma network_active_adjacent:
  assumes E: "\<not> fTestNet E" and a: "BlockVersionActive E t v'"
    and n: "1 \<le> n" "n \<le> 8" "net_start n \<le> unat t"
    and max: "\<And>m. 1 \<le> m \<Longrightarrow> m \<le> 8 \<Longrightarrow> net_start m \<le> unat t \<Longrightarrow> m \<le> n"
  shows "unat v' = n \<or> n = unat v' + 1 \<and> unat t \<le> net_start n + 3600"
proof -
  from a have v': "v' \<noteq> 0" "v' \<le> 8" "net_start (unat v') \<le> unat t"
    "v' < 8 \<longrightarrow> unat t \<le> net_start (unat v' + 1) + 3600"
    by (simp_all add: network_block_active [OF E])
  then have u: "1 \<le> unat v'" "unat v' \<le> 8"
    by (auto simp: word_le_nat_alt unat_gt_0 Suc_le_eq)
  have le: "unat v' \<le> n" using u v'(3) by (intro max)
  have "n \<le> unat v' + 1"
  proof (rule ccontr)
    assume "\<not> ?thesis"
    then have "unat v' + 1 < n" by simp
    with net_start_mono' [of "unat v' + 1" n] n u v' show False
      by (auto simp: word_less_nat_alt)
  qed
  with le consider "unat v' = n" | "n = unat v' + 1" by linarith
  then show ?thesis using v' n by cases (auto simp: word_less_nat_alt)
qed

lemma newest_started:
  assumes E: "\<not> fTestNet E" and "NetworkActive E t"
  obtains n where "1 \<le> n" "n \<le> 8" "net_start n \<le> unat t"
    "\<And>m. 1 \<le> m \<Longrightarrow> m \<le> 8 \<Longrightarrow> net_start m \<le> unat t \<Longrightarrow> m \<le> n"
proof -
  let ?P = "\<lambda>n. 1 \<le> n \<and> n \<le> 8 \<and> net_start n \<le> unat t"
  have "?P 1" using assms
    by (simp add: NetworkActive_def NEXUS_NETWORK_TIMELOCK_def net_start_def word_less_nat_alt
        not_less)
  then have "?P (Greatest ?P)" by (rule GreatestI_nat [where b = 8]) auto
  moreover have "?P m \<Longrightarrow> m \<le> Greatest ?P" for m
    by (rule Greatest_le_nat [where b = 8]) auto
  ultimately show ?thesis using that by blast
qed

text \<open>
  Every timestamp of the main network has a newest block version, and the only other version
  that can be active beside it is its predecessor, within one hour of the upgrade.
\<close>

theorem network_block_schedule:
  assumes "\<not> fTestNet E" and "NetworkActive E t"
  shows "\<exists>v. BlockVersionActive E t v \<and>
    (\<forall>v'. BlockVersionActive E t v' \<longrightarrow>
       v' = v \<or> v' = v - 1 \<and> unat t \<le> unat (StartBlockTimelock E v) + 3600)"
proof -
  obtain n where n: "1 \<le> n" "n \<le> 8" "net_start n \<le> unat t"
    and max: "\<And>m. 1 \<le> m \<Longrightarrow> m \<le> 8 \<Longrightarrow> net_start m \<le> unat t \<Longrightarrow> m \<le> n"
    using newest_started [OF assms] by blast
  define v :: u32 where "v = of_nat n"
  have v: "unat v = n" using n by (simp add: v_def unat_of_nat)
  then have v8: "v \<noteq> 0" "v \<le> 8" using n by (auto simp: word_le_nat_alt)
  have "v < 8 \<Longrightarrow> unat t < net_start (n + 1)"
    using max [of "n + 1"] v by (force simp: word_less_nat_alt)
  then have act: "BlockVersionActive E t v"
    using n v v8 by (auto simp: network_block_active [OF assms(1)])
  have "v' = v \<or> v' = v - 1 \<and> unat t \<le> unat (StartBlockTimelock E v) + 3600"
    if a: "BlockVersionActive E t v'" for v'
    using network_active_adjacent [OF assms(1) a n max] v v8 network_start [OF assms(1) v8]
    by (auto simp: word_unat_eq_iff unat_minus_one)
  with act show ?thesis by blast
qed

text \<open>The hypotheses hold at a timestamp of the year 2020.\<close>

theorem network_block_schedule_witness:
  "\<exists>v. BlockVersionActive node_2020 1600000000 v"
  using network_block_schedule [of node_2020 1600000000]
  by (auto simp: node_2020_def NetworkActive_def NEXUS_NETWORK_TIMELOCK_def)

end
