(* ===== verification/Register_Address.thy ===== *)
theory Register_Address
  imports LLL_Prelude Timelocks
begin

unbundle bit_operations_syntax

text \<open>
  Register addresses (\<^verbatim>\<open>TAO/Register/address.cpp\<close>, the type byte of
  \<^verbatim>\<open>LLC/base_uint.cpp\<close>) and the reserved names and addresses of
  \<^verbatim>\<open>TAO/Register/include/reserved.h\<close>.
\<close>

section \<open>The type byte\<close>

text \<open>
  The most significant byte of a 256-bit or 512-bit integer: \<^verbatim>\<open>pn[WIDTH - 1] >> 24\<close>, and its
  replacement \<^verbatim>\<open>(pn[WIDTH - 1] & 0x00ffffff) + (nType << 24)\<close>.
\<close>

definition GetType :: "'a::len word \<Rightarrow> u8" where
  "GetType w = ucast (drop_bit (LENGTH('a) - 8) w)"

definition SetType :: "u8 \<Rightarrow> 'a::len word \<Rightarrow> 'a word" where
  "SetType nType w = take_bit (LENGTH('a) - 8) w OR push_bit (LENGTH('a) - 8) (ucast nType)"

abbreviation (input) ADDR_GENESIS1 :: u8 where "ADDR_GENESIS1 \<equiv> 0xa1"
abbreviation (input) ADDR_GENESIS2 :: u8 where "ADDR_GENESIS2 \<equiv> 0xa2"
abbreviation (input) ADDR_LEGACY :: u8 where "ADDR_LEGACY \<equiv> 0x2a"
abbreviation (input) ADDR_LEGACY_TESTNET :: u8 where "ADDR_LEGACY_TESTNET \<equiv> 0x6f"
abbreviation (input) ADDR_READONLY :: u8 where "ADDR_READONLY \<equiv> 0xd1"
abbreviation (input) ADDR_APPEND :: u8 where "ADDR_APPEND \<equiv> 0xd2"
abbreviation (input) ADDR_RAW :: u8 where "ADDR_RAW \<equiv> 0xd3"
abbreviation (input) ADDR_OBJECT :: u8 where "ADDR_OBJECT \<equiv> 0xd4"
abbreviation (input) ADDR_CRYPTO :: u8 where "ADDR_CRYPTO \<equiv> 0xd5"
abbreviation (input) ADDR_ACCOUNT :: u8 where "ADDR_ACCOUNT \<equiv> 0xd6"
abbreviation (input) ADDR_TOKEN :: u8 where "ADDR_TOKEN \<equiv> 0xd7"
abbreviation (input) ADDR_TRUST :: u8 where "ADDR_TRUST \<equiv> 0xd8"
abbreviation (input) ADDR_NAME :: u8 where "ADDR_NAME \<equiv> 0xd9"
abbreviation (input) ADDR_NAMESPACE :: u8 where "ADDR_NAMESPACE \<equiv> 0xda"
abbreviation (input) ADDR_WILDCARD :: u8 where "ADDR_WILDCARD \<equiv> 0xff"

text \<open>\<open>WILDCARD_ADDRESS\<close> is the address with every bit set.\<close>

definition WILDCARD_ADDRESS :: u256 where
  "WILDCARD_ADDRESS = NOT 0"

section \<open>Constructors and tests\<close>

definition Address_IsValid :: "u256 \<Rightarrow> bool" where
  "Address_IsValid a \<longleftrightarrow> GetType a \<in>
     {ADDR_LEGACY, ADDR_LEGACY_TESTNET, ADDR_READONLY, ADDR_APPEND, ADDR_RAW, ADDR_OBJECT,
      ADDR_CRYPTO, ADDR_ACCOUNT, ADDR_TOKEN, ADDR_TRUST, ADDR_NAME, ADDR_NAMESPACE,
      ADDR_WILDCARD}"

definition Address_random :: "u256 \<Rightarrow> u8 \<Rightarrow> u256 res" where
  "Address_random rnd nType =
     (let a = SetType nType rnd in
      if \<not> Address_IsValid a then Inl (Throw ''invalid type for random'') else Inr a)"

definition Address_namespace :: "env \<Rightarrow> byte list \<Rightarrow> u8 \<Rightarrow> u256 res" where
  "Address_namespace E strName nType =
     (let a = SK256 E strName in
      if nType \<noteq> ADDR_NAMESPACE then Inl (Throw ''invalid type for namespace'')
      else Inr (SetType nType a))"

definition Address_key :: "env \<Rightarrow> byte list \<Rightarrow> u256 \<Rightarrow> u8 \<Rightarrow> u256 res" where
  "Address_key E strKey hashNamespace nType =
     (let vData = strKey @ ser_word hashNamespace;
          a = SK256 E vData in
      if nType \<noteq> ADDR_TRUST \<and> nType \<noteq> ADDR_NAME \<and> nType \<noteq> ADDR_CRYPTO then
        Inl (Throw ''invalid type for deterministic address'')
      else Inr (SetType nType a))"

definition IsReadonly :: "u256 \<Rightarrow> bool" where "IsReadonly a \<longleftrightarrow> GetType a = ADDR_READONLY"
definition IsAppend :: "u256 \<Rightarrow> bool" where "IsAppend a \<longleftrightarrow> GetType a = ADDR_APPEND"
definition IsRaw :: "u256 \<Rightarrow> bool" where "IsRaw a \<longleftrightarrow> GetType a = ADDR_RAW"
definition IsObject :: "u256 \<Rightarrow> bool" where "IsObject a \<longleftrightarrow> GetType a = ADDR_OBJECT"
definition IsCrypto :: "u256 \<Rightarrow> bool" where "IsCrypto a \<longleftrightarrow> GetType a = ADDR_CRYPTO"
definition IsAccount :: "u256 \<Rightarrow> bool" where "IsAccount a \<longleftrightarrow> GetType a = ADDR_ACCOUNT"
definition IsToken :: "u256 \<Rightarrow> bool" where "IsToken a \<longleftrightarrow> GetType a = ADDR_TOKEN"
definition IsTrust :: "u256 \<Rightarrow> bool" where "IsTrust a \<longleftrightarrow> GetType a = ADDR_TRUST"
definition IsName :: "u256 \<Rightarrow> bool" where "IsName a \<longleftrightarrow> GetType a = ADDR_NAME"
definition IsNamespace :: "u256 \<Rightarrow> bool" where "IsNamespace a \<longleftrightarrow> GetType a = ADDR_NAMESPACE"
definition IsWildcard :: "u256 \<Rightarrow> bool" where "IsWildcard a \<longleftrightarrow> GetType a = ADDR_WILDCARD"
definition IsLegacy :: "u256 \<Rightarrow> bool" where
  "IsLegacy a \<longleftrightarrow> GetType a = ADDR_LEGACY \<or> GetType a = ADDR_LEGACY_TESTNET"

section \<open>Reserved values\<close>

definition RESERVED :: "byte list list" where
  "RESERVED = map str [''balance'', ''token'', ''require'', ''supply'', ''decimals'', ''trust'',
     ''stake'', ''system'', ''name'']"

definition Reserved_field :: "byte list \<Rightarrow> bool" where
  "Reserved_field strValue \<longleftrightarrow> strValue \<in> set RESERVED"

definition Reserved_address :: "u256 \<Rightarrow> bool" where
  "Reserved_address a \<longleftrightarrow> (if \<not> Address_IsValid a then True else 0 \<le> a \<and> a \<le> 0xff)"

abbreviation (input) REGISTER_READONLY :: u8 where "REGISTER_READONLY \<equiv> 1"
abbreviation (input) REGISTER_APPEND :: u8 where "REGISTER_APPEND \<equiv> 2"
abbreviation (input) REGISTER_RAW :: u8 where "REGISTER_RAW \<equiv> 3"
abbreviation (input) REGISTER_OBJECT :: u8 where "REGISTER_OBJECT \<equiv> 4"
abbreviation (input) REGISTER_SYSTEM :: u8 where "REGISTER_SYSTEM \<equiv> 5"

definition Range_type :: "u8 \<Rightarrow> bool" where
  "Range_type nType \<longleftrightarrow> nType > 0 \<and> nType < REGISTER_SYSTEM"

definition NAMESPACE_GLOBAL :: "byte list" where
  "NAMESPACE_GLOBAL = str ''~GLOBAL~''"

definition NAME_RESERVED :: "byte list list" where
  "NAME_RESERVED = map str [''NXS'', ''nxs'', ''NEXUS'', ''nexus'']"

definition Reserved_name :: "byte list \<Rightarrow> bool" where
  "Reserved_name strValue \<longleftrightarrow> strValue \<in> set NAME_RESERVED"

definition NAMESPACE_RESERVED :: "byte list list" where
  "NAMESPACE_RESERVED =
     [NAMESPACE_GLOBAL, str ''nxs'', str ''nexus.io'', str ''nexus.com'', str ''nexusearth.com'']"

text \<open>\<open>std::string::find\<close>: does the second string occur in the first?\<close>

fun contains_at :: "byte list \<Rightarrow> byte list \<Rightarrow> bool" where
  "contains_at [] pat = (pat = [])"
| "contains_at (x # xs) pat = (take (length pat) (x # xs) = pat \<or> contains_at xs pat)"

definition Reserved_namespace :: "byte list \<Rightarrow> bool" where
  "Reserved_namespace strValue \<longleftrightarrow> list_ex (\<lambda>r. contains_at strValue r) NAMESPACE_RESERVED"

section \<open>Laws\<close>

lemma GetType_SetType:
  assumes "8 \<le> LENGTH('a::len)"
  shows "GetType (SetType t (w :: 'a word)) = t"
proof (rule bit_word_eqI)
  fix n assume "n < LENGTH(8)"
  then have n: "n < 8" by simp
  have k: "LENGTH('a) - 8 + n < LENGTH('a)" using assms n by linarith
  then show "bit (GetType (SetType t w)) n = bit t n"
    using n by (simp add: GetType_def SetType_def bit_simps)
qed

lemma GetType_eq_div:
  assumes "8 \<le> LENGTH('a::len)"
  shows "unat (GetType (w :: 'a word)) = unat w div 2 ^ (LENGTH('a) - 8)"
proof -
  have u: "unat w < 2 ^ (LENGTH('a) - 8) * 2 ^ 8"
    using unsigned_less [of w] assms by (metis le_add_diff_inverse2 power_add)
  have "unat w div 2 ^ (LENGTH('a) - 8) < 2 ^ 8"
    using less_mult_imp_div_less [OF u [unfolded mult.commute [of "2 ^ (LENGTH('a) - 8)"]]] .
  moreover have "unat (drop_bit (LENGTH('a) - 8) w) = unat w div 2 ^ (LENGTH('a) - 8)"
    by (subst unsigned_drop_bit_eq) (simp add: take_bit_nat_eq_self unsigned_less drop_bit_eq_div)
  ultimately show ?thesis
    by (simp only: GetType_def unsigned_ucast_eq) (simp add: take_bit_nat_eq_self)
qed

lemma GetType_WILDCARD: "GetType WILDCARD_ADDRESS = ADDR_WILDCARD"
  by (rule bit_word_eqI) (auto simp: GetType_def WILDCARD_ADDRESS_def bit_simps less_Suc_eq
      numeral_eq_Suc)

lemma Address_IsValid_WILDCARD: "Address_IsValid WILDCARD_ADDRESS"
  by (simp add: Address_IsValid_def GetType_WILDCARD)

text \<open>The second test of \<open>Reserved\<close> never decides: an address of one byte has type 0, which is
  not a valid type.\<close>

lemma Reserved_address_iff: "Reserved_address a \<longleftrightarrow> \<not> Address_IsValid a"
proof (cases "a \<le> 0xff")
  case True
  then have "unat a \<le> 255" by (simp add: word_le_nat_alt)
  then have "unat (GetType a) = 0" by (simp add: GetType_eq_div)
  then have "GetType a = 0" by (simp add: unat_eq_0)
  then show ?thesis by (simp add: Reserved_address_def Address_IsValid_def)
next
  case False
  then show ?thesis by (simp add: Reserved_address_def)
qed

lemma IsAccount_not: "IsAccount a \<Longrightarrow> \<not> IsWildcard a"
  by (simp add: IsAccount_def IsWildcard_def)

end
