(* ===== verification/Register_State.thy ===== *)
theory Register_State
  imports Serialize Register_Address
begin

text \<open>
  The state register of \<^verbatim>\<open>TAO/Register/state.cpp\<close>. The read position of the source is a
  memory-only cursor that every reading operation sets before it reads; it is the position of
  a local \<open>stream\<close> here, advanced by \<open>state_read\<close> with the 32-bit arithmetic of the source.
\<close>

section \<open>Data\<close>

record reg_state =
  vchState :: "byte list"
  nVersion :: u8
  nType :: u8
  hashOwner :: u256
  nCreated :: u64
  nModified :: u64
  hashChecksum :: u64

section \<open>Serialisation\<close>

definition ser_state_hash :: "'a reg_state_scheme \<Rightarrow> byte list" where
  "ser_state_hash s = ser_word (nVersion s) @ ser_word (nType s) @ ser_word (hashOwner s) @
     ser_word (nCreated s) @ ser_word (nModified s) @ ser_bytes (vchState s)"

definition ser_state :: "'a reg_state_scheme \<Rightarrow> byte list" where
  "ser_state s = ser_word (nVersion s) @ ser_word (nType s) @ ser_word (hashOwner s) @
     ser_word (nCreated s) @ ser_word (nModified s) @ ser_bytes (vchState s) @
     ser_word (hashChecksum s)"

definition read_state :: "'s reader \<Rightarrow> 's \<Rightarrow> (reg_state \<times> 's) res" where
  "read_state rd s =
     rbind (read_word rd s) (\<lambda>(ver, s). rbind (read_word rd s) (\<lambda>(typ, s).
     rbind (read_word rd s) (\<lambda>(own, s). rbind (read_word rd s) (\<lambda>(cre, s).
     rbind (read_word rd s) (\<lambda>(mo, s). rbind (read_vector rd s) (\<lambda>(vch, s).
     rbind (read_word rd s) (\<lambda>(chk, s).
       Inr (\<lparr>vchState = vch, nVersion = ver, nType = typ, hashOwner = own, nCreated = cre,
             nModified = mo, hashChecksum = chk\<rparr>, s))))))))"

section \<open>Operations\<close>

definition State_default :: "env \<Rightarrow> reg_state" where
  "State_default E = \<lparr>vchState = [], nVersion = 0, nType = 0, hashOwner = 0,
     nCreated = unifiedtimestamp E, nModified = unifiedtimestamp E, hashChecksum = 0\<rparr>"

text \<open>The one-argument constructor gives the owner the value 9.\<close>

definition State_type :: "env \<Rightarrow> u8 \<Rightarrow> reg_state" where
  "State_type E nTypeIn = \<lparr>vchState = [], nVersion = 1, nType = nTypeIn, hashOwner = 9,
     nCreated = unifiedtimestamp E, nModified = unifiedtimestamp E, hashChecksum = 0\<rparr>"

definition State_type_owner :: "env \<Rightarrow> u8 \<Rightarrow> u256 \<Rightarrow> reg_state" where
  "State_type_owner E nTypeIn hashOwnerIn = \<lparr>vchState = [], nVersion = 1, nType = nTypeIn,
     hashOwner = hashOwnerIn, nCreated = unifiedtimestamp E, nModified = unifiedtimestamp E,
     hashChecksum = 0\<rparr>"

definition GetHash :: "env \<Rightarrow> 'a reg_state_scheme \<Rightarrow> u64" where
  "GetHash E s = SK64 E (ser_state_hash s)"

definition SetChecksum :: "env \<Rightarrow> 'a reg_state_scheme \<Rightarrow> 'a reg_state_scheme" where
  "SetChecksum E s = s\<lparr>hashChecksum := GetHash E s\<rparr>"

definition State_data :: "env \<Rightarrow> byte list \<Rightarrow> reg_state" where
  "State_data E vchData = SetChecksum E \<lparr>vchState = vchData, nVersion = 1, nType = 0,
     hashOwner = 0, nCreated = unifiedtimestamp E, nModified = unifiedtimestamp E,
     hashChecksum = 0\<rparr>"

definition State_data_type_owner :: "env \<Rightarrow> byte list \<Rightarrow> u8 \<Rightarrow> u256 \<Rightarrow> reg_state" where
  "State_data_type_owner E vchData nTypeIn hashOwnerIn = SetChecksum E \<lparr>vchState = vchData,
     nVersion = 1, nType = nTypeIn, hashOwner = hashOwnerIn, nCreated = unifiedtimestamp E,
     nModified = unifiedtimestamp E, hashChecksum = 0\<rparr>"

text \<open>Two registers are equal when their hashes are.\<close>

definition State_eq :: "env \<Rightarrow> 'a reg_state_scheme \<Rightarrow> 'b reg_state_scheme \<Rightarrow> bool" where
  "State_eq E a b \<longleftrightarrow> GetHash E a = GetHash E b"

definition State_SetNull :: "'a reg_state_scheme \<Rightarrow> 'a reg_state_scheme" where
  "State_SetNull s = s\<lparr>nVersion := 0, nType := 0, hashOwner := 0, nCreated := 0,
     nModified := 0, hashChecksum := 0, vchState := []\<rparr>"

definition State_IsNull :: "'a reg_state_scheme \<Rightarrow> bool" where
  "State_IsNull s \<longleftrightarrow> length (vchState s) = 0 \<and> hashChecksum s = 0"

definition State_IsPruned :: "'a reg_state_scheme \<Rightarrow> bool" where
  "State_IsPruned s \<longleftrightarrow> nVersion s = 0 \<and> length (vchState s) = 0 \<and> hashChecksum s \<noteq> 0"

definition State_IsValid :: "env \<Rightarrow> 'a reg_state_scheme \<Rightarrow> unit res" where
  "State_IsValid E s =
     (if State_IsNull s then Inl (Reject ''register cannot be null'')
      else if GetHash E s \<noteq> hashChecksum s then Inl (Reject ''register checksum mismatch'')
      else if nCreated s > drift_limit E then
        Inl (Reject ''created timestamp too far in the future'')
      else if nModified s > drift_limit E then
        Inl (Reject ''modified timestamp too far in the future'')
      else if nVersion s \<noteq> 1 then Inl (Reject ''register can't have version other than 1'')
      else if nType s = REGISTER_SYSTEM \<and> hashOwner s \<noteq> 0 then
        Inl (Reject ''system register cannot have an owner'')
      else Inr ())"

definition GetState :: "'a reg_state_scheme \<Rightarrow> byte list" where
  "GetState s = vchState s"

definition SetState :: "env \<Rightarrow> byte list \<Rightarrow> 'a reg_state_scheme \<Rightarrow> 'a reg_state_scheme" where
  "SetState E vchStateIn s = SetChecksum E (s\<lparr>vchState := vchStateIn\<rparr>)"

definition State_Append :: "env \<Rightarrow> byte list \<Rightarrow> 'a reg_state_scheme \<Rightarrow> 'a reg_state_scheme" where
  "State_Append E vchStateIn s = SetChecksum E (s\<lparr>vchState := vchState s @ vchStateIn\<rparr>)"

definition ClearState :: "'a reg_state_scheme \<Rightarrow> 'a reg_state_scheme" where
  "ClearState s = s\<lparr>vchState := []\<rparr>"

text \<open>The cursor over the register data. \<open>nReadPos + nSize\<close> is 32-bit arithmetic.\<close>

definition state_end :: "stream \<Rightarrow> bool" where
  "state_end s \<longleftrightarrow> sPos s \<ge> length (sData s)"

definition state_read :: "nat \<Rightarrow> stream \<Rightarrow> (byte list \<times> stream) res" where
  "state_read nSize s =
     (let p = (sPos s + nSize) mod 2 ^ 32
      in if p > length (sData s) then Inl (Throw ''reached end of stream'')
         else Inr (take nSize (drop (sPos s) (sData s)), s\<lparr>sPos := p\<rparr>))"

definition state_write :: "env \<Rightarrow> byte list \<Rightarrow> 'a reg_state_scheme \<Rightarrow> 'a reg_state_scheme" where
  "state_write E bs s = SetChecksum E (s\<lparr>vchState := vchState s @ bs\<rparr>)"

definition cursor :: "'a reg_state_scheme \<Rightarrow> nat \<Rightarrow> stream" where
  "cursor s p = \<lparr>sData = vchState s, sPos = p\<rparr>"

definition state_ok :: "stream \<Rightarrow> bool" where
  "state_ok s \<longleftrightarrow> sPos s \<le> length (sData s) \<and> length (sData s) < 2 ^ 31"

section \<open>The register is a byte reader\<close>

interpretation rs: byte_reader state_read stream_rest stream_adv state_ok
proof (unfold_locales, goal_cases)
  case (1 s n)
  then have "(sPos s + n) mod 2 ^ 32 = sPos s + n" and "sPos s + n \<le> length (sData s)"
    by (auto simp: state_ok_def stream_rest_def)
  then show ?case by (simp add: state_read_def stream_rest_def stream_adv_def Let_def)
next
  case (2 s n)
  then have "(sPos s + n) mod 2 ^ 32 = sPos s + n" by (simp add: state_ok_def)
  moreover have "length (sData s) < sPos s + n"
    using 2 by (simp add: stream_rest_def)
  ultimately show ?case by (simp add: state_read_def Let_def)
next
  case (3 s n)
  then show ?case by (simp add: stream_rest_def stream_adv_def add.commute)
next
  case (4 s n)
  then show ?case by (auto simp: stream_rest_def stream_adv_def state_ok_def)
next
  case (5 s m n)
  then show ?case by (simp add: stream_adv_def add.assoc)
next
  case (6 s)
  then show ?case by (simp add: stream_adv_def)
qed

section \<open>Round trip of a register\<close>

context byte_reader
begin

lemma reads_state:
  assumes "length (vchState (st :: reg_state)) \<le> MAX_SIZE"
  shows "reads rest adv ok (read_state rd) (ser_state st) st"
proof -
  have "reads rest adv ok (\<lambda>s. rbind (read_word rd s) (\<lambda>(chk, s).
       Inr (\<lparr>vchState = v, nVersion = ver, nType = t, hashOwner = own, nCreated = cre,
             nModified = mo, hashChecksum = chk\<rparr>, s)))
     (ser_word c @ [])
     \<lparr>vchState = v, nVersion = ver, nType = t, hashOwner = own, nCreated = cre,
             nModified = mo, hashChecksum = c\<rparr>" for v ver t own cre mo c
    by (rule reads_bind [OF reads_word reads_return]) simp
  note last = this [unfolded append_Nil2]
  have st: "\<lparr>vchState = vchState st, nVersion = nVersion st, nType = nType st,
      hashOwner = hashOwner st, nCreated = nCreated st, nModified = nModified st,
      hashChecksum = hashChecksum st\<rparr> = st" by simp
  show ?thesis
    unfolding read_state_def ser_state_def
    by (intro reads_bind [OF reads_word] reads_bind [OF reads_vector] assms)
      (use last [of "vchState st" "nVersion st" "nType st" "hashOwner st" "nCreated st"
         "nModified st" "hashChecksum st"] in \<open>simp_all add: st\<close>)
qed

end

lemma state_of_stream:
  assumes "length (vchState st) \<le> MAX_SIZE"
  shows "read_state stream_read (stream_of (ser_state st)) =
    Inr (st, \<lparr>sData = ser_state st, sPos = length (ser_state st)\<rparr>)"
proof -
  have "length (ser_state st) < 2 ^ 63"
    using assms by (simp add: ser_state_def length_ser_bytes GetSizeOfCompactSize_def MAX_SIZE_def)
  then show ?thesis
    using bs.reads_state [OF assms, unfolded reads_def, rule_format, of "stream_of (ser_state st)" "[]"]
    by (simp add: stream_of_def stream_rest_def stream_adv_def stream_ok_def)
qed

section \<open>Checksums\<close>

lemma ser_state_hash_checksum [simp]:
  "ser_state_hash (s\<lparr>hashChecksum := c\<rparr>) = ser_state_hash s"
  by (simp add: ser_state_hash_def)

lemma GetHash_SetChecksum [simp]: "GetHash E (SetChecksum E s) = GetHash E s"
  by (simp add: GetHash_def SetChecksum_def)

lemma hashChecksum_SetChecksum [simp]: "hashChecksum (SetChecksum E s) = GetHash E s"
  by (simp add: SetChecksum_def)

lemma SetChecksum_fields [simp]:
  "vchState (SetChecksum E s) = vchState s" "nVersion (SetChecksum E s) = nVersion s"
  "nType (SetChecksum E s) = nType s" "hashOwner (SetChecksum E s) = hashOwner s"
  "nCreated (SetChecksum E s) = nCreated s" "nModified (SetChecksum E s) = nModified s"
  by (simp_all add: SetChecksum_def)

lemma SetChecksum_idem [simp]: "SetChecksum E (SetChecksum E s) = SetChecksum E s"
  by (simp add: SetChecksum_def GetHash_def)

lemma read_state_stream_data:
  "read_state stream_read s = Inr (x, s') \<Longrightarrow> sData s' = sData s"
  unfolding read_state_def
  by (elim rbind_pairE) (simp add: read_word_stream_data read_vector_stream_data)

lemma length_ser_state: "length (ser_state s) = 58 + length (ser_bytes (vchState s))"
  by (simp add: ser_state_def)

end
