(* ===== verification/Register_Object.thy ===== *)
theory Register_Object
  imports Register_State
begin

text \<open>
  Object registers (\<^verbatim>\<open>TAO/Register/object.cpp\<close>, \<^verbatim>\<open>TAO/Register/types/object.h\<close>): a state
  register whose data is a sequence of named, typed fields. \<open>Parse\<close> builds the map from
  field names to the position of the type byte; \<open>Read\<close> and \<open>Write\<close> work in place on the
  data through that map.
\<close>

section \<open>Data\<close>

abbreviation (input) TYPES_UNSUPPORTED :: u8 where "TYPES_UNSUPPORTED \<equiv> 0"
abbreviation (input) TYPES_UINT8_T :: u8 where "TYPES_UINT8_T \<equiv> 1"
abbreviation (input) TYPES_UINT16_T :: u8 where "TYPES_UINT16_T \<equiv> 2"
abbreviation (input) TYPES_UINT32_T :: u8 where "TYPES_UINT32_T \<equiv> 3"
abbreviation (input) TYPES_UINT64_T :: u8 where "TYPES_UINT64_T \<equiv> 4"
abbreviation (input) TYPES_UINT256_T :: u8 where "TYPES_UINT256_T \<equiv> 5"
abbreviation (input) TYPES_UINT512_T :: u8 where "TYPES_UINT512_T \<equiv> 6"
abbreviation (input) TYPES_UINT1024_T :: u8 where "TYPES_UINT1024_T \<equiv> 7"
abbreviation (input) TYPES_STRING :: u8 where "TYPES_STRING \<equiv> 8"
abbreviation (input) TYPES_BYTES :: u8 where "TYPES_BYTES \<equiv> 9"
abbreviation (input) TYPES_MUTABLE :: u8 where "TYPES_MUTABLE \<equiv> 0xff"

abbreviation (input) OBJECTS_NONSTANDARD :: u8 where "OBJECTS_NONSTANDARD \<equiv> 1"
abbreviation (input) OBJECTS_ACCOUNT :: u8 where "OBJECTS_ACCOUNT \<equiv> 2"
abbreviation (input) OBJECTS_TOKEN :: u8 where "OBJECTS_TOKEN \<equiv> 4"
abbreviation (input) OBJECTS_TRUST :: u8 where "OBJECTS_TRUST \<equiv> 8"
abbreviation (input) OBJECTS_NAME :: u8 where "OBJECTS_NAME \<equiv> 16"
abbreviation (input) OBJECTS_NAMESPACE :: u8 where "OBJECTS_NAMESPACE \<equiv> 32"
abbreviation (input) OBJECTS_CRYPTO :: u8 where "OBJECTS_CRYPTO \<equiv> 64"

text \<open>\<open>mapData\<close> lists the fields in the order \<open>Parse\<close> meets them: name, 16-bit position of
  the type byte, mutability.\<close>

type_synonym field_map = "(byte list \<times> (u16 \<times> bool)) list"

record object = reg_state +
  mapData :: field_map

definition Object_of :: "reg_state \<Rightarrow> object" where
  "Object_of s = reg_state.extend s (object.fields [])"

definition State_of :: "object \<Rightarrow> reg_state" where
  "State_of ob = reg_state.truncate ob"

definition mapCount :: "field_map \<Rightarrow> byte list \<Rightarrow> bool" where
  "mapCount m name \<longleftrightarrow> map_of m name \<noteq> None"

section \<open>Parsing\<close>

text \<open>The value sizes of the fixed-size types.\<close>

definition fixed_size :: "u8 \<Rightarrow> nat option" where
  "fixed_size t =
     (if t = TYPES_UINT8_T then Some 1 else if t = TYPES_UINT16_T then Some 2
      else if t = TYPES_UINT32_T then Some 4 else if t = TYPES_UINT64_T then Some 8
      else if t = TYPES_UINT256_T then Some 32 else if t = TYPES_UINT512_T then Some 64
      else if t = TYPES_UINT1024_T then Some 128 else None)"

text \<open>
  One turn of the loop of \<open>Parse\<close>. The source steps back to the type byte, records the
  position and steps over the type byte and the value; the recorded position is cut to 16
  bits by the map, the stepping is 32-bit arithmetic. \<open>parse_field\<close> stops at the start of
  the value and says how many bytes to skip.
\<close>

definition dec32 :: "nat \<Rightarrow> nat" where
  "dec32 p = (p + 2 ^ 32 - 1) mod 2 ^ 32"

definition add32 :: "nat \<Rightarrow> nat \<Rightarrow> nat" where
  "add32 p n = (p + n) mod 2 ^ 32"

definition parse_field :: "stream \<Rightarrow> field_map \<Rightarrow> ((byte list \<times> nat \<times> bool \<times> nat) \<times> stream) res" where
  "parse_field s m =
     rbind (read_string state_read s) (\<lambda>(name, s).
     if mapCount m name then Inl (Reject ''duplicate value entries'')
     else rbind (read_word state_read s) (\<lambda>(t0 :: u8, s).
     let fMutable = (t0 = TYPES_MUTABLE) in
     rbind (if fMutable then read_word state_read s else Inr (t0, s)) (\<lambda>(t :: u8, s).
     let p = dec32 (sPos s) in
     case fixed_size t of
       Some k \<Rightarrow> Inr ((name, p, fMutable, k), s)
     | None \<Rightarrow>
         if t = TYPES_STRING \<or> t = TYPES_BYTES then
           rbind (ReadCompactSize state_read s) (\<lambda>(nSize, s). Inr ((name, p, fMutable, nSize), s))
         else Inl (Reject ''malformed object register (unexpected type)''))))"

definition parse_one :: "stream \<Rightarrow> field_map \<Rightarrow> (field_map \<times> stream) res" where
  "parse_one s m =
     rbind (parse_field s m) (\<lambda>((name, p, fMutable, nSize), s).
       Inr (m @ [(name, (of_nat p, fMutable))], s\<lparr>sPos := add32 (sPos s) nSize\<rparr>))"

text \<open>
  The loop ends because every turn records a name that was not there before, and only
  finitely many names can be cut out of the data.
\<close>

definition names_in :: "byte list \<Rightarrow> byte list set" where
  "names_in v = {xs. set xs \<subseteq> set v \<and> length xs \<le> length v}"

lemma finite_names_in: "finite (names_in v)"
  unfolding names_in_def by (rule finite_lists_length_le) simp

lemma state_read_shape:
  assumes "state_read n s = Inr (bs, s')"
  shows "sData s' = sData s" and "bs = take n (drop (sPos s) (sData s))"
  using assms by (auto simp: state_read_def Let_def split: if_splits)

lemma read_word_state_data:
  "read_word state_read s = Inr (w, s') \<Longrightarrow> sData s' = sData s"
  by (auto simp: read_word_def dest: state_read_shape)

lemma ReadCompactSize_state_data:
  "ReadCompactSize state_read s = Inr (n, s') \<Longrightarrow> sData s' = sData s"
  by (auto simp: ReadCompactSize_def Let_def dest!: state_read_shape(1) split: if_splits)

lemma read_string_state:
  assumes "read_string state_read s = Inr (x, s')"
  shows "sData s' = sData s" and "x \<in> names_in (sData s)"
proof -
  obtain n t where n: "ReadCompactSize state_read s = Inr (n, t)"
    and x: "(if n \<noteq> 0 then state_read n t else Inr ([], t)) = Inr (x, s')"
    using assms by (auto simp: read_string_def)
  have t: "sData t = sData s" using ReadCompactSize_state_data [OF n] .
  show "sData s' = sData s" using x t by (auto dest: state_read_shape split: if_splits)
  show "x \<in> names_in (sData s)"
    using x t set_drop_subset [of "sPos t" "sData s"]
    by (auto simp: names_in_def dest!: state_read_shape(2) split: if_splits
        dest!: subsetD [OF set_take_subset])
qed

lemma parse_fieldE:
  assumes "parse_field s m = Inr ((name, p, f, k), s')"
  obtains s1 t0 s2 t s3 where
    "read_string state_read s = Inr (name, s1)" and "\<not> mapCount m name"
    and "read_word state_read s1 = Inr (t0 :: u8, s2)" and "f \<longleftrightarrow> t0 = TYPES_MUTABLE"
    and "(if f then read_word state_read s2 else Inr (t0, s2)) = Inr (t, s3)"
    and "p = dec32 (sPos s3)"
    and "fixed_size t = Some k \<and> s' = s3 \<or> fixed_size t = None \<and>
         (t = TYPES_STRING \<or> t = TYPES_BYTES) \<and> ReadCompactSize state_read s3 = Inr (k, s')"
proof -
  from assms obtain n s1 t0 s2 t s3 where r1: "read_string state_read s = Inr (n, s1)"
    and c1: "\<not> mapCount m n"
    and r2: "read_word state_read s1 = Inr (t0 :: u8, s2)"
    and r3: "(if t0 = TYPES_MUTABLE then read_word state_read s2 else Inr (t0, s2)) = Inr (t, s3)"
    and q2: "(case fixed_size t of
       Some k \<Rightarrow> Inr ((n, dec32 (sPos s3), t0 = TYPES_MUTABLE, k), s3)
     | None \<Rightarrow>
         if t = TYPES_STRING \<or> t = TYPES_BYTES then
           rbind (ReadCompactSize state_read s3)
             (\<lambda>(nSize, s). Inr ((n, dec32 (sPos s3), t0 = TYPES_MUTABLE, nSize), s))
         else Inl (Reject ''malformed object register (unexpected type)''))
       = Inr ((name, p, f, k), s')"
    unfolding parse_field_def Let_def by (elim rbind_pairE if_InlE)
  have "n = name \<and> (f \<longleftrightarrow> t0 = TYPES_MUTABLE) \<and> p = dec32 (sPos s3) \<and>
    (fixed_size t = Some k \<and> s' = s3 \<or> fixed_size t = None \<and>
         (t = TYPES_STRING \<or> t = TYPES_BYTES) \<and> ReadCompactSize state_read s3 = Inr (k, s'))"
  proof (cases "fixed_size t")
    case None
    then show ?thesis using q2 by (simp split: if_splits)
  next
    case (Some j)
    then show ?thesis using q2 by auto
  qed
  with r1 r2 r3 c1 show ?thesis by (intro that [of s1 t0 s2 t s3]) simp_all
qed

lemma parse_field_shape:
  assumes "parse_field s m = Inr ((name, p, f, k), s')"
  shows "sData s' = sData s" and "name \<in> names_in (sData s)" and "\<not> mapCount m name"
proof -
  from assms obtain s1 t0 s2 t s3 where
    r: "read_string state_read s = Inr (name, s1)" "\<not> mapCount m name"
    "read_word state_read s1 = Inr (t0 :: u8, s2)"
    "(if f then read_word state_read s2 else Inr (t0, s2)) = Inr (t, s3)"
    "fixed_size t = Some k \<and> s' = s3 \<or> fixed_size t = None \<and>
         (t = TYPES_STRING \<or> t = TYPES_BYTES) \<and> ReadCompactSize state_read s3 = Inr (k, s')"
    by (elim parse_fieldE)
  have "sData s3 = sData s2"
    using r(4) by (cases f) (simp_all add: read_word_state_data)
  moreover have "sData s' = sData s3" using r(5) ReadCompactSize_state_data by metis
  ultimately show "sData s' = sData s"
    using read_string_state(1) [OF r(1)] read_word_state_data [OF r(3)] by simp
  show "name \<in> names_in (sData s)" by (rule read_string_state(2) [OF r(1)])
  show "\<not> mapCount m name" by (rule r(2))
qed

lemma mapCount_iff: "mapCount m name \<longleftrightarrow> name \<in> fst ` set m"
  by (simp add: mapCount_def map_of_eq_None_iff)

lemma parse_one_fresh:
  assumes "parse_one s m = Inr (m', s')"
  shows "card (names_in (sData s') - fst ` set m') < card (names_in (sData s) - fst ` set m)"
proof -
  from assms obtain name p f k t where pf: "parse_field s m = Inr ((name, p, f, k), t)"
    and m': "m' = m @ [(name, (of_nat p, f))]" and s': "sData s' = sData t"
    by (auto simp: parse_one_def)
  note sh = parse_field_shape [OF pf]
  have "names_in (sData s') - fst ` set m' \<subset> names_in (sData s) - fst ` set m"
    using sh m' s' by (auto simp: mapCount_iff)
  then show ?thesis by (intro psubset_card_mono) (simp_all add: finite_names_in)
qed

function parse_loop :: "stream \<Rightarrow> field_map \<Rightarrow> field_map res" where
  "parse_loop s m =
     (if state_end s then Inr m
      else rbind (parse_one s m) (\<lambda>(m, s). parse_loop s m))"
  by pat_completeness auto
termination
  by (relation "measure (\<lambda>(s, m). card (names_in (sData s) - fst ` set m))")
    (auto dest: parse_one_fresh)

declare parse_loop.simps [simp del]

definition Object_Parse :: "object \<Rightarrow> object res" where
  "Object_Parse ob =
     (if mapData ob \<noteq> [] then Inl (Reject ''object is already parsed'')
      else if nType ob \<noteq> REGISTER_OBJECT \<and> nType ob \<noteq> REGISTER_SYSTEM then
        Inl (Reject ''not an object register'')
      else rbind (parse_loop (cursor ob 0) []) (\<lambda>m. Inr (ob\<lparr>mapData := m\<rparr>)))"

section \<open>Field access\<close>

text \<open>The type enumeration of a C++ integer type, by its width.\<close>

definition type_enum :: "nat \<Rightarrow> u8" where
  "type_enum w =
     (if w = 8 then TYPES_UINT8_T else if w = 16 then TYPES_UINT16_T
      else if w = 32 then TYPES_UINT32_T else if w = 64 then TYPES_UINT64_T
      else if w = 256 then TYPES_UINT256_T else if w = 512 then TYPES_UINT512_T
      else if w = 1024 then TYPES_UINT1024_T else TYPES_UNSUPPORTED)"

definition Object_Type :: "byte list \<Rightarrow> object \<Rightarrow> u8 res" where
  "Object_Type strName ob =
     (if mapData ob = [] then Inl (Reject ''object is not parsed'')
      else case map_of (mapData ob) strName of
        None \<Rightarrow> Inl (Reject ''no such field'')
      | Some (p, _) \<Rightarrow>
          rbind (read_word state_read (cursor ob (unat p))) (\<lambda>(t, _).
            if t = TYPES_UNSUPPORTED then Inl (Reject ''unsupported type'') else Inr t))"

definition Object_Check :: "byte list \<Rightarrow> u8 \<Rightarrow> bool \<Rightarrow> object \<Rightarrow> bool res" where
  "Object_Check strName typ fMutable ob =
     (if mapData ob = [] then Inr False
      else case map_of (mapData ob) strName of
        None \<Rightarrow> Inr False
      | Some (p, f) \<Rightarrow>
          rbind (read_word state_read (cursor ob (unat p))) (\<lambda>(nCheck, _).
            if typ \<noteq> nCheck then Inr False else Inr (fMutable = f)))"

definition Object_CheckName :: "byte list \<Rightarrow> object \<Rightarrow> bool" where
  "Object_CheckName strName ob = (if mapData ob = [] then False else mapCount (mapData ob) strName)"

text \<open>A missing field or type gives size 0, which is the source's \<open>return false\<close> and
  \<open>return 0\<close>.\<close>

definition Object_Size :: "byte list \<Rightarrow> object \<Rightarrow> nat res" where
  "Object_Size strName ob =
     (if mapData ob = [] then Inr 0
      else case Object_Type strName ob of
        Inl (Reject _) \<Rightarrow> Inr 0
      | Inl e \<Rightarrow> Inl e
      | Inr t \<Rightarrow>
          (case fixed_size t of
             Some k \<Rightarrow> Inr k
           | None \<Rightarrow>
               if t = TYPES_STRING \<or> t = TYPES_BYTES then
                 rbind (ReadCompactSize state_read
                   (cursor ob (unat (fst (the (map_of (mapData ob) strName))) + 1))) (\<lambda>(n, _). Inr n)
               else Inr 0))"

text \<open>\<open>Read\<close> of a word type, of a string and of a byte vector.\<close>

definition read_field :: "byte list \<Rightarrow> u8 \<Rightarrow> (stream \<Rightarrow> ('a \<times> stream) res) \<Rightarrow> object \<Rightarrow> 'a res" where
  "read_field strName typ rd ob =
     (if mapData ob = [] then Inl (Reject ''object is not parsed'')
      else case map_of (mapData ob) strName of
        None \<Rightarrow> Inl (Reject ''no such field'')
      | Some (p, _) \<Rightarrow>
          rbind (read_word state_read (cursor ob (unat p))) (\<lambda>(t, s).
            if t = TYPES_UNSUPPORTED then Inl (Reject ''unsupported type'')
            else if typ \<noteq> t then Inl (Reject ''type mismatch'')
            else rbind (rd s) (\<lambda>(x, _). Inr x)))"

definition Object_Read :: "byte list \<Rightarrow> object \<Rightarrow> ('a::len word) res" where
  "Object_Read strName = read_field strName (type_enum LENGTH('a)) (read_word state_read)"

definition Object_ReadString :: "byte list \<Rightarrow> object \<Rightarrow> byte list res" where
  "Object_ReadString strName = read_field strName TYPES_STRING (read_string state_read)"

definition Object_ReadBytes :: "byte list \<Rightarrow> object \<Rightarrow> byte list res" where
  "Object_ReadBytes strName = read_field strName TYPES_BYTES (read_vector state_read)"

text \<open>\<open>get\<close> turns a failed read into an exception.\<close>

definition get_of :: "'a res \<Rightarrow> 'a res" where
  "get_of r = (case r of Inl (Reject _) \<Rightarrow> Inl (Throw ''member access read failed'') | _ \<Rightarrow> r)"

definition Object_get :: "byte list \<Rightarrow> object \<Rightarrow> ('a::len word) res" where
  "Object_get strName ob = get_of (Object_Read strName ob)"

definition Object_getString :: "byte list \<Rightarrow> object \<Rightarrow> byte list res" where
  "Object_getString strName ob = get_of (Object_ReadString strName ob)"

definition overwrite :: "nat \<Rightarrow> byte list \<Rightarrow> byte list \<Rightarrow> byte list" where
  "overwrite p bs v = take p v @ bs @ drop (p + length bs) v"

definition Object_Write :: "byte list \<Rightarrow> 'a::len word \<Rightarrow> object \<Rightarrow> object res" where
  "Object_Write strName x ob =
     (case map_of (mapData ob) strName of
        None \<Rightarrow> Inl (Reject ''no such field'')
      | Some (p, fMutable) \<Rightarrow>
          if \<not> fMutable then Inl (Reject ''cannot set value for READONLY data member'')
          else rbind (read_word state_read (cursor ob (unat p))) (\<lambda>(t, s).
            if t = TYPES_UNSUPPORTED then Inl (Reject ''unsupported type'')
            else if type_enum LENGTH('a) \<noteq> t then Inl (Reject ''type mismatch'')
            else if sPos s + LENGTH('a) div 8 > length (vchState ob) then
              Inl (Reject ''performing an over-write'')
            else Inr (ob\<lparr>vchState := overwrite (sPos s) (ser_word x) (vchState ob)\<rparr>)))"

text \<open>The overloads for strings and byte vectors differ in the type they ask for.\<close>

definition Object_WriteData :: "u8 \<Rightarrow> byte list \<Rightarrow> byte list \<Rightarrow> object \<Rightarrow> object res" where
  "Object_WriteData typ strName vData ob =
     (if mapData ob = [] then Inl (Reject ''object is not parsed'')
      else case map_of (mapData ob) strName of
        None \<Rightarrow> Inl (Reject ''no such field'')
      | Some (p, fMutable) \<Rightarrow>
          if \<not> fMutable then Inl (Reject ''cannot set value for READONLY data member'')
          else rbind (read_word state_read (cursor ob (unat p))) (\<lambda>(t :: u8, s).
            if t \<noteq> typ then Inl (Reject ''type must be string or bytes'')
            else rbind (ReadCompactSize state_read s) (\<lambda>(nSize, s).
              if nSize \<noteq> length vData then Inl (Reject ''size mismatch'')
              else if sPos s + nSize > length (vchState ob) then
                Inl (Reject ''performing an over-write'')
              else Inr (ob\<lparr>vchState := overwrite (sPos s) vData (vchState ob)\<rparr>))))"

section \<open>Standard types\<close>

definition check_all :: "(byte list \<times> u8 \<times> bool) list \<Rightarrow> object \<Rightarrow> bool res" where
  "check_all cs ob = foldr (\<lambda>(n, t, f) r. rand (Object_Check n t f ob) r) cs (Inr True)"

definition CRYPTO_FIELDS :: "(byte list \<times> u8 \<times> bool) list" where
  "CRYPTO_FIELDS = map (\<lambda>n. (str n, TYPES_UINT256_T, True))
     [''auth'', ''lisp'', ''network'', ''sign'', ''verify'', ''cert'', ''app1'', ''app2'', ''app3'']"

definition Object_Standard :: "object \<Rightarrow> u8 res" where
  "Object_Standard ob =
     rbind (rand (Inr (length (mapData ob) = 1))
              (check_all [(str ''namespace'', TYPES_STRING, False)] ob)) (\<lambda>ns.
     if ns then Inr OBJECTS_NAMESPACE else
     rbind (rand (Inr (length (mapData ob) = 9)) (check_all CRYPTO_FIELDS ob)) (\<lambda>cr.
     if cr then Inr OBJECTS_CRYPTO else
     rbind (rand (Inr (length (mapData ob) = 3))
              (rand (check_all [(str ''namespace'', TYPES_STRING, False),
                                (str ''name'', TYPES_STRING, False)] ob)
                    (Inr (Object_CheckName (str ''address'') ob)))) (\<lambda>nm.
     if nm then Inr OBJECTS_NAME else
     rbind (check_all [(str ''token'', TYPES_UINT256_T, False),
                       (str ''balance'', TYPES_UINT64_T, True)] ob) (\<lambda>acc.
     if \<not> acc then Inr OBJECTS_NONSTANDARD else
     rbind (check_all [(str ''supply'', TYPES_UINT64_T, False),
                       (str ''decimals'', TYPES_UINT8_T, False)] ob) (\<lambda>tok.
     if tok then Inr OBJECTS_TOKEN else
     rbind (check_all [(str ''trust'', TYPES_UINT64_T, True),
                       (str ''stake'', TYPES_UINT64_T, True)] ob) (\<lambda>tr.
     if tr then Inr OBJECTS_TRUST else Inr OBJECTS_ACCOUNT))))))"

definition Object_Base :: "object \<Rightarrow> u8 res" where
  "Object_Base ob =
     rbind (check_all [(str ''token'', TYPES_UINT256_T, False),
                       (str ''balance'', TYPES_UINT64_T, True)] ob) (\<lambda>acc.
     if acc then Inr OBJECTS_ACCOUNT else
     rbind (check_all [(str ''namespace'', TYPES_STRING, False)] ob) (\<lambda>ns.
     if ns then Inr OBJECTS_NAMESPACE else Inr OBJECTS_NONSTANDARD))"

section \<open>Cursor arithmetic\<close>

text \<open>Registers are far below 4 GB: without wrap-around a read moves the cursor forward and
  depends only on the bytes it covers.\<close>

lemma state_read_pos:
  assumes "state_read n s = Inr (bs, s')" and "sPos s + n < 2 ^ 32"
  shows "sPos s' = sPos s + n" and "sPos s' \<le> length (sData s)" and "length bs = n"
  using assms by (auto simp: state_read_def Let_def split: if_splits)

text \<open>\<open>same_off a b v v'\<close>: the two vectors have the same length and agree outside
  \<open>[a, b)\<close>.\<close>

definition same_off :: "nat \<Rightarrow> nat \<Rightarrow> byte list \<Rightarrow> byte list \<Rightarrow> bool" where
  "same_off a b v v' \<longleftrightarrow>
     length v' = length v \<and> (\<forall>i < length v. i < a \<or> b \<le> i \<longrightarrow> v' ! i = v ! i)"

lemma same_off_take:
  assumes "same_off a b v v'" and "p + n \<le> a \<or> b \<le> p"
  shows "take n (drop p v') = take n (drop p v)"
  using assms by (intro nth_equalityI) (auto simp: same_off_def)

lemma same_off_overwrite:
  assumes "p + length bs \<le> length v"
  shows "same_off p (p + length bs) v (overwrite p bs v)"
  using assms by (auto simp: same_off_def overwrite_def nth_append min_def)

lemma length_overwrite: "p + length bs \<le> length v \<Longrightarrow> length (overwrite p bs v) = length v"
  by (simp add: overwrite_def)

lemma overwrite_take: "p + length bs \<le> length v \<Longrightarrow> take (length bs) (drop p (overwrite p bs v)) = bs"
  by (simp add: overwrite_def)

lemma overwrite_twice:
  assumes "p + length bs \<le> length v" and "length cs = length bs"
  shows "overwrite p cs (overwrite p bs v) = overwrite p cs v"
  using assms by (simp add: overwrite_def)

lemma overwrite_same:
  assumes "p + length bs \<le> length v" and "take (length bs) (drop p v) = bs"
  shows "overwrite p bs v = v"
  using assms by (metis append_take_drop_id drop_drop overwrite_def add.commute)

end
