(* ===== verification/Object_Layout.thy ===== *)
theory Object_Layout
  imports Register_Object
begin

text \<open>
  The layout of object registers: what \<open>Parse\<close> establishes about the positions of the fields,
  and that \<open>Write\<close>, which works in place, keeps all of it. Everything the operations layer
  does with balances, stakes and trust scores rests on these facts.
\<close>

section \<open>Definitions\<close>

text \<open>
  \<open>local_read f\<close>: on data below 2 GB the parser \<open>f\<close> moves the cursor forward inside the data
  and its outcome depends only on the bytes it passes over.
\<close>

definition local_read :: "(stream \<Rightarrow> ('a \<times> stream) res) \<Rightarrow> bool" where
  "local_read f \<longleftrightarrow>
     (\<forall>s x s'. state_ok s \<and> f s = Inr (x, s') \<longrightarrow>
        sData s' = sData s \<and> sPos s \<le> sPos s' \<and> state_ok s' \<and>
        (\<forall>v' a b. same_off a b (sData s) v' \<longrightarrow> sPos s' \<le> a \<or> b \<le> sPos s \<longrightarrow>
           f (s\<lparr>sData := v'\<rparr>) = Inr (x, s'\<lparr>sData := v'\<rparr>)))"

text \<open>
  The position recorded for a field is that of its type byte; \<open>val_at\<close> gives the start and
  the size of the value behind it.
\<close>

definition val_at :: "byte list \<Rightarrow> nat \<Rightarrow> (nat \<times> nat) option" where
  "val_at v q = (case fixed_size (v ! q) of Some k \<Rightarrow> Some (q + 1, k)
     | None \<Rightarrow> if v ! q = TYPES_STRING \<or> v ! q = TYPES_BYTES then
         (case ReadCompactSize state_read \<lparr>sData = v, sPos = q + 1\<rparr> of
            Inr (n, s) \<Rightarrow> Some (sPos s, n) | Inl _ \<Rightarrow> None)
         else None)"

text \<open>\<open>laid v p m\<close>: from position \<open>p\<close> on, the data \<open>v\<close> is covered by the fields of \<open>m\<close>, in this
  order and without overlap. Only the value of the last field may reach past the end.\<close>

fun laid :: "byte list \<Rightarrow> nat \<Rightarrow> field_map \<Rightarrow> bool" where
  "laid v p [] = (length v \<le> p)"
| "laid v p ((name, (q, f)) # m) \<longleftrightarrow>
     (case val_at v (unat q) of
        None \<Rightarrow> False
      | Some (a, k) \<Rightarrow> p \<le> unat q \<and> unat q < a \<and> a \<le> length v \<and> laid v (a + k) m)"

text \<open>The invariant of a parsed object register: its map is the one \<open>Parse\<close> builds.\<close>

definition parsed :: "object \<Rightarrow> bool" where
  "parsed ob \<longleftrightarrow> length (vchState ob) < 2 ^ 16 \<and> parse_loop (cursor ob 0) [] = Inr (mapData ob)"

text \<open>\<open>field_update n ob ob'\<close>: the object \<open>ob'\<close> differs from \<open>ob\<close> at most in the bytes of the value
  of the field \<open>n\<close>. Every overload of \<open>Write\<close> is such an update.\<close>

definition field_update :: "byte list \<Rightarrow> object \<Rightarrow> object \<Rightarrow> bool" where
  "field_update n ob ob' \<longleftrightarrow>
     (\<exists>q f a k v'. map_of (mapData ob) n = Some (q, f) \<and> val_at (vchState ob) (unat q) = Some (a, k) \<and>
        same_off a (a + k) (vchState ob) v' \<and> ob' = ob\<lparr>vchState := v'\<rparr>)"

text \<open>A field and the standard type of a register state, as a reader of the state finds them.\<close>

definition field_of :: "byte list \<Rightarrow> reg_state \<Rightarrow> ('a::len word) res" where
  "field_of n s = rbind (Object_Parse (Object_of s)) (Object_get n)"

definition standard_of :: "reg_state \<Rightarrow> u8 res" where
  "standard_of s = rbind (Object_Parse (Object_of s)) Object_Standard"

section \<open>Local parsers\<close>

lemma local_readD:
  assumes "local_read f" and "f s = Inr (x, s')" and "state_ok s"
  shows "sData s' = sData s" and "sPos s \<le> sPos s'" and "state_ok s'"
    and "\<And>v' a b. same_off a b (sData s) v' \<Longrightarrow> sPos s' \<le> a \<or> b \<le> sPos s \<Longrightarrow>
      f (s\<lparr>sData := v'\<rparr>) = Inr (x, s'\<lparr>sData := v'\<rparr>)"
  using assms unfolding local_read_def by blast+

lemma local_readI:
  assumes "\<And>s x s'. state_ok s \<Longrightarrow> f s = Inr (x, s') \<Longrightarrow>
      sData s' = sData s \<and> sPos s \<le> sPos s' \<and> state_ok s'"
    and "\<And>s x s' v' a b. state_ok s \<Longrightarrow> f s = Inr (x, s') \<Longrightarrow> same_off a b (sData s) v' \<Longrightarrow>
      sPos s' \<le> a \<or> b \<le> sPos s \<Longrightarrow> f (s\<lparr>sData := v'\<rparr>) = Inr (x, s'\<lparr>sData := v'\<rparr>)"
  shows "local_read f"
  using assms unfolding local_read_def by blast

lemma state_ok_same: "state_ok s \<Longrightarrow> same_off a b (sData s) v' \<Longrightarrow> state_ok (s\<lparr>sData := v'\<rparr>)"
  by (simp add: state_ok_def same_off_def)

lemma state_read_ok:
  assumes "state_ok s" and "n < 2 ^ 27" and "state_read n s = Inr (x, s')"
  shows "n \<le> length (stream_rest s)"
proof -
  have eq: "(sPos s + n) mod 2 ^ 32 = sPos s + n"
    using assms(1,2) by (simp add: state_ok_def)
  from assms(3) have "\<not> length (sData s) < sPos s + n"
    unfolding state_read_def Let_def eq by (elim if_InlE)
  then show ?thesis by (simp add: stream_rest_def)
qed

lemma dec32_pred: "0 < p \<Longrightarrow> p < 2 ^ 32 \<Longrightarrow> dec32 p = p - 1"
  by (cases p) (simp_all add: dec32_def)

lemma local_state_read:
  assumes n: "n < 2 ^ 27"
  shows "local_read (state_read n)"
proof (rule local_readI)
  fix s x s' assume ok: "state_ok s" and r: "state_read n s = Inr (x, s')"
  note le = state_read_ok [OF ok n r]
  have s': "s' = stream_adv n s" "x = take n (stream_rest s)"
    using rs.rd_ok [OF ok le] r by simp_all
  show "sData s' = sData s \<and> sPos s \<le> sPos s' \<and> state_ok s'"
    using s' rs.ok_adv [OF ok le] by (simp add: stream_adv_def)
  fix v' a b assume so: "same_off a b (sData s) v'" and d: "sPos s' \<le> a \<or> b \<le> sPos s"
  have "state_ok (s\<lparr>sData := v'\<rparr>)" by (rule state_ok_same [OF ok so])
  moreover have "n \<le> length (stream_rest (s\<lparr>sData := v'\<rparr>))"
    using le so by (simp add: stream_rest_def same_off_def)
  moreover have "take n (stream_rest (s\<lparr>sData := v'\<rparr>)) = x"
    using same_off_take [OF so, of "sPos s" n] d s' by (simp add: stream_rest_def stream_adv_def)
  ultimately show "state_read n (s\<lparr>sData := v'\<rparr>) = Inr (x, s'\<lparr>sData := v'\<rparr>)"
    using rs.rd_ok [of "s\<lparr>sData := v'\<rparr>" n] s' by (simp add: stream_adv_def)
qed

lemma local_return: "local_read (\<lambda>s. Inr (x, s))"
  by (rule local_readI) auto

lemma local_fail: "local_read (\<lambda>s. Inl e)"
  by (rule local_readI) auto

lemma local_bind:
  assumes f: "local_read f" and g: "\<And>x s s'. f s = Inr (x, s') \<Longrightarrow> local_read (g x)"
  shows "local_read (\<lambda>s. rbind (f s) (\<lambda>(x, s). g x s))"
proof (rule local_readI)
  fix s y s'' assume ok: "state_ok s" and r: "rbind (f s) (\<lambda>(x, s). g x s) = Inr (y, s'')"
  from r obtain x s' where r1: "f s = Inr (x, s')" and r2: "g x s' = Inr (y, s'')"
    by (elim rbind_pairE)
  note l1 = local_readD [OF f r1 ok]
  note l2 = local_readD [OF g [OF r1] r2 l1(3)]
  show "sData s'' = sData s \<and> sPos s \<le> sPos s'' \<and> state_ok s''"
    using l1(1,2) l2(1-3) by simp
  fix w a b assume w: "same_off a b (sData s) w" "sPos s'' \<le> a \<or> b \<le> sPos s"
  have "f (s\<lparr>sData := w\<rparr>) = Inr (x, s'\<lparr>sData := w\<rparr>)"
    using l1(4) [OF w(1)] w(2) l2(2) by linarith
  moreover have "g x (s'\<lparr>sData := w\<rparr>) = Inr (y, s''\<lparr>sData := w\<rparr>)"
    using l2(4) [of a b w] w l1(1,2) by (metis le_trans)
  ultimately show "rbind (f (s\<lparr>sData := w\<rparr>)) (\<lambda>(x, s). g x s) = Inr (y, s''\<lparr>sData := w\<rparr>)"
    by simp
qed

lemma local_read_word:
  assumes "LENGTH('a::len) < 2 ^ 27"
  shows "local_read (read_word state_read :: stream \<Rightarrow> ('a word \<times> stream) res)"
  unfolding read_word_def
  by (intro local_bind local_state_read local_return) (use assms in linarith)

lemma local_if: "local_read f \<Longrightarrow> local_read g \<Longrightarrow> local_read (\<lambda>s. if c then f s else g s)"
  by (cases c) simp_all

lemma local_ReadCompactSize: "local_read (ReadCompactSize state_read)"
  unfolding ReadCompactSize_def Let_def
  by (intro local_bind local_if local_state_read local_return local_fail) simp_all

lemma ReadCompactSize_bound: "ReadCompactSize rd s = Inr (n, s') \<Longrightarrow> n \<le> MAX_SIZE"
  unfolding ReadCompactSize_def Let_def by (elim rbind_pairE if_InlE) simp

lemma local_read_string: "local_read (read_string state_read)"
  unfolding read_string_def
proof (intro local_bind local_if local_return local_ReadCompactSize local_state_read)
  fix n s s' assume "ReadCompactSize state_read s = Inr (n, s')"
  from MAX_SIZE_less [OF ReadCompactSize_bound [OF this]] show "n < 2 ^ 27" by simp
qed


lemma local_pos: "(\<And>p. local_read (F p)) \<Longrightarrow> local_read (\<lambda>s. F (sPos s) s)"
  unfolding local_read_def by auto

lemma local_parse_field: "local_read (\<lambda>s. parse_field s m)"
  unfolding parse_field_def Let_def
proof (intro local_bind local_if local_return local_read_string local_read_word local_fail)
  fix name t0 t
  show "local_read (\<lambda>s. case fixed_size t of
       Some k \<Rightarrow> Inr ((name, dec32 (sPos s), t0 = TYPES_MUTABLE, k), s)
     | None \<Rightarrow>
         if t = TYPES_STRING \<or> t = TYPES_BYTES then
           rbind (ReadCompactSize state_read s)
             (\<lambda>(nSize, s'). Inr ((name, dec32 (sPos s), t0 = TYPES_MUTABLE, nSize), s'))
         else Inl (Reject ''malformed object register (unexpected type)''))"
    by (cases "fixed_size t"; rule local_pos)
      (simp add: local_return | intro local_if local_bind local_ReadCompactSize local_return local_fail)+
qed simp_all

lemma read_byte_state:
  assumes ok: "state_ok s" and r: "read_word state_read s = Inr (t :: u8, s')"
  shows "sPos s' = sPos s + 1" and "sPos s < length (sData s)" and "t = sData s ! sPos s"
proof -
  obtain bs where b: "state_read 1 s = Inr (bs, s')" "t = deser_word bs"
    using r by (auto simp: read_word_def)
  note le = state_read_ok [OF ok _ b(1), simplified]
  then show lt: "sPos s < length (sData s)" by (simp add: stream_rest_def)
  have "s' = stream_adv 1 s" "bs = take 1 (stream_rest s)"
    using rs.rd_ok [OF ok, of 1] le b(1) by simp_all
  then show "sPos s' = sPos s + 1" "t = sData s ! sPos s"
    using b(2) lt
    by (simp_all add: stream_adv_def stream_rest_def take_Suc hd_drop_conv_nth deser_word_def)
qed

lemma parse_field_spec:
  assumes ok: "state_ok s" and pf: "parse_field s m = Inr ((name, p, f, k), s')"
  shows "sPos s \<le> p" and "p < sPos s'" and "sPos s' \<le> length (sData s)"
    and "val_at (sData s) p = Some (sPos s', k)" and "k \<le> MAX_SIZE"
proof -
  from pf obtain s1 t0 s2 t s3 where
    r: "read_string state_read s = Inr (name, s1)"
    "read_word state_read s1 = Inr (t0 :: u8, s2)"
    "(if f then read_word state_read s2 else Inr (t0, s2)) = Inr (t, s3)"
    "p = dec32 (sPos s3)"
    "fixed_size t = Some k \<and> s' = s3 \<or> fixed_size t = None \<and>
         (t = TYPES_STRING \<or> t = TYPES_BYTES) \<and> ReadCompactSize state_read s3 = Inr (k, s')"
    by (elim parse_fieldE)
  note l1 = local_readD [OF local_read_string r(1) ok]
  note l2 = local_readD [OF local_read_word r(2) l1(3), simplified]
  note b2 = read_byte_state [OF l1(3) r(2)]
  have l3: "sData s3 = sData s2 \<and> state_ok s3 \<and> sPos s < sPos s3 \<and> t = sData s2 ! (sPos s3 - 1)"
    using r(3) l1(1,2) l2 b2 local_readD [OF local_read_word, of s2 t s3] read_byte_state [OF l2(3), of t s3]
    by (cases f) auto
  have p: "p = sPos s3 - 1" "sPos s3 \<le> length (sData s)"
    using l3 l1(1) l2(1) r(4) by (auto simp: dec32_pred state_ok_def)
  have s': "sData s' = sData s3 \<and> sPos s3 \<le> sPos s' \<and> state_ok s'"
    using r(5) local_readD [OF local_ReadCompactSize, of s3 k s'] l3 by auto
  show "sPos s \<le> p" "p < sPos s'" "sPos s' \<le> length (sData s)"
    using p s' l3 l2(1) l1(1) by (auto simp: state_ok_def)
  have c: "\<lparr>sData = sData s, sPos = p + 1\<rparr> = s3" using p l3 l2(1) l1(1) by (cases s3) auto
  have t: "sData s ! p = t" "p + 1 = sPos s3" using p l3 l2(1) l1(1) by auto
  show "val_at (sData s) p = Some (sPos s', k)"
    using r(5) t(2) unfolding val_at_def c t(1) by auto
  show "k \<le> MAX_SIZE"
    using r(5) ReadCompactSize_bound by (auto simp: fixed_size_def MAX_SIZE_def split: if_splits)
qed


section \<open>Field layout\<close>

lemma parse_one_spec:
  assumes ok: "state_ok s" and v: "length (sData s) < 2 ^ 16" and po: "parse_one s m = Inr (m', s')"
  obtains name q f k t where "parse_field s m = Inr ((name, unat q, f, k), t)"
    and "m' = m @ [(name, (q, f))]" and "sData s' = sData s"
    and "sPos s \<le> unat q" and "unat q < sPos t" and "sPos t \<le> length (sData s)"
    and "val_at (sData s) (unat q) = Some (sPos t, k)"
    and "sPos s' = sPos t + k" and "sPos s' < 2 ^ 31"
proof -
  from po obtain name p f k t where pf: "parse_field s m = Inr ((name, p, f, k), t)"
    and m': "m' = m @ [(name, (of_nat p, f))]" and s': "s' = t\<lparr>sPos := add32 (sPos t) k\<rparr>"
    by (auto simp: parse_one_def)
  note sp = parse_field_spec [OF ok pf]
  have up: "unat (of_nat p :: u16) = p"
    using sp v by (simp add: unat_of_nat)
  have sum: "add32 (sPos t) k = sPos t + k" "sPos t + k < 2 ^ 31"
    using sp(3) v MAX_SIZE_less [OF sp(5)] by (simp_all add: add32_def)
  show ?thesis
    using sp sum parse_field_shape(1) [OF pf] pf m' s' up
    by (intro that [of name "of_nat p" f k t]) simp_all
qed

lemma parse_loop_step:
  assumes "parse_loop s m = Inr m'" and "\<not> state_end s"
  obtains m1 s1 where "parse_one s m = Inr (m1, s1)" and "parse_loop s1 m1 = Inr m'"
  using assms by (auto simp: parse_loop.simps [of s])

lemma parse_loop_laid:
  assumes "parse_loop s m = Inr m'" and "length (sData s) < 2 ^ 16" and "sPos s < 2 ^ 31"
  shows "\<exists>n. m' = m @ n \<and> laid (sData s) (sPos s) n"
  using assms
proof (induction s m rule: parse_loop.induct)
  case (1 s m)
  show ?case
  proof (cases "state_end s")
    case True
    then show ?thesis using "1.prems"(1) by (simp add: parse_loop.simps [of s] state_end_def)
  next
    case False
    with "1.prems"(1) obtain m1 s1 where po: "parse_one s m = Inr (m1, s1)"
      and pl: "parse_loop s1 m1 = Inr m'" by (rule parse_loop_step)
    have ok: "state_ok s" using False "1.prems"(2) by (simp add: state_end_def state_ok_def)
    obtain name q f k t where "parse_field s m = Inr ((name, unat q, f, k), t)"
      and q: "m1 = m @ [(name, (q, f))]" "sData s1 = sData s" "sPos s \<le> unat q" "unat q < sPos t"
        "sPos t \<le> length (sData s)" "val_at (sData s) (unat q) = Some (sPos t, k)"
        "sPos s1 = sPos t + k" "sPos s1 < 2 ^ 31"
      by (rule parse_one_spec [OF ok "1.prems"(2) po])
    obtain n where n: "m' = m1 @ n" "laid (sData s1) (sPos s1) n"
      using "1.IH" [OF False po refl pl] "1.prems"(2) q by auto
    then show ?thesis using q by (intro exI [of _ "(name, (q, f)) # n"]) simp
  qed
qed

lemma laid_entry:
  assumes "laid v p m" and "(n, (q, f)) \<in> set m"
  obtains a k where "val_at v (unat q) = Some (a, k)" and "p \<le> unat q" and "unat q < a"
    and "a \<le> length v"
  using assms
proof (induction m arbitrary: p)
  case (Cons e m)
  obtain n' q' f' where e: "e = (n', (q', f'))" by (cases e) auto
  with Cons.prems(2) obtain a k where l: "val_at v (unat q') = Some (a, k)" "p \<le> unat q'"
    "unat q' < a" "a \<le> length v" "laid v (a + k) m" by (auto split: option.splits)
  show ?case
  proof (cases "e = (n, (q, f))")
    case True with l e show ?thesis by (intro Cons.prems(1)) auto
  next
    case False
    then show ?thesis using Cons.IH [OF _ l(5)] Cons.prems(1,3) l by fastforce
  qed
qed simp

lemma laid_disjoint:
  assumes "laid v p m" and "(n, (q, f)) \<in> set m" and "(n', (q', f')) \<in> set m" and "n \<noteq> n'"
    and "val_at v (unat q) = Some (a, k)" and "val_at v (unat q') = Some (a', k')"
  shows "a + k \<le> unat q' \<or> a' + k' \<le> unat q"
  using assms
proof (induction m arbitrary: p)
  case (Cons e m)
  obtain n0 q0 f0 where e: "e = (n0, (q0, f0))" by (cases e) auto
  with Cons.prems(1) obtain a0 k0 where l: "val_at v (unat q0) = Some (a0, k0)" "laid v (a0 + k0) m"
    by (auto split: option.splits)
  have later: "a0 + k0 \<le> unat y" if "(x, (y, z)) \<in> set m" for x y z
    using laid_entry [OF l(2) that] by blast
  consider "e = (n, (q, f))" | "e = (n', (q', f'))" | "(n, (q, f)) \<in> set m" "(n', (q', f')) \<in> set m"
    using Cons.prems(2,3) by auto
  then show ?case
  proof cases
    case 3 then show ?thesis using Cons.IH [OF l(2)] Cons.prems(4-6) by blast
  qed (use e l later Cons.prems in auto)
qed simp

text \<open>A region inside the value of a field is either behind the first field or inside its
  value; in both cases it does not touch the header of the first field.\<close>

lemma region_step:
  assumes l: "laid v p1 n" and va: "val_at v (unat q) = Some (h, k)" and p1: "p1 = h + k"
    and r: "b \<le> p \<or> (\<exists>n' q' f' k'. (n', (q', f')) \<in> set ((name, (q, f)) # n) \<and>
      val_at v (unat q') = Some (a, k') \<and> b \<le> a + k')"
    and p: "p \<le> h"
  shows "(h \<le> a \<or> b \<le> p) \<and> (b \<le> p1 \<or> (\<exists>n' q' f' k'. (n', (q', f')) \<in> set n \<and>
      val_at v (unat q') = Some (a, k') \<and> b \<le> a + k'))"
proof -
  from r consider "b \<le> p"
    | n' q' f' k' where "(n', (q', f')) \<in> set ((name, (q, f)) # n)"
      "val_at v (unat q') = Some (a, k')" "b \<le> a + k'" by blast
  then show ?thesis
  proof cases
    case 1
    then show ?thesis using p p1 by simp
  next
    case 2
    show ?thesis
    proof (cases "(n', (q', f')) \<in> set n")
      case True
      then have "h \<le> a" using laid_entry [OF l True] 2(2) p1 by force
      then show ?thesis using 2 True by blast
    next
      case False
      then have "q' = q" using 2(1) by simp
      then show ?thesis using 2(2,3) va p1 by simp
    qed
  qed
qed

text \<open>The central lemma: rewriting bytes inside the value of one field changes neither the
  field map nor the position of any field.\<close>

lemma parse_loop_same:
  assumes "parse_loop s m = Inr m'" and "length (sData s) < 2 ^ 16" and "sPos s < 2 ^ 31"
    and so: "same_off a b (sData s) v'"
    and "b \<le> sPos s \<or> (\<exists>n q f k. (n, (q, f)) \<in> set (drop (length m) m') \<and>
      val_at (sData s) (unat q) = Some (a, k) \<and> b \<le> a + k)"
  shows "parse_loop (s\<lparr>sData := v'\<rparr>) m = Inr m'"
  using assms
proof (induction s m rule: parse_loop.induct)
  case (1 s m)
  have len: "length v' = length (sData s)" using "1.prems"(4) by (simp add: same_off_def)
  show ?case
  proof (cases "state_end s")
    case True
    then show ?thesis using "1.prems"(1) len
      by (simp add: parse_loop.simps [of s] parse_loop.simps [of "s\<lparr>sData := v'\<rparr>"] state_end_def)
  next
    case False
    with "1.prems"(1) obtain m1 s1 where po: "parse_one s m = Inr (m1, s1)"
      and pl: "parse_loop s1 m1 = Inr m'" by (rule parse_loop_step)
    have ok: "state_ok s" using False "1.prems"(2) by (simp add: state_end_def state_ok_def)
    obtain name q f k t where pf: "parse_field s m = Inr ((name, unat q, f, k), t)"
      and q: "m1 = m @ [(name, (q, f))]" "sData s1 = sData s" "sPos s \<le> unat q" "unat q < sPos t"
        "sPos t \<le> length (sData s)" "val_at (sData s) (unat q) = Some (sPos t, k)"
        "sPos s1 = sPos t + k" "sPos s1 < 2 ^ 31"
      by (rule parse_one_spec [OF ok "1.prems"(2) po])
    obtain n where n: "m' = m1 @ n" "laid (sData s) (sPos s1) n"
      using parse_loop_laid [OF pl] "1.prems"(2) q by auto
    have out: "(sPos t \<le> a \<or> b \<le> sPos s) \<and> (b \<le> sPos s1 \<or> (\<exists>n q f k.
        (n, (q, f)) \<in> set (drop (length m1) m') \<and>
        val_at (sData s1) (unat q) = Some (a, k) \<and> b \<le> a + k))"
      using region_step [OF n(2) q(6) q(7)] "1.prems"(5) n(1) q(1,2,3,4) by simp
    have "parse_field (s\<lparr>sData := v'\<rparr>) m = Inr ((name, unat q, f, k), t\<lparr>sData := v'\<rparr>)"
      using local_readD(4) [OF local_parse_field pf ok "1.prems"(4)] out by blast
    then have "parse_one (s\<lparr>sData := v'\<rparr>) m = Inr (m1, s1\<lparr>sData := v'\<rparr>)"
      using po pf by (auto simp: parse_one_def)
    moreover have "parse_loop (s1\<lparr>sData := v'\<rparr>) m1 = Inr m'"
      using "1.IH" [OF False po refl pl] "1.prems"(2,4) q out by simp
    moreover have "\<not> state_end (s\<lparr>sData := v'\<rparr>)" using False len by (simp add: state_end_def)
    ultimately show ?thesis by (simp add: parse_loop.simps [of "s\<lparr>sData := v'\<rparr>"])
  qed
qed

section \<open>Writes\<close>

lemma state_read_cursor:
  assumes "p + n < 2 ^ 32"
  shows "state_read n (cursor ob p) = Inr (bs, s) \<longleftrightarrow>
    p + n \<le> length (vchState ob) \<and> bs = take n (drop p (vchState ob)) \<and> s = cursor ob (p + n)"
proof -
  have "(p + n) mod 2 ^ 32 = p + n" using assms by simp
  then show ?thesis unfolding state_read_def Let_def cursor_def by auto
qed

lemma read_word_cursor:
  assumes "p + LENGTH('a::len) < 2 ^ 32"
  shows "read_word state_read (cursor ob p) = Inr (x :: 'a word, s) \<longleftrightarrow>
    p + LENGTH('a) div 8 \<le> length (vchState ob) \<and>
    x = deser_word (take (LENGTH('a) div 8) (drop p (vchState ob))) \<and>
    s = cursor ob (p + LENGTH('a) div 8)"
  using state_read_cursor [of p "LENGTH('a) div 8" ob] assms
  by (auto simp: read_word_def)

lemma u16_less: "unat (q :: u16) < 2 ^ 16"
  using unsigned_less [of q] by simp

lemma read_type_cursor:
  "read_word state_read (cursor ob (unat (q :: u16))) = Inr (t :: u8, s) \<longleftrightarrow>
    unat q < length (vchState ob) \<and> t = vchState ob ! unat q \<and> s = cursor ob (unat q + 1)"
  using read_word_cursor [where 'a = 8, of "unat q" ob t s] u16_less [of q]
  by (auto simp: take_Suc hd_drop_conv_nth deser_word_def Suc_le_eq)

lemma fixed_size_type_enum: "type_enum w \<noteq> 0 \<Longrightarrow> fixed_size (type_enum w) = Some (w div 8)"
  by (simp add: type_enum_def fixed_size_def split: if_splits)

lemma type_enum_width: "type_enum w \<noteq> 0 \<Longrightarrow> w \<le> 1024 \<and> 8 dvd w"
  by (simp add: type_enum_def split: if_splits)

lemma Object_WriteE:
  fixes x :: "'a::len word"
  assumes "Object_Write n x ob = Inr ob'"
  obtains q where "map_of (mapData ob) n = Some (q, True)"
    and "vchState ob ! unat q = type_enum LENGTH('a)" and "type_enum LENGTH('a) \<noteq> 0"
    and "unat q + 1 + LENGTH('a) div 8 \<le> length (vchState ob)"
    and "ob' = ob\<lparr>vchState := overwrite (unat q + 1) (ser_word x) (vchState ob)\<rparr>"
proof -
  from assms obtain q where q: "map_of (mapData ob) n = Some (q, True)"
    by (auto simp: Object_Write_def split: option.splits if_splits)
  with assms obtain t s where t: "read_word state_read (cursor ob (unat q)) = Inr (t, s)"
    and c: "(if t = TYPES_UNSUPPORTED then Inl (Reject ''unsupported type'')
            else if type_enum LENGTH('a) \<noteq> t then Inl (Reject ''type mismatch'')
            else if sPos s + LENGTH('a) div 8 > length (vchState ob) then
              Inl (Reject ''performing an over-write'')
            else Inr (ob\<lparr>vchState := overwrite (sPos s) (ser_word x) (vchState ob)\<rparr>)) = Inr ob'"
    unfolding Object_Write_def by (auto elim!: rbind_pairE simp del: if_Inl_eq_Inr)
  from t have "sPos s = unat q + 1" "t = vchState ob ! unat q"
    unfolding read_type_cursor by (simp_all add: cursor_def)
  with c q show ?thesis by (elim if_InlE) (rule that [of q]; simp)
qed

lemma Object_Write_fields:
  assumes "Object_Write n x ob = Inr ob'"
  shows "mapData ob' = mapData ob" "length (vchState ob') = length (vchState ob)"
    "nVersion ob' = nVersion ob" "nType ob' = nType ob" "hashOwner ob' = hashOwner ob"
    "nCreated ob' = nCreated ob" "nModified ob' = nModified ob" "hashChecksum ob' = hashChecksum ob"
  using assms by (auto elim!: Object_WriteE simp: length_overwrite)

lemma read_field_word:
  fixes x :: "'a::len word"
  assumes "map_of (mapData ob) n = Some (q, f)" and "vchState ob ! unat q = type_enum LENGTH('a)"
    and "type_enum LENGTH('a) \<noteq> 0"
    and "unat q + 1 + LENGTH('a) div 8 \<le> length (vchState ob)"
    and "x = deser_word (take (LENGTH('a) div 8) (drop (unat q + 1) (vchState ob)))"
  shows "Object_get n ob = Inr x" and "Object_Read n ob = Inr x"
proof -
  have t: "read_word state_read (cursor ob (unat q)) = Inr (type_enum LENGTH('a), cursor ob (unat q + 1))"
    unfolding read_type_cursor using assms(2,4) by simp
  have v: "read_word state_read (cursor ob (unat q + 1)) =
      Inr (x, cursor ob (unat q + 1 + LENGTH('a) div 8))"
    using assms(4,5) type_enum_width [OF assms(3)] u16_less [of q]
    by (subst read_word_cursor) auto
  have m: "mapData ob \<noteq> []" using assms(1) by auto
  show "Object_Read n ob = Inr x"
    using m assms(1,3) t v by (simp add: Object_Read_def read_field_def)
  then show "Object_get n ob = Inr x" by (simp add: Object_get_def get_of_def)
qed

lemma Object_getE:
  fixes x :: "'a::len word"
  assumes "Object_get n ob = Inr x"
  obtains q f where "map_of (mapData ob) n = Some (q, f)"
    and "vchState ob ! unat q = type_enum LENGTH('a)" and "type_enum LENGTH('a) \<noteq> 0"
    and "unat q + 1 + LENGTH('a) div 8 \<le> length (vchState ob)"
    and "x = deser_word (take (LENGTH('a) div 8) (drop (unat q + 1) (vchState ob)))"
proof -
  have r: "Object_Read n ob = Inr x"
    using assms by (auto simp: Object_get_def get_of_def split: sum.splits error.splits)
  then obtain q f where q: "map_of (mapData ob) n = Some (q, f)"
    by (auto simp: Object_Read_def read_field_def split: option.splits if_splits)
  with r obtain t s s' where t: "read_word state_read (cursor ob (unat q)) = Inr (t, s)"
    and ty: "t \<noteq> 0" "type_enum LENGTH('a) = t"
    and v: "read_word state_read s = Inr (x, s')"
    by (auto simp: Object_Read_def read_field_def split: if_splits)
  from t have s: "s = cursor ob (unat q + 1)" "t = vchState ob ! unat q"
    unfolding read_type_cursor by simp_all
  have "unat q + 1 + LENGTH('a) < 2 ^ 32"
    using type_enum_width [of "LENGTH('a)"] ty u16_less [of q] by simp
  from v [unfolded s(1) read_word_cursor [OF this]] q s(2) ty show ?thesis
    by (intro that [of q f]) simp_all
qed

text \<open>Reading back what was written.\<close>

lemma Object_Write_get:
  assumes "Object_Write n x ob = Inr ob'"
  shows "Object_get n ob' = Inr x"
proof -
  from assms obtain q where q: "map_of (mapData ob) n = Some (q, True)"
    "vchState ob ! unat q = type_enum LENGTH('a)" "type_enum LENGTH('a) \<noteq> 0"
    "unat q + 1 + LENGTH('a) div 8 \<le> length (vchState ob)"
    "ob' = ob\<lparr>vchState := overwrite (unat q + 1) (ser_word x) (vchState ob)\<rparr>"
    by (rule Object_WriteE)
  have so: "same_off (unat q + 1) (unat q + 1 + LENGTH('a) div 8) (vchState ob) (vchState ob')"
    using same_off_overwrite [of "unat q + 1" "ser_word x" "vchState ob"] q(4,5) by simp
  have "take (LENGTH('a) div 8) (drop (unat q + 1) (vchState ob')) = ser_word x"
    using overwrite_take [of "unat q + 1" "ser_word x" "vchState ob"] q(4,5) by simp
  moreover have "vchState ob' ! unat q = vchState ob ! unat q"
    using so q(4) by (simp add: same_off_def)
  moreover have "8 dvd LENGTH('a)" using type_enum_width [OF q(3)] by simp
  ultimately show ?thesis
    using q Object_Write_fields(1,2) [OF assms]
    by (intro read_field_word(1) [of _ _ q True]) (simp_all add: deser_ser_word)
qed

lemma parsed_laid:
  assumes "parsed ob"
  shows "laid (vchState ob) 0 (mapData ob)"
  using assms parse_loop_laid [of "cursor ob 0" "[]" "mapData ob"]
  by (auto simp: parsed_def cursor_def)

lemma parsed_Parse: "Object_Parse ob = Inr ob' \<Longrightarrow> length (vchState ob) < 2 ^ 16 \<Longrightarrow> parsed ob'"
  by (auto simp: Object_Parse_def parsed_def cursor_def split: if_splits)

lemma val_at_word:
  assumes "vchState ob ! unat q = type_enum w" and "type_enum w \<noteq> 0"
  shows "val_at (vchState ob) (unat q) = Some (unat q + 1, w div 8)"
  using assms fixed_size_type_enum [OF assms(2)] by (simp add: val_at_def)

section \<open>Updates of one field\<close>

lemma field_updateI_word:
  fixes x :: "'a::len word"
  assumes "Object_Write n x ob = Inr ob'"
  shows "field_update n ob ob'"
proof -
  from assms obtain q where q: "map_of (mapData ob) n = Some (q, True)"
    "vchState ob ! unat q = type_enum LENGTH('a)" "type_enum LENGTH('a) \<noteq> 0"
    "unat q + 1 + LENGTH('a) div 8 \<le> length (vchState ob)"
    "ob' = ob\<lparr>vchState := overwrite (unat q + 1) (ser_word x) (vchState ob)\<rparr>"
    by (rule Object_WriteE)
  then show ?thesis
    using same_off_overwrite [of "unat q + 1" "ser_word x" "vchState ob"] val_at_word [OF q(2,3)]
    by (auto simp: field_update_def)
qed

lemma field_updateI_data:
  assumes w: "Object_WriteData t n vData ob = Inr ob'" and t: "t = TYPES_STRING \<or> t = TYPES_BYTES"
  shows "field_update n ob ob'"
proof -
  from w obtain q where q: "map_of (mapData ob) n = Some (q, True)"
    by (auto simp: Object_WriteData_def split: option.splits if_splits)
  with w obtain s nSize s' where ty: "read_word state_read (cursor ob (unat q)) = Inr (t, s)"
    and sz: "ReadCompactSize state_read s = Inr (nSize, s')" "nSize = length vData"
    and le: "sPos s' + nSize \<le> length (vchState ob)"
    and ob': "ob' = ob\<lparr>vchState := overwrite (sPos s') vData (vchState ob)\<rparr>"
    unfolding Object_WriteData_def by (auto elim!: rbind_pairE simp del: rbind_eq_Inr)
  have s: "s = cursor ob (unat q + 1)" "t = vchState ob ! unat q"
    using ty unfolding read_type_cursor by simp_all
  have "val_at (vchState ob) (unat q) = Some (sPos s', nSize)"
    using t sz(1) s by (auto simp: val_at_def fixed_size_def cursor_def)
  then show ?thesis
    using q le ob' sz(2) same_off_overwrite [of "sPos s'" vData "vchState ob"]
    by (auto simp: field_update_def)
qed

lemma field_update_fields:
  assumes "field_update n ob ob'"
  shows "mapData ob' = mapData ob" "length (vchState ob') = length (vchState ob)"
    "nVersion ob' = nVersion ob" "nType ob' = nType ob" "hashOwner ob' = hashOwner ob"
    "nCreated ob' = nCreated ob" "nModified ob' = nModified ob" "hashChecksum ob' = hashChecksum ob"
  using assms by (auto simp: field_update_def same_off_def)

text \<open>An update keeps the field map valid.\<close>

lemma field_update_parsed:
  assumes "parsed ob" and w: "field_update n ob ob'"
  shows "parsed ob'"
proof -
  from w obtain q f a k where q: "map_of (mapData ob) n = Some (q, f)"
    "val_at (vchState ob) (unat q) = Some (a, k)"
    "same_off a (a + k) (vchState ob) (vchState ob')"
    by (auto simp: field_update_def)
  have pl: "parse_loop (cursor ob 0) [] = Inr (mapData ob)" "length (vchState ob) < 2 ^ 16"
    using assms(1) by (simp_all add: parsed_def)
  have "parse_loop ((cursor ob 0)\<lparr>sData := vchState ob'\<rparr>) [] = Inr (mapData ob)"
    using map_of_SomeD [OF q(1)] q(2,3) pl(2)
    by (intro parse_loop_same [OF pl(1), of a "a + k"]) (auto simp: cursor_def)
  then show ?thesis
    using field_update_fields(1,2) [OF w] pl(2) by (simp add: parsed_def cursor_def)
qed

text \<open>An update changes no byte of another field and no type byte.\<close>

lemma field_update_same:
  assumes "parsed ob" and w: "field_update n ob ob'"
    and m: "map_of (mapData ob) m = Some (q', g)"
    and v: "val_at (vchState ob) (unat q') = Some (a', k')"
  shows "vchState ob' ! unat q' = vchState ob ! unat q'"
    and "m \<noteq> n \<Longrightarrow> unat q' + j \<le> a' + k' \<Longrightarrow>
      take j (drop (unat q') (vchState ob')) = take j (drop (unat q') (vchState ob))"
proof -
  from w obtain q f a k where q: "map_of (mapData ob) n = Some (q, f)"
    "val_at (vchState ob) (unat q) = Some (a, k)"
    "same_off a (a + k) (vchState ob) (vchState ob')"
    by (auto simp: field_update_def)
  note l = parsed_laid [OF assms(1)]
  note e = map_of_SomeD [OF q(1)] map_of_SomeD [OF m]
  have q': "unat q' < a'" "a' \<le> length (vchState ob)" using laid_entry [OF l e(2)] v by auto
  have qa: "unat q < a" using laid_entry [OF l e(1)] q(2) by auto
  have dis: "m \<noteq> n \<Longrightarrow> a' + k' \<le> unat q \<or> a + k \<le> unat q'"
    using laid_disjoint [OF l e(2,1) _ v q(2)] by blast
  show "vchState ob' ! unat q' = vchState ob ! unat q'"
  proof (cases "m = n")
    case True
    then have "q' = q" using q(1) m by simp
    then show ?thesis using q(3) q' qa by (simp add: same_off_def)
  next
    case False
    then show ?thesis using dis q(3) q' qa by (auto simp: same_off_def)
  qed
  show "m \<noteq> n \<Longrightarrow> unat q' + j \<le> a' + k' \<Longrightarrow>
      take j (drop (unat q') (vchState ob')) = take j (drop (unat q') (vchState ob))"
    using dis qa same_off_take [OF q(3), of "unat q'" j] by linarith
qed

lemma field_update_frame:
  fixes y :: "'b::len word"
  assumes "parsed ob" and w: "field_update n ob ob'" and "m \<noteq> n"
    and g: "Object_get m ob = Inr y"
  shows "Object_get m ob' = Inr y"
proof -
  from g obtain q f where q: "map_of (mapData ob) m = Some (q, f)"
    "vchState ob ! unat q = type_enum LENGTH('b)" "type_enum LENGTH('b) \<noteq> 0"
    "unat q + 1 + LENGTH('b) div 8 \<le> length (vchState ob)"
    "y = deser_word (take (LENGTH('b) div 8) (drop (unat q + 1) (vchState ob)))"
    by (rule Object_getE)
  note s = field_update_same [OF assms(1) w q(1) val_at_word [OF q(2,3)]]
  have "take (1 + LENGTH('b) div 8) (drop (unat q) (vchState ob')) =
      take (1 + LENGTH('b) div 8) (drop (unat q) (vchState ob))"
    using s(2) [OF assms(3), of "1 + LENGTH('b) div 8"] by simp
  then have "drop 1 (take (1 + LENGTH('b) div 8) (drop (unat q) (vchState ob'))) =
      drop 1 (take (1 + LENGTH('b) div 8) (drop (unat q) (vchState ob)))" by (rule arg_cong)
  then have "take (LENGTH('b) div 8) (drop (unat q + 1) (vchState ob')) =
      take (LENGTH('b) div 8) (drop (unat q + 1) (vchState ob))"
    by (simp add: drop_take add.commute)
  then show ?thesis
    using q s(1) field_update_fields(1,2) [OF w] by (intro read_field_word(1) [of _ _ q f]) simp_all
qed

lemma field_update_Check:
  assumes p: "parsed ob" and w: "field_update n ob ob'"
  shows "Object_Check m t f ob' = Object_Check m t f ob"
proof (cases "map_of (mapData ob) m")
  case None
  then show ?thesis using field_update_fields(1) [OF w] by (simp add: Object_Check_def)
next
  case (Some e)
  then obtain q g where q: "map_of (mapData ob) m = Some (q, g)" by (cases e) auto
  obtain a k where v: "val_at (vchState ob) (unat q) = Some (a, k)" "unat q < a"
    "a \<le> length (vchState ob)"
    using laid_entry [OF parsed_laid [OF p] map_of_SomeD [OF q]] by metis
  have "read_word state_read (cursor ob (unat q)) = Inr (vchState ob ! unat q, cursor ob (unat q + 1))"
    "read_word state_read (cursor ob' (unat q)) = Inr (vchState ob ! unat q, cursor ob' (unat q + 1))"
    unfolding read_type_cursor
    using v field_update_same(1) [OF p w q v(1)] field_update_fields(2) [OF w] by simp_all
  then show ?thesis using q field_update_fields(1) [OF w] by (simp add: Object_Check_def)
qed

lemma field_update_Standard:
  assumes "parsed ob" and "field_update n ob ob'"
  shows "Object_Standard ob' = Object_Standard ob" and "Object_Base ob' = Object_Base ob"
proof -
  have c: "check_all cs ob' = check_all cs ob" for cs
    unfolding check_all_def field_update_Check [OF assms] ..
  have n: "Object_CheckName k ob' = Object_CheckName k ob" for k
    using field_update_fields(1) [OF assms(2)] by (simp add: Object_CheckName_def)
  show "Object_Standard ob' = Object_Standard ob" "Object_Base ob' = Object_Base ob"
    unfolding Object_Standard_def Object_Base_def c n field_update_fields(1) [OF assms(2)]
    by (rule refl)+
qed

lemmas Object_Write_parsed = field_update_parsed [OF _ field_updateI_word]
lemmas Object_Write_frame = field_update_frame [OF _ field_updateI_word]
lemmas Object_Write_Standard = field_update_Standard [OF _ field_updateI_word]

text \<open>Only the data and the map matter to the field operations; time stamps, owner and
  checksum do not.\<close>

lemma object_view:
  assumes "vchState ob' = vchState ob" and "mapData ob' = mapData ob"
  shows "Object_Check n t f ob' = Object_Check n t f ob"
    and "(Object_get n ob' :: 'a::len word res) = Object_get n ob"
    and "Object_getString n ob' = Object_getString n ob"
    and "Object_Standard ob' = Object_Standard ob" and "Object_Base ob' = Object_Base ob"
    and "parsed ob' = parsed ob"
proof -
  have cu: "cursor ob' p = cursor ob p" for p using assms(1) by (simp add: cursor_def)
  note defs = Object_Check_def Object_get_def Object_Read_def Object_getString_def
    Object_ReadString_def read_field_def Object_Standard_def Object_Base_def check_all_def
    Object_CheckName_def parsed_def
  show "Object_Check n t f ob' = Object_Check n t f ob"
    "(Object_get n ob' :: 'a::len word res) = Object_get n ob"
    "Object_getString n ob' = Object_getString n ob"
    "Object_Standard ob' = Object_Standard ob" "Object_Base ob' = Object_Base ob"
    "parsed ob' = parsed ob"
    unfolding defs cu assms by (rule refl)+
qed

lemma object_view_SetChecksum [simp]:
  "Object_Check n t f (SetChecksum E ob) = Object_Check n t f ob"
  "(Object_get n (SetChecksum E ob) :: 'a::len word res) = Object_get n ob"
  "Object_getString n (SetChecksum E ob) = Object_getString n ob"
  "Object_Standard (SetChecksum E ob) = Object_Standard ob"
  "Object_Base (SetChecksum E ob) = Object_Base ob"
  "parsed (SetChecksum E ob) = parsed ob"
  by (rule object_view; simp add: SetChecksum_def)+

lemma object_view_nModified [simp]:
  "Object_Check n t f (ob\<lparr>nModified := x\<rparr>) = Object_Check n t f ob"
  "(Object_get n (ob\<lparr>nModified := x\<rparr>) :: 'a::len word res) = Object_get n ob"
  "Object_getString n (ob\<lparr>nModified := x\<rparr>) = Object_getString n ob"
  "Object_Standard (ob\<lparr>nModified := x\<rparr>) = Object_Standard ob"
  "Object_Base (ob\<lparr>nModified := x\<rparr>) = Object_Base ob"
  "parsed (ob\<lparr>nModified := x\<rparr>) = parsed ob"
  by (rule object_view; simp)+

section \<open>Objects and their states\<close>

lemma Object_of_fields [simp]:
  "vchState (Object_of s) = vchState s" "nVersion (Object_of s) = nVersion s"
  "nType (Object_of s) = nType s" "hashOwner (Object_of s) = hashOwner s"
  "nCreated (Object_of s) = nCreated s" "nModified (Object_of s) = nModified s"
  "hashChecksum (Object_of s) = hashChecksum s" "mapData (Object_of s) = []"
  by (cases s; simp add: Object_of_def reg_state.defs object.defs)+

lemma State_of_fields [simp]:
  "vchState (State_of ob) = vchState ob" "nVersion (State_of ob) = nVersion ob"
  "nType (State_of ob) = nType ob" "hashOwner (State_of ob) = hashOwner ob"
  "nCreated (State_of ob) = nCreated ob" "nModified (State_of ob) = nModified ob"
  "hashChecksum (State_of ob) = hashChecksum ob"
  by (cases ob; simp add: State_of_def reg_state.defs)+

lemma State_of_Object_of [simp]: "State_of (Object_of s) = s"
  by (cases s) (simp add: State_of_def Object_of_def reg_state.defs object.defs)

lemma State_of_mapData [simp]: "State_of (ob\<lparr>mapData := m\<rparr>) = State_of ob"
  by (cases ob) (simp add: State_of_def reg_state.defs)

lemma State_of_updates [simp]:
  "State_of (ob\<lparr>nModified := t\<rparr>) = (State_of ob)\<lparr>nModified := t\<rparr>"
  "State_of (ob\<lparr>hashChecksum := c\<rparr>) = (State_of ob)\<lparr>hashChecksum := c\<rparr>"
  "State_of (ob\<lparr>vchState := v\<rparr>) = (State_of ob)\<lparr>vchState := v\<rparr>"
  by (cases ob; simp add: State_of_def reg_state.defs)+

lemma ser_state_hash_State_of [simp]: "ser_state_hash (State_of ob) = ser_state_hash ob"
  by (simp add: ser_state_hash_def)

lemma GetHash_State_of [simp]: "GetHash E (State_of ob) = GetHash E ob"
  by (simp add: GetHash_def)

lemma State_of_SetChecksum [simp]: "State_of (SetChecksum E ob) = SetChecksum E (State_of ob)"
  by (simp add: SetChecksum_def)

lemma cursor_Object_of [simp]: "cursor (Object_of s) p = cursor s p"
  by (simp add: cursor_def)

lemma object_eqI:
  assumes "State_of a = State_of b" and "mapData a = mapData (b :: object)"
  shows "a = b"
  using assms by (cases a; cases b) (simp add: State_of_def reg_state.defs)

text \<open>\<open>Object(state).Parse()\<close> succeeds exactly when the data is a field sequence, and then
  gives the state with its field map.\<close>

lemma Object_Parse_iff:
  "Object_Parse (Object_of s) = Inr ob \<longleftrightarrow>
     (nType s = REGISTER_OBJECT \<or> nType s = REGISTER_SYSTEM) \<and> State_of ob = s \<and>
     parse_loop (cursor s 0) [] = Inr (mapData ob)"
  by (auto simp: Object_Parse_def intro: object_eqI)

lemma Object_Parse_State_of:
  assumes "parsed ob" and "nType ob = REGISTER_OBJECT \<or> nType ob = REGISTER_SYSTEM"
  shows "Object_Parse (Object_of (State_of ob)) = Inr ob"
  using assms by (auto simp: Object_Parse_iff parsed_def cursor_def)

lemma Object_Parse_parsed:
  assumes "Object_Parse (Object_of s) = Inr ob" and "length (vchState s) < 2 ^ 16"
  shows "parsed ob" and "State_of ob = s"
    and "nType s = REGISTER_OBJECT \<or> nType s = REGISTER_SYSTEM"
  using assms parsed_Parse [OF assms(1)] by (auto simp: Object_Parse_iff)

text \<open>Storing the data of an object in another state and parsing it again gives the same view
  of the fields.\<close>

lemma Object_Parse_restate:
  assumes "parsed ob" and "vchState s = vchState ob"
    and "nType s = REGISTER_OBJECT \<or> nType s = REGISTER_SYSTEM"
  obtains ob' where "Object_Parse (Object_of s) = Inr ob'" and "State_of ob' = s"
    and "mapData ob' = mapData ob" and "vchState ob' = vchState ob" and "parsed ob'"
proof -
  let ?ob = "(Object_of s)\<lparr>mapData := mapData ob\<rparr>"
  have v: "vchState ?ob = vchState ob" "mapData ?ob = mapData ob" using assms(2) by simp_all
  have "parse_loop (cursor s 0) [] = Inr (mapData ob)"
    using assms(1,2) by (simp add: parsed_def cursor_def)
  then have "Object_Parse (Object_of s) = Inr ?ob" using assms(3) by (simp add: Object_Parse_iff)
  then show ?thesis using that [of ?ob] v object_view(6) [OF v] assms(1) by simp
qed

text \<open>The effect of a field update on a stored register.\<close>

lemma field_update_stored:
  assumes p: "Object_Parse (Object_of s) = Inr ob" and len: "length (vchState s) < 2 ^ 16"
    and fu: "field_update n ob ob1" and v: "vchState s' = vchState ob1" and ty: "nType s' = nType s"
  obtains ob' where "Object_Parse (Object_of s') = Inr ob'" and "mapData ob' = mapData ob1"
    and "vchState ob' = vchState ob1" and "standard_of s' = standard_of s"
proof -
  note pp = Object_Parse_parsed [OF p len]
  have ty': "nType s' = REGISTER_OBJECT \<or> nType s' = REGISTER_SYSTEM" using pp(3) ty by simp
  obtain ob' where o: "Object_Parse (Object_of s') = Inr ob'" "State_of ob' = s'"
    "mapData ob' = mapData ob1" "vchState ob' = vchState ob1" "parsed ob'"
    by (rule Object_Parse_restate [OF field_update_parsed [OF pp(1) fu] v ty'])
  have "standard_of s' = standard_of s"
    using p o(1) object_view(4) [OF o(4,3)] field_update_Standard(1) [OF pp(1) fu]
    by (simp add: standard_of_def)
  then show ?thesis by (rule that [OF o(1,3,4)])
qed

lemma field_update_stored_get:
  assumes "Object_Parse (Object_of s) = Inr ob" and "length (vchState s) < 2 ^ 16"
    and "field_update n ob ob1" and "vchState s' = vchState ob1" and "nType s' = nType s"
  shows "field_of m s' = (Object_get m ob1 :: 'b::len word res)"
proof -
  obtain ob' where "Object_Parse (Object_of s') = Inr ob'" and "mapData ob' = mapData ob1"
    and "vchState ob' = vchState ob1"
    by (rule field_update_stored [OF assms])
  then show ?thesis by (simp add: field_of_def object_view(2) [of ob' ob1])
qed

lemma field_update_stored_frame:
  fixes y :: "'b::len word"
  assumes p: "Object_Parse (Object_of s) = Inr ob" and len: "length (vchState s) < 2 ^ 16"
    and fu: "field_update n ob ob1" and v: "vchState s' = vchState ob1" and ty: "nType s' = nType s"
    and "m \<noteq> n" and "field_of m s = Inr y"
  shows "field_of m s' = Inr y"
proof -
  have "Object_get m ob = Inr y" using assms(7) p by (simp add: field_of_def)
  from field_update_frame [OF Object_Parse_parsed(1) [OF p len] fu assms(6) this]
  show ?thesis by (simp add: field_update_stored_get [OF p len fu v ty])
qed

lemma parsed_stored:
  assumes "parsed ob" and "vchState s' = vchState ob" and "nType s' = REGISTER_OBJECT \<or> nType s' = REGISTER_SYSTEM"
  shows "field_of m s' = (Object_get m ob :: 'b::len word res)" and "standard_of s' = Object_Standard ob"
proof -
  obtain ob' where o: "Object_Parse (Object_of s') = Inr ob'" "mapData ob' = mapData ob" "vchState ob' = vchState ob"
    by (rule Object_Parse_restate [OF assms])
  show "field_of m s' = (Object_get m ob :: 'b word res)" "standard_of s' = Object_Standard ob"
    using o(1) by (simp_all add: field_of_def standard_of_def object_view(2,4) [OF o(3,2)])
qed

lemma parse_type: "Object_Parse (Object_of s) = Inr ob \<Longrightarrow> nType s = REGISTER_OBJECT \<or> nType s = REGISTER_SYSTEM"
  by (auto simp: Object_Parse_def Object_of_def reg_state.defs split: if_splits)

end
