(* ===== verification/Memory_Overlay.thy ===== *)
theory Memory_Overlay
  imports Register_State
begin

text \<open>
  The databases of the operations layer keep, in front of their disk, the same three-level
  memory (\<^verbatim>\<open>LLD/register.cpp\<close>, \<^verbatim>\<open>LLD/ledger.cpp\<close>, \<^verbatim>\<open>LLD/contract.cpp\<close>): entries
  committed to the memory pool (\<open>pCommit\<close>), an optional pending transaction on top of it
  (\<open>pMemory\<close>) and an optional transaction for the block being mined (\<open>pMiner\<close>). This theory
  holds that memory once; \<open>Databases\<close> instantiates it.

  The disk is the view a disk transaction gives of the sector database, in which block
  processing always runs: a finite map, in which erasing always succeeds.
\<close>

section \<open>Flags\<close>

abbreviation (input) FLAGS_BLOCK :: u8 where "FLAGS_BLOCK \<equiv> 1"
abbreviation (input) FLAGS_MEMPOOL :: u8 where "FLAGS_MEMPOOL \<equiv> 2"
abbreviation (input) FLAGS_FEES :: u8 where "FLAGS_FEES \<equiv> 3"
abbreviation (input) FLAGS_MINER :: u8 where "FLAGS_MINER \<equiv> 4"
abbreviation (input) FLAGS_ERASE :: u8 where "FLAGS_ERASE \<equiv> 5"
abbreviation (input) FLAGS_LOOKUP :: u8 where "FLAGS_LOOKUP \<equiv> 6"

section \<open>Memory\<close>

record ('k, 'v) mem_txn =
  mapPending :: "'k \<rightharpoonup> 'v"
  setErase :: "'k set"

record ('k, 'v) overlay =
  pMemory :: "('k, 'v) mem_txn option"
  pMiner :: "('k, 'v) mem_txn option"
  pCommit :: "'k \<rightharpoonup> 'v"
  disk :: "'k \<rightharpoonup> 'v"

definition empty_txn :: "('k, 'v) mem_txn" where
  "empty_txn = \<lparr>mapPending = Map.empty, setErase = {}\<rparr>"

definition empty_overlay :: "('k, 'v) overlay" where
  "empty_overlay = \<lparr>pMemory = None, pMiner = None, pCommit = Map.empty, disk = Map.empty\<rparr>"

text \<open>Writing in memory pool mode: into the pending transaction, else into the commits.\<close>

definition mem_write :: "'k \<Rightarrow> 'v \<Rightarrow> ('k, 'v) overlay \<Rightarrow> ('k, 'v) overlay" where
  "mem_write k v d = (case pMemory d of
     Some t \<Rightarrow> d\<lparr>pMemory := Some (t\<lparr>setErase := setErase t - {k}, mapPending := (mapPending t)(k \<mapsto> v)\<rparr>)\<rparr>
   | None \<Rightarrow> d\<lparr>pCommit := (pCommit d)(k \<mapsto> v)\<rparr>)"

text \<open>In miner mode, without a miner transaction, a write is silently dropped.\<close>

definition miner_write :: "'k \<Rightarrow> 'v \<Rightarrow> ('k, 'v) overlay \<Rightarrow> ('k, 'v) overlay" where
  "miner_write k v d = (case pMiner d of
     Some t \<Rightarrow> d\<lparr>pMiner := Some (t\<lparr>mapPending := (mapPending t)(k \<mapsto> v)\<rparr>)\<rparr>
   | None \<Rightarrow> d)"

text \<open>Taking an entry out of the memory: from the commits, or into the erase queue of the
  pending transaction.\<close>

definition mem_erase :: "'k \<Rightarrow> ('k, 'v) overlay \<Rightarrow> ('k, 'v) overlay" where
  "mem_erase k d = (case pMemory d of
     Some t \<Rightarrow> d\<lparr>pMemory := Some (t\<lparr>setErase := insert k (setErase t), mapPending := (mapPending t)(k := None)\<rparr>)\<rparr>
   | None \<Rightarrow> d\<lparr>pCommit := (pCommit d)(k := None)\<rparr>)"

definition disk_write :: "'k \<Rightarrow> 'v \<Rightarrow> ('k, 'v) overlay \<Rightarrow> ('k, 'v) overlay" where
  "disk_write k v d = d\<lparr>disk := (disk d)(k \<mapsto> v)\<rparr>"

definition disk_erase :: "'k \<Rightarrow> ('k, 'v) overlay \<Rightarrow> ('k, 'v) overlay" where
  "disk_erase k d = d\<lparr>disk := (disk d)(k := None)\<rparr>"

text \<open>Lookup in memory: the pending transaction, then the commits. The erase queue of the
  pending transaction is not consulted.\<close>

definition mem_lookup :: "'k \<Rightarrow> ('k, 'v) overlay \<Rightarrow> 'v option" where
  "mem_lookup k d = (case (case pMemory d of Some t \<Rightarrow> mapPending t k | None \<Rightarrow> None) of
     Some v \<Rightarrow> Some v | None \<Rightarrow> pCommit d k)"

definition miner_lookup :: "'k \<Rightarrow> ('k, 'v) overlay \<Rightarrow> 'v option" where
  "miner_lookup k d = (case pMiner d of Some t \<Rightarrow> mapPending t k | None \<Rightarrow> None)"

definition or_disk :: "'v option \<Rightarrow> 'k \<Rightarrow> ('k, 'v) overlay \<Rightarrow> 'v option" where
  "or_disk r k d = (case r of Some v \<Rightarrow> Some v | None \<Rightarrow> disk d k)"

text \<open>The erasing operation, which the three databases share.\<close>

definition overlay_erase :: "'k \<Rightarrow> u8 \<Rightarrow> ('k, 'v) overlay \<Rightarrow> ('k, 'v) overlay" where
  "overlay_erase k nFlags d =
     (if nFlags = FLAGS_MEMPOOL then mem_erase k d
      else let d' = (if (nFlags = FLAGS_BLOCK \<or> nFlags = FLAGS_ERASE) \<and> pCommit d k \<noteq> None
                     then mem_erase k d else d)
           in if nFlags = FLAGS_ERASE then d' else disk_erase k d')"

definition MemoryBegin :: "u8 \<Rightarrow> ('k, 'v) overlay \<Rightarrow> ('k, 'v) overlay" where
  "MemoryBegin nFlags d =
     (if nFlags = FLAGS_MINER then d\<lparr>pMiner := Some empty_txn\<rparr> else d\<lparr>pMemory := Some empty_txn\<rparr>)"

definition MemoryRelease :: "u8 \<Rightarrow> ('k, 'v) overlay \<Rightarrow> ('k, 'v) overlay" where
  "MemoryRelease nFlags d =
     (if nFlags = FLAGS_MINER then d\<lparr>pMiner := None\<rparr> else d\<lparr>pMemory := None\<rparr>)"

definition MemoryCommit :: "('k, 'v) overlay \<Rightarrow> ('k, 'v) overlay" where
  "MemoryCommit d = (case pMemory d of
     None \<Rightarrow> d
   | Some t \<Rightarrow> d\<lparr>pCommit := (\<lambda>k. if k \<in> setErase t then None
                                  else case mapPending t k of Some v \<Rightarrow> Some v | None \<Rightarrow> pCommit d k),
                 pMemory := None\<rparr>)"

text \<open>The pending transaction never holds and erases the same key.\<close>

definition txn_ok :: "('k, 'v) overlay \<Rightarrow> bool" where
  "txn_ok d \<longleftrightarrow> (case pMemory d of None \<Rightarrow> True | Some t \<Rightarrow> dom (mapPending t) \<inter> setErase t = {})"

text \<open>\<open>live f d\<close>: a write with flag \<open>f\<close> reaches some level that a read with \<open>f\<close> sees.\<close>

definition live :: "u8 \<Rightarrow> ('k, 'v) overlay \<Rightarrow> bool" where
  "live nFlags d \<longleftrightarrow> nFlags = FLAGS_BLOCK \<or> nFlags = FLAGS_MEMPOOL \<or>
     (nFlags = FLAGS_MINER \<and> pMiner d \<noteq> None)"

lemmas overlay_defs = mem_write_def miner_write_def mem_erase_def disk_write_def disk_erase_def
  mem_lookup_def miner_lookup_def or_disk_def overlay_erase_def MemoryBegin_def MemoryRelease_def
  MemoryCommit_def empty_txn_def empty_overlay_def

section \<open>Laws\<close>

lemma txn_ok_ops [simp]:
  "txn_ok empty_overlay" "txn_ok d \<Longrightarrow> txn_ok (mem_write k v d)"
  "txn_ok d \<Longrightarrow> txn_ok (miner_write k v d)" "txn_ok d \<Longrightarrow> txn_ok (mem_erase k d)"
  "txn_ok d \<Longrightarrow> txn_ok (disk_write k v d)" "txn_ok d \<Longrightarrow> txn_ok (disk_erase k d)"
  "txn_ok d \<Longrightarrow> txn_ok (MemoryBegin f d)" "txn_ok d \<Longrightarrow> txn_ok (MemoryRelease f d)"
  "txn_ok (MemoryCommit d)"
  by (auto simp: txn_ok_def overlay_defs split: option.splits)

lemma txn_ok_erase [simp]: "txn_ok d \<Longrightarrow> txn_ok (overlay_erase k f d)"
  by (simp add: overlay_erase_def Let_def)

text \<open>Committing makes permanent exactly what the pending transaction showed, for every key
  it has not erased.\<close>

lemma MemoryCommit_lookup:
  assumes "pMemory d = Some t"
  shows "mem_lookup k (MemoryCommit d) = (if k \<in> setErase t then None else mem_lookup k d)"
  using assms by (auto simp: overlay_defs split: option.splits)

text \<open>Releasing gives back the memory as it was when the transaction began, whatever was
  written or erased in memory pool mode in between.\<close>

inductive mem_step :: "('k, 'v) overlay \<Rightarrow> ('k, 'v) overlay \<Rightarrow> bool" where
  step_write: "mem_step d (mem_write k v d)"
| step_erase: "mem_step d (mem_erase k d)"

inductive_cases mem_stepE: "mem_step d d'"

lemma mem_step_pending:
  assumes "mem_step d d'" and "pMemory d \<noteq> None"
  shows "pMemory d' \<noteq> None \<and> pCommit d' = pCommit d \<and> pMiner d' = pMiner d \<and> disk d' = disk d"
  using assms by (auto elim!: mem_stepE simp: overlay_defs)

lemma mem_steps_pending:
  assumes "mem_step\<^sup>*\<^sup>* d d'" and "pMemory d \<noteq> None"
  shows "pMemory d' \<noteq> None \<and> pCommit d' = pCommit d \<and> pMiner d' = pMiner d \<and> disk d' = disk d"
  using assms
proof (induction rule: rtranclp_induct)
  case (step y z)
  then show ?case using mem_step_pending [of y z] by simp
qed simp

lemma release_restores:
  assumes "mem_step\<^sup>*\<^sup>* (MemoryBegin FLAGS_MEMPOOL d) d'"
  shows "MemoryRelease FLAGS_MEMPOOL d' = d\<lparr>pMemory := None\<rparr>"
  using mem_steps_pending [OF assms]
  by (cases d; cases d') (simp add: overlay_defs)

section \<open>The contract of a store\<close>

text \<open>
  What the operations rely on: an entry that was written is read back, and no other entry
  changes. \<open>ok f d\<close> says that writes with flag \<open>f\<close> are kept at all.
\<close>

definition once :: "(u8 \<Rightarrow> 'k \<Rightarrow> 'db \<Rightarrow> 'v option) \<Rightarrow> (u8 \<Rightarrow> 'k \<Rightarrow> 'v \<Rightarrow> 'db \<Rightarrow> 'db) \<Rightarrow>
    u8 \<Rightarrow> 'k \<Rightarrow> 'v \<Rightarrow> 'db \<Rightarrow> 'db res" where
  "once rd wr f k v d = (if rd f k d \<noteq> None then Inl (Reject ''already claimed'') else Inr (wr f k v d))"

locale store =
  fixes rd :: "u8 \<Rightarrow> 'k \<Rightarrow> 'db \<Rightarrow> 'v option"
    and wr :: "u8 \<Rightarrow> 'k \<Rightarrow> 'v \<Rightarrow> 'db \<Rightarrow> 'db"
    and ok :: "u8 \<Rightarrow> 'db \<Rightarrow> bool"
  assumes rd_wr: "ok f d \<Longrightarrow> rd f k (wr f k v d) = Some v"
    and rd_wr_other: "ok f d \<Longrightarrow> k \<noteq> k' \<Longrightarrow> rd f k' (wr f k v d) = rd f k' d"
    and ok_wr: "ok f d \<Longrightarrow> ok f (wr f k v d)"
begin

lemma rd_wr_iff:
  "ok f d \<Longrightarrow> rd f k' (wr f k v d) = (if k' = k then Some v else rd f k' d)"
  by (simp add: rd_wr rd_wr_other)

text \<open>An entry stays taken through any sequence of further writes.\<close>

lemma taken_stays:
  assumes "ok f d" and "rd f k d \<noteq> None"
  shows "rd f k (fold (\<lambda>(k, v). wr f k v) kvs d) \<noteq> None \<and> ok f (fold (\<lambda>(k, v). wr f k v) kvs d)"
  using assms
proof (induction kvs arbitrary: d)
  case (Cons kv kvs)
  then show ?case by (cases kv) (simp add: rd_wr_iff ok_wr)
qed simp

lemma once_twice:
  assumes "ok f d" and "once rd wr f k v d = Inr d'"
  shows "once rd wr f k w (fold (\<lambda>(k, v). wr f k v) kvs d') = Inl (Reject ''already claimed'')"
proof -
  have d': "d' = wr f k v d" using assms(2) by (auto simp: once_def split: if_splits)
  have "rd f k d' \<noteq> None" "ok f d'" using assms(1) by (simp_all add: d' rd_wr ok_wr)
  then show ?thesis using taken_stays [of f d' k kvs] by (simp add: once_def)
qed

end

end
