(* ===== verification/Contract.thy ===== *)
theory Contract
  imports Register_State
begin

unbundle bit_operations_syntax

text \<open>
  Contracts (\<^verbatim>\<open>TAO/Operation/contract.cpp\<close>, \<^verbatim>\<open>TAO/Operation/types/contract.h\<close>): three byte
  streams (operations, conditions, register states) and the identity of the calling
  transaction. The streams' read positions are mutable members that reading advances, so
  every reading function returns the contract with its new positions.
\<close>

section \<open>Data\<close>

record contract =
  ssOperation :: stream
  ssCondition :: stream
  ssRegister :: stream
  hashCaller :: u256
  nTimestamp :: u64
  hashTx :: u512
  cVersion :: u32

abbreviation (input) OPERATIONS :: u8 where "OPERATIONS \<equiv> 2"
abbreviation (input) CONDITIONS :: u8 where "CONDITIONS \<equiv> 4"
abbreviation (input) REGISTERS :: u8 where "REGISTERS \<equiv> 8"
abbreviation (input) ALL_STREAMS :: u8 where "ALL_STREAMS \<equiv> 14"

abbreviation (input) OP_WRITE :: u8 where "OP_WRITE \<equiv> 0x01"
abbreviation (input) OP_CREATE :: u8 where "OP_CREATE \<equiv> 0x02"
abbreviation (input) OP_TRANSFER :: u8 where "OP_TRANSFER \<equiv> 0x04"
abbreviation (input) OP_CLAIM :: u8 where "OP_CLAIM \<equiv> 0x05"
abbreviation (input) OP_APPEND :: u8 where "OP_APPEND \<equiv> 0x06"
abbreviation (input) OP_DEBIT :: u8 where "OP_DEBIT \<equiv> 0x10"
abbreviation (input) OP_CREDIT :: u8 where "OP_CREDIT \<equiv> 0x11"
abbreviation (input) OP_COINBASE :: u8 where "OP_COINBASE \<equiv> 0x12"
abbreviation (input) OP_GENESIS :: u8 where "OP_GENESIS \<equiv> 0x13"
abbreviation (input) OP_TRUST :: u8 where "OP_TRUST \<equiv> 0x14"
abbreviation (input) OP_GENESISPOOL :: u8 where "OP_GENESISPOOL \<equiv> 0x15"
abbreviation (input) OP_TRUSTPOOL :: u8 where "OP_TRUSTPOOL \<equiv> 0x16"
abbreviation (input) OP_FEE :: u8 where "OP_FEE \<equiv> 0x17"
abbreviation (input) OP_VALIDATE :: u8 where "OP_VALIDATE \<equiv> 0x40"
abbreviation (input) OP_CONDITION :: u8 where "OP_CONDITION \<equiv> 0x41"
abbreviation (input) OP_LEGACY :: u8 where "OP_LEGACY \<equiv> 0x50"
abbreviation (input) OP_MIGRATE :: u8 where "OP_MIGRATE \<equiv> 0x51"

abbreviation (input) STATES_PRESTATE :: u8 where "STATES_PRESTATE \<equiv> 1"
abbreviation (input) STATES_POSTSTATE :: u8 where "STATES_POSTSTATE \<equiv> 2"

section \<open>Construction\<close>

definition Contract_default :: "env \<Rightarrow> contract" where
  "Contract_default E = \<lparr>ssOperation = stream_of [], ssCondition = stream_of [],
     ssRegister = stream_of [], hashCaller = 0, nTimestamp = 0, hashTx = 0,
     cVersion = CurrentTransactionVersion E\<rparr>"

text \<open>The copy constructor goes through the streams' copy constructor, which starts at
  position 0; the assignment operator keeps the positions.\<close>

definition Contract_copy :: "contract \<Rightarrow> contract" where
  "Contract_copy c = c\<lparr>ssOperation := stream_of (sData (ssOperation c)),
     ssCondition := stream_of (sData (ssCondition c)),
     ssRegister := stream_of (sData (ssRegister c))\<rparr>"

text \<open>\<open>Bind\<close> to a transaction, given by the values the source takes from it.\<close>

definition Contract_Bind_tx :: "u256 \<Rightarrow> u64 \<Rightarrow> u32 \<Rightarrow> u512 \<Rightarrow> contract \<Rightarrow> contract" where
  "Contract_Bind_tx hashGenesis nTime nVer hash c =
     c\<lparr>hashCaller := hashGenesis, nTimestamp := nTime, hashTx := hash, cVersion := nVer\<rparr>"

definition Contract_Bind :: "env \<Rightarrow> u64 \<Rightarrow> u256 \<Rightarrow> contract \<Rightarrow> contract" where
  "Contract_Bind E nTimestampIn hashCallerIn c =
     (let c = c\<lparr>hashCaller := hashCallerIn, nTimestamp := nTimestampIn\<rparr>;
          nCurrent = CurrentTransactionVersion E in
      if TransactionVersionActive E (nTimestamp c) nCurrent then c\<lparr>cVersion := nCurrent\<rparr>
      else c\<lparr>cVersion := nCurrent - 1\<rparr>)"

section \<open>Streams of a contract\<close>

definition cop_lift :: "(stream \<Rightarrow> ('a \<times> stream) res) \<Rightarrow> contract \<Rightarrow> ('a \<times> contract) res" where
  "cop_lift f c = rbind (f (ssOperation c)) (\<lambda>(x, s). Inr (x, c\<lparr>ssOperation := s\<rparr>))"

definition ccond_lift :: "(stream \<Rightarrow> ('a \<times> stream) res) \<Rightarrow> contract \<Rightarrow> ('a \<times> contract) res" where
  "ccond_lift f c = rbind (f (ssCondition c)) (\<lambda>(x, s). Inr (x, c\<lparr>ssCondition := s\<rparr>))"

definition creg_lift :: "(stream \<Rightarrow> ('a \<times> stream) res) \<Rightarrow> contract \<Rightarrow> ('a \<times> contract) res" where
  "creg_lift f c = rbind (f (ssRegister c)) (\<lambda>(x, s). Inr (x, c\<lparr>ssRegister := s\<rparr>))"

text \<open>\<open>contract >> x\<close>, \<open>contract >= x\<close> and \<open>contract >>= x\<close>.\<close>

definition op_word :: "contract \<Rightarrow> ('a::len word \<times> contract) res" where
  "op_word = cop_lift (read_word stream_read)"

definition op_vector :: "contract \<Rightarrow> (byte list \<times> contract) res" where
  "op_vector = cop_lift (read_vector stream_read)"

definition cond_word :: "contract \<Rightarrow> ('a::len word \<times> contract) res" where
  "cond_word = ccond_lift (read_word stream_read)"

definition reg_word :: "contract \<Rightarrow> ('a::len word \<times> contract) res" where
  "reg_word = creg_lift (read_word stream_read)"

definition reg_read_state :: "contract \<Rightarrow> (reg_state \<times> contract) res" where
  "reg_read_state = creg_lift (read_state stream_read)"

definition seek_op :: "int \<Rightarrow> u8 \<Rightarrow> contract \<Rightarrow> contract res" where
  "seek_op n f c = rbind (stream_seek n f (ssOperation c)) (\<lambda>s. Inr (c\<lparr>ssOperation := s\<rparr>))"

definition seek_cond :: "int \<Rightarrow> u8 \<Rightarrow> contract \<Rightarrow> contract res" where
  "seek_cond n f c = rbind (stream_seek n f (ssCondition c)) (\<lambda>s. Inr (c\<lparr>ssCondition := s\<rparr>))"

definition seek_reg :: "int \<Rightarrow> u8 \<Rightarrow> contract \<Rightarrow> contract res" where
  "seek_reg n f c = rbind (stream_seek n f (ssRegister c)) (\<lambda>s. Inr (c\<lparr>ssRegister := s\<rparr>))"

definition flag_set :: "u8 \<Rightarrow> u8 \<Rightarrow> bool" where
  "flag_set nFlags b \<longleftrightarrow> nFlags AND b \<noteq> 0"

definition Contract_Empty :: "u8 \<Rightarrow> contract \<Rightarrow> bool" where
  "Contract_Empty nFlags c \<longleftrightarrow>
     (flag_set nFlags OPERATIONS \<and> sData (ssOperation c) = []) \<or>
     (flag_set nFlags CONDITIONS \<and> sData (ssCondition c) = []) \<or>
     (flag_set nFlags REGISTERS \<and> sData (ssRegister c) = [])"

definition Contract_Reset :: "u8 \<Rightarrow> contract \<Rightarrow> contract res" where
  "Contract_Reset nFlags c =
     rbind (if flag_set nFlags OPERATIONS then seek_op 0 STREAM_BEGIN c else Inr c) (\<lambda>c.
     rbind (if flag_set nFlags CONDITIONS then seek_cond 0 STREAM_BEGIN c else Inr c) (\<lambda>c.
     if flag_set nFlags REGISTERS then seek_reg 0 STREAM_BEGIN c else Inr c))"

definition Contract_Clear :: "u8 \<Rightarrow> contract \<Rightarrow> contract" where
  "Contract_Clear nFlags c =
     (let c = (if flag_set nFlags OPERATIONS then c\<lparr>ssOperation := stream_of []\<rparr> else c);
          c = (if flag_set nFlags CONDITIONS then c\<lparr>ssCondition := stream_of []\<rparr> else c)
      in if flag_set nFlags REGISTERS then c\<lparr>ssRegister := stream_of []\<rparr> else c)"

definition Contract_ReadCompactSize :: "u8 \<Rightarrow> contract \<Rightarrow> (nat \<times> contract) res" where
  "Contract_ReadCompactSize nFlags c =
     (if nFlags = OPERATIONS then cop_lift (ReadCompactSize stream_read) c
      else if nFlags = CONDITIONS then ccond_lift (ReadCompactSize stream_read) c
      else if nFlags = REGISTERS then creg_lift (ReadCompactSize stream_read) c
      else Inr (0, c))"

definition Contract_End :: "u8 \<Rightarrow> contract \<Rightarrow> bool" where
  "Contract_End nFlags c \<longleftrightarrow>
     (flag_set nFlags OPERATIONS \<and> stream_end (ssOperation c)) \<or>
     (flag_set nFlags CONDITIONS \<and> stream_end (ssCondition c)) \<or>
     (flag_set nFlags REGISTERS \<and> stream_end (ssRegister c))"

definition Contract_Seek :: "nat \<Rightarrow> u8 \<Rightarrow> u8 \<Rightarrow> contract \<Rightarrow> contract res" where
  "Contract_Seek nPos nFlags nSeek c =
     rbind (if flag_set nFlags OPERATIONS then seek_op (int nPos) nSeek c else Inr c) (\<lambda>c.
     rbind (if flag_set nFlags CONDITIONS then seek_cond (int nPos) nSeek c else Inr c) (\<lambda>c.
     if flag_set nFlags REGISTERS then seek_reg (int nPos) nSeek c else Inr c))"

definition Contract_Rewind :: "nat \<Rightarrow> u8 \<Rightarrow> contract \<Rightarrow> contract res" where
  "Contract_Rewind nPos nFlags c =
     rbind (if flag_set nFlags OPERATIONS then seek_op (- int nPos) STREAM_CURSOR c else Inr c) (\<lambda>c.
     rbind (if flag_set nFlags CONDITIONS then seek_cond (- int nPos) STREAM_CURSOR c else Inr c) (\<lambda>c.
     if flag_set nFlags REGISTERS then seek_reg (- int nPos) STREAM_CURSOR c else Inr c))"

definition Contract_Position :: "u8 \<Rightarrow> contract \<Rightarrow> nat" where
  "Contract_Position nFlags c =
     (if nFlags = OPERATIONS then sPos (ssOperation c)
      else if nFlags = CONDITIONS then sPos (ssCondition c)
      else if nFlags = REGISTERS then sPos (ssRegister c)
      else 0)"

section \<open>Inspection\<close>

definition Primitive :: "contract \<Rightarrow> u8 res" where
  "Primitive c =
     (if length (sData (ssOperation c)) = 0 then Inl (Throw ''cannot get primitive when empty'')
      else rbind (stream_get (ssOperation c) 0) (\<lambda>nOP.
        if nOP = OP_CONDITION then stream_get (ssOperation c) 1
        else if nOP = OP_VALIDATE then stream_get (ssOperation c) 69
        else Inr nOP))"

definition SeekToPrimitive :: "contract \<Rightarrow> contract res" where
  "SeekToPrimitive c =
     (if length (sData (ssOperation c)) = 0 then Inl (Throw ''cannot get primitive when empty'')
      else rbind (seek_op 0 STREAM_BEGIN c) (\<lambda>c.
        rbind (stream_get (ssOperation c) 0) (\<lambda>nOP.
        if nOP = OP_CONDITION then seek_op 1 STREAM_CURSOR c
        else if nOP = OP_VALIDATE then seek_op 69 STREAM_CURSOR c
        else Inr c)))"

text \<open>The bytes between the operation byte and the value, for the operations that carry one.\<close>

definition value_offset :: "u8 \<Rightarrow> int option" where
  "value_offset nOP =
     (if nOP = OP_DEBIT then Some 64 else if nOP = OP_CREDIT then Some 132
      else if nOP = OP_COINBASE then Some 32 else if nOP = OP_TRUST then Some 80
      else if nOP = OP_GENESIS then Some 0 else if nOP = OP_TRUSTPOOL then Some 128
      else if nOP = OP_GENESISPOOL then Some 48 else if nOP = OP_FEE then Some 32 else None)"

definition Contract_Value :: "contract \<Rightarrow> ((bool \<times> u64) \<times> contract) res" where
  "Contract_Value c =
     rbind (SeekToPrimitive c) (\<lambda>c. rbind (op_word c) (\<lambda>(nOP, c).
     case value_offset nOP of
       None \<Rightarrow> Inr ((False, 0), c)
     | Some k \<Rightarrow>
         rbind (if k = 0 then Inr c else seek_op k STREAM_CURSOR c) (\<lambda>c.
         rbind (op_word c) (\<lambda>(nValue, c). Inr ((nValue > 0, nValue), c)))))"

definition Contract_Previous :: "contract \<Rightarrow> ((bool \<times> u512) \<times> contract) res" where
  "Contract_Previous c =
     rbind (seek_op 0 STREAM_BEGIN c) (\<lambda>c. rbind (op_word c) (\<lambda>(nOP :: u8, c).
     if nOP = OP_VALIDATE then
       rbind (op_word c) (\<lambda>(hashPrev, c). Inr ((hashPrev > 0, hashPrev), c))
     else rbind (if nOP = OP_CONDITION then op_word c else Inr (nOP, c)) (\<lambda>(nOP, c).
       if nOP = OP_CLAIM \<or> nOP = OP_CREDIT \<or> nOP = OP_TRUST \<or> nOP = OP_TRUSTPOOL then
         rbind (op_word c) (\<lambda>(hashPrev, c). Inr ((hashPrev > 0, hashPrev), c))
       else Inr ((False, 0), c))))"

definition Contract_Dependant :: "contract \<Rightarrow> ((bool \<times> u512 \<times> u32) \<times> contract) res" where
  "Contract_Dependant c =
     rbind (SeekToPrimitive c) (\<lambda>c. rbind (op_word c) (\<lambda>(nOP :: u8, c).
     if nOP = OP_CLAIM \<or> nOP = OP_CREDIT then
       rbind (op_word c) (\<lambda>(hashPrev, c). rbind (op_word c) (\<lambda>(nContract, c).
         Inr ((True, hashPrev, nContract), c)))
     else Inr ((False, 0, 0), c)))"

text \<open>The output of a \<open>LEGACY\<close> contract: the value and the raw script. The source seeks to
  byte 33, past one operation byte and the address, whatever precedes the primitive.\<close>

definition Contract_Legacy :: "contract \<Rightarrow> ((u64 \<times> byte list) option \<times> contract) res" where
  "Contract_Legacy c =
     rbind (Primitive c) (\<lambda>p.
     if p \<noteq> OP_LEGACY then Inr (None, c)
     else rbind (seek_op 33 STREAM_BEGIN c) (\<lambda>c.
       rbind (op_word c) (\<lambda>(nValue, c).
       rbind (op_vector c) (\<lambda>(scriptPubKey, c).
       rbind (seek_op 0 STREAM_BEGIN c) (\<lambda>c. Inr (Some (nValue, scriptPubKey), c))))))"

section \<open>Verification prologues\<close>

text \<open>
  Every \<open>Verify\<close> of the operations starts the same way: step back over the operation byte,
  reset the register stream, read the operation byte again and compare it; and every
  operation that carries a pre-state reads and checks it the same way.
\<close>

definition verify_op :: "u8 \<Rightarrow> contract \<Rightarrow> contract res" where
  "verify_op opc c =
     rbind (Contract_Rewind 1 OPERATIONS c) (\<lambda>c.
     rbind (Contract_Reset REGISTERS c) (\<lambda>c.
     rbind (op_word c) (\<lambda>(opx :: u8, c).
     if opx \<noteq> opc then Inl (Reject ''called with incorrect OP'') else Inr c)))"

definition read_prestate :: "env \<Rightarrow> contract \<Rightarrow> (reg_state \<times> contract) res" where
  "read_prestate E c =
     rbind (reg_word c) (\<lambda>(nState, c).
     if nState \<noteq> STATES_PRESTATE then Inl (Reject ''register script not in pre-state'')
     else rbind (reg_read_state c) (\<lambda>(state, c).
     rbind (State_IsValid E state) (\<lambda>_. Inr (state, c))))"

text \<open>Pre-state byte and register, without the validity check (\<open>Execute\<close> and \<open>Rollback\<close>).\<close>

definition take_prestate :: "contract \<Rightarrow> (reg_state \<times> contract) res" where
  "take_prestate c =
     rbind (reg_word c) (\<lambda>(nState, c).
     if nState \<noteq> STATES_PRESTATE then Inl (Reject ''register script not in pre-state'')
     else reg_read_state c)"

definition take_poststate :: "contract \<Rightarrow> (u64 \<times> contract) res" where
  "take_poststate c =
     rbind (reg_word c) (\<lambda>(nState, c).
     if nState \<noteq> STATES_POSTSTATE then Inl (Reject ''register script not in post-state'')
     else reg_word c)"

lemmas contract_reads = op_word_def op_vector_def cond_word_def reg_word_def reg_read_state_def
  cop_lift_def ccond_lift_def creg_lift_def

section \<open>What reading keeps\<close>

text \<open>\<open>same_script c c'\<close>: the contract is the same but for the read positions.\<close>

definition same_script :: "contract \<Rightarrow> contract \<Rightarrow> bool" where
  "same_script c c' \<longleftrightarrow> Contract_copy c' = Contract_copy c"

lemma same_script_refl [simp]: "same_script c c"
  by (simp add: same_script_def)

lemma same_script_trans: "same_script a b \<Longrightarrow> same_script b c \<Longrightarrow> same_script a c"
  by (simp add: same_script_def)

lemma same_script_fields:
  assumes "same_script c c'"
  shows "hashCaller c' = hashCaller c" "nTimestamp c' = nTimestamp c" "hashTx c' = hashTx c"
    "cVersion c' = cVersion c" "sData (ssOperation c') = sData (ssOperation c)"
    "sData (ssCondition c') = sData (ssCondition c)" "sData (ssRegister c') = sData (ssRegister c)"
  using assms
  by (cases c; cases c'; auto simp: same_script_def Contract_copy_def stream_of_def)+

section \<open>Positions\<close>

text \<open>\<open>opos k c\<close> and \<open>rpos p c\<close>: the contract with its operation stream moved by \<open>k\<close> bytes, resp.
  its register stream set to position \<open>p\<close>.\<close>

definition opos :: "int \<Rightarrow> contract \<Rightarrow> contract" where
  "opos k c = c\<lparr>ssOperation := (ssOperation c)\<lparr>sPos := nat ((int (sPos (ssOperation c)) + k) mod 2 ^ 64)\<rparr>\<rparr>"

definition rpos :: "nat \<Rightarrow> contract \<Rightarrow> contract" where
  "rpos p c = c\<lparr>ssRegister := (ssRegister c)\<lparr>sPos := p\<rparr>\<rparr>"

definition prestate_of :: "contract \<Rightarrow> reg_state res" where
  "prestate_of c =
     rbind (read_word stream_read (stream_of (sData (ssRegister c)))) (\<lambda>(nState, ss).
     if nState \<noteq> STATES_PRESTATE then Inl (Reject ''register script not in pre-state'')
     else rbind (read_state stream_read ss) (\<lambda>(state, _). Inr state))"

lemma opos_fields [simp]:
  "ssCondition (opos k c) = ssCondition c" "ssRegister (opos k c) = ssRegister c"
  "hashCaller (opos k c) = hashCaller c" "nTimestamp (opos k c) = nTimestamp c"
  "hashTx (opos k c) = hashTx c" "cVersion (opos k c) = cVersion c"
  "sData (ssOperation (opos k c)) = sData (ssOperation c)"
  by (simp_all add: opos_def)

lemma rpos_fields [simp]:
  "ssCondition (rpos k c) = ssCondition c" "ssOperation (rpos k c) = ssOperation c"
  "hashCaller (rpos k c) = hashCaller c" "nTimestamp (rpos k c) = nTimestamp c"
  "hashTx (rpos k c) = hashTx c" "cVersion (rpos k c) = cVersion c"
  "sData (ssRegister (rpos k c)) = sData (ssRegister c)" "sPos (ssRegister (rpos k c)) = k"
  by (simp_all add: rpos_def)

lemma opos_opos [simp]: "opos j (opos k c) = opos (k + j) c"
  by (simp add: opos_def mod_add_left_eq add.assoc)

lemma rpos_rpos [simp]: "rpos p (rpos q c) = rpos p c"
  by (simp add: rpos_def)

lemma rpos_opos [simp]: "rpos p (opos k c) = opos k (rpos p c)"
  by (simp add: rpos_def opos_def)

lemma opos_0 [simp]: "sPos (ssOperation c) < 2 ^ 64 \<Longrightarrow> opos 0 c = c"
  by (simp add: opos_def mod_pos_pos_trivial)

lemma prestate_of_pos [simp]:
  "prestate_of (opos k c) = prestate_of c" "prestate_of (rpos p c) = prestate_of c"
  by (simp_all add: prestate_of_def)

lemma op_word_pos:
  assumes "op_word c = Inr (w :: 'a::len word, c')"
  shows "c' = opos (int (LENGTH('a) div 8)) c"
proof -
  from assms obtain bs s where r: "stream_read (LENGTH('a) div 8) (ssOperation c) = Inr (bs, s)"
    and c': "c' = c\<lparr>ssOperation := s\<rparr>"
    unfolding op_word_def cop_lift_def read_word_def by (elim rbind_pairE) auto
  from r have "s = (ssOperation c)\<lparr>sPos := (sPos (ssOperation c) + LENGTH('a) div 8) mod 2 ^ 64\<rparr>"
    unfolding stream_read_def Let_def by (elim if_InlE) simp
  then show ?thesis by (simp add: c' opos_def nat_mod_as_int)
qed

lemma seek_op_pos:
  assumes "seek_op n STREAM_CURSOR c = Inr c'"
  shows "c' = opos n c"
  using assms unfolding seek_op_def stream_seek_def Let_def
  by (elim rbindE) (simp add: opos_def split: if_splits)

lemma flag_set_simps [simp]:
  "flag_set OPERATIONS OPERATIONS" "\<not> flag_set OPERATIONS CONDITIONS" "\<not> flag_set OPERATIONS REGISTERS"
  "\<not> flag_set REGISTERS OPERATIONS" "\<not> flag_set REGISTERS CONDITIONS" "flag_set REGISTERS REGISTERS"
  "\<not> flag_set CONDITIONS OPERATIONS" "flag_set CONDITIONS CONDITIONS" "\<not> flag_set CONDITIONS REGISTERS"
  by (simp_all add: flag_set_def)

lemma Rewind_pos: "Contract_Rewind n OPERATIONS c = Inr c' \<Longrightarrow> c' = opos (- int n) c"
  by (simp add: Contract_Rewind_def seek_op_pos)

lemma Seek_pos: "Contract_Seek n OPERATIONS STREAM_CURSOR c = Inr c' \<Longrightarrow> c' = opos (int n) c"
  by (simp add: Contract_Seek_def seek_op_pos)

lemma Reset_REGISTERS [simp]: "Contract_Reset REGISTERS c = Inr (rpos 0 c)"
  by (simp add: Contract_Reset_def seek_reg_def stream_seek_def rpos_def)

lemma Reset_OPERATIONS [simp]:
  "Contract_Reset OPERATIONS c = Inr (c\<lparr>ssOperation := (ssOperation c)\<lparr>sPos := 0\<rparr>\<rparr>)"
  by (simp add: Contract_Reset_def seek_op_def stream_seek_def)

lemma verify_op_pos:
  assumes "verify_op opc c = Inr c'" and "sPos (ssOperation c) < 2 ^ 64"
  shows "c' = rpos 0 c"
  using assms unfolding verify_op_def
  by (auto elim!: rbindE rbind_pairE if_InlE simp del: rbind_eq_Inr dest!: Rewind_pos op_word_pos)

lemma stream_of_reset: "sPos s = 0 \<Longrightarrow> stream_of (sData s) = s"
  by (cases s) (simp add: stream_of_def)

lemma reg_word_prestate:
  assumes "reg_word c = Inr (n :: u8, c1)" and "reg_read_state c1 = Inr (s, c')"
    and "\<not> n \<noteq> STATES_PRESTATE" and "sPos (ssRegister c) = 0"
  shows "prestate_of c = Inr s \<and> (\<exists>p. c' = rpos p c)"
proof -
  obtain t where t: "read_word stream_read (ssRegister c) = Inr (n, t)" "c1 = c\<lparr>ssRegister := t\<rparr>"
    using assms(1) unfolding reg_word_def creg_lift_def by (elim rbind_pairE) simp
  obtain u where u: "read_state stream_read t = Inr (s, u)" "c' = c\<lparr>ssRegister := u\<rparr>"
    using assms(2) t(2) unfolding reg_read_state_def creg_lift_def by (elim rbind_pairE) simp
  have "sData u = sData (ssRegister c)"
    using read_state_stream_data [OF u(1)] read_word_stream_data [OF t(1)] by simp
  then have "c' = rpos (sPos u) c" using u(2) by (cases u) (simp add: rpos_def)
  then show ?thesis using t u assms(3,4) by (auto simp: prestate_of_def stream_of_reset)
qed

lemma take_prestate_of:
  assumes "take_prestate c = Inr (s, c')" and "sPos (ssRegister c) = 0"
  shows "prestate_of c = Inr s \<and> (\<exists>p. c' = rpos p c)"
  using assms unfolding take_prestate_def
  by (elim rbind_pairE if_InlE) (rule reg_word_prestate)

lemma read_prestate_of:
  assumes "read_prestate E c = Inr (s, c')" and "sPos (ssRegister c) = 0"
  shows "prestate_of c = Inr s \<and> (\<exists>p. c' = rpos p c) \<and> State_IsValid E s = Inr ()"
  using assms unfolding read_prestate_def
  by (elim rbind_pairE rbindE if_InlE) (auto dest: reg_word_prestate)

definition op_only :: "contract \<Rightarrow> contract \<Rightarrow> bool" where
  "op_only c c' \<longleftrightarrow> c' = c\<lparr>ssOperation := ssOperation c'\<rparr>"

lemma op_only_opos [simp]: "op_only c (opos k c)"
  by (simp add: op_only_def opos_def)

lemma op_only_trans: "op_only a b \<Longrightarrow> op_only b c \<Longrightarrow> op_only a c"
  unfolding op_only_def by (cases a; cases b; cases c) simp

lemma op_only_fields:
  assumes "op_only c c'"
  shows "ssRegister c' = ssRegister c" "hashCaller c' = hashCaller c" "nTimestamp c' = nTimestamp c"
    "hashTx c' = hashTx c" "cVersion c' = cVersion c" "ssCondition c' = ssCondition c"
  using assms unfolding op_only_def by (cases c; cases c'; simp)+

lemma op_vector_only: "op_vector c = Inr (v, c') \<Longrightarrow> op_only c c'"
  unfolding op_vector_def cop_lift_def by (elim rbind_pairE) (auto simp: op_only_def)

text \<open>The pre-state of the contract is valid and owned by the caller.\<close>

definition authorized :: "env \<Rightarrow> contract \<Rightarrow> reg_state \<Rightarrow> bool" where
  "authorized E c s \<longleftrightarrow> prestate_of c = Inr s \<and> State_IsValid E s = Inr () \<and> hashOwner s = hashCaller c"

lemma reg_word_pos:
  assumes "reg_word c = Inr (w :: 'a::len word, c')"
  shows "\<exists>p. c' = rpos p c"
proof -
  obtain t where t: "read_word stream_read (ssRegister c) = Inr (w, t)" "c' = c\<lparr>ssRegister := t\<rparr>"
    using assms unfolding reg_word_def creg_lift_def by (elim rbind_pairE) simp
  then have "c' = rpos (sPos t) c"
    using read_word_stream_data [OF t(1)] by (cases t) (simp add: rpos_def)
  then show ?thesis ..
qed

lemma take_poststate_pos:
  assumes "take_poststate c = Inr (n, c')"
  shows "\<exists>p. c' = rpos p c"
  using assms unfolding take_poststate_def
  by (elim rbind_pairE if_InlE) (auto dest!: reg_word_pos)

lemma rpos_0: "sPos (ssRegister c) = 0 \<Longrightarrow> rpos 0 c = c"
  by (simp add: rpos_def)

lemma opos_in:
  assumes "sPos (ssOperation c) + n < 2 ^ 64"
  shows "opos (int n) c = c\<lparr>ssOperation := (ssOperation c)\<lparr>sPos := sPos (ssOperation c) + n\<rparr>\<rparr>"
proof -
  have "nat ((int (sPos (ssOperation c)) + int n) mod 2 ^ 64) = sPos (ssOperation c) + n"
    using assms by (simp add: nat_mod_distrib nat_add_distrib nat_power_eq)
  then show ?thesis unfolding opos_def by simp
qed

lemma op_word_byte:
  fixes c :: contract
  defines "p \<equiv> sPos (ssOperation c)" and "d \<equiv> sData (ssOperation c)"
  assumes "p < length d" and "length d < 2 ^ 64"
  shows "op_word c = Inr (d ! p, opos 1 c)"
proof -
  have "take 1 (drop p d) = [d ! p]"
    using assms(3) by (simp add: hd_drop_conv_nth take_Suc)
  then have "stream_read 1 (ssOperation c) = Inr ([d ! p], (ssOperation c)\<lparr>sPos := p + 1\<rparr>)"
    using stream_read_in [of "ssOperation c" 1] assms by simp
  then show ?thesis using opos_in [of c 1] assms
    by (simp add: op_word_def cop_lift_def read_word_def)
qed

lemma op_word_byte_end:
  assumes "sPos (ssOperation c) = length (sData (ssOperation c))" and "length (sData (ssOperation c)) + 1 < 2 ^ 64"
  shows "op_word c = (Inl (Throw ''reached end of stream'') :: (u8 \<times> contract) res)"
  using assms stream_read_out [of "ssOperation c" 1]
  by (simp add: op_word_def cop_lift_def read_word_def)

lemma op_word_in:
  assumes "op_word c = Inr (w :: 'a::len word, c')"
  shows "sPos (ssOperation c') \<le> length (sData (ssOperation c))"
proof -
  from assms obtain bs s where r: "stream_read (LENGTH('a) div 8) (ssOperation c) = Inr (bs, s)"
    and c': "c' = c\<lparr>ssOperation := s\<rparr>"
    unfolding op_word_def cop_lift_def read_word_def by (elim rbind_pairE) auto
  then show ?thesis unfolding stream_read_def Let_def by (elim if_InlE) (auto simp: not_less)
qed

text \<open>What a \<open>Verify\<close> that accepts has read.\<close>

lemma verify_prestate:
  assumes "verify_op opc c = Inr c1" and "read_prestate E c2 = Inr (s, c3)"
    and "Contract_Rewind n OPERATIONS c3 = Inr c4" and "Contract_Reset REGISTERS c4 = Inr c'"
    and "sPos (ssOperation c) < 2 ^ 64"
    and "c2 = opos (int n) c1" 
  shows "c' = rpos 0 c \<and> prestate_of c = Inr s \<and> State_IsValid E s = Inr () \<and> hashCaller c3 = hashCaller c"
proof -
  have c1: "c1 = rpos 0 c" by (rule verify_op_pos [OF assms(1,5)])
  have "sPos (ssRegister c2) = 0" by (simp add: assms(6) c1)
  from read_prestate_of [OF assms(2) this] show ?thesis
    using Rewind_pos [OF assms(3)] assms(4-6) c1 by auto
qed

section \<open>The primitive\<close>

text \<open>The contract with every stream at its start, and its primitive with the contract positioned
  behind it.\<close>

definition start :: "contract \<Rightarrow> contract" where
  "start c = c\<lparr>ssOperation := (ssOperation c)\<lparr>sPos := 0\<rparr>, ssCondition := (ssCondition c)\<lparr>sPos := 0\<rparr>,
     ssRegister := (ssRegister c)\<lparr>sPos := 0\<rparr>\<rparr>"

definition at_primitive :: "contract \<Rightarrow> (u8 \<times> contract) res" where
  "at_primitive c = rbind (SeekToPrimitive (start c)) op_word"

lemma Reset_ALL [simp]: "Contract_Reset ALL_STREAMS c = Inr (start c)"
  by (simp add: Contract_Reset_def flag_set_def seek_op_def seek_cond_def seek_reg_def stream_seek_def start_def)

lemma seek_op_CURSOR: "sPos (ssOperation c) = 0 \<Longrightarrow> k \<le> length (sData (ssOperation c)) \<Longrightarrow> k < 2 ^ 64 \<Longrightarrow>
   seek_op (int k) STREAM_CURSOR c = Inr (opos (int k) c)"
  by (simp add: seek_op_def stream_seek_def opos_def Let_def)

lemma start_fields [simp]:
  "sData (ssOperation (start c)) = sData (ssOperation c)" "sPos (ssOperation (start c)) = 0"
  "sData (ssCondition (start c)) = sData (ssCondition c)" "sData (ssRegister (start c)) = sData (ssRegister c)"
  "hashCaller (start c) = hashCaller c" "nTimestamp (start c) = nTimestamp c"
  "hashTx (start c) = hashTx c" "cVersion (start c) = cVersion c"
  "sPos (ssRegister (start c)) = 0"
  by (simp_all add: start_def)

lemma prestate_of_start [simp]: "prestate_of (start c) = prestate_of c"
  by (simp add: prestate_of_def)

lemma seek_op_begin_start [simp]: "seek_op 0 STREAM_BEGIN (start c) = Inr (start c)"
  by (simp add: seek_op_def stream_seek_def start_def)

lemma SeekToPrimitive_start:
  assumes "sData (ssOperation c) \<noteq> []"
  shows "SeekToPrimitive (start c) =
    (if hd (sData (ssOperation c)) = OP_CONDITION then seek_op 1 STREAM_CURSOR (start c)
     else if hd (sData (ssOperation c)) = OP_VALIDATE then seek_op 69 STREAM_CURSOR (start c)
     else Inr (start c))"
  using assms by (simp add: SeekToPrimitive_def stream_get_def hd_conv_nth)

lemma op_word_start:
  assumes "op_word (start c) = Inr (nOP :: u8, c1)" and "length (sData (ssOperation c)) < 2 ^ 63"
  shows "sData (ssOperation c) \<noteq> []" and "nOP = hd (sData (ssOperation c))" and "c1 = opos 1 (start c)"
proof -
  show ne: "sData (ssOperation c) \<noteq> []"
    using assms op_word_byte_end [of "start c"] by auto
  then show "nOP = hd (sData (ssOperation c))" "c1 = opos 1 (start c)"
    using assms op_word_byte [of "start c"] by (simp_all add: hd_conv_nth)
qed

lemma at_primitive_pos:
  assumes "at_primitive c = Inr (nOP, c1)" and "length (sData (ssOperation c)) < 2 ^ 63"
  shows "\<exists>k. c1 = opos k (start c)" "sPos (ssOperation c1) < 2 ^ 64"
proof -
  from assms(1) obtain c0 where 0: "SeekToPrimitive (start c) = Inr c0" and 1: "op_word c0 = Inr (nOP, c1)"
    unfolding at_primitive_def by (elim rbindE)
  from 0 have ne: "sData (ssOperation c) \<noteq> []" by (auto simp: SeekToPrimitive_def)
  have "\<exists>k. c0 = opos k (start c)"
    using 0 unfolding SeekToPrimitive_start [OF ne]
    by (auto split: if_splits dest!: seek_op_pos intro: exI [of _ 0] simp: start_def)
  then obtain k where k: "c0 = opos k (start c)" ..
  show "\<exists>k. c1 = opos k (start c)" using op_word_pos [OF 1] k by auto
  show "sPos (ssOperation c1) < 2 ^ 64" using op_word_in [OF 1] k assms(2) by simp
qed

lemma Contract_copy_start: "Contract_copy c = start c"
  by (simp add: Contract_copy_def start_def stream_of_def)

lemma start_start [simp]: "start (start c) = start c"
  by (simp add: start_def)

lemma rpos_start [simp]: "rpos 0 (start c) = start c"
  by (simp add: rpos_def start_def)

end
