(* ===== verification/Databases.thy ===== *)
theory Databases
  imports Memory_Overlay Contract
begin

text \<open>
  The three databases the operations layer writes to: register states
  (\<^verbatim>\<open>LLD/register.cpp\<close>), proofs, claims, events and transactions (\<^verbatim>\<open>LLD/ledger.cpp\<close>) and
  fulfilled conditional contracts (\<^verbatim>\<open>LLD/contract.cpp\<close>), each over the memory of
  \<open>Memory_Overlay\<close>, and the world the operations run in.
\<close>

section \<open>Transactions as the operations see them\<close>

text \<open>A tritium transaction, with its hash in a field, and of a legacy transaction its outputs, on disk and in the memory pool.\<close>

record tx =
  txGenesis :: u256
  txTimestamp :: u64
  txVersion :: u32
  txHash :: u512
  vContracts :: "contract list"
  txSequence :: u32
  txNext :: u256
  txRecovery :: u256
  txPrevTx :: u512
  txKeyType :: u8
  txPubKey :: "byte list"
  txSig :: "byte list"

record txout =
  nValue :: u64
  scriptPubKey :: "byte list"

abbreviation (input) TX_TRITIUM :: u8 where "TX_TRITIUM \<equiv> 1"
abbreviation (input) TX_LEGACY :: u8 where "TX_LEGACY \<equiv> 2"

definition LEGACY_OP_RETURN :: byte where
  "LEGACY_OP_RETURN = 0x6a"

section \<open>State\<close>

text \<open>Blocks (\<^verbatim>\<open>TAO/Ledger/types/block.h\<close>, \<^verbatim>\<open>state.h\<close>): what is hashed, and the state of the chain at the
  block. The amounts minted are a 32-bit number in the source, as are the signed reserves 64-bit numbers.\<close>

record block_header =
  bVersion :: u32
  hashPrevBlock :: u1024
  hashMerkleRoot :: u512
  bChannel :: u32
  bHeight :: u32
  bBits :: u32
  bNonce :: u64
  bTime :: u64
  bOffsets :: "byte list"

record block_state = block_header +
  bVtx :: "(u8 \<times> u512) list"
  bChainTrust :: u64
  bMoneySupply :: u64
  bMint :: u32
  bFees :: u64
  bChannelHeight :: u32
  bChannelWeight :: "128 word list"
  bReleasedReserve :: "u64 list"
  bFeeReserve :: u64
  hashNextBlock :: u1024
  hashCheckpoint :: u1024

text \<open>The index gives the hash of the block a transaction is in.\<close>

record register_db =
  rStates :: "(u256, reg_state) overlay"
  rTrust :: "u256 \<rightharpoonup> u256"

record ledger_db =
  lClaims :: "(u512 \<times> u32, u64) overlay"
  lProofs :: "(u256 \<times> u512 \<times> u32, unit) overlay"
  lSequence :: "u256 \<rightharpoonup> u32"
  lEvents :: "u256 \<times> u32 \<rightharpoonup> u512"
  lStake :: "u256 \<rightharpoonup> u512"
  lTx :: "u512 \<rightharpoonup> tx"
  lMempool :: "u512 \<rightharpoonup> tx"
  lLast :: "u256 \<rightharpoonup> u512"
  lGenesis :: "u256 \<rightharpoonup> u512"
  lIndex :: "u512 \<rightharpoonup> u1024"
  lBlocks :: "u1024 \<rightharpoonup> block_state"
  lBestChain :: "u1024 option"

type_synonym contract_db = "(u512 \<times> u32, u256) overlay"

record stake_change =
  fProcessed :: bool
  scHashTx :: u512

record world =
  wRegister :: register_db
  wLedger :: ledger_db
  wContract :: contract_db
  wLegacyTx :: "u512 \<rightharpoonup> txout list"
  wLegacyPool :: "u512 \<rightharpoonup> txout list"
  wTrustKeys :: "u576 \<rightharpoonup> bool"
  wStakeChange :: "u256 \<rightharpoonup> stake_change"

section \<open>Register database\<close>

definition write_state :: "env \<Rightarrow> u8 \<Rightarrow> u256 \<Rightarrow> reg_state \<Rightarrow> (u256, reg_state) overlay \<Rightarrow> (u256, reg_state) overlay" where
  "write_state E nFlags hashRegister state d =
     (if nFlags = FLAGS_MEMPOOL then mem_write hashRegister state d
      else if nFlags = FLAGS_MINER then miner_write hashRegister state d
      else
        let d' = (if nFlags = FLAGS_BLOCK \<or> nFlags = FLAGS_ERASE then
                    (case pCommit d hashRegister of
                       Some stateCheck \<Rightarrow>
                         if State_eq E stateCheck state \<or> nFlags = FLAGS_ERASE
                         then mem_erase hashRegister d else d
                     | None \<Rightarrow> d)
                  else d)
        in if nFlags = FLAGS_ERASE then d' else disk_write hashRegister state d')"

definition read_register :: "u8 \<Rightarrow> u256 \<Rightarrow> (u256, reg_state) overlay \<Rightarrow> reg_state option" where
  "read_register nFlags hashRegister d =
     (if nFlags = FLAGS_MEMPOOL \<or> nFlags = FLAGS_LOOKUP then
        or_disk (mem_lookup hashRegister d) hashRegister d
      else if nFlags = FLAGS_MINER then or_disk (miner_lookup hashRegister d) hashRegister d
      else disk d hashRegister)"

definition has_register :: "u8 \<Rightarrow> u256 \<Rightarrow> (u256, reg_state) overlay \<Rightarrow> bool" where
  "has_register nFlags hashRegister d \<longleftrightarrow>
     (if nFlags = FLAGS_MEMPOOL then or_disk (mem_lookup hashRegister d) hashRegister d
      else if nFlags = FLAGS_MINER then or_disk (miner_lookup hashRegister d) hashRegister d
      else disk d hashRegister) \<noteq> None"

definition WriteState :: "env \<Rightarrow> u256 \<Rightarrow> reg_state \<Rightarrow> u8 \<Rightarrow> world \<Rightarrow> world" where
  "WriteState E h s nFlags W =
     W\<lparr>wRegister := (wRegister W)\<lparr>rStates := write_state E nFlags h s (rStates (wRegister W))\<rparr>\<rparr>"

definition ReadState :: "u256 \<Rightarrow> u8 \<Rightarrow> world \<Rightarrow> reg_state option" where
  "ReadState h nFlags W = read_register nFlags h (rStates (wRegister W))"

definition HasState :: "u256 \<Rightarrow> u8 \<Rightarrow> world \<Rightarrow> bool" where
  "HasState h nFlags W = has_register nFlags h (rStates (wRegister W))"

definition EraseState :: "u256 \<Rightarrow> u8 \<Rightarrow> world \<Rightarrow> world" where
  "EraseState h nFlags W =
     W\<lparr>wRegister := (wRegister W)\<lparr>rStates := overlay_erase h nFlags (rStates (wRegister W))\<rparr>\<rparr>"

definition IndexTrust :: "u256 \<Rightarrow> u256 \<Rightarrow> world \<Rightarrow> world" where
  "IndexTrust hashGenesis hashRegister W =
     W\<lparr>wRegister := (wRegister W)\<lparr>rTrust := (rTrust (wRegister W))(hashGenesis \<mapsto> hashRegister)\<rparr>\<rparr>"

definition HasTrust :: "u256 \<Rightarrow> world \<Rightarrow> bool" where
  "HasTrust hashGenesis W \<longleftrightarrow> rTrust (wRegister W) hashGenesis \<noteq> None"

definition EraseTrust :: "u256 \<Rightarrow> world \<Rightarrow> world" where
  "EraseTrust hashGenesis W =
     W\<lparr>wRegister := (wRegister W)\<lparr>rTrust := (rTrust (wRegister W))(hashGenesis := None)\<rparr>\<rparr>"

definition WriteTrust :: "env \<Rightarrow> u256 \<Rightarrow> reg_state \<Rightarrow> world \<Rightarrow> world res" where
  "WriteTrust E hashGenesis state W =
     rbind (Address_key E (str ''trust'') hashGenesis ADDR_TRUST) (\<lambda>hashRegister.
       let d = rStates (wRegister W);
           W = W\<lparr>wRegister := (wRegister W)\<lparr>rStates := d\<lparr>pCommit := (pCommit d)(hashRegister := None)\<rparr>\<rparr>\<rparr>
       in Inr (WriteState E hashRegister state FLAGS_BLOCK W))"

section \<open>Ledger database\<close>

definition write_claim :: "u8 \<Rightarrow> u512 \<times> u32 \<Rightarrow> u64 \<Rightarrow> (u512 \<times> u32, u64) overlay \<Rightarrow> (u512 \<times> u32, u64) overlay" where
  "write_claim nFlags pair nClaimed d =
     (if nFlags = FLAGS_MEMPOOL \<or> nFlags = FLAGS_ERASE then mem_write pair nClaimed d
      else if nFlags = FLAGS_MINER then miner_write pair nClaimed d
      else disk_write pair nClaimed
        (if nFlags = FLAGS_BLOCK \<and> pCommit d pair = Some nClaimed then mem_erase pair d else d))"

definition read_claim :: "u8 \<Rightarrow> u512 \<times> u32 \<Rightarrow> (u512 \<times> u32, u64) overlay \<Rightarrow> u64 option" where
  "read_claim nFlags pair d =
     (if nFlags = FLAGS_MEMPOOL \<or> nFlags = FLAGS_ERASE then or_disk (mem_lookup pair d) pair d
      else if nFlags = FLAGS_MINER then or_disk (miner_lookup pair d) pair d
      else disk d pair)"

definition WriteClaimed :: "u512 \<Rightarrow> u32 \<Rightarrow> u64 \<Rightarrow> u8 \<Rightarrow> world \<Rightarrow> world" where
  "WriteClaimed h n nClaimed nFlags W =
     W\<lparr>wLedger := (wLedger W)\<lparr>lClaims := write_claim nFlags (h, n) nClaimed (lClaims (wLedger W))\<rparr>\<rparr>"

definition ReadClaimed :: "u512 \<Rightarrow> u32 \<Rightarrow> u8 \<Rightarrow> world \<Rightarrow> u64 option" where
  "ReadClaimed h n nFlags W = read_claim nFlags (h, n) (lClaims (wLedger W))"

definition write_proof :: "u8 \<Rightarrow> 'k \<Rightarrow> 'v \<Rightarrow> ('k, 'v) overlay \<Rightarrow> ('k, 'v) overlay" where
  "write_proof nFlags k v d =
     (if nFlags = FLAGS_MEMPOOL then mem_write k v d
      else if nFlags = FLAGS_MINER then miner_write k v d
      else
        let d' = (if nFlags = FLAGS_BLOCK \<or> nFlags = FLAGS_ERASE then mem_erase k d else d)
        in if nFlags = FLAGS_ERASE then d' else disk_write k v d')"

definition read_proof :: "u8 \<Rightarrow> 'k \<Rightarrow> ('k, 'v) overlay \<Rightarrow> 'v option" where
  "read_proof nFlags k d =
     (if nFlags = FLAGS_MEMPOOL then or_disk (mem_lookup k d) k d
      else if nFlags = FLAGS_MINER then or_disk (miner_lookup k d) k d
      else disk d k)"

definition WriteProof :: "u256 \<Rightarrow> u512 \<Rightarrow> u32 \<Rightarrow> u8 \<Rightarrow> world \<Rightarrow> world" where
  "WriteProof hashProof h n nFlags W =
     W\<lparr>wLedger := (wLedger W)\<lparr>lProofs := write_proof nFlags (hashProof, h, n) () (lProofs (wLedger W))\<rparr>\<rparr>"

definition HasProof :: "u256 \<Rightarrow> u512 \<Rightarrow> u32 \<Rightarrow> u8 \<Rightarrow> world \<Rightarrow> bool" where
  "HasProof hashProof h n nFlags W \<longleftrightarrow> read_proof nFlags (hashProof, h, n) (lProofs (wLedger W)) \<noteq> None"

definition EraseProof :: "u256 \<Rightarrow> u512 \<Rightarrow> u32 \<Rightarrow> u8 \<Rightarrow> world \<Rightarrow> world" where
  "EraseProof hashProof h n nFlags W =
     W\<lparr>wLedger := (wLedger W)\<lparr>lProofs := overlay_erase (hashProof, h, n) nFlags (lProofs (wLedger W))\<rparr>\<rparr>"

definition ReadSequence :: "u256 \<Rightarrow> world \<Rightarrow> u32 option" where
  "ReadSequence a W = lSequence (wLedger W) a"

definition WriteSequence :: "u256 \<Rightarrow> u32 \<Rightarrow> world \<Rightarrow> world" where
  "WriteSequence a n W = W\<lparr>wLedger := (wLedger W)\<lparr>lSequence := (lSequence (wLedger W))(a \<mapsto> n)\<rparr>\<rparr>"

definition WriteEvent :: "u256 \<Rightarrow> u512 \<Rightarrow> world \<Rightarrow> world" where
  "WriteEvent hashAddress h W =
     (let nSequence = (case ReadSequence hashAddress W of Some n \<Rightarrow> n | None \<Rightarrow> 0);
          W = WriteSequence hashAddress (nSequence + 1) W
      in W\<lparr>wLedger := (wLedger W)\<lparr>lEvents := (lEvents (wLedger W))((hashAddress, nSequence) \<mapsto> h)\<rparr>\<rparr>)"

definition EraseEvent :: "u256 \<Rightarrow> world \<Rightarrow> world res" where
  "EraseEvent hashAddress W =
     (case ReadSequence hashAddress W of
        None \<Rightarrow> Inl (Reject ''no event to erase'')
      | Some nSequence \<Rightarrow>
          let W = WriteSequence hashAddress (nSequence - 1) W
          in Inr (W\<lparr>wLedger := (wLedger W)\<lparr>lEvents := (lEvents (wLedger W))((hashAddress, nSequence - 1) := None)\<rparr>\<rparr>))"

definition WriteStake :: "u256 \<Rightarrow> u512 \<Rightarrow> world \<Rightarrow> world" where
  "WriteStake g h W = W\<lparr>wLedger := (wLedger W)\<lparr>lStake := (lStake (wLedger W))(g \<mapsto> h)\<rparr>\<rparr>"

definition EraseStake :: "u256 \<Rightarrow> world \<Rightarrow> world" where
  "EraseStake g W = W\<lparr>wLedger := (wLedger W)\<lparr>lStake := (lStake (wLedger W))(g := None)\<rparr>\<rparr>"

definition ReadStake :: "u256 \<Rightarrow> world \<Rightarrow> u512 option" where
  "ReadStake g W = lStake (wLedger W) g"

definition WriteTx :: "u512 \<Rightarrow> tx \<Rightarrow> world \<Rightarrow> world" where
  "WriteTx h t W = W\<lparr>wLedger := (wLedger W)\<lparr>lTx := (lTx (wLedger W))(h \<mapsto> t)\<rparr>\<rparr>"

definition ReadTx :: "u512 \<Rightarrow> u8 \<Rightarrow> world \<Rightarrow> tx option" where
  "ReadTx h nFlags W =
     (if nFlags = FLAGS_MEMPOOL \<or> nFlags = FLAGS_MINER then
        (case lMempool (wLedger W) h of Some t \<Rightarrow> Some t | None \<Rightarrow> lTx (wLedger W) h)
      else lTx (wLedger W) h)"

text \<open>\<open>Transaction::operator[]\<close>: bounds check, then the contract bound to the transaction.\<close>

definition tx_contract :: "tx \<Rightarrow> u32 \<Rightarrow> contract res" where
  "tx_contract t n =
     (if unat n \<ge> length (vContracts t) then Inl (Throw ''contract read out of bounds'')
      else Inr (Contract_copy (Contract_Bind_tx (txGenesis t) (txTimestamp t) (txVersion t) (txHash t)
             (vContracts t ! unat n))))"

text \<open>\<open>LegacyDB::ReadTx\<close>: the outputs of a legacy transaction, from the memory pool first where the flag says so.\<close>

definition Legacy_ReadOutputs :: "u512 \<Rightarrow> u8 \<Rightarrow> world \<Rightarrow> txout list option" where
  "Legacy_ReadOutputs h nFlags W =
     (if nFlags = FLAGS_MEMPOOL \<or> nFlags = FLAGS_MINER then
        (case wLegacyPool W h of Some vout \<Rightarrow> Some vout | None \<Rightarrow> wLegacyTx W h)
      else wLegacyTx W h)"

definition legacy_contract :: "env \<Rightarrow> txout \<Rightarrow> contract res" where
  "legacy_contract E out =
     (if length (scriptPubKey out) \<noteq> 34 then Inl (Throw ''invalid script size'')
      else let hashAccount = deser_word (take 32 (drop 1 (scriptPubKey out))) :: u256 in
      if scriptPubKey out ! 33 \<noteq> LEGACY_OP_RETURN then Inl (Throw ''last OP has to be OP_RETURN'')
      else Inr ((Contract_default E)\<lparr>ssOperation := stream_of
        ([OP_DEBIT] @ ser_word WILDCARD_ADDRESS @ ser_word hashAccount @ ser_word (nValue out) @
         ser_word (0 :: u64))\<rparr>))"

definition Ledger_ReadContract :: "env \<Rightarrow> u512 \<Rightarrow> u32 \<Rightarrow> u8 \<Rightarrow> world \<Rightarrow> contract res" where
  "Ledger_ReadContract E h nContract nFlags W =
     (if GetType h = TX_TRITIUM then
        (case ReadTx h nFlags W of
           None \<Rightarrow> Inl (Throw ''failed to read contract'')
         | Some t \<Rightarrow> tx_contract t nContract)
      else if GetType h = TX_LEGACY then
        (case Legacy_ReadOutputs h nFlags W of
           None \<Rightarrow> Inl (Throw ''failed to get legacy transaction'')
         | Some vout \<Rightarrow>
             if unat nContract \<ge> length vout then Inl (Throw ''contract output out of bounds'')
             else legacy_contract E (vout ! unat nContract))
      else Inl (Throw ''invalid txid type''))"

section \<open>Contract database\<close>

text \<open>\<open>WriteContract\<close> and \<open>WriteProof\<close> handle the memory alike.\<close>

definition WriteContract :: "u512 \<Rightarrow> u32 \<Rightarrow> u256 \<Rightarrow> u8 \<Rightarrow> world \<Rightarrow> world" where
  "WriteContract h n caller nFlags W =
     W\<lparr>wContract := write_proof nFlags (h, n) caller (wContract W)\<rparr>"

definition EraseContract :: "u512 \<Rightarrow> u32 \<Rightarrow> u8 \<Rightarrow> world \<Rightarrow> world" where
  "EraseContract h n nFlags W = W\<lparr>wContract := overlay_erase (h, n) nFlags (wContract W)\<rparr>"

definition ReadContract :: "u512 \<Rightarrow> u32 \<Rightarrow> u8 \<Rightarrow> world \<Rightarrow> u256 option" where
  "ReadContract h n nFlags W = read_proof nFlags (h, n) (wContract W)"

definition HasContract :: "u512 \<Rightarrow> u32 \<Rightarrow> u8 \<Rightarrow> world \<Rightarrow> bool" where
  "HasContract h n nFlags W \<longleftrightarrow> read_proof nFlags (h, n) (wContract W) \<noteq> None"

section \<open>The stores\<close>

interpretation st: store "\<lambda>f. read_register f" "\<lambda>f k v. write_state E f k v" "live"
  by unfold_locales (auto simp: read_register_def write_state_def live_def overlay_defs Let_def
      split: option.splits)

interpretation cl: store "\<lambda>f. read_claim f" "\<lambda>f k v. write_claim f k v" "live"
  by unfold_locales (auto simp: read_claim_def write_claim_def live_def overlay_defs Let_def
      split: option.splits)

interpretation pr: store "\<lambda>f. read_proof f" "\<lambda>f k v. write_proof f k v" "live"
  by unfold_locales (auto simp: read_proof_def write_proof_def live_def overlay_defs Let_def
      split: option.splits)

section \<open>Reading after writing\<close>

definition wlive :: "u8 \<Rightarrow> world \<Rightarrow> bool" where
  "wlive f W \<longleftrightarrow> live f (rStates (wRegister W)) \<and> live f (lClaims (wLedger W)) \<and>
     live f (lProofs (wLedger W)) \<and> live f (wContract W)"

lemmas world_ops = WriteState_def ReadState_def HasState_def EraseState_def IndexTrust_def
  EraseTrust_def HasTrust_def WriteClaimed_def ReadClaimed_def WriteProof_def HasProof_def
  EraseProof_def ReadSequence_def WriteSequence_def WriteEvent_def EraseEvent_def WriteStake_def EraseStake_def
  ReadStake_def WriteTx_def ReadTx_def WriteContract_def EraseContract_def ReadContract_def
  HasContract_def Let_def

lemma ReadState_WriteState:
  "wlive f W \<Longrightarrow> ReadState h' f (WriteState E h s f W) = (if h' = h then Some s else ReadState h' f W)"
  by (simp add: ReadState_def WriteState_def wlive_def st.rd_wr_iff)

lemma HasProof_WriteProof:
  "wlive f W \<Longrightarrow> HasProof p' h' n' f (WriteProof p h n f W) \<longleftrightarrow>
     (p', h', n') = (p, h, n) \<or> HasProof p' h' n' f W"
  by (auto simp: HasProof_def WriteProof_def wlive_def pr.rd_wr_iff)

lemma ReadClaimed_WriteClaimed:
  "wlive f W \<Longrightarrow> ReadClaimed h' n' f (WriteClaimed h n c f W) =
     (if (h', n') = (h, n) then Some c else ReadClaimed h' n' f W)"
  by (simp add: ReadClaimed_def WriteClaimed_def wlive_def cl.rd_wr_iff)

lemma HasContract_WriteContract:
  "wlive f W \<Longrightarrow> HasContract h' n' f (WriteContract h n c f W) \<longleftrightarrow>
     (h', n') = (h, n) \<or> HasContract h' n' f W"
  by (auto simp: HasContract_def WriteContract_def wlive_def pr.rd_wr_iff)

text \<open>Operations on one database leave what is read from the others unchanged.\<close>

lemma ReadState_other [simp]:
  "ReadState a f (WriteClaimed h n c g W) = ReadState a f W"
  "ReadState a f (WriteProof p h n g W) = ReadState a f W"
  "ReadState a f (EraseProof p h n g W) = ReadState a f W"
  "ReadState a f (WriteEvent b h W) = ReadState a f W"
  "ReadState a f (WriteStake b h W) = ReadState a f W"
  "ReadState a f (EraseStake b W) = ReadState a f W"
  "ReadState a f (IndexTrust b r W) = ReadState a f W"
  "ReadState a f (WriteContract h n u g W) = ReadState a f W"
  "ReadState a f (EraseContract h n g W) = ReadState a f W"
  by (simp_all add: world_ops)

lemma HasProof_other [simp]:
  "HasProof p h n f (WriteState E a s g W) = HasProof p h n f W"
  "HasProof p h n f (EraseState a g W) = HasProof p h n f W"
  "HasProof p h n f (WriteClaimed h' n' c g W) = HasProof p h n f W"
  "HasProof p h n f (WriteEvent b h' W) = HasProof p h n f W"
  "HasProof p h n f (WriteStake b h' W) = HasProof p h n f W"
  "HasProof p h n f (IndexTrust b r W) = HasProof p h n f W"
  "HasProof p h n f (WriteContract h' n' u g W) = HasProof p h n f W"
  by (simp_all add: world_ops)

lemma HasContract_other [simp]:
  "HasContract h n f (WriteState E a s g W) = HasContract h n f W"
  "HasContract h n f (WriteProof p h' n' g W) = HasContract h n f W"
  "HasContract h n f (WriteClaimed h' n' c g W) = HasContract h n f W"
  "HasContract h n f (WriteEvent b h' W) = HasContract h n f W"
  by (simp_all add: world_ops)

lemma live_write_state: "live f d \<Longrightarrow> live f (write_state E g h s d)"
  by (auto simp: write_state_def live_def overlay_defs Let_def split: option.splits)

lemma live_write_claim: "live f d \<Longrightarrow> live f (write_claim g h s d)"
  by (auto simp: write_claim_def live_def overlay_defs Let_def split: option.splits)

lemma live_write_proof: "live f d \<Longrightarrow> live f (write_proof g h s d)"
  by (auto simp: write_proof_def live_def overlay_defs Let_def split: option.splits)

lemma wlive_ops [simp]:
  "wlive f W \<Longrightarrow> wlive f (WriteState E h s g W)"
  "wlive f W \<Longrightarrow> wlive f (WriteClaimed a n c g W)"
  "wlive f W \<Longrightarrow> wlive f (WriteProof p a n g W)"
  "wlive f W \<Longrightarrow> wlive f (WriteContract a n u g W)"
  "wlive f W \<Longrightarrow> wlive f (WriteEvent u a W)"
  "wlive f W \<Longrightarrow> wlive f (WriteStake u a W)"
  "wlive f W \<Longrightarrow> wlive f (IndexTrust u v W)"
  by (simp_all add: wlive_def world_ops live_write_state live_write_claim live_write_proof)

end
