(* ===== verification/Op_Register.thy ===== *)
theory Op_Register
  imports Object_Layout Databases
begin

text \<open>
  The operations on registers: \<^verbatim>\<open>TAO/Operation/write.cpp\<close>, \<^verbatim>\<open>append.cpp\<close>, \<^verbatim>\<open>transfer.cpp\<close> and
  \<^verbatim>\<open>claim.cpp\<close>. As in the sources each operation has three parts: \<open>Verify\<close> checks the rules on
  the contract and its recorded pre-state, \<open>Execute\<close> computes the post-state in memory, and
  \<open>Commit\<close> writes it to the databases.
\<close>

section \<open>Write\<close>

definition Write_Commit :: "env \<Rightarrow> reg_state \<Rightarrow> u256 \<Rightarrow> u8 \<Rightarrow> world \<Rightarrow> world res" where
  "Write_Commit E state hashAddress nFlags W = Inr (WriteState E hashAddress state nFlags W)"

text \<open>One write instruction: the value of the announced type is read from the instruction
  stream and written to the object.\<close>

definition write_word :: "'a::len itself \<Rightarrow> byte list \<Rightarrow> stream \<Rightarrow> object \<Rightarrow> (object \<times> stream) res" where
  "write_word T strName s ob =
     rbind (read_word stream_read s) (\<lambda>(x :: 'a word, s).
     rbind (or_error ''failed to write value'' (Object_Write strName x ob)) (\<lambda>ob. Inr (ob, s)))"

definition write_value :: "u8 \<Rightarrow> byte list \<Rightarrow> stream \<Rightarrow> object \<Rightarrow> (object \<times> stream) res" where
  "write_value t strName s ob =
     (if t = 0x70 then write_word TYPE(8) strName s ob
      else if t = 0x71 then write_word TYPE(16) strName s ob
      else if t = 0x72 then write_word TYPE(32) strName s ob
      else if t = 0x73 then write_word TYPE(64) strName s ob
      else if t = 0x74 then write_word TYPE(256) strName s ob
      else if t = 0x75 then write_word TYPE(512) strName s ob
      else if t = 0x76 then write_word TYPE(1024) strName s ob
      else if t = 0x77 then
        rbind (read_string stream_read s) (\<lambda>(x, s).
        rbind (or_error ''failed to write string'' (Object_WriteData TYPES_STRING strName x ob)) (\<lambda>ob. Inr (ob, s)))
      else if t = 0x78 then
        rbind (read_vector stream_read s) (\<lambda>(x, s).
        rbind (or_error ''failed to write bytes'' (Object_WriteData TYPES_BYTES strName x ob)) (\<lambda>ob. Inr (ob, s)))
      else Inl (Reject ''malformed stream (unexpected type)''))"

definition write_step :: "stream \<Rightarrow> byte list list \<Rightarrow> object \<Rightarrow> (byte list list \<times> object \<times> stream) res" where
  "write_step s setValues ob =
     rbind (read_string stream_read s) (\<lambda>(strName, s).
     if Reserved_field strName then Inl (Reject ''cannot use reserved field'')
     else if strName \<in> set setValues then Inl (Reject ''cannot write same values twice'')
     else rbind (read_word stream_read s) (\<lambda>(t, s).
     rbind (write_value t strName s ob) (\<lambda>(ob, s). Inr (strName # setValues, ob, s))))"

lemma read_string_stream:
  assumes "read_string stream_read s = Inr (x, s')"
  shows "sData s' = sData s" and "x \<in> names_in (sData s)"
proof -
  obtain n t where n: "ReadCompactSize stream_read s = Inr (n, t)"
    and x: "(if n \<noteq> 0 then stream_read n t else Inr ([], t)) = Inr (x, s')"
    using assms unfolding read_string_def by (elim rbind_pairE) simp
  have t: "sData t = sData s" using ReadCompactSize_stream_data [OF n] .
  show "sData s' = sData s" using x t by (cases "n = 0") (auto dest: stream_read_shape)
  show "x \<in> names_in (sData s)"
  proof (cases "n = 0")
    case True with x show ?thesis by (simp add: names_in_def)
  next
    case False
    with x have "x = take n (drop (sPos t) (sData s))" using stream_read_shape(2) [of n t x s'] t by simp
    then show ?thesis
      using set_take_subset [of n "drop (sPos t) (sData s)"] set_drop_subset [of "sPos t" "sData s"]
      by (auto simp: names_in_def)
  qed
qed

lemma write_value_data:
  assumes "write_value t n s ob = Inr (ob', s')"
  shows "sData s' = sData s \<and> field_update n ob ob'"
proof -
  have w: "sData s' = sData s \<and> field_update n ob ob'"
    if "write_word T n s ob = Inr (ob', s')" for T :: "'a::len itself"
    using that unfolding write_word_def
    by (auto elim!: rbind_pairE rbindE simp: field_updateI_word read_word_stream_data
        simp del: rbind_eq_Inr)
  show ?thesis
    using assms unfolding write_value_def
    by (auto elim!: rbind_pairE rbindE simp: field_updateI_data read_string_stream
        read_vector_stream_data simp del: rbind_eq_Inr split: if_splits dest: w)
qed

lemma write_step_spec:
  assumes "write_step s vs ob = Inr (vs', ob', s')"
  obtains n where "vs' = n # vs" and "n \<notin> set vs" and "n \<in> names_in (sData s)"
    and "\<not> Reserved_field n" and "sData s' = sData s" and "field_update n ob ob'"
proof -
  from assms obtain n s1 t s2 ob1 s3 where 1: "read_string stream_read s = Inr (n, s1)"
    "\<not> Reserved_field n" "n \<notin> set vs" "read_word stream_read s1 = Inr (t, s2)"
    "write_value t n s2 ob = Inr (ob1, s3)" "(vs', ob', s') = (n # vs, ob1, s3)"
    unfolding write_step_def by (elim rbind_pairE if_InlE) simp
  then show ?thesis
    using read_string_stream [OF 1(1)] read_word_stream_data [OF 1(4)] write_value_data [OF 1(5)]
    by (intro that [of n]) simp_all
qed

text \<open>Every turn records a new name, so the loop ends.\<close>

function write_loop :: "stream \<Rightarrow> byte list list \<Rightarrow> object \<Rightarrow> object res" where
  "write_loop s setValues ob =
     (if stream_end s then Inr ob
      else rbind (write_step s setValues ob) (\<lambda>(setValues, ob, s). write_loop s setValues ob))"
  by pat_completeness auto
termination
proof (relation "measure (\<lambda>(s, vs, ob). card (names_in (sData s) - set vs))", goal_cases)
  case (2 s vs ob r vs' os ob' s')
  then have "write_step s vs ob = Inr (vs', ob', s')" by simp
  then obtain n where "vs' = n # vs" "n \<notin> set vs" "n \<in> names_in (sData s)" "sData s' = sData s"
    by (rule write_step_spec)
  then have "names_in (sData s') - set vs' \<subset> names_in (sData s) - set vs" by auto
  then show ?case by (auto intro: psubset_card_mono simp: finite_names_in)
qed simp

declare write_loop.simps [simp del]

definition Write_Execute :: "env \<Rightarrow> reg_state \<Rightarrow> byte list \<Rightarrow> u64 \<Rightarrow> reg_state res" where
  "Write_Execute E state vchData nTime =
     rbind (if nType state = REGISTER_OBJECT then
              rbind (or_error ''object register failed to parse'' (Object_Parse (Object_of state))) (\<lambda>ob.
              rbind (write_loop (stream_of vchData) [] ob) (\<lambda>ob.
                Inr (SetState E (GetState ob) state)))
            else if length vchData \<noteq> length (GetState state) then Inl (Reject ''size mismatch'')
            else Inr (SetState E vchData state)) (\<lambda>state.
     let state = SetChecksum E (state\<lparr>nModified := nTime\<rparr>) in
     rbind (or_error ''post-state is in invalid state'' (State_IsValid E state)) (\<lambda>_. Inr state))"

definition Write_Verify :: "env \<Rightarrow> contract \<Rightarrow> contract res" where
  "Write_Verify E c =
     rbind (verify_op OP_WRITE c) (\<lambda>c.
     rbind (op_word c) (\<lambda>(hashAddress, c).
     if Reserved_address hashAddress then
       Inl (Reject ''cannot write to register with reserved address'')
     else rbind (read_prestate E c) (\<lambda>(state, c).
     if nType state = REGISTER_READONLY \<or> nType state = REGISTER_APPEND then
       Inl (Reject ''not allowed on readonly or append types'')
     else if hashCaller c \<noteq> hashOwner state then Inl (Reject ''caller not authorized'')
     else rbind (Contract_Rewind 32 OPERATIONS c) (\<lambda>c. Contract_Reset REGISTERS c))))"

section \<open>Append\<close>

definition Append_Commit :: "env \<Rightarrow> reg_state \<Rightarrow> u256 \<Rightarrow> u8 \<Rightarrow> world \<Rightarrow> world res" where
  "Append_Commit E state hashAddress nFlags W = Inr (WriteState E hashAddress state nFlags W)"

definition Append_Execute :: "env \<Rightarrow> reg_state \<Rightarrow> byte list \<Rightarrow> u64 \<Rightarrow> reg_state res" where
  "Append_Execute E state vchData nTime =
     (let state = State_Append E vchData state;
          state = SetChecksum E (state\<lparr>nModified := nTime\<rparr>) in
      rbind (or_error ''post-state is in invalid state'' (State_IsValid E state)) (\<lambda>_. Inr state))"

definition Append_Verify :: "env \<Rightarrow> contract \<Rightarrow> contract res" where
  "Append_Verify E c =
     rbind (verify_op OP_APPEND c) (\<lambda>c.
     rbind (op_word c) (\<lambda>(hashAddress, c).
     if Reserved_address hashAddress then
       Inl (Reject ''cannot append register with reserved address'')
     else rbind (read_prestate E c) (\<lambda>(state, c).
     if nType state \<noteq> REGISTER_RAW \<and> nType state \<noteq> REGISTER_APPEND then
       Inl (Reject ''cannot call on non raw or append register'')
     else if hashCaller c \<noteq> hashOwner state then Inl (Reject ''caller not authorized'')
     else rbind (Contract_Rewind 32 OPERATIONS c) (\<lambda>c. Contract_Reset REGISTERS c))))"

section \<open>Transfer\<close>

definition Transfer_Commit :: "env \<Rightarrow> reg_state \<Rightarrow> u512 \<Rightarrow> u256 \<Rightarrow> u256 \<Rightarrow> u8 \<Rightarrow> world \<Rightarrow> world res" where
  "Transfer_Commit E state h hashAddress hashTransfer nFlags W =
     (let W = (if nFlags = FLAGS_BLOCK \<and> hashTransfer \<noteq> WILDCARD_ADDRESS
               then WriteEvent hashTransfer h W else W)
      in Inr (WriteState E hashAddress state nFlags W))"

definition Transfer_Execute :: "env \<Rightarrow> reg_state \<Rightarrow> u256 \<Rightarrow> u64 \<Rightarrow> reg_state res" where
  "Transfer_Execute E state hashTransfer nTime =
     (let state = SetChecksum E (state\<lparr>hashOwner := hashTransfer, nModified := nTime\<rparr>) in
      rbind (or_error ''post-state is in invalid state'' (State_IsValid E state)) (\<lambda>_. Inr state))"

definition Transfer_Verify :: "env \<Rightarrow> contract \<Rightarrow> contract res" where
  "Transfer_Verify E c =
     rbind (verify_op OP_TRANSFER c) (\<lambda>c.
     rbind (op_word c) (\<lambda>(hashAddress, c).
     if Reserved_address hashAddress then Inl (Reject ''cannot transfer reserved address'')
     else rbind (op_word c) (\<lambda>(hashTransfer, c).
     if hashTransfer = WILDCARD_ADDRESS \<and> Contract_Empty CONDITIONS c then
       Inl (Reject ''cannot transfer to wildcard with no conditions'')
     else rbind (read_prestate E c) (\<lambda>(state, c).
     if hashOwner state = hashTransfer then Inl (Reject ''transfer to self'')
     else rbind (if nType state = REGISTER_OBJECT then
              rbind (or_error ''failed to parse the object register'' (Object_Parse (Object_of state))) (\<lambda>ob.
              rbind (Object_Standard ob) (\<lambda>std.
                if std = OBJECTS_TRUST then Inl (Reject ''cannot transfer a trust account'')
                else Inr ()))
            else Inr ()) (\<lambda>_.
     if hashCaller c \<noteq> hashOwner state then Inl (Reject ''caller not authorized'')
     else rbind (Contract_Rewind 64 OPERATIONS c) (\<lambda>c. Contract_Reset REGISTERS c))))))"

section \<open>Claim\<close>

abbreviation (input) GENESIS_SYSTEM :: u8 where "GENESIS_SYSTEM \<equiv> 0"

definition Claim_Commit :: "env \<Rightarrow> reg_state \<Rightarrow> u256 \<Rightarrow> u512 \<Rightarrow> u32 \<Rightarrow> u8 \<Rightarrow> world \<Rightarrow> world res" where
  "Claim_Commit E state hashAddress h nContract nFlags W =
     (if HasProof hashAddress h nContract nFlags W then
        Inl (Reject ''transfer is already claimed'')
      else let W = WriteProof hashAddress h nContract nFlags W
           in Inr (WriteState E hashAddress state nFlags W))"

definition Claim_Execute :: "env \<Rightarrow> reg_state \<Rightarrow> u256 \<Rightarrow> u64 \<Rightarrow> reg_state res" where
  "Claim_Execute E state hashClaim nTime =
     (if GetType (hashOwner state) \<noteq> GENESIS_SYSTEM then
        Inl (Reject ''can't claim untransferred register'')
      else let state = SetChecksum E (state\<lparr>hashOwner := hashClaim, nModified := nTime\<rparr>) in
      rbind (or_error ''post-state is in invalid state'' (State_IsValid E state)) (\<lambda>_. Inr state))"

text \<open>The claiming contract is consulted for its caller only; what is returned is the
  transfer contract with its positions reset.\<close>

definition Claim_Verify :: "env \<Rightarrow> contract \<Rightarrow> contract \<Rightarrow> contract res" where
  "Claim_Verify E c claim =
     rbind (Contract_Reset REGISTERS claim) (\<lambda>claim.
     rbind (SeekToPrimitive claim) (\<lambda>claim.
     rbind (op_word claim) (\<lambda>(opx :: u8, claim).
     if opx \<noteq> OP_TRANSFER then Inl (Reject ''cannot claim a register with no transfer'')
     else rbind (op_word claim) (\<lambda>(hashAddress, claim).
     if Reserved_address hashAddress then
       Inl (Reject ''cannot claim register with reserved address'')
     else rbind (op_word claim) (\<lambda>(hashTransfer, claim).
     rbind (take_prestate claim) (\<lambda>(state, claim).
     if hashOwner state \<noteq> hashCaller c \<and> hashTransfer \<noteq> hashCaller c \<and>
        hashTransfer \<noteq> WILDCARD_ADDRESS then
       Inl (Reject ''claim public-id mismatch with transfer address'')
     else rbind (or_error ''pre-state is in invalid state'' (State_IsValid E state)) (\<lambda>_.
     Contract_Reset (OPERATIONS OR REGISTERS) claim)))))))"

section \<open>Laws of the executions\<close>

lemma State_IsValid_Inr:
  "State_IsValid E s = Inr u \<longleftrightarrow> \<not> State_IsNull s \<and> GetHash E s = hashChecksum s \<and>
     nCreated s \<le> drift_limit E \<and> nModified s \<le> drift_limit E \<and> nVersion s = 1 \<and>
     (nType s = REGISTER_SYSTEM \<longrightarrow> hashOwner s = 0)"
  by (auto simp: State_IsValid_def not_less)

lemma write_loop_frame:
  assumes "write_loop s vs ob = Inr ob'" and "parsed ob"
  shows "parsed ob' \<and> mapData ob' = mapData ob \<and> length (vchState ob') = length (vchState ob) \<and>
    Object_Standard ob' = Object_Standard ob \<and> Object_Base ob' = Object_Base ob"
  using assms
proof (induction s vs ob rule: write_loop.induct)
  case (1 s vs ob)
  show ?case
  proof (cases "stream_end s")
    case True
    with "1.prems" show ?thesis by (simp add: write_loop.simps [of s])
  next
    case False
    with "1.prems"(1) obtain vs1 ob1 s1 where ws: "write_step s vs ob = Inr (vs1, ob1, s1)"
      and wl: "write_loop s1 vs1 ob1 = Inr ob'" by (auto simp: write_loop.simps [of s])
    from ws obtain n where fu: "field_update n ob ob1" by (rule write_step_spec)
    show ?thesis
      using "1.IH" [OF False ws refl refl wl] field_update_parsed [OF "1.prems"(2) fu]
        field_update_fields(1,2) [OF fu] field_update_Standard [OF "1.prems"(2) fu] by simp
  qed
qed

lemma write_loop_reserved:
  fixes y :: "'b::len word"
  assumes "write_loop s vs ob = Inr ob'" and "parsed ob" and "Reserved_field m"
    and "Object_get m ob = Inr y"
  shows "Object_get m ob' = Inr y"
  using assms
proof (induction s vs ob rule: write_loop.induct)
  case (1 s vs ob)
  show ?case
  proof (cases "stream_end s")
    case True
    with "1.prems" show ?thesis by (simp add: write_loop.simps [of s])
  next
    case False
    with "1.prems"(1) obtain vs1 ob1 s1 where ws: "write_step s vs ob = Inr (vs1, ob1, s1)"
      and wl: "write_loop s1 vs1 ob1 = Inr ob'" by (auto simp: write_loop.simps [of s])
    from ws obtain n where fu: "field_update n ob ob1" and n: "\<not> Reserved_field n"
      by (rule write_step_spec)
    then have "m \<noteq> n" using "1.prems"(3) by auto
    show ?thesis
      using "1.IH" [OF False ws refl refl wl] field_update_parsed [OF "1.prems"(2) fu]
        field_update_frame [OF "1.prems"(2) fu \<open>m \<noteq> n\<close> "1.prems"(4)] "1.prems"(3) by simp
  qed
qed

lemma SetState_fields [simp]:
  "vchState (SetState E v s) = v" "nVersion (SetState E v s) = nVersion s"
  "nType (SetState E v s) = nType s" "hashOwner (SetState E v s) = hashOwner s"
  "nCreated (SetState E v s) = nCreated s" "nModified (SetState E v s) = nModified s"
  by (simp_all add: SetState_def)

text \<open>Writing to an object register.\<close>

lemma Write_Execute_facts:
  assumes w: "Write_Execute E s vchData t = Inr s'" and ty: "nType s = REGISTER_OBJECT"
    and len: "length (vchState s) < 2 ^ 16" and p: "Object_Parse (Object_of s) = Inr ob"
  shows "\<exists>ob'. Object_Parse (Object_of s') = Inr ob' \<and> mapData ob' = mapData ob \<and>
    Object_Standard ob' = Object_Standard ob \<and>
    (\<forall>m (y :: 'a::len word). Reserved_field m \<longrightarrow> Object_get m ob = Inr y \<longrightarrow> Object_get m ob' = Inr y)"
    and "s' = SetChecksum E (s\<lparr>vchState := vchState s', nModified := t\<rparr>)"
    and "length (vchState s') = length (vchState s)" and "State_IsValid E s' = Inr ()"
proof -
  from w ty p obtain ob1 where wl: "write_loop (stream_of vchData) [] ob = Inr ob1"
    and s': "s' = SetChecksum E ((SetState E (vchState ob1) s)\<lparr>nModified := t\<rparr>)"
    and v: "State_IsValid E s' = Inr ()"
    by (auto simp: Write_Execute_def Let_def GetState_def)
  note pp = Object_Parse_parsed [OF p len]
  note fr = write_loop_frame [OF wl pp(1)]
  have ty': "nType s' = REGISTER_OBJECT \<or> nType s' = REGISTER_SYSTEM" "vchState s' = vchState ob1"
    using ty s' by simp_all
  have par: "parsed ob1" using fr by blast
  obtain ob' where o: "Object_Parse (Object_of s') = Inr ob'" "State_of ob' = s'"
    "mapData ob' = mapData ob1" "vchState ob' = vchState ob1" "parsed ob'"
    by (rule Object_Parse_restate [OF par ty'(2,1)])
  note vw = object_view [OF o(4,3)]
  have "\<forall>m (y :: 'a word). Reserved_field m \<longrightarrow> Object_get m ob = Inr y \<longrightarrow> Object_get m ob' = Inr y"
    by (auto simp: vw(2) intro: write_loop_reserved [OF wl pp(1)])
  then show "\<exists>ob'. Object_Parse (Object_of s') = Inr ob' \<and> mapData ob' = mapData ob \<and>
    Object_Standard ob' = Object_Standard ob \<and>
    (\<forall>m (y :: 'a::len word). Reserved_field m \<longrightarrow> Object_get m ob = Inr y \<longrightarrow> Object_get m ob' = Inr y)"
    using fr vw(4) o(1,3) by (intro exI [of _ ob']) simp
  show "s' = SetChecksum E (s\<lparr>vchState := vchState s', nModified := t\<rparr>)"
    using s' by (simp add: SetState_def SetChecksum_def GetHash_def ser_state_hash_def)
  show "length (vchState s') = length (vchState s)"
    using s' fr pp(2) by auto
  show "State_IsValid E s' = Inr ()" by (rule v)
qed

section \<open>What verification guarantees\<close>

lemma Write_Verify_facts:
  assumes "Write_Verify E c = Inr c'" and "sPos (ssOperation c) < 2 ^ 64"
  shows "c' = rpos 0 c \<and> (\<exists>s. authorized E c s \<and> nType s \<noteq> REGISTER_READONLY \<and> nType s \<noteq> REGISTER_APPEND)"
  using assms unfolding Write_Verify_def
  by (elim rbind_pairE rbindE if_InlE)
     (drule (4) verify_prestate, auto simp: authorized_def dest!: op_word_pos)

lemma Append_Verify_facts:
  assumes "Append_Verify E c = Inr c'" and "sPos (ssOperation c) < 2 ^ 64"
  shows "c' = rpos 0 c \<and> (\<exists>s. authorized E c s \<and> (nType s = REGISTER_RAW \<or> nType s = REGISTER_APPEND))"
  using assms unfolding Append_Verify_def
  by (elim rbind_pairE rbindE if_InlE)
     (drule (4) verify_prestate, auto simp: authorized_def dest!: op_word_pos)

lemma Transfer_Verify_facts:
  assumes "Transfer_Verify E c = Inr c'" and "sPos (ssOperation c) < 2 ^ 64"
  shows "c' = rpos 0 c \<and> (\<exists>s. authorized E c s \<and> (nType s = REGISTER_OBJECT \<longrightarrow> standard_of s \<noteq> Inr OBJECTS_TRUST))"
  using assms unfolding Transfer_Verify_def
  by (elim rbind_pairE rbindE if_InlE)
     (drule (4) verify_prestate, auto simp: authorized_def standard_of_def dest!: op_word_pos split: if_splits)

section \<open>What is stored\<close>

lemma Transfer_Commit_reads:
  assumes "Transfer_Commit E s h a b f W = Inr W'" and "wlive f W"
  shows "ReadState x f W' = (if x = a then Some s else ReadState x f W)"
  using assms by (auto simp: Transfer_Commit_def Let_def ReadState_WriteState split: if_splits)

lemma Claim_Commit_reads:
  assumes "Claim_Commit E s a h n f W = Inr W'" and "wlive f W"
  shows "ReadState x f W' = (if x = a then Some s else ReadState x f W)"
    and "\<not> HasProof a h n f W" and "HasProof a h n f W'"
  using assms by (auto simp: Claim_Commit_def Let_def ReadState_WriteState HasProof_WriteProof split: if_splits)

text \<open>The standard type and every reserved field of a register are kept.\<close>

definition kept_fields :: "reg_state \<Rightarrow> reg_state \<Rightarrow> bool" where
  "kept_fields s s' \<longleftrightarrow> standard_of s' = standard_of s \<and>
     (\<forall>m (y :: u64). Reserved_field m \<longrightarrow> field_of m s = Inr y \<longrightarrow> field_of m s' = Inr y) \<and>
     (\<forall>m (y :: u256). Reserved_field m \<longrightarrow> field_of m s = Inr y \<longrightarrow> field_of m s' = Inr y)"

lemma Write_Execute_kept:
  assumes w: "Write_Execute E s d t = Inr s'" and len: "length (vchState s) < 2 ^ 16"
  shows "s' = SetChecksum E (s\<lparr>vchState := vchState s', nModified := t\<rparr>) \<and>
    length (vchState s') = length (vchState s) \<and> State_IsValid E s' = Inr () \<and>
    (nType s = REGISTER_OBJECT \<longrightarrow> kept_fields s s')"
proof (cases "nType s = REGISTER_OBJECT")
  case True
  with w obtain ob where p: "Object_Parse (Object_of s) = Inr ob"
    unfolding Write_Execute_def by auto
  note ft = Write_Execute_facts [OF w True len p]
  have "kept_fields s s'"
    using ft(1) [where ?'a = 64] ft(1) [where ?'a = 256] p
    by (auto simp: kept_fields_def field_of_def standard_of_def)
  then show ?thesis using ft(2-4) by simp
next
  case False
  then show ?thesis using w
    by (auto simp: Write_Execute_def Let_def SetState_def SetChecksum_def GetHash_def ser_state_hash_def GetState_def)
qed

end
