(* ===== verification/Op_Finance.thy ===== *)
theory Op_Finance
  imports Object_Layout Databases
begin

unbundle bit_operations_syntax

text \<open>
  The operations that move value between accounts: \<^verbatim>\<open>TAO/Operation/debit.cpp\<close>,
  \<^verbatim>\<open>credit.cpp\<close>, \<^verbatim>\<open>fee.cpp\<close>, \<^verbatim>\<open>legacy.cpp\<close> and \<^verbatim>\<open>coinbase.cpp\<close>. A debit takes an amount out
  of an account at once; the recipient's credit claims it later, guarded by a proof that can
  be used once.
\<close>

definition name_balance :: "byte list" where "name_balance = str ''balance''"
definition name_token :: "byte list" where "name_token = str ''token''"
definition name_supply :: "byte list" where "name_supply = str ''supply''"

text \<open>How every execution on an account ends: time stamp, checksum, validity.\<close>

definition finish_account :: "env \<Rightarrow> u64 \<Rightarrow> object \<Rightarrow> object res" where
  "finish_account E nTime ob =
     (let ob = SetChecksum E (ob\<lparr>nModified := nTime\<rparr>) in
      rbind (or_error ''memory address is in invalid state'' (State_IsValid E ob)) (\<lambda>_. Inr ob))"

definition parse_account :: "string \<Rightarrow> object \<Rightarrow> object res" where
  "parse_account msg account =
     rbind (or_error ''failed to parse account object register'' (Object_Parse account)) (\<lambda>account.
     rbind (Object_Base account) (\<lambda>base.
       if base \<noteq> OBJECTS_ACCOUNT then Inl (Reject msg) else Inr account))"

section \<open>Debit\<close>

definition Debit_Commit :: "env \<Rightarrow> object \<Rightarrow> u512 \<Rightarrow> u256 \<Rightarrow> u256 \<Rightarrow> u8 \<Rightarrow> world \<Rightarrow> world res" where
  "Debit_Commit E account h hashFrom hashTo nFlags W =
     rbind (if hashTo \<noteq> WILDCARD_ADDRESS then
              (case ReadState hashTo nFlags W of
                 None \<Rightarrow> if fClient E then Inr W else Inl (Reject ''failed to read register to'')
               | Some state \<Rightarrow>
                   Inr (if nFlags = FLAGS_BLOCK \<and> \<not> State_IsNull state
                        then WriteEvent (hashOwner state) h W else W))
            else Inr W) (\<lambda>W.
     Inr (WriteState E hashFrom (State_of account) nFlags W))"

definition Debit_Execute :: "env \<Rightarrow> object \<Rightarrow> u64 \<Rightarrow> u64 \<Rightarrow> object res" where
  "Debit_Execute E account nAmount nTime =
     rbind (parse_account ''cannot debit from non-standard object register'' account) (\<lambda>account.
     rbind (Object_get name_balance account) (\<lambda>balance :: u64.
     if nAmount > balance then Inl (Reject ''account doesn't have sufficient balance'')
     else rbind (or_error ''balance could not be written to object register''
                   (Object_Write name_balance (balance - nAmount) account)) (\<lambda>account.
     finish_account E nTime account)))"

definition Debit_Verify :: "env \<Rightarrow> contract \<Rightarrow> contract res" where
  "Debit_Verify E c =
     rbind (verify_op OP_DEBIT c) (\<lambda>c.
     rbind (op_word c) (\<lambda>(hashFrom :: u256, c).
     if Reserved_address hashFrom then Inl (Reject ''cannot debit with reserved address'')
     else rbind (op_word c) (\<lambda>(hashTo :: u256, c).
     if Reserved_address hashTo then Inl (Reject ''cannot debit to reserved address'')
     else if IsWildcard hashTo \<and> Contract_Empty CONDITIONS c then
       Inl (Reject ''cannot debit to wildcard with no conditions'')
     else if \<not> IsWildcard hashTo \<and> \<not> IsAccount hashTo \<and> \<not> IsToken hashTo \<and> \<not> IsTrust hashTo \<and>
             \<not> IsObject hashTo then
       Inl (Reject ''cannot debit to unsupported object register'')
     else if hashFrom = hashTo then Inl (Reject ''cannot debit to the same address as from'')
     else rbind (read_prestate E c) (\<lambda>(state, c).
     if hashOwner state \<noteq> hashCaller c then Inl (Reject ''caller not authorized'')
     else rbind (Contract_Rewind 64 OPERATIONS c) (\<lambda>c. Contract_Reset REGISTERS c)))))"

section \<open>Fee\<close>

definition Fee_Commit :: "env \<Rightarrow> object \<Rightarrow> u256 \<Rightarrow> u8 \<Rightarrow> world \<Rightarrow> world res" where
  "Fee_Commit E account hashAddress nFlags W = Inr (WriteState E hashAddress (State_of account) nFlags W)"

definition Fee_Execute :: "env \<Rightarrow> object \<Rightarrow> u64 \<Rightarrow> u64 \<Rightarrow> object res" where
  "Fee_Execute E account nFees nTime =
     rbind (parse_account ''cannot debit from non-standard object register'' account) (\<lambda>account.
     rbind (Object_get name_token account) (\<lambda>tok :: u256.
     if tok \<noteq> 0 then Inl (Reject ''cannot pay fees with non-native token'')
     else rbind (Object_get name_balance account) (\<lambda>balance :: u64.
     if nFees > balance then Inl (Reject ''account doesn't have sufficient balance'')
     else rbind (or_error ''balance could not be written to object register''
                   (Object_Write name_balance (balance - nFees) account)) (\<lambda>account.
     finish_account E nTime account))))"

definition Fee_Verify :: "env \<Rightarrow> contract \<Rightarrow> contract res" where
  "Fee_Verify E c =
     rbind (verify_op OP_FEE c) (\<lambda>c.
     rbind (op_word c) (\<lambda>(hashFrom :: u256, c).
     if Reserved_address hashFrom then Inl (Reject ''cannot transfer reserved address'')
     else rbind (op_word c) (\<lambda>(nFees :: u64, c).
     rbind (read_prestate E c) (\<lambda>(state, c).
     if hashOwner state \<noteq> hashCaller c then Inl (Reject ''caller not authorized'')
     else rbind (Contract_Rewind 40 OPERATIONS c) (\<lambda>c. Contract_Reset REGISTERS c)))))"

section \<open>Legacy\<close>

definition Legacy_Commit :: "env \<Rightarrow> reg_state \<Rightarrow> u256 \<Rightarrow> u8 \<Rightarrow> world \<Rightarrow> world res" where
  "Legacy_Commit E state hashAddress nFlags W = Inr (WriteState E hashAddress state nFlags W)"

definition Legacy_Execute :: "env \<Rightarrow> object \<Rightarrow> u64 \<Rightarrow> u64 \<Rightarrow> object res" where
  "Legacy_Execute E account nAmount nTime =
     rbind (parse_account ''cannot debit from non-standard object register'' account) (\<lambda>account.
     rbind (Object_get name_token account) (\<lambda>tok :: u256.
     if tok \<noteq> 0 then Inl (Reject ''cannot transfer to UTXO with non-native token'')
     else rbind (Object_get name_balance account) (\<lambda>balance :: u64.
     if nAmount > balance then Inl (Reject ''account doesn't have sufficient balance'')
     else rbind (or_error ''balance could not be written to object register''
                   (Object_Write name_balance (balance - nAmount) account)) (\<lambda>account.
     finish_account E nTime account))))"

definition Legacy_Verify :: "env \<Rightarrow> contract \<Rightarrow> contract res" where
  "Legacy_Verify E c =
     rbind (verify_op OP_LEGACY c) (\<lambda>c.
     rbind (op_word c) (\<lambda>(hashFrom :: u256, c).
     if Reserved_address hashFrom then Inl (Reject ''cannot transfer reserved address'')
     else rbind (read_prestate E c) (\<lambda>(state, c).
     if hashOwner state \<noteq> hashCaller c then Inl (Reject ''caller not authorized'')
     else rbind (Contract_Rewind 32 OPERATIONS c) (\<lambda>c. Contract_Reset REGISTERS c))))"

section \<open>Coinbase\<close>

definition Coinbase_Commit :: "u256 \<Rightarrow> u512 \<Rightarrow> u8 \<Rightarrow> world \<Rightarrow> world res" where
  "Coinbase_Commit hashAddress h nFlags W =
     Inr (if nFlags = FLAGS_BLOCK then WriteEvent hashAddress h W else W)"

definition Coinbase_Verify :: "env \<Rightarrow> contract \<Rightarrow> contract res" where
  "Coinbase_Verify E c =
     rbind (Contract_Rewind 1 OPERATIONS c) (\<lambda>c.
     rbind (op_word c) (\<lambda>(opx :: u8, c).
     if opx \<noteq> OP_COINBASE then Inl (Reject ''called with incorrect OP'')
     else rbind (op_word c) (\<lambda>(hashGenesis :: u256, c).
     if GetType hashGenesis \<noteq> (if fTestNet E then 0xa2 else 0xa1) then
       Inl (Reject ''invalid genesis for coinbase'')
     else Contract_Rewind 32 OPERATIONS c)))"

section \<open>Credit\<close>

text \<open>The first byte of the debit decides whether a claimed amount is recorded: the source
  resets the stream and does not skip a leading condition.\<close>

definition credit_claimed :: "contract \<Rightarrow> u512 \<Rightarrow> u32 \<Rightarrow> u64 \<Rightarrow> u8 \<Rightarrow> world \<Rightarrow> world res" where
  "credit_claimed debit h nContract nAmount nFlags W =
     rbind (Contract_Reset ALL_STREAMS debit) (\<lambda>debit.
     rbind (op_word debit) (\<lambda>(t :: u8, debit).
     if t = OP_DEBIT then
       rbind (op_word debit) (\<lambda>(hashFrom :: u256, debit).
       rbind (op_word debit) (\<lambda>(hashTo :: u256, debit).
       if IsObject hashTo then
         (let nClaimed = (case ReadClaimed h nContract nFlags W of Some n \<Rightarrow> n | None \<Rightarrow> 0)
          in Inr (WriteClaimed h nContract (nClaimed + nAmount) nFlags W))
       else Inr W))
     else Inr W))"

definition Credit_Commit :: "env \<Rightarrow> object \<Rightarrow> contract \<Rightarrow> u256 \<Rightarrow> u256 \<Rightarrow> u512 \<Rightarrow> u32 \<Rightarrow> u64 \<Rightarrow> u8 \<Rightarrow> world \<Rightarrow> world res" where
  "Credit_Commit E account debit hashAddress hashProof h nContract nAmount nFlags W =
     (if HasProof hashProof h nContract nFlags W then Inl (Reject ''credit is already claimed'')
      else let W = WriteProof hashProof h nContract nFlags W in
      rbind (if \<not> fClient E then credit_claimed debit h nContract nAmount nFlags W else Inr W) (\<lambda>W.
      Inr (WriteState E hashAddress (State_of account) nFlags W)))"

definition Credit_Execute :: "env \<Rightarrow> object \<Rightarrow> u64 \<Rightarrow> u64 \<Rightarrow> object res" where
  "Credit_Execute E account nAmount nTime =
     rbind (parse_account ''cannot credit to a non-account base object'' account) (\<lambda>account.
     rbind (Object_get name_balance account) (\<lambda>balance :: u64.
     rbind (or_error ''balance could not be written to object register''
                   (Object_Write name_balance (balance + nAmount) account)) (\<lambda>account.
     finish_account E nTime account)))"

text \<open>How \<open>Verify\<close> ends on every accepting path.\<close>

definition credit_done :: "contract \<Rightarrow> contract \<Rightarrow> (contract \<times> contract) res" where
  "credit_done c debit =
     rbind (Contract_Reset REGISTERS c) (\<lambda>c.
     rbind (Contract_Reset (OPERATIONS OR REGISTERS) debit) (\<lambda>debit. Inr (c, debit)))"

definition credit_coinbase :: "contract \<Rightarrow> contract \<Rightarrow> object \<Rightarrow> u256 \<Rightarrow> u64 \<Rightarrow> (contract \<times> contract) res" where
  "credit_coinbase c debit account hashProof nCredit =
     (if hashProof \<noteq> hashCaller c then Inl (Reject ''proof for coinbase needs to be genesis'')
      else rbind (op_word debit) (\<lambda>(hashPublic :: u256, debit).
      if hashPublic \<noteq> hashCaller c then Inl (Reject ''cannot claim coinbase from different sigchain'')
      else rbind (op_word debit) (\<lambda>(nCoinbase :: u64, debit).
      if nCredit \<noteq> nCoinbase then Inl (Reject ''credit and coinbase mismatch'')
      else rbind (Object_get name_token account) (\<lambda>tok :: u256.
      if tok \<noteq> 0 then Inl (Reject ''credit disabled for coinbase of non-native token'')
      else credit_done c debit))))"

text \<open>Credit from an unspent output of the legacy chain.\<close>

definition credit_utxo :: "contract \<Rightarrow> contract \<Rightarrow> u256 \<Rightarrow> u256 \<Rightarrow> u256 \<Rightarrow> u256 \<Rightarrow> u64 \<Rightarrow> (contract \<times> contract) res" where
  "credit_utxo c debit hashFrom hashTo hashAccount hashProof nCredit =
     (if hashProof \<noteq> hashFrom then Inl (Reject ''proof must equal from for credit'')
      else if hashTo \<noteq> hashAccount then Inl (Reject ''must have same address as UTXO to'')
      else rbind (op_word debit) (\<lambda>(nDebit :: u64, debit).
      if nDebit \<noteq> nCredit then Inl (Reject ''debit and credit value mismatch'')
      else credit_done c debit))"

text \<open>One debit to one credit, a credit to anyone, or the return of an unclaimed debit. When
  the debit was to an object register and nothing of it has been claimed yet, the amount is
  not compared with anything.\<close>

definition credit_direct :: "contract \<Rightarrow> contract \<Rightarrow> u512 \<Rightarrow> u32 \<Rightarrow> u256 \<Rightarrow> u256 \<Rightarrow> u256 \<Rightarrow> u64 \<Rightarrow> u8 \<Rightarrow> world \<Rightarrow> (contract \<times> contract) res" where
  "credit_direct c debit h nContract hashFrom hashTo hashProof nCredit nFlags W =
     (if hashProof \<noteq> hashFrom then Inl (Reject ''proof must equal from for credit'')
      else rbind (op_word debit) (\<lambda>(nDebit :: u64, debit).
      if IsObject hashTo then
        (case ReadClaimed h nContract nFlags W of
           None \<Rightarrow> credit_done c debit
         | Some nClaimed \<Rightarrow>
             if nClaimed = nDebit then Inl (Reject ''credit is already claimed'')
             else if nClaimed + nCredit > nDebit then
               Inl (Reject ''credit is beyond claimable debit amount'')
             else credit_done c debit)
      else if nDebit \<noteq> nCredit then Inl (Reject ''debit and credit value mismatch'')
      else credit_done c debit))"

text \<open>A partial claim of a debit to an object register that is owned by a token: each holder
  of the token may claim his share, proved by the balance of one of his token accounts. Both
  the product and the sum wrap around; a supply of 0 divides by zero.\<close>

definition credit_partial :: "contract \<Rightarrow> contract \<Rightarrow> u512 \<Rightarrow> u32 \<Rightarrow> u256 \<Rightarrow> u256 \<Rightarrow> u64 \<Rightarrow> u8 \<Rightarrow> world \<Rightarrow> (contract \<times> contract) res" where
  "credit_partial c debit h nContract hashTo hashProof nCredit nFlags W =
     (if \<not> IsObject hashTo then Inl (Reject ''partial payment is not to object'')
      else rbind (found ''failed to read hash to'' (ReadState hashTo nFlags W)) (\<lambda>stateTo.
      if \<not> Range_type (nType stateTo) then Inl (Reject ''debit to is out of range'')
      else rbind (found ''failed to read credit proof'' (ReadState hashProof nFlags W)) (\<lambda>proof.
      rbind (or_error ''failed to parse owner object register'' (Object_Parse (Object_of proof))) (\<lambda>proof.
      if nModified proof > nTimestamp debit then Inl (Reject ''temporal proof is stale'')
      else rbind (Object_Standard proof) (\<lambda>std.
      if std \<noteq> OBJECTS_ACCOUNT then Inl (Reject ''owner object is not a token'')
      else if hashOwner proof \<noteq> hashCaller c then
        Inl (Reject ''not authorized to use this temporal proof'')
      else rbind (found ''credit from raw object can't be without owner''
                    (ReadState (hashOwner stateTo) nFlags W)) (\<lambda>token.
      rbind (or_error ''failed to parse owner object register'' (Object_Parse (Object_of token))) (\<lambda>token.
      rbind (Object_Standard token) (\<lambda>std.
      if std \<noteq> OBJECTS_TOKEN then Inl (Reject ''owner object is not a token'')
      else rbind (Object_get name_token proof) (\<lambda>tp :: u256.
      rbind (Object_get name_token token) (\<lambda>tt :: u256.
      if tp \<noteq> tt then Inl (Reject ''account proof identifier not token identifier'')
      else rbind (op_word debit) (\<lambda>(nDebit :: u64, debit).
      rbind (Object_get name_balance proof) (\<lambda>balance :: u64.
      rbind (Object_get name_supply token) (\<lambda>supply :: u64.
      if supply = 0 then Inl (Undefined ''division by zero'')
      else let nPartial = (balance * nDebit) div supply in
      if nCredit \<noteq> nPartial then Inl (Reject ''partial credit mismatch with claimed proof'')
      else let nClaimed = (case ReadClaimed h nContract nFlags W of Some n \<Rightarrow> n | None \<Rightarrow> 0) in
      if nClaimed + nCredit > nDebit then Inl (Reject ''credit is beyond claimable debit amount'')
      else credit_done c debit)))))))))))))"

definition credit_debit :: "contract \<Rightarrow> contract \<Rightarrow> object \<Rightarrow> u512 \<Rightarrow> u32 \<Rightarrow> u256 \<Rightarrow> u256 \<Rightarrow> u64 \<Rightarrow> u8 \<Rightarrow> world \<Rightarrow> (contract \<times> contract) res" where
  "credit_debit c debit account h nContract hashAccount hashProof nCredit nFlags W =
     rbind (op_word debit) (\<lambda>(hashFrom :: u256, debit).
     if Reserved_address hashFrom then Inl (Reject ''cannot credit register with reserved address'')
     else rbind (op_word debit) (\<lambda>(hashTo :: u256, debit).
     if Reserved_address hashTo then Inl (Reject ''cannot credit register with reserved address'')
     else if hashFrom = WILDCARD_ADDRESS then
       credit_utxo c debit hashFrom hashTo hashAccount hashProof nCredit
     else rbind (take_prestate debit) (\<lambda>(stateFrom, debit).
     rbind (or_error ''failed to parse account from'' (Object_Parse (Object_of stateFrom))) (\<lambda>accountFrom.
     rbind (Object_Base accountFrom) (\<lambda>base.
     if base \<noteq> OBJECTS_ACCOUNT then Inl (Reject ''debit from must have a base account object'')
     else rbind (Object_get name_token accountFrom) (\<lambda>tf :: u256.
     rbind (Object_get name_token account) (\<lambda>ta :: u256.
     if tf \<noteq> ta then Inl (Reject ''credit can't be of different identifier'')
     else if hashTo = hashAccount \<or> hashTo = WILDCARD_ADDRESS \<or>
             (hashFrom = hashAccount \<and> hashProof = hashAccount) then
       credit_direct c debit h nContract hashFrom hashTo hashProof nCredit nFlags W
     else credit_partial c debit h nContract hashTo hashProof nCredit nFlags W)))))))"

definition Credit_Verify :: "contract \<Rightarrow> contract \<Rightarrow> u8 \<Rightarrow> world \<Rightarrow> (contract \<times> contract) res" where
  "Credit_Verify c debit nFlags W =
     rbind (Contract_Reset OPERATIONS c) (\<lambda>c.
     rbind (Contract_Reset REGISTERS c) (\<lambda>c.
     rbind (op_word c) (\<lambda>(opx :: u8, c).
     if opx \<noteq> OP_CREDIT then Inl (Reject ''called with incorrect OP'')
     else rbind (op_word c) (\<lambda>(h :: u512, c).
     rbind (op_word c) (\<lambda>(nContract :: u32, c).
     rbind (op_word c) (\<lambda>(hashAccount :: u256, c).
     rbind (op_word c) (\<lambda>(hashProof :: u256, c).
     rbind (op_word c) (\<lambda>(nCredit :: u64, c).
     rbind (take_prestate c) (\<lambda>(state, c).
     if hashCaller c \<noteq> hashOwner state then Inl (Reject ''no write permissions for caller'')
     else rbind (or_error ''failed to parse account'' (Object_Parse (Object_of state))) (\<lambda>account.
     rbind (SeekToPrimitive debit) (\<lambda>debit.
     rbind (op_word debit) (\<lambda>(opd :: u8, debit).
     if opd = OP_COINBASE then credit_coinbase c debit account hashProof nCredit
     else if opd \<noteq> OP_DEBIT then Inl (Reject ''tx claim is not a debit'')
     else credit_debit c debit account h nContract hashAccount hashProof nCredit nFlags W))))))))))))"

section \<open>Laws of the executions\<close>

lemma State_IsValid_State_of: "State_IsValid E (State_of ob) = State_IsValid E ob"
  by (simp add: State_IsValid_def State_IsNull_def)

text \<open>\<open>moved E s s' b b' t\<close>: the register \<open>s'\<close> is \<open>s\<close> with its balance set from \<open>b\<close> to \<open>b'\<close> at time
  \<open>t\<close>, and nothing else: the fields lie where they lay, and of the data only the eight bytes of the balance, behind its
  type, are written, so every other field of any type and width keeps its value.\<close>

definition moved :: "env \<Rightarrow> reg_state \<Rightarrow> reg_state \<Rightarrow> u64 \<Rightarrow> u64 \<Rightarrow> u64 \<Rightarrow> bool" where
  "moved E s s' b b' t \<longleftrightarrow>
     field_of name_balance s = Inr b \<and> field_of name_balance s' = Inr b' \<and>
     (\<forall>m (y :: u256). m \<noteq> name_balance \<longrightarrow> field_of m s = Inr y \<longrightarrow> field_of m s' = Inr y) \<and>
     (\<forall>m (y :: u64). m \<noteq> name_balance \<longrightarrow> field_of m s = Inr y \<longrightarrow> field_of m s' = Inr y) \<and>
     standard_of s' = standard_of s \<and> length (vchState s') = length (vchState s) \<and>
     (\<exists>ob ob' q. Object_Parse (Object_of s) = Inr ob \<and> Object_Parse (Object_of s') = Inr ob' \<and> mapData ob' = mapData ob \<and>
        map_of (mapData ob) name_balance = Some (q, True) \<and> unat q + 9 \<le> length (vchState s) \<and>
        vchState s' = overwrite (unat q + 1) (ser_word b') (vchState s)) \<and>
     s' = SetChecksum E (s\<lparr>vchState := vchState s', nModified := t\<rparr>) \<and> State_IsValid E s' = Inr ()"

lemma parse_account_Inr:
  "parse_account msg ob0 = Inr ob \<longleftrightarrow> Object_Parse ob0 = Inr ob \<and> Object_Base ob = Inr OBJECTS_ACCOUNT"
  by (auto simp: parse_account_def)

lemma finish_account_Inr:
  "finish_account E t ob = Inr ob' \<longleftrightarrow> ob' = SetChecksum E (ob\<lparr>nModified := t\<rparr>) \<and> State_IsValid E ob' = Inr ()"
  by (auto simp: finish_account_def Let_def)

lemma account_moved:
  assumes len: "length (vchState s) < 2 ^ 16"
    and p: "Object_Parse (Object_of s) = Inr ob" and g: "Object_get name_balance ob = Inr b"
    and w: "Object_Write name_balance b' ob = Inr ob1" and f: "finish_account E t ob1 = Inr ob'"
  shows "moved E s (State_of ob') b b' t"
proof -
  note fu = field_updateI_word [OF w]
  note fo = field_update_fields [OF fu]
  have o: "ob' = SetChecksum E (ob1\<lparr>nModified := t\<rparr>)" and v: "State_IsValid E ob' = Inr ()"
    using f unfolding finish_account_Inr by blast+
  have st: "State_of ob = s" using p by (simp add: Object_Parse_iff)
  have vs: "vchState (State_of ob') = vchState ob1" "nType (State_of ob') = nType s"
    using o fo(4) st by auto
  have get1: "Object_get name_balance ob1 = Inr b'" by (rule Object_Write_get [OF w])
  note stored = field_update_stored_get [OF p len fu vs] field_update_stored_frame [OF p len fu vs]
  obtain o1 where o1: "standard_of (State_of ob') = standard_of s" "Object_Parse (Object_of (State_of ob')) = Inr o1"
      "mapData o1 = mapData ob1"
    by (rule field_update_stored [OF p len fu vs])
  obtain q where q: "map_of (mapData ob) name_balance = Some (q, True)" "unat q + 9 \<le> length (vchState ob)"
      "ob1 = ob\<lparr>vchState := overwrite (unat q + 1) (ser_word b') (vchState ob)\<rparr>"
    by (rule Object_WriteE [OF w]) simp
  show ?thesis unfolding moved_def
  proof (intro conjI allI impI)
    show "field_of name_balance s = Inr b" using p g by (simp add: field_of_def)
    show "field_of name_balance (State_of ob') = Inr b'" by (simp add: stored(1) get1)
    show "standard_of (State_of ob') = standard_of s" by (rule o1(1))
    show "\<exists>ob oc q. Object_Parse (Object_of s) = Inr ob \<and> Object_Parse (Object_of (State_of ob')) = Inr oc \<and> mapData oc = mapData ob \<and>
        map_of (mapData ob) name_balance = Some (q, True) \<and> unat q + 9 \<le> length (vchState s) \<and>
        vchState (State_of ob') = overwrite (unat q + 1) (ser_word b') (vchState s)"
      using p o1(2,3) q vs(1) st by (intro exI [of _ ob] exI [of _ o1] exI [of _ q]) auto
    show "length (vchState (State_of ob')) = length (vchState s)"
      using vs(1) fo(2) st by auto
    show "State_of ob' = SetChecksum E (s\<lparr>vchState := vchState (State_of ob'), nModified := t\<rparr>)"
      using o st fo by (cases ob1; cases ob) (auto simp: State_of_def reg_state.defs SetChecksum_def
          GetHash_def ser_state_hash_def)
    show "State_IsValid E (State_of ob') = Inr ()" using v by (simp add: State_IsValid_State_of)
  qed (erule (1) stored(2))+
qed

lemma Debit_Execute_facts:
  assumes "Debit_Execute E (Object_of s) n t = Inr ob'" and "length (vchState s) < 2 ^ 16"
  obtains b where "n \<le> b" and "moved E s (State_of ob') b (b - n) t"
proof -
  from assms(1) obtain ob b ob1 where "Object_Parse (Object_of s) = Inr ob"
    "Object_get name_balance ob = Inr b" "\<not> n > b" "Object_Write name_balance (b - n) ob = Inr ob1"
    "finish_account E t ob1 = Inr ob'"
    unfolding Debit_Execute_def by (elim rbindE if_InlE) (simp add: parse_account_Inr)
  then show ?thesis using account_moved [OF assms(2)] that [of b] by simp
qed

lemma Fee_Execute_facts:
  assumes "Fee_Execute E (Object_of s) n t = Inr ob'" and "length (vchState s) < 2 ^ 16"
  obtains b where "n \<le> b" and "moved E s (State_of ob') b (b - n) t"
    and "field_of name_token s = Inr (0 :: u256)"
proof -
  from assms(1) obtain ob b ob1 tok where *: "Object_Parse (Object_of s) = Inr ob"
    "Object_get name_token ob = Inr tok" "\<not> tok \<noteq> (0 :: u256)"
    "Object_get name_balance ob = Inr b" "\<not> n > b" "Object_Write name_balance (b - n) ob = Inr ob1"
    "finish_account E t ob1 = Inr ob'"
    unfolding Fee_Execute_def by (elim rbindE if_InlE) (simp add: parse_account_Inr)
  then show ?thesis using account_moved [OF assms(2) *(1,4,6,7)] that [of b]
    by (simp add: field_of_def)
qed

lemma Legacy_Execute_eq: "Legacy_Execute E ob n t = Inr ob' \<longleftrightarrow> Fee_Execute E ob n t = Inr ob'"
  by (auto simp: Legacy_Execute_def Fee_Execute_def)

lemma Credit_Execute_facts:
  assumes "Credit_Execute E (Object_of s) n t = Inr ob'" and "length (vchState s) < 2 ^ 16"
  obtains b where "moved E s (State_of ob') b (b + n) t"
proof -
  from assms(1) obtain ob b ob1 where "Object_Parse (Object_of s) = Inr ob"
    "Object_get name_balance ob = Inr b" "Object_Write name_balance (b + n) ob = Inr ob1"
    "finish_account E t ob1 = Inr ob'"
    unfolding Credit_Execute_def by (elim rbindE if_InlE) (simp add: parse_account_Inr)
  then show ?thesis using account_moved [OF assms(2)] that [of b] by simp
qed

section \<open>What verification guarantees\<close>

lemma Debit_Verify_facts:
  assumes "Debit_Verify E c = Inr c'" and "sPos (ssOperation c) < 2 ^ 64"
  shows "c' = rpos 0 c \<and> (\<exists>s. authorized E c s)"
  using assms unfolding Debit_Verify_def
  by (elim rbind_pairE rbindE if_InlE)
     (drule (4) verify_prestate, auto simp: authorized_def dest!: op_word_pos)

lemma Fee_Verify_facts:
  assumes "Fee_Verify E c = Inr c'" and "sPos (ssOperation c) < 2 ^ 64"
  shows "c' = rpos 0 c \<and> (\<exists>s. authorized E c s)"
  using assms unfolding Fee_Verify_def
  by (elim rbind_pairE rbindE if_InlE)
     (drule (4) verify_prestate, auto simp: authorized_def dest!: op_word_pos)

lemma Legacy_Verify_facts:
  assumes "Legacy_Verify E c = Inr c'" and "sPos (ssOperation c) < 2 ^ 64"
  shows "c' = rpos 0 c \<and> (\<exists>s. authorized E c s)"
  using assms unfolding Legacy_Verify_def
  by (elim rbind_pairE rbindE if_InlE)
     (drule (4) verify_prestate, auto simp: authorized_def dest!: op_word_pos)

lemma credit_done_pos: "credit_done c d = Inr (c', d') \<Longrightarrow> c' = rpos 0 c"
  by (auto simp: credit_done_def)

lemma credit_coinbase_pos: "credit_coinbase c d ac p n = Inr (c', d') \<Longrightarrow> c' = rpos 0 c"
  unfolding credit_coinbase_def by (elim rbind_pairE rbindE if_InlE) (rule credit_done_pos)

lemma credit_utxo_pos: "credit_utxo c d x y a p n = Inr (c', d') \<Longrightarrow> c' = rpos 0 c"
  unfolding credit_utxo_def by (elim rbind_pairE rbindE if_InlE) (rule credit_done_pos)

lemma credit_direct_pos: "credit_direct c d h k x y p n f W = Inr (c', d') \<Longrightarrow> c' = rpos 0 c"
  unfolding credit_direct_def
  by (elim rbind_pairE rbindE if_InlE) (auto split: if_splits option.splits dest: credit_done_pos)

lemma credit_partial_pos: "credit_partial c d h k y p n f W = Inr (c', d') \<Longrightarrow> c' = rpos 0 c"
  unfolding credit_partial_def Let_def
  by (elim rbind_pairE rbindE if_InlE) (rule credit_done_pos)

lemma credit_debit_pos: "credit_debit c d ac h k a p n f W = Inr (c', d') \<Longrightarrow> c' = rpos 0 c"
  unfolding credit_debit_def
  by (auto elim!: rbind_pairE rbindE if_InlE simp del: rbind_eq_Inr split: if_splits
      dest!: credit_utxo_pos credit_direct_pos credit_partial_pos)

lemma Credit_Verify_facts:
  assumes "Credit_Verify c d f W = Inr (c', d')"
  shows "\<exists>ss s. c' = rpos 0 (c\<lparr>ssOperation := ss\<rparr>) \<and> prestate_of c = Inr s \<and> hashOwner s = hashCaller c"
proof -
  from assms obtain opx c1 h c2 n c3 a c4 p c5 m c6 s c7 ob d1 opd d2 where
    r: "op_word (rpos 0 (c\<lparr>ssOperation := (ssOperation c)\<lparr>sPos := 0\<rparr>\<rparr>)) = Inr (opx :: u8, c1)"
      "op_word c1 = Inr (h :: u512, c2)" "op_word c2 = Inr (n :: u32, c3)" "op_word c3 = Inr (a :: u256, c4)"
      "op_word c4 = Inr (p :: u256, c5)" "op_word c5 = Inr (m :: u64, c6)" and
    t: "take_prestate c6 = Inr (s, c7)" and o: "\<not> hashCaller c7 \<noteq> hashOwner s" and
    e: "(if opd = OP_COINBASE then credit_coinbase c7 d2 ob p m
     else if opd \<noteq> OP_DEBIT then Inl (Reject ''tx claim is not a debit'')
     else credit_debit c7 d2 ob h n a p m f W) = Inr (c', d')"
    unfolding Credit_Verify_def by (simp only: Reset_OPERATIONS Reset_REGISTERS rbind_Inr) (elim rbind_pairE rbindE if_InlE, simp)
  have c': "c' = rpos 0 c7"
    using e by (auto split: if_splits dest: credit_coinbase_pos credit_debit_pos)
  define c0 where "c0 = rpos 0 (c\<lparr>ssOperation := (ssOperation c)\<lparr>sPos := 0\<rparr>\<rparr>)"
  have c6: "c6 = opos 141 c0"
    using r [THEN op_word_pos] r(2-) [THEN op_word_pos] r(3-) [THEN op_word_pos] r(4-) [THEN op_word_pos]
    by (simp add: c0_def)
  then have "sPos (ssRegister c6) = 0" by (simp add: c0_def)
  from take_prestate_of [OF t this] obtain q where q: "prestate_of c6 = Inr s" "c7 = rpos q c6" by auto
  have "prestate_of c = prestate_of c6" by (simp add: c6 c0_def prestate_of_def)
  moreover have "\<exists>ss. c' = rpos 0 (c\<lparr>ssOperation := ss\<rparr>)"
    by (rule exI [of _ "ssOperation c6"]) (simp add: c' q(2) c6 c0_def rpos_def opos_def)
  moreover have "hashCaller c7 = hashCaller c" by (simp add: q(2) c6 c0_def)
  ultimately show ?thesis using q(1) o by auto
qed

lemma Debit_Commit_reads:
  assumes "Debit_Commit E ob h a b f W = Inr W'" and "wlive f W"
  shows "ReadState x f W' = (if x = a then Some (State_of ob) else ReadState x f W)"
  using assms by (auto simp: Debit_Commit_def ReadState_WriteState split: option.splits if_splits)

end
