(* ===== verification/Op_Create.thy ===== *)
theory Op_Create
  imports Object_Layout Databases
begin

text \<open>
  Creating registers (\<^verbatim>\<open>TAO/Operation/create.cpp\<close>), the price of an object register
  (\<open>Object::Cost\<close>) and the lookup of name and namespace registers (\<^verbatim>\<open>TAO/Register/names.cpp\<close>).
\<close>

section \<open>Prices\<close>

definition NXS_COIN :: u64 where "NXS_COIN = 1000000"
definition NAME_FEE :: u64 where "NAME_FEE = 1 * NXS_COIN"
definition GLOBAL_NAME_FEE :: u64 where "GLOBAL_NAME_FEE = 2000 * NXS_COIN"
definition NAMESPACE_FEE :: u64 where "NAMESPACE_FEE = 1000 * NXS_COIN"
definition TOKEN_FEE :: u64 where "TOKEN_FEE = 100 * NXS_COIN"
definition MIN_TOKEN_FEE :: u64 where "MIN_TOKEN_FEE = 1 * NXS_COIN"
definition ACCOUNT_FEE :: u64 where "ACCOUNT_FEE = 0 * NXS_COIN"
definition CRYPTO_FEE :: u64 where "CRYPTO_FEE = 1 * NXS_COIN"
definition MIN_DATA_FEE :: u64 where "MIN_DATA_FEE = 1 * NXS_COIN"
definition DATA_FEE_V1 :: u64 where "DATA_FEE_V1 = 10000"
definition DATA_FEE :: u64 where "DATA_FEE = 1000"
definition ONE_YEAR :: u64 where "ONE_YEAR = 60 * 60 * 24 * 28 * 13"

text \<open>A token costs 100 NXS per decimal digit of its supply beyond the second. The base is
  unsigned and the comparison signed, so that a base below 2 gives a negative number.\<close>

definition token_cost :: "env \<Rightarrow> u64 \<Rightarrow> u64" where
  "token_cost E nSupply =
     (let nBase = fLog10 E nSupply;
          digits = max 0 (sint (nBase - 2));
          cost = sint (of_int digits * TOKEN_FEE)
      in of_int (max (sint MIN_TOKEN_FEE) cost))"

definition data_cost :: "env \<Rightarrow> 'a reg_state_scheme \<Rightarrow> u64" where
  "data_cost E ob =
     (let nCurrent = CurrentTransactionVersion E in
      if nCurrent < 2 \<or> (nCurrent = 2 \<and> \<not> TransactionVersionActive E (nCreated ob) 2)
      then max MIN_DATA_FEE (of_nat (length (vchState ob)) * DATA_FEE_V1)
      else max MIN_DATA_FEE (of_nat (length (vchState ob)) * DATA_FEE))"

definition Object_Cost :: "env \<Rightarrow> object \<Rightarrow> u64 res" where
  "Object_Cost E ob =
     (if mapData ob = [] then Inl (Throw ''cannot get cost when object isn't parsed'')
      else rbind (Object_Standard ob) (\<lambda>nStandard.
      if nStandard = OBJECTS_TOKEN then
        rbind (Object_get (str ''supply'') ob) (\<lambda>nSupply. Inr (token_cost E nSupply))
      else if nStandard = OBJECTS_NAME then
        rbind (Object_getString (str ''namespace'') ob) (\<lambda>ns.
          Inr (if ns = NAMESPACE_GLOBAL then GLOBAL_NAME_FEE else NAME_FEE))
      else if nStandard = OBJECTS_NAMESPACE then Inr NAMESPACE_FEE
      else if nStandard = OBJECTS_ACCOUNT \<or> nStandard = OBJECTS_TRUST then Inr ACCOUNT_FEE
      else if nStandard = OBJECTS_CRYPTO then Inr CRYPTO_FEE
      else if nStandard = OBJECTS_NONSTANDARD then Inr (data_cost E ob)
      else Inr MIN_DATA_FEE))"

section \<open>Names\<close>

definition GetNameRegister :: "env \<Rightarrow> u256 \<Rightarrow> byte list \<Rightarrow> world \<Rightarrow> object res" where
  "GetNameRegister E hashNamespace strName W =
     rbind (Address_key E strName hashNamespace ADDR_NAME) (\<lambda>hashAddress.
     rbind (found ''no such name'' (ReadState hashAddress FLAGS_LOOKUP W)) (\<lambda>state.
     if nType state \<noteq> REGISTER_OBJECT then Inl (Reject ''Name register not an object'')
     else rbind (or_error ''Unable to parse name register'' (Object_Parse (Object_of state))) (\<lambda>ob.
     rbind (Object_Standard ob) (\<lambda>std.
     if std \<noteq> OBJECTS_NAME then Inl (Reject ''Register is not a name register'') else Inr ob))))"

definition GetNamespaceRegister :: "env \<Rightarrow> byte list \<Rightarrow> world \<Rightarrow> object res" where
  "GetNamespaceRegister E strNamespace W =
     rbind (Address_namespace E strNamespace ADDR_NAMESPACE) (\<lambda>hashAddress.
     rbind (found ''Namespace register not found'' (ReadState hashAddress FLAGS_LOOKUP W)) (\<lambda>state.
     if nType state \<noteq> REGISTER_OBJECT then Inl (Reject ''Namespace register not an object'')
     else rbind (or_error ''Unable to parse namespace register'' (Object_Parse (Object_of state))) (\<lambda>ob.
     rbind (Object_Standard ob) (\<lambda>std.
     if std \<noteq> OBJECTS_NAMESPACE then Inl (Reject ''Register is not a namespace register'') else Inr ob))))"

section \<open>Commit\<close>

text \<open>The checks on the address, one definition for every kind of object.\<close>

definition create_account :: "env \<Rightarrow> object \<Rightarrow> u256 \<Rightarrow> u8 \<Rightarrow> world \<Rightarrow> unit res" where
  "create_account E ob address nFlags W =
     (if \<not> IsAccount address then Inl (Reject ''address type mismatch with object type'')
      else rbind (Object_get (str ''token'') ob) (\<lambda>hashToken :: u256.
      if hashToken \<noteq> 0 then
        if \<not> fClient E \<and> \<not> HasState hashToken nFlags W then
          Inl (Reject ''cannot create account without token identifier'')
        else if \<not> IsToken hashToken then
          Inl (Reject ''token identifier is not for a token register'')
        else Inr ()
      else Inr ()))"

definition create_token :: "env \<Rightarrow> object \<Rightarrow> u256 \<Rightarrow> u8 \<Rightarrow> world \<Rightarrow> unit res" where
  "create_token E ob address nFlags W =
     (if \<not> IsToken address then Inl (Reject ''address type mismatch with object type'')
      else rbind (Object_get (str ''token'') ob) (\<lambda>hashIdentifier :: u256.
      if hashIdentifier \<noteq> address then Inl (Reject ''token identifier must be token address'')
      else if hashIdentifier = 0 then Inl (Reject ''token can't use reserved identifier'')
      else if \<not> fClient E \<and> HasState hashIdentifier nFlags W then
        Inl (Reject ''token can't use reserved identifier'')
      else rbind (Object_get (str ''supply'') ob) (\<lambda>supply :: u64.
      rbind (Object_get (str ''balance'') ob) (\<lambda>balance :: u64.
      if supply \<noteq> balance then Inl (Reject ''token current supply and balance can't mismatch'')
      else Inr ()))))"

definition create_trust :: "env \<Rightarrow> reg_state \<Rightarrow> u256 \<Rightarrow> unit res" where
  "create_trust E state address =
     (if \<not> IsTrust address then Inl (Reject ''address type mismatch with object type'')
      else rbind (Address_key E (str ''trust'') (hashOwner state) ADDR_TRUST) (\<lambda>trust.
      if trust \<noteq> address then Inl (Reject ''trust address mismatch'') else Inr ()))"

definition create_name :: "env \<Rightarrow> object \<Rightarrow> reg_state \<Rightarrow> u256 \<Rightarrow> world \<Rightarrow> unit res" where
  "create_name E ob state address W =
     (if \<not> IsName address then Inl (Reject ''address type mismatch with object type'')
      else rbind (Object_getString (str ''name'') ob) (\<lambda>strName.
      rbind (Object_getString (str ''namespace'') ob) (\<lambda>strNamespace.
      rbind (if strNamespace \<noteq> [] then
               rbind (Address_namespace E strNamespace ADDR_NAMESPACE) (\<lambda>hashNamespace.
               if strNamespace \<noteq> NAMESPACE_GLOBAL then
                 rbind (or_error ''Namespace does not exist'' (GetNamespaceRegister E strNamespace W)) (\<lambda>objectNamespace.
                 if hashOwner objectNamespace \<noteq> hashOwner state then
                   Inl (Reject ''Namespace not owned by caller'')
                 else Inr hashNamespace)
               else Inr hashNamespace)
             else Inr (hashOwner state)) (\<lambda>hashNamespace.
      rbind (Address_key E strName hashNamespace ADDR_NAME) (\<lambda>name.
      if name \<noteq> address then Inl (Reject ''incorrect name or genesis'') else Inr ())))))"

definition create_namespace :: "env \<Rightarrow> object \<Rightarrow> u256 \<Rightarrow> unit res" where
  "create_namespace E ob address =
     (if \<not> IsNamespace address then Inl (Reject ''address type mismatch with object type'')
      else rbind (Object_getString (str ''namespace'') ob) (\<lambda>strNamespace.
      rbind (Address_namespace E strNamespace ADDR_NAMESPACE) (\<lambda>name.
      if name \<noteq> address then Inl (Reject ''namespace address mismatch'') else Inr ())))"

definition create_object :: "env \<Rightarrow> reg_state \<Rightarrow> u256 \<Rightarrow> u64 \<Rightarrow> u8 \<Rightarrow> world \<Rightarrow> u64 res" where
  "create_object E state address nCost nFlags W =
     rbind (or_error ''object register failed to parse'' (Object_Parse (Object_of state))) (\<lambda>ob.
     rbind (Object_Cost E ob) (\<lambda>cost.
     rbind (Object_Standard ob) (\<lambda>nStandard.
     rbind (if nStandard = OBJECTS_ACCOUNT then create_account E ob address nFlags W
            else if nStandard = OBJECTS_TOKEN then create_token E ob address nFlags W
            else if nStandard = OBJECTS_TRUST then create_trust E state address
            else if nStandard = OBJECTS_NAME then create_name E ob state address W
            else if nStandard = OBJECTS_NAMESPACE then create_namespace E ob address
            else if nStandard = OBJECTS_CRYPTO then
              (if \<not> IsCrypto address then Inl (Reject ''address type mismatch with object type'') else Inr ())
            else (if \<not> IsObject address then Inl (Reject ''address type mismatch with object type'') else Inr ()))
       (\<lambda>_. Inr (nCost + cost)))))"

definition Create_Commit :: "env \<Rightarrow> reg_state \<Rightarrow> u256 \<Rightarrow> u64 \<Rightarrow> u8 \<Rightarrow> world \<Rightarrow> (world \<times> u64) res" where
  "Create_Commit E state address nCost nFlags W =
     rbind (if nType state = REGISTER_OBJECT then create_object E state address nCost nFlags W
            else if nType state = REGISTER_READONLY then
              (if \<not> IsReadonly address then Inl (Reject ''address type mismatch with object type'') else Inr nCost)
            else if nType state = REGISTER_APPEND then
              (if \<not> IsAppend address then Inl (Reject ''address type mismatch with object type'') else Inr nCost)
            else if nType state = REGISTER_RAW then
              (if \<not> IsRaw address then Inl (Reject ''address type mismatch with object type'') else Inr nCost)
            else Inr nCost) (\<lambda>nCost.
     if \<not> fClient E \<and> HasState address nFlags W then
       Inl (Reject ''cannot allocate register of same memory address'')
     else Inr (WriteState E address state nFlags W, nCost))"

section \<open>Execute\<close>

text \<open>The initial values of the standard objects.\<close>

definition trust_boost :: "env \<Rightarrow> u64" where
  "trust_boost E = (if fTestNet E \<and> fTrustBoost E then ONE_YEAR else 0)"

definition initial_account :: "object \<Rightarrow> unit res" where
  "initial_account ob =
     rbind (Object_get (str ''balance'') ob) (\<lambda>nBalance :: u64.
     if nBalance \<noteq> 0 then Inl (Reject ''account balance must be zero'') else Inr ())"

definition initial_trust :: "env \<Rightarrow> object \<Rightarrow> unit res" where
  "initial_trust E ob =
     rbind (Object_get (str ''balance'') ob) (\<lambda>balance :: u64.
     if balance \<noteq> 0 then Inl (Reject ''trust account can't be created with non-zero balance'')
     else rbind (Object_get (str ''stake'') ob) (\<lambda>stake :: u64.
     if stake \<noteq> 0 then Inl (Reject ''trust account can't be created with non-zero stake'')
     else rbind (Object_get (str ''trust'') ob) (\<lambda>trust :: u64.
     if trust \<noteq> trust_boost E then Inl (Reject ''trust account can't be created with non-zero trust'')
     else rbind (Object_get (str ''token'') ob) (\<lambda>token :: u256.
     if token \<noteq> 0 then Inl (Reject ''trust account can't be created with non-default identifier'')
     else Inr ()))))"

definition initial_token :: "object \<Rightarrow> unit res" where
  "initial_token ob =
     rbind (Object_get (str ''token'') ob) (\<lambda>nIdentifier :: u256.
     if nIdentifier = 0 then Inl (Reject ''token can't be created with reserved identifier'')
     else rbind (Object_get (str ''supply'') ob) (\<lambda>supply :: u64.
     rbind (Object_get (str ''balance'') ob) (\<lambda>balance :: u64.
     if supply \<noteq> balance then Inl (Reject ''token current supply and balance can't mismatch'')
     else Inr ())))"

abbreviation (input) COLON :: byte where "COLON \<equiv> 0x3a"

definition initial_name :: "object \<Rightarrow> unit res" where
  "initial_name ob =
     rbind (Object_getString (str ''namespace'') ob) (\<lambda>strNamespace.
     rbind (Object_getString (str ''name'') ob) (\<lambda>strName.
     if strNamespace = NAMESPACE_GLOBAL then
       if COLON \<in> set strName then Inl (Reject ''global names cannot contain colons'')
       else if Reserved_name strName then
         Inl (Reject ''global names can't be created with reserved name'')
       else Inr ()
     else if strName \<noteq> [] \<and> hd strName = COLON then Inl (Reject ''names cannot start with a colon'')
     else Inr ()))"

text \<open>Lower case letters, digits and the period, in the C locale.\<close>

definition namespace_char :: "byte \<Rightarrow> bool" where
  "namespace_char c \<longleftrightarrow> (0x61 \<le> c \<and> c \<le> 0x7a) \<or> (0x30 \<le> c \<and> c \<le> 0x39) \<or> c = 0x2e"

definition initial_namespace :: "object \<Rightarrow> unit res" where
  "initial_namespace ob =
     rbind (Object_getString (str ''namespace'') ob) (\<lambda>strNamespace.
     if \<not> list_all namespace_char strNamespace then
       Inl (Reject ''namespace can only contain lowercase letters, numbers, periods'')
     else if Reserved_namespace strNamespace then
       Inl (Reject ''namespaces can't contain reserved names'')
     else Inr ())"

definition initial_object :: "env \<Rightarrow> reg_state \<Rightarrow> unit res" where
  "initial_object E state =
     rbind (or_error ''object register failed to parse'' (Object_Parse (Object_of state))) (\<lambda>ob.
     rbind (Object_Standard ob) (\<lambda>nStandard.
     if nStandard = OBJECTS_ACCOUNT then initial_account ob
     else if nStandard = OBJECTS_TRUST then initial_trust E ob
     else if nStandard = OBJECTS_TOKEN then initial_token ob
     else if nStandard = OBJECTS_NAME then initial_name ob
     else if nStandard = OBJECTS_NAMESPACE then initial_namespace ob
     else Inr ()))"

definition Create_Execute :: "env \<Rightarrow> reg_state \<Rightarrow> byte list \<Rightarrow> u64 \<Rightarrow> reg_state res" where
  "Create_Execute E state vchData nTime =
     (if \<not> Range_type (nType state) then Inl (Reject ''register using invalid type range'')
      else let state = SetState E vchData state in
      rbind (if nType state = REGISTER_OBJECT then initial_object E state else Inr ()) (\<lambda>_.
      let state = SetChecksum E (state\<lparr>nCreated := nTime, nModified := nTime\<rparr>) in
      rbind (or_error ''post-state is in invalid state'' (State_IsValid E state)) (\<lambda>_. Inr state)))"

section \<open>Verify\<close>

text \<open>The size check reads a compact size right behind the address, where the contract holds
  the register's type byte.\<close>

definition Create_Verify :: "contract \<Rightarrow> contract res" where
  "Create_Verify c =
     rbind (Contract_Rewind 1 OPERATIONS c) (\<lambda>c.
     rbind (op_word c) (\<lambda>(opx :: u8, c).
     if opx \<noteq> OP_CREATE then Inl (Reject ''called with incorrect OP'')
     else rbind (op_word c) (\<lambda>(address :: u256, c).
     if \<not> Address_IsValid address then Inl (Reject ''cannot create register with invalid address'')
     else if Reserved_address address then Inl (Reject ''cannot create register with reserved address'')
     else if address = WILDCARD_ADDRESS then Inl (Reject ''cannot create register with wildcard address'')
     else rbind (Contract_ReadCompactSize OPERATIONS c) (\<lambda>(nSize, c).
     if nSize > 1024 then Inl (Reject ''register is beyond size limits'')
     else Contract_Rewind (32 + GetSizeOfCompactSize nSize) OPERATIONS c))))"

section \<open>Laws\<close>

lemma initial_object_cong:
  assumes "vchState s' = vchState s" and "nType s' = nType s"
  shows "initial_object E s' = initial_object E s"
proof -
  have pl: "parse_loop (cursor s' 0) [] = parse_loop (cursor s 0) []" by (simp add: cursor_def assms(1))
  show ?thesis
  proof (cases "Object_Parse (Object_of s)")
    case (Inl e)
    then have "Object_Parse (Object_of s') = Inl e"
      using pl assms by (auto simp: Object_Parse_def Object_of_def reg_state.defs object.defs cursor_def rbind_eq_Inl)
    with Inl show ?thesis by (simp add: initial_object_def)
  next
    case (Inr ob)
    then have "\<exists>ob'. Object_Parse (Object_of s') = Inr ob' \<and> vchState ob' = vchState ob \<and> mapData ob' = mapData ob"
      using pl assms by (auto simp: Object_Parse_def Object_of_def reg_state.defs object.defs cursor_def split: if_splits)
    then obtain ob' where o: "Object_Parse (Object_of s') = Inr ob'" "vchState ob' = vchState ob" "mapData ob' = mapData ob"
      by blast
    note vw = object_view(2) [OF o(2,3)] object_view(3-5) [OF o(2,3)]
    show ?thesis unfolding initial_object_def Inr o(1) or_error_Inr rbind_Inr vw
        initial_account_def initial_trust_def initial_token_def initial_name_def initial_namespace_def ..
  qed
qed

end
