(* ===== verification/Op_Stake.thy ===== *)
theory Op_Stake
  imports Op_Finance Op_Create
begin

text \<open>
  The operations on trust accounts: the staking rewards of \<^verbatim>\<open>TAO/Operation/trust.cpp\<close>,
  \<^verbatim>\<open>genesis.cpp\<close>, \<^verbatim>\<open>trustpool.cpp\<close> and \<^verbatim>\<open>genesispool.cpp\<close>, and the migration of a legacy trust
  key (\<^verbatim>\<open>migrate.cpp\<close>).
\<close>

definition name_stake :: "byte list" where "name_stake = str ''stake''"
definition name_trust :: "byte list" where "name_trust = str ''trust''"

definition parse_trust :: "string \<Rightarrow> object \<Rightarrow> object res" where
  "parse_trust msg trust =
     rbind (or_error ''failed to parse account object register'' (Object_Parse trust)) (\<lambda>trust.
     rbind (Object_Standard trust) (\<lambda>std.
       if std \<noteq> OBJECTS_TRUST then Inl (Reject msg) else Inr trust))"

text \<open>The register rules of a coinstake contract: a valid pre-state, owned by the caller.\<close>

definition stake_verify :: "u8 \<Rightarrow> env \<Rightarrow> contract \<Rightarrow> contract res" where
  "stake_verify opc E c =
     rbind (verify_op opc c) (\<lambda>c.
     rbind (read_prestate E c) (\<lambda>(state, c).
     if hashOwner state \<noteq> hashCaller c then Inl (Reject ''caller not authorized'')
     else Contract_Reset REGISTERS c))"

section \<open>Trust\<close>

definition Trust_Commit :: "env \<Rightarrow> reg_state \<Rightarrow> u8 \<Rightarrow> world \<Rightarrow> world res" where
  "Trust_Commit E state nFlags W =
     (if nFlags \<noteq> FLAGS_BLOCK then Inl (Reject ''can't commit trust with invalid flags'')
      else if \<not> HasTrust (hashOwner state) W then Inl (Reject ''trust account not indexed'')
      else WriteTrust E (hashOwner state) state W)"

text \<open>The stake change is a signed 64-bit number. What is added to the stake leaves the
  balance, what is removed from it enters the balance.\<close>

definition Trust_Execute :: "env \<Rightarrow> object \<Rightarrow> u64 \<Rightarrow> u64 \<Rightarrow> u64 \<Rightarrow> u64 \<Rightarrow> object res" where
  "Trust_Execute E trust nReward nScore nStakeChange nTime =
     rbind (parse_trust ''no trust for non-trust account'' trust) (\<lambda>trust.
     rbind (Object_get name_stake trust) (\<lambda>nStakePrev :: u64.
     rbind (Object_get name_balance trust) (\<lambda>nBalancePrev :: u64.
     rbind (if sint nStakeChange > 0 then
              if nStakeChange > nBalancePrev then
                Inl (Reject ''cannot add stake exceeding existing trust account balance'')
              else Inr (nStakeChange, 0)
            else if sint nStakeChange < 0 then
              if 0 - nStakeChange > nStakePrev then
                Inl (Reject ''cannot unstake more than existing stake balance'')
              else Inr (0, 0 - nStakeChange)
            else Inr (0, 0)) (\<lambda>(nStakeAdded, nStakeRemoved).
     rbind (or_error ''trust could not be written'' (Object_Write name_trust nScore trust)) (\<lambda>trust.
     rbind (or_error ''balance could not be written''
              (Object_Write name_balance (nBalancePrev + nReward + nStakeRemoved - nStakeAdded) trust)) (\<lambda>trust.
     rbind (or_error ''stake could not be written''
              (Object_Write name_stake (nStakePrev + nStakeAdded - nStakeRemoved) trust)) (\<lambda>trust.
     finish_account E nTime trust)))))))"

definition Trust_Verify :: "env \<Rightarrow> contract \<Rightarrow> contract res" where
  "Trust_Verify = stake_verify OP_TRUST"

section \<open>Genesis\<close>

definition Genesis_Commit :: "env \<Rightarrow> reg_state \<Rightarrow> u8 \<Rightarrow> world \<Rightarrow> world res" where
  "Genesis_Commit E state nFlags W =
     (if nFlags \<noteq> FLAGS_BLOCK then Inl (Reject ''can't commit genesis with invalid flags'')
      else rbind (Address_key E (str ''trust'') (hashOwner state) ADDR_TRUST) (\<lambda>hashAddress.
      if HasTrust (hashOwner state) W then Inl (Reject ''cannot create genesis when already exists'')
      else rbind (WriteTrust E (hashOwner state) state W) (\<lambda>W.
      Inr (IndexTrust (hashOwner state) hashAddress W))))"

definition Genesis_Execute :: "env \<Rightarrow> object \<Rightarrow> u64 \<Rightarrow> u64 \<Rightarrow> object res" where
  "Genesis_Execute E trust nReward nTime =
     rbind (parse_trust ''no genesis for non-trust account'' trust) (\<lambda>trust.
     rbind (Object_get name_stake trust) (\<lambda>stake :: u64.
     if stake \<noteq> 0 then Inl (Reject ''cannot create genesis with already existing stake'')
     else rbind (Object_get name_trust trust) (\<lambda>score :: u64.
     if score \<noteq> trust_boost E then Inl (Reject ''cannot create genesis with already existing trust'')
     else rbind (Object_get name_balance trust) (\<lambda>balance :: u64.
     if balance = 0 then Inl (Reject ''cannot create genesis with no available balance'')
     else rbind (or_error ''stake could not be written'' (Object_Write name_stake balance trust)) (\<lambda>trust.
     rbind (or_error ''balance could not be written'' (Object_Write name_balance nReward trust)) (\<lambda>trust.
     finish_account E nTime trust))))))"

definition Genesis_Verify :: "env \<Rightarrow> contract \<Rightarrow> contract res" where
  "Genesis_Verify = stake_verify OP_GENESIS"

section \<open>Pooled staking\<close>

text \<open>The pooled operations have the same bodies as the operations above.\<close>

definition Trustpool_Commit :: "env \<Rightarrow> reg_state \<Rightarrow> u8 \<Rightarrow> world \<Rightarrow> world res" where
  "Trustpool_Commit = Trust_Commit"

definition Trustpool_Execute :: "env \<Rightarrow> object \<Rightarrow> u64 \<Rightarrow> u64 \<Rightarrow> u64 \<Rightarrow> u64 \<Rightarrow> object res" where
  "Trustpool_Execute = Trust_Execute"

definition Trustpool_Verify :: "env \<Rightarrow> contract \<Rightarrow> contract res" where
  "Trustpool_Verify = stake_verify OP_TRUSTPOOL"

definition Genesispool_Commit :: "env \<Rightarrow> reg_state \<Rightarrow> u8 \<Rightarrow> world \<Rightarrow> world res" where
  "Genesispool_Commit = Genesis_Commit"

definition Genesispool_Execute :: "env \<Rightarrow> object \<Rightarrow> u64 \<Rightarrow> u64 \<Rightarrow> object res" where
  "Genesispool_Execute = Genesis_Execute"

definition Genesispool_Verify :: "env \<Rightarrow> contract \<Rightarrow> contract res" where
  "Genesispool_Verify = stake_verify OP_GENESISPOOL"

section \<open>Migrate\<close>

text \<open>The legacy database records the trust keys that have been converted.\<close>

definition HasTrustConversion :: "u576 \<Rightarrow> world \<Rightarrow> bool" where
  "HasTrustConversion k W \<longleftrightarrow> wTrustKeys W k \<noteq> None"

definition WriteTrustConversion :: "u576 \<Rightarrow> world \<Rightarrow> world" where
  "WriteTrustConversion k W = W\<lparr>wTrustKeys := (wTrustKeys W)(k \<mapsto> True)\<rparr>"

definition Migrate_Commit :: "env \<Rightarrow> object \<Rightarrow> u256 \<Rightarrow> u256 \<Rightarrow> u512 \<Rightarrow> u576 \<Rightarrow> u512 \<Rightarrow> u8 \<Rightarrow> world \<Rightarrow> world res" where
  "Migrate_Commit E trust hashAddress caller h hashTrust hashLast nFlags W =
     (if HasProof WILDCARD_ADDRESS h 0 nFlags W then Inl (Reject ''migrate credit is already claimed'')
      else let W = WriteProof WILDCARD_ADDRESS h 0 nFlags W;
               W = WriteState E hashAddress (State_of trust) nFlags W
      in if nFlags = FLAGS_BLOCK then
           (let W = IndexTrust caller hashAddress W;
                W = WriteStake caller hashLast W
            in Inr (if \<not> fClient E then WriteTrustConversion hashTrust W else W))
         else Inr W)"

definition Migrate_Execute :: "env \<Rightarrow> object \<Rightarrow> u64 \<Rightarrow> u32 \<Rightarrow> u64 \<Rightarrow> object res" where
  "Migrate_Execute E trust nAmount nScore nTime =
     rbind (parse_trust ''cannot migrate to a non-trust account'' trust) (\<lambda>trust.
     rbind (Object_get name_stake trust) (\<lambda>stake :: u64.
     if stake \<noteq> 0 then Inl (Reject ''cannot migrate with already existing stake'')
     else rbind (Object_get name_trust trust) (\<lambda>score :: u64.
     if score \<noteq> 0 then Inl (Reject ''cannot migrate with already existing trust'')
     else rbind (or_error ''stake could not be written'' (Object_Write name_stake nAmount trust)) (\<lambda>trust.
     rbind (or_error ''trust could not be written'' (Object_Write name_trust (ucast nScore :: u64) trust)) (\<lambda>trust.
     finish_account E nTime trust)))))"

text \<open>The debit of a migration, as \<open>Migrate::Verify\<close> reads it.\<close>

definition migrate_debit :: "contract \<Rightarrow> (u256 \<times> u256 \<times> u64 \<times> u32 \<times> u512 \<times> u576) res" where
  "migrate_debit debit =
     rbind (Contract_Reset ALL_STREAMS debit) (\<lambda>debit.
     rbind (op_word debit) (\<lambda>(opx :: u8, debit).
     if opx \<noteq> OP_DEBIT then Inl (Reject ''tx claim is not a debit'')
     else rbind (op_word debit) (\<lambda>(hashFrom, debit).
     rbind (op_word debit) (\<lambda>(hashTo, debit).
     rbind (op_word debit) (\<lambda>(nDebit, debit).
     rbind (Contract_Seek 8 OPERATIONS STREAM_CURSOR debit) (\<lambda>debit.
     rbind (op_word debit) (\<lambda>(nScoreDebit, debit).
     rbind (op_word debit) (\<lambda>(hashLastDebit, debit).
     rbind (op_word debit) (\<lambda>(hashTrustDebit, debit).
     Inr (hashFrom, hashTo, nDebit, nScoreDebit, hashLastDebit, hashTrustDebit))))))))))"

definition Migrate_Verify :: "env \<Rightarrow> contract \<Rightarrow> contract \<Rightarrow> world \<Rightarrow> contract res" where
  "Migrate_Verify E c debit W =
     rbind (Contract_Reset ALL_STREAMS c) (\<lambda>c.
     rbind (op_word c) (\<lambda>(opx :: u8, c).
     if opx \<noteq> OP_MIGRATE then Inl (Reject ''called with incorrect OP'')
     else if cVersion c > 1 then Inl (Reject ''OP::MIGRATE: invalid transaction version'')
     else if \<not> Contract_Empty CONDITIONS debit then
       Inl (Reject ''OP::MIGRATE: conditions not allowed on migrate debit'')
     else rbind (Contract_Seek 64 OPERATIONS STREAM_CURSOR c) (\<lambda>c.
     rbind (op_word c) (\<lambda>(hashAccount :: u256, c).
     rbind (op_word c) (\<lambda>(hashTrust :: u576, c).
     rbind (op_word c) (\<lambda>(nAmount :: u64, c).
     rbind (op_word c) (\<lambda>(nScore :: u32, c).
     rbind (op_word c) (\<lambda>(hashLast :: u512, c).
     rbind (take_prestate c) (\<lambda>(state, c).
     if hashCaller c \<noteq> hashOwner state then Inl (Reject ''no write permissions for caller'')
     else rbind (or_error ''failed to parse account'' (Object_Parse (Object_of state))) (\<lambda>_.
     if HasTrust (hashCaller c) W then Inl (Reject ''trust account is not new'')
     else rbind (migrate_debit debit)
       (\<lambda>(hashFrom, hashTo, nDebit, nScoreDebit, hashLastDebit, hashTrustDebit).
     if Reserved_address hashTo then Inl (Reject ''cannot credit register with reserved address'')
     else if hashFrom \<noteq> WILDCARD_ADDRESS then Inl (Reject ''migrate debit register must be from UTXO'')
     else if \<not> fClient E \<and> HasTrustConversion hashTrust W then
       Inl (Reject ''trust key is already converted'')
     else if hashTo \<noteq> hashAccount then
       Inl (Reject ''trust account register address must match debit'')
     else if nDebit \<noteq> nAmount then Inl (Reject ''debit and credit value mismatch'')
     else if nScoreDebit \<noteq> nScore then Inl (Reject ''debit and credit trust score mismatch'')
     else if hashLastDebit \<noteq> hashLast then Inl (Reject ''debit and credit hash last stake mismatch'')
     else if hashTrustDebit \<noteq> hashTrust then Inl (Reject ''debit and credit trust key mismatch'')
     else Inr c)))))))))))"

section \<open>What verification guarantees\<close>

lemma stake_verify_facts:
  assumes "stake_verify opc E c = Inr c'" and "sPos (ssOperation c) < 2 ^ 64"
  shows "c' = rpos 0 c \<and> (\<exists>s. authorized E c s)"
  using assms unfolding stake_verify_def
  by (elim rbind_pairE rbindE if_InlE)
    (auto simp: authorized_def dest!: verify_op_pos dest: read_prestate_of)

section \<open>Laws of the executions\<close>

lemma names_distinct [simp]:
  "name_stake \<noteq> name_balance" "name_balance \<noteq> name_stake" "name_trust \<noteq> name_balance"
  "name_balance \<noteq> name_trust" "name_trust \<noteq> name_stake" "name_stake \<noteq> name_trust"
  by (simp_all add: name_stake_def name_balance_def name_trust_def str_def)

lemma parse_trust_Inr:
  "parse_trust msg ob0 = Inr ob \<longleftrightarrow> Object_Parse ob0 = Inr ob \<and> Object_Standard ob = Inr OBJECTS_TRUST"
  by (auto simp: parse_trust_def)

lemma Trust_Execute_facts:
  assumes ex: "Trust_Execute E (Object_of s) r sc ch t = Inr ob'" and len: "length (vchState s) < 2 ^ 16"
  shows "\<exists>b st :: u64. \<exists>ad rm. field_of name_balance s = Inr b \<and> field_of name_stake s = Inr st \<and>
    ad \<le> b \<and> rm \<le> st \<and> ad - rm = ch \<and>
    field_of name_balance (State_of ob') = Inr (b + r + rm - ad) \<and>
    field_of name_stake (State_of ob') = Inr (st + ad - rm) \<and>
    field_of name_trust (State_of ob') = Inr sc \<and>
    standard_of s = Inr OBJECTS_TRUST \<and> standard_of (State_of ob') = Inr OBJECTS_TRUST"
proof -
  from ex obtain ob st b ad rm ob1 ob2 ob3 where p: "Object_Parse (Object_of s) = Inr ob" and
    std: "Object_Standard ob = Inr OBJECTS_TRUST" and
    g: "Object_get name_stake ob = Inr st" "Object_get name_balance ob = Inr b" and
    ch: "(if sint ch > 0 then
              if ch > b then Inl (Reject ''cannot add stake exceeding existing trust account balance'')
              else Inr (ch, 0)
            else if sint ch < 0 then
              if 0 - ch > st then Inl (Reject ''cannot unstake more than existing stake balance'')
              else Inr (0, 0 - ch)
            else Inr (0, 0)) = Inr (ad, rm)" and
    w: "Object_Write name_trust sc ob = Inr ob1" "Object_Write name_balance (b + r + rm - ad) ob1 = Inr ob2"
      "Object_Write name_stake (st + ad - rm) ob2 = Inr ob3" and f: "finish_account E t ob3 = Inr ob'"
    unfolding Trust_Execute_def by (elim rbindE rbind_pairE) (simp add: parse_trust_Inr)
  have cz: "ad \<le> b \<and> rm \<le> st \<and> ad - rm = ch"
  proof -
    have "ch = 0" if "\<not> sint ch > 0" "\<not> sint ch < 0" using that by (metis linorder_neqE signed_0 word_eq_iff_signed)
    then show ?thesis using ch by (auto split: if_splits simp: not_less)
  qed
  note fu = w [THEN field_updateI_word]
  note pp = Object_Parse_parsed [OF p len]
  have p1: "parsed ob1" by (rule field_update_parsed [OF pp(1) fu(1)])
  have p2: "parsed ob2" by (rule field_update_parsed [OF p1 field_updateI_word [OF w(2)]])
  have p3: "parsed ob3" by (rule field_update_parsed [OF p2 field_updateI_word [OF w(3)]])
  have vs: "vchState (State_of ob') = vchState ob3" "nType (State_of ob') = nType s"
    using f field_update_fields(4) [OF fu(1)] field_update_fields(4) [OF field_updateI_word [OF w(2)]]
      field_update_fields(4) [OF field_updateI_word [OF w(3)]] pp(2) by (auto simp: finish_account_Inr)
  note sv = parsed_stored [OF p3 vs(1)] 
  have ty: "nType (State_of ob') = REGISTER_OBJECT \<or> nType (State_of ob') = REGISTER_SYSTEM"
    using parse_type [OF p] vs(2) by simp
  have "Object_get name_stake ob3 = Inr (st + ad - rm)" by (rule Object_Write_get [OF w(3)])
  moreover have "Object_get name_balance ob3 = Inr (b + r + rm - ad)"
    by (rule field_update_frame [OF p2 field_updateI_word [OF w(3)] _ Object_Write_get [OF w(2)]]) simp
  moreover have "Object_get name_trust ob3 = Inr sc"
    by (intro field_update_frame [OF p2 field_updateI_word [OF w(3)]]
        field_update_frame [OF p1 field_updateI_word [OF w(2)]] Object_Write_get [OF w(1)]) simp_all
  moreover have "Object_Standard ob3 = Inr OBJECTS_TRUST"
    using std field_update_Standard(1) [OF pp(1) fu(1)] field_update_Standard(1) [OF p1 field_updateI_word [OF w(2)]]
      field_update_Standard(1) [OF p2 field_updateI_word [OF w(3)]] by simp
  ultimately show ?thesis
    using cz p g std sv(1) [OF ty, where ?'b = 64] sv(2) [OF ty]
    by (auto simp: field_of_def standard_of_def)
qed

text \<open>Two writes to different fields of a register, then the closing step.\<close>

lemma two_writes_stored:
  fixes x y :: u64
  assumes p: "Object_Parse (Object_of s) = Inr ob" and len: "length (vchState s) < 2 ^ 16"
    and w: "Object_Write m x ob = Inr ob1" "Object_Write n y ob1 = Inr ob2" and ne: "m \<noteq> n"
    and f: "finish_account E t ob2 = Inr ob'"
  shows "field_of m (State_of ob') = Inr x" and "field_of n (State_of ob') = Inr y"
    and "standard_of (State_of ob') = standard_of s"
proof -
  note fu = w [THEN field_updateI_word]
  note pp = Object_Parse_parsed [OF p len]
  have p1: "parsed ob1" by (rule field_update_parsed [OF pp(1) fu(1)])
  have p2: "parsed ob2" by (rule field_update_parsed [OF p1 fu(2)])
  have vs: "vchState (State_of ob') = vchState ob2" "nType (State_of ob') = nType s"
    using f field_update_fields(4) [OF fu(1)] field_update_fields(4) [OF fu(2)] pp(2)
    by (auto simp: finish_account_Inr)
  have ty: "nType (State_of ob') = REGISTER_OBJECT \<or> nType (State_of ob') = REGISTER_SYSTEM"
    using parse_type [OF p] vs(2) by simp
  note sv = parsed_stored [OF p2 vs(1) ty]
  show "field_of n (State_of ob') = Inr y" by (simp add: sv(1) Object_Write_get [OF w(2)])
  show "field_of m (State_of ob') = Inr x"
    by (simp add: sv(1) field_update_frame [OF p1 fu(2) ne Object_Write_get [OF w(1)]])
  show "standard_of (State_of ob') = standard_of s"
    using p sv(2) field_update_Standard(1) [OF pp(1) fu(1)] field_update_Standard(1) [OF p1 fu(2)]
    by (simp add: standard_of_def)
qed

lemma Genesis_Execute_facts:
  assumes ex: "Genesis_Execute E (Object_of s) r t = Inr ob'" and len: "length (vchState s) < 2 ^ 16"
  shows "\<exists>b :: u64. field_of name_balance s = Inr b \<and> b \<noteq> 0 \<and> field_of name_stake s = Inr (0 :: u64) \<and>
    field_of name_stake (State_of ob') = Inr b \<and> field_of name_balance (State_of ob') = Inr r \<and>
    standard_of s = Inr OBJECTS_TRUST \<and> standard_of (State_of ob') = Inr OBJECTS_TRUST"
proof -
  from ex obtain ob st sc b ob1 ob2 where p: "Object_Parse (Object_of s) = Inr ob" and
    std: "Object_Standard ob = Inr OBJECTS_TRUST" and
    g: "Object_get name_stake ob = Inr st" "\<not> st \<noteq> (0 :: u64)" "Object_get name_trust ob = Inr (sc :: u64)"
      "Object_get name_balance ob = Inr (b :: u64)" "\<not> b = 0" and
    w: "Object_Write name_stake b ob = Inr ob1" "Object_Write name_balance r ob1 = Inr ob2" and
    f: "finish_account E t ob2 = Inr ob'"
    unfolding Genesis_Execute_def by (elim rbindE if_InlE) (auto simp: parse_trust_Inr)
  note tw = two_writes_stored [OF p len w names_distinct(1) f]
  show ?thesis using p g std tw by (auto simp: field_of_def standard_of_def)
qed

lemma Migrate_Execute_facts:
  assumes ex: "Migrate_Execute E (Object_of s) n sc t = Inr ob'" and len: "length (vchState s) < 2 ^ 16"
  shows "field_of name_stake s = Inr (0 :: u64) \<and> field_of name_trust s = Inr (0 :: u64) \<and>
    field_of name_stake (State_of ob') = Inr n \<and> field_of name_trust (State_of ob') = Inr (ucast sc :: u64) \<and>
    standard_of s = Inr OBJECTS_TRUST \<and> standard_of (State_of ob') = Inr OBJECTS_TRUST"
proof -
  from ex obtain ob st sc0 ob1 ob2 where p: "Object_Parse (Object_of s) = Inr ob" and
    std: "Object_Standard ob = Inr OBJECTS_TRUST" and
    g: "Object_get name_stake ob = Inr st" "\<not> st \<noteq> (0 :: u64)" "Object_get name_trust ob = Inr sc0" "\<not> sc0 \<noteq> (0 :: u64)" and
    w: "Object_Write name_stake n ob = Inr ob1" "Object_Write name_trust (ucast sc :: u64) ob1 = Inr ob2" and
    f: "finish_account E t ob2 = Inr ob'"
    unfolding Migrate_Execute_def by (elim rbindE if_InlE) (simp add: parse_trust_Inr)
  note tw = two_writes_stored [OF p len w names_distinct(6) f]
  show ?thesis using p g std tw by (auto simp: field_of_def standard_of_def)
qed

end
