(* ===== verification/Base_VM.thy ===== *)
theory Base_VM
  imports Serialize
begin

text \<open>
  The register memory of the condition machine (\<^verbatim>\<open>TAO/Register/basevm.cpp\<close>,
  \<^verbatim>\<open>TAO/Register/types/basevm.h\<close>, \<^verbatim>\<open>TAO/Register/types/value.h\<close>): 256 registers of 64 bits, used as
  a stack. A value is a range of registers together with the number of bytes it holds.
\<close>

section \<open>State\<close>

text \<open>The byte count of a value that has never been allocated is not initialised: \<open>None\<close>.\<close>

record vm_value =
  nBegin :: nat
  nEnd :: nat
  nBytes :: "nat option"

definition null_value :: vm_value where
  "null_value = \<lparr>nBegin = 0, nEnd = 0, nBytes = None\<rparr>"

definition value_size :: "vm_value \<Rightarrow> nat" where
  "value_size v = nEnd v - nBegin v"

definition value_null :: "vm_value \<Rightarrow> bool" where
  "value_null v \<longleftrightarrow> nBegin v = 0 \<and> nEnd v = 0"

record vm =
  vRegister :: "u64 list"
  nPointer :: nat

definition vm_new :: "nat \<Rightarrow> vm" where
  "vm_new nSize = \<lparr>vRegister = replicate nSize 0, nPointer = 0\<rparr>"

section \<open>Bytes of a value\<close>

text \<open>The range from \<^verbatim>\<open>begin(value)\<close> to \<^verbatim>\<open>end(value)\<close>: the registers in memory order, the lowest byte of
  each first, up to the byte count of the value.\<close>

definition vm_bytes :: "vm_value \<Rightarrow> 'a vm_scheme \<Rightarrow> byte list res" where
  "vm_bytes v m = (case nBytes v of
     None \<Rightarrow> Inl (Undefined ''byte count of a value that was never allocated'')
   | Some k \<Rightarrow> Inr (take k (concat (map ser_word (take (value_size v) (drop (nBegin v) (vRegister m)))))))"

text \<open>Copying bytes into registers; the bytes behind them in the last register stay.\<close>

fun put_bytes :: "byte list \<Rightarrow> u64 list \<Rightarrow> u64 list" where
  "put_bytes d [] = []"
| "put_bytes d (r # rs) =
     (if d = [] then r # rs
      else deser_word (take 8 d @ drop (length (take 8 d)) (ser_word r)) # put_bytes (drop 8 d) rs)"

section \<open>Allocation\<close>

abbreviation (input) OUT_OF_MEMORY :: error where
  "OUT_OF_MEMORY \<equiv> Throw ''Out of register memory''"

text \<open>An integer of up to eight bytes takes one register, whose whole content it becomes.\<close>

definition alloc_word :: "'w::len word \<Rightarrow> 'a vm_scheme \<Rightarrow> (vm_value \<times> 'a vm_scheme) res" where
  "alloc_word n m =
     (let v = \<lparr>nBegin = nPointer m, nEnd = nPointer m + 1, nBytes = Some (LENGTH('w) div 8)\<rparr> in
      if nEnd v > length (vRegister m) then Inl OUT_OF_MEMORY
      else Inr (v, m\<lparr>vRegister := (vRegister m)[nBegin v := ucast n], nPointer := nPointer m + 1\<rparr>))"

definition regs_for :: "nat \<Rightarrow> nat" where
  "regs_for k = k div 8 + (if k mod 8 = 0 then 0 else 1)"

text \<open>Strings, byte vectors and the wide integers: as many registers as their bytes need.\<close>

definition alloc_bytes :: "byte list \<Rightarrow> 'a vm_scheme \<Rightarrow> (vm_value \<times> 'a vm_scheme) res" where
  "alloc_bytes d m =
     (let nSize = regs_for (length d);
          v = \<lparr>nBegin = nPointer m, nEnd = nPointer m + nSize, nBytes = Some (length d mod 2 ^ 16)\<rparr> in
      if nEnd v > length (vRegister m) then Inl OUT_OF_MEMORY
      else Inr (v, m\<lparr>vRegister := take (nBegin v) (vRegister m) @ put_bytes d (drop (nBegin v) (vRegister m)),
                     nPointer := nPointer m + nSize\<rparr>))"

definition alloc_wide :: "'w::len word \<Rightarrow> 'a vm_scheme \<Rightarrow> (vm_value \<times> 'a vm_scheme) res" where
  "alloc_wide n = alloc_bytes (ser_word n)"

section \<open>Deallocation\<close>

text \<open>Only the topmost value can be given back.\<close>

definition dealloc_check :: "vm_value \<Rightarrow> 'a vm_scheme \<Rightarrow> unit res" where
  "dealloc_check v m =
     (if nPointer m = 0 \<or> nEnd v = 0 then Inl (Throw ''Missing register value'')
      else if nEnd v \<noteq> nPointer m then Inl (Throw ''Cannot deallocate when not last'')
      else if int (nPointer m) - int (value_size v) < 0 then Inl (Throw ''Invalid memory address'')
      else Inr ())"

definition vm_clear :: "vm_value \<Rightarrow> 'a vm_scheme \<Rightarrow> 'a vm_scheme" where
  "vm_clear v m = m\<lparr>vRegister := take (nBegin v) (vRegister m) @ replicate (value_size v) 0 @ drop (nEnd v) (vRegister m),
     nPointer := nPointer m - value_size v\<rparr>"

definition deallocate :: "vm_value \<Rightarrow> 'a vm_scheme \<Rightarrow> 'a vm_scheme res" where
  "deallocate v m = rbind (dealloc_check v m) (\<lambda>_. Inr (vm_clear v m))"

definition dealloc_bytes :: "vm_value \<Rightarrow> 'a vm_scheme \<Rightarrow> (byte list \<times> 'a vm_scheme) res" where
  "dealloc_bytes v m =
     rbind (dealloc_check v m) (\<lambda>_.
     rbind (vm_bytes v m) (\<lambda>d. Inr (d, vm_clear v m)))"

definition dealloc_wide :: "vm_value \<Rightarrow> 'a vm_scheme \<Rightarrow> ('w::len word \<times> 'a vm_scheme) res" where
  "dealloc_wide v m =
     rbind (dealloc_check v m) (\<lambda>_.
     if nBytes v \<noteq> Some (LENGTH('w) div 8) then Inl (Throw ''Deallocate size mismatch'')
     else rbind (vm_bytes v m) (\<lambda>d. Inr (deser_word d, vm_clear v m)))"

section \<open>Access\<close>

definition vm_at :: "vm_value \<Rightarrow> 'a vm_scheme \<Rightarrow> u64 res" where
  "vm_at v m = (if nBegin v < length (vRegister m) then Inr (vRegister m ! nBegin v)
     else Inl (Undefined ''register outside the memory''))"

definition vm_put :: "vm_value \<Rightarrow> u64 \<Rightarrow> 'a vm_scheme \<Rightarrow> 'a vm_scheme" where
  "vm_put v n m = m\<lparr>vRegister := (vRegister m)[nBegin v := n]\<rparr>"

text \<open>The comparison looks at the registers both values have, from the highest down, and returns
  the 64-bit difference of the first pair that differs, taken as a signed number.\<close>

fun compare_down :: "nat \<Rightarrow> u64 list \<Rightarrow> u64 list \<Rightarrow> int" where
  "compare_down 0 xs ys = 0"
| "compare_down (Suc i) xs ys = (if xs ! i \<noteq> ys ! i then sint (xs ! i - ys ! i) else compare_down i xs ys)"

definition vm_compare :: "vm_value \<Rightarrow> vm_value \<Rightarrow> 'a vm_scheme \<Rightarrow> int" where
  "vm_compare a b m =
     (if value_size a = 0 \<or> value_size b = 0 then 0
      else compare_down (min (value_size a) (value_size b)) (drop (nBegin a) (vRegister m)) (drop (nBegin b) (vRegister m)))"

text \<open>The search for one value in another. The first byte must match exactly, a zero byte behind it
  matches every byte. A candidate near the end is compared past the end of the copy.\<close>

function contains_rest :: "byte list \<Rightarrow> byte list \<Rightarrow> nat \<Rightarrow> nat \<Rightarrow> bool res" where
  "contains_rest vA vB i n =
     (if n < length vB then
        if i + n \<ge> length vA then Inl (Undefined ''search past the end of the bytes'')
        else if vA ! (i + n) \<noteq> vB ! n \<and> vB ! n \<noteq> 0 then Inr False
        else if n + 1 = length vB then Inr True
        else contains_rest vA vB i (n + 1)
      else Inr False)"
  by pat_completeness auto
termination
  by (relation "measure (\<lambda>(vA, vB, i, n). length vB - n)") auto

function contains_from :: "byte list \<Rightarrow> byte list \<Rightarrow> nat \<Rightarrow> bool res" where
  "contains_from vA vB i =
     (if i < length vA then
        rbind (if vA ! i = vB ! 0 then contains_rest vA vB i 1 else Inr False) (\<lambda>found.
        if found then Inr True else contains_from vA vB (i + 1))
      else Inr False)"
  by pat_completeness auto
termination
  by (relation "measure (\<lambda>(vA, vB, i). length vA - i)") auto

declare contains_rest.simps [simp del] contains_from.simps [simp del]

definition vm_contains :: "vm_value \<Rightarrow> vm_value \<Rightarrow> 'a vm_scheme \<Rightarrow> bool res" where
  "vm_contains a b m =
     (if value_size b > value_size a \<or> value_size a = 0 \<or> value_size b = 0 then Inr False
      else rbind (vm_bytes a m) (\<lambda>vA. rbind (vm_bytes b m) (\<lambda>vB.
        if vB = [] then Inl (Undefined ''first byte of an empty vector'') else contains_from vA vB 0)))"

definition vm_available :: "'a vm_scheme \<Rightarrow> nat" where
  "vm_available m = (length (vRegister m) - nPointer m) * 8"

end
