(* ===== verification/Condition_VM.thy ===== *)
theory Condition_VM
  imports Databases Register_Object Base_VM
begin

unbundle bit_operations_syntax

text \<open>
  The machine that evaluates the conditions of a contract (\<^verbatim>\<open>TAO/Operation/condition.cpp\<close>). A script
  is a sequence of comparisons, joined by \<^verbatim>\<open>AND\<close> or \<^verbatim>\<open>OR\<close> and grouped; each side of a comparison is
  an expression over literals, registers, the two contracts and the ledger.

  Both contracts are read through streams. The machine leaves the register stream of the caller at
  its start, which is where the execution of contracts has it whenever conditions are evaluated, so
  the result does not carry the caller.
\<close>

section \<open>State\<close>

record condition = vm +
  cvContract :: contract
  cvEvaluate :: "(bool \<times> u8) list"
  cvCost :: u64

abbreviation (input) OP_RESERVED :: u8 where "OP_RESERVED \<equiv> 0xff"
abbreviation (input) OP_EQUALS :: u8 where "OP_EQUALS \<equiv> 0x80"
abbreviation (input) OP_LESSTHAN :: u8 where "OP_LESSTHAN \<equiv> 0x81"
abbreviation (input) OP_GREATERTHAN :: u8 where "OP_GREATERTHAN \<equiv> 0x82"
abbreviation (input) OP_NOTEQUALS :: u8 where "OP_NOTEQUALS \<equiv> 0x83"
abbreviation (input) OP_CONTAINS :: u8 where "OP_CONTAINS \<equiv> 0x84"
abbreviation (input) OP_LESSEQUALS :: u8 where "OP_LESSEQUALS \<equiv> 0x85"
abbreviation (input) OP_GREATEREQUALS :: u8 where "OP_GREATEREQUALS \<equiv> 0x86"
abbreviation (input) OP_ADD :: u8 where "OP_ADD \<equiv> 0x90"
abbreviation (input) OP_SUB :: u8 where "OP_SUB \<equiv> 0x91"
abbreviation (input) OP_DIV :: u8 where "OP_DIV \<equiv> 0x92"
abbreviation (input) OP_MUL :: u8 where "OP_MUL \<equiv> 0x93"
abbreviation (input) OP_MOD :: u8 where "OP_MOD \<equiv> 0x94"
abbreviation (input) OP_INC :: u8 where "OP_INC \<equiv> 0x95"
abbreviation (input) OP_DEC :: u8 where "OP_DEC \<equiv> 0x96"
abbreviation (input) OP_EXP :: u8 where "OP_EXP \<equiv> 0x97"
abbreviation (input) OP_SUBDATA :: u8 where "OP_SUBDATA \<equiv> 0x98"
abbreviation (input) OP_CAT :: u8 where "OP_CAT \<equiv> 0x99"
abbreviation (input) OP_AND :: u8 where "OP_AND \<equiv> 0xa0"
abbreviation (input) OP_OR :: u8 where "OP_OR \<equiv> 0xa1"
abbreviation (input) OP_GROUP :: u8 where "OP_GROUP \<equiv> 0xa2"
abbreviation (input) OP_UNGROUP :: u8 where "OP_UNGROUP \<equiv> 0xa3"

definition CONDITION_REGISTERS :: nat where "CONDITION_REGISTERS = 256"

definition Condition_new :: "contract \<Rightarrow> u64 \<Rightarrow> condition" where
  "Condition_new c nCostIn = \<lparr>vRegister = replicate CONDITION_REGISTERS 0, nPointer = 0,
     cvContract = c, cvEvaluate = [(False, OP_RESERVED)], cvCost = nCostIn\<rparr>"

section \<open>Streams and costs\<close>

definition cv_read :: "(contract \<Rightarrow> ('a \<times> contract) res) \<Rightarrow> condition \<Rightarrow> ('a \<times> condition) res" where
  "cv_read f s = rbind (f (cvContract s)) (\<lambda>(x, c). Inr (x, s\<lparr>cvContract := c\<rparr>))"

definition cond_string :: "contract \<Rightarrow> (byte list \<times> contract) res" where
  "cond_string = ccond_lift (read_string stream_read)"

definition cond_vector :: "contract \<Rightarrow> (byte list \<times> contract) res" where
  "cond_vector = ccond_lift (read_vector stream_read)"

definition add_cost :: "u64 \<Rightarrow> condition \<Rightarrow> condition res" where
  "add_cost n s = (if cvCost s + n < cvCost s then Inl (Throw ''costs value overflow'')
     else Inr (s\<lparr>cvCost := cvCost s + n\<rparr>))"

text \<open>A value is pushed, then its cost is charged.\<close>

definition push_word :: "'w::len word \<Rightarrow> u64 \<Rightarrow> condition \<Rightarrow> (bool \<times> vm_value \<times> condition) res" where
  "push_word n cost s =
     rbind (alloc_word n s) (\<lambda>(v, s). rbind (add_cost cost s) (\<lambda>s. Inr (True, v, s)))"

definition push_wide :: "'w::len word \<Rightarrow> u64 \<Rightarrow> condition \<Rightarrow> (bool \<times> vm_value \<times> condition) res" where
  "push_wide n cost s =
     rbind (alloc_wide n s) (\<lambda>(v, s). rbind (add_cost cost s) (\<lambda>s. Inr (True, v, s)))"

definition push_bytes :: "byte list \<Rightarrow> u64 \<Rightarrow> condition \<Rightarrow> (bool \<times> vm_value \<times> condition) res" where
  "push_bytes d cost s =
     rbind (alloc_bytes d s) (\<lambda>(v, s). rbind (add_cost cost s) (\<lambda>s. Inr (True, v, s)))"

text \<open>\<open>uint32_t nSize\<close> of a byte vector, as a cost.\<close>

definition size_cost :: "nat \<Rightarrow> u64" where
  "size_cost n = ucast (of_nat n :: u32)"

section \<open>Arithmetic\<close>

definition U64_MAX :: u64 where "U64_MAX = - 1"

text \<open>Both operands take at most one register; the result replaces the left one.\<close>

definition arith :: "string \<Rightarrow> (u64 \<Rightarrow> u64 \<Rightarrow> u64 res) \<Rightarrow> u64 \<Rightarrow> vm_value \<Rightarrow> vm_value \<Rightarrow> condition \<Rightarrow>
    (vm_value \<times> condition) res" where
  "arith msg f cost vRet v s =
     (if value_size v > 1 \<or> value_size vRet > 1 then Inl (Throw msg)
      else rbind (vm_at vRet s) (\<lambda>x.
      rbind (vm_at v s) (\<lambda>y.
      rbind (f x y) (\<lambda>z.
      rbind (deallocate v (vm_put vRet z s)) (\<lambda>s.
      rbind (add_cost cost s) (\<lambda>s. Inr (vRet, s)))))))"

definition op_add :: "u64 \<Rightarrow> u64 \<Rightarrow> u64 res" where
  "op_add x y = (if x + y < x then Inl (Throw ''OP::ADD 64-bit value overflow'') else Inr (x + y))"

definition op_sub :: "u64 \<Rightarrow> u64 \<Rightarrow> u64 res" where
  "op_sub x y = (if x - y > x then Inl (Throw ''OP::SUB 64-bit value overflow'') else Inr (x - y))"

definition op_div :: "u64 \<Rightarrow> u64 \<Rightarrow> u64 res" where
  "op_div x y = (if y = 0 then Inl (Throw ''OP::DIV cannot divide by zero'') else Inr (x div y))"

definition op_mul :: "u64 \<Rightarrow> u64 \<Rightarrow> u64 res" where
  "op_mul x y = (if y \<noteq> 0 \<and> x > U64_MAX div y then Inl (Throw ''OP::MUL 64-bit value overflow'') else Inr (x * y))"

definition op_mod :: "u64 \<Rightarrow> u64 \<Rightarrow> u64 res" where
  "op_mod x y = (if y = 0 then Inl (Throw ''OP::MOD cannot divide by zero'') else Inr (x mod y))"

lemma exp_step:
  fixes e n :: u64
  assumes "e < n"
  shows "unat (- 1 - (e + 1)) < unat (- 1 - e)"
proof -
  have "unat e < unat n" using assms by (simp add: word_less_nat_alt)
  then have l: "unat e + 1 < 2 ^ 64" using unsigned_less [of n, where ?'a = nat] by simp
  have m: "unat (- 1 :: u64) = 2 ^ 64 - 1" by (simp add: unsigned_minus_1_eq_mask mask_eq_exp_minus_1)
  have e1: "unat (e + 1) = unat e + 1" using l by (simp add: unat_word_ariths)
  have "unat (- 1 - (e + 1)) = 2 ^ 64 - 1 - (unat e + 1)" using unat_sub [of "e + 1" "- 1"] m e1 by simp
  moreover have "unat (- 1 - e) = 2 ^ 64 - 1 - unat e" using unat_sub [of e "- 1"] m by simp
  ultimately show ?thesis using l by simp
qed

text \<open>The exponent is read from its register in every round: when the left operand is the empty
  value, both are the first register.\<close>

function exp_loop :: "vm_value \<Rightarrow> vm_value \<Rightarrow> u64 \<Rightarrow> u64 \<Rightarrow> condition \<Rightarrow> condition res" where
  "exp_loop vRet vExp nBase e s =
     rbind (vm_at vExp s) (\<lambda>nExp.
     if e < nExp then
       rbind (vm_at vRet s) (\<lambda>x.
       if nBase \<noteq> 0 \<and> x > U64_MAX div nBase then Inl (Throw ''OP::EXP 64-bit value overflow'')
       else exp_loop vRet vExp nBase (e + 1) (vm_put vRet (x * nBase) s))
     else Inr s)"
  by pat_completeness auto
termination
  by (relation "measure (\<lambda>(vRet, vExp, nBase, e, s). unat (- 1 - e))") (auto simp: exp_step [simplified])

declare exp_loop.simps [simp del]

definition op_exp :: "vm_value \<Rightarrow> vm_value \<Rightarrow> condition \<Rightarrow> (vm_value \<times> condition) res" where
  "op_exp vRet vExp s =
     (if value_size vExp > 1 \<or> value_size vRet > 1 then Inl (Throw ''OP::EXP computation greater than 64-bits'')
      else rbind (vm_at vExp s) (\<lambda>nExp.
      rbind (vm_at vRet s) (\<lambda>_.
      let s = (if nExp = 0 then vm_put vRet 1 s else s) in
      rbind (vm_at vRet s) (\<lambda>nBase.
      rbind (exp_loop vRet vExp nBase 1 s) (\<lambda>s.
      rbind (deallocate vExp s) (\<lambda>s.
      rbind (add_cost 256 s) (\<lambda>s. Inr (vRet, s))))))))"

text \<open>The cost of a concatenation is the size, in registers, of the value that has been appended.\<close>

definition op_cat :: "vm_value \<Rightarrow> vm_value \<Rightarrow> condition \<Rightarrow> (vm_value \<times> condition) res" where
  "op_cat vRet vCat s =
     rbind (vm_bytes vRet s) (\<lambda>a.
     rbind (vm_bytes vCat s) (\<lambda>b.
     rbind (deallocate vCat s) (\<lambda>s.
     rbind (deallocate vRet s) (\<lambda>s.
     rbind (alloc_bytes (a @ b) s) (\<lambda>(v, s).
     rbind (add_cost (of_nat (value_size vCat)) s) (\<lambda>s. Inr (v, s)))))))"

definition is_binary :: "u8 \<Rightarrow> bool" where
  "is_binary nOP \<longleftrightarrow> nOP = OP_ADD \<or> nOP = OP_SUB \<or> nOP = OP_DIV \<or> nOP = OP_MUL \<or> nOP = OP_EXP \<or>
     nOP = OP_MOD \<or> nOP = OP_CAT"

definition binary_op :: "u8 \<Rightarrow> vm_value \<Rightarrow> vm_value \<Rightarrow> condition \<Rightarrow> (vm_value \<times> condition) res" where
  "binary_op nOP vRet v s =
     (if nOP = OP_ADD then arith ''OP::ADD computation greater than 64-bits'' op_add 64 vRet v s
      else if nOP = OP_SUB then arith ''OP::SUB computation greater than 64-bits'' op_sub 64 vRet v s
      else if nOP = OP_DIV then arith ''OP::DIV computation greater than 64-bits'' op_div 128 vRet v s
      else if nOP = OP_MUL then arith ''OP::MUL computation greater than 64-bits'' op_mul 128 vRet v s
      else if nOP = OP_EXP then op_exp vRet v s
      else if nOP = OP_MOD then arith ''OP::MOD computation greater than 64-bits'' op_mod 128 vRet v s
      else op_cat vRet v s)"

definition op_inc :: "vm_value \<Rightarrow> condition \<Rightarrow> (bool \<times> vm_value \<times> condition) res" where
  "op_inc vRet s =
     (if value_size vRet > 1 then Inl (Throw ''OP::INC computation greater than 64-bits'')
      else rbind (vm_at vRet s) (\<lambda>x.
      if x + 1 = 0 then Inl (Throw ''OP::INC 64-bit value overflow'')
      else rbind (add_cost 64 (vm_put vRet (x + 1) s)) (\<lambda>s. Inr (True, vRet, s))))"

definition op_dec :: "vm_value \<Rightarrow> condition \<Rightarrow> (bool \<times> vm_value \<times> condition) res" where
  "op_dec vRet s =
     (if value_size vRet > 1 then Inl (Throw ''OP::DEC computation greater than 64-bits'')
      else rbind (vm_at vRet s) (\<lambda>x.
      if x - 1 = U64_MAX then Inl (Throw ''OP::DEC 64-bit value overflow'')
      else rbind (add_cost 64 (vm_put vRet (x - 1) s)) (\<lambda>s. Inr (True, vRet, s))))"

text \<open>The bounds of the part are not checked against the size of the data.\<close>

definition op_subdata :: "vm_value \<Rightarrow> condition \<Rightarrow> (bool \<times> vm_value \<times> condition) res" where
  "op_subdata vRet s =
     rbind (cv_read cond_word s) (\<lambda>(nFirst :: u16, s).
     rbind (cv_read cond_word s) (\<lambda>(nSize :: u16, s).
     rbind (dealloc_bytes vRet s) (\<lambda>(vData, s).
     if unat nFirst + unat nSize > length vData then Inl (Undefined ''OP::SUBDATA outside the data'')
     else rbind (alloc_bytes (take (unat nSize) (drop (unat nFirst) vData)) s) (\<lambda>(v, s).
     rbind (add_cost (of_nat (length vData)) s) (\<lambda>s. Inr (True, v, s))))))"

section \<open>Literals\<close>

definition literal :: "u8 \<Rightarrow> condition \<Rightarrow> (bool \<times> vm_value \<times> condition) res" where
  "literal nOP s =
     (if nOP = 0x70 then rbind (cv_read cond_word s) (\<lambda>(n :: u8, s). push_word n 1 s)
      else if nOP = 0x71 then rbind (cv_read cond_word s) (\<lambda>(n :: u16, s). push_word n 2 s)
      else if nOP = 0x72 then rbind (cv_read cond_word s) (\<lambda>(n :: u32, s). push_word n 4 s)
      else if nOP = 0x73 then rbind (cv_read cond_word s) (\<lambda>(n :: u64, s). push_word n 8 s)
      else if nOP = 0x74 then rbind (cv_read cond_word s) (\<lambda>(n :: u256, s). push_wide n 32 s)
      else if nOP = 0x75 then rbind (cv_read cond_word s) (\<lambda>(n :: u512, s). push_wide n 64 s)
      else if nOP = 0x76 then rbind (cv_read cond_word s) (\<lambda>(n :: u1024, s). push_wide n 128 s)
      else if nOP = 0x77 then rbind (cv_read cond_string s) (\<lambda>(d, s).
        if d = [] then Inl (Throw ''OP::TYPES::STRING string is empty'')
        else push_bytes d (size_cost (length d)) s)
      else rbind (cv_read cond_vector s) (\<lambda>(d, s).
        if d = [] then Inl (Throw ''OP::TYPES::BYTES vector is empty'')
        else push_bytes d (size_cost (length d)) s))"

section \<open>Registers\<close>

text \<open>The state a register operation looks at: the register whose address is on the stack, or the
  pre-state of the caller. Nothing is found when the register does not exist.\<close>

definition register_state :: "world \<Rightarrow> vm_value \<Rightarrow> condition \<Rightarrow> (reg_state option \<times> condition) res" where
  "register_state W vRet s =
     rbind (dealloc_wide vRet s) (\<lambda>(hashRegister :: u256, s). Inr (ReadState hashRegister FLAGS_BLOCK W, s))"

definition caller_state :: "contract \<Rightarrow> reg_state res" where
  "caller_state caller =
     rbind (Contract_Reset REGISTERS caller) (\<lambda>caller.
     rbind (reg_word caller) (\<lambda>(nState :: u8, caller).
     rbind (reg_read_state caller) (\<lambda>(state, caller). Inr state)))"

text \<open>What is charged for the state, and the part of it that is pushed. The data of a pre-state
  doubles the costs so far instead of adding its size.\<close>

definition state_cost :: "u8 \<Rightarrow> reg_state \<Rightarrow> condition \<Rightarrow> condition res" where
  "state_cost nOP st s =
     (if nOP = 0xb0 \<or> nOP = 0xb1 then add_cost 5004 s
      else if nOP = 0xb2 then add_cost 4128 s
      else if nOP = 0xb3 then add_cost 4097 s
      else if nOP = 0xb4 then add_cost (ucast (4096 + of_nat (length (GetState st)) :: u32)) s
      else if nOP = 0xb5 then add_cost 4096 s
      else if nOP = 0xc4 \<or> nOP = 0xc5 then add_cost 8 s
      else if nOP = 0xc6 then add_cost 32 s
      else if nOP = 0xc7 then add_cost 1 s
      else if nOP = 0xc8 then
        rbind (add_cost (size_cost (length (GetState st))) s) (\<lambda>_. Inr (s\<lparr>cvCost := cvCost s + cvCost s\<rparr>))
      else Inr s)"

text \<open>\<open>if(!f()) return false\<close>: an exception passes through.\<close>

definition or_false :: "vm_value \<Rightarrow> condition \<Rightarrow> 'a res \<Rightarrow> ('a \<Rightarrow> (bool \<times> vm_value \<times> condition) res) \<Rightarrow>
    (bool \<times> vm_value \<times> condition) res" where
  "or_false v s r k = (case r of Inr x \<Rightarrow> k x | Inl (Reject _) \<Rightarrow> Inr (False, v, s) | Inl e \<Rightarrow> Inl e)"

definition push_field :: "byte list \<Rightarrow> object \<Rightarrow> u8 \<Rightarrow> vm_value \<Rightarrow> condition \<Rightarrow> (bool \<times> vm_value \<times> condition) res" where
  "push_field n ob t v s =
     (if t = TYPES_UINT8_T then or_false v s (Object_Read n ob) (\<lambda>x :: u8. push_word x 1 s)
      else if t = TYPES_UINT16_T then or_false v s (Object_Read n ob) (\<lambda>x :: u16. push_word x 2 s)
      else if t = TYPES_UINT32_T then or_false v s (Object_Read n ob) (\<lambda>x :: u32. push_word x 4 s)
      else if t = TYPES_UINT64_T then or_false v s (Object_Read n ob) (\<lambda>x :: u64. push_word x 8 s)
      else if t = TYPES_UINT256_T then or_false v s (Object_Read n ob) (\<lambda>x :: u256. push_wide x 32 s)
      else if t = TYPES_UINT512_T then or_false v s (Object_Read n ob) (\<lambda>x :: u512. push_wide x 64 s)
      else if t = TYPES_UINT1024_T then or_false v s (Object_Read n ob) (\<lambda>x :: u1024. push_wide x 128 s)
      else if t = TYPES_STRING then or_false v s (Object_ReadString n ob) (\<lambda>d. push_bytes d (size_cost (length d)) s)
      else if t = TYPES_BYTES then or_false v s (Object_ReadBytes n ob) (\<lambda>d. push_bytes d (size_cost (length d)) s)
      else Inr (False, v, s))"

definition field_value :: "reg_state \<Rightarrow> vm_value \<Rightarrow> condition \<Rightarrow> (bool \<times> vm_value \<times> condition) res" where
  "field_value st v s =
     rbind (cv_read cond_string s) (\<lambda>(strValue, s).
     if nType st \<noteq> REGISTER_OBJECT then Inr (False, v, s)
     else or_false v s (Object_Parse (Object_of st)) (\<lambda>ob.
     or_false v s (Object_Type strValue ob) (\<lambda>t. push_field strValue ob t v s)))"

definition state_part :: "u8 \<Rightarrow> reg_state \<Rightarrow> vm_value \<Rightarrow> condition \<Rightarrow> (bool \<times> vm_value \<times> condition) res" where
  "state_part nOP st v s =
     (if nOP = 0xb1 \<or> nOP = 0xc5 then rbind (alloc_word (nModified st) s) (\<lambda>(v, s). Inr (True, v, s))
      else if nOP = 0xb0 \<or> nOP = 0xc4 then rbind (alloc_word (nCreated st) s) (\<lambda>(v, s). Inr (True, v, s))
      else if nOP = 0xb2 \<or> nOP = 0xc6 then rbind (alloc_wide (hashOwner st) s) (\<lambda>(v, s). Inr (True, v, s))
      else if nOP = 0xb3 \<or> nOP = 0xc7 then rbind (alloc_word (nType st) s) (\<lambda>(v, s). Inr (True, v, s))
      else if nOP = 0xb4 \<or> nOP = 0xc8 then rbind (alloc_bytes (GetState st) s) (\<lambda>(v, s). Inr (True, v, s))
      else field_value st v s)"

definition register_op :: "world \<Rightarrow> u8 \<Rightarrow> vm_value \<Rightarrow> condition \<Rightarrow> (bool \<times> vm_value \<times> condition) res" where
  "register_op W nOP v s =
     rbind (register_state W v s) (\<lambda>(r, s).
     case r of None \<Rightarrow> Inr (False, v, s)
     | Some st \<Rightarrow> rbind (state_cost nOP st s) (\<lambda>s. state_part nOP st v s))"

definition prestate_op :: "contract \<Rightarrow> u8 \<Rightarrow> vm_value \<Rightarrow> condition \<Rightarrow> (bool \<times> vm_value \<times> condition) res" where
  "prestate_op caller nOP v s =
     rbind (caller_state caller) (\<lambda>st.
     rbind (state_cost nOP st s) (\<lambda>s. state_part nOP st v s))"

section \<open>Contracts, ledger and hashes\<close>

text \<open>The operations of a contract, without the prefix of a condition or a validation. The costs so
  far are doubled instead of raised by the size.\<close>

definition operations_offset :: "byte list \<Rightarrow> nat" where
  "operations_offset d = (if d ! 0 = OP_CONDITION then 1 else if d ! 0 = OP_VALIDATE then 69 else 0)"

definition push_operations :: "byte list \<Rightarrow> vm_value \<Rightarrow> condition \<Rightarrow> (bool \<times> vm_value \<times> condition) res" where
  "push_operations d v s =
     (if length d \<le> operations_offset d then Inr (False, v, s)
      else rbind (alloc_bytes (drop (operations_offset d) d) s) (\<lambda>(v, s).
      rbind (add_cost (size_cost (length d)) s) (\<lambda>_. Inr (True, v, s\<lparr>cvCost := cvCost s + cvCost s\<rparr>))))"

definition contract_operations :: "vm_value \<Rightarrow> condition \<Rightarrow> (bool \<times> vm_value \<times> condition) res" where
  "contract_operations v s =
     (let d = sData (ssOperation (cvContract s)) in
      if d = [] then Inl (Throw ''OP::CONTRACT::OPERATIONS contract has empty operations'')
      else push_operations d v s)"

definition caller_operations :: "contract \<Rightarrow> vm_value \<Rightarrow> condition \<Rightarrow> (bool \<times> vm_value \<times> condition) res" where
  "caller_operations caller v s =
     (let d = sData (ssOperation caller) in if d = [] then Inr (False, v, s) else push_operations d v s)"

definition hash_op :: "(byte list \<Rightarrow> 'w::len word) \<Rightarrow> vm_value \<Rightarrow> condition \<Rightarrow> (bool \<times> vm_value \<times> condition) res" where
  "hash_op h v s =
     (if value_null v then Inl (Throw ''can't hash with no input'')
      else rbind (vm_bytes v s) (\<lambda>d.
      rbind (deallocate v s) (\<lambda>s. push_wide (h d) 2048 s)))"

definition is_value :: "u8 \<Rightarrow> bool" where
  "is_value nOP \<longleftrightarrow> nOP = OP_INC \<or> nOP = OP_DEC \<or> nOP = OP_SUBDATA \<or> (0x70 \<le> nOP \<and> nOP \<le> 0x78) \<or>
     (0xb0 \<le> nOP \<and> nOP \<le> 0xb5) \<or> (0xc4 \<le> nOP \<and> nOP \<le> 0xc9) \<or>
     nOP \<in> {0xc0, 0xc1, 0xc2, 0xca, 0xcb, 0xcc, 0xd0, 0xd1, 0xd2, 0xe0, 0xe1}"

definition value_op :: "env \<Rightarrow> world \<Rightarrow> contract \<Rightarrow> u8 \<Rightarrow> vm_value \<Rightarrow> condition \<Rightarrow>
    (bool \<times> vm_value \<times> condition) res" where
  "value_op E W caller nOP v s =
     (if nOP = OP_INC then op_inc v s
      else if nOP = OP_DEC then op_dec v s
      else if nOP = OP_SUBDATA then op_subdata v s
      else if 0x70 \<le> nOP \<and> nOP \<le> 0x78 then literal nOP s
      else if 0xb0 \<le> nOP \<and> nOP \<le> 0xb5 then register_op W nOP v s
      else if 0xc4 \<le> nOP \<and> nOP \<le> 0xc9 then prestate_op caller nOP v s
      else if nOP = 0xc0 then push_wide (hashCaller caller) 32 s
      else if nOP = 0xc1 then push_word (nTimestamp caller) 8 s
      else if nOP = 0xc2 then caller_operations caller v s
      else if nOP = 0xca then push_wide (hashCaller (cvContract s)) 32 s
      else if nOP = 0xcb then push_word (nTimestamp (cvContract s)) 8 s
      else if nOP = 0xcc then contract_operations v s
      else if nOP = 0xd0 then push_word (bestHeight E) 4 s
      else if nOP = 0xd1 then push_word (bestSupply E) 8 s
      else if nOP = 0xd2 then push_word (bestTime E) 8 s
      else if nOP = 0xe0 then hash_op (SK256 E) v s
      else hash_op (SK512 E) v s)"

section \<open>Values\<close>

text \<open>The loop reads one operation after the other and returns at the first byte that is none. The
  right operand of a binary operation is everything that follows it. Every round reads a byte, so
  the bytes that are left bound the rounds and the depth.\<close>

fun GetValue :: "nat \<Rightarrow> env \<Rightarrow> world \<Rightarrow> contract \<Rightarrow> vm_value \<Rightarrow> condition \<Rightarrow> (bool \<times> vm_value \<times> condition) res" where
  "GetValue 0 E W caller vRet s = Inl Diverges"
| "GetValue (Suc k) E W caller vRet s =
     (if Contract_End CONDITIONS (cvContract s) then Inr (True, vRet, s)
      else rbind (cv_read cond_word s) (\<lambda>(nOP :: u8, s).
      if is_binary nOP then
        rbind (GetValue k E W caller null_value s) (\<lambda>(ok, v, s).
        if \<not> ok then Inr (False, vRet, s)
        else rbind (binary_op nOP vRet v s) (\<lambda>(vRet, s). GetValue k E W caller vRet s))
      else if is_value nOP then
        rbind (value_op E W caller nOP vRet s) (\<lambda>(ok, vRet, s).
        if \<not> ok then Inr (False, vRet, s) else GetValue k E W caller vRet s)
      else rbind (Contract_Rewind 1 CONDITIONS (cvContract s)) (\<lambda>c. Inr (True, vRet, s\<lparr>cvContract := c\<rparr>))))"

definition script_fuel :: "condition \<Rightarrow> nat" where
  "script_fuel s = Suc (length (sData (ssCondition (cvContract s))))"

section \<open>Comparisons\<close>

definition compare_op :: "u8 \<Rightarrow> vm_value \<Rightarrow> vm_value \<Rightarrow> condition \<Rightarrow> bool res" where
  "compare_op nOP vLeft vRight s =
     (if nOP = OP_EQUALS then Inr (vm_compare vLeft vRight s = 0)
      else if nOP = OP_LESSTHAN then Inr (vm_compare vLeft vRight s < 0)
      else if nOP = OP_GREATERTHAN then Inr (vm_compare vLeft vRight s > 0)
      else if nOP = OP_LESSEQUALS then Inr (vm_compare vLeft vRight s \<le> 0)
      else if nOP = OP_GREATEREQUALS then Inr (vm_compare vLeft vRight s \<ge> 0)
      else if nOP = OP_NOTEQUALS then Inr (vm_compare vLeft vRight s \<noteq> 0)
      else vm_contains vLeft vRight s)"

definition is_compare :: "u8 \<Rightarrow> bool" where
  "is_compare nOP \<longleftrightarrow> 0x80 \<le> nOP \<and> nOP \<le> 0x86"

definition EvaluateV1 :: "env \<Rightarrow> world \<Rightarrow> contract \<Rightarrow> condition \<Rightarrow> (bool \<times> condition) res" where
  "EvaluateV1 E W caller s =
     rbind (GetValue (script_fuel s) E W caller null_value s) (\<lambda>(fLeft, vLeft, s).
     if \<not> fLeft then Inl (Throw ''failed to get l-value'')
     else rbind (cv_read cond_word s) (\<lambda>(nOP :: u8, s).
     if \<not> is_compare nOP then Inr (False, s)
     else rbind (GetValue (script_fuel s) E W caller null_value s) (\<lambda>(fRight, vRight, s).
     if \<not> fRight then Inl (Throw ''failed to get r-value'')
     else rbind (compare_op nOP vLeft vRight s) (\<lambda>fRet.
     rbind (deallocate vRight s) (\<lambda>s.
     rbind (deallocate vLeft s) (\<lambda>s. Inr (fRet, s)))))))"

text \<open>Version 2 treats a value that cannot be obtained as a comparison that is false.\<close>

definition EvaluateV2 :: "env \<Rightarrow> world \<Rightarrow> contract \<Rightarrow> condition \<Rightarrow> (bool \<times> condition) res" where
  "EvaluateV2 E W caller s =
     rbind (GetValue (script_fuel s) E W caller null_value s) (\<lambda>(fLeft, vLeft, s).
     if Contract_End CONDITIONS (cvContract s) then Inr (False, s)
     else rbind (cv_read cond_word s) (\<lambda>(nOP :: u8, s).
     if \<not> is_compare nOP then Inr (False, s)
     else rbind (GetValue (script_fuel s) E W caller null_value s) (\<lambda>(fRight, vRight, s).
     rbind (if fLeft \<and> fRight then compare_op nOP vLeft vRight s else Inr False) (\<lambda>fRet.
     rbind (if fRight then deallocate vRight s else Inr s) (\<lambda>s.
     rbind (if fLeft then deallocate vLeft s else Inr s) (\<lambda>s. Inr (fRet, s)))))))"

definition Evaluate :: "env \<Rightarrow> world \<Rightarrow> contract \<Rightarrow> condition \<Rightarrow> (bool \<times> condition) res" where
  "Evaluate E W caller s =
     (if cVersion caller = 1 then EvaluateV1 E W caller s
      else if cVersion caller = 2 then EvaluateV2 E W caller s
      else Inr (False, s))"

section \<open>Scripts\<close>

text \<open>The outcome of a comparison, or of a group, enters the group around it. The source looks at
  the group around the outermost one without a check.\<close>

definition join :: "bool \<Rightarrow> (bool \<times> u8) list \<Rightarrow> (bool \<times> u8) list res" where
  "join f st = (case st of
     [] \<Rightarrow> Inl (Undefined ''top of an empty stack'')
   | (b, nOP) # rest \<Rightarrow>
       if nOP = OP_RESERVED then Inr ((f, nOP) # rest)
       else if nOP = OP_AND then Inr ((b \<and> f, nOP) # rest)
       else if nOP = OP_OR then Inr ((b \<or> f, nOP) # rest)
       else Inl (Reject ''conditional type is unsupported''))"

definition set_logic :: "u8 \<Rightarrow> u8 \<Rightarrow> condition \<Rightarrow> condition res" where
  "set_logic nOP other s = (case cvEvaluate s of
     [] \<Rightarrow> Inl (Reject ''evaluate ungrouping count incomplete'')
   | (b, prev) # rest \<Rightarrow>
       if prev = other then Inl (Reject ''cannot mix OP::AND and OP::OR'')
       else Inr (s\<lparr>cvEvaluate := (b, nOP) # rest\<rparr>))"

definition script_step :: "env \<Rightarrow> world \<Rightarrow> contract \<Rightarrow> condition \<Rightarrow> condition res" where
  "script_step E W caller s =
     rbind (cv_read cond_word s) (\<lambda>(nOP :: u8, s).
     if nOP = OP_GROUP then add_cost 128 (s\<lparr>cvEvaluate := (False, OP_RESERVED) # cvEvaluate s\<rparr>)
     else if nOP = OP_UNGROUP then
       (case cvEvaluate s of
          [] \<Rightarrow> Inl (Reject ''malformed conditional statement'')
        | (f, _) # rest \<Rightarrow> rbind (join f rest) (\<lambda>st. Inr (s\<lparr>cvEvaluate := st\<rparr>)))
     else if nOP = OP_AND then set_logic OP_AND OP_OR s
     else if nOP = OP_OR then set_logic OP_OR OP_AND s
     else rbind (Contract_Rewind 1 CONDITIONS (cvContract s)) (\<lambda>c.
       let s = s\<lparr>cvContract := c\<rparr> in
       if cvEvaluate s = [] then Inl (Reject ''malformed conditional statement'')
       else if snd (hd (cvEvaluate s)) \<noteq> OP_RESERVED \<and> snd (hd (cvEvaluate s)) \<noteq> OP_AND \<and>
           snd (hd (cvEvaluate s)) \<noteq> OP_OR then Inl (Reject ''conditional type is unsupported'')
       else rbind (Evaluate E W caller s) (\<lambda>(f, s).
       rbind (join f (cvEvaluate s)) (\<lambda>st. Inr (s\<lparr>cvEvaluate := st\<rparr>)))))"

fun script_loop :: "nat \<Rightarrow> env \<Rightarrow> world \<Rightarrow> contract \<Rightarrow> condition \<Rightarrow> condition res" where
  "script_loop 0 E W caller s = Inl Diverges"
| "script_loop (Suc k) E W caller s =
     (if Contract_End CONDITIONS (cvContract s) then Inr s
      else rbind (script_step E W caller s) (\<lambda>s. script_loop k E W caller s))"

text \<open>The result and the costs. A malformed script is an ordinary refusal.\<close>

definition Condition_Execute :: "env \<Rightarrow> world \<Rightarrow> contract \<Rightarrow> contract \<Rightarrow> (bool \<times> u64) res" where
  "Condition_Execute E W c caller =
     rbind (Contract_Reset CONDITIONS c) (\<lambda>c.
     let s = Condition_new c 0 in
     rbind (script_loop (script_fuel s) E W caller s) (\<lambda>s.
     if length (cvEvaluate s) \<noteq> 1 then Inl (Reject ''evaluate groups count incomplete'')
     else Inr (fst (hd (cvEvaluate s)), cvCost s)))"

end
