(* ===== verification/Op_Validate.thy ===== *)
theory Op_Validate
  imports Condition_VM
begin

text \<open>
  Fulfilling conditional contracts (\<^verbatim>\<open>TAO/Operation/validate.cpp\<close>).
\<close>

abbreviation (input) TRANSFER_CLAIM :: u8 where "TRANSFER_CLAIM \<equiv> 0xfa"
abbreviation (input) TRANSFER_FORCE :: u8 where "TRANSFER_FORCE \<equiv> 0xfb"

definition CONDITION_LIMIT_FREE :: u64 where "CONDITION_LIMIT_FREE = 4096"

definition Validate_Commit :: "u512 \<Rightarrow> u32 \<Rightarrow> u256 \<Rightarrow> u8 \<Rightarrow> world \<Rightarrow> world res" where
  "Validate_Commit h nContract caller nFlags W =
     (if HasContract h nContract nFlags W then
        Inl (Reject ''OP::VALIDATE: cannot validate when already fulfilled'')
      else Inr (WriteContract h nContract caller nFlags W))"

definition validate_transfer :: "contract \<Rightarrow> contract \<Rightarrow> contract res" where
  "validate_transfer c condition =
     rbind (op_word condition) (\<lambda>(hashAddress :: u256, condition).
     rbind (op_word condition) (\<lambda>(hashTransfer :: u256, condition).
     rbind (op_word condition) (\<lambda>(t :: u8, condition).
     if t \<noteq> TRANSFER_CLAIM then Inl (Reject ''OP::VALIDATE: cannot validate on forced transfer'')
     else if cVersion c = 1 \<and> hashTransfer \<noteq> WILDCARD_ADDRESS then
       Inl (Reject ''OP::VALIDATE: cannot validate without wildcard'')
     else if \<not> Contract_End OPERATIONS condition then
       Inl (Reject ''OP::VALIDATE: can't validate with extra conditions'')
     else Inr condition)))"

definition validate_debit :: "contract \<Rightarrow> contract \<Rightarrow> contract res" where
  "validate_debit c condition =
     rbind (op_word condition) (\<lambda>(hashFrom :: u256, condition).
     rbind (op_word condition) (\<lambda>(hashTo :: u256, condition).
     rbind (op_word condition) (\<lambda>(nAmount :: u64, condition).
     rbind (op_word condition) (\<lambda>(nReference :: u64, condition).
     if cVersion c \<le> 1 \<and> hashTo \<noteq> WILDCARD_ADDRESS then
       Inl (Reject ''OP::VALIDATE: cannot validate without wildcard'')
     else if \<not> Contract_End OPERATIONS condition then
       Inl (Reject ''OP::VALIDATE: can't validate with extra conditions'')
     else Inr condition))))"

definition Validate_Verify :: "env \<Rightarrow> world \<Rightarrow> contract \<Rightarrow> contract \<Rightarrow> u64 \<Rightarrow> u64 res" where
  "Validate_Verify E W c condition nCost =
     rbind (Contract_Reset ALL_STREAMS condition) (\<lambda>condition.
     if Contract_Empty CONDITIONS condition then
       Inl (Reject ''OP::VALIDATE: cannot validate with no conditions'')
     else rbind (op_word condition) (\<lambda>(nOP :: u8, condition).
     if nOP \<noteq> OP_CONDITION then Inl (Reject ''OP::VALIDATE: incorrect condition op'')
     else rbind (op_word condition) (\<lambda>(nOP :: u8, condition).
     rbind (if nOP = OP_TRANSFER then validate_transfer c condition
            else if nOP = OP_DEBIT then validate_debit c condition
            else Inl (Reject ''invalid validate PRIMITIVE op'')) (\<lambda>condition.
     rbind (Condition_Execute E W condition c) (\<lambda>(satisfied, cost).
     if \<not> satisfied then Inl (Reject ''OP::VALIDATE: conditions not satisfied'')
     else Inr (if cost > CONDITION_LIMIT_FREE then nCost + (cost - CONDITION_LIMIT_FREE) else nCost))))))"

end
