(* ===== verification/Execute.thy ===== *)
theory Execute
  imports Op_Register Op_Finance Op_Create Op_Stake Op_Validate
begin

text \<open>
  The execution of a contract (\<^verbatim>\<open>TAO/Operation/execute.cpp\<close>): the optional condition or
  validation prefix, then exactly one primitive operation. Every primitive follows the same
  pattern: verify the rules, take the pre-state from the contract, compute the post-state,
  compare its hash with the checksum in the contract, commit. One definition per case of the
  source's switch.

  What the legacy chain says of a migrated trust key is an argument (record \<open>ext\<close>).
\<close>

section \<open>Definitions\<close>

text \<open>The score, the last coinstake and the trust key that a legacy migration transaction leads to.\<close>

record ext =
  xMigratedKey :: "u512 \<Rightarrow> (u32 \<times> u512 \<times> u576) res"

definition BuildMigrateDebit :: "ext \<Rightarrow> contract \<Rightarrow> u512 \<Rightarrow> contract res" where
  "BuildMigrateDebit X debit h =
     rbind (xMigratedKey X h) (\<lambda>(nScore, hashLast, hashTrust).
     Inr (debit\<lparr>ssOperation := stream_write (ser_word nScore @ ser_word hashLast @ ser_word hashTrust)
       (ssOperation debit)\<rparr>))"

type_synonym exec_res = "(contract \<times> world \<times> u64) res"

definition MAX_REGISTER_SIZE :: nat where
  "MAX_REGISTER_SIZE = 1024"

definition check_poststate :: "env \<Rightarrow> 'a reg_state_scheme \<Rightarrow> contract \<Rightarrow> contract res" where
  "check_poststate E s c =
     rbind (take_poststate c) (\<lambda>(nChecksum, c).
     if nChecksum \<noteq> GetHash E s then Inl (Reject ''invalid register post-state'') else Inr c)"

definition no_conditions :: "contract \<Rightarrow> unit res" where
  "no_conditions c =
     (if \<not> Contract_Empty CONDITIONS c then Inl (Reject ''conditions not allowed'') else Inr ())"

definition exec_write :: "env \<Rightarrow> u8 \<Rightarrow> contract \<Rightarrow> world \<Rightarrow> u64 \<Rightarrow> exec_res" where
  "exec_write E nFlags c W nCost =
     rbind (no_conditions c) (\<lambda>_.
     rbind (Write_Verify E c) (\<lambda>c.
     rbind (op_word c) (\<lambda>(hashAddress, c).
     rbind (op_vector c) (\<lambda>(vchData, c).
     rbind (take_prestate c) (\<lambda>(state, c).
     rbind (Write_Execute E state vchData (nTimestamp c)) (\<lambda>state.
     rbind (check_poststate E state c) (\<lambda>c.
     rbind (Write_Commit E state hashAddress nFlags W) (\<lambda>W. Inr (c, W, nCost)))))))))"

definition exec_append :: "env \<Rightarrow> u8 \<Rightarrow> contract \<Rightarrow> world \<Rightarrow> u64 \<Rightarrow> exec_res" where
  "exec_append E nFlags c W nCost =
     rbind (no_conditions c) (\<lambda>_.
     rbind (Append_Verify E c) (\<lambda>c.
     rbind (op_word c) (\<lambda>(hashAddress, c).
     rbind (op_vector c) (\<lambda>(vchData, c).
     rbind (take_prestate c) (\<lambda>(state, c).
     rbind (Append_Execute E state vchData (nTimestamp c)) (\<lambda>state.
     if length (GetState state) > MAX_REGISTER_SIZE then
       Inl (Reject ''OP::APPEND: register size out of bounds'')
     else rbind (check_poststate E state c) (\<lambda>c.
     rbind (Append_Commit E state hashAddress nFlags W) (\<lambda>W. Inr (c, W, nCost)))))))))"

definition exec_create :: "env \<Rightarrow> u8 \<Rightarrow> contract \<Rightarrow> world \<Rightarrow> u64 \<Rightarrow> exec_res" where
  "exec_create E nFlags c W nCost =
     rbind (no_conditions c) (\<lambda>_.
     rbind (Create_Verify c) (\<lambda>c.
     rbind (op_word c) (\<lambda>(hashAddress, c).
     rbind (op_word c) (\<lambda>(t, c).
     rbind (op_vector c) (\<lambda>(vchData, c).
     if length vchData > MAX_REGISTER_SIZE then
       Inl (Reject ''OP::CREATE: register size out of bounds'')
     else let state = (State_default E)\<lparr>nVersion := 1, nType := t, hashOwner := hashCaller c\<rparr> in
     rbind (Create_Execute E state vchData (nTimestamp c)) (\<lambda>state.
     rbind (check_poststate E state c) (\<lambda>c.
     rbind (Create_Commit E state hashAddress nCost nFlags W) (\<lambda>(W, nCost). Inr (c, W, nCost)))))))))"

text \<open>A transferred register is in the custody of the system until it is claimed, unless the
  transfer is forced.\<close>

definition transfer_owner :: "contract \<Rightarrow> u8 \<Rightarrow> u256 \<Rightarrow> u256" where
  "transfer_owner c t hashTransfer =
     (if t = TRANSFER_FORCE then hashTransfer
      else if cVersion c > 1 then SetType GENESIS_SYSTEM (hashCaller c)
      else 0)"

definition exec_transfer :: "env \<Rightarrow> u8 \<Rightarrow> contract \<Rightarrow> world \<Rightarrow> u64 \<Rightarrow> exec_res" where
  "exec_transfer E nFlags c W nCost =
     rbind (Transfer_Verify E c) (\<lambda>c.
     rbind (op_word c) (\<lambda>(hashAddress, c).
     rbind (op_word c) (\<lambda>(hashTransfer, c).
     rbind (op_word c) (\<lambda>(t, c).
     let hashNewOwner = transfer_owner c t hashTransfer in
     rbind (take_prestate c) (\<lambda>(state, c).
     rbind (Transfer_Execute E state hashNewOwner (nTimestamp c)) (\<lambda>state.
     rbind (check_poststate E state c) (\<lambda>c.
     rbind (Transfer_Commit E state (hashTx c) hashAddress hashTransfer nFlags W) (\<lambda>W.
     Inr (c, W, nCost)))))))))"

text \<open>The conditions of the contract that is claimed: a fulfilled validation binds the claim to
  its caller, otherwise the conditions are evaluated now.\<close>

definition claim_conditions :: "env \<Rightarrow> contract \<Rightarrow> contract \<Rightarrow> u512 \<Rightarrow> u32 \<Rightarrow> u8 \<Rightarrow> world \<Rightarrow> u64 \<Rightarrow> u64 res" where
  "claim_conditions E c prev h nContract nFlags W nCost =
     (if Contract_Empty CONDITIONS prev then Inr nCost
      else rbind (op_word prev) (\<lambda>(t, prev).
      case (if t = OP_CONDITION then ReadContract h nContract nFlags W else None) of
        Some hashValidator \<Rightarrow>
          if hashValidator \<noteq> hashCaller c then
            Inl (Reject ''caller is not authorized to claim validation'')
          else Inr nCost
      | None \<Rightarrow>
          rbind (Condition_Execute E W prev c) (\<lambda>(satisfied, cost).
          if \<not> satisfied then Inl (Reject ''conditions not satisfied'')
          else Inr (if cost > CONDITION_LIMIT_FREE then nCost + (cost - CONDITION_LIMIT_FREE) else nCost))))"

definition exec_claim :: "ext \<Rightarrow> env \<Rightarrow> u8 \<Rightarrow> contract \<Rightarrow> world \<Rightarrow> u64 \<Rightarrow> exec_res" where
  "exec_claim X E nFlags c W nCost =
     rbind (no_conditions c) (\<lambda>_.
     rbind (op_word c) (\<lambda>(h, c).
     rbind (op_word c) (\<lambda>(nContract, c).
     rbind (op_word c) (\<lambda>(hashAddress, c).
     rbind (if \<not> fClient E then
              rbind (Ledger_ReadContract E h nContract nFlags W) (\<lambda>transfer.
              rbind (Claim_Verify E c transfer) (\<lambda>transfer.
              claim_conditions E c transfer h nContract nFlags W nCost))
            else Inr nCost) (\<lambda>nCost.
     rbind (take_prestate c) (\<lambda>(state, c).
     rbind (Claim_Execute E state (hashCaller c) (nTimestamp c)) (\<lambda>state.
     rbind (check_poststate E state c) (\<lambda>c.
     rbind (Claim_Commit E state hashAddress h nContract nFlags W) (\<lambda>W. Inr (c, W, nCost))))))))))"

definition exec_coinbase :: "env \<Rightarrow> u8 \<Rightarrow> bool \<Rightarrow> contract \<Rightarrow> world \<Rightarrow> u64 \<Rightarrow> exec_res" where
  "exec_coinbase E nFlags fValidate c W nCost =
     (if fValidate then Inl (Reject ''OP::COINBASE: cannot use OP::VALIDATE with coinbase'')
      else rbind (Coinbase_Verify E c) (\<lambda>c.
      rbind (op_word c) (\<lambda>(hashGenesis, c).
      rbind (Contract_Seek 16 OPERATIONS STREAM_CURSOR c) (\<lambda>c.
      rbind (if hashCaller c \<noteq> hashGenesis then Coinbase_Commit hashGenesis (hashTx c) nFlags W
             else Inr W) (\<lambda>W. Inr (c, W, nCost))))))"

definition exec_trust :: "env \<Rightarrow> u8 \<Rightarrow> bool \<Rightarrow> contract \<Rightarrow> world \<Rightarrow> u64 \<Rightarrow> exec_res" where
  "exec_trust E nFlags fValidate c W nCost =
     (if fValidate then Inl (Reject ''OP::TRUST: cannot use OP::VALIDATE with trust'')
      else rbind (no_conditions c) (\<lambda>_.
      rbind (Trust_Verify E c) (\<lambda>c.
      rbind (Contract_Seek 64 OPERATIONS STREAM_CURSOR c) (\<lambda>c.
      rbind (op_word c) (\<lambda>(nScore, c).
      rbind (op_word c) (\<lambda>(nStakeChange, c).
      rbind (op_word c) (\<lambda>(nReward, c).
      rbind (take_prestate c) (\<lambda>(state, c).
      rbind (Trust_Execute E (Object_of state) nReward nScore nStakeChange (nTimestamp c)) (\<lambda>ob.
      rbind (check_poststate E ob c) (\<lambda>c.
      rbind (Trust_Commit E (State_of ob) nFlags W) (\<lambda>W. Inr (c, W, nCost))))))))))))"

definition exec_genesis :: "env \<Rightarrow> u8 \<Rightarrow> bool \<Rightarrow> contract \<Rightarrow> world \<Rightarrow> u64 \<Rightarrow> exec_res" where
  "exec_genesis E nFlags fValidate c W nCost =
     (if fValidate then Inl (Reject ''OP::GENESIS: cannot use OP::VALIDATE with genesis'')
      else rbind (no_conditions c) (\<lambda>_.
      rbind (Genesis_Verify E c) (\<lambda>c.
      rbind (op_word c) (\<lambda>(nReward, c).
      rbind (take_prestate c) (\<lambda>(state, c).
      rbind (Genesis_Execute E (Object_of state) nReward (nTimestamp c)) (\<lambda>ob.
      rbind (check_poststate E ob c) (\<lambda>c.
      rbind (Genesis_Commit E (State_of ob) nFlags W) (\<lambda>W. Inr (c, W, nCost)))))))))"

definition exec_trustpool :: "env \<Rightarrow> u8 \<Rightarrow> bool \<Rightarrow> contract \<Rightarrow> world \<Rightarrow> u64 \<Rightarrow> exec_res" where
  "exec_trustpool E nFlags fValidate c W nCost =
     (if fValidate then Inl (Reject ''OP::TRUSTPOOL: cannot use OP::VALIDATE with trust'')
      else rbind (no_conditions c) (\<lambda>_.
      rbind (Trustpool_Verify E c) (\<lambda>c.
      rbind (Contract_Seek 112 OPERATIONS STREAM_CURSOR c) (\<lambda>c.
      rbind (op_word c) (\<lambda>(nScore, c).
      rbind (op_word c) (\<lambda>(nStakeChange, c).
      rbind (op_word c) (\<lambda>(nReward, c).
      rbind (take_prestate c) (\<lambda>(state, c).
      rbind (Trustpool_Execute E (Object_of state) nReward nScore nStakeChange (nTimestamp c)) (\<lambda>ob.
      rbind (check_poststate E ob c) (\<lambda>c.
      rbind (Trustpool_Commit E (State_of ob) nFlags W) (\<lambda>W. Inr (c, W, nCost))))))))))))"

definition exec_genesispool :: "env \<Rightarrow> u8 \<Rightarrow> bool \<Rightarrow> contract \<Rightarrow> world \<Rightarrow> u64 \<Rightarrow> exec_res" where
  "exec_genesispool E nFlags fValidate c W nCost =
     (if fValidate then Inl (Reject ''OP::GENESISPOOL: cannot use OP::VALIDATE with genesis'')
      else rbind (no_conditions c) (\<lambda>_.
      rbind (Genesispool_Verify E c) (\<lambda>c.
      rbind (Contract_Seek 48 OPERATIONS STREAM_CURSOR c) (\<lambda>c.
      rbind (op_word c) (\<lambda>(nReward, c).
      rbind (take_prestate c) (\<lambda>(state, c).
      rbind (Genesispool_Execute E (Object_of state) nReward (nTimestamp c)) (\<lambda>ob.
      rbind (check_poststate E ob c) (\<lambda>c.
      rbind (Genesispool_Commit E (State_of ob) nFlags W) (\<lambda>W. Inr (c, W, nCost))))))))))"

definition exec_debit :: "env \<Rightarrow> u8 \<Rightarrow> contract \<Rightarrow> world \<Rightarrow> u64 \<Rightarrow> exec_res" where
  "exec_debit E nFlags c W nCost =
     rbind (Debit_Verify E c) (\<lambda>c.
     rbind (op_word c) (\<lambda>(hashFrom, c).
     rbind (op_word c) (\<lambda>(hashTo, c).
     rbind (op_word c) (\<lambda>(nAmount, c).
     rbind (op_word c) (\<lambda>(nReference :: u64, c).
     rbind (take_prestate c) (\<lambda>(state, c).
     rbind (Debit_Execute E (Object_of state) nAmount (nTimestamp c)) (\<lambda>ob.
     rbind (check_poststate E ob c) (\<lambda>c.
     rbind (Debit_Commit E ob (hashTx c) hashFrom hashTo nFlags W) (\<lambda>W. Inr (c, W, nCost))))))))))"

definition exec_credit :: "ext \<Rightarrow> env \<Rightarrow> u8 \<Rightarrow> contract \<Rightarrow> world \<Rightarrow> u64 \<Rightarrow> exec_res" where
  "exec_credit X E nFlags c W nCost =
     rbind (no_conditions c) (\<lambda>_.
     rbind (op_word c) (\<lambda>(h, c).
     rbind (op_word c) (\<lambda>(nContract, c).
     rbind (op_word c) (\<lambda>(hashAddress, c).
     rbind (op_word c) (\<lambda>(hashProof, c).
     rbind (op_word c) (\<lambda>(nAmount, c).
     rbind (if \<not> fClient E then
              rbind (Ledger_ReadContract E h nContract nFlags W) (\<lambda>debit.
              rbind (Credit_Verify c debit nFlags W) (\<lambda>(c, debit).
              rbind (claim_conditions E c debit h nContract nFlags W nCost) (\<lambda>nCost.
              Inr (c, debit, nCost))))
            else Inr (c, Contract_default E, nCost)) (\<lambda>(c, debit, nCost).
     rbind (take_prestate c) (\<lambda>(state, c).
     rbind (Credit_Execute E (Object_of state) nAmount (nTimestamp c)) (\<lambda>ob.
     rbind (check_poststate E ob c) (\<lambda>c.
     rbind (Credit_Commit E ob debit hashAddress hashProof h nContract nAmount nFlags W) (\<lambda>W.
     Inr (c, W, nCost))))))))))))"

definition exec_migrate :: "ext \<Rightarrow> env \<Rightarrow> u8 \<Rightarrow> contract \<Rightarrow> world \<Rightarrow> u64 \<Rightarrow> exec_res" where
  "exec_migrate X E nFlags c W nCost =
     rbind (no_conditions c) (\<lambda>_.
     rbind (op_word c) (\<lambda>(h, c).
     rbind (if \<not> fClient E then
              rbind (Ledger_ReadContract E h 0 FLAGS_BLOCK W) (\<lambda>debit.
              rbind (BuildMigrateDebit X debit h) (\<lambda>debit.
              rbind (Migrate_Verify E c debit W) (\<lambda>_. Inr ())))
            else Inr ()) (\<lambda>_.
     rbind (Contract_Reset ALL_STREAMS c) (\<lambda>c.
     rbind (Contract_Seek 65 OPERATIONS STREAM_CURSOR c) (\<lambda>c.
     rbind (op_word c) (\<lambda>(hashAccount, c).
     rbind (op_word c) (\<lambda>(hashTrust, c).
     rbind (op_word c) (\<lambda>(nAmount, c).
     rbind (op_word c) (\<lambda>(nScore, c).
     rbind (op_word c) (\<lambda>(hashLast, c).
     rbind (take_prestate c) (\<lambda>(state, c).
     rbind (Migrate_Execute E (Object_of state) nAmount nScore (nTimestamp c)) (\<lambda>ob.
     rbind (check_poststate E ob c) (\<lambda>c.
     rbind (Migrate_Commit E ob hashAccount (hashCaller c) h hashTrust hashLast nFlags W) (\<lambda>W.
     Inr (c, W, nCost)))))))))))))))"

definition exec_fee :: "env \<Rightarrow> u8 \<Rightarrow> contract \<Rightarrow> world \<Rightarrow> u64 \<Rightarrow> exec_res" where
  "exec_fee E nFlags c W nCost =
     rbind (no_conditions c) (\<lambda>_.
     rbind (Fee_Verify E c) (\<lambda>c.
     rbind (op_word c) (\<lambda>(hashAddress, c).
     rbind (op_word c) (\<lambda>(nFees, c).
     rbind (take_prestate c) (\<lambda>(state, c).
     rbind (Fee_Execute E (Object_of state) nFees (nTimestamp c)) (\<lambda>ob.
     rbind (check_poststate E ob c) (\<lambda>c.
     rbind (Fee_Commit E ob hashAddress nFlags W) (\<lambda>W. Inr (c, W, nCost)))))))))"

definition exec_legacy :: "env \<Rightarrow> u8 \<Rightarrow> contract \<Rightarrow> world \<Rightarrow> u64 \<Rightarrow> exec_res" where
  "exec_legacy E nFlags c W nCost =
     rbind (no_conditions c) (\<lambda>_.
     rbind (Legacy_Verify E c) (\<lambda>c.
     rbind (op_word c) (\<lambda>(hashAddress, c).
     rbind (op_word c) (\<lambda>(nAmount, c).
     rbind (take_prestate c) (\<lambda>(state, c).
     rbind (Legacy_Execute E (Object_of state) nAmount (nTimestamp c)) (\<lambda>ob.
     rbind (check_poststate E ob c) (\<lambda>c.
     rbind (Legacy_Commit E (State_of ob) hashAddress nFlags W) (\<lambda>W.
     rbind (op_vector c) (\<lambda>(script, c). Inr (c, W, nCost))))))))))"

definition exec_authorize :: "contract \<Rightarrow> world \<Rightarrow> u64 \<Rightarrow> exec_res" where
  "exec_authorize c W nCost =
     rbind (Contract_Seek 96 OPERATIONS STREAM_CURSOR c) (\<lambda>c. Inr (c, W, nCost))"

text \<open>The prefix: a condition announces that the contract waits for a validation; a validation
  fulfils the conditions of another contract.\<close>

definition exec_condition :: "contract \<Rightarrow> world \<Rightarrow> u64 \<Rightarrow> (u8 \<times> bool \<times> contract \<times> world \<times> u64) res" where
  "exec_condition c W nCost =
     rbind (op_word c) (\<lambda>(nOP, c).
     if nOP = OP_TRANSFER \<or> nOP = OP_DEBIT then Inr (nOP, False, c, W, nCost)
     else Inl (Reject ''unsupported OP for condition''))"

definition exec_validate :: "ext \<Rightarrow> env \<Rightarrow> u8 \<Rightarrow> contract \<Rightarrow> world \<Rightarrow> u64 \<Rightarrow> (u8 \<times> bool \<times> contract \<times> world \<times> u64) res" where
  "exec_validate X E nFlags c W nCost =
     rbind (op_word c) (\<lambda>(h, c).
     rbind (op_word c) (\<lambda>(nContract, c).
     rbind (if \<not> fClient E then
              rbind (Ledger_ReadContract E h nContract FLAGS_BLOCK W) (\<lambda>condition.
              Validate_Verify E W c condition nCost)
            else Inr nCost) (\<lambda>nCost.
     rbind (Validate_Commit h nContract (hashCaller c) nFlags W) (\<lambda>W.
     rbind (op_word c) (\<lambda>(nOP, c). Inr (nOP, True, c, W, nCost))))))"

definition exec_prefix :: "ext \<Rightarrow> env \<Rightarrow> u8 \<Rightarrow> contract \<Rightarrow> world \<Rightarrow> u64 \<Rightarrow> (u8 \<times> bool \<times> contract \<times> world \<times> u64) res" where
  "exec_prefix X E nFlags c W nCost =
     rbind (op_word c) (\<lambda>(nOP, c).
     if nOP = OP_CONDITION then exec_condition c W nCost
     else if nOP = OP_VALIDATE then exec_validate X E nFlags c W nCost
     else Inr (nOP, False, c, W, nCost))"

definition exec_primitive :: "ext \<Rightarrow> env \<Rightarrow> u8 \<Rightarrow> u8 \<Rightarrow> bool \<Rightarrow> contract \<Rightarrow> world \<Rightarrow> u64 \<Rightarrow> exec_res" where
  "exec_primitive X E nFlags nOP fValidate c W nCost =
     (if nOP = OP_WRITE then exec_write E nFlags c W nCost
      else if nOP = OP_APPEND then exec_append E nFlags c W nCost
      else if nOP = OP_CREATE then exec_create E nFlags c W nCost
      else if nOP = OP_TRANSFER then exec_transfer E nFlags c W nCost
      else if nOP = OP_CLAIM then exec_claim X E nFlags c W nCost
      else if nOP = OP_COINBASE then exec_coinbase E nFlags fValidate c W nCost
      else if nOP = OP_TRUST then exec_trust E nFlags fValidate c W nCost
      else if nOP = OP_GENESIS then exec_genesis E nFlags fValidate c W nCost
      else if nOP = OP_TRUSTPOOL then exec_trustpool E nFlags fValidate c W nCost
      else if nOP = OP_GENESISPOOL then exec_genesispool E nFlags fValidate c W nCost
      else if nOP = OP_DEBIT then exec_debit E nFlags c W nCost
      else if nOP = OP_CREDIT then exec_credit X E nFlags c W nCost
      else if nOP = OP_MIGRATE then exec_migrate X E nFlags c W nCost
      else if nOP = OP_FEE then exec_fee E nFlags c W nCost
      else if nOP = 0x03 then exec_authorize c W nCost
      else if nOP = OP_LEGACY then exec_legacy E nFlags c W nCost
      else Inl (Reject ''invalid code for contract execution''))"

text \<open>Exceptions are caught and reported as a refusal.\<close>

definition catch_all :: "'a res \<Rightarrow> 'a res" where
  "catch_all r = (case r of Inl (Throw _) \<Rightarrow> Inl (Reject ''exception encountered'') | _ \<Rightarrow> r)"

definition Execute :: "ext \<Rightarrow> env \<Rightarrow> contract \<Rightarrow> u8 \<Rightarrow> world \<Rightarrow> u64 \<Rightarrow> (world \<times> u64) res" where
  "Execute X E c nFlags W nCost =
     rbind (Contract_Reset ALL_STREAMS c) (\<lambda>c.
     catch_all (
       rbind (exec_prefix X E nFlags c W nCost) (\<lambda>(nOP, fValidate, c, W, nCost).
       rbind (exec_primitive X E nFlags nOP fValidate c W nCost) (\<lambda>(c, W, nCost).
       if \<not> Contract_End OPERATIONS c then
         Inl (Reject ''contract can only have one PRIMITIVE'')
       else Inr (W, nCost)))))"

section \<open>Inversion\<close>

lemma check_poststate_pos:
  "check_poststate E s c = Inr c' \<Longrightarrow> \<exists>p. c' = rpos p c"
  unfolding check_poststate_def
  by (elim rbind_pairE if_InlE) (auto dest: take_poststate_pos)

text \<open>What every execution with a recorded pre-state and post-state has in common.\<close>

lemma states_facts:
  assumes "take_prestate c1 = Inr (s, c2)" and "check_poststate E s' c2 = Inr c3"
    and "op_only c c1" and "sPos (ssRegister c) = 0"
  shows "prestate_of c = Inr s" and "nTimestamp c2 = nTimestamp c" and "hashTx c3 = hashTx c"
    and "hashCaller c2 = hashCaller c" and "hashCaller c3 = hashCaller c"
proof -
  note of = op_only_fields [OF assms(3)]
  have "prestate_of c1 = prestate_of c" by (simp add: prestate_of_def of)
  then show "prestate_of c = Inr s" "nTimestamp c2 = nTimestamp c" "hashTx c3 = hashTx c"
    "hashCaller c2 = hashCaller c" "hashCaller c3 = hashCaller c"
    using take_prestate_of [OF assms(1)] check_poststate_pos [OF assms(2)] assms(4) of by auto
qed

lemma exec_prefix_facts:
  assumes ex: "exec_prefix X E f (start c) W cost = Inr (nOP, v, c1, W1, cost1)"
    and len: "length (sData (ssOperation c)) < 2 ^ 63"
  shows "at_primitive c = Inr (nOP, c1)"
    and "ReadState a f W1 = ReadState a f W" and "wlive f W \<Longrightarrow> wlive f W1"
    and "HasProof p h n f W1 = HasProof p h n f W"
proof -
  from ex obtain nOP0 c0 where r0: "op_word (start c) = Inr (nOP0, c0)"
    and rest: "(if nOP0 = OP_CONDITION then exec_condition c0 W cost
     else if nOP0 = OP_VALIDATE then exec_validate X E f c0 W cost
     else Inr (nOP0, False, c0, W, cost)) = Inr (nOP, v, c1, W1, cost1)"
    unfolding exec_prefix_def by (elim rbind_pairE)
  note st = op_word_start [OF r0 len]
  consider (cond) "nOP0 = OP_CONDITION" | (val) "nOP0 = OP_VALIDATE"
    | (none) "nOP0 \<noteq> OP_CONDITION" "nOP0 \<noteq> OP_VALIDATE" by blast
  then have "at_primitive c = Inr (nOP, c1) \<and> ReadState a f W1 = ReadState a f W \<and>
    (wlive f W \<longrightarrow> wlive f W1) \<and> HasProof p h n f W1 = HasProof p h n f W"
  proof cases
    case cond
    with rest have "op_word c0 = Inr (nOP, c1)" "W1 = W"
      unfolding exec_condition_def by (auto elim!: rbind_pairE simp del: rbind_eq_Inr split: if_splits)
    moreover have "seek_op 1 STREAM_CURSOR (start c) = Inr c0"
      using seek_op_CURSOR [of "start c" 1] st(1,3) by (simp add: Suc_le_eq)
    ultimately show ?thesis using cond st(1,2) by (simp add: at_primitive_def SeekToPrimitive_start)
  next
    case val
    with rest obtain h n c2 c3 where r: "op_word c0 = Inr (h :: u512, c2)" "op_word c2 = Inr (n :: u32, c3)"
      "op_word c3 = Inr (nOP, c1)" and W1: "W1 = WriteContract h n (hashCaller c3) f W"
      unfolding exec_validate_def Validate_Commit_def
      by (auto elim!: rbind_pairE rbindE simp del: rbind_eq_Inr split: if_splits)
    have c3: "c3 = opos 69 (start c)" using op_word_pos [OF r(1)] op_word_pos [OF r(2)] st(3) by simp
    have "69 \<le> length (sData (ssOperation c))"
      using op_word_in [OF r(2)] len op_word_pos [OF r(1)] c3 st(3) by (simp add: opos_def start_def)
    then have "seek_op 69 STREAM_CURSOR (start c) = Inr c3"
      using seek_op_CURSOR [of "start c" 69] c3 by simp
    then show ?thesis using val st(1,2) r(3) W1 by (simp add: at_primitive_def SeekToPrimitive_start)
  next
    case none
    with rest show ?thesis using st(1,2) r0 by (simp add: at_primitive_def SeekToPrimitive_start)
  qed
  then show "at_primitive c = Inr (nOP, c1)" "ReadState a f W1 = ReadState a f W"
    "wlive f W \<Longrightarrow> wlive f W1" "HasProof p h n f W1 = HasProof p h n f W" by blast+
qed

lemma catch_all_Inr [simp]: "catch_all r = Inr x \<longleftrightarrow> r = Inr x"
  by (auto simp: catch_all_def split: sum.splits error.splits)

lemma Execute_primitive:
  assumes "Execute X E c f W cost = Inr (W', cost')" and len: "length (sData (ssOperation c)) < 2 ^ 63"
  obtains nOP v c1 c2 W1 cost1 where "at_primitive c = Inr (nOP, c1)"
    and "exec_prefix X E f (start c) W cost = Inr (nOP, v, c1, W1, cost1)"
    and "exec_primitive X E f nOP v c1 W1 cost1 = Inr (c2, W', cost')" and "Contract_End OPERATIONS c2"
proof -
  from assms(1) obtain nOP v c1 W1 cost1 c2 where
    p: "exec_prefix X E f (start c) W cost = Inr (nOP, v, c1, W1, cost1)"
    and "exec_primitive X E f nOP v c1 W1 cost1 = Inr (c2, W', cost')" "Contract_End OPERATIONS c2"
    unfolding Execute_def by auto
  then show thesis using that exec_prefix_facts(1) [OF p len] by blast
qed

end
