(* ===== verification/Execute_Laws.thy ===== *)
theory Execute_Laws
  imports Execute
begin

text \<open>
  What an accepted contract has done: for every primitive, the operands it decoded from the
  operation stream, the pre-state it took from the register stream, the computation of the
  post-state and the commit. These facts reduce the byte-level execution of
  \<open>Execute\<close> to the operations of the component theories.
\<close>

section \<open>Operands\<close>

definition debit_operands :: "contract \<Rightarrow> (u256 \<times> u256 \<times> u64) res" where
  "debit_operands c =
     rbind (op_word c) (\<lambda>(hashFrom, c). rbind (op_word c) (\<lambda>(hashTo, c).
     rbind (op_word c) (\<lambda>(nAmount, c). Inr (hashFrom, hashTo, nAmount))))"

definition fee_operands :: "contract \<Rightarrow> (u256 \<times> u64) res" where
  "fee_operands c =
     rbind (op_word c) (\<lambda>(hashAddress, c). rbind (op_word c) (\<lambda>(nFees, c). Inr (hashAddress, nFees)))"

definition write_operands :: "contract \<Rightarrow> (u256 \<times> byte list) res" where
  "write_operands c =
     rbind (op_word c) (\<lambda>(hashAddress, c). rbind (op_vector c) (\<lambda>(vchData, c). Inr (hashAddress, vchData)))"

definition transfer_operands :: "contract \<Rightarrow> (u256 \<times> u256 \<times> u8) res" where
  "transfer_operands c =
     rbind (op_word c) (\<lambda>(hashAddress, c). rbind (op_word c) (\<lambda>(hashTransfer, c).
     rbind (op_word c) (\<lambda>(t, c). Inr (hashAddress, hashTransfer, t))))"

definition claim_operands :: "contract \<Rightarrow> (u512 \<times> u32 \<times> u256) res" where
  "claim_operands c =
     rbind (op_word c) (\<lambda>(h, c). rbind (op_word c) (\<lambda>(nContract, c).
     rbind (op_word c) (\<lambda>(hashAddress, c). Inr (h, nContract, hashAddress))))"

definition credit_operands :: "contract \<Rightarrow> (u512 \<times> u32 \<times> u256 \<times> u256 \<times> u64) res" where
  "credit_operands c =
     rbind (op_word c) (\<lambda>(h, c). rbind (op_word c) (\<lambda>(nContract, c).
     rbind (op_word c) (\<lambda>(hashAddress, c). rbind (op_word c) (\<lambda>(hashProof, c).
     rbind (op_word c) (\<lambda>(nAmount, c). Inr (h, nContract, hashAddress, hashProof, nAmount))))))"

section \<open>Accepted operations\<close>

lemma exec_debit_facts:
  assumes "exec_debit E f c W cost = Inr (c', W', cost')"
    and pos: "sPos (ssOperation c) < 2 ^ 64" "sPos (ssRegister c) = 0"
  shows "\<exists>s a b n ob. authorized E c s \<and> debit_operands c = Inr (a, b, n) \<and>
    Debit_Execute E (Object_of s) n (nTimestamp c) = Inr ob \<and>
    Debit_Commit E ob (hashTx c) a b f W = Inr W'"
proof -
  from assms(1) obtain c0 a c1 b c2 n c3 ref c4 s c5 ob c6 where
    v: "Debit_Verify E c = Inr c0" and
    r: "op_word c0 = Inr (a, c1)" "op_word c1 = Inr (b, c2)" "op_word c2 = Inr (n, c3)"
      "op_word c3 = Inr (ref :: u64, c4)" and
    t: "take_prestate c4 = Inr (s, c5)" and
    e: "Debit_Execute E (Object_of s) n (nTimestamp c5) = Inr ob" and
    k: "check_poststate E ob c5 = Inr c6" and
    w: "Debit_Commit E ob (hashTx c6) a b f W = Inr W'"
    unfolding exec_debit_def by (elim rbind_pairE rbindE) simp
  have c0: "c0 = c" "\<exists>s. authorized E c s"
    using Debit_Verify_facts [OF v pos(1)] rpos_0 [OF pos(2)] by auto
  have "op_only c c4" using r [THEN op_word_pos] c0 by simp
  note sf = states_facts [OF t k this pos(2)]
  show ?thesis using c0 r e w sf by (auto simp: debit_operands_def authorized_def)
qed

lemma exec_fee_facts:
  assumes "exec_fee E f c W cost = Inr (c', W', cost')"
    and pos: "sPos (ssOperation c) < 2 ^ 64" "sPos (ssRegister c) = 0"
  shows "\<exists>s a n ob. authorized E c s \<and> fee_operands c = Inr (a, n) \<and>
    Fee_Execute E (Object_of s) n (nTimestamp c) = Inr ob \<and> Fee_Commit E ob a f W = Inr W'"
proof -
  from assms(1) obtain c0 a c1 n c2 s c3 ob c4 where
    v: "Fee_Verify E c = Inr c0" and r: "op_word c0 = Inr (a, c1)" "op_word c1 = Inr (n, c2)" and
    t: "take_prestate c2 = Inr (s, c3)" and
    e: "Fee_Execute E (Object_of s) n (nTimestamp c3) = Inr ob" and
    k: "check_poststate E ob c3 = Inr c4" and w: "Fee_Commit E ob a f W = Inr W'"
    unfolding exec_fee_def by (elim rbind_pairE rbindE) simp
  have c0: "c0 = c" "\<exists>s. authorized E c s"
    using Fee_Verify_facts [OF v pos(1)] rpos_0 [OF pos(2)] by auto
  have "op_only c c2" using r [THEN op_word_pos] c0 by simp
  note sf = states_facts [OF t k this pos(2)]
  show ?thesis using c0 r e w sf by (auto simp: fee_operands_def authorized_def)
qed

lemma exec_legacy_facts:
  assumes "exec_legacy E f c W cost = Inr (c', W', cost')"
    and pos: "sPos (ssOperation c) < 2 ^ 64" "sPos (ssRegister c) = 0"
  shows "\<exists>s a n ob. authorized E c s \<and> fee_operands c = Inr (a, n) \<and>
    Legacy_Execute E (Object_of s) n (nTimestamp c) = Inr ob \<and> Legacy_Commit E (State_of ob) a f W = Inr W'"
proof -
  from assms(1) obtain c0 a c1 n c2 s c3 ob c4 where
    v: "Legacy_Verify E c = Inr c0" and r: "op_word c0 = Inr (a, c1)" "op_word c1 = Inr (n, c2)" and
    t: "take_prestate c2 = Inr (s, c3)" and
    e: "Legacy_Execute E (Object_of s) n (nTimestamp c3) = Inr ob" and
    k: "check_poststate E ob c3 = Inr c4" and w: "Legacy_Commit E (State_of ob) a f W = Inr W'"
    unfolding exec_legacy_def by (elim rbind_pairE rbindE) simp
  have c0: "c0 = c" "\<exists>s. authorized E c s"
    using Legacy_Verify_facts [OF v pos(1)] rpos_0 [OF pos(2)] by auto
  have "op_only c c2" using r [THEN op_word_pos] c0 by simp
  note sf = states_facts [OF t k this pos(2)]
  show ?thesis using c0 r e w sf by (auto simp: fee_operands_def authorized_def)
qed

lemma exec_write_facts:
  assumes "exec_write E f c W cost = Inr (c', W', cost')"
    and pos: "sPos (ssOperation c) < 2 ^ 64" "sPos (ssRegister c) = 0"
  shows "\<exists>s a d s'. authorized E c s \<and> nType s \<noteq> REGISTER_READONLY \<and> nType s \<noteq> REGISTER_APPEND \<and>
    write_operands c = Inr (a, d) \<and> Write_Execute E s d (nTimestamp c) = Inr s' \<and>
    Write_Commit E s' a f W = Inr W'"
proof -
  from assms(1) obtain c0 a c1 d c2 s c3 s' c4 where
    v: "Write_Verify E c = Inr c0" and r: "op_word c0 = Inr (a, c1)" "op_vector c1 = Inr (d, c2)" and
    t: "take_prestate c2 = Inr (s, c3)" and e: "Write_Execute E s d (nTimestamp c3) = Inr s'" and
    k: "check_poststate E s' c3 = Inr c4" and w: "Write_Commit E s' a f W = Inr W'"
    unfolding exec_write_def by (elim rbind_pairE rbindE) simp
  have c0: "c0 = c" "\<exists>s. authorized E c s \<and> nType s \<noteq> REGISTER_READONLY \<and> nType s \<noteq> REGISTER_APPEND"
    using Write_Verify_facts [OF v pos(1)] rpos_0 [OF pos(2)] by auto
  have "op_only c c2"
    using op_word_pos [OF r(1)] c0 op_only_trans [OF _ op_vector_only [OF r(2)]] by simp
  note sf = states_facts [OF t k this pos(2)]
  show ?thesis using c0 r e w sf by (auto simp: write_operands_def authorized_def)
qed

lemma exec_append_facts:
  assumes "exec_append E f c W cost = Inr (c', W', cost')"
    and pos: "sPos (ssOperation c) < 2 ^ 64" "sPos (ssRegister c) = 0"
  shows "\<exists>s a d s'. authorized E c s \<and> (nType s = REGISTER_RAW \<or> nType s = REGISTER_APPEND) \<and>
    write_operands c = Inr (a, d) \<and> Append_Execute E s d (nTimestamp c) = Inr s' \<and>
    length (vchState s') \<le> MAX_REGISTER_SIZE \<and> Append_Commit E s' a f W = Inr W'"
proof -
  from assms(1) obtain c0 a c1 d c2 s c3 s' c4 where
    v: "Append_Verify E c = Inr c0" and r: "op_word c0 = Inr (a, c1)" "op_vector c1 = Inr (d, c2)" and
    t: "take_prestate c2 = Inr (s, c3)" and e: "Append_Execute E s d (nTimestamp c3) = Inr s'" and
    m: "\<not> length (GetState s') > MAX_REGISTER_SIZE" and
    k: "check_poststate E s' c3 = Inr c4" and w: "Append_Commit E s' a f W = Inr W'"
    unfolding exec_append_def by (elim rbind_pairE rbindE if_InlE) simp
  have c0: "c0 = c" "\<exists>s. authorized E c s \<and> (nType s = REGISTER_RAW \<or> nType s = REGISTER_APPEND)"
    using Append_Verify_facts [OF v pos(1)] rpos_0 [OF pos(2)] by auto
  have "op_only c c2"
    using op_word_pos [OF r(1)] c0 op_only_trans [OF _ op_vector_only [OF r(2)]] by simp
  note sf = states_facts [OF t k this pos(2)]
  show ?thesis using c0 r e w sf m by (auto simp: write_operands_def authorized_def GetState_def)
qed

lemma exec_transfer_facts:
  assumes "exec_transfer E f c W cost = Inr (c', W', cost')"
    and pos: "sPos (ssOperation c) < 2 ^ 64" "sPos (ssRegister c) = 0"
  shows "\<exists>s a b t s'. authorized E c s \<and> (nType s = REGISTER_OBJECT \<longrightarrow> standard_of s \<noteq> Inr OBJECTS_TRUST) \<and>
    transfer_operands c = Inr (a, b, t) \<and>
    Transfer_Execute E s (transfer_owner c t b) (nTimestamp c) = Inr s' \<and>
    Transfer_Commit E s' (hashTx c) a b f W = Inr W'"
proof -
  from assms(1) obtain c0 a c1 b c2 t c3 s c4 s' c5 where
    v: "Transfer_Verify E c = Inr c0" and
    r: "op_word c0 = Inr (a, c1)" "op_word c1 = Inr (b, c2)" "op_word c2 = Inr (t, c3)" and
    st: "take_prestate c3 = Inr (s, c4)" and
    e: "Transfer_Execute E s (transfer_owner c3 t b) (nTimestamp c4) = Inr s'" and
    k: "check_poststate E s' c4 = Inr c5" and w: "Transfer_Commit E s' (hashTx c5) a b f W = Inr W'"
    unfolding exec_transfer_def Let_def by (elim rbind_pairE rbindE) simp
  have c0: "c0 = c" "\<exists>s. authorized E c s \<and> (nType s = REGISTER_OBJECT \<longrightarrow> standard_of s \<noteq> Inr OBJECTS_TRUST)"
    using Transfer_Verify_facts [OF v pos(1)] rpos_0 [OF pos(2)] by auto
  have c3: "c3 = opos 65 c" using r [THEN op_word_pos] r(3) [THEN op_word_pos] c0 by simp
  then have "op_only c c3" by simp
  note sf = states_facts [OF st k this pos(2)]
  have "transfer_owner c3 t b = transfer_owner c t b" by (simp add: c3 transfer_owner_def)
  then show ?thesis using c0 r e w sf by (auto simp: transfer_operands_def authorized_def)
qed

lemma exec_claim_facts:
  assumes "exec_claim X E f c W cost = Inr (c', W', cost')" and pos: "sPos (ssRegister c) = 0"
  shows "\<exists>s h n a s'. prestate_of c = Inr s \<and> claim_operands c = Inr (h, n, a) \<and>
    Claim_Execute E s (hashCaller c) (nTimestamp c) = Inr s' \<and> Claim_Commit E s' a h n f W = Inr W' \<and>
    (\<not> fClient E \<longrightarrow> (\<exists>t t'. Ledger_ReadContract E h n f W = Inr t \<and> Claim_Verify E c t = Inr t'))"
proof -
  from assms(1) obtain h c1 n c2 a c3 cost1 s c4 s' c5 where
    r: "op_word c = Inr (h, c1)" "op_word c1 = Inr (n, c2)" "op_word c2 = Inr (a, c3)" and
    v: "(if \<not> fClient E then
              rbind (Ledger_ReadContract E h n f W) (\<lambda>transfer.
              rbind (Claim_Verify E c3 transfer) (\<lambda>transfer.
              claim_conditions E c3 transfer h n f W cost))
            else Inr cost) = Inr cost1" and
    t: "take_prestate c3 = Inr (s, c4)" and
    e: "Claim_Execute E s (hashCaller c4) (nTimestamp c4) = Inr s'" and
    k: "check_poststate E s' c4 = Inr c5" and w: "Claim_Commit E s' a h n f W = Inr W'"
    unfolding exec_claim_def by (elim rbind_pairE rbindE) simp
  have c3: "op_only c c3" using r [THEN op_word_pos] r(3) [THEN op_word_pos] by simp
  note sf = states_facts [OF t k c3 pos]
  have cv: "Claim_Verify E c3 t = Claim_Verify E c t" for t
    unfolding Claim_Verify_def op_only_fields [OF c3] ..
  have "\<exists>t t'. Ledger_ReadContract E h n f W = Inr t \<and> Claim_Verify E c t = Inr t'" if "\<not> fClient E"
    using v that cv by auto
  then show ?thesis using r e w sf by (auto simp: claim_operands_def)
qed

lemma exec_credit_facts:
  assumes "exec_credit X E f c W cost = Inr (c', W', cost')" and pos: "sPos (ssRegister c) = 0"
  shows "\<exists>s h n a p m ob d. prestate_of c = Inr s \<and> credit_operands c = Inr (h, n, a, p, m) \<and>
    Credit_Execute E (Object_of s) m (nTimestamp c) = Inr ob \<and>
    Credit_Commit E ob d a p h n m f W = Inr W' \<and> (\<not> fClient E \<longrightarrow> hashOwner s = hashCaller c)"
proof -
  from assms(1) obtain h c1 n c2 a c3 p c4 m c5 c6 d cost1 s c7 ob c8 where
    r: "op_word c = Inr (h, c1)" "op_word c1 = Inr (n, c2)" "op_word c2 = Inr (a, c3)"
      "op_word c3 = Inr (p, c4)" "op_word c4 = Inr (m, c5)" and
    v: "(if \<not> fClient E then
              rbind (Ledger_ReadContract E h n f W) (\<lambda>debit.
              rbind (Credit_Verify c5 debit f W) (\<lambda>(c, debit).
              rbind (claim_conditions E c debit h n f W cost) (\<lambda>nCost.
              Inr (c, debit, nCost))))
            else Inr (c5, Contract_default E, cost)) = Inr (c6, d, cost1)" and
    t: "take_prestate c6 = Inr (s, c7)" and
    e: "Credit_Execute E (Object_of s) m (nTimestamp c7) = Inr ob" and
    k: "check_poststate E ob c7 = Inr c8" and w: "Credit_Commit E ob d a p h n m f W = Inr W'"
    unfolding exec_credit_def by (auto elim!: rbind_pairE rbindE simp del: rbind_eq_Inr)
  have c5: "c5 = opos 140 c"
    using r [THEN op_word_pos] r(2-) [THEN op_word_pos] r(3-) [THEN op_word_pos] r(4-) [THEN op_word_pos]
    by simp
  have "op_only c c6 \<and> (\<not> fClient E \<longrightarrow> (\<exists>s. prestate_of c = Inr s \<and> hashOwner s = hashCaller c))"
    using v c5 pos by (auto split: if_splits dest!: Credit_Verify_facts simp: op_only_def rpos_def opos_def prestate_of_def)
  then show ?thesis using states_facts [OF t k _ pos] r e w by (auto simp: credit_operands_def)
qed

lemma exec_create_facts:
  assumes "exec_create E f c W k = Inr (c', W', k')" and pos: "sPos (ssRegister c) = 0"
  shows "\<exists>a s'. hashOwner s' = hashCaller c \<and> length (vchState s') \<le> MAX_REGISTER_SIZE \<and>
    State_IsValid E s' = Inr () \<and> (nType s' = REGISTER_OBJECT \<longrightarrow> initial_object E s' = Inr ()) \<and>
    (\<not> fClient E \<longrightarrow> \<not> HasState a f W) \<and> W' = WriteState E a s' f W"
proof -
  from assms(1) obtain c0 a c1 t c2 d c3 s' c4 where v: "Create_Verify c = Inr c0" and
    r: "op_word c0 = Inr (a, c1)" "op_word c1 = Inr (t, c2)" "op_vector c2 = Inr (d, c3)"
    and m: "\<not> length d > MAX_REGISTER_SIZE" and
    e: "Create_Execute E ((State_default E)\<lparr>nVersion := 1, nType := t, hashOwner := hashCaller c3\<rparr>) d (nTimestamp c3) = Inr s'"
    and w: "Create_Commit E s' a k f W = Inr (W', k')"
    unfolding exec_create_def Let_def by (elim rbind_pairE rbindE if_InlE) auto
  have "hashCaller c0 = hashCaller c"
    using v unfolding Create_Verify_def Contract_ReadCompactSize_def
    by (elim rbind_pairE rbindE if_InlE) (auto simp: cop_lift_def dest!: Rewind_pos op_word_pos elim!: rbind_pairE simp del: rbind_eq_Inr)
  then have h: "hashCaller c3 = hashCaller c"
    using op_only_fields(2) [OF op_vector_only [OF r(3)]] op_word_pos [OF r(1)] op_word_pos [OF r(2)] by simp
  have "hashOwner s' = hashCaller c3 \<and> vchState s' = d \<and> State_IsValid E s' = Inr ()"
    using e by (auto simp: Create_Execute_def Let_def)
  moreover have "nType s' = REGISTER_OBJECT \<longrightarrow> initial_object E s' = Inr ()"
  proof
    assume ty: "nType s' = REGISTER_OBJECT"
    define st where "st = SetState E d ((State_default E)\<lparr>nVersion := 1, nType := t, hashOwner := hashCaller c3\<rparr>)"
    have "vchState s' = vchState st" "nType s' = nType st"
      using e by (auto simp: Create_Execute_def Let_def st_def)
    moreover have "initial_object E st = Inr ()"
      using e ty by (auto simp: Create_Execute_def Let_def st_def)
    ultimately show "initial_object E s' = Inr ()" using initial_object_cong [of s' st E] by simp
  qed
  moreover have "(\<not> fClient E \<longrightarrow> \<not> HasState a f W) \<and> W' = WriteState E a s' f W"
    using w by (auto simp: Create_Commit_def)
  ultimately show ?thesis using m h by (intro exI [of _ a] exI [of _ s']) (simp add: not_less)
qed

end
