(* ===== verification/Runs.thy ===== *)
theory Runs
  imports Execute_Laws
begin

text \<open>
  Sequences of contracts. Every commit only adds to the proofs that have been used up and to
  the conditions that have been fulfilled, and a credit, a claim or a validation is accepted
  only for one that is unused: hence no debit, transfer or condition is used twice.
\<close>

section \<open>Growth\<close>

text \<open>\<open>grows f W W'\<close>: what has been claimed or validated stays claimed or validated.\<close>

definition grows :: "u8 \<Rightarrow> world \<Rightarrow> world \<Rightarrow> bool" where
  "grows f W W' \<longleftrightarrow> (wlive f W \<longrightarrow> wlive f W' \<and>
     (\<forall>p h n. HasProof p h n f W \<longrightarrow> HasProof p h n f W') \<and>
     (\<forall>h n. HasContract h n f W \<longrightarrow> HasContract h n f W'))"

lemma grows_refl [simp]: "grows f W W"
  by (simp add: grows_def)

lemma grows_trans: "grows f W W1 \<Longrightarrow> grows f W1 W2 \<Longrightarrow> grows f W W2"
  by (simp add: grows_def)

lemma HasContract_more [simp]:
  "HasContract h n f (WriteStake b h' W) = HasContract h n f W"
  "HasContract h n f (IndexTrust b r W) = HasContract h n f W"
  by (simp_all add: world_ops)

lemma grows_ops [simp]:
  "grows f W (WriteState E a s f W)" "grows f W (WriteProof p h n f W)"
  "grows f W (WriteClaimed h n m f W)" "grows f W (WriteEvent b h W)"
  "grows f W (WriteContract h n u f W)" "grows f W (WriteStake b h W)" "grows f W (IndexTrust b r W)"
  by (simp_all add: grows_def HasProof_WriteProof HasContract_WriteContract)

lemma grows_conversion [simp]: "grows f W (WriteTrustConversion k W)"
  by (simp add: grows_def WriteTrustConversion_def wlive_def HasProof_def HasContract_def)

lemma grows_WriteTrust:
  assumes "WriteTrust E g s W = Inr W'"
  shows "grows FLAGS_BLOCK W W'"
proof -
  from assms obtain r d where "W' = WriteState E r s FLAGS_BLOCK (W\<lparr>wRegister := (wRegister W)\<lparr>rStates := d\<rparr>\<rparr>)"
    unfolding WriteTrust_def by (elim rbindE) (auto simp: Let_def)
  moreover have "grows FLAGS_BLOCK W (W\<lparr>wRegister := (wRegister W)\<lparr>rStates := d\<rparr>\<rparr>)"
    by (simp add: grows_def wlive_def HasProof_def HasContract_def live_def)
  ultimately show ?thesis using grows_trans grows_ops(1) by blast
qed

lemmas grows_two = grows_trans [OF grows_ops(4) grows_ops(1)] grows_trans [OF grows_ops(2) grows_ops(1)]

section \<open>Commits\<close>

lemma Write_Commit_grows: "Write_Commit E s a f W = Inr W' \<Longrightarrow> grows f W W'"
  by (auto simp: Write_Commit_def grows_ops)

lemma Append_Commit_grows: "Append_Commit E s a f W = Inr W' \<Longrightarrow> grows f W W'"
  by (auto simp: Append_Commit_def grows_ops)

lemma Create_Commit_grows: "Create_Commit E s a n f W = Inr (W', m) \<Longrightarrow> grows f W W'"
  by (auto simp: Create_Commit_def grows_ops)

lemma Transfer_Commit_grows: "Transfer_Commit E s h a t f W = Inr W' \<Longrightarrow> grows f W W'"
  by (auto simp: Transfer_Commit_def Let_def intro: grows_two)

lemma Claim_Commit_grows: "Claim_Commit E s a h n f W = Inr W' \<Longrightarrow> grows f W W'"
  by (auto simp: Claim_Commit_def Let_def intro: grows_two)

lemma Coinbase_Commit_grows: "Coinbase_Commit a h f W = Inr W' \<Longrightarrow> grows f W W'"
  by (auto simp: Coinbase_Commit_def)

lemma Trust_Commit_grows: "Trust_Commit E s f W = Inr W' \<Longrightarrow> grows f W W'"
  by (auto simp: Trust_Commit_def intro: grows_WriteTrust)

lemma Genesis_Commit_grows: "Genesis_Commit E s f W = Inr W' \<Longrightarrow> grows f W W'"
  by (auto simp: Genesis_Commit_def intro: grows_trans [OF grows_WriteTrust])

lemma Debit_Commit_grows: "Debit_Commit E ob h a b f W = Inr W' \<Longrightarrow> grows f W W'"
  by (auto simp: Debit_Commit_def intro: grows_two split: option.splits if_splits)

lemma Fee_Commit_grows: "Fee_Commit E ob a f W = Inr W' \<Longrightarrow> grows f W W'"
  by (auto simp: Fee_Commit_def grows_ops)

lemma Legacy_Commit_grows: "Legacy_Commit E s a f W = Inr W' \<Longrightarrow> grows f W W'"
  by (auto simp: Legacy_Commit_def grows_ops)

lemma credit_claimed_grows: "credit_claimed d h n m f W = Inr W' \<Longrightarrow> grows f W W'"
  unfolding credit_claimed_def Let_def
  by (auto elim!: rbind_pairE rbindE simp del: rbind_eq_Inr split: if_splits)

lemma Credit_Commit_grows: "Credit_Commit E ob d a p h n m f W = Inr W' \<Longrightarrow> grows f W W'"
  unfolding Credit_Commit_def Let_def
  by (auto split: if_splits intro: grows_two
      grows_trans [OF grows_trans [OF grows_ops(2) credit_claimed_grows] grows_ops(1)])

lemma Migrate_Commit_grows: "Migrate_Commit E ob a u h k l f W = Inr W' \<Longrightarrow> grows f W W'"
  unfolding Migrate_Commit_def Let_def
  by (auto split: if_splits intro!: grows_trans [OF _ grows_conversion] grows_trans [OF _ grows_ops(6)]
      grows_trans [OF _ grows_ops(7)] grows_trans [OF grows_ops(2) grows_ops(1)])

lemmas commit_grows = Write_Commit_grows Append_Commit_grows Create_Commit_grows
  Transfer_Commit_grows Claim_Commit_grows Coinbase_Commit_grows Trust_Commit_grows
  Genesis_Commit_grows Trust_Commit_grows [folded Trustpool_Commit_def]
  Genesis_Commit_grows [folded Genesispool_Commit_def] Debit_Commit_grows Fee_Commit_grows
  Legacy_Commit_grows Credit_Commit_grows Migrate_Commit_grows

lemma exec_write_grows: "exec_write E f c W n = Inr (c', W', n') \<Longrightarrow> grows f W W'"
  unfolding exec_write_def Let_def by (elim rbind_pairE rbindE if_InlE) (auto dest: commit_grows)

lemma exec_append_grows: "exec_append E f c W n = Inr (c', W', n') \<Longrightarrow> grows f W W'"
  unfolding exec_append_def Let_def by (elim rbind_pairE rbindE if_InlE) (auto dest: commit_grows)

lemma exec_create_grows: "exec_create E f c W n = Inr (c', W', n') \<Longrightarrow> grows f W W'"
  unfolding exec_create_def Let_def by (elim rbind_pairE rbindE if_InlE) (auto dest: commit_grows)

lemma exec_transfer_grows: "exec_transfer E f c W n = Inr (c', W', n') \<Longrightarrow> grows f W W'"
  unfolding exec_transfer_def Let_def by (elim rbind_pairE rbindE if_InlE) (auto dest: commit_grows)

lemma exec_claim_grows: "exec_claim X E f c W n = Inr (c', W', n') \<Longrightarrow> grows f W W'"
  unfolding exec_claim_def Let_def by (elim rbind_pairE rbindE if_InlE) (auto dest: commit_grows)

lemma exec_coinbase_grows: "exec_coinbase E f v c W n = Inr (c', W', n') \<Longrightarrow> grows f W W'"
  unfolding exec_coinbase_def
  by (elim rbind_pairE rbindE if_InlE) (auto dest: commit_grows split: if_splits)

lemma exec_trust_grows: "exec_trust E f v c W n = Inr (c', W', n') \<Longrightarrow> grows f W W'"
  unfolding exec_trust_def Let_def by (elim rbind_pairE rbindE if_InlE) (auto dest: commit_grows)

lemma exec_genesis_grows: "exec_genesis E f v c W n = Inr (c', W', n') \<Longrightarrow> grows f W W'"
  unfolding exec_genesis_def Let_def by (elim rbind_pairE rbindE if_InlE) (auto dest: commit_grows)

lemma exec_trustpool_grows: "exec_trustpool E f v c W n = Inr (c', W', n') \<Longrightarrow> grows f W W'"
  unfolding exec_trustpool_def Let_def by (elim rbind_pairE rbindE if_InlE) (auto dest: commit_grows)

lemma exec_genesispool_grows: "exec_genesispool E f v c W n = Inr (c', W', n') \<Longrightarrow> grows f W W'"
  unfolding exec_genesispool_def Let_def by (elim rbind_pairE rbindE if_InlE) (auto dest: commit_grows)

lemma exec_debit_grows: "exec_debit E f c W n = Inr (c', W', n') \<Longrightarrow> grows f W W'"
  unfolding exec_debit_def Let_def by (elim rbind_pairE rbindE if_InlE) (auto dest: commit_grows)

lemma exec_credit_grows: "exec_credit X E f c W n = Inr (c', W', n') \<Longrightarrow> grows f W W'"
  unfolding exec_credit_def Let_def by (elim rbind_pairE rbindE if_InlE) (auto dest: commit_grows)

lemma exec_migrate_grows: "exec_migrate X E f c W n = Inr (c', W', n') \<Longrightarrow> grows f W W'"
  unfolding exec_migrate_def Let_def by (elim rbind_pairE rbindE if_InlE) (auto dest: commit_grows)

lemma exec_fee_grows: "exec_fee E f c W n = Inr (c', W', n') \<Longrightarrow> grows f W W'"
  unfolding exec_fee_def Let_def by (elim rbind_pairE rbindE if_InlE) (auto dest: commit_grows)

lemma exec_legacy_grows: "exec_legacy E f c W n = Inr (c', W', n') \<Longrightarrow> grows f W W'"
  unfolding exec_legacy_def Let_def by (elim rbind_pairE rbindE if_InlE) (auto dest: commit_grows)

lemmas exec_grows = exec_write_grows exec_append_grows exec_create_grows exec_transfer_grows exec_claim_grows exec_coinbase_grows exec_trust_grows exec_genesis_grows exec_trustpool_grows exec_genesispool_grows exec_debit_grows exec_credit_grows exec_migrate_grows exec_fee_grows exec_legacy_grows

lemma exec_primitive_grows:
  assumes "exec_primitive X E f nOP v c W cost = Inr (c', W', cost')"
  shows "grows f W W'"
  using assms unfolding exec_primitive_def
  by (auto split: if_splits dest: exec_grows simp: exec_authorize_def)

lemma exec_prefix_grows:
  assumes "exec_prefix X E f c W n = Inr (nOP, v, c', W', n')"
  shows "grows f W W'"
  using assms unfolding exec_prefix_def exec_condition_def exec_validate_def Validate_Commit_def
  by (auto elim!: rbind_pairE rbindE simp del: rbind_eq_Inr split: if_splits)

lemma Execute_grows: "Execute X E c f W n = Inr (W', n') \<Longrightarrow> grows f W W'"
  unfolding Execute_def Reset_ALL rbind_Inr catch_all_Inr
  by (auto dest!: exec_prefix_grows exec_primitive_grows intro: grows_trans)

section \<open>What a contract claims\<close>

text \<open>The proof a credit or a claim uses up, and the conditions a validation fulfils.\<close>

definition proof_key :: "contract \<Rightarrow> (u256 \<times> u512 \<times> u32) option" where
  "proof_key c = (case at_primitive c of
     Inl _ \<Rightarrow> None
   | Inr (nOP, c1) \<Rightarrow>
       if nOP = OP_CREDIT then
         (case credit_operands c1 of Inl _ \<Rightarrow> None | Inr (h, n, _, p, _) \<Rightarrow> Some (p, h, n))
       else if nOP = OP_CLAIM then
         (case claim_operands c1 of Inl _ \<Rightarrow> None | Inr (h, n, a) \<Rightarrow> Some (a, h, n))
       else None)"

lemma Execute_at:
  assumes ex: "Execute X E c f W n = Inr (W', n')" and len: "length (sData (ssOperation c)) < 2 ^ 63"
    and at: "at_primitive c = Inr (nOP, c1)" and w: "wlive f W"
  shows "\<exists>v c2 W1 n1. exec_primitive X E f nOP v c1 W1 n1 = Inr (c2, W', n') \<and>
    sPos (ssOperation c1) < 2 ^ 64 \<and> sPos (ssRegister c1) = 0 \<and> op_only (start c) c1 \<and> wlive f W1 \<and>
    (\<forall>a. ReadState a f W1 = ReadState a f W) \<and> (\<forall>p h k. HasProof p h k f W1 = HasProof p h k f W)"
proof -
  obtain nOP' v c1' c2 W1 n1 where "at_primitive c = Inr (nOP', c1')" and
    "exec_prefix X E f (start c) W n = Inr (nOP', v, c1', W1, n1)"
    "exec_primitive X E f nOP' v c1' W1 n1 = Inr (c2, W', n')" by (rule Execute_primitive [OF ex len])
  then have p: "exec_prefix X E f (start c) W n = Inr (nOP, v, c1, W1, n1)"
    and q: "exec_primitive X E f nOP v c1 W1 n1 = Inr (c2, W', n')" using at by auto
  obtain k where k: "c1 = opos k (start c)" using at_primitive_pos [OF at len] by auto
  show ?thesis
    using q exec_prefix_facts [OF p len] at_primitive_pos(2) [OF at len] k w by auto
qed

lemma op_only_start:
  assumes "op_only (start c) c1"
  shows "prestate_of c1 = prestate_of c" "hashCaller c1 = hashCaller c" "nTimestamp c1 = nTimestamp c"
    "hashTx c1 = hashTx c" "authorized E c1 = authorized E c" "transfer_owner c1 = transfer_owner c"
  using op_only_fields [OF assms]
  by (simp_all add: prestate_of_def authorized_def transfer_owner_def fun_eq_iff)

text \<open>The primitive of an accepted contract has been executed, in a world that differs from the
  given one at most by a fulfilled condition.\<close>

lemma Execute_op:
  assumes "Execute X E c f W k = Inr (W', k')" and "at_primitive c = Inr (nOP, c1)"
    and "wlive f W" and "length (sData (ssOperation c)) < 2 ^ 63"
  obtains v c2 W1 k1 where "exec_primitive X E f nOP v c1 W1 k1 = Inr (c2, W', k')"
    and "sPos (ssOperation c1) < 2 ^ 64" and "sPos (ssRegister c1) = 0" and "wlive f W1"
    and "\<forall>a. ReadState a f W1 = ReadState a f W" and "\<forall>p h n. HasProof p h n f W1 = HasProof p h n f W"
    and "prestate_of c1 = prestate_of c" and "hashCaller c1 = hashCaller c" and "nTimestamp c1 = nTimestamp c"
    and "hashTx c1 = hashTx c" and "authorized E c1 = authorized E c" and "transfer_owner c1 = transfer_owner c"
proof -
  from Execute_at [OF assms(1,4,2,3)] obtain v c2 W1 k1 where
    "exec_primitive X E f nOP v c1 W1 k1 = Inr (c2, W', k')"
    "sPos (ssOperation c1) < 2 ^ 64" "sPos (ssRegister c1) = 0" "op_only (start c) c1"
    "wlive f W1" "\<forall>a. ReadState a f W1 = ReadState a f W" "\<forall>p h n. HasProof p h n f W1 = HasProof p h n f W"
    by blast
  then show thesis using op_only_start [of c c1] by (intro that) auto
qed

lemma Credit_Commit_facts:
  assumes "Credit_Commit E ob d a p h n m f W = Inr W'" and "wlive f W"
  shows "\<not> HasProof p h n f W" and "HasProof p h n f W'"
    and "ReadState x f W' = (if x = a then Some (State_of ob) else ReadState x f W)"
proof -
  define W1 where "W1 = WriteProof p h n f W"
  have w1: "wlive f W1" using assms(2) by (simp add: W1_def)
  from assms(1) obtain W2 where np: "\<not> HasProof p h n f W"
    and c: "(if \<not> fClient E then credit_claimed d h n m f W1 else Inr W1) = Inr W2"
    and W': "W' = WriteState E a (State_of ob) f W2"
    unfolding Credit_Commit_def Let_def W1_def by (elim rbindE if_InlE) simp
  have "W2 = W1 \<or> (\<exists>k. W2 = WriteClaimed h n k f W1)"
    using c unfolding credit_claimed_def Let_def by (auto split: if_splits)
  then have "wlive f W2 \<and> HasProof p h n f W2 \<and> ReadState x f W2 = ReadState x f W"
    using w1 assms(2) by (auto simp: W1_def HasProof_WriteProof)
  then show "\<not> HasProof p h n f W" "HasProof p h n f W'"
    "ReadState x f W' = (if x = a then Some (State_of ob) else ReadState x f W)"
    using np by (simp_all add: W' ReadState_WriteState)
qed

lemma Execute_proof_key:
  assumes ex: "Execute X E c f W n = Inr (W', n')" and len: "length (sData (ssOperation c)) < 2 ^ 63"
    and k: "proof_key c = Some (p, h, m)" and w: "wlive f W"
  shows "\<not> HasProof p h m f W" and "HasProof p h m f W'"
proof -
  from k obtain nOP c1 where at: "at_primitive c = Inr (nOP, c1)"
    by (auto simp: proof_key_def split: sum.splits)
  from Execute_at [OF ex len at w] obtain v c2 W1 n1 where
    e: "exec_primitive X E f nOP v c1 W1 n1 = Inr (c2, W', n')" and pos: "sPos (ssRegister c1) = 0"
    and w1: "wlive f W1" and same: "\<forall>p h k. HasProof p h k f W1 = HasProof p h k f W" by blast
  consider (credit) "nOP = OP_CREDIT" | (claim) "nOP = OP_CLAIM"
    using k at by (auto simp: proof_key_def split: if_splits)
  then have "\<not> HasProof p h m f W1 \<and> HasProof p h m f W'"
  proof cases
    case credit
    with e have "exec_credit X E f c1 W1 n1 = Inr (c2, W', n')" by (simp add: exec_primitive_def)
    from exec_credit_facts [OF this pos] obtain h' n' a p' m' ob d where
      o: "credit_operands c1 = Inr (h', n', a, p', m')"
      and cm: "Credit_Commit E ob d a p' h' n' m' f W1 = Inr W'" by blast
    have "p' = p" "h' = h" "n' = m" using k at credit o by (auto simp: proof_key_def)
    with cm show ?thesis using Credit_Commit_facts(1,2) [OF cm w1] by simp
  next
    case claim
    with e have "exec_claim X E f c1 W1 n1 = Inr (c2, W', n')" by (simp add: exec_primitive_def)
    from exec_claim_facts [OF this pos] obtain h' n' a s' where
      o: "claim_operands c1 = Inr (h', n', a)" and cm: "Claim_Commit E s' a h' n' f W1 = Inr W'" by blast
    have "a = p" "h' = h" "n' = m" using k at claim o by (auto simp: proof_key_def)
    with cm show ?thesis using w1 by (auto simp: Claim_Commit_def Let_def HasProof_WriteProof)
  qed
  then show "\<not> HasProof p h m f W" and "HasProof p h m f W'" by (simp_all add: same)
qed

text \<open>The same for the conditions of another contract, which a validation fulfils.\<close>

definition validate_key :: "contract \<Rightarrow> (u512 \<times> u32) option" where
  "validate_key c = (case op_word (start c) of
     Inl _ \<Rightarrow> None
   | Inr (nOP, c0) \<Rightarrow>
       if nOP = OP_VALIDATE then
         (case rbind (op_word c0) (\<lambda>(h, c0). rbind (op_word c0) (\<lambda>(n, c0). Inr (h, n))) of
            Inl _ \<Rightarrow> None | Inr k \<Rightarrow> Some k)
       else None)"

lemma Execute_validate_key:
  assumes "Execute X E c f W n = Inr (W', n')" and k: "validate_key c = Some (h, m)" and w: "wlive f W"
  shows "\<not> HasContract h m f W" and "HasContract h m f W'"
proof -
  from k obtain c0 c1 c2 where c0: "op_word (start c) = Inr (OP_VALIDATE, c0)"
    and r: "op_word c0 = Inr (h, c1)" "op_word c1 = Inr (m, c2)"
    by (auto simp: validate_key_def split: sum.splits if_splits)
  from assms(1) obtain nOP v c3 W1 n1 c4 where
    p: "exec_prefix X E f (start c) W n = Inr (nOP, v, c3, W1, n1)"
    and e: "exec_primitive X E f nOP v c3 W1 n1 = Inr (c4, W', n')" unfolding Execute_def by auto
  from p c0 have "exec_validate X E f c0 W n = Inr (nOP, v, c3, W1, n1)" by (simp add: exec_prefix_def)
  with r have "Validate_Commit h m (hashCaller c2) f W = Inr W1"
    unfolding exec_validate_def by auto
  then have "\<not> HasContract h m f W" "HasContract h m f W1" using w
    by (auto simp: Validate_Commit_def HasContract_WriteContract)
  then show "\<not> HasContract h m f W" "HasContract h m f W'"
    using exec_primitive_grows [OF e] exec_prefix_grows [OF p] w by (auto simp: grows_def)
qed

section \<open>Runs\<close>

text \<open>Items executed one after the other, each of them accepted. The interface of what can be
  used up: a step that carries a key is accepted only when the key is unused, and leaves it
  used; no step frees a key. Then the keys of a run are pairwise different.\<close>

inductive run :: "('c \<Rightarrow> 's \<Rightarrow> 's \<Rightarrow> bool) \<Rightarrow> 's \<Rightarrow> 'c list \<Rightarrow> 's \<Rightarrow> bool" for step where
  run_nil: "run step W [] W"
| run_cons: "step c W W1 \<Longrightarrow> run step W1 cs W' \<Longrightarrow> run step W (c # cs) W'"

inductive_cases run_nilE: "run step W [] W'"
inductive_cases run_consE: "run step W (c # cs) W'"

locale consumable =
  fixes step :: "'c \<Rightarrow> 's \<Rightarrow> 's \<Rightarrow> bool" and ok :: "'s \<Rightarrow> bool"
    and used :: "'k \<Rightarrow> 's \<Rightarrow> bool" and key :: "'c \<Rightarrow> 'k option"
  assumes step_ok: "step c W W' \<Longrightarrow> ok W \<Longrightarrow> ok W'"
    and step_mono: "step c W W' \<Longrightarrow> ok W \<Longrightarrow> used k W \<Longrightarrow> used k W'"
    and step_fresh: "step c W W' \<Longrightarrow> ok W \<Longrightarrow> key c = Some k \<Longrightarrow> \<not> used k W"
    and step_uses: "step c W W' \<Longrightarrow> ok W \<Longrightarrow> key c = Some k \<Longrightarrow> used k W'"
begin

lemma run_mono:
  assumes "run step W cs W'" and "ok W"
  shows "ok W' \<and> (\<forall>k. used k W \<longrightarrow> used k W')"
  using assms by (induction rule: run.induct) (auto dest: step_ok step_mono)

lemma run_uses:
  assumes "run step W cs W'" and "ok W" and "k \<in> set (List.map_filter key cs)"
  shows "used k W'"
  using assms
proof (induction rule: run.induct)
  case (run_cons c W W1 cs W')
  note m = run_mono [OF run_cons.hyps(2) step_ok [OF run_cons.hyps(1) run_cons.prems(1)]]
  from run_cons show ?case using m step_uses [OF run_cons.hyps(1)] step_ok [OF run_cons.hyps(1)]
    by (auto simp: List.map_filter_simps split: option.splits)
qed (simp add: List.map_filter_simps)

lemma run_distinct:
  assumes "run step W cs W'" and "ok W"
  shows "distinct (List.map_filter key cs) \<and> (\<forall>k\<in>set (List.map_filter key cs). \<not> used k W)"
  using assms
proof (induction rule: run.induct)
  case (run_cons c W W1 cs W')
  have ih: "distinct (List.map_filter key cs)" "\<forall>k\<in>set (List.map_filter key cs). \<not> used k W1"
    using run_cons step_ok by blast+
  have "\<forall>k\<in>set (List.map_filter key cs). \<not> used k W"
    using ih(2) step_mono [OF run_cons.hyps(1) run_cons.prems] by blast
  then show ?case using ih step_fresh [OF run_cons.hyps(1)] step_uses [OF run_cons.hyps(1)] run_cons.prems
    by (auto simp: List.map_filter_simps split: option.splits)
qed (simp add: List.map_filter_simps)

end

text \<open>A contract is accepted. Its operation stream is shorter than half the range of the stream
  position, as every stream in memory is.\<close>

definition accepts :: "ext \<Rightarrow> env \<Rightarrow> u8 \<Rightarrow> contract \<Rightarrow> world \<Rightarrow> world \<Rightarrow> bool" where
  "accepts X E f c W W' \<longleftrightarrow> length (sData (ssOperation c)) < 2 ^ 63 \<and>
     (\<exists>n n'. Execute X E c f W n = Inr (W', n'))"

definition proof_used :: "u8 \<Rightarrow> u256 \<times> u512 \<times> u32 \<Rightarrow> world \<Rightarrow> bool" where
  "proof_used f k W \<longleftrightarrow> (case k of (p, h, n) \<Rightarrow> HasProof p h n f W)"

definition validated :: "u8 \<Rightarrow> u512 \<times> u32 \<Rightarrow> world \<Rightarrow> bool" where
  "validated f k W \<longleftrightarrow> (case k of (h, n) \<Rightarrow> HasContract h n f W)"

interpretation spend: consumable "accepts X E f" "wlive f" "proof_used f" proof_key
  by unfold_locales
    (auto simp: accepts_def proof_used_def grows_def dest: Execute_grows Execute_proof_key)

interpretation fulfil: consumable "accepts X E f" "wlive f" "validated f" validate_key
  by unfold_locales
    (auto simp: accepts_def validated_def grows_def dest: Execute_grows Execute_validate_key)

end
