(* ===== verification/Acceptance.thy ===== *)
theory Acceptance
  imports Runs
begin

text \<open>
  The other direction of \<open>Execute_Laws\<close>: contracts built the way a wallet builds them are
  accepted. A script is the concatenation of the byte images of its operands, so every read is
  answered by the round trips of the serialisation templates; what remains are the conditions
  of the operation itself.
\<close>

section \<open>Reading a script\<close>

lemma opos_start: "k < 2 ^ 64 \<Longrightarrow> opos (int k) (start c) = (start c)\<lparr>ssOperation := \<lparr>sData = sData (ssOperation c), sPos = k\<rparr>\<rparr>"
  using opos_in [of "start c" k] by (simp add: start_def)

lemma op_word_at:
  fixes w :: "'a::len word"
  assumes d: "sData (ssOperation c) = pre @ ser_word w @ post" and len: "length (sData (ssOperation c)) < 2 ^ 63"
    and "8 dvd LENGTH('a)" and k: "k = int (length pre)"
  shows "op_word (opos k (start c)) = Inr (w, opos (k + int (LENGTH('a) div 8)) (start c))"
proof -
  define s where "s = \<lparr>sData = sData (ssOperation c), sPos = length pre\<rparr>"
  have "stream_ok s \<and> stream_rest s = ser_word w @ post"
    using d len by (simp add: s_def stream_ok_def stream_rest_def)
  then have "read_word stream_read s = Inr (w, stream_adv (length (ser_word w)) s)"
    using bs.reads_word [OF assms(3), of w] by (simp add: reads_def)
  moreover have "opos k (start c) = (start c)\<lparr>ssOperation := s\<rparr>"
    using opos_start [of "length pre" c] d len k by (simp add: s_def)
  moreover have "opos (k + int (LENGTH('a) div 8)) (start c) = (start c)\<lparr>ssOperation := stream_adv (length (ser_word w)) s\<rparr>"
    using opos_start [of "length pre + LENGTH('a) div 8" c] d len k by (simp add: s_def stream_adv_def)
  ultimately show ?thesis by (simp add: op_word_def cop_lift_def)
qed

lemma Rewind_at:
  assumes z: "sPos (ssOperation c) = 0" and "int n \<le> k" and "k \<le> int (length (sData (ssOperation c)))"
    and "length (sData (ssOperation c)) < 2 ^ 63"
  shows "Contract_Rewind n OPERATIONS (opos k c) = Inr (opos (k - int n) c)"
proof -
  obtain m where m: "k = int m" using assms(2) by (metis nat_0_le of_nat_0_le_iff order_trans)
  have "opos (int m) c = c\<lparr>ssOperation := (ssOperation c)\<lparr>sPos := m\<rparr>\<rparr>"
    "opos (int (m - n)) c = c\<lparr>ssOperation := (ssOperation c)\<lparr>sPos := m - n\<rparr>\<rparr>"
    using opos_in [of c m] opos_in [of c "m - n"] assms m by simp_all
  moreover have "(int m - int n) mod 2 ^ 64 = int (m - n)" using assms m by (simp add: of_nat_diff)
  ultimately show ?thesis using assms m
    by (simp add: Contract_Rewind_def seek_op_def stream_seek_def Let_def of_nat_diff)
qed

text \<open>The register script of an operation with a pre-state: the pre-state, then the checksum of the
  post-state.\<close>

definition states_script :: "reg_state \<Rightarrow> u64 \<Rightarrow> byte list" where
  "states_script s chk = [STATES_PRESTATE] @ ser_state s @ [STATES_POSTSTATE] @ ser_word chk"

lemma reg_word_at:
  fixes w :: "'a::len word"
  assumes d: "sData (ssRegister c) = pre @ ser_word w @ post" and len: "length (sData (ssRegister c)) < 2 ^ 63"
    and "8 dvd LENGTH('a)"
  shows "reg_word (rpos (length pre) c) = Inr (w, rpos (length pre + LENGTH('a) div 8) c)"
proof -
  define s where "s = (ssRegister c)\<lparr>sPos := length pre\<rparr>"
  have "stream_ok s \<and> stream_rest s = ser_word w @ post"
    using d len by (simp add: s_def stream_ok_def stream_rest_def)
  then have "read_word stream_read s = Inr (w, stream_adv (length (ser_word w)) s)"
    using bs.reads_word [OF assms(3), of w] by (simp add: reads_def)
  moreover have "ssRegister (rpos (length pre) c) = s" by (simp add: s_def rpos_def)
  ultimately show ?thesis by (simp add: reg_word_def creg_lift_def s_def rpos_def stream_adv_def)
qed

lemma reg_state_at:
  assumes d: "sData (ssRegister c) = pre @ ser_state st @ post" and len: "length (sData (ssRegister c)) < 2 ^ 63"
    and "length (vchState st) \<le> MAX_SIZE"
  shows "reg_read_state (rpos (length pre) c) = Inr (st, rpos (length pre + length (ser_state st)) c)"
proof -
  define s where "s = (ssRegister c)\<lparr>sPos := length pre\<rparr>"
  have "stream_ok s \<and> stream_rest s = ser_state st @ post"
    using d len by (simp add: s_def stream_ok_def stream_rest_def)
  then have "read_state stream_read s = Inr (st, stream_adv (length (ser_state st)) s)"
    using bs.reads_state [OF assms(3)] by (simp add: reads_def)
  moreover have "ssRegister (rpos (length pre) c) = s" by (simp add: s_def rpos_def)
  ultimately show ?thesis by (simp add: reg_read_state_def creg_lift_def s_def rpos_def stream_adv_def)
qed

lemma states_script_at:
  assumes d: "sData (ssRegister c) = states_script s chk" and len: "length (vchState s) \<le> MAX_SIZE"
  defines "k \<equiv> 1 + length (ser_state s)"
  shows "take_prestate (rpos 0 c) = Inr (s, rpos k c)"
    and "State_IsValid E s = Inr () \<Longrightarrow> read_prestate E (rpos 0 c) = Inr (s, rpos k c)"
    and "take_poststate (rpos k c) = Inr (chk, rpos (k + 9) c)"
proof -
  have "length (sData (ssRegister c)) \<le> 100 + MAX_SIZE" using len
    by (simp add: d states_script_def length_ser_state length_ser_bytes GetSizeOfCompactSize_def)
  then have L: "length (sData (ssRegister c)) < 2 ^ 63" by (simp add: MAX_SIZE_def)
  have 1: "reg_word (rpos 0 c) = Inr (STATES_PRESTATE, rpos 1 c)"
    using reg_word_at [OF _ L, of "[]" "STATES_PRESTATE"] by (simp add: d states_script_def)
  have 2: "reg_read_state (rpos 1 c) = Inr (s, rpos k c)"
    using reg_state_at [OF _ L len, of "[STATES_PRESTATE]"] by (simp add: d states_script_def k_def)
  have 3: "reg_word (rpos k c) = Inr (STATES_POSTSTATE, rpos (k + 1) c)"
    using reg_word_at [OF _ L, of "[STATES_PRESTATE] @ ser_state s" "STATES_POSTSTATE"]
    by (simp add: d states_script_def k_def)
  have 4: "reg_word (rpos (k + 1) c) = Inr (chk, rpos (k + 9) c)"
    using reg_word_at [OF _ L, of "[STATES_PRESTATE] @ ser_state s @ [STATES_POSTSTATE]" chk]
    by (simp add: d states_script_def k_def)
  show "take_prestate (rpos 0 c) = Inr (s, rpos k c)" using 1 2 by (simp add: take_prestate_def)
  show "State_IsValid E s = Inr () \<Longrightarrow> read_prestate E (rpos 0 c) = Inr (s, rpos k c)"
    using 1 2 by (simp add: read_prestate_def)
  show "take_poststate (rpos k c) = Inr (chk, rpos (k + 9) c)" using 3 4 by (simp add: take_poststate_def)
qed

lemma states_script_opos:
  assumes "sData (ssRegister c) = states_script s chk" and "length (vchState s) \<le> MAX_SIZE"
  shows "take_prestate (opos k (start c)) = Inr (s, opos k (rpos (Suc (length (ser_state s))) (start c)))"
    and "State_IsValid E s = Inr () \<Longrightarrow>
      read_prestate E (opos k (start c)) = Inr (s, opos k (rpos (Suc (length (ser_state s))) (start c)))"
    and "GetHash E st = chk \<Longrightarrow> check_poststate E st (opos k (rpos (Suc (length (ser_state s))) (start c))) =
      Inr (opos k (rpos (10 + length (ser_state s)) (start c)))"
  using states_script_at(1,3) [of "opos k (start c)" s chk] states_script_at(2) [of "opos k (start c)" s chk E] assms
  by (simp_all add: check_poststate_def add.commute)

section \<open>Debit\<close>

definition debit_script :: "u256 \<Rightarrow> u256 \<Rightarrow> u64 \<Rightarrow> u64 \<Rightarrow> byte list" where
  "debit_script a b n r = [OP_DEBIT] @ ser_word a @ ser_word b @ ser_word n @ ser_word r"

lemma debit_script_at:
  assumes d: "sData (ssOperation c) = debit_script a b n r"
  shows "op_word (start c) = Inr (OP_DEBIT, opos 1 (start c))"
    and "op_word (opos 1 (start c)) = Inr (a, opos 33 (start c))"
    and "op_word (opos 33 (start c)) = Inr (b, opos 65 (start c))"
    and "op_word (opos 65 (start c)) = Inr (n, opos 73 (start c))"
    and "op_word (opos 73 (start c)) = Inr (r, opos 81 (start c))"
proof -
  have L: "length (sData (ssOperation c)) < 2 ^ 63" by (simp add: d debit_script_def)
  note at = op_word_at [OF _ L]
  show "op_word (start c) = Inr (OP_DEBIT, opos 1 (start c))"
    using at [of "[]" "OP_DEBIT" _ 0] by (simp add: d debit_script_def)
  show "op_word (opos 1 (start c)) = Inr (a, opos 33 (start c))"
    using at [of "[OP_DEBIT]" a _ 1] by (simp add: d debit_script_def)
  show "op_word (opos 33 (start c)) = Inr (b, opos 65 (start c))"
    using at [of "[OP_DEBIT] @ ser_word a" b _ 33] by (simp add: d debit_script_def)
  show "op_word (opos 65 (start c)) = Inr (n, opos 73 (start c))"
    using at [of "[OP_DEBIT] @ ser_word a @ ser_word b" n _ 65] by (simp add: d debit_script_def)
  show "op_word (opos 73 (start c)) = Inr (r, opos 81 (start c))"
    using at [of "[OP_DEBIT] @ ser_word a @ ser_word b @ ser_word n" r _ 73] by (simp add: d debit_script_def)
qed

lemma stream_end_start:
  assumes "k = int (length (sData (ssOperation c)))" "length (sData (ssOperation c)) < 2 ^ 63"
  shows "Contract_End OPERATIONS (opos k (rpos p (start c)))"
proof -
  have "ssOperation (opos k (rpos p (start c))) = ssOperation (opos k (start c))"
    by (simp add: opos_def rpos_def)
  then show ?thesis
  using opos_start [of "length (sData (ssOperation c))" c] assms by (simp add: Contract_End_def stream_end_def)
qed

lemma debit_accepted:
  assumes ops: "sData (ssOperation c) = debit_script a b n r"
    and regs: "sData (ssRegister c) = states_script s (GetHash E ob)" and len: "length (vchState s) \<le> MAX_SIZE"
    and v: "State_IsValid E s = Inr ()" and own: "hashOwner s = hashCaller c"
    and adr: "\<not> Reserved_address a" "\<not> Reserved_address b" "IsAccount b" "a \<noteq> b"
    and ex: "Debit_Execute E (Object_of s) n (nTimestamp c) = Inr ob" and rd: "ReadState b f W = Some st"
  shows "Execute X E c f W cost = Inr (WriteState E a (State_of ob) f
    (if f = FLAGS_BLOCK \<and> \<not> State_IsNull st then WriteEvent (hashOwner st) (hashTx c) W else W), cost)"
proof -
  note op = debit_script_at [OF ops]
  have L: "length (sData (ssOperation c)) = 81" by (simp add: ops debit_script_def)
  have rw: "Contract_Rewind m OPERATIONS (opos k (rpos p (start c))) = Inr (opos (k - int m) (rpos p (start c)))"
    if "int m \<le> k" "k \<le> 81" for m k p
    by (rule Rewind_at) (use that in \<open>simp_all add: L\<close>)
  note stt = states_script_opos [OF regs len] states_script_opos(2) [OF regs len v]
  have en: "Contract_End OPERATIONS (opos 81 (rpos p (start c)))" for p
    by (rule stream_end_start) (simp_all add: L)
  have nw: "b \<noteq> WILDCARD_ADDRESS" using adr(3) by (auto simp: IsAccount_def GetType_WILDCARD)
  have vop: "verify_op OP_DEBIT (opos 1 (start c)) = Inr (opos 1 (start c))"
    using rw [of 1 1 0] op(1) by (simp add: verify_op_def)
  have ver: "Debit_Verify E (opos 1 (start c)) = Inr (opos 1 (start c))"
    unfolding Debit_Verify_def vop
    using op adr own IsAccount_not [OF adr(3)] rw [of 64 65] by (simp add: stt)
  have "exec_debit E f (opos 1 (start c)) W cost = Inr (opos 81 (rpos (10 + length (ser_state s)) (start c)), WriteState E a (State_of ob) f
    (if f = FLAGS_BLOCK \<and> \<not> State_IsNull st then WriteEvent (hashOwner st) (hashTx c) W else W), cost)"
    unfolding exec_debit_def ver using op ex rd nw
    by (simp add: Debit_Commit_def states_script_opos [OF regs len])
  then show ?thesis using op(1) en by (simp add: Execute_def exec_prefix_def exec_primitive_def catch_all_def)
qed

lemma op_vector_at:
  assumes d: "sData (ssOperation c) = pre @ ser_bytes v @ post" and len: "length (sData (ssOperation c)) < 2 ^ 63"
    and m: "length v \<le> MAX_SIZE" and k: "k = int (length pre)"
  shows "op_vector (opos k (start c)) = Inr (v, opos (k + int (length (ser_bytes v))) (start c))"
proof -
  define s where "s = \<lparr>sData = sData (ssOperation c), sPos = length pre\<rparr>"
  have "stream_ok s \<and> stream_rest s = ser_bytes v @ post"
    using d len by (simp add: s_def stream_ok_def stream_rest_def)
  then have "read_vector stream_read s = Inr (v, stream_adv (length (ser_bytes v)) s)"
    using bs.reads_vector [OF m] by (simp add: reads_def)
  moreover have "opos k (start c) = (start c)\<lparr>ssOperation := s\<rparr>"
    using opos_start [of "length pre" c] d len k by (simp add: s_def)
  moreover have "opos (k + int (length (ser_bytes v))) (start c) = (start c)\<lparr>ssOperation := stream_adv (length (ser_bytes v)) s\<rparr>"
    using opos_start [of "length pre + length (ser_bytes v)" c] d len k by (simp add: s_def stream_adv_def)
  ultimately show ?thesis by (simp add: op_vector_def cop_lift_def)
qed

lemma verify_op_at:
  assumes "op_word (start c) = Inr (opc, opos 1 (start c))" and "sData (ssOperation c) \<noteq> []" "length (sData (ssOperation c)) < 2 ^ 63"
  shows "verify_op opc (opos 1 (start c)) = Inr (opos 1 (start c))"
proof -
  have "Contract_Rewind 1 OPERATIONS (opos 1 (start c)) = Inr (opos 0 (start c))"
    using Rewind_at [of "start c" 1 1] assms(2,3) by (simp add: Suc_le_eq)
  then show ?thesis using assms(1) by (simp add: verify_op_def)
qed

lemma no_conditions_at: "sData (ssCondition c) = [] \<Longrightarrow> no_conditions (opos k (start c)) = Inr ()"
  by (simp add: no_conditions_def Contract_Empty_def)

lemma Execute_done:
  assumes "op_word (start c) = Inr (nOP, opos 1 (start c))" and "nOP \<noteq> OP_CONDITION" and "nOP \<noteq> OP_VALIDATE"
    and "exec_primitive X E f nOP False (opos 1 (start c)) W k = Inr (opos j (rpos p (start c)), W', k')"
    and "j = int (length (sData (ssOperation c)))" and "length (sData (ssOperation c)) < 2 ^ 63"
  shows "Execute X E c f W k = Inr (W', k')"
  using assms stream_end_start [OF assms(5,6)] by (simp add: Execute_def exec_prefix_def)

section \<open>Transfer and claim\<close>

definition transfer_script :: "u256 \<Rightarrow> u256 \<Rightarrow> u8 \<Rightarrow> byte list" where
  "transfer_script a b t = [OP_TRANSFER] @ ser_word a @ ser_word b @ [t]"

definition claim_script :: "u512 \<Rightarrow> u32 \<Rightarrow> u256 \<Rightarrow> byte list" where
  "claim_script h n a = [OP_CLAIM] @ ser_word h @ ser_word n @ ser_word a"

lemma transfer_script_at:
  assumes d: "sData (ssOperation c) = transfer_script a b t"
  shows "op_word (start c) = Inr (OP_TRANSFER, opos 1 (start c))"
    and "op_word (opos 1 (start c)) = Inr (a, opos 33 (start c))"
    and "op_word (opos 33 (start c)) = Inr (b, opos 65 (start c))"
    and "op_word (opos 65 (start c)) = Inr (t, opos 66 (start c))"
proof -
  have L: "length (sData (ssOperation c)) < 2 ^ 63" by (simp add: d transfer_script_def)
  note at = op_word_at [OF _ L]
  show "op_word (start c) = Inr (OP_TRANSFER, opos 1 (start c))"
    using at [of "[]" "OP_TRANSFER" _ 0] by (simp add: d transfer_script_def)
  show "op_word (opos 1 (start c)) = Inr (a, opos 33 (start c))"
    using at [of "[OP_TRANSFER]" a _ 1] by (simp add: d transfer_script_def)
  show "op_word (opos 33 (start c)) = Inr (b, opos 65 (start c))"
    using at [of "[OP_TRANSFER] @ ser_word a" b _ 33] by (simp add: d transfer_script_def)
  show "op_word (opos 65 (start c)) = Inr (t, opos 66 (start c))"
    using at [of "[OP_TRANSFER] @ ser_word a @ ser_word b" t _ 65] by (simp add: d transfer_script_def)
qed

lemma claim_script_at:
  assumes d: "sData (ssOperation c) = claim_script h n a"
  shows "op_word (start c) = Inr (OP_CLAIM, opos 1 (start c))"
    and "op_word (opos 1 (start c)) = Inr (h, opos 65 (start c))"
    and "op_word (opos 65 (start c)) = Inr (n, opos 69 (start c))"
    and "op_word (opos 69 (start c)) = Inr (a, opos 101 (start c))"
proof -
  have L: "length (sData (ssOperation c)) < 2 ^ 63" by (simp add: d claim_script_def)
  note at = op_word_at [OF _ L]
  show "op_word (start c) = Inr (OP_CLAIM, opos 1 (start c))"
    using at [of "[]" "OP_CLAIM" _ 0] by (simp add: d claim_script_def)
  show "op_word (opos 1 (start c)) = Inr (h, opos 65 (start c))"
    using at [of "[OP_CLAIM]" h _ 1] by (simp add: d claim_script_def)
  show "op_word (opos 65 (start c)) = Inr (n, opos 69 (start c))"
    using at [of "[OP_CLAIM] @ ser_word h" n _ 65] by (simp add: d claim_script_def)
  show "op_word (opos 69 (start c)) = Inr (a, opos 101 (start c))"
    using at [of "[OP_CLAIM] @ ser_word h @ ser_word n" a _ 69] by (simp add: d claim_script_def)
qed

lemma claim_verified:
  assumes ops: "sData (ssOperation t) = transfer_script a b y"
    and regs: "sData (ssRegister t) = states_script s chk" and len: "length (vchState s) \<le> MAX_SIZE"
    and v: "State_IsValid E s = Inr ()" and adr: "\<not> Reserved_address a"
    and who: "b = hashCaller c \<or> b = WILDCARD_ADDRESS \<or> hashOwner s = hashCaller c"
  shows "\<exists>t'. Claim_Verify E c (start t) = Inr t' \<and> ssCondition t' = ssCondition (start t)"
proof -
  note op = transfer_script_at [OF ops]
  have ne: "sData (ssOperation t) \<noteq> []" "hd (sData (ssOperation t)) = OP_TRANSFER"
    by (simp_all add: ops transfer_script_def)
  have sk: "SeekToPrimitive (start t) = Inr (start t)"
    by (simp add: SeekToPrimitive_start [OF ne(1)] ne(2))
  have rs: "\<exists>t'. Contract_Reset (OPERATIONS OR REGISTERS) q = Inr t' \<and> ssCondition t' = ssCondition q" for q
    by (simp add: Contract_Reset_def flag_set_def seek_op_def seek_reg_def stream_seek_def)
  show ?thesis
    unfolding Claim_Verify_def
    using op sk v who adr rs [of "opos 65 (rpos (Suc (length (ser_state s))) (start t))"]
    by (auto simp: states_script_opos [OF regs len])
qed

lemma claim_accepted:
  assumes ops: "sData (ssOperation c) = claim_script h n a" and cond: "sData (ssCondition c) = []"
    and regs: "sData (ssRegister c) = states_script s (GetHash E s')" and len: "length (vchState s) \<le> MAX_SIZE"
    and ty: "GetType h = TX_TRITIUM" and rd: "ReadTx h f W = Some t"
    and k: "unat n < length (vContracts t)" and tc: "tc = vContracts t ! unat n"
    and tops: "sData (ssOperation tc) = transfer_script a' b y" and tcond: "sData (ssCondition tc) = []"
    and tregs: "sData (ssRegister tc) = states_script s0 chk" and tlen: "length (vchState s0) \<le> MAX_SIZE"
    and v: "State_IsValid E s0 = Inr ()" and adr: "\<not> Reserved_address a'" and who: "b = hashCaller c"
    and ex: "Claim_Execute E s (hashCaller c) (nTimestamp c) = Inr s'" and np: "\<not> HasProof a h n f W"
  shows "Execute X E c f W cost = Inr (WriteState E a s' f (WriteProof a h n f W), cost)"
proof -
  note op = claim_script_at [OF ops]
  have L: "length (sData (ssOperation c)) = 101" by (simp add: ops claim_script_def)
  have en: "Contract_End OPERATIONS (opos 101 (rpos p (start c)))" for p
    by (rule stream_end_start) (simp_all add: L)
  define tb where "tb = Contract_Bind_tx (txGenesis t) (txTimestamp t) (txVersion t) (txHash t) tc"
  have lr: "Ledger_ReadContract E h n f W = Inr (start tb)"
    using ty rd k tc by (simp add: Ledger_ReadContract_def tx_contract_def Contract_copy_start tb_def)
  have "\<exists>t'. Claim_Verify E (opos 101 (start c)) (start tb) = Inr t' \<and> ssCondition t' = ssCondition (start tb)"
    by (rule claim_verified [where b = b and s = s0]) (use tops tregs tlen v adr who in \<open>simp_all add: tb_def Contract_Bind_tx_def\<close>)
  then obtain t' where cv: "Claim_Verify E (opos 101 (start c)) (start tb) = Inr t'"
    and "sData (ssCondition t') = []" using tcond by (auto simp: tb_def Contract_Bind_tx_def)
  then have ce: "Contract_Empty CONDITIONS t'" by (simp add: Contract_Empty_def)
  have nc: "no_conditions (opos 1 (start c)) = Inr ()" using cond by (simp add: no_conditions_def Contract_Empty_def)
  have "exec_claim X E f (opos 1 (start c)) W cost = Inr (opos 101 (rpos (10 + length (ser_state s)) (start c)),
     WriteState E a s' f (WriteProof a h n f W), cost)"
    unfolding exec_claim_def nc using op ex np lr cv
    by (simp add: Claim_Commit_def claim_conditions_def ce states_script_opos [OF regs len])
  then show ?thesis using op(1) en by (simp add: Execute_def exec_prefix_def exec_primitive_def catch_all_def)
qed

section \<open>Credit\<close>

definition credit_script :: "u512 \<Rightarrow> u32 \<Rightarrow> u256 \<Rightarrow> u256 \<Rightarrow> u64 \<Rightarrow> byte list" where
  "credit_script h n a p m = [OP_CREDIT] @ ser_word h @ ser_word n @ ser_word a @ ser_word p @ ser_word m"

lemma credit_script_at:
  assumes d: "sData (ssOperation c) = credit_script h n a p m"
  shows "op_word (start c) = Inr (OP_CREDIT, opos 1 (start c))"
    and "op_word (opos 1 (start c)) = Inr (h, opos 65 (start c))"
    and "op_word (opos 65 (start c)) = Inr (n, opos 69 (start c))"
    and "op_word (opos 69 (start c)) = Inr (a, opos 101 (start c))"
    and "op_word (opos 101 (start c)) = Inr (p, opos 133 (start c))"
    and "op_word (opos 133 (start c)) = Inr (m, opos 141 (start c))"
proof -
  have L: "length (sData (ssOperation c)) < 2 ^ 63" by (simp add: d credit_script_def)
  note at = op_word_at [OF _ L]
  show "op_word (start c) = Inr (OP_CREDIT, opos 1 (start c))"
    using at [of "[]" "OP_CREDIT" _ 0] by (simp add: d credit_script_def)
  show "op_word (opos 1 (start c)) = Inr (h, opos 65 (start c))"
    using at [of "[OP_CREDIT]" h _ 1] by (simp add: d credit_script_def)
  show "op_word (opos 65 (start c)) = Inr (n, opos 69 (start c))"
    using at [of "[OP_CREDIT] @ ser_word h" n _ 65] by (simp add: d credit_script_def)
  show "op_word (opos 69 (start c)) = Inr (a, opos 101 (start c))"
    using at [of "[OP_CREDIT] @ ser_word h @ ser_word n" a _ 69] by (simp add: d credit_script_def)
  show "op_word (opos 101 (start c)) = Inr (p, opos 133 (start c))"
    using at [of "[OP_CREDIT] @ ser_word h @ ser_word n @ ser_word a" p _ 101] by (simp add: d credit_script_def)
  show "op_word (opos 133 (start c)) = Inr (m, opos 141 (start c))"
    using at [of "[OP_CREDIT] @ ser_word h @ ser_word n @ ser_word a @ ser_word p" m _ 133]
    by (simp add: d credit_script_def)
qed

lemma op_word_rpos:
  "op_word c = Inr (w :: 'a::len word, c') \<Longrightarrow> op_word (rpos p c) = Inr (w, rpos p c')"
  by (auto simp: op_word_def cop_lift_def rpos_def elim!: rbind_pairE simp del: rbind_eq_Inr)

text \<open>The two ways in which a direct credit is covered.\<close>

definition covered :: "u256 \<Rightarrow> u64 \<Rightarrow> u64 \<Rightarrow> u512 \<Rightarrow> u32 \<Rightarrow> u8 \<Rightarrow> world \<Rightarrow> bool" where
  "covered b n0 m h n f W \<longleftrightarrow>
     (if IsObject b then ReadClaimed h n f W = None else n0 = m)"

lemma credit_verified:
  assumes ops: "sData (ssOperation d) = debit_script x b n0 r" and cond: "sData (ssCondition d) = []"
    and regs: "sData (ssRegister d) = states_script s0 chk" and len: "length (vchState s0) \<le> MAX_SIZE"
    and adr: "\<not> Reserved_address x" "\<not> Reserved_address b" "x \<noteq> WILDCARD_ADDRESS"
    and p0: "Object_Parse (Object_of s0) = Inr ob0" "Object_Base ob0 = Inr OBJECTS_ACCOUNT"
    and tok: "Object_get name_token ob0 = Inr (k :: u256)" "Object_get name_token ac = Inr k"
    and to: "b = a \<or> x = a" and cov: "covered b n0 m h n f W"
  shows "\<exists>d'. credit_debit c (opos 1 (start d)) ac h n a x m f W = Inr (rpos 0 c, d') \<and>
    ssCondition d' = ssCondition (start d) \<and> sData (ssOperation d') = sData (ssOperation d)"
proof -
  note op = debit_script_at [OF ops]
  let ?d = "opos 65 (rpos (Suc (length (ser_state s0))) (start d))"
  have r: "op_word ?d = Inr (n0, opos 73 (rpos (Suc (length (ser_state s0))) (start d)))"
    using op_word_rpos [OF op(4)] by simp
  have dn: "\<exists>d'. credit_done c (opos 73 (rpos (Suc (length (ser_state s0))) (start d))) = Inr (rpos 0 c, d') \<and>
    ssCondition d' = ssCondition (start d) \<and> sData (ssOperation d') = sData (ssOperation d)"
    by (simp add: credit_done_def Contract_Reset_def flag_set_def seek_op_def seek_reg_def stream_seek_def rpos_def)
  have "credit_direct c ?d h n x b x m f W = credit_done c (opos 73 (rpos (Suc (length (ser_state s0))) (start d)))"
    using r cov by (simp add: credit_direct_def covered_def split: if_splits)
  then show ?thesis
    using op adr p0 tok to dn by (auto simp: credit_debit_def states_script_opos [OF regs len])
qed

lemma credit_accepted:
  assumes ops: "sData (ssOperation c) = credit_script h n a x m" and cond: "sData (ssCondition c) = []"
    and regs: "sData (ssRegister c) = states_script s (GetHash E ob)" and len: "length (vchState s) \<le> MAX_SIZE"
    and own: "hashOwner s = hashCaller c" and ac: "Object_Parse (Object_of s) = Inr ac"
    and ex: "Credit_Execute E (Object_of s) m (nTimestamp c) = Inr ob"
    and ty: "GetType h = TX_TRITIUM" and rd: "ReadTx h f W = Some t"
    and k: "unat n < length (vContracts t)" and dc: "d = vContracts t ! unat n"
    and dops: "sData (ssOperation d) = debit_script x b n0 r" and dcond: "sData (ssCondition d) = []"
    and dregs: "sData (ssRegister d) = states_script s0 chk" and dlen: "length (vchState s0) \<le> MAX_SIZE"
    and adr: "\<not> Reserved_address x" "\<not> Reserved_address b" "x \<noteq> WILDCARD_ADDRESS"
    and p0: "Object_Parse (Object_of s0) = Inr ob0" "Object_Base ob0 = Inr OBJECTS_ACCOUNT"
    and tok: "Object_get name_token ob0 = Inr (tk :: u256)" "Object_get name_token ac = Inr tk"
    and to: "b = a \<or> x = a" and cov: "covered b n0 m h n f W" and np: "\<not> HasProof x h n f W"
    and cl: "\<not> fClient E"
  shows "\<exists>W'. Execute X E c f W cost = Inr (W', cost)"
proof -
  note op = credit_script_at [OF ops]
  have L: "length (sData (ssOperation c)) = 141" by (simp add: ops credit_script_def)
  have en: "Contract_End OPERATIONS (opos 141 (rpos p (start c)))" for p
    by (rule stream_end_start) (simp_all add: L)
  define db where "db = Contract_Bind_tx (txGenesis t) (txTimestamp t) (txVersion t) (txHash t) d"
  have dbs: "sData (ssOperation db) = debit_script x b n0 r" "sData (ssCondition db) = []"
    "sData (ssRegister db) = states_script s0 chk"
    using dops dcond dregs by (simp_all add: db_def Contract_Bind_tx_def)
  have lr: "Ledger_ReadContract E h n f W = Inr (start db)"
    using ty rd k dc by (simp add: Ledger_ReadContract_def tx_contract_def Contract_copy_start db_def)
  have ne: "sData (ssOperation db) \<noteq> []" "hd (sData (ssOperation db)) = OP_DEBIT"
    by (simp_all add: dbs debit_script_def)
  have sk: "SeekToPrimitive (start db) = Inr (start db)"
    by (simp add: SeekToPrimitive_start [OF ne(1)] ne(2))
  let ?c = "opos 141 (rpos (Suc (length (ser_state s))) (start c))"
  obtain d' where cd: "credit_debit ?c (opos 1 (start db)) ac h n a x m f W = Inr (rpos 0 ?c, d')"
    and d': "ssCondition d' = ssCondition (start db)" "sData (ssOperation d') = sData (ssOperation db)"
    using credit_verified [OF dbs dlen adr p0 tok to cov] by blast
  have rs: "Contract_Reset OPERATIONS (opos 141 (start c)) = Inr (start c)"
    by (simp add: opos_def start_def)
  have cv: "Credit_Verify (opos 141 (start c)) (start db) f W = Inr (opos 141 (start c), d')"
    unfolding Credit_Verify_def rs
    using op own ac sk debit_script_at(1) [OF dbs(1)] cd by (simp add: states_script_opos [OF regs len])
  have ce: "Contract_Empty CONDITIONS d'" using d' dbs by (simp add: Contract_Empty_def)
  have nc: "no_conditions (opos 1 (start c)) = Inr ()" using cond by (simp add: no_conditions_def Contract_Empty_def)
  have sd: "op_word (start d') = Inr (OP_DEBIT, opos 1 (start d'))" "op_word (opos 1 (start d')) = Inr (x, opos 33 (start d'))"
    "op_word (opos 33 (start d')) = Inr (b, opos 65 (start d'))"
    using debit_script_at [of d' x b n0 r] d' dbs by simp_all
  have cm: "\<exists>W'. Credit_Commit E ob d' a x h n m f W = Inr W'"
    using np cl sd by (simp add: Credit_Commit_def credit_claimed_def Let_def)
  then obtain W' where cm: "Credit_Commit E ob d' a x h n m f W = Inr W'" ..
  have "exec_credit X E f (opos 1 (start c)) W cost = Inr (opos 141 (rpos (10 + length (ser_state s)) (start c)), W', cost)"
    unfolding exec_credit_def nc using op ex lr cv cm cl
    by (simp add: claim_conditions_def ce states_script_opos [OF regs len])
  then show ?thesis using op(1) en by (simp add: Execute_def exec_prefix_def exec_primitive_def catch_all_def)
qed

section \<open>Fee\<close>

definition fee_script :: "u256 \<Rightarrow> u64 \<Rightarrow> byte list" where
  "fee_script a n = [OP_FEE] @ ser_word a @ ser_word n"

lemma fee_script_at:
  assumes ops: "sData (ssOperation c) = fee_script a n"
  shows "op_word (start c) = Inr (OP_FEE, opos 1 (start c))"
    and "op_word (opos 1 (start c)) = Inr (a, opos 33 (start c))"
    and "op_word (opos 33 (start c)) = Inr (n, opos 41 (start c))"
proof -
  have L: "length (sData (ssOperation c)) = 41" by (simp add: ops fee_script_def)
  note at = op_word_at [of c, unfolded L]
  show "op_word (start c) = Inr (OP_FEE, opos 1 (start c))"
    "op_word (opos 1 (start c)) = Inr (a, opos 33 (start c))" "op_word (opos 33 (start c)) = Inr (n, opos 41 (start c))"
    using at [of "[]" "OP_FEE" _ 0] at [of "[OP_FEE]" a _ 1] at [of "[OP_FEE] @ ser_word a" n _ 33]
    by (simp_all add: ops fee_script_def)
qed

lemma fee_accepted:
  assumes ops: "sData (ssOperation c) = fee_script a n" and cond: "sData (ssCondition c) = []"
    and regs: "sData (ssRegister c) = states_script s (GetHash E ob)" and len: "length (vchState s) \<le> MAX_SIZE"
    and v: "State_IsValid E s = Inr ()" and own: "hashOwner s = hashCaller c" and adr: "\<not> Reserved_address a"
    and ex: "Fee_Execute E (Object_of s) n (nTimestamp c) = Inr ob"
  shows "Execute X E c f W k = Inr (WriteState E a (State_of ob) f W, k)"
proof -
  have L: "length (sData (ssOperation c)) = 41" by (simp add: ops fee_script_def)
  note op = fee_script_at [OF ops]
  have vop: "verify_op OP_FEE (opos 1 (start c)) = Inr (opos 1 (start c))"
    by (rule verify_op_at [OF op(1)]) (simp_all add: L flip: length_0_conv)
  have rw: "Contract_Rewind 40 OPERATIONS (opos 41 (rpos p (start c))) = Inr (opos 1 (rpos p (start c)))" for p
    using Rewind_at [of "rpos p (start c)" 40 41] by (simp add: L)
  have ver: "Fee_Verify E (opos 1 (start c)) = Inr (opos 1 (start c))"
    unfolding Fee_Verify_def vop using op adr own v rw by (simp add: states_script_opos [OF regs len])
  show ?thesis
    by (rule Execute_done [OF op(1)])
      (use op ex in \<open>simp_all add: L exec_primitive_def exec_fee_def no_conditions_at [OF cond] ver Fee_Commit_def
        states_script_opos [OF regs len]\<close>)
qed

section \<open>Transfer\<close>

lemma transfer_accepted:
  assumes ops: "sData (ssOperation c) = transfer_script a b t"
    and regs: "sData (ssRegister c) = states_script s (GetHash E s')" and len: "length (vchState s) \<le> MAX_SIZE"
    and v: "State_IsValid E s = Inr ()" and own: "hashOwner s = hashCaller c" and adr: "\<not> Reserved_address a"
    and to: "b \<noteq> WILDCARD_ADDRESS" "b \<noteq> hashCaller c" and ty: "nType s \<noteq> REGISTER_OBJECT"
    and ex: "Transfer_Execute E s (transfer_owner c t b) (nTimestamp c) = Inr s'"
  shows "Execute X E c f W k = Inr (WriteState E a s' f (if f = FLAGS_BLOCK then WriteEvent b (hashTx c) W else W), k)"
proof -
  have L: "length (sData (ssOperation c)) = 66" by (simp add: ops transfer_script_def)
  note op = transfer_script_at [OF ops]
  have vop: "verify_op OP_TRANSFER (opos 1 (start c)) = Inr (opos 1 (start c))"
    by (rule verify_op_at [OF op(1)]) (simp_all add: L flip: length_0_conv)
  have rw: "Contract_Rewind 64 OPERATIONS (opos 65 (rpos p (start c))) = Inr (opos 1 (rpos p (start c)))" for p
    using Rewind_at [of "rpos p (start c)" 64 65] by (simp add: L)
  have ver: "Transfer_Verify E (opos 1 (start c)) = Inr (opos 1 (start c))"
    unfolding Transfer_Verify_def vop using op adr own v rw to ty by (auto simp: states_script_opos [OF regs len])
  have ow: "transfer_owner (opos 66 (start c)) t b = transfer_owner c t b" by (simp add: transfer_owner_def)
  show ?thesis
    by (rule Execute_done [OF op(1)])
      (use op ex to in \<open>simp_all add: L exec_primitive_def exec_transfer_def ver Transfer_Commit_def ow
        states_script_opos [OF regs len]\<close>)
qed

section \<open>Write and append\<close>

definition data_script :: "u8 \<Rightarrow> u256 \<Rightarrow> byte list \<Rightarrow> byte list" where
  "data_script opc a d = [opc] @ ser_word a @ ser_bytes d"

lemma length_data_script: "length d \<le> MAX_SIZE \<Longrightarrow> length (data_script opc a d) < 2 ^ 63"
  by (simp add: data_script_def length_ser_bytes GetSizeOfCompactSize_def MAX_SIZE_def)

lemma data_script_at:
  assumes ops: "sData (ssOperation c) = data_script opc a d" and m: "length d \<le> MAX_SIZE"
  shows "op_word (start c) = Inr (opc, opos 1 (start c))" and "op_word (opos 1 (start c)) = Inr (a, opos 33 (start c))"
    and "op_vector (opos 33 (start c)) = Inr (d, opos (33 + int (length (ser_bytes d))) (start c))"
    and "verify_op opc (opos 1 (start c)) = Inr (opos 1 (start c))"
    and "Contract_Rewind 32 OPERATIONS (opos 33 (rpos p (start c))) = Inr (opos 1 (rpos p (start c)))"
proof -
  have L: "length (sData (ssOperation c)) < 2 ^ 63" using length_data_script [OF m] by (simp add: ops)
  note at = op_word_at [OF _ L]
  show op: "op_word (start c) = Inr (opc, opos 1 (start c))" "op_word (opos 1 (start c)) = Inr (a, opos 33 (start c))"
    using at [of "[]" opc _ 0] at [of "[opc]" a _ 1] by (simp_all add: ops data_script_def)
  show "op_vector (opos 33 (start c)) = Inr (d, opos (33 + int (length (ser_bytes d))) (start c))"
    using op_vector_at [OF _ L m, of "[opc] @ ser_word a" "[]" 33] by (simp add: ops data_script_def)
  show "verify_op opc (opos 1 (start c)) = Inr (opos 1 (start c))"
    by (rule verify_op_at [OF op(1) _ L]) (simp add: ops data_script_def)
  show "Contract_Rewind 32 OPERATIONS (opos 33 (rpos p (start c))) = Inr (opos 1 (rpos p (start c)))"
    using Rewind_at [of "rpos p (start c)" 32 33] L by (simp add: ops data_script_def)
qed

lemma write_accepted:
  assumes ops: "sData (ssOperation c) = data_script OP_WRITE a d" and cond: "sData (ssCondition c) = []" and m: "length d \<le> MAX_SIZE"
    and regs: "sData (ssRegister c) = states_script s (GetHash E s')" and len: "length (vchState s) \<le> MAX_SIZE"
    and v: "State_IsValid E s = Inr ()" and own: "hashOwner s = hashCaller c" and adr: "\<not> Reserved_address a"
    and ty: "nType s \<noteq> REGISTER_READONLY" "nType s \<noteq> REGISTER_APPEND"
    and ex: "Write_Execute E s d (nTimestamp c) = Inr s'"
  shows "Execute X E c f W k = Inr (WriteState E a s' f W, k)"
proof -
  note op = data_script_at [OF ops m]
  have ver: "Write_Verify E (opos 1 (start c)) = Inr (opos 1 (start c))"
    unfolding Write_Verify_def op(4) using op(2,5) adr own v ty by (auto simp: states_script_opos [OF regs len])
  show ?thesis
    by (rule Execute_done [OF op(1)])
      (use op(2,3) ex length_data_script [OF m] in \<open>simp_all add: exec_primitive_def exec_write_def no_conditions_at [OF cond] ver
        Write_Commit_def states_script_opos [OF regs len] ops data_script_def\<close>)
qed

lemma append_accepted:
  assumes ops: "sData (ssOperation c) = data_script OP_APPEND a d" and cond: "sData (ssCondition c) = []" and m: "length d \<le> MAX_SIZE"
    and regs: "sData (ssRegister c) = states_script s (GetHash E s')" and len: "length (vchState s) \<le> MAX_SIZE"
    and v: "State_IsValid E s = Inr ()" and own: "hashOwner s = hashCaller c" and adr: "\<not> Reserved_address a"
    and ty: "nType s = REGISTER_RAW \<or> nType s = REGISTER_APPEND"
    and ex: "Append_Execute E s d (nTimestamp c) = Inr s'" and sz: "length (vchState s') \<le> MAX_REGISTER_SIZE"
  shows "Execute X E c f W k = Inr (WriteState E a s' f W, k)"
proof -
  note op = data_script_at [OF ops m]
  have ver: "Append_Verify E (opos 1 (start c)) = Inr (opos 1 (start c))"
    unfolding Append_Verify_def op(4) using op(2,5) adr own v ty by (auto simp: states_script_opos [OF regs len])
  show ?thesis
    by (rule Execute_done [OF op(1)])
      (use op(2,3) ex sz length_data_script [OF m] in \<open>simp_all add: exec_primitive_def exec_append_def no_conditions_at [OF cond] ver
        Append_Commit_def GetState_def states_script_opos [OF regs len] ops data_script_def\<close>)
qed

section \<open>Create\<close>

definition create_script :: "u256 \<Rightarrow> u8 \<Rightarrow> byte list \<Rightarrow> byte list" where
  "create_script a t d = [OP_CREATE] @ ser_word a @ [t] @ ser_bytes d"

lemma create_script_at:
  assumes ops: "sData (ssOperation c) = create_script a t d" and m: "length d \<le> MAX_SIZE"
  shows "op_word (start c) = Inr (OP_CREATE, opos 1 (start c))" and "op_word (opos 1 (start c)) = Inr (a, opos 33 (start c))"
    and "op_word (opos 33 (start c)) = Inr (t, opos 34 (start c))"
    and "op_vector (opos 34 (start c)) = Inr (d, opos (34 + int (length (ser_bytes d))) (start c))"
    and "Contract_Rewind 1 OPERATIONS (opos 1 (start c)) = Inr (start c)"
    and "Contract_Rewind 33 OPERATIONS (opos 34 (start c)) = Inr (opos 1 (start c))"
    and "length (sData (ssOperation c)) < 2 ^ 63"
proof -
  show L: "length (sData (ssOperation c)) < 2 ^ 63" using m
    by (simp add: ops create_script_def length_ser_bytes GetSizeOfCompactSize_def MAX_SIZE_def)
  note at = op_word_at [OF _ L]
  show "op_word (start c) = Inr (OP_CREATE, opos 1 (start c))" "op_word (opos 1 (start c)) = Inr (a, opos 33 (start c))"
    "op_word (opos 33 (start c)) = Inr (t, opos 34 (start c))"
    using at [of "[]" OP_CREATE _ 0] at [of "[OP_CREATE]" a _ 1] at [of "[OP_CREATE] @ ser_word a" t _ 33]
    by (simp_all add: ops create_script_def)
  show "op_vector (opos 34 (start c)) = Inr (d, opos (34 + int (length (ser_bytes d))) (start c))"
    using op_vector_at [OF _ L m, of "[OP_CREATE] @ ser_word a @ [t]" "[]" 34] by (simp add: ops create_script_def)
  show "Contract_Rewind 1 OPERATIONS (opos 1 (start c)) = Inr (start c)"
    using Rewind_at [of "start c" 1 1] L by (simp add: ops create_script_def)
  show "Contract_Rewind 33 OPERATIONS (opos 34 (start c)) = Inr (opos 1 (start c))"
    using Rewind_at [of "start c" 33 34] L by (simp add: ops create_script_def)
qed

text \<open>The size check of \<open>Create::Verify\<close> reads the type byte: whatever the size of the register, the
  check passes.\<close>

lemma create_verified:
  assumes ops: "sData (ssOperation c) = create_script a t d" and m: "length d \<le> MAX_SIZE"
    and adr: "\<not> Reserved_address a" "a \<noteq> WILDCARD_ADDRESS" and t: "t < 253"
  shows "Create_Verify (opos 1 (start c)) = Inr (opos 1 (start c))"
proof -
  note op = create_script_at [OF ops m]
  have u: "unat t < 253" using t by (simp add: word_less_nat_alt)
  define s where "s = \<lparr>sData = sData (ssOperation c), sPos = 33\<rparr>"
  have "stream_ok s \<and> stream_rest s = WriteCompactSize (unat t) @ ser_bytes d"
    using op(7) u by (simp add: s_def stream_ok_def stream_rest_def ops create_script_def WriteCompactSize_def)
  then have "ReadCompactSize stream_read s = Inr (unat t, stream_adv 1 s)"
    using bs.ReadCompactSize_roundtrip [of s "unat t" "ser_bytes d"] u
    by (simp add: MAX_SIZE_def GetSizeOfCompactSize_def)
  moreover have "opos 33 (start c) = (start c)\<lparr>ssOperation := s\<rparr>"
    "opos 34 (start c) = (start c)\<lparr>ssOperation := stream_adv 1 s\<rparr>"
    using opos_start [of 33 c] opos_start [of 34 c] by (simp_all add: s_def stream_adv_def)
  ultimately have "Contract_ReadCompactSize OPERATIONS (opos 33 (start c)) = Inr (unat t, opos 34 (start c))"
    by (simp add: Contract_ReadCompactSize_def cop_lift_def)
  then show ?thesis
    unfolding Create_Verify_def
    using op(1,2,5,6) adr u by (simp add: Reserved_address_iff GetSizeOfCompactSize_def)
qed

lemma create_accepted:
  assumes ops: "sData (ssOperation c) = create_script a REGISTER_RAW d" and cond: "sData (ssCondition c) = []"
    and m: "length d \<le> MAX_REGISTER_SIZE"
    and regs: "sData (ssRegister c) = [STATES_POSTSTATE] @ ser_word (GetHash E s')" and adr: "IsRaw a"
    and ex: "Create_Execute E ((State_default E)\<lparr>nVersion := 1, nType := REGISTER_RAW, hashOwner := hashCaller c\<rparr>)
      d (nTimestamp c) = Inr s'"
    and new: "\<not> HasState a f W"
  shows "Execute X E c f W k = Inr (WriteState E a s' f W, k)"
proof -
  have m': "length d \<le> MAX_SIZE" using m by (simp add: MAX_REGISTER_SIZE_def MAX_SIZE_def)
  note op = create_script_at [OF ops m']
  have ad: "\<not> Reserved_address a" "a \<noteq> WILDCARD_ADDRESS"
    using adr by (auto simp: IsRaw_def Reserved_address_iff Address_IsValid_def GetType_WILDCARD)
  have ver: "Create_Verify (opos 1 (start c)) = Inr (opos 1 (start c))"
    by (rule create_verified [OF ops m' ad]) simp
  let ?j = "34 + int (length (ser_bytes d))"
  have rl: "length (sData (ssRegister (opos ?j (start c)))) < 2 ^ 63" by (simp add: regs)
  have "reg_word (rpos 0 (opos ?j (start c))) = Inr (STATES_POSTSTATE, rpos 1 (opos ?j (start c)))"
    "reg_word (rpos 1 (opos ?j (start c))) = Inr (GetHash E s', rpos 9 (opos ?j (start c)))"
    using reg_word_at [OF _ rl, of "[]" STATES_POSTSTATE] reg_word_at [OF _ rl, of "[STATES_POSTSTATE]" "GetHash E s'" "[]"]
    by (simp_all add: regs)
  then have cp: "check_poststate E s' (opos ?j (start c)) = Inr (opos ?j (rpos 9 (start c)))"
    by (simp add: check_poststate_def take_poststate_def)
  have ty: "nType s' = REGISTER_RAW" using ex by (auto simp: Create_Execute_def Let_def)
  have cm: "Create_Commit E s' a k f W = Inr (WriteState E a s' f W, k)"
    using ty adr new by (simp add: Create_Commit_def)
  show ?thesis
    by (rule Execute_done [OF op(1)])
      (use op(2-4,7) ex m cm cp in \<open>simp_all add: exec_primitive_def exec_create_def no_conditions_at [OF cond] ver
        Let_def not_less ops create_script_def\<close>)
qed

section \<open>What a script says\<close>

lemma script_at_primitive:
  assumes "op_word (start c) = Inr (nOP, c1)" and "length (sData (ssOperation c)) < 2 ^ 63"
    and "nOP \<noteq> OP_CONDITION" and "nOP \<noteq> OP_VALIDATE"
  shows "at_primitive c = Inr (nOP, c1)"
  using op_word_start [OF assms(1,2)] assms by (simp add: at_primitive_def SeekToPrimitive_start)

lemma prestate_of_script:
  assumes "sData (ssRegister c) = states_script s chk" and "length (vchState s) \<le> MAX_SIZE"
  shows "prestate_of c = Inr s"
  using take_prestate_of [OF states_script_opos(1) [OF assms, of 0]] by simp

end
