(* ===== verification/Backing.thy ===== *)
theory Backing
  imports Runs
begin

text \<open>
  Where the value of a credit comes from: an accepted credit refers to a coinbase of the caller
  or to a debit in the ledger, whose amount it has unless the debit went to an object register.
\<close>

section \<open>The amount of a credit\<close>

lemma take_prestate_op:
  assumes "take_prestate c = Inr (s, c')"
  shows "ssOperation c' = ssOperation c"
  using assms unfolding take_prestate_def
  by (elim rbind_pairE if_InlE) (auto simp: reg_word_def reg_read_state_def creg_lift_def elim!: rbind_pairE simp del: rbind_eq_Inr)

lemma op_word_cong:
  assumes "ssOperation c' = ssOperation c" and "op_word c = Inr (w :: 'a::len word, d)" and "op_word c' = Inr (w', d')"
  shows "w' = w" and "ssOperation d' = ssOperation d"
  using assms by (auto simp: op_word_def cop_lift_def elim!: rbind_pairE simp del: rbind_eq_Inr)

lemma credit_debit_amount:
  assumes cd: "credit_debit c d ac h k a p m f W = Inr r" and ops: "debit_operands d = Inr (x, b, n)"
    and nob: "\<not> IsObject b"
  shows "m = n \<and> p = x \<and> (b = a \<or> b = WILDCARD_ADDRESS \<or> x = a)"
proof -
  obtain d1 d2 d3 where o: "op_word d = Inr (x, d1)" "op_word d1 = Inr (b, d2)" "op_word d2 = Inr (n, d3)"
    using ops unfolding debit_operands_def by (elim rbind_pairE) simp
  show ?thesis
  proof (cases "x = WILDCARD_ADDRESS")
    case True
    with cd o have "credit_utxo c d2 x b a p m = Inr r"
      unfolding credit_debit_def by (auto elim!: if_InlE)
    then show ?thesis using o(3) unfolding credit_utxo_def
      by (elim if_InlE rbind_pairE) auto
  next
    case False
    with cd o obtain s d2' where t: "take_prestate d2 = Inr (s, d2')" and
      r: "(if b = a \<or> b = WILDCARD_ADDRESS \<or> (x = a \<and> p = a) then
           credit_direct c d2' h k x b p m f W
         else credit_partial c d2' h k b p m f W) = Inr r"
      unfolding credit_debit_def by (auto elim!: if_InlE rbind_pairE rbindE simp del: rbind_eq_Inr)
    from r nob have dir: "b = a \<or> b = WILDCARD_ADDRESS \<or> (x = a \<and> p = a)"
      and cd': "credit_direct c d2' h k x b p m f W = Inr r"
      by (auto simp: credit_partial_def split: if_splits)
    from cd' nob obtain d4 n' where "p = x" "op_word d2' = Inr (n', d4)" "n' = m"
      unfolding credit_direct_def by (elim if_InlE rbind_pairE) auto
    then show ?thesis using dir op_word_cong(1) [OF take_prestate_op [OF t] o(3)] by auto
  qed
qed

lemma Credit_Verify_cases:
  assumes "Credit_Verify c d f W = Inr (c', d')" and st: "rpos 0 (c\<lparr>ssOperation := (ssOperation c)\<lparr>sPos := 0\<rparr>\<rparr>) = start c0"
  shows "\<exists>c1 h n a p m d1 opd d2 ac c7. op_word (start c0) = Inr (OP_CREDIT, c1) \<and>
    credit_operands c1 = Inr (h, n, a, p, m) \<and> hashCaller c7 = hashCaller c0 \<and>
    SeekToPrimitive d = Inr d1 \<and> op_word d1 = Inr (opd, d2) \<and>
    (opd = OP_COINBASE \<and> credit_coinbase c7 d2 ac p m = Inr (c', d') \<or>
     opd = OP_DEBIT \<and> credit_debit c7 d2 ac h n a p m f W = Inr (c', d'))"
proof -
  from assms(1) obtain opx c1 h c2 n c3 a c4 p c5 m c6 s c7 ac d1 opd d2 where
    r: "op_word (start c0) = Inr (opx :: u8, c1)" "opx = OP_CREDIT"
      "op_word c1 = Inr (h :: u512, c2)" "op_word c2 = Inr (n :: u32, c3)" "op_word c3 = Inr (a :: u256, c4)"
      "op_word c4 = Inr (p :: u256, c5)" "op_word c5 = Inr (m :: u64, c6)" and
    t: "take_prestate c6 = Inr (s, c7)" and sk: "SeekToPrimitive d = Inr d1" "op_word d1 = Inr (opd, d2)" and
    e: "(if opd = OP_COINBASE then credit_coinbase c7 d2 ac p m
     else if opd \<noteq> OP_DEBIT then Inl (Reject ''tx claim is not a debit'')
     else credit_debit c7 d2 ac h n a p m f W) = Inr (c', d')"
    unfolding Credit_Verify_def
    by (simp only: Reset_OPERATIONS Reset_REGISTERS rbind_Inr st) (elim rbind_pairE rbindE if_InlE, simp)
  have c6: "c6 = opos 141 (start c0)"
    using r(1) [THEN op_word_pos] r(3-) [THEN op_word_pos] r(4-) [THEN op_word_pos] r(5-) [THEN op_word_pos]
      r(6-) [THEN op_word_pos] by simp
  then have "\<exists>q. c7 = rpos q c6" using take_prestate_of [OF t] by simp
  then have "hashCaller c7 = hashCaller c0" by (auto simp: c6)
  moreover have "credit_operands c1 = Inr (h, n, a, p, m)" using r by (simp add: credit_operands_def)
  moreover have "opd = OP_COINBASE \<and> credit_coinbase c7 d2 ac p m = Inr (c', d') \<or>
     opd = OP_DEBIT \<and> credit_debit c7 d2 ac h n a p m f W = Inr (c', d')"
    using e by (cases "opd = OP_COINBASE"; cases "opd = OP_DEBIT") simp_all
  ultimately show ?thesis using r(1,2) sk by blast
qed

text \<open>The contract a credit refers to covers the amount: a debit of the same amount to the account,
  to anyone or from the account itself, unless the debit went to an object register, or a coinbase of the caller.\<close>

definition backed :: "contract \<Rightarrow> u256 \<Rightarrow> u256 \<Rightarrow> u256 \<Rightarrow> u64 \<Rightarrow> bool" where
  "backed d caller a p m \<longleftrightarrow> (case at_primitive d of
     Inl _ \<Rightarrow> False
   | Inr (nOP, d1) \<Rightarrow>
       if nOP = OP_COINBASE then fee_operands d1 = Inr (caller, m) \<and> p = caller
       else nOP = OP_DEBIT \<and> (\<exists>x b n. debit_operands d1 = Inr (x, b, n) \<and>
         (IsObject b \<or> m = n \<and> p = x \<and> (b = a \<or> b = WILDCARD_ADDRESS \<or> x = a))))"

lemma credit_debit_operands:
  assumes "credit_debit c d ac h k a p m f W = Inr r"
  shows "\<exists>x b n. debit_operands d = Inr (x, b, n)"
proof -
  from assms obtain x d1 b d2 where o: "op_word d = Inr (x :: u256, d1)" "op_word d1 = Inr (b :: u256, d2)"
    unfolding credit_debit_def by (elim rbind_pairE if_InlE) simp
  have "\<exists>n d3. op_word d2 = Inr (n :: u64, d3)" 
  proof (cases "x = WILDCARD_ADDRESS")
    case True
    with assms o have "credit_utxo c d2 x b a p m = Inr r"
      unfolding credit_debit_def by (auto elim!: if_InlE)
    then show ?thesis unfolding credit_utxo_def by (elim if_InlE rbind_pairE) auto
  next
    case False
    with assms o obtain s d2' where t: "take_prestate d2 = Inr (s, d2')" and
      r: "credit_direct c d2' h k x b p m f W = Inr r \<or> credit_partial c d2' h k b p m f W = Inr r"
      unfolding credit_debit_def by (auto elim!: if_InlE rbind_pairE rbindE simp del: rbind_eq_Inr split: if_splits)
    then have "\<exists>n d3. op_word d2' = Inr (n :: u64, d3)"
      unfolding credit_direct_def credit_partial_def Let_def
      by (elim disjE if_InlE rbind_pairE rbindE) auto
    then show ?thesis using take_prestate_op [OF t] by (auto simp: op_word_def cop_lift_def)
  qed
  then show ?thesis using o by (auto simp: debit_operands_def)
qed

lemma Ledger_ReadContract_start:
  "Ledger_ReadContract E h n f W = Inr d \<Longrightarrow> start d = d"
  by (auto simp: Ledger_ReadContract_def tx_contract_def legacy_contract_def Contract_copy_start Let_def
      Contract_default_def start_def stream_of_def split: if_splits option.splits)

lemma credit_backed:
  assumes cv: "Credit_Verify c d f W = Inr (c', d')" and st: "rpos 0 (c\<lparr>ssOperation := (ssOperation c)\<lparr>sPos := 0\<rparr>\<rparr>) = start c0"
    and d: "start d = d" and o: "op_word (start c0) = Inr (nOP, c1)" "credit_operands c1 = Inr (h, n, a, p, m)"
  shows "nOP = OP_CREDIT \<and> backed d (hashCaller c0) a p m"
proof -
  from Credit_Verify_cases [OF cv st] o obtain d1 opd d2 ac c7 where n: "nOP = OP_CREDIT"
    and h: "hashCaller c7 = hashCaller c0" and sk: "SeekToPrimitive d = Inr d1" "op_word d1 = Inr (opd, d2)"
    and e: "opd = OP_COINBASE \<and> credit_coinbase c7 d2 ac p m = Inr (c', d') \<or>
     opd = OP_DEBIT \<and> credit_debit c7 d2 ac h n a p m f W = Inr (c', d')" by auto
  have at: "at_primitive d = Inr (opd, d2)" using sk d by (simp add: at_primitive_def)
  have "backed d (hashCaller c0) a p m"
    using e
  proof (elim disjE conjE)
    assume "credit_coinbase c7 d2 ac p m = Inr (c', d')" and o: "opd = OP_COINBASE"
    then show ?thesis using at h unfolding credit_coinbase_def
      by (elim if_InlE rbind_pairE) (auto simp: backed_def fee_operands_def)
  next
    assume cd: "credit_debit c7 d2 ac h n a p m f W = Inr (c', d')" and o: "opd = OP_DEBIT"
    then show ?thesis using at credit_debit_operands [OF cd] credit_debit_amount [OF cd]
      by (auto simp: backed_def)
  qed
  with n show ?thesis ..
qed

lemma Execute_credit_backed:
  assumes ex: "Execute X E c f W k = Inr (W', k')" and len: "length (sData (ssOperation c)) < 2 ^ 63"
    and at: "at_primitive c = Inr (OP_CREDIT, c1)" and cl: "\<not> fClient E"
  shows "op_word (start c) = Inr (OP_CREDIT, c1) \<and> (\<exists>h n a p m d. credit_operands c1 = Inr (h, n, a, p, m) \<and>
    Ledger_ReadContract E h n f W = Inr d \<and> backed d (hashCaller c) a p m)"
proof -
  obtain v c2 W1 k1 where pr: "exec_prefix X E f (start c) W k = Inr (OP_CREDIT, v, c1, W1, k1)"
    and e: "exec_primitive X E f OP_CREDIT v c1 W1 k1 = Inr (c2, W', k')"
    by (rule Execute_primitive [OF ex len]) (use at in auto)
  from pr obtain nOP0 c0 where r0: "op_word (start c) = Inr (nOP0, c0)"
    and rest: "(if nOP0 = OP_CONDITION then exec_condition c0 W k
     else if nOP0 = OP_VALIDATE then exec_validate X E f c0 W k
     else Inr (nOP0, False, c0, W, k)) = Inr (OP_CREDIT, v, c1, W1, k1)"
    unfolding exec_prefix_def by (elim rbind_pairE)
  obtain j where j: "c1 = opos j (start c)" using at_primitive_pos [OF at len] by auto
  from e cl obtain h e1 n e2 a e3 p e4 m e5 d c6 d' where
    r: "op_word c1 = Inr (h, e1)" "op_word e1 = Inr (n, e2)" "op_word e2 = Inr (a :: u256, e3)"
      "op_word e3 = Inr (p :: u256, e4)" "op_word e4 = Inr (m :: u64, e5)" and
    v: "Ledger_ReadContract E h n f W1 = Inr d" "Credit_Verify e5 d f W1 = Inr (c6, d')"
    unfolding exec_primitive_def exec_credit_def
    by (auto elim!: rbind_pairE rbindE simp del: rbind_eq_Inr)
  have co: "credit_operands c1 = Inr (h, n, a, p, m)" using r by (simp add: credit_operands_def)
  have "e5 = opos (j + 140) (start c)"
    using r [THEN op_word_pos] r(2-) [THEN op_word_pos] r(3-) [THEN op_word_pos] r(4-) [THEN op_word_pos] j
    by (simp add: add.commute)
  then have st: "rpos 0 (e5\<lparr>ssOperation := (ssOperation e5)\<lparr>sPos := 0\<rparr>\<rparr>) = start c"
    by (simp add: opos_def rpos_def start_def)
  have n0: "nOP0 = OP_CREDIT" using Credit_Verify_cases [OF v(2) st] r0 by auto
  with rest have "c1 = c0" "W1 = W" by auto
  with credit_backed [OF v(2) st Ledger_ReadContract_start [OF v(1)] r0] co v(1) n0 r0 show ?thesis by auto
qed

end
