(* ===== verification/Condition_Laws.thy ===== *)
theory Condition_Laws
  imports Condition_VM
begin

text \<open>
  Laws of the condition machine. Every operation reads forward in the script, so the evaluation
  ends; the memory never grows beyond its registers; the arithmetic is exact or throws.
\<close>

section \<open>Readers\<close>

lemma if_resE:
  assumes "(if b then m else m') = Inr y"
  obtains "b" and "m = Inr y" | "\<not> b" and "m' = Inr y"
  using assms by (cases b) auto

declare stream_read_data [simp del]

lemma ReadCompactSize_limit: "ReadCompactSize rd s = Inr (n, s') \<Longrightarrow> n \<le> MAX_SIZE"
  unfolding ReadCompactSize_def Let_def by (elim rbind_pairE if_InlE) simp

text \<open>\<open>steady f\<close>: on a stream in memory the parser ends, and moves the position forward within the
  data.\<close>

definition steady :: "(stream \<Rightarrow> ('a \<times> stream) res) \<Rightarrow> bool" where
  "steady f \<longleftrightarrow> (\<forall>s. stream_ok s \<longrightarrow> f s \<noteq> Inl Diverges \<and>
     (\<forall>x s'. f s = Inr (x, s') \<longrightarrow> stream_ok s' \<and> sData s' = sData s \<and> sPos s \<le> sPos s'))"

lemma steadyI:
  assumes "\<And>s. stream_ok s \<Longrightarrow> f s \<noteq> Inl Diverges"
    and "\<And>s x s'. stream_ok s \<Longrightarrow> f s = Inr (x, s') \<Longrightarrow> stream_ok s' \<and> sData s' = sData s \<and> sPos s \<le> sPos s'"
  shows "steady f"
  unfolding steady_def using assms by blast

lemma steadyD:
  assumes "steady f" and "stream_ok s" and "f s = Inr (x, s')"
  shows "stream_ok s' \<and> sData s' = sData s \<and> sPos s \<le> sPos s'"
  using assms unfolding steady_def by blast

lemma steady_nd: "steady f \<Longrightarrow> stream_ok s \<Longrightarrow> f s \<noteq> Inl Diverges"
  unfolding steady_def by blast

lemma steady_return: "steady (\<lambda>s. Inr (x, s))"
  by (rule steadyI) auto

lemma steady_throw: "steady (\<lambda>s. Inl (Throw m))"
  by (rule steadyI) auto

lemma steady_if: "steady f \<Longrightarrow> steady g \<Longrightarrow> steady (\<lambda>s. if b then f s else g s)"
  by (cases b) simp_all

lemma steady_bind:
  assumes f: "steady f" and g: "\<And>x. steady (g x)"
  shows "steady (\<lambda>s. rbind (f s) (\<lambda>(x, s). g x s))"
proof (rule steadyI)
  fix s assume s: "stream_ok s"
  show "rbind (f s) (\<lambda>(x, s). g x s) \<noteq> Inl Diverges"
    using steady_nd [OF f s] steadyD [OF f s] steady_nd [OF g] by (force simp: rbind_eq_Inl)
next
  fix s y s2 assume s: "stream_ok s" and r: "rbind (f s) (\<lambda>(x, s). g x s) = Inr (y, s2)"
  from r obtain x s1 where "f s = Inr (x, s1)" and "g x s1 = Inr (y, s2)" by (rule rbind_pairE)
  then show "stream_ok s2 \<and> sData s2 = sData s \<and> sPos s \<le> sPos s2"
    using steadyD [OF f s] steadyD [OF g] by fastforce
qed

lemma steady_read: "n < 2 ^ 63 \<Longrightarrow> steady (stream_read n)"
proof (rule steadyI)
  fix s assume s: "stream_ok s" and n: "n < 2 ^ 63"
  show "stream_read n s \<noteq> Inl Diverges" by (simp add: stream_read_def Let_def)
  fix x s' assume r: "stream_read n s = Inr (x, s')"
  have l: "sPos s + n < 2 ^ 64" using s n by (simp add: stream_ok_def)
  then have "\<not> length (sData s) < sPos s + n" using stream_read_out [of s n] r by auto
  then show "stream_ok s' \<and> sData s' = sData s \<and> sPos s \<le> sPos s'"
    using stream_read_in [of s n] r s by (auto simp: stream_ok_def)
qed

lemma steady_word:
  assumes "LENGTH('w::len) < 2 ^ 63"
  shows "steady (read_word stream_read :: stream \<Rightarrow> ('w word \<times> stream) res)"
  unfolding read_word_def using assms by (intro steady_bind steady_read steady_return) simp_all

lemma steady_nat: "n < 2 ^ 63 \<Longrightarrow> steady (\<lambda>s. rbind (stream_read n s) (\<lambda>(x, s). Inr (le_nat x, s)))"
  by (intro steady_bind steady_read steady_return)

lemma steady_ReadCompactSize: "steady (ReadCompactSize stream_read)"
  unfolding ReadCompactSize_def Let_def
  by (intro steady_bind steady_read steady_if steady_return steady_throw steady_nat) simp_all

lemma steady_bounded:
  assumes "steady f" and "\<And>x. P x \<Longrightarrow> steady (g x)" and "\<And>s x s'. f s = Inr (x, s') \<Longrightarrow> P x"
  shows "steady (\<lambda>s. rbind (f s) (\<lambda>(x, s). g x s))"
proof -
  define h where "h x = (if P x then g x else (\<lambda>s. Inr (undefined, s)))" for x
  have "steady (\<lambda>s. rbind (f s) (\<lambda>(x, s). h x s))"
    using assms(1,2) by (intro steady_bind) (auto simp: h_def steady_return)
  moreover have "rbind (f s) (\<lambda>(x, s). h x s) = rbind (f s) (\<lambda>(x, s). g x s)" for s
    by (rule rbind_cong [OF refl]) (auto simp: h_def dest: assms(3))
  ultimately show ?thesis by simp
qed

lemma steady_string: "steady (read_string stream_read)"
  unfolding read_string_def
  by (rule steady_bounded [OF steady_ReadCompactSize, where P = "\<lambda>n. n \<le> MAX_SIZE"])
    (auto intro!: steady_if steady_read steady_return simp: MAX_SIZE_def dest: ReadCompactSize_limit)

lemma steady_blocks: "n \<le> MAX_SIZE \<Longrightarrow> steady (read_blocks stream_read n v)"
proof (induction n arbitrary: v rule: less_induct)
  case (less n)
  show ?case
  proof (cases "n = 0")
    case True
    then show ?thesis by (subst read_blocks.simps [abs_def]) (simp add: steady_return)
  next
    case False
    have "steady (\<lambda>s. rbind (stream_read (min n BLOCK_LIMIT) s)
        (\<lambda>(bs, s). read_blocks stream_read (n - min n BLOCK_LIMIT) (v @ bs) s))"
      using False less.prems
      by (intro steady_bind steady_read less.IH) (auto simp: BLOCK_LIMIT_def MAX_SIZE_def)
    moreover have "read_blocks stream_read n v s = rbind (stream_read (min n BLOCK_LIMIT) s)
        (\<lambda>(bs, s). read_blocks stream_read (n - min n BLOCK_LIMIT) (v @ bs) s)" for s
      using False by (subst read_blocks.simps) (simp add: Let_def)
    ultimately show ?thesis by (simp add: steady_def)
  qed
qed

lemma steady_vector: "steady (read_vector stream_read)"
  unfolding read_vector_def
  by (rule steady_bounded [OF steady_ReadCompactSize, where P = "\<lambda>n. n \<le> MAX_SIZE"])
    (auto intro: steady_blocks dest: ReadCompactSize_limit)

section \<open>Operations read forward\<close>

abbreviation script_of :: "condition \<Rightarrow> stream" where
  "script_of s \<equiv> ssCondition (cvContract s)"

definition forward :: "condition \<Rightarrow> condition \<Rightarrow> bool" where
  "forward s s' \<longleftrightarrow> (stream_ok (script_of s) \<longrightarrow> stream_ok (script_of s') \<and>
     sData (script_of s') = sData (script_of s) \<and> sPos (script_of s) \<le> sPos (script_of s'))"

lemma forward_refl [simp]: "forward s s"
  by (simp add: forward_def)

lemma forward_trans: "forward s s1 \<Longrightarrow> forward s1 s2 \<Longrightarrow> forward s s2"
  by (auto simp: forward_def)

lemma forward_same: "cvContract s' = cvContract s \<Longrightarrow> forward s s'"
  by (simp add: forward_def)

lemma cv_read_forward:
  assumes "steady f" and "cv_read (ccond_lift f) s = Inr (x, s')"
  shows "forward s s'"
proof -
  from assms(2) obtain t where t: "f (script_of s) = Inr (x, t)"
    and s': "s' = s\<lparr>cvContract := (cvContract s)\<lparr>ssCondition := t\<rparr>\<rparr>"
    by (auto simp: cv_read_def ccond_lift_def)
  show ?thesis using steadyD [OF assms(1) _ t] by (auto simp: forward_def s')
qed

lemma cv_read_nd:
  assumes "steady f" and "stream_ok (script_of s)"
  shows "cv_read (ccond_lift f) s \<noteq> Inl Diverges"
  using steady_nd [OF assms] by (auto simp: cv_read_def ccond_lift_def rbind_eq_Inl)

lemma steady_words:
  "steady (read_word stream_read :: stream \<Rightarrow> (u8 \<times> stream) res)"
  "steady (read_word stream_read :: stream \<Rightarrow> (u16 \<times> stream) res)"
  "steady (read_word stream_read :: stream \<Rightarrow> (u32 \<times> stream) res)"
  "steady (read_word stream_read :: stream \<Rightarrow> (u64 \<times> stream) res)"
  "steady (read_word stream_read :: stream \<Rightarrow> (u256 \<times> stream) res)"
  "steady (read_word stream_read :: stream \<Rightarrow> (u512 \<times> stream) res)"
  "steady (read_word stream_read :: stream \<Rightarrow> (u1024 \<times> stream) res)"
  by (rule steady_word, simp)+

lemmas script_reads = cv_read_forward [OF steady_words(1), folded cond_word_def]
  cv_read_forward [OF steady_words(2), folded cond_word_def]
  cv_read_forward [OF steady_words(3), folded cond_word_def] cv_read_forward [OF steady_words(4), folded cond_word_def]
  cv_read_forward [OF steady_words(5), folded cond_word_def] cv_read_forward [OF steady_words(6), folded cond_word_def]
  cv_read_forward [OF steady_words(7), folded cond_word_def] cv_read_forward [OF steady_string, folded cond_string_def]
  cv_read_forward [OF steady_vector, folded cond_vector_def]

lemmas script_reads_nd = cv_read_nd [OF steady_words(1), folded cond_word_def]
  cv_read_nd [OF steady_words(2), folded cond_word_def]
  cv_read_nd [OF steady_words(3), folded cond_word_def] cv_read_nd [OF steady_words(4), folded cond_word_def]
  cv_read_nd [OF steady_words(5), folded cond_word_def] cv_read_nd [OF steady_words(6), folded cond_word_def]
  cv_read_nd [OF steady_words(7), folded cond_word_def] cv_read_nd [OF steady_string, folded cond_string_def]
  cv_read_nd [OF steady_vector, folded cond_vector_def]

text \<open>The memory operations do not touch the script.\<close>

lemma vm_keeps:
  "alloc_word n s = Inr (v, s') \<Longrightarrow> cvContract s' = cvContract (s :: condition)"
  "alloc_bytes d s = Inr (v, s') \<Longrightarrow> cvContract s' = cvContract s"
  "alloc_wide n s = Inr (v, s') \<Longrightarrow> cvContract s' = cvContract s"
  "deallocate v s = Inr s' \<Longrightarrow> cvContract s' = cvContract s"
  "dealloc_bytes v s = Inr (d, s') \<Longrightarrow> cvContract s' = cvContract s"
  "dealloc_wide v s = Inr (n, s') \<Longrightarrow> cvContract s' = cvContract s"
  "add_cost k s = Inr s' \<Longrightarrow> cvContract s' = cvContract s"
  by (auto simp: alloc_word_def alloc_bytes_def alloc_wide_def deallocate_def dealloc_bytes_def dealloc_wide_def
      vm_clear_def vm_put_def add_cost_def Let_def split: if_splits)

lemma vm_put_keeps [simp]: "cvContract (vm_put v x s) = cvContract s"
  by (simp add: vm_put_def)

lemma vm_nd [simp]:
  "alloc_word n s \<noteq> Inl Diverges" "alloc_bytes d s \<noteq> Inl Diverges" "alloc_wide n s \<noteq> Inl Diverges"
  "dealloc_check v s \<noteq> Inl Diverges" "vm_bytes v s \<noteq> Inl Diverges" "vm_at v s \<noteq> Inl Diverges"
  "deallocate v s \<noteq> Inl Diverges" "dealloc_bytes v s \<noteq> Inl Diverges" "dealloc_wide v s \<noteq> Inl Diverges"
  "add_cost k c \<noteq> Inl Diverges"
  by (auto simp: alloc_word_def alloc_bytes_def alloc_wide_def deallocate_def dealloc_bytes_def dealloc_wide_def
      dealloc_check_def vm_bytes_def vm_at_def add_cost_def Let_def rbind_eq_Inl split: if_splits option.splits)

lemma push_keeps:
  "push_word n k s = Inr (b, v, s') \<Longrightarrow> cvContract s' = cvContract s"
  "push_wide n k s = Inr (b, v, s') \<Longrightarrow> cvContract s' = cvContract s"
  "push_bytes d k s = Inr (b, v, s') \<Longrightarrow> cvContract s' = cvContract s"
  by (auto simp: push_word_def push_wide_def push_bytes_def dest!: vm_keeps)

lemma push_nd [simp]:
  "push_word n k s \<noteq> Inl Diverges" "push_wide n k s \<noteq> Inl Diverges" "push_bytes d k s \<noteq> Inl Diverges"
  by (auto simp: push_word_def push_wide_def push_bytes_def rbind_eq_Inl)

lemma exp_loop_keeps:
  "exp_loop v w b e s = Inr s' \<Longrightarrow> cvContract s' = cvContract s"
proof (induction v w b e s rule: exp_loop.induct)
  case (1 v w b e s)
  from "1.prems" show ?case using "1.IH" by (subst (asm) exp_loop.simps) (auto split: if_splits)
qed

lemma exp_loop_nd [simp]: "exp_loop v w b e s \<noteq> Inl Diverges"
proof (induction v w b e s rule: exp_loop.induct)
  case (1 v w b e s)
  then show ?case by (subst exp_loop.simps) (auto simp: rbind_eq_Inl split: if_splits)
qed

lemma binary_op_keeps: "binary_op nOP v w s = Inr (u, s') \<Longrightarrow> cvContract s' = cvContract s"
  by (auto simp: binary_op_def arith_def op_exp_def op_cat_def Let_def split: if_splits dest!: vm_keeps exp_loop_keeps)

lemma binary_op_nd [simp]: "binary_op nOP v w s \<noteq> Inl Diverges"
  by (auto simp: binary_op_def arith_def op_exp_def op_cat_def op_add_def op_sub_def op_div_def op_mul_def op_mod_def
      Let_def rbind_eq_Inl split: if_splits)

section \<open>Parsers that end\<close>

definition ends :: "('s \<Rightarrow> 'a res) \<Rightarrow> bool" where
  "ends f \<longleftrightarrow> (\<forall>s. f s \<noteq> Inl Diverges)"

lemma endsD: "ends f \<Longrightarrow> f s \<noteq> Inl Diverges"
  by (simp add: ends_def)

lemma ends_bind: "ends f \<Longrightarrow> (\<And>x. ends (g x)) \<Longrightarrow> ends (\<lambda>s. rbind (f s) (\<lambda>(x, s). g x s))"
  by (auto simp: ends_def rbind_eq_Inl)

lemma ends_if: "ends f \<Longrightarrow> ends g \<Longrightarrow> ends (\<lambda>s. if b s then f s else g s)"
  by (simp add: ends_def)

lemma ends_return [simp]: "ends (\<lambda>s. Inr (x s))" "ends (\<lambda>s. Inl (Throw m))" "ends (\<lambda>s. Inl (Reject m))"
  by (simp_all add: ends_def)

lemma ends_reads [simp]: "ends (stream_read n)" "ends (state_read n)"
  by (simp_all add: ends_def stream_read_def state_read_def Let_def)

lemma ends_word: "(\<And>n. ends (rd n)) \<Longrightarrow> ends (read_word rd)"
  unfolding read_word_def by (intro ends_bind) simp_all

lemma ends_size: "(\<And>n. ends (rd n)) \<Longrightarrow> ends (ReadCompactSize rd)"
  unfolding ReadCompactSize_def Let_def by (intro ends_bind ends_if) simp_all

lemma ends_string: "(\<And>n. ends (rd n)) \<Longrightarrow> ends (read_string rd)"
  unfolding read_string_def by (intro ends_bind ends_size ends_if) simp_all

lemma ends_blocks: "(\<And>n. ends (rd n)) \<Longrightarrow> ends (read_blocks rd n v)"
proof (induction n arbitrary: v rule: less_induct)
  case (less n)
  have "read_blocks rd n v s \<noteq> Inl Diverges" for s
  proof (cases "n = 0")
    case True
    then show ?thesis by (simp add: read_blocks.simps)
  next
    case False
    then show ?thesis using less
      by (subst read_blocks.simps) (auto simp: Let_def rbind_eq_Inl BLOCK_LIMIT_def ends_def)
  qed
  then show ?case by (simp add: ends_def)
qed

lemma ends_vector: "(\<And>n. ends (rd n)) \<Longrightarrow> ends (read_vector rd)"
  unfolding read_vector_def by (intro ends_bind ends_size ends_blocks) simp_all

lemma ends_state: "ends (read_state stream_read)"
  unfolding read_state_def by (intro ends_bind ends_word ends_vector) simp_all

lemmas state_reads_nd [simp] = endsD [OF ends_word [of state_read, OF ends_reads(2)]] endsD [OF ends_size [of state_read, OF ends_reads(2)]]
  endsD [OF ends_string [of state_read, OF ends_reads(2)]] endsD [OF ends_vector [of state_read, OF ends_reads(2)]]

lemma parse_loop_nd [simp]: "parse_loop s m \<noteq> Inl Diverges"
proof (induction s m rule: parse_loop.induct)
  case (1 s m)
  have "parse_one s m \<noteq> Inl Diverges"
    by (auto simp: parse_one_def parse_field_def Let_def rbind_eq_Inl split: if_splits option.splits)
  then show ?case using 1 by (subst parse_loop.simps) (auto simp: rbind_eq_Inl)
qed

lemma object_nd [simp]:
  "Object_Parse ob \<noteq> Inl Diverges" "Object_Type n ob \<noteq> Inl Diverges" "Object_Read n ob \<noteq> Inl Diverges"
  "Object_ReadString n ob \<noteq> Inl Diverges" "Object_ReadBytes n ob \<noteq> Inl Diverges"
  by (auto simp: Object_Parse_def Object_Type_def Object_Read_def Object_ReadString_def Object_ReadBytes_def
      read_field_def rbind_eq_Inl split: if_splits option.splits)

lemma caller_state_nd [simp]: "caller_state c \<noteq> Inl Diverges"
  using endsD [OF ends_word [of stream_read, OF ends_reads(1)]] endsD [OF ends_state]
  by (auto simp: caller_state_def rbind_eq_Inl Contract_Reset_def seek_op_def seek_cond_def seek_reg_def stream_seek_def
      Let_def reg_word_def reg_read_state_def creg_lift_def split: if_splits)

section \<open>Values read forward\<close>

lemma or_false_Inr:
  "or_false v s r k = Inr y \<longleftrightarrow> (\<exists>x. r = Inr x \<and> k x = Inr y) \<or> (\<exists>e. r = Inl (Reject e) \<and> y = (False, v, s))"
  by (auto simp: or_false_def split: sum.splits error.splits)

lemma or_false_nd: "r \<noteq> Inl Diverges \<Longrightarrow> (\<And>x. r = Inr x \<Longrightarrow> k x \<noteq> Inl Diverges) \<Longrightarrow> or_false v s r k \<noteq> Inl Diverges"
  by (auto simp: or_false_def split: sum.splits error.splits)

lemma push_field_keeps: "push_field n ob t v s = Inr (b, u, s') \<Longrightarrow> cvContract s' = cvContract s"
  unfolding push_field_def by (auto simp: or_false_Inr split: if_splits dest: push_keeps)

lemma push_field_nd [simp]: "push_field n ob t v s \<noteq> Inl Diverges"
  unfolding push_field_def by (simp add: or_false_nd)

lemma state_cost_keeps: "state_cost nOP st s = Inr s' \<Longrightarrow> cvContract s' = cvContract s"
  unfolding state_cost_def by (auto split: if_splits dest: vm_keeps)

lemma state_cost_nd [simp]: "state_cost nOP st s \<noteq> Inl Diverges"
  unfolding state_cost_def by (auto simp: rbind_eq_Inl)

lemma field_value_forward: "field_value st v s = Inr (b, u, s') \<Longrightarrow> forward s s'"
  unfolding field_value_def
  by (auto simp: or_false_Inr split: if_splits dest!: push_field_keeps intro: script_reads
      forward_trans [OF script_reads(8) forward_same])

lemma field_value_nd: "stream_ok (script_of s) \<Longrightarrow> field_value st v s \<noteq> Inl Diverges"
  unfolding field_value_def by (auto simp: rbind_eq_Inl or_false_nd script_reads_nd)

lemma state_part_forward: "state_part nOP st v s = Inr (b, u, s') \<Longrightarrow> forward s s'"
  unfolding state_part_def
  by (auto split: if_splits intro: forward_same field_value_forward dest!: vm_keeps)

lemma state_part_nd: "stream_ok (script_of s) \<Longrightarrow> state_part nOP st v s \<noteq> Inl Diverges"
  unfolding state_part_def by (auto simp: rbind_eq_Inl field_value_nd)

lemma register_op_forward: "register_op W nOP v s = Inr (b, u, s') \<Longrightarrow> forward s s'"
  unfolding register_op_def register_state_def
  by (auto simp: forward_def split: option.splits dest!: vm_keeps state_cost_keeps state_part_forward)

lemma register_op_nd: "stream_ok (script_of s) \<Longrightarrow> register_op W nOP v s \<noteq> Inl Diverges"
  unfolding register_op_def register_state_def
  by (auto simp: rbind_eq_Inl split: option.splits dest!: vm_keeps state_cost_keeps) (metis state_part_nd)

lemma prestate_op_forward: "prestate_op c nOP v s = Inr (b, u, s') \<Longrightarrow> forward s s'"
  unfolding prestate_op_def
  by (auto simp: forward_def dest!: state_cost_keeps state_part_forward)

lemma prestate_op_nd: "stream_ok (script_of s) \<Longrightarrow> prestate_op c nOP v s \<noteq> Inl Diverges"
  unfolding prestate_op_def by (auto simp: rbind_eq_Inl dest!: state_cost_keeps) (metis state_part_nd)

lemma literal_forward: "literal nOP s = Inr (b, u, s') \<Longrightarrow> forward s s'"
  unfolding literal_def
  by (auto split: if_splits dest!: push_keeps intro: forward_trans [OF script_reads(1) forward_same]
      forward_trans [OF script_reads(2) forward_same] forward_trans [OF script_reads(3) forward_same]
      forward_trans [OF script_reads(4) forward_same] forward_trans [OF script_reads(5) forward_same]
      forward_trans [OF script_reads(6) forward_same] forward_trans [OF script_reads(7) forward_same]
      forward_trans [OF script_reads(8) forward_same] forward_trans [OF script_reads(9) forward_same])

lemma literal_nd: "stream_ok (script_of s) \<Longrightarrow> literal nOP s \<noteq> Inl Diverges"
  unfolding literal_def by (auto simp: rbind_eq_Inl script_reads_nd)

lemma subdata_forward:
  assumes "op_subdata v s = Inr (b, u, s')"
  shows "forward s s'"
proof -
  from assms obtain n s1 m s2 where r: "cv_read cond_word s = Inr (n :: u16, s1)" "cv_read cond_word s1 = Inr (m :: u16, s2)"
    and k: "cvContract s' = cvContract s2"
    by (auto simp: op_subdata_def split: if_splits dest!: vm_keeps)
  show ?thesis by (rule forward_trans [OF script_reads(2) [OF r(1)] forward_trans [OF script_reads(2) [OF r(2)] forward_same [OF k]]])
qed

lemma subdata_nd: "stream_ok (script_of s) \<Longrightarrow> op_subdata v s \<noteq> Inl Diverges"
  unfolding op_subdata_def
  by (auto simp: rbind_eq_Inl script_reads_nd split: if_splits dest!: script_reads(2)) (simp add: forward_def script_reads_nd)

lemma leaf_keeps:
  "op_inc v s = Inr (b, u, s') \<Longrightarrow> cvContract s' = cvContract s"
  "op_dec v s = Inr (b, u, s') \<Longrightarrow> cvContract s' = cvContract s"
  "push_operations d v s = Inr (b, u, s') \<Longrightarrow> cvContract s' = cvContract s"
  "hash_op h v s = Inr (b, u, s') \<Longrightarrow> cvContract s' = cvContract s"
  by (auto simp: op_inc_def op_dec_def push_operations_def hash_op_def split: if_splits dest!: vm_keeps push_keeps)

lemma leaf_nd [simp]:
  "op_inc v s \<noteq> Inl Diverges" "op_dec v s \<noteq> Inl Diverges" "push_operations d v s \<noteq> Inl Diverges"
  "hash_op h v s \<noteq> Inl Diverges"
  by (auto simp: op_inc_def op_dec_def push_operations_def hash_op_def rbind_eq_Inl)

lemma value_op_forward:
  assumes "value_op E W c nOP v s = Inr (b, u, s')"
  shows "forward s s'"
  using assms unfolding value_op_def caller_operations_def contract_operations_def Let_def
  by (elim if_resE) (auto split: if_splits intro: subdata_forward literal_forward register_op_forward
      prestate_op_forward forward_same leaf_keeps push_keeps)

lemma value_op_nd: "stream_ok (script_of s) \<Longrightarrow> value_op E W c nOP v s \<noteq> Inl Diverges"
  unfolding value_op_def caller_operations_def contract_operations_def Let_def
  by (simp add: subdata_nd literal_nd register_op_nd prestate_op_nd)

section \<open>The evaluation ends\<close>

definition left :: "condition \<Rightarrow> nat" where
  "left s = length (sData (script_of s)) - sPos (script_of s)"

lemma forward_left: "forward s s' \<Longrightarrow> stream_ok (script_of s) \<Longrightarrow> stream_ok (script_of s') \<and> left s' \<le> left s"
  by (auto simp: forward_def left_def)

lemma script_byte:
  assumes "cv_read cond_word s = Inr (nOP :: u8, s')" and "stream_ok (script_of s)"
  shows "s' = s\<lparr>cvContract := (cvContract s)\<lparr>ssCondition := (script_of s)\<lparr>sPos := sPos (script_of s) + 1\<rparr>\<rparr>\<rparr>"
    and "sPos (script_of s) < length (sData (script_of s))" and "left s' < left s" and "stream_ok (script_of s')"
proof -
  have lt: "sPos (script_of s) < length (sData (script_of s))"
  proof (rule ccontr)
    assume "\<not> ?thesis"
    then have "stream_read 1 (script_of s) = Inl (Throw ''reached end of stream'')"
      using assms(2) by (intro stream_read_out) (auto simp: stream_ok_def)
    then show False using assms(1) by (simp add: cv_read_def cond_word_def ccond_lift_def read_word_def)
  qed
  have "stream_read 1 (script_of s) = Inr (take 1 (drop (sPos (script_of s)) (sData (script_of s))),
      (script_of s)\<lparr>sPos := sPos (script_of s) + 1\<rparr>)"
    using lt assms(2) by (intro stream_read_in) (auto simp: stream_ok_def)
  then show s': "s' = s\<lparr>cvContract := (cvContract s)\<lparr>ssCondition := (script_of s)\<lparr>sPos := sPos (script_of s) + 1\<rparr>\<rparr>\<rparr>"
    using assms(1) by (auto simp: cv_read_def cond_word_def ccond_lift_def read_word_def)
  show "sPos (script_of s) < length (sData (script_of s))" by (rule lt)
  show "left s' < left s" "stream_ok (script_of s')" using lt assms(2) by (simp_all add: s' left_def stream_ok_def)
qed

lemma script_rewind:
  assumes "stream_ok (script_of s)" and "0 < sPos (script_of s)"
  shows "Contract_Rewind 1 CONDITIONS (cvContract s) =
    Inr ((cvContract s)\<lparr>ssCondition := (script_of s)\<lparr>sPos := sPos (script_of s) - 1\<rparr>\<rparr>)"
proof -
  have "(int (sPos (script_of s)) - 1) mod 2 ^ 64 = int (sPos (script_of s) - 1)"
    using assms by (auto simp: stream_ok_def)
  moreover have "nat (int (sPos (script_of s)) - 1) = sPos (script_of s) - 1" using assms(2) by simp
  ultimately show ?thesis
    using assms by (auto simp: Contract_Rewind_def flag_set_def seek_cond_def stream_seek_def Let_def stream_ok_def)
qed

lemma GetValue_ends:
  assumes "left s < k" and "stream_ok (script_of s)"
  shows "GetValue k E W c v s \<noteq> Inl Diverges \<and> (\<forall>b u s'. GetValue k E W c v s = Inr (b, u, s') \<longrightarrow> forward s s')"
  using assms
proof (induction k arbitrary: v s)
  case (Suc k)
  show ?case
  proof (cases "Contract_End CONDITIONS (cvContract s) \<or> (\<exists>e. cv_read cond_word s = (Inl e :: (u8 \<times> condition) res))")
    case True
    then show ?thesis using script_reads_nd(1) [OF Suc.prems(2)] by (cases "Contract_End CONDITIONS (cvContract s)") auto
  next
    case False
    then obtain nOP s1 where r: "cv_read cond_word s = Inr (nOP :: u8, s1)"
      by (cases "cv_read cond_word s :: (u8 \<times> condition) res") auto
    note b = script_byte [OF r Suc.prems(2)]
    have f1: "forward s s1" by (rule script_reads(1) [OF r])
    have IH: "GetValue k E W c v s2 \<noteq> Inl Diverges" "GetValue k E W c v s2 = Inr (x, u, s3) \<Longrightarrow> forward s s3"
      if "forward s1 s2" for v s2 x u s3
    proof -
      have "left s2 < k" "stream_ok (script_of s2)" using forward_left [OF that b(4)] b(3) Suc.prems(1) by auto
      from Suc.IH [OF this] show "GetValue k E W c v s2 \<noteq> Inl Diverges"
        "GetValue k E W c v s2 = Inr (x, u, s3) \<Longrightarrow> forward s s3"
        using forward_trans [OF f1 that] forward_trans by blast+
    qed
    have IH1: "GetValue k E W c v s1 = Inr (x, u, s3) \<Longrightarrow> forward s1 s3" for v x u s3
      using Suc.IH [of s1] b(3,4) Suc.prems(1) by auto
    consider (bin) "is_binary nOP" | (val) "\<not> is_binary nOP" "is_value nOP" | (none) "\<not> is_binary nOP" "\<not> is_value nOP" by blast
    then show ?thesis
    proof cases
      case bin
      have eq: "GetValue (Suc k) E W c v s = rbind (GetValue k E W c null_value s1) (\<lambda>(ok, w, s2).
          if \<not> ok then Inr (False, v, s2) else rbind (binary_op nOP v w s2) (\<lambda>(u, s3). GetValue k E W c u s3))"
        using False r bin by simp
      have st: "forward s1 s3" if "GetValue k E W c null_value s1 = Inr (x, w, s2)" "binary_op nOP v w s2 = Inr (u, s3)" for x w s2 u s3
        using forward_trans [OF IH1 [OF that(1)] forward_same [OF binary_op_keeps [OF that(2)]]] .
      show ?thesis
      proof (intro conjI allI impI)
        show "GetValue (Suc k) E W c v s \<noteq> Inl Diverges"
          unfolding eq rbind_eq_Inl using IH(1) [OF forward_refl] IH(1) [OF st] by (auto simp: rbind_eq_Inl)
      next
        fix b u s' assume "GetValue (Suc k) E W c v s = Inr (b, u, s')"
        then show "forward s s'"
          unfolding eq using IH(2) [OF st] forward_trans [OF f1 IH1] by (auto split: if_splits)
      qed
    next
      case val
      have eq: "GetValue (Suc k) E W c v s = rbind (value_op E W c nOP v s1) (\<lambda>(ok, u, s2).
          if \<not> ok then Inr (False, u, s2) else GetValue k E W c u s2)"
        using False r val by simp
      show ?thesis
      proof (intro conjI allI impI)
        show "GetValue (Suc k) E W c v s \<noteq> Inl Diverges"
          unfolding eq rbind_eq_Inl using IH(1) [OF value_op_forward] value_op_nd [OF b(4)] by auto
      next
        fix b u s' assume "GetValue (Suc k) E W c v s = Inr (b, u, s')"
        then show "forward s s'"
          unfolding eq using IH(2) [OF value_op_forward] forward_trans [OF f1 value_op_forward] by (auto split: if_splits)
      qed
    next
      case none
      have "0 < sPos (script_of s1)" by (simp add: b(1))
      from script_rewind [OF b(4) this] show ?thesis using False r none b(1,2,4) Suc.prems(2)
        by (auto simp: rbind_eq_Inl forward_def)
    qed
  qed
qed simp

lemma script_fuel_left: "left s < script_fuel s"
  by (simp add: left_def script_fuel_def less_Suc_eq_le)

lemmas GetValue_nd = GetValue_ends [OF script_fuel_left, THEN conjunct1]
lemmas GetValue_forward = GetValue_ends [OF script_fuel_left, THEN conjunct2, rule_format]

lemma script_end: "Contract_End CONDITIONS (cvContract s) \<Longrightarrow> left s = 0"
  by (simp add: Contract_End_def flag_set_def stream_end_def left_def)

lemma compare_op_nd [simp]: "compare_op nOP v w s \<noteq> Inl Diverges"
proof -
  have r: "contains_rest vA vB i n \<noteq> Inl Diverges" for vA vB i n
    by (induction vA vB i n rule: contains_rest.induct) (subst contains_rest.simps, auto)
  have "contains_from vA vB i \<noteq> Inl Diverges" for vA vB i
    by (induction vA vB i rule: contains_from.induct) (subst contains_from.simps, auto simp: rbind_eq_Inl r split: if_splits)
  then show ?thesis by (simp add: compare_op_def vm_contains_def rbind_eq_Inl)
qed

text \<open>An evaluation leaves fewer bytes than it found.\<close>

lemma left_value:
  assumes "stream_ok (script_of s)" and "GetValue (script_fuel s) E W c null_value s = Inr (fL, vL, s1)"
  shows "stream_ok (script_of s1)" and "forward s s1" and "left s1 \<le> left s"
  using GetValue_forward [OF assms] forward_left [OF GetValue_forward [OF assms] assms(1)] by simp_all

lemma left_operator:
  assumes ok: "stream_ok (script_of s)" and g: "GetValue (script_fuel s) E W c null_value s = Inr (fL, vL, s1)"
    and r: "cv_read cond_word s1 = Inr (nOP :: u8, s2)"
  shows "stream_ok (script_of s2)" and "forward s s2" and "left s2 < left s"
  using left_value [OF ok g] script_byte [OF r left_value(1) [OF ok g]] forward_trans [OF _ script_reads(1) [OF r], of s]
  by simp_all

lemma right_value:
  assumes "stream_ok (script_of s)" and "GetValue (script_fuel s) E W c null_value s = Inr (fL, vL, s1)"
    and "cv_read cond_word s1 = Inr (nOP :: u8, s2)"
    and "GetValue (script_fuel s2) E W c null_value s2 = Inr (fR, vR, s3)" and "cvContract s' = cvContract s3"
  shows "forward s s' \<and> left s' < left s"
proof -
  note t = left_operator [OF assms(1-3)]
  note f = GetValue_forward [OF t(1) assms(4)]
  show ?thesis using t f forward_trans [of s s2 s3] forward_left [OF f] assms(5) by (auto simp: forward_def left_def)
qed

lemma EvaluateV1_ends:
  assumes ok: "stream_ok (script_of s)"
  shows "EvaluateV1 E W c s \<noteq> Inl Diverges \<and>
    (\<forall>b s'. EvaluateV1 E W c s = Inr (b, s') \<longrightarrow> forward s s' \<and> left s' < left s)"
  unfolding EvaluateV1_def
  using GetValue_nd [OF ok] script_reads_nd(1) [OF left_value(1) [OF ok]] left_operator [OF ok]
    GetValue_nd right_value [OF ok]
  by (auto simp: rbind_eq_Inl split: if_splits dest!: vm_keeps)

lemma EvaluateV2_ends:
  assumes ok: "stream_ok (script_of s)" and "0 < left s"
  shows "EvaluateV2 E W c s \<noteq> Inl Diverges \<and>
    (\<forall>b s'. EvaluateV2 E W c s = Inr (b, s') \<longrightarrow> forward s s' \<and> left s' < left s)"
proof (rule conjI; (intro allI impI)?)
  show "EvaluateV2 E W c s \<noteq> Inl Diverges"
    unfolding EvaluateV2_def
    using GetValue_nd [OF ok] script_reads_nd(1) [OF left_value(1) [OF ok]] GetValue_nd [OF left_operator(1) [OF ok]]
    by (auto simp: rbind_eq_Inl split: if_splits)
next
  fix b s' assume "EvaluateV2 E W c s = Inr (b, s')"
  then obtain fL vL s1 where g: "GetValue (script_fuel s) E W c null_value s = Inr (fL, vL, s1)"
    and rest: "(if Contract_End CONDITIONS (cvContract s1) then Inr (False, s1)
     else rbind (cv_read cond_word s1) (\<lambda>(nOP :: u8, s).
     if \<not> is_compare nOP then Inr (False, s)
     else rbind (GetValue (script_fuel s) E W c null_value s) (\<lambda>(fRight, vRight, s).
     rbind (if fL \<and> fRight then compare_op nOP vL vRight s else Inr False) (\<lambda>fRet.
     rbind (if fRight then deallocate vRight s else Inr s) (\<lambda>s.
     rbind (if fL then deallocate vL s else Inr s) (\<lambda>s. Inr (fRet, s))))))) = Inr (b, s')"
    unfolding EvaluateV2_def by auto
  show "forward s s' \<and> left s' < left s"
  proof (cases "Contract_End CONDITIONS (cvContract s1)")
    case True
    then show ?thesis using rest left_value(2) [OF ok g] script_end [OF True] assms(2) by simp
  next
    case False
    from rest [unfolded if_not_P [OF False]] obtain nOP s2 where r: "cv_read cond_word s1 = Inr (nOP :: u8, s2)"
      and r1: "(if \<not> is_compare nOP then Inr (False, s2)
        else rbind (GetValue (script_fuel s2) E W c null_value s2) (\<lambda>(fRight, vRight, s).
        rbind (if fL \<and> fRight then compare_op nOP vL vRight s else Inr False) (\<lambda>fRet.
        rbind (if fRight then deallocate vRight s else Inr s) (\<lambda>s.
        rbind (if fL then deallocate vL s else Inr s) (\<lambda>s. Inr (fRet, s)))))) = Inr (b, s')"
      by (rule rbind_pairE)
    have r2: "s' = s2 \<or> (\<exists>fR vR s3. GetValue (script_fuel s2) E W c null_value s2 = Inr (fR, vR, s3) \<and>
        (\<exists>s4. (if fR then deallocate vR s3 else Inr s3) = Inr s4 \<and> (if fL then deallocate vL s4 else Inr s4) = Inr s'))"
      using r1
    proof (rule if_resE)
      assume "rbind (GetValue (script_fuel s2) E W c null_value s2) (\<lambda>(fRight, vRight, s).
        rbind (if fL \<and> fRight then compare_op nOP vL vRight s else Inr False) (\<lambda>fRet.
        rbind (if fRight then deallocate vRight s else Inr s) (\<lambda>s.
        rbind (if fL then deallocate vL s else Inr s) (\<lambda>s. Inr (fRet, s))))) = Inr (b, s')"
      then obtain fR vR s3 where g2: "GetValue (script_fuel s2) E W c null_value s2 = Inr (fR, vR, s3)"
        and r3: "rbind (if fL \<and> fR then compare_op nOP vL vR s3 else Inr False) (\<lambda>fRet.
          rbind (if fR then deallocate vR s3 else Inr s3) (\<lambda>s.
          rbind (if fL then deallocate vL s else Inr s) (\<lambda>s. Inr (fRet, s)))) = Inr (b, s')"
        by (rule rbind_tripleE)
      from r3 obtain s4 where "(if fR then deallocate vR s3 else Inr s3) = Inr s4"
        "(if fL then deallocate vL s4 else Inr s4) = Inr s'" by (elim rbindE) simp
      with g2 show ?thesis by blast
    qed simp
    have "cvContract s' = cvContract s3"
      if "(if fR then deallocate vR s3 else Inr s3) = Inr s4" "(if fL then deallocate vL s4 else Inr s4) = Inr s'"
      for fR vR s3 s4 using that by (auto split: if_splits dest!: vm_keeps(4))
    then show ?thesis using r2 left_operator(2,3) [OF ok g r] right_value [OF ok g r] by blast
  qed
qed

lemma Evaluate_ends:
  assumes "stream_ok (script_of s)" and "0 < left s" and "cVersion c = 1 \<or> cVersion c = 2"
  shows "Evaluate E W c s \<noteq> Inl Diverges"
    and "Evaluate E W c s = Inr (b, s') \<Longrightarrow> forward s s' \<and> left s' < left s"
  using assms EvaluateV1_ends [OF assms(1)] EvaluateV2_ends [OF assms(1,2)] by (auto simp: Evaluate_def)

lemma join_nd [simp]: "join f st \<noteq> Inl Diverges"
  by (auto simp: join_def split: list.splits)

lemma script_step_ends:
  assumes ok: "stream_ok (script_of s)" and v: "cVersion c = 1 \<or> cVersion c = 2"
  shows "script_step E W c s \<noteq> Inl Diverges \<and>
    (\<forall>s'. script_step E W c s = Inr s' \<longrightarrow> forward s s' \<and> left s' < left s)"
proof (cases "cv_read cond_word s :: (u8 \<times> condition) res")
  case (Inl e)
  then show ?thesis using script_reads_nd(1) [OF ok] by (simp add: script_step_def)
next
  case (Inr x)
  then obtain nOP s1 where r: "cv_read cond_word s = Inr (nOP :: u8, s1)" by (cases x) auto
  note b = script_byte [OF r ok]
  have rw: "Contract_Rewind 1 CONDITIONS (cvContract s1) = Inr (cvContract s)"
    using script_rewind [OF b(4)] by (simp add: b(1))
  have s1: "s1\<lparr>cvContract := cvContract s\<rparr> = s" by (simp add: b(1))
  have l: "0 < left s" using b(2) by (simp add: left_def)
  have keep: "forward s s'" "left s' < left s" if "cvContract s' = cvContract s1" for s'
    using that b(2-4) by (auto simp: forward_def left_def b(1) stream_ok_def)
  have ev: "forward s (s'\<lparr>cvEvaluate := st\<rparr>)" "left (s'\<lparr>cvEvaluate := st\<rparr>) < left s"
    if "Evaluate E W c s = Inr (f, s')" for f s' st
    using Evaluate_ends(2) [OF ok l v that] by (auto simp: forward_def left_def)
  have eq: "script_step E W c s =
     (if nOP = OP_GROUP then add_cost 128 (s1\<lparr>cvEvaluate := (False, OP_RESERVED) # cvEvaluate s1\<rparr>)
      else if nOP = OP_UNGROUP then
        (case cvEvaluate s1 of [] \<Rightarrow> Inl (Reject ''malformed conditional statement'')
         | (f, _) # rest \<Rightarrow> rbind (join f rest) (\<lambda>st. Inr (s1\<lparr>cvEvaluate := st\<rparr>)))
      else if nOP = OP_AND then set_logic OP_AND OP_OR s1
      else if nOP = OP_OR then set_logic OP_OR OP_AND s1
      else if cvEvaluate s = [] then Inl (Reject ''malformed conditional statement'')
      else if snd (hd (cvEvaluate s)) \<noteq> OP_RESERVED \<and> snd (hd (cvEvaluate s)) \<noteq> OP_AND \<and>
         snd (hd (cvEvaluate s)) \<noteq> OP_OR then Inl (Reject ''conditional type is unsupported'')
      else rbind (Evaluate E W c s) (\<lambda>(f, s'). rbind (join f (cvEvaluate s')) (\<lambda>st. Inr (s'\<lparr>cvEvaluate := st\<rparr>))))"
    unfolding script_step_def r rbind_Inr prod.case rw s1 Let_def ..
  have lg: "set_logic x y s1 \<noteq> Inl Diverges" "set_logic x y s1 = Inr s' \<Longrightarrow> cvContract s' = cvContract s1" for x y s'
    by (auto simp: set_logic_def split: list.splits if_splits)
  have ug: "(case cvEvaluate s1 of [] \<Rightarrow> Inl (Reject m) | (f, _) # rest \<Rightarrow> rbind (join f rest) (\<lambda>st. Inr (s1\<lparr>cvEvaluate := st\<rparr>))) = r
      \<Longrightarrow> r \<noteq> Inl Diverges \<and> (\<forall>s'. r = Inr s' \<longrightarrow> cvContract s' = cvContract s1)" for m r
    by (auto simp: rbind_eq_Inl split: list.splits)
  have gr: "add_cost 128 (s1\<lparr>cvEvaluate := x\<rparr>) = Inr s' \<Longrightarrow> cvContract s' = cvContract s1" for x s'
    by (drule vm_keeps(7)) simp
  consider (group) "nOP = OP_GROUP" | (ungroup) "nOP = OP_UNGROUP" | (logic) "nOP = OP_AND \<or> nOP = OP_OR"
    | (other) "nOP \<noteq> OP_GROUP" "nOP \<noteq> OP_UNGROUP" "nOP \<noteq> OP_AND" "nOP \<noteq> OP_OR" by blast
  then show ?thesis
  proof cases
    case group
    then show ?thesis using eq gr keep by simp
  next
    case ungroup
    then have "script_step E W c s = (case cvEvaluate s1 of [] \<Rightarrow> Inl (Reject ''malformed conditional statement'')
         | (f, _) # rest \<Rightarrow> rbind (join f rest) (\<lambda>st. Inr (s1\<lparr>cvEvaluate := st\<rparr>)))" using eq by simp
    from ug [OF this [symmetric]] show ?thesis using keep by blast
  next
    case logic
    then show ?thesis using eq lg keep by auto
  next
    case other
    then have "script_step E W c s = (if cvEvaluate s = [] then Inl (Reject ''malformed conditional statement'')
      else if snd (hd (cvEvaluate s)) \<noteq> OP_RESERVED \<and> snd (hd (cvEvaluate s)) \<noteq> OP_AND \<and>
         snd (hd (cvEvaluate s)) \<noteq> OP_OR then Inl (Reject ''conditional type is unsupported'')
      else rbind (Evaluate E W c s) (\<lambda>(f, s'). rbind (join f (cvEvaluate s')) (\<lambda>st. Inr (s'\<lparr>cvEvaluate := st\<rparr>))))"
      using eq by simp
    then show ?thesis using Evaluate_ends(1) [OF ok l v] ev by (auto simp: rbind_eq_Inl)
  qed
qed

lemma script_loop_ends:
  assumes "left s < k" and "stream_ok (script_of s)" and "cVersion c = 1 \<or> cVersion c = 2"
  shows "script_loop k E W c s \<noteq> Inl Diverges"
  using assms
proof (induction k arbitrary: s)
  case (Suc k)
  have "script_loop k E W c s' \<noteq> Inl Diverges" if "script_step E W c s = Inr s'" for s'
    using script_step_ends [OF Suc.prems(2,3)] that forward_left Suc.prems(1,2) by (intro Suc.IH) (auto simp: assms(3), fastforce+)
  then show ?case using script_step_ends [OF Suc.prems(2,3)] by (auto simp: rbind_eq_Inl)
qed simp

lemma Condition_Execute_ends:
  assumes "length (sData (ssCondition c)) < 2 ^ 63" and "cVersion caller = 1 \<or> cVersion caller = 2"
  shows "Condition_Execute E W c caller \<noteq> Inl Diverges"
proof -
  have r: "Contract_Reset CONDITIONS c = Inr (c\<lparr>ssCondition := (ssCondition c)\<lparr>sPos := 0\<rparr>\<rparr>)"
    by (simp add: Contract_Reset_def flag_set_def seek_cond_def stream_seek_def Let_def)
  have "stream_ok (script_of (Condition_new (c\<lparr>ssCondition := (ssCondition c)\<lparr>sPos := 0\<rparr>\<rparr>) 0))"
    using assms(1) by (simp add: Condition_new_def stream_ok_def)
  from script_loop_ends [OF script_fuel_left this assms(2)] show ?thesis
    by (simp add: Condition_Execute_def r Let_def rbind_eq_Inl)
qed

section \<open>The memory stays in its bounds\<close>

definition vm_ok :: "'a vm_scheme \<Rightarrow> bool" where
  "vm_ok s \<longleftrightarrow> length (vRegister s) = CONDITION_REGISTERS \<and> nPointer s \<le> CONDITION_REGISTERS"

definition value_ok :: "vm_value \<Rightarrow> bool" where
  "value_ok v \<longleftrightarrow> nBegin v \<le> nEnd v"

lemma length_put_bytes [simp]: "length (put_bytes d rs) = length rs"
  by (induction d rs rule: put_bytes.induct) auto

lemma vm_ok_alloc:
  "alloc_word n s = Inr (v, s') \<Longrightarrow> vm_ok s \<Longrightarrow> vm_ok s' \<and> value_ok v"
  "alloc_bytes d s = Inr (v, s') \<Longrightarrow> vm_ok s \<Longrightarrow> vm_ok s' \<and> value_ok v"
  "alloc_wide m s = Inr (v, s') \<Longrightarrow> vm_ok s \<Longrightarrow> vm_ok s' \<and> value_ok v"
  by (auto simp: alloc_word_def alloc_bytes_def alloc_wide_def vm_ok_def value_ok_def Let_def split: if_splits)

lemma vm_ok_clear:
  assumes "dealloc_check v s = Inr ()" and "vm_ok s" and "value_ok v"
  shows "vm_ok (vm_clear v s)"
  using assms by (auto simp: dealloc_check_def vm_clear_def vm_ok_def value_ok_def value_size_def split: if_splits)

lemma vm_ok_dealloc:
  "deallocate v s = Inr s' \<Longrightarrow> vm_ok s \<Longrightarrow> value_ok v \<Longrightarrow> vm_ok s'"
  "dealloc_bytes v s = Inr (d, s') \<Longrightarrow> vm_ok s \<Longrightarrow> value_ok v \<Longrightarrow> vm_ok s'"
  "dealloc_wide v s = Inr (n, s') \<Longrightarrow> vm_ok s \<Longrightarrow> value_ok v \<Longrightarrow> vm_ok s'"
  using vm_ok_clear by (auto simp: deallocate_def dealloc_bytes_def dealloc_wide_def)

lemma vm_ok_put [simp]: "vm_ok (vm_put v x s) = vm_ok s"
  by (simp add: vm_put_def vm_ok_def)

lemma vm_ok_cost: "add_cost k s = Inr s' \<Longrightarrow> vm_ok s' = vm_ok s"
  by (auto simp: add_cost_def vm_ok_def split: if_splits)

lemma vm_ok_read: "cv_read f s = Inr (x, s') \<Longrightarrow> vm_ok s' = vm_ok s"
  by (auto simp: cv_read_def vm_ok_def)

lemma vm_ok_updates [simp]: "vm_ok (s\<lparr>cvContract := c\<rparr>) = vm_ok s" "vm_ok (s\<lparr>cvCost := k\<rparr>) = vm_ok s"
  by (simp_all add: vm_ok_def)

lemma vm_ok_push:
  "push_word n k s = Inr (b, u, s') \<Longrightarrow> vm_ok s \<Longrightarrow> vm_ok s' \<and> value_ok u"
  "push_wide m k s = Inr (b, u, s') \<Longrightarrow> vm_ok s \<Longrightarrow> vm_ok s' \<and> value_ok u"
  "push_bytes d k s = Inr (b, u, s') \<Longrightarrow> vm_ok s \<Longrightarrow> vm_ok s' \<and> value_ok u"
  by (auto simp: push_word_def push_wide_def push_bytes_def dest!: vm_ok_cost vm_ok_alloc)

lemma vm_ok_exp_loop: "exp_loop v w b e s = Inr s' \<Longrightarrow> vm_ok s \<Longrightarrow> vm_ok s'"
proof (induction v w b e s rule: exp_loop.induct)
  case (1 v w b e s)
  from "1.prems" show ?case using "1.IH" by (subst (asm) exp_loop.simps) (auto split: if_splits)
qed

lemma vm_ok_binary:
  assumes "binary_op nOP v w s = Inr (u, s')" and "vm_ok s" and "value_ok v" and "value_ok w"
  shows "vm_ok s' \<and> value_ok u"
proof -
  have "arith msg f k v w s = Inr (u, s') \<Longrightarrow> ?thesis" for msg f k
    using assms(2-4) vm_ok_dealloc(1) by (fastforce simp: arith_def split: if_splits dest!: vm_ok_cost)
  moreover have "op_exp v w s = Inr (u, s') \<Longrightarrow> ?thesis"
    using assms(2-4) by (auto simp: op_exp_def Let_def split: if_splits dest!: vm_ok_cost vm_ok_exp_loop vm_ok_dealloc(1))
  moreover have "op_cat v w s = Inr (u, s') \<Longrightarrow> ?thesis"
    using assms(2-4) by (auto simp: op_cat_def dest!: vm_ok_cost vm_ok_alloc(2) vm_ok_dealloc(1))
  ultimately show ?thesis using assms(1) by (auto simp: binary_op_def split: if_splits)
qed

lemma vm_ok_field:
  assumes "push_field n ob t v s = Inr (b, u, s')" and "vm_ok s" and "value_ok v"
  shows "vm_ok s' \<and> value_ok u"
  using assms unfolding push_field_def
  by (elim if_resE) (auto simp: or_false_Inr dest: vm_ok_push)

lemma vm_ok_state_part:
  assumes "state_part nOP st v s = Inr (b, u, s')" and "vm_ok s" and "value_ok v"
  shows "vm_ok s' \<and> value_ok u"
proof -
  have "field_value st v s = Inr (b, u, s') \<Longrightarrow> ?thesis"
    using assms(2,3) by (auto simp: field_value_def or_false_Inr split: if_splits dest!: vm_ok_read dest: vm_ok_field)
  then show ?thesis
    using assms unfolding state_part_def by (elim if_resE) (auto dest: vm_ok_alloc)
qed

lemma vm_ok_state_cost: "state_cost nOP st s = Inr s' \<Longrightarrow> vm_ok s' = vm_ok s"
  unfolding state_cost_def by (auto split: if_splits dest: vm_ok_cost)

lemma vm_ok_value_op:
  assumes "value_op E W c nOP v s = Inr (b, u, s')" and "vm_ok s" and "value_ok v"
  shows "vm_ok s' \<and> value_ok u"
proof -
  have 1: "op_inc v s = Inr (b, u, s') \<Longrightarrow> ?thesis" "op_dec v s = Inr (b, u, s') \<Longrightarrow> ?thesis"
    using assms(2,3) by (auto simp: op_inc_def op_dec_def split: if_splits dest!: vm_ok_cost)
  have 2: "op_subdata v s = Inr (b, u, s') \<Longrightarrow> ?thesis"
    using assms(2,3) by (auto simp: op_subdata_def split: if_splits dest!: vm_ok_read vm_ok_cost vm_ok_alloc(2) vm_ok_dealloc(2))
  have 3: "literal nOP s = Inr (b, u, s') \<Longrightarrow> ?thesis"
    using assms(2) unfolding literal_def by (elim if_resE) (auto split: if_splits dest!: vm_ok_read dest: vm_ok_push)
  have 4: "register_op W nOP v s = Inr (b, u, s') \<Longrightarrow> ?thesis"
    using assms(2,3) unfolding register_op_def register_state_def
    by (auto split: option.splits dest!: vm_ok_dealloc(3) vm_ok_state_cost dest: vm_ok_state_part)
  have 5: "prestate_op c nOP v s = Inr (b, u, s') \<Longrightarrow> ?thesis"
    using assms(2,3) unfolding prestate_op_def by (auto dest!: vm_ok_state_cost dest: vm_ok_state_part)
  have 6: "push_operations d v s = Inr (b, u, s') \<Longrightarrow> ?thesis" for d
    using assms(2,3) unfolding push_operations_def by (auto split: if_splits dest!: vm_ok_alloc(2))
  have 7: "hash_op h v s = Inr (b, u, s') \<Longrightarrow> ?thesis" for h :: "byte list \<Rightarrow> 512 word"
    using assms(2,3) unfolding hash_op_def by (auto split: if_splits dest!: vm_ok_dealloc(1) dest: vm_ok_push)
  have 8: "hash_op h v s = Inr (b, u, s') \<Longrightarrow> ?thesis" for h :: "byte list \<Rightarrow> 256 word"
    using assms(2,3) unfolding hash_op_def by (auto split: if_splits dest!: vm_ok_dealloc(1) dest: vm_ok_push)
  show ?thesis
    using assms unfolding value_op_def caller_operations_def contract_operations_def Let_def
    by (elim if_resE) (auto split: if_splits dest: 1 2 3 4 5 6 7 8 vm_ok_push)
qed

lemma vm_ok_GetValue:
  assumes "GetValue k E W c v s = Inr (b, u, s')" and "vm_ok s" and "value_ok v"
  shows "vm_ok s' \<and> value_ok u"
  using assms
proof (induction k arbitrary: v s b u s')
  case (Suc k)
  show ?case
  proof (cases "Contract_End CONDITIONS (cvContract s)")
    case True
    then show ?thesis using Suc.prems by simp
  next
    case False
    with Suc.prems(1) obtain nOP s1 where r: "cv_read cond_word s = Inr (nOP :: u8, s1)"
      by (auto split: if_splits)
    have s1: "vm_ok s1" using vm_ok_read [OF r] Suc.prems(2) by simp
    have nv: "value_ok null_value" by (simp add: null_value_def value_ok_def)
    consider (bin) "is_binary nOP" | (val) "\<not> is_binary nOP" "is_value nOP" | (none) "\<not> is_binary nOP" "\<not> is_value nOP" by blast
    then show ?thesis
    proof cases
      case bin
      with False r Suc.prems(1) obtain ok w s2 where g: "GetValue k E W c null_value s1 = Inr (ok, w, s2)"
        and rest: "(if \<not> ok then Inr (False, v, s2)
          else rbind (binary_op nOP v w s2) (\<lambda>(u, s). GetValue k E W c u s)) = Inr (b, u, s')" by auto
      note g2 = Suc.IH [OF g s1 nv]
      from rest show ?thesis
        using g2 Suc.prems(3) vm_ok_binary [of nOP v w s2] Suc.IH by (auto split: if_splits)
    next
      case val
      with False r Suc.prems(1) obtain ok w s2 where g: "value_op E W c nOP v s1 = Inr (ok, w, s2)"
        and rest: "(if \<not> ok then Inr (False, w, s2) else GetValue k E W c w s2) = Inr (b, u, s')" by auto
      from rest show ?thesis using vm_ok_value_op [OF g s1 Suc.prems(3)] Suc.IH by (auto split: if_splits)
    next
      case none
      then show ?thesis using False r Suc.prems(1,3) s1 by auto
    qed
  qed
qed simp

section \<open>Comparing two literals\<close>

definition lit64 :: "u64 \<Rightarrow> byte list" where
  "lit64 x = 0x73 # ser_word x"

definition compare_script :: "u8 \<Rightarrow> u64 \<Rightarrow> u64 \<Rightarrow> byte list" where
  "compare_script nOP x y = lit64 x @ [nOP] @ lit64 y"

definition at_pos :: "nat \<Rightarrow> condition \<Rightarrow> condition" where
  "at_pos k s = s\<lparr>cvContract := (cvContract s)\<lparr>ssCondition := (script_of s)\<lparr>sPos := k\<rparr>\<rparr>\<rparr>"

lemma at_pos_fields [simp]:
  "sData (script_of (at_pos k s)) = sData (script_of s)" "sPos (script_of (at_pos k s)) = k"
  "vRegister (at_pos k s) = vRegister s" "nPointer (at_pos k s) = nPointer s" "cvCost (at_pos k s) = cvCost s"
  "cvEvaluate (at_pos k s) = cvEvaluate s" "at_pos j (at_pos k s) = at_pos j s"
  by (simp_all add: at_pos_def)

lemma at_pos_id: "sPos (script_of s) = k \<Longrightarrow> at_pos k s = s"
  by (auto simp: at_pos_def)

lemma script_word:
  fixes w :: "'w::len word"
  assumes "stream_ok (script_of s)" and "8 dvd LENGTH('w)"
    and "sData (script_of s) = pre @ ser_word w @ post" and "sPos (script_of s) = length pre"
  shows "cv_read cond_word s = Inr (w, at_pos (length pre + LENGTH('w) div 8) s)"
  using bs.read_word_roundtrip [OF assms(2,1), of w post] assms
  by (simp add: cv_read_def cond_word_def ccond_lift_def stream_rest_def stream_adv_def at_pos_def)

lemma script_more:
  assumes "sData (script_of s) = pre @ b # post" and "sPos (script_of s) = length pre"
  shows "\<not> Contract_End CONDITIONS (cvContract s)"
  using assms by (simp add: Contract_End_def flag_set_def stream_end_def)

lemma GetValue_stop:
  assumes ok: "stream_ok (script_of s)" and d: "sData (script_of s) = pre @ post" and p: "sPos (script_of s) = length pre"
    and st: "post = [] \<or> \<not> is_binary (hd post) \<and> \<not> is_value (hd post)"
  shows "GetValue (Suc k) E W c v s = Inr (True, v, s)"
proof (cases post)
  case Nil
  then show ?thesis using d p by (simp add: Contract_End_def flag_set_def stream_end_def)
next
  case (Cons b r)
  have w: "cv_read cond_word s = Inr (b, at_pos (length pre + 1) s)"
    using script_word [OF ok, of pre b r] d p Cons by simp
  have ok': "stream_ok (script_of (at_pos (length pre + 1) s))" using ok d Cons by (simp add: stream_ok_def)
  from script_rewind [OF ok'] have
    "Contract_Rewind 1 CONDITIONS (cvContract (at_pos (length pre + 1) s)) = Inr (cvContract s)"
    using p by (simp add: at_pos_def)
  then show ?thesis using w st script_more [of s pre b r] d p Cons by (simp add: at_pos_def)
qed

lemma GetValue_lit64:
  assumes ok: "stream_ok (script_of s)" and d: "sData (script_of s) = pre @ lit64 x @ post" and p: "sPos (script_of s) = length pre"
    and st: "post = [] \<or> \<not> is_binary (hd post) \<and> \<not> is_value (hd post)"
    and m: "nPointer s < length (vRegister s)" and c: "\<not> cvCost s + 8 < cvCost s"
  shows "GetValue (Suc (Suc k)) E W cl v s = Inr (True, \<lparr>nBegin = nPointer s, nEnd = nPointer s + 1, nBytes = Some 8\<rparr>,
    (at_pos (length pre + 9) s)\<lparr>vRegister := (vRegister s)[nPointer s := x], nPointer := nPointer s + 1, cvCost := cvCost s + 8\<rparr>)"
    (is "_ = Inr (True, ?v, ?s)")
proof -
  have w: "cv_read cond_word s = Inr (0x73 :: u8, at_pos (length pre + 1) s)"
    using script_word [OF ok, of pre "0x73 :: u8" "ser_word x @ post"] d p by (simp add: lit64_def)
  have ok1: "stream_ok (script_of (at_pos (length pre + 1) s))" using ok d by (simp add: stream_ok_def lit64_def)
  have x: "cv_read cond_word (at_pos (length pre + 1) s) = Inr (x, at_pos (length pre + 9) s)"
    using script_word [OF ok1, of "pre @ [0x73]" x post] d by (simp add: lit64_def add.commute [of 9])
  have v: "value_op E W cl 0x73 v (at_pos (length pre + 1) s) = Inr (True, ?v, ?s)"
    using x m c by (simp add: value_op_def literal_def push_word_def alloc_word_def add_cost_def Let_def)
  have "GetValue (Suc k) E W cl ?v ?s = Inr (True, ?v, ?s)"
    by (rule GetValue_stop [where pre = "pre @ lit64 x" and post = post])
      (use ok d st in \<open>simp_all add: stream_ok_def lit64_def\<close>)
  moreover have "\<not> is_binary 0x73" "is_value 0x73" by (simp_all add: is_binary_def is_value_def)
  ultimately show ?thesis using w v script_more [of s pre "0x73" "ser_word x @ post"] d p by (simp add: lit64_def)
qed

definition outcome :: "u8 \<Rightarrow> int \<Rightarrow> bool" where
  "outcome nOP d \<longleftrightarrow> (if nOP = OP_EQUALS then d = 0 else if nOP = OP_LESSTHAN then d < 0
     else if nOP = OP_GREATERTHAN then d > 0 else if nOP = OP_LESSEQUALS then d \<le> 0
     else if nOP = OP_GREATEREQUALS then d \<ge> 0 else d \<noteq> 0)"

lemma compare_codes: "is_compare nOP \<longleftrightarrow> nOP \<in> {0x80, 0x81, 0x82, 0x83, 0x84, 0x85, 0x86}"
proof -
  have "is_compare nOP \<longleftrightarrow> unat nOP \<in> {0x80..0x86}" by (simp add: is_compare_def word_le_nat_alt)
  also have "\<dots> \<longleftrightarrow> unat nOP \<in> unat ` {0x80 :: u8, 0x81, 0x82, 0x83, 0x84, 0x85, 0x86}" by (simp, presburger)
  also have "\<dots> \<longleftrightarrow> nOP \<in> {0x80, 0x81, 0x82, 0x83, 0x84, 0x85, 0x86}"
    by (rule inj_image_mem_iff [OF inj_unsigned])
  finally show ?thesis .
qed

text \<open>The machine at the start of the script, after the left and after the right literal.\<close>

lemma compare_literals:
  assumes c: "is_compare nOP" "nOP \<noteq> OP_CONTAINS" and d: "sData (script_of s) = compare_script nOP x y"
    and s: "sPos (script_of s) = 0" "vRegister s = replicate CONDITION_REGISTERS 0" "nPointer s = 0" "cvCost s = 0"
    and v: "cVersion cl = 1 \<or> cVersion cl = 2"
  shows "Evaluate E W cl s = Inr (outcome nOP (sint (x - y)), (at_pos 19 s)\<lparr>cvCost := 16\<rparr>)"
proof -
  let ?v = "\<lparr>nBegin = 0, nEnd = 1, nBytes = Some 8\<rparr>" and ?w = "\<lparr>nBegin = 1, nEnd = 2, nBytes = Some 8\<rparr>"
  let ?r = "replicate CONDITION_REGISTERS 0 :: u64 list"
  define s1 where "s1 = (at_pos 9 s)\<lparr>vRegister := ?r[0 := x], nPointer := 1, cvCost := 8\<rparr>"
  define s2 where "s2 = at_pos 10 s1"
  define s3 where "s3 = (at_pos 19 s)\<lparr>vRegister := ?r[0 := x, 1 := y], nPointer := 2, cvCost := 16\<rparr>"
  have ok: "stream_ok (script_of s)" using d s by (simp add: stream_ok_def compare_script_def lit64_def)
  have ne: "\<not> is_binary nOP" "\<not> is_value nOP" using c(1) by (auto simp: is_compare_def is_binary_def is_value_def word_le_nat_alt)
  obtain k where f: "script_fuel s = Suc (Suc k)" "script_fuel s2 = Suc (Suc k)"
    using that [of 18] d by (simp add: script_fuel_def s2_def s1_def compare_script_def lit64_def)
  have g1: "GetValue (script_fuel s) E W cl null_value s = Inr (True, ?v, s1)"
    using GetValue_lit64 [OF ok, of "[]" x "[nOP] @ lit64 y" k E W cl null_value] d s ne
    by (simp add: f compare_script_def s1_def CONDITION_REGISTERS_def)
  have ok1: "stream_ok (script_of s1)" "stream_ok (script_of s2)"
    using d by (simp_all add: stream_ok_def s1_def s2_def compare_script_def lit64_def)
  have r: "cv_read cond_word s1 = Inr (nOP, s2)"
    using script_word [OF ok1(1), of "lit64 x" nOP "lit64 y"] d by (simp add: s1_def s2_def compare_script_def lit64_def)
  have e: "\<not> Contract_End CONDITIONS (cvContract s1)"
    using script_more [of s1 "lit64 x" nOP "lit64 y"] d by (simp add: s1_def compare_script_def lit64_def)
  have s3: "s3 = (at_pos 19 s2)\<lparr>vRegister := (vRegister s2)[1 := y], nPointer := Suc (Suc 0), cvCost := 16\<rparr>"
    by (simp add: s2_def s1_def s3_def at_pos_def)
  have w: "?w = \<lparr>nBegin = 1, nEnd = Suc (Suc 0), nBytes = Some 8\<rparr>" by simp
  have g2: "GetValue (script_fuel s2) E W cl null_value s2 = Inr (True, ?w, s3)"
    unfolding f(2) w s3 using GetValue_lit64 [OF ok1(2), of "lit64 x @ [nOP]" y "[]" k E W cl null_value] d
    by (simp add: compare_script_def s2_def s1_def CONDITION_REGISTERS_def lit64_def del: GetValue.simps)
  have cmp: "vm_compare ?v ?w s3 = sint (x - y)"
    by (simp add: vm_compare_def value_size_def s3_def CONDITION_REGISTERS_def)
  have co: "compare_op nOP ?v ?w s3 = Inr (outcome nOP (sint (x - y)))"
  proof -
    have "nOP \<in> {0x80, 0x81, 0x82, 0x83, 0x85, 0x86}"
      using c compare_codes by simp
    then show ?thesis by (auto simp: compare_op_def cmp [unfolded One_nat_def] outcome_def)
  qed
  have l: "?r = 0 # 0 # replicate 254 0" by (simp add: CONDITION_REGISTERS_def numeral_eq_Suc)
  have d2: "deallocate ?w s3 = Inr (s3\<lparr>vRegister := ?r[0 := x], nPointer := 1\<rparr>)"
    by (simp add: deallocate_def dealloc_check_def vm_clear_def value_size_def s3_def l)
  have d1: "deallocate ?v (s3\<lparr>vRegister := ?r[0 := x], nPointer := 1\<rparr>) = Inr ((at_pos 19 s)\<lparr>cvCost := 16\<rparr>)"
    using s by (simp add: deallocate_def dealloc_check_def vm_clear_def value_size_def s3_def l at_pos_def)
  show ?thesis
    using v g1 e r c(1) g2 co d2 d1 by (auto simp: Evaluate_def EvaluateV1_def EvaluateV2_def simp del: GetValue.simps)
qed

lemma compare_executes:
  assumes c: "is_compare nOP" "nOP \<noteq> OP_CONTAINS" and d: "sData (ssCondition ct) = compare_script nOP x y"
    and v: "cVersion cl = 1 \<or> cVersion cl = 2"
  shows "Condition_Execute E W ct cl = Inr (outcome nOP (sint (x - y)), 16)"
proof -
  define s where "s = Condition_new (ct\<lparr>ssCondition := (ssCondition ct)\<lparr>sPos := 0\<rparr>\<rparr>) 0"
  have s: "sData (script_of s) = compare_script nOP x y" "sPos (script_of s) = 0"
    "vRegister s = replicate CONDITION_REGISTERS 0" "nPointer s = 0" "cvCost s = 0" "cvEvaluate s = [(False, OP_RESERVED)]"
    using d by (simp_all add: s_def Condition_new_def)
  have ok: "stream_ok (script_of s)" using s by (simp add: stream_ok_def compare_script_def lit64_def)
  have ev: "Evaluate E W cl s = Inr (outcome nOP (sint (x - y)), (at_pos 19 s)\<lparr>cvCost := 16\<rparr>)"
    by (rule compare_literals [OF c s(1-5) v])
  have w: "cv_read cond_word s = Inr (0x73 :: u8, at_pos 1 s)"
    using script_word [OF ok, of "[]" "0x73 :: u8" "ser_word x @ [nOP] @ lit64 y"] s by (simp add: compare_script_def lit64_def)
  have rw: "Contract_Rewind 1 CONDITIONS (cvContract (at_pos 1 s)) = Inr (cvContract s)"
    using script_rewind [of "at_pos 1 s"] s ok by (simp add: stream_ok_def at_pos_def compare_script_def lit64_def)
  have id: "(at_pos 1 s)\<lparr>cvContract := cvContract s\<rparr> = s" by (simp add: at_pos_def)
  let ?s = "(at_pos 19 s)\<lparr>cvCost := 16, cvEvaluate := [(outcome nOP (sint (x - y)), OP_RESERVED)]\<rparr>"
  have st: "script_step E W cl s = Inr ?s"
    unfolding script_step_def w rbind_Inr prod.case rw Let_def id using s(6) by (simp add: ev join_def)
  have e0: "\<not> Contract_End CONDITIONS (cvContract s)"
    using script_more [of s "[]" "0x73" "ser_word x @ [nOP] @ lit64 y"] s by (simp add: compare_script_def lit64_def)
  have e1: "Contract_End CONDITIONS (cvContract ?s)"
    using s by (simp add: Contract_End_def flag_set_def stream_end_def compare_script_def lit64_def)
  obtain k where f: "script_fuel s = Suc (Suc k)" using that [of 18] s by (simp add: script_fuel_def compare_script_def lit64_def)
  have "script_loop (script_fuel s) E W cl s = Inr ?s" unfolding f using e0 st e1 by simp
  moreover have "Contract_Reset CONDITIONS ct = Inr (ct\<lparr>ssCondition := (ssCondition ct)\<lparr>sPos := 0\<rparr>\<rparr>)"
    by (simp add: Contract_Reset_def flag_set_def seek_cond_def stream_seek_def Let_def)
  ultimately show ?thesis by (simp add: Condition_Execute_def s_def Let_def)
qed

end
