(* ===== verification/Samples.thy ===== *)
theory Samples
  imports Acceptance Backing Condition_Laws
begin

text \<open>
  Concrete registers, contracts and a world, on which the theorems of the library are applied:
  an account with a balance of 100, a debit of 30 from it and the credit of that debit, a raw
  register that is transferred and claimed, and a trust account.
\<close>

section \<open>The node\<close>

definition sample_ext :: ext where
  "sample_ext = \<lparr>xMigratedKey = \<lambda>_. Inr (0, 0, 0)\<rparr>"

definition empty_world :: world where
  "empty_world = \<lparr>wRegister = \<lparr>rStates = empty_overlay, rTrust = Map.empty\<rparr>,
     wLedger = \<lparr>lClaims = empty_overlay, lProofs = empty_overlay, lSequence = Map.empty,
       lEvents = Map.empty, lStake = Map.empty, lTx = Map.empty, lMempool = Map.empty, lLast = Map.empty,
       lGenesis = Map.empty, lIndex = Map.empty, lBlocks = Map.empty, lBestChain = None\<rparr>,
     wContract = empty_overlay, wLegacyTx = Map.empty, wLegacyPool = Map.empty, wTrustKeys = Map.empty, wStakeChange = Map.empty\<rparr>"

lemma wlive_BLOCK [simp]: "wlive FLAGS_BLOCK W"
  by (simp add: wlive_def live_def)

lemma GetHash_node_2020: "GetHash node_2020 s = of_nat (50 + length (ser_bytes (vchState s)))"
  by (simp add: GetHash_def node_2020_def ser_state_hash_def)

lemma drift_node_2020: "drift_limit node_2020 = 1600000001"
  by code_simp

lemma fClient_node_2020 [simp]: "\<not> fClient node_2020"
  by (simp add: node_2020_def)

lemma valid_node_2020:
  assumes "hashChecksum s = GetHash node_2020 s" and "vchState s \<noteq> []"
    and "nCreated s \<le> 1600000001" and "nModified s \<le> 1600000001" and "nVersion s = 1"
    and "nType s \<noteq> REGISTER_SYSTEM"
  shows "State_IsValid node_2020 s = Inr ()"
  using assms by (simp add: State_IsValid_Inr drift_node_2020 State_IsNull_def)

definition sample_contract :: "byte list \<Rightarrow> byte list \<Rightarrow> u256 \<Rightarrow> contract" where
  "sample_contract ops regs caller = \<lparr>ssOperation = stream_of ops, ssCondition = stream_of [],
     ssRegister = stream_of regs, hashCaller = caller, nTimestamp = 1600000000, hashTx = 0, cVersion = 2\<rparr>"

lemma sample_contract_fields [simp]:
  "sData (ssOperation (sample_contract ops regs w)) = ops"
  "sData (ssCondition (sample_contract ops regs w)) = []"
  "sData (ssRegister (sample_contract ops regs w)) = regs"
  "hashCaller (sample_contract ops regs w) = w" "nTimestamp (sample_contract ops regs w) = 1600000000"
  "hashTx (sample_contract ops regs w) = 0"
  by (simp_all add: sample_contract_def stream_of_def)

definition addr :: "u8 \<Rightarrow> u256 \<Rightarrow> u256" where
  "addr t k = SetType t k"

lemma GetType_addr [simp]: "GetType (addr t k) = t"
  by (simp add: addr_def GetType_SetType)

lemma addr_account [simp]:
  "\<not> Reserved_address (addr ADDR_ACCOUNT k)" "IsAccount (addr ADDR_ACCOUNT k)"
  "\<not> Reserved_address (addr ADDR_OBJECT k)" "IsObject (addr ADDR_OBJECT k)"
  "\<not> Reserved_address (addr ADDR_RAW k)" "\<not> IsObject (addr ADDR_ACCOUNT k)"
  by (simp_all add: Reserved_address_iff Address_IsValid_def IsAccount_def IsObject_def)

lemma addr_not_wildcard: "t \<noteq> ADDR_WILDCARD \<Longrightarrow> addr t k \<noteq> WILDCARD_ADDRESS"
  using GetType_addr [of t k] GetType_WILDCARD by metis

definition sample_txid :: u512 where
  "sample_txid = SetType TX_TRITIUM 7"

lemma GetType_sample_txid [simp]: "GetType sample_txid = TX_TRITIUM"
  by (simp add: sample_txid_def GetType_SetType)

section \<open>An account\<close>

definition acct :: reg_state where
  "acct = \<lparr>vchState = [7, 98, 97, 108, 97, 110, 99, 101, 255, 4, 100, 0, 0, 0, 0, 0, 0, 0,
       5, 116, 111, 107, 101, 110, 5] @ replicate 32 0,
     nVersion = 1, nType = REGISTER_OBJECT, hashOwner = 5, nCreated = 1590000000,
     nModified = 1590000000, hashChecksum = 108\<rparr>"

definition acct_map :: field_map where
  "acct_map = [(name_balance, 9, True), (name_token, 24, False)]"

definition acct_ob :: object where
  "acct_ob = (Object_of acct)\<lparr>mapData := acct_map\<rparr>"

lemma length_acct [simp]: "length (vchState acct) = 57"
  by (simp add: acct_def)

lemma hashOwner_acct [simp]: "hashOwner acct = 5"
  by (simp add: acct_def)

lemma acct_valid: "State_IsValid node_2020 acct = Inr ()"
  by (rule valid_node_2020)
    (simp_all add: acct_def GetHash_node_2020 length_ser_bytes GetSizeOfCompactSize_def)

lemma acct_parse_loop: "parse_loop (cursor acct 0) [] = Inr acct_map"
  by code_simp

lemma acct_parse: "Object_Parse (Object_of acct) = Inr acct_ob"
  using acct_parse_loop
  by (simp add: Object_Parse_def Object_of_def reg_state.defs object.defs cursor_def acct_def acct_ob_def)

lemma acct_balance: "Object_get name_balance acct_ob = (Inr 100 :: u64 res)"
  by code_simp

lemma acct_token: "Object_get name_token acct_ob = (Inr 0 :: u256 res)"
  by code_simp

lemma acct_base: "Object_Base acct_ob = Inr OBJECTS_ACCOUNT"
  by code_simp

text \<open>Whether a value can be written does not depend on the value.\<close>

lemma Object_Write_any:
  fixes x y :: "'a::len word"
  assumes "Object_Write n x ob = Inr ob'"
  shows "\<exists>ob'. Object_Write n y ob = Inr ob'"
  using assms unfolding Object_Write_def
  by (auto elim!: rbind_pairE simp del: rbind_eq_Inr split: option.splits if_splits)

lemma acct_write: "\<exists>ob. Object_Write name_balance (x :: u64) acct_ob = Inr ob"
proof -
  have "\<not> isl (Object_Write name_balance (0 :: u64) acct_ob)" by code_simp
  then obtain ob where "Object_Write name_balance (0 :: u64) acct_ob = Inr ob"
    by (cases "Object_Write name_balance (0 :: u64) acct_ob") auto
  then show ?thesis by (rule Object_Write_any)
qed

lemma acct_finish:
  fixes x :: u64
  assumes "Object_Write name_balance x acct_ob = Inr ob" and "t \<le> 1600000001"
  shows "finish_account node_2020 t ob = Inr (SetChecksum node_2020 (ob\<lparr>nModified := t\<rparr>))"
    and "GetHash node_2020 (SetChecksum node_2020 (ob\<lparr>nModified := t\<rparr>)) = 108"
proof -
  note fu = field_update_fields [OF field_updateI_word [OF assms(1)]]
  have l: "length (vchState ob) = 57" "nVersion ob = 1" "nCreated ob = 1590000000" "nType ob = REGISTER_OBJECT"
    using fu by (simp_all add: acct_ob_def Object_of_def reg_state.defs object.defs acct_def)
  then have "vchState ob \<noteq> []" by auto
  with l show "finish_account node_2020 t ob = Inr (SetChecksum node_2020 (ob\<lparr>nModified := t\<rparr>))"
    using assms(2) by (auto simp: finish_account_Inr intro!: valid_node_2020)
  show "GetHash node_2020 (SetChecksum node_2020 (ob\<lparr>nModified := t\<rparr>)) = 108"
    using l by (simp add: GetHash_node_2020 length_ser_bytes GetSizeOfCompactSize_def)
qed

lemma acct_debit:
  "\<exists>ob. Debit_Execute node_2020 (Object_of acct) 30 1600000000 = Inr ob \<and> GetHash node_2020 ob = 108"
proof -
  obtain ob where ob: "Object_Write name_balance (70 :: u64) acct_ob = Inr ob" using acct_write by blast
  show ?thesis
    using acct_finish [OF ob] ob by (simp add: Debit_Execute_def parse_account_def acct_parse acct_base acct_balance)
qed

lemma acct_fee:
  "\<exists>ob. Fee_Execute node_2020 (Object_of acct) 30 1600000000 = Inr ob \<and> GetHash node_2020 ob = 108"
proof -
  obtain ob where ob: "Object_Write name_balance (70 :: u64) acct_ob = Inr ob" using acct_write by blast
  show ?thesis
    using acct_finish [OF ob] ob
    by (simp add: Fee_Execute_def parse_account_def acct_parse acct_base acct_balance acct_token)
qed

lemma acct_credit:
  "\<exists>ob. Credit_Execute node_2020 (Object_of acct) m 1600000000 = Inr ob \<and> GetHash node_2020 ob = 108"
proof -
  obtain ob where ob: "Object_Write name_balance (100 + m :: u64) acct_ob = Inr ob" using acct_write by blast
  show ?thesis
    using acct_finish [OF ob] ob by (simp add: Credit_Execute_def parse_account_def acct_parse acct_base acct_balance)
qed

section \<open>A debit and its credit\<close>

definition debit_from :: u256 where "debit_from = addr ADDR_ACCOUNT 1"
definition debit_to :: u256 where "debit_to = addr ADDR_ACCOUNT 2"

definition sample_debit :: contract where
  "sample_debit = sample_contract (debit_script debit_from debit_to 30 0) (states_script acct 108) 5"

definition object_debit :: contract where
  "object_debit = sample_contract (debit_script debit_from (addr ADDR_OBJECT 3) 1 0) (states_script acct 108) 5"

definition tx_of :: "contract list \<Rightarrow> tx" where
  "tx_of cs = \<lparr>txGenesis = 5, txTimestamp = 1600000000, txVersion = 2, txHash = sample_txid,
     vContracts = cs, txSequence = 1, txNext = 3, txRecovery = 0, txPrevTx = 6, txKeyType = 2, txPubKey = [1], txSig = [1]\<rparr>"

lemma tx_of_fields [simp]:
  "txGenesis (tx_of cs) = 5" "txTimestamp (tx_of cs) = 1600000000" "txVersion (tx_of cs) = 2"
  "txHash (tx_of cs) = sample_txid" "vContracts (tx_of cs) = cs"
  by (simp_all add: tx_of_def)

definition sample_tx :: tx where
  "sample_tx = tx_of [sample_debit, object_debit]"

definition sample_world :: world where
  "sample_world = WriteTx sample_txid sample_tx
     (WriteState node_2020 debit_to acct FLAGS_BLOCK empty_world)"

lemma debit_addresses [simp]:
  "\<not> Reserved_address debit_from" "\<not> Reserved_address debit_to" "IsAccount debit_to"
  "\<not> IsObject debit_to" "debit_from \<noteq> WILDCARD_ADDRESS"
  by (simp_all add: debit_from_def debit_to_def addr_not_wildcard)

lemma debit_from_to: "debit_from \<noteq> debit_to"
proof -
  have "bit debit_from 0 \<noteq> bit debit_to 0"
    by (simp add: debit_from_def debit_to_def addr_def SetType_def bit_simps)
  then show ?thesis by metis
qed

lemma sample_world_reads [simp]:
  "ReadState debit_to FLAGS_BLOCK sample_world = Some acct"
  "ReadTx sample_txid FLAGS_BLOCK sample_world = Some sample_tx"
  "HasProof p h n FLAGS_BLOCK sample_world = False" "ReadClaimed h n FLAGS_BLOCK sample_world = None"
proof -
  have "ReadState debit_to FLAGS_BLOCK sample_world =
      ReadState debit_to FLAGS_BLOCK (WriteState node_2020 debit_to acct FLAGS_BLOCK empty_world)"
    by (simp add: sample_world_def WriteTx_def ReadState_def)
  then show "ReadState debit_to FLAGS_BLOCK sample_world = Some acct" by (simp add: ReadState_WriteState)
qed (simp_all add: sample_world_def world_ops read_proof_def read_claim_def empty_world_def empty_overlay_def)

lemma sample_debit_accepted:
  "\<exists>W'. Execute sample_ext node_2020 sample_debit FLAGS_BLOCK sample_world 0 = Inr (W', 0)"
proof -
  obtain ob where "Debit_Execute node_2020 (Object_of acct) 30 1600000000 = Inr ob" "GetHash node_2020 ob = 108"
    using acct_debit by blast
  then show ?thesis
    using debit_accepted [of sample_debit debit_from debit_to 30 0 acct node_2020 ob FLAGS_BLOCK sample_world acct]
      acct_valid debit_from_to
    by (simp add: sample_debit_def MAX_SIZE_def)
qed

definition sample_credit :: contract where
  "sample_credit = sample_contract (credit_script sample_txid 0 debit_to debit_from 30) (states_script acct 108) 5"

lemma sample_credit_accepted:
  "\<exists>W'. Execute sample_ext node_2020 sample_credit FLAGS_BLOCK sample_world 0 = Inr (W', 0)"
proof -
  obtain ob where "Credit_Execute node_2020 (Object_of acct) 30 1600000000 = Inr ob" "GetHash node_2020 ob = 108"
    using acct_credit by blast
  then show ?thesis
    using credit_accepted [of sample_credit sample_txid 0 debit_to debit_from 30 acct node_2020 ob acct_ob
       FLAGS_BLOCK sample_world sample_tx sample_debit debit_to 30 0 acct 108 acct_ob 0 sample_ext 0]
      acct_parse acct_base acct_token
    by (simp add: sample_credit_def sample_debit_def sample_tx_def MAX_SIZE_def covered_def)
qed

section \<open>A raw register\<close>

definition raw :: "u256 \<Rightarrow> reg_state" where
  "raw own = \<lparr>vchState = [1, 2, 3], nVersion = 1, nType = REGISTER_RAW, hashOwner = own,
     nCreated = 1590000000, nModified = 1590000000, hashChecksum = 54\<rparr>"

lemma raw_fields [simp]:
  "vchState (raw w) = [1, 2, 3]" "nVersion (raw w) = 1" "nType (raw w) = REGISTER_RAW" "hashOwner (raw w) = w"
  "nCreated (raw w) = 1590000000" "nModified (raw w) = 1590000000" "hashChecksum (raw w) = 54"
  by (simp_all add: raw_def)

lemma raw_valid [simp]: "State_IsValid node_2020 (raw w) = Inr ()"
  by (rule valid_node_2020) (simp_all add: GetHash_node_2020 length_ser_bytes GetSizeOfCompactSize_def)

text \<open>The same register after a change at the time of the sample contracts.\<close>

definition raw_at :: "u256 \<Rightarrow> byte list \<Rightarrow> reg_state" where
  "raw_at own d = SetChecksum node_2020 ((raw own)\<lparr>vchState := d, nModified := 1600000000\<rparr>)"

lemma raw_at_valid [simp]: "d \<noteq> [] \<Longrightarrow> State_IsValid node_2020 (raw_at w d) = Inr ()"
  by (rule valid_node_2020) (simp_all add: raw_at_def)

definition raw_addr :: u256 where "raw_addr = addr ADDR_RAW 4"

lemma raw_addr [simp]: "\<not> Reserved_address raw_addr" "IsRaw raw_addr"
  by (simp_all add: raw_addr_def IsRaw_def)

lemma raw_transfer:
  "Transfer_Execute node_2020 (raw w) w' 1600000000 = Inr (raw_at w' [1, 2, 3])"
  using raw_at_valid [of "[1, 2, 3]" w']
  by (simp add: Transfer_Execute_def Let_def raw_at_def raw_def)

lemma raw_claim:
  "GetType w = GENESIS_SYSTEM \<Longrightarrow> Claim_Execute node_2020 (raw w) w' 1600000000 = Inr (raw_at w' [1, 2, 3])"
  using raw_at_valid [of "[1, 2, 3]" w']
  by (simp add: Claim_Execute_def Let_def raw_at_def raw_def)

lemma raw_write:
  "Write_Execute node_2020 (raw w) [4, 5, 6] 1600000000 = Inr (raw_at w [4, 5, 6])"
  using raw_at_valid [of "[4, 5, 6]" w]
  by (simp add: Write_Execute_def Let_def raw_at_def raw_def SetState_def GetState_def SetChecksum_def GetHash_def ser_state_hash_def)

lemma raw_append:
  "Append_Execute node_2020 (raw w) [4] 1600000000 = Inr (raw_at w [1, 2, 3, 4])"
  using raw_at_valid [of "[1, 2, 3, 4]" w]
  by (simp add: Append_Execute_def Let_def raw_at_def raw_def State_Append_def SetChecksum_def GetHash_def ser_state_hash_def)

section \<open>Contracts on the raw register\<close>

definition raw_states :: "u256 \<Rightarrow> u256 \<Rightarrow> byte list \<Rightarrow> byte list" where
  "raw_states w w' d = states_script (raw w) (GetHash node_2020 (raw_at w' d))"

definition custody :: u256 where
  "custody = SetType GENESIS_SYSTEM 5"

lemma GetType_custody [simp]: "GetType custody = GENESIS_SYSTEM"
  by (simp add: custody_def GetType_SetType)

definition sample_transfer :: contract where
  "sample_transfer = sample_contract (transfer_script raw_addr 9 TRANSFER_CLAIM) (raw_states 5 custody [1, 2, 3]) 5"

definition sample_claim :: contract where
  "sample_claim = sample_contract (claim_script sample_txid 0 raw_addr) (raw_states custody 9 [1, 2, 3]) 9"

definition sample_write :: contract where
  "sample_write = sample_contract (data_script OP_WRITE raw_addr [4, 5, 6]) (raw_states 5 5 [4, 5, 6]) 5"

definition sample_append :: contract where
  "sample_append = sample_contract (data_script OP_APPEND raw_addr [4]) (raw_states 5 5 [1, 2, 3, 4]) 5"

definition sample_fee :: contract where
  "sample_fee = sample_contract (fee_script debit_from 30) (states_script acct 108) 5"

definition transfer_world :: world where
  "transfer_world = WriteTx sample_txid (tx_of [sample_transfer]) empty_world"

lemma nine_not_wildcard: "(9 :: u256) \<noteq> WILDCARD_ADDRESS"
  by (simp add: WILDCARD_ADDRESS_def)

lemma sample_transfer_accepted:
  "Execute sample_ext node_2020 sample_transfer FLAGS_BLOCK empty_world 0 =
     Inr (WriteState node_2020 raw_addr (raw_at custody [1, 2, 3]) FLAGS_BLOCK (WriteEvent 9 0 empty_world), 0)"
  using transfer_accepted [of sample_transfer raw_addr 9 TRANSFER_CLAIM "raw 5" node_2020 "raw_at custody [1, 2, 3]"
    sample_ext FLAGS_BLOCK empty_world 0] raw_transfer [of 5 custody] nine_not_wildcard
  by (simp add: sample_transfer_def raw_states_def MAX_SIZE_def transfer_owner_def sample_contract_def custody_def stream_of_def)

lemma sample_claim_accepted:
  "Execute sample_ext node_2020 sample_claim FLAGS_BLOCK transfer_world 0 =
     Inr (WriteState node_2020 raw_addr (raw_at 9 [1, 2, 3]) FLAGS_BLOCK
       (WriteProof raw_addr sample_txid 0 FLAGS_BLOCK transfer_world), 0)"
proof -
  have r: "ReadTx sample_txid FLAGS_BLOCK transfer_world = Some (tx_of [sample_transfer])"
    by (simp add: transfer_world_def world_ops)
  have np: "\<not> HasProof raw_addr sample_txid 0 FLAGS_BLOCK transfer_world"
    by (simp add: transfer_world_def world_ops read_proof_def empty_world_def empty_overlay_def)
  show ?thesis
    by (rule claim_accepted [OF _ _ _ _ _ r _ refl, where ?a' = raw_addr and b = 9 and y = TRANSFER_CLAIM and ?s0.0 = "raw 5"
       and s = "raw custody"])
      (use np raw_claim [of custody 9] in \<open>simp_all add: sample_claim_def sample_transfer_def raw_states_def MAX_SIZE_def\<close>)
qed

lemma sample_write_accepted:
  "Execute sample_ext node_2020 sample_write FLAGS_BLOCK empty_world 0 =
     Inr (WriteState node_2020 raw_addr (raw_at 5 [4, 5, 6]) FLAGS_BLOCK empty_world, 0)"
  using write_accepted [of sample_write raw_addr "[4, 5, 6]" "raw 5" node_2020 "raw_at 5 [4, 5, 6]" sample_ext
    FLAGS_BLOCK empty_world 0] raw_write [of 5]
  by (simp add: sample_write_def raw_states_def MAX_SIZE_def)

lemma sample_append_accepted:
  "Execute sample_ext node_2020 sample_append FLAGS_BLOCK empty_world 0 =
     Inr (WriteState node_2020 raw_addr (raw_at 5 [1, 2, 3, 4]) FLAGS_BLOCK empty_world, 0)"
  using append_accepted [of sample_append raw_addr "[4]" "raw 5" node_2020 "raw_at 5 [1, 2, 3, 4]" sample_ext
    FLAGS_BLOCK empty_world 0] raw_append [of 5]
  by (simp add: sample_append_def raw_states_def MAX_SIZE_def MAX_REGISTER_SIZE_def raw_at_def)

lemma sample_fee_accepted:
  "\<exists>W'. Execute sample_ext node_2020 sample_fee FLAGS_BLOCK empty_world 0 = Inr (W', 0)"
proof -
  obtain ob where "Fee_Execute node_2020 (Object_of acct) 30 1600000000 = Inr ob" "GetHash node_2020 ob = 108"
    using acct_fee by blast
  then show ?thesis
    using fee_accepted [of sample_fee debit_from 30 acct node_2020 ob sample_ext FLAGS_BLOCK empty_world 0] acct_valid
    by (simp add: sample_fee_def MAX_SIZE_def)
qed

definition raw_new :: reg_state where
  "raw_new = SetChecksum node_2020 \<lparr>vchState = [1, 2, 3], nVersion = 1, nType = REGISTER_RAW, hashOwner = 5,
     nCreated = 1600000000, nModified = 1600000000, hashChecksum = 0\<rparr>"

definition sample_create :: contract where
  "sample_create = sample_contract (create_script raw_addr REGISTER_RAW [1, 2, 3])
     ([STATES_POSTSTATE] @ ser_word (GetHash node_2020 raw_new)) 5"

lemma sample_create_accepted:
  "Execute sample_ext node_2020 sample_create FLAGS_BLOCK empty_world 0 =
     Inr (WriteState node_2020 raw_addr raw_new FLAGS_BLOCK empty_world, 0)"
proof -
  have v: "State_IsValid node_2020 raw_new = Inr ()" by (rule valid_node_2020) (simp_all add: raw_new_def)
  have "Create_Execute node_2020 ((State_default node_2020)\<lparr>nVersion := 1, nType := REGISTER_RAW, hashOwner := 5\<rparr>)
      [1, 2, 3] 1600000000 = Inr raw_new"
    using v by (simp add: Create_Execute_def Range_type_def Let_def SetState_def SetChecksum_def GetHash_def
        ser_state_hash_def State_default_def raw_new_def)
  moreover have "\<not> HasState raw_addr FLAGS_BLOCK empty_world"
    by (simp add: HasState_def has_register_def empty_world_def empty_overlay_def)
  ultimately show ?thesis
    using create_accepted [of sample_create raw_addr "[1, 2, 3]" node_2020 raw_new FLAGS_BLOCK empty_world sample_ext 0]
    by (simp add: sample_create_def MAX_REGISTER_SIZE_def)
qed

section \<open>What the samples say\<close>

lemma sample_script:
  assumes "c = sample_contract ops (states_script s chk) w" and "op_word (start c) = Inr (nOP, c1)"
    and "length ops < 2 ^ 63" and "nOP \<noteq> OP_CONDITION" and "nOP \<noteq> OP_VALIDATE" and "length (vchState s) \<le> MAX_SIZE"
  shows "at_primitive c = Inr (nOP, c1)" and "prestate_of c = Inr s" and "hashCaller c = w"
    and "nTimestamp c = 1600000000" and "length (sData (ssOperation c)) < 2 ^ 63" and "authorized E c s' \<longleftrightarrow> s' = s \<and> State_IsValid E s = Inr () \<and> hashOwner s = w"
proof -
  show p: "prestate_of c = Inr s" by (rule prestate_of_script) (simp_all add: assms)
  show "at_primitive c = Inr (nOP, c1)" by (rule script_at_primitive) (use assms in simp_all)
  show "authorized E c s' \<longleftrightarrow> s' = s \<and> State_IsValid E s = Inr () \<and> hashOwner s = w"
    using p assms(1) by (auto simp: authorized_def)
qed (use assms in simp_all)

lemma sample_debit_ops:
  "op_word (start sample_debit) = Inr (OP_DEBIT, opos 1 (start sample_debit))"
  "debit_operands (opos 1 (start sample_debit)) = Inr (debit_from, debit_to, 30)"
  using debit_script_at [of sample_debit] by (simp_all add: sample_debit_def debit_operands_def MAX_SIZE_def)

lemmas sample_debit_at = sample_script [OF sample_debit_def sample_debit_ops(1), simplified debit_script_def ser_bytes_def WriteCompactSize_def MAX_SIZE_def,
  simplified] sample_debit_ops(2)

lemma sample_credit_ops:
  "op_word (start sample_credit) = Inr (OP_CREDIT, opos 1 (start sample_credit))"
  "credit_operands (opos 1 (start sample_credit)) = Inr (sample_txid, 0, debit_to, debit_from, 30)"
  using credit_script_at [of sample_credit] by (simp_all add: sample_credit_def credit_operands_def MAX_SIZE_def)

lemmas sample_credit_at = sample_script [OF sample_credit_def sample_credit_ops(1), simplified credit_script_def ser_bytes_def WriteCompactSize_def MAX_SIZE_def,
  simplified] sample_credit_ops(2)

lemma sample_transfer_ops:
  "op_word (start sample_transfer) = Inr (OP_TRANSFER, opos 1 (start sample_transfer))"
  "transfer_operands (opos 1 (start sample_transfer)) = Inr (raw_addr, 9, TRANSFER_CLAIM)"
  using transfer_script_at [of sample_transfer] by (simp_all add: sample_transfer_def transfer_operands_def MAX_SIZE_def)

lemmas sample_transfer_at = sample_script [OF sample_transfer_def [unfolded raw_states_def] sample_transfer_ops(1), simplified transfer_script_def ser_bytes_def WriteCompactSize_def MAX_SIZE_def,
  simplified] sample_transfer_ops(2)

lemma sample_claim_ops:
  "op_word (start sample_claim) = Inr (OP_CLAIM, opos 1 (start sample_claim))"
  "claim_operands (opos 1 (start sample_claim)) = Inr (sample_txid, 0, raw_addr)"
  using claim_script_at [of sample_claim] by (simp_all add: sample_claim_def claim_operands_def MAX_SIZE_def)

lemmas sample_claim_at = sample_script [OF sample_claim_def [unfolded raw_states_def] sample_claim_ops(1), simplified claim_script_def ser_bytes_def WriteCompactSize_def MAX_SIZE_def,
  simplified] sample_claim_ops(2)

lemma sample_write_ops:
  "op_word (start sample_write) = Inr (OP_WRITE, opos 1 (start sample_write))"
  "write_operands (opos 1 (start sample_write)) = Inr (raw_addr, [4, 5, 6])"
  using data_script_at [of sample_write] by (simp_all add: sample_write_def write_operands_def MAX_SIZE_def)

lemmas sample_write_at = sample_script [OF sample_write_def [unfolded raw_states_def] sample_write_ops(1), simplified data_script_def ser_bytes_def WriteCompactSize_def MAX_SIZE_def,
  simplified] sample_write_ops(2)

lemma sample_append_ops:
  "op_word (start sample_append) = Inr (OP_APPEND, opos 1 (start sample_append))"
  "write_operands (opos 1 (start sample_append)) = Inr (raw_addr, [4])"
  using data_script_at [of sample_append] by (simp_all add: sample_append_def write_operands_def MAX_SIZE_def)

lemmas sample_append_at = sample_script [OF sample_append_def [unfolded raw_states_def] sample_append_ops(1), simplified data_script_def ser_bytes_def WriteCompactSize_def MAX_SIZE_def,
  simplified] sample_append_ops(2)

lemma sample_fee_ops:
  "op_word (start sample_fee) = Inr (OP_FEE, opos 1 (start sample_fee))"
  "fee_operands (opos 1 (start sample_fee)) = Inr (debit_from, 30)"
  using fee_script_at [of sample_fee] by (simp_all add: sample_fee_def fee_operands_def MAX_SIZE_def)

lemmas sample_fee_at = sample_script [OF sample_fee_def sample_fee_ops(1), simplified fee_script_def ser_bytes_def WriteCompactSize_def MAX_SIZE_def,
  simplified] sample_fee_ops(2)

lemma sample_create_at:
  "at_primitive sample_create = Inr (OP_CREATE, opos 1 (start sample_create))"
  "length (sData (ssOperation sample_create)) < 2 ^ 63" "hashCaller sample_create = 5"
proof -
  have o: "sData (ssOperation sample_create) = create_script raw_addr REGISTER_RAW [1, 2, 3]"
    by (simp add: sample_create_def)
  note at = create_script_at [OF o]
  show "length (sData (ssOperation sample_create)) < 2 ^ 63" "hashCaller sample_create = 5"
    using at(7) by (simp_all add: MAX_SIZE_def sample_create_def)
  show "at_primitive sample_create = Inr (OP_CREATE, opos 1 (start sample_create))"
    by (rule script_at_primitive) (use at(1,7) in \<open>simp_all add: MAX_SIZE_def\<close>)
qed

section \<open>A validation\<close>

definition sample_condition :: contract where
  "sample_condition = (sample_contract (OP_CONDITION # transfer_script raw_addr WILDCARD_ADDRESS TRANSFER_CLAIM) [] 5)
     \<lparr>ssCondition := stream_of (compare_script OP_EQUALS 1 1), hashTx := sample_txid\<rparr>"

definition condition_world :: world where
  "condition_world = WriteTx sample_txid (tx_of [sample_condition]) empty_world"

definition sample_validate :: contract where
  "sample_validate = sample_contract
     (OP_VALIDATE # ser_word sample_txid @ ser_word (0 :: u32) @ [0x03] @ replicate 96 0) [] 5"

lemma sample_condition_at:
  "op_word (start sample_condition) = Inr (OP_CONDITION, opos 1 (start sample_condition))"
  "op_word (opos 1 (start sample_condition)) = Inr (OP_TRANSFER, opos 2 (start sample_condition))"
  "op_word (opos 2 (start sample_condition)) = Inr (raw_addr, opos 34 (start sample_condition))"
  "op_word (opos 34 (start sample_condition)) = Inr (WILDCARD_ADDRESS, opos 66 (start sample_condition))"
  "op_word (opos 66 (start sample_condition)) = Inr (TRANSFER_CLAIM, opos 67 (start sample_condition))"
  "Contract_End OPERATIONS (opos 67 (start sample_condition))"
proof -
  let ?c = sample_condition
  have d: "sData (ssOperation ?c) = [OP_CONDITION, OP_TRANSFER] @ ser_word raw_addr @ ser_word WILDCARD_ADDRESS @ [TRANSFER_CLAIM]"
    by (simp add: sample_condition_def transfer_script_def)
  have L: "length (sData (ssOperation ?c)) = 67" "length (sData (ssOperation ?c)) < 2 ^ 63" by (simp_all add: d)
  note at = op_word_at [OF _ L(2)]
  show "op_word (start ?c) = Inr (OP_CONDITION, opos 1 (start ?c))" using at [of "[]" OP_CONDITION _ 0] by (simp add: d)
  show "op_word (opos 1 (start ?c)) = Inr (OP_TRANSFER, opos 2 (start ?c))"
    using at [of "[OP_CONDITION]" OP_TRANSFER _ 1] by (simp add: d)
  show "op_word (opos 2 (start ?c)) = Inr (raw_addr, opos 34 (start ?c))"
    using at [of "[OP_CONDITION, OP_TRANSFER]" raw_addr _ 2] by (simp add: d)
  show "op_word (opos 34 (start ?c)) = Inr (WILDCARD_ADDRESS, opos 66 (start ?c))"
    using at [of "[OP_CONDITION, OP_TRANSFER] @ ser_word raw_addr" WILDCARD_ADDRESS _ 34] by (simp add: d)
  show "op_word (opos 66 (start ?c)) = Inr (TRANSFER_CLAIM, opos 67 (start ?c))"
    using at [of "[OP_CONDITION, OP_TRANSFER] @ ser_word raw_addr @ ser_word WILDCARD_ADDRESS" TRANSFER_CLAIM _ 66] by (simp add: d)
  show "Contract_End OPERATIONS (opos 67 (start ?c))"
    using stream_end_start [of 67 ?c 0] L by simp
qed

lemma sample_validate_at:
  "op_word (start sample_validate) = Inr (OP_VALIDATE, opos 1 (start sample_validate))"
  "op_word (opos 1 (start sample_validate)) = Inr (sample_txid, opos 65 (start sample_validate))"
  "op_word (opos 65 (start sample_validate)) = Inr (0 :: u32, opos 69 (start sample_validate))"
  "op_word (opos 69 (start sample_validate)) = Inr (0x03 :: u8, opos 70 (start sample_validate))"
  "length (sData (ssOperation sample_validate)) = 166"
proof -
  let ?c = sample_validate
  have d: "sData (ssOperation ?c) = [OP_VALIDATE] @ ser_word sample_txid @ ser_word (0 :: u32) @ [0x03] @ replicate 96 0"
    by (simp add: sample_validate_def)
  show L: "length (sData (ssOperation ?c)) = 166" by (simp add: d)
  have L': "length (sData (ssOperation ?c)) < 2 ^ 63" by (simp add: L)
  note at = op_word_at [OF _ L']
  show "op_word (start ?c) = Inr (OP_VALIDATE, opos 1 (start ?c))" using at [of "[]" OP_VALIDATE _ 0] by (simp add: d)
  show "op_word (opos 1 (start ?c)) = Inr (sample_txid, opos 65 (start ?c))" using at [of "[OP_VALIDATE]" sample_txid _ 1] by (simp add: d)
  show "op_word (opos 65 (start ?c)) = Inr (0 :: u32, opos 69 (start ?c))"
    using at [of "[OP_VALIDATE] @ ser_word sample_txid" "0 :: u32" _ 65] by (simp add: d)
  show "op_word (opos 69 (start ?c)) = Inr (0x03 :: u8, opos 70 (start ?c))"
    using at [of "[OP_VALIDATE] @ ser_word sample_txid @ ser_word (0 :: u32)" "0x03 :: u8" _ 69] by (simp add: d)
qed

lemma sample_validate_accepted:
  "accepts sample_ext node_2020 FLAGS_BLOCK sample_validate condition_world
     (WriteContract sample_txid 0 5 FLAGS_BLOCK condition_world)"
proof -
  let ?c = sample_validate
  have r: "Ledger_ReadContract node_2020 sample_txid 0 FLAGS_BLOCK condition_world = Inr sample_condition"
    by (simp add: Ledger_ReadContract_def condition_world_def world_ops tx_contract_def Contract_Bind_tx_def Contract_copy_def stream_of_def sample_condition_def sample_contract_def)
  have v: "Validate_Verify node_2020 condition_world (opos 69 (start ?c)) sample_condition 0 = Inr 0"
  proof -
    have "\<not> Contract_Empty CONDITIONS (start sample_condition)"
      by (simp add: Contract_Empty_def flag_set_def sample_condition_def start_def stream_of_def compare_script_def lit64_def)
    moreover have "Condition_Execute node_2020 condition_world (opos 67 (start sample_condition)) (opos 69 (start ?c)) = Inr (True, 16)"
    proof -
      have "sData (ssCondition (opos 67 (start sample_condition))) = compare_script OP_EQUALS 1 1"
        by (simp add: sample_condition_def opos_def start_def stream_of_def)
      moreover have "cVersion (opos 69 (start ?c)) = 1 \<or> cVersion (opos 69 (start ?c)) = 2"
        by (simp add: sample_validate_def sample_contract_def opos_def start_def)
      ultimately show ?thesis
        using compare_executes [of OP_EQUALS] by (simp add: is_compare_def outcome_def)
    qed
    ultimately show ?thesis
      by (simp del: rbind_eq_Inr add: Validate_Verify_def validate_transfer_def sample_condition_at CONDITION_LIMIT_FREE_def)
  qed
  have s: "Contract_Seek 96 OPERATIONS STREAM_CURSOR (opos 70 (start ?c)) = Inr (opos 166 (start ?c))"
    using opos_start [of 70 ?c] opos_start [of 166 ?c] sample_validate_at(5)
    by (simp add: Contract_Seek_def flag_set_def seek_op_def stream_seek_def Let_def)
  have e: "Contract_End OPERATIONS (opos 166 (start ?c))"
    using stream_end_start [of 166 ?c 0] sample_validate_at(5) by simp
  have n: "\<not> HasContract sample_txid 0 FLAGS_BLOCK condition_world" "hashCaller ?c = 5"
    by (simp_all add: condition_world_def world_ops read_proof_def empty_world_def empty_overlay_def sample_validate_def)
  have "Execute sample_ext node_2020 ?c FLAGS_BLOCK condition_world 0 =
      Inr (WriteContract sample_txid 0 5 FLAGS_BLOCK condition_world, 0)"
    using r v s e n by (simp add: Execute_def exec_prefix_def exec_validate_def sample_validate_at Validate_Commit_def exec_primitive_def exec_authorize_def)
  then show ?thesis using sample_validate_at(5) by (auto simp: accepts_def)
qed

section \<open>A credit behind a validation\<close>

definition validated_credit :: contract where
  "validated_credit = sample_contract (OP_VALIDATE # replicate 68 0 @ [OP_CREDIT]) [] 5"

lemma validated_credit_at:
  "at_primitive validated_credit = Inr (OP_CREDIT, opos 70 (start validated_credit))"
  "op_word (start validated_credit) = Inr (OP_VALIDATE, opos 1 (start validated_credit))"
  "length (sData (ssOperation validated_credit)) = 70"
proof -
  let ?c = validated_credit
  have d: "sData (ssOperation ?c) = [OP_VALIDATE] @ replicate 68 0 @ [OP_CREDIT]" by (simp add: validated_credit_def)
  show L: "length (sData (ssOperation ?c)) = 70" by (simp add: d)
  then have L': "length (sData (ssOperation ?c)) < 2 ^ 63" by simp
  have "hd (sData (ssOperation ?c)) = OP_VALIDATE" "sData (ssOperation ?c) \<noteq> []" by (simp_all add: d)
  then have "SeekToPrimitive (start ?c) = Inr (opos 69 (start ?c))"
    using seek_op_CURSOR [of "start ?c" 69] L by (simp add: SeekToPrimitive_start)
  moreover have "op_word (opos 69 (start ?c)) = Inr (OP_CREDIT, opos 70 (start ?c))"
    using op_word_at [OF _ L', of "[OP_VALIDATE] @ replicate 68 0" OP_CREDIT "[]" 69] by (simp add: d)
  ultimately show "at_primitive ?c = Inr (OP_CREDIT, opos 70 (start ?c))" by (simp add: at_primitive_def)
  show "op_word (start ?c) = Inr (OP_VALIDATE, opos 1 (start ?c))"
    using op_word_at [OF _ L', of "[]" OP_VALIDATE _ 0] by (simp add: d)
qed

end
