(* ===== verification/Component_Properties.thy ===== *)
theory Component_Properties
  imports Samples
begin

text \<open>
  The properties of the single components, each applied to a sample: staking, the initial values
  of new registers, object registers, serialisation, the layered memory of the databases.
\<close>

section \<open>Staking\<close>

definition trust_acct :: "u64 \<Rightarrow> reg_state" where
  "trust_acct st = \<lparr>vchState = [7, 98, 97, 108, 97, 110, 99, 101, 255, 4, 50, 0, 0, 0, 0, 0, 0, 0,
       5, 116, 114, 117, 115, 116, 255, 4, 0, 0, 0, 0, 0, 0, 0, 0,
       5, 115, 116, 97, 107, 101, 255, 4] @ ser_word st @ [5, 116, 111, 107, 101, 110, 5] @ replicate 32 0,
     nVersion = 1, nType = REGISTER_OBJECT, hashOwner = 5, nCreated = 1590000000,
     nModified = 1590000000, hashChecksum = 0\<rparr>"

lemma length_trust_acct: "length (vchState (trust_acct st)) = 89"
  by (simp add: trust_acct_def)

lemma returns: "\<not> isl r \<Longrightarrow> \<exists>x. r = Inr x"
  by (cases r) auto

lemma trust_exec: "\<exists>ob. Trust_Execute node_2020 (Object_of (trust_acct 200)) 5 9 20 1600000000 = Inr ob"
  by (rule returns) code_simp

lemma genesis_exec: "\<exists>ob. Genesis_Execute node_2020 (Object_of (trust_acct 0)) 5 1600000000 = Inr ob"
  by (rule returns) code_simp

lemma migrate_exec: "\<exists>ob. Migrate_Execute node_2020 (Object_of (trust_acct 0)) 70 9 1600000000 = Inr ob"
  by (rule returns) code_simp

text \<open>
  A staking reward: the stake change moves value between the balance and the stake of a trust
  account without creating any, in both directions and never more than is there; the reward is
  added to the balance; the trust score is the new one and the account stays a trust account.
\<close>

theorem trust_conserves:
  assumes "Trust_Execute E (Object_of s) r sc ch t = Inr ob" and "length (vchState s) < 2 ^ 16"
  shows "\<exists>b st b' st' ad rm :: u64. field_of name_balance s = Inr b \<and> field_of name_stake s = Inr st \<and>
    field_of name_balance (State_of ob) = Inr b' \<and> field_of name_stake (State_of ob) = Inr st' \<and>
    ad - rm = ch \<and> ad \<le> b \<and> rm \<le> st \<and> st' = st + ad - rm \<and> b' + st' = b + st + r \<and>
    field_of name_trust (State_of ob) = Inr sc \<and> standard_of (State_of ob) = Inr OBJECTS_TRUST"
proof -
  from Trust_Execute_facts [OF assms] obtain b st ad rm :: u64 where
    f: "field_of name_balance s = Inr b" "field_of name_stake s = Inr st" "ad \<le> b" "rm \<le> st" "ad - rm = ch"
    "field_of name_balance (State_of ob) = Inr (b + r + rm - ad)" "field_of name_stake (State_of ob) = Inr (st + ad - rm)"
    "field_of name_trust (State_of ob) = Inr sc" "standard_of (State_of ob) = Inr OBJECTS_TRUST" by blast
  have "(b + r + rm - ad) + (st + ad - rm) = b + st + r" by (simp add: algebra_simps)
  with f show ?thesis by blast
qed

theorem trust_conserves_witness:
  "\<exists>b st b' st' :: u64. \<exists>o1. Trust_Execute node_2020 (Object_of (trust_acct 200)) 5 9 20 1600000000 = Inr o1 \<and>
     field_of name_balance (trust_acct 200) = Inr b \<and> field_of name_stake (trust_acct 200) = Inr st \<and>
     field_of name_balance (State_of o1) = Inr b' \<and> field_of name_stake (State_of o1) = Inr st' \<and> b' + st' = b + st + 5"
proof -
  obtain o1 where e: "Trust_Execute node_2020 (Object_of (trust_acct 200)) 5 9 20 1600000000 = Inr o1"
    using trust_exec by blast
  then show ?thesis using trust_conserves [OF e] length_trust_acct [of 200] by simp blast
qed

text \<open>
  A genesis stakes the whole balance of a trust account that has no stake yet, and the reward
  becomes its balance.
\<close>

theorem genesis_stakes_all:
  assumes "Genesis_Execute E (Object_of s) r t = Inr ob" and "length (vchState s) < 2 ^ 16"
  shows "\<exists>b :: u64. field_of name_balance s = Inr b \<and> b \<noteq> 0 \<and> field_of name_stake s = Inr (0 :: u64) \<and>
    field_of name_stake (State_of ob) = Inr b \<and> field_of name_balance (State_of ob) = Inr r \<and>
    standard_of (State_of ob) = Inr OBJECTS_TRUST"
  using Genesis_Execute_facts [OF assms] by blast

theorem genesis_stakes_all_witness:
  "\<exists>ob b. Genesis_Execute node_2020 (Object_of (trust_acct 0)) 5 1600000000 = Inr ob \<and>
     field_of name_balance (trust_acct 0) = Inr b \<and> field_of name_stake (State_of ob) = Inr (b :: u64)"
proof -
  obtain o1 where e: "Genesis_Execute node_2020 (Object_of (trust_acct 0)) 5 1600000000 = Inr o1"
    using genesis_exec by blast
  then show ?thesis using genesis_stakes_all [OF e] length_trust_acct [of 0] by auto
qed

text \<open>
  A migration sets the stake and the trust score of a trust account that has neither to the
  amount and the score of the legacy trust key.
\<close>

theorem migrate_sets:
  assumes "Migrate_Execute E (Object_of s) n sc t = Inr ob" and "length (vchState s) < 2 ^ 16"
  shows "field_of name_stake s = Inr (0 :: u64) \<and> field_of name_trust s = Inr (0 :: u64) \<and>
    field_of name_stake (State_of ob) = Inr n \<and> field_of name_trust (State_of ob) = Inr (ucast sc :: u64) \<and>
    standard_of (State_of ob) = Inr OBJECTS_TRUST"
  using Migrate_Execute_facts [OF assms] by blast

theorem migrate_sets_witness:
  "\<exists>ob. Migrate_Execute node_2020 (Object_of (trust_acct 0)) 70 9 1600000000 = Inr ob \<and>
     field_of name_stake (State_of ob) = Inr (70 :: u64) \<and> field_of name_trust (State_of ob) = Inr (9 :: u64)"
proof -
  obtain o1 where e: "Migrate_Execute node_2020 (Object_of (trust_acct 0)) 70 9 1600000000 = Inr o1"
    using migrate_exec by blast
  then show ?thesis using migrate_sets [OF e] length_trust_acct [of 0] by auto
qed

section \<open>New registers\<close>

text \<open>
  What a new object register starts with: an account has no balance; a trust account has no
  balance, no stake and the native token; the balance of a token is its whole supply and its
  identifier is not that of the native token.
\<close>

theorem created_values:
  assumes "initial_object E s = Inr ()"
  shows "(standard_of s = Inr OBJECTS_ACCOUNT \<longrightarrow> field_of name_balance s = Inr (0 :: u64)) \<and>
    (standard_of s = Inr OBJECTS_TRUST \<longrightarrow> field_of name_balance s = Inr (0 :: u64) \<and>
       field_of (str ''stake'') s = Inr (0 :: u64) \<and> field_of name_token s = Inr (0 :: u256)) \<and>
    (standard_of s = Inr OBJECTS_TOKEN \<longrightarrow> (\<exists>n :: u64. \<exists>k :: u256. field_of name_balance s = Inr n \<and>
       field_of name_supply s = Inr n \<and> field_of name_token s = Inr k \<and> k \<noteq> 0))"
  using assms
  by (auto simp: initial_object_def standard_of_def field_of_def initial_account_def initial_trust_def
      initial_token_def name_balance_def name_token_def name_supply_def split: if_splits)

definition new_acct :: reg_state where
  "new_acct = \<lparr>vchState = [7, 98, 97, 108, 97, 110, 99, 101, 255, 4, 0, 0, 0, 0, 0, 0, 0, 0,
       5, 116, 111, 107, 101, 110, 5] @ replicate 32 0,
     nVersion = 1, nType = REGISTER_OBJECT, hashOwner = 5, nCreated = 1590000000,
     nModified = 1590000000, hashChecksum = 108\<rparr>"

theorem created_values_witness:
  "standard_of new_acct = Inr OBJECTS_ACCOUNT \<and> field_of name_balance new_acct = Inr (0 :: u64)"
proof -
  have i: "initial_object node_2020 new_acct = Inr ()" and a: "standard_of new_acct = Inr OBJECTS_ACCOUNT"
    by code_simp+
  show ?thesis using created_values [OF i] a by blast
qed

section \<open>Object registers\<close>

lemma parse_loop_distinct:
  "parse_loop s m = Inr m' \<Longrightarrow> distinct (map fst m) \<Longrightarrow> distinct (map fst m')"
proof (induction s m rule: parse_loop.induct)
  case (1 s m)
  show ?case
  proof (cases "state_end s")
    case True
    then show ?thesis using "1.prems" by (simp add: parse_loop.simps [of s])
  next
    case False
    with "1.prems"(1) obtain m1 s1 where po: "parse_one s m = Inr (m1, s1)"
      and pl: "parse_loop s1 m1 = Inr m'" by (rule parse_loop_step)
    from po obtain name p f k t where pf: "parse_field s m = Inr ((name, p, f, k), t)"
      and m1: "m1 = m @ [(name, (of_nat p, f))]" by (auto simp: parse_one_def)
    have "distinct (map fst m1)"
      using parse_field_shape(3) [OF pf] "1.prems"(2) by (simp add: m1 mapCount_iff)
    then show ?thesis using "1.IH" [OF False po refl pl] by simp
  qed
qed

text \<open>
  C38. A parsed register: the field names are pairwise different, and the fields cover the data in
  their order and without overlap.
\<close>

theorem parse_layout:
  assumes "Object_Parse ob = Inr ob'" and "length (vchState ob) < 2 ^ 16"
  shows "distinct (map fst (mapData ob')) \<and> laid (vchState ob') 0 (mapData ob')"
proof -
  have p: "parsed ob'" using assms by (rule parsed_Parse)
  then have "parse_loop (cursor ob' 0) [] = Inr (mapData ob')" by (simp add: parsed_def)
  then show ?thesis using parse_loop_distinct parsed_laid [OF p] by fastforce
qed

theorem parse_layout_witness:
  "distinct [name_balance, name_token] \<and> laid (vchState acct) 0 [(name_balance, 9, True), (name_token, 24, False)]"
  using parse_layout [OF acct_parse] by (simp add: acct_ob_def acct_map_def)

text \<open>
  A write to a field of a parsed register: the field has the new value, every other field and
  the standard type are as before, and the register still parses to the same fields.
\<close>

theorem write_one_field:
  fixes x :: "'a::len word" and y :: "'b::len word"
  assumes "Object_Parse ob0 = Inr ob" and "length (vchState ob0) < 2 ^ 16" and "Object_Write n x ob = Inr ob'"
  shows "Object_get n ob' = Inr x \<and>
    (m \<noteq> n \<longrightarrow> Object_get m ob = Inr y \<longrightarrow> Object_get m ob' = Inr y) \<and>
    Object_Standard ob' = Object_Standard ob \<and> mapData ob' = mapData ob \<and>
    parse_loop (cursor ob' 0) [] = Inr (mapData ob')"
proof -
  note fu = field_updateI_word [OF assms(3)]
  have p: "parsed ob" using assms(1,2) by (rule parsed_Parse)
  have "parsed ob'" by (rule field_update_parsed [OF p fu])
  then show ?thesis
    using Object_Write_get [OF assms(3)] field_update_frame [OF p fu, of m y] field_update_Standard [OF p fu]
      field_update_fields(1) [OF fu]
    by (auto simp: parsed_def)
qed

theorem write_one_field_witness:
  "\<exists>ob. Object_Write name_balance (7 :: u64) acct_ob = Inr ob \<and> Object_get name_balance ob = Inr (7 :: u64) \<and>
     Object_get name_token ob = Inr (0 :: u256)"
proof -
  obtain ob where w: "Object_Write name_balance (7 :: u64) acct_ob = Inr ob" using acct_write by blast
  have ne: "name_token \<noteq> name_balance" by (simp add: name_token_def name_balance_def str_def)
  show ?thesis
    using w write_one_field [OF acct_parse _ w, where m = name_token and y = "0 :: u256"] acct_token ne by simp
qed

section \<open>Errors\<close>

text \<open>A debit that exceeds the balance of the account is refused.\<close>

theorem debit_beyond_balance:
  assumes "Object_Parse ob0 = Inr ob" and "Object_Base ob = Inr OBJECTS_ACCOUNT"
    and "Object_get name_balance ob = Inr b" and "b < n"
  shows "\<exists>msg. Debit_Execute E ob0 n t = Inl (Reject msg)"
  using assms by (simp add: Debit_Execute_def parse_account_def)

theorem debit_beyond_balance_witness:
  "\<exists>msg. Debit_Execute node_2020 (Object_of acct) 101 1600000000 = Inl (Reject msg)"
  by (rule debit_beyond_balance [OF acct_parse acct_base acct_balance]) simp

section \<open>Serialisation\<close>

text \<open>Reading back a serialised register state gives the state and consumes exactly its bytes.\<close>

theorem state_roundtrip:
  assumes "length (vchState st) \<le> MAX_SIZE"
  shows "read_state stream_read (stream_of (ser_state st)) =
    Inr (st, \<lparr>sData = ser_state st, sPos = length (ser_state st)\<rparr>)"
  using assms by (rule state_of_stream)

theorem state_roundtrip_witness:
  "read_state stream_read (stream_of (ser_state acct)) =
     Inr (acct, \<lparr>sData = ser_state acct, sPos = length (ser_state acct)\<rparr>)"
  by (rule state_roundtrip) (simp add: MAX_SIZE_def)

text \<open>
  A compact size up to the limit of 32 MiB is read back and takes one, three or five bytes;
  what \<open>ReadCompactSize\<close> returns never exceeds the limit.
\<close>

theorem compact_size_roundtrip:
  assumes "n \<le> MAX_SIZE" and "length r < 2 ^ 62"
  shows "ReadCompactSize stream_read (stream_of (WriteCompactSize n @ r)) =
      Inr (n, \<lparr>sData = WriteCompactSize n @ r, sPos = GetSizeOfCompactSize n\<rparr>) \<and>
    (ReadCompactSize stream_read s = Inr (k, s') \<longrightarrow> k \<le> MAX_SIZE)"
proof -
  have l: "length (WriteCompactSize n) \<le> 9" by (simp add: WriteCompactSize_def)
  then have "stream_ok (stream_of (WriteCompactSize n @ r))"
    using assms(2) by (simp add: stream_ok_def stream_of_def)
  then have "ReadCompactSize stream_read (stream_of (WriteCompactSize n @ r)) =
      Inr (n, \<lparr>sData = WriteCompactSize n @ r, sPos = GetSizeOfCompactSize n\<rparr>)"
    using bs.ReadCompactSize_roundtrip [of "stream_of (WriteCompactSize n @ r)" n r] assms
    by (simp add: stream_rest_def stream_of_def stream_adv_def)
  then show ?thesis by (auto intro: ReadCompactSize_bound)
qed

theorem compact_size_roundtrip_witness:
  "ReadCompactSize stream_read (stream_of (WriteCompactSize 300 @ [7])) =
     Inr (300, \<lparr>sData = WriteCompactSize 300 @ [7], sPos = GetSizeOfCompactSize 300\<rparr>)"
  using compact_size_roundtrip [of 300 "[7]" "stream_of []" 0 "stream_of []"] by (simp add: MAX_SIZE_def)

text \<open>
  The block-wise reader of byte vectors returns exactly what a single read of the same bytes
  returns.
\<close>

theorem blocks_read_everything:
  assumes "stream_ok s" and "read_string stream_read s = Inr (bs, s')"
  shows "read_vector stream_read s = Inr (bs, s')"
  using assms by (rule bs.read_vector_eq_string)

theorem blocks_read_everything_witness:
  "read_vector stream_read (stream_of [2, 8, 9]) = Inr ([8, 9], \<lparr>sData = [2, 8, 9], sPos = 3\<rparr>)"
proof (rule blocks_read_everything)
  show "read_string stream_read (stream_of [2, 8, 9]) = Inr ([8, 9], \<lparr>sData = [2, 8, 9], sPos = 3\<rparr>)"
    by code_simp
qed (simp add: stream_ok_def stream_of_def)

section \<open>The layered memory\<close>

text \<open>
  Releasing a memory pool transaction leaves the database as it was when the transaction
  began, whatever was written or erased in between.
\<close>

theorem release_undoes:
  assumes "mem_step\<^sup>*\<^sup>* (MemoryBegin FLAGS_MEMPOOL d) d'"
  shows "MemoryRelease FLAGS_MEMPOOL d' = d\<lparr>pMemory := None\<rparr>"
  using assms by (rule release_restores)

theorem release_undoes_witness:
  "MemoryRelease FLAGS_MEMPOOL (mem_write (1 :: nat) (2 :: nat) (MemoryBegin FLAGS_MEMPOOL empty_overlay)) =
     empty_overlay\<lparr>pMemory := None\<rparr>"
  by (rule release_undoes) (blast intro: step_write r_into_rtranclp)

text \<open>
  Committing a memory pool transaction makes permanent exactly what it showed, for every key
  it has not erased.
\<close>

theorem commit_publishes:
  assumes "pMemory d = Some t"
  shows "mem_lookup k (MemoryCommit d) = (if k \<in> setErase t then None else mem_lookup k d)"
  using assms by (rule MemoryCommit_lookup)

theorem commit_publishes_witness:
  "mem_lookup (1 :: nat) (MemoryCommit (mem_write 1 (2 :: nat) (MemoryBegin FLAGS_MEMPOOL empty_overlay))) = Some 2"
proof -
  let ?d = "mem_write 1 2 (MemoryBegin FLAGS_MEMPOOL empty_overlay) :: (nat, nat) overlay"
  have "pMemory ?d = Some \<lparr>mapPending = [1 \<mapsto> 2], setErase = {}\<rparr>" by (simp add: overlay_defs)
  from commit_publishes [OF this, of 1] show ?thesis by (simp add: overlay_defs)
qed

end
