(* ===== verification/VM_Laws.thy ===== *)
theory VM_Laws
  imports Condition_Laws
begin

text \<open>
  Laws of the register memory and of the interpreter on it: the memory invariant through a whole
  script, exact 64-bit arithmetic, allocation followed by deallocation, and what a search finds.
\<close>

section \<open>The memory invariant through a script\<close>

lemma value_ok_null [simp]: "value_ok null_value"
  by (simp add: null_value_def value_ok_def)

lemma vm_ok_operand:
  "GetValue k E W c null_value s = Inr (b, v, s') \<Longrightarrow> vm_ok s \<Longrightarrow> vm_ok s' \<and> value_ok v"
  using vm_ok_GetValue value_ok_null by blast

lemma vm_ok_release:
  "(if b then deallocate v s else Inr s) = Inr s' \<Longrightarrow> vm_ok s \<Longrightarrow> value_ok v \<Longrightarrow> vm_ok s'"
  using vm_ok_dealloc(1) by (auto split: if_splits)

lemma vm_ok_EvaluateV1:
  assumes "EvaluateV1 E W c s = Inr (b, s')" and "vm_ok s"
  shows "vm_ok s'"
  using assms unfolding EvaluateV1_def
  by (auto split: if_splits elim!: rbind_tripleE rbind_pairE rbindE dest!: vm_ok_read vm_ok_dealloc(1) dest: vm_ok_operand)

lemma vm_ok_EvaluateV2:
  assumes "EvaluateV2 E W c s = Inr (b, s')" and "vm_ok s"
  shows "vm_ok s'"
proof -
  from assms(1) obtain f v s1 where g: "GetValue (script_fuel s) E W c null_value s = Inr (f, v, s1)"
    unfolding EvaluateV2_def by (elim rbind_tripleE)
  note s1 = vm_ok_operand [OF g assms(2)]
  show ?thesis
  proof (cases "Contract_End CONDITIONS (cvContract s1)")
    case True
    then show ?thesis using assms(1) g s1 by (simp add: EvaluateV2_def)
  next
    case False
    with assms(1) g obtain nOP s2 where r: "cv_read cond_word s1 = Inr (nOP :: u8, s2)"
      by (auto simp: EvaluateV2_def)
    have s2: "vm_ok s2" using vm_ok_read [OF r] s1 by simp
    show ?thesis
    proof (cases "is_compare nOP")
      case True
      with assms(1) g r False obtain f' v' s3 s4 where g': "GetValue (script_fuel s2) E W c null_value s2 = Inr (f', v', s3)"
        and d: "(if f' then deallocate v' s3 else Inr s3) = Inr s4" "(if f then deallocate v s4 else Inr s4) = Inr s'"
        unfolding EvaluateV2_def by (simp add: rbind_eq_Inr) (elim exE conjE; blast)
      note s3 = vm_ok_operand [OF g' s2]
      show ?thesis using vm_ok_release [OF d(1)] vm_ok_release [OF d(2)] s1 s3 by blast
    next
      case notc: False
      then show ?thesis using assms(1) g r False s2 by (simp add: EvaluateV2_def)
    qed
  qed
qed


lemma vm_ok_Evaluate:
  "Evaluate E W c s = Inr (b, s') \<Longrightarrow> vm_ok s \<Longrightarrow> vm_ok s'"
  using vm_ok_EvaluateV1 vm_ok_EvaluateV2 by (auto simp: Evaluate_def split: if_splits)

lemma vm_ok_stack [simp]: "vm_ok (s\<lparr>cvEvaluate := st\<rparr>) = vm_ok s"
  by (simp add: vm_ok_def)

lemma vm_ok_set_logic: "set_logic a b s = Inr s' \<Longrightarrow> vm_ok s \<Longrightarrow> vm_ok s'"
  by (auto simp: set_logic_def split: list.splits if_splits)

lemma vm_ok_script_step:
  assumes "script_step E W c s = Inr s'" and "vm_ok s"
  shows "vm_ok s'"
proof -
  from assms(1) obtain nOP s1 where r: "cv_read cond_word s = Inr (nOP :: u8, s1)"
    unfolding script_step_def by (elim rbind_pairE)
  have s1: "vm_ok s1" using vm_ok_read [OF r] assms(2) by simp
  consider "nOP = OP_GROUP" | "nOP = OP_UNGROUP" | "nOP = OP_AND" | "nOP = OP_OR"
    | (other) "nOP \<noteq> OP_GROUP" "nOP \<noteq> OP_UNGROUP" "nOP \<noteq> OP_AND" "nOP \<noteq> OP_OR" by blast
  then show ?thesis
  proof cases
    case other
    with assms(1) r obtain ct f s2 st where e: "Evaluate E W c (s1\<lparr>cvContract := ct\<rparr>) = Inr (f, s2)" "s' = s2\<lparr>cvEvaluate := st\<rparr>"
      by (auto simp: script_step_def Let_def split: if_splits)
    show ?thesis using vm_ok_Evaluate [OF e(1)] e(2) s1 by simp
  qed (use assms(1) r s1 in \<open>auto simp: script_step_def split: list.splits dest: vm_ok_cost vm_ok_set_logic\<close>)
qed

lemma vm_ok_script_loop: "script_loop k E W c s = Inr s' \<Longrightarrow> vm_ok s \<Longrightarrow> vm_ok s'"
proof (induction k arbitrary: s)
  case (Suc k)
  then show ?case using vm_ok_script_step by (auto split: if_splits)
qed simp

section \<open>Arithmetic\<close>

lemma op_add_exact: "op_add x y = (if unat x + unat y < 2 ^ 64 then Inr (x + y) else Inl (Throw ''OP::ADD 64-bit value overflow''))"
proof -
  have b: "unat x < 2 ^ 64" "unat y < 2 ^ 64" using unsigned_less [of x, where ?'a = nat] unsigned_less [of y, where ?'a = nat] by simp_all
  have "x + y < x \<longleftrightarrow> \<not> unat x + unat y < 2 ^ 64"
  proof (cases "unat x + unat y < 2 ^ 64")
    case True
    then have "unat (x + y) = unat x + unat y" by (simp add: unat_word_ariths)
    then show ?thesis using True by (simp add: word_less_nat_alt)
  next
    case False
    then have "unat (x + y) = unat x + unat y - 2 ^ 64"
      using b by (simp add: unat_word_ariths mod_if)
    then show ?thesis using False b by (simp add: word_less_nat_alt)
  qed
  then show ?thesis by (simp add: op_add_def)
qed

lemma op_sub_exact: "op_sub x y = (if unat y \<le> unat x then Inr (x - y) else Inl (Throw ''OP::SUB 64-bit value overflow''))"
proof -
  have b: "unat x < 2 ^ 64" "unat y < 2 ^ 64" using unsigned_less [of x, where ?'a = nat] unsigned_less [of y, where ?'a = nat] by simp_all
  have "x < x - y \<longleftrightarrow> \<not> unat y \<le> unat x"
  proof (cases "unat y \<le> unat x")
    case True
    then have "unat (x - y) = unat x - unat y" using unat_sub [of y x] by (simp add: word_le_nat_alt)
    then show ?thesis using True by (simp add: word_less_nat_alt)
  next
    case False
    then have "unat (x - y) = unat x + 2 ^ 64 - unat y" using unat_sub_if_size [of x y] by (simp add: word_size)
    then show ?thesis using False b by (simp add: word_less_nat_alt)
  qed
  then show ?thesis by (simp add: op_sub_def)
qed

lemma op_mul_exact: "op_mul x y = (if unat x * unat y < 2 ^ 64 then Inr (x * y) else Inl (Throw ''OP::MUL 64-bit value overflow''))"
proof (cases "y = 0")
  case False
  then have y: "0 < unat y" using unat_gt_0 by blast
  have m: "unat (- 1 :: u64) = 2 ^ 64 - 1" by (simp add: unsigned_minus_1_eq_mask mask_eq_exp_minus_1)
  have "x > U64_MAX div y \<longleftrightarrow> (2 ^ 64 - 1) div unat y < unat x"
    by (simp add: word_less_nat_alt U64_MAX_def unat_div m)
  also have "\<dots> \<longleftrightarrow> 2 ^ 64 - 1 < unat x * unat y" using y by (rule div_less_iff_less_mult)
  also have "\<dots> \<longleftrightarrow> \<not> unat x * unat y < 2 ^ 64" by auto
  finally show ?thesis using False by (simp add: op_mul_def)
qed (simp add: op_mul_def)

section \<open>Exponentiation\<close>

lemma mul_guard:
  fixes x y :: u64
  shows "(y \<noteq> 0 \<and> x > U64_MAX div y) = (\<not> unat x * unat y < 2 ^ 64)"
  using op_mul_exact [of x y] by (auto simp: op_mul_def split: if_splits)

lemma power_guard:
  fixes b n e :: nat
  assumes "b \<noteq> 0" and "e \<le> n" and "2 ^ 64 \<le> b ^ e"
  shows "\<not> b ^ n < 2 ^ 64"
  using assms power_increasing [of e n b] by simp

lemma exp_loop_power:
  assumes "nBegin vRet \<noteq> nBegin vExp" and "nBegin vRet < length (vRegister s)" and "nBegin vExp < length (vRegister s)"
    and "e \<le> vRegister s ! nBegin vExp" and "unat (vRegister s ! nBegin vRet) = unat nBase ^ unat e"
  shows "exp_loop vRet vExp nBase e s =
    (if unat nBase ^ unat (vRegister s ! nBegin vExp) < 2 ^ 64
     then Inr (vm_put vRet (of_nat (unat nBase ^ unat (vRegister s ! nBegin vExp))) s)
     else Inl (Throw ''OP::EXP 64-bit value overflow''))"
  using assms
proof (induction vRet vExp nBase e s rule: exp_loop.induct)
  case (1 vRet vExp nBase e s)
  let ?n = "vRegister s ! nBegin vExp" and ?x = "vRegister s ! nBegin vRet"
  have at: "vm_at vExp s = Inr ?n" "vm_at vRet s = Inr ?x" using "1.prems" by (simp_all add: vm_at_def)
  show ?case
  proof (cases "e < ?n")
    case False
    then have "e = ?n" using "1.prems"(4) by simp
    then have x: "unat ?x = unat nBase ^ unat ?n" using "1.prems"(5) by simp
    have "of_nat (unat nBase ^ unat ?n) = ?x" by (simp add: x [symmetric] del: of_nat_power)
    moreover have "unat nBase ^ unat ?n < 2 ^ 64" using unsigned_less [of ?x, where ?'a = nat] by (simp add: x)
    moreover have "exp_loop vRet vExp nBase e s = Inr s" using False at by (subst exp_loop.simps) simp
    ultimately show ?thesis by (simp add: vm_put_def del: of_nat_power)
  next
    case less: True
    then have e1: "unat (e + 1) = unat e + 1" "e + 1 \<le> ?n"
      using unsigned_less [of ?n, where ?'a = nat] by (simp_all add: word_less_nat_alt word_le_nat_alt unat_word_ariths)
    have step: "exp_loop vRet vExp nBase e s =
      (if \<not> unat ?x * unat nBase < 2 ^ 64 then Inl (Throw ''OP::EXP 64-bit value overflow'')
       else exp_loop vRet vExp nBase (e + 1) (vm_put vRet (?x * nBase) s))"
      using less at mul_guard [of nBase ?x] by (subst exp_loop.simps) auto
    have p: "unat ?x * unat nBase = unat nBase ^ unat (e + 1)" using "1.prems"(5) e1 by simp
    show ?thesis
    proof (cases "unat ?x * unat nBase < 2 ^ 64")
      case True
      have "unat (?x * nBase) = unat nBase ^ unat (e + 1)" using True p by (simp add: unat_word_ariths)
      then have "exp_loop vRet vExp nBase (e + 1) (vm_put vRet (?x * nBase) s) =
        (if unat nBase ^ unat ?n < 2 ^ 64 then Inr (vm_put vRet (of_nat (unat nBase ^ unat ?n)) (vm_put vRet (?x * nBase) s))
         else Inl (Throw ''OP::EXP 64-bit value overflow''))"
        using "1.IH" [OF at(1) less at(2)] True "1.prems"(1-3) e1(2)
        by (simp add: mul_guard vm_put_def del: of_nat_power)
      then show ?thesis using step True by (simp add: vm_put_def del: of_nat_power)
    next
      case False
      then have "nBase \<noteq> 0" using mul_guard [of nBase ?x] by simp
      then have "\<not> unat nBase ^ unat ?n < 2 ^ 64"
        using False p e1(2) by (intro power_guard [of _ "unat (e + 1)"]) (simp_all add: word_le_nat_alt unat_eq_zero)
      then show ?thesis using step False by simp
    qed
  qed
qed

section \<open>Allocating and giving back\<close>

lemma put_bytes_take:
  "regs_for (length d) \<le> length rs \<Longrightarrow>
    take (length d) (concat (map ser_word (take (regs_for (length d)) (put_bytes d rs)))) = d"
proof (induction d rs rule: put_bytes.induct)
  case (2 d r rs)
  show ?case
  proof (cases "d = []")
    case False
    have r: "regs_for (length d) = Suc (regs_for (length (drop 8 d)))"
      using False by (cases "length d < 8") (auto simp: regs_for_def le_div_geq le_mod_geq)
    show ?thesis
    proof (cases "8 \<le> length d")
      case True
      then have "ser_word (deser_word (take 8 d) :: u64) = take 8 d" by (intro ser_deser_word) simp_all
      then show ?thesis using "2.IH" [OF False] "2.prems" False True by (simp add: r min_def)
    next
      case short: False
      then have "ser_word (deser_word (d @ drop (length d) (ser_word r)) :: u64) = d @ drop (length d) (ser_word r)"
        by (intro ser_deser_word) simp_all
      then show ?thesis using "2.prems" False short by (simp add: r min_def)
    qed
  qed (simp add: regs_for_def)
next
  case (1 d)
  then show ?case by (cases "length d < 8") (auto simp: regs_for_def le_div_geq split: if_splits)
qed

lemma put_bytes_drop: "regs_for (length d) \<le> k \<Longrightarrow> drop k (put_bytes d rs) = drop k rs"
proof (induction d rs arbitrary: k rule: put_bytes.induct)
  case (2 d r rs)
  show ?case
  proof (cases "d = []")
    case False
    have r: "regs_for (length d) = Suc (regs_for (length (drop 8 d)))"
      using False by (cases "length d < 8") (auto simp: regs_for_def le_div_geq le_mod_geq)
    then obtain j where "k = Suc j" using "2.prems" by (cases k) auto
    then show ?thesis using "2.IH" [OF False, of j] "2.prems" False r by simp
  qed simp
qed simp


lemma regs_for_pos: "d \<noteq> [] \<Longrightarrow> 0 < regs_for (length d)"
  by (cases "length d < 8") (auto simp: regs_for_def div_greater_zero_iff)

lemma alloc_dealloc_bytes:
  assumes "alloc_bytes d s = Inr (v, s')" and "d \<noteq> []" and "length d < 2 ^ 16"
  shows "dealloc_bytes v s' = Inr (d, s\<lparr>vRegister := take (nPointer s) (vRegister s) @ replicate (regs_for (length d)) 0 @
    drop (nPointer s + regs_for (length d)) (vRegister s)\<rparr>)"
proof -
  let ?n = "regs_for (length d)" and ?p = "nPointer s"
  from assms(1,3) have fit: "?p + ?n \<le> length (vRegister s)" and v: "v = \<lparr>nBegin = ?p, nEnd = ?p + ?n, nBytes = Some (length d)\<rparr>"
    and s': "s' = s\<lparr>vRegister := take ?p (vRegister s) @ put_bytes d (drop ?p (vRegister s)), nPointer := ?p + ?n\<rparr>"
    by (auto simp: alloc_bytes_def Let_def split: if_splits)
  have n: "0 < ?n" using regs_for_pos assms(2) .
  have c: "dealloc_check v s' = Inr ()" using n by (simp add: dealloc_check_def v s' value_size_def)
  have b: "vm_bytes v s' = Inr d"
    using put_bytes_take [of d "drop ?p (vRegister s)"] fit by (simp add: vm_bytes_def v s' value_size_def min_def)
  have "vm_clear v s' = s\<lparr>vRegister := take ?p (vRegister s) @ replicate ?n 0 @ drop (?p + ?n) (vRegister s)\<rparr>"
    using put_bytes_drop [of d ?n "drop ?p (vRegister s)"] fit
    by (simp add: vm_clear_def v s' value_size_def min_def add.commute)
  then show ?thesis using c b by (simp add: dealloc_bytes_def)
qed

section \<open>Searching\<close>

definition matches_at :: "byte list \<Rightarrow> byte list \<Rightarrow> nat \<Rightarrow> bool" where
  "matches_at vA vB i \<longleftrightarrow> i + length vB \<le> length vA \<and> vA ! i = vB ! 0 \<and>
     (\<forall>n \<in> {1..<length vB}. vA ! (i + n) = vB ! n \<or> vB ! n = 0)"

lemma contains_rest_iff:
  assumes "contains_rest vA vB i n = Inr b" and "1 \<le> n"
  shows "b \<longleftrightarrow> n < length vB \<and> i + length vB \<le> length vA \<and> (\<forall>k \<in> {n..<length vB}. vA ! (i + k) = vB ! k \<or> vB ! k = 0)"
  using assms
proof (induction vA vB i n rule: contains_rest.induct)
  case (1 vA vB i n)
  have split: "{n..<length vB} = insert n {n + 1..<length vB}" if "n < length vB" using that by auto
  from "1.prems" show ?case
    by (subst (asm) contains_rest.simps) (use "1.IH" "1.prems"(2) split in \<open>auto split: if_splits\<close>)
qed

lemma contains_from_iff:
  assumes "contains_from vA vB i = Inr b" and "vB \<noteq> []"
  shows "b \<longleftrightarrow> 2 \<le> length vB \<and> (\<exists>k \<ge> i. matches_at vA vB k)"
  using assms
proof (induction vA vB i rule: contains_from.induct)
  case (1 vA vB i)
  have none: "\<not> matches_at vA vB k" if "\<not> i < length vA" "i \<le> k" for k
    using that "1.prems"(2) by (cases vB) (auto simp: matches_at_def)
  have step: "(\<exists>k \<ge> i. matches_at vA vB k) \<longleftrightarrow> matches_at vA vB i \<or> (\<exists>k \<ge> i + 1. matches_at vA vB k)"
    by (metis Suc_eq_plus1 Suc_leD le_eq_less_or_eq less_eq_Suc_le)
  have here: "f \<longleftrightarrow> 2 \<le> length vB \<and> matches_at vA vB i"
    if "(if vA ! i = vB ! 0 then contains_rest vA vB i 1 else Inr False) = Inr f" for f
    using that contains_rest_iff [of vA vB i 1 f] by (auto simp: matches_at_def split: if_splits)
  show ?case
  proof (cases "i < length vA")
    case True
    then obtain f where f: "(if vA ! i = vB ! 0 then contains_rest vA vB i 1 else Inr False) = Inr f"
      and r: "(if f then Inr True else contains_from vA vB (i + 1)) = Inr b"
      using "1.prems"(1) by (subst (asm) contains_from.simps) (auto split: if_splits)
    show ?thesis using here [OF f] r "1.IH" [OF True f] "1.prems"(2) step by (auto split: if_splits)
  next
    case False
    then show ?thesis using "1.prems"(1) none by (subst (asm) contains_from.simps) auto
  qed
qed

end
