(* ===== verification/Condition_Properties.thy ===== *)
theory Condition_Properties
  imports VM_Laws Samples
begin

text \<open>
  What the conditions of a contract mean: their evaluation ends, stays in its memory and computes
  exactly or refuses; and where comparisons, searches and groups depart from that.
\<close>

section \<open>Termination and memory\<close>

text \<open>C39. The evaluation of the conditions of a contract ends: for a caller of either known version
  and a script below 2^63 bytes, the fuel of one step more than the script has bytes never runs out. The
  interpreter returns a result, refuses, throws or runs into undefined behaviour, but it does not loop forever.\<close>

theorem conditions_end:
  assumes "length (sData (ssCondition c)) < 2 ^ 63" and "cVersion caller = 1 \<or> cVersion caller = 2"
  shows "Condition_Execute E W c caller \<noteq> Inl Diverges"
  by (rule Condition_Execute_ends [OF assms])

theorem conditions_end_witness:
  "Condition_Execute node_2020 empty_world sample_condition sample_validate \<noteq> Inl Diverges"
  by (rule conditions_end)
    (simp_all add: sample_condition_def sample_validate_def sample_contract_def stream_of_def compare_script_def lit64_def)

lemma script_loop_of_execute:
  assumes "Condition_Execute E W c caller = Inr (b, cost)"
  shows "\<exists>s. script_loop (script_fuel (Condition_new (c\<lparr>ssCondition := (ssCondition c)\<lparr>sPos := 0\<rparr>\<rparr>) 0)) E W caller
    (Condition_new (c\<lparr>ssCondition := (ssCondition c)\<lparr>sPos := 0\<rparr>\<rparr>) 0) = Inr s"
proof -
  have "Contract_Reset CONDITIONS c = Inr (c\<lparr>ssCondition := (ssCondition c)\<lparr>sPos := 0\<rparr>\<rparr>)"
    by (simp add: Contract_Reset_def flag_set_def seek_cond_def stream_seek_def Let_def)
  then show ?thesis using assms by (auto simp: Condition_Execute_def Let_def)
qed

text \<open>Whatever a script does, the machine keeps its 256 registers and its stack pointer stays
  within them, from the empty machine to any state the interpreter loop reaches.\<close>

theorem condition_memory:
  assumes "script_loop k E W caller (Condition_new c nCostIn) = Inr s"
  shows "length (vRegister s) = 256 \<and> nPointer s \<le> 256"
proof -
  have "vm_ok (Condition_new c nCostIn)" by (simp add: vm_ok_def Condition_new_def CONDITION_REGISTERS_def)
  then show ?thesis using vm_ok_script_loop [OF assms] by (simp add: vm_ok_def CONDITION_REGISTERS_def)
qed

theorem condition_memory_witness:
  "\<exists>k s. script_loop k node_2020 empty_world sample_validate (Condition_new sample_condition 0) = Inr s \<and>
     length (vRegister s) = 256 \<and> nPointer s \<le> 256"
proof -
  have c: "sample_condition\<lparr>ssCondition := (ssCondition sample_condition)\<lparr>sPos := 0\<rparr>\<rparr> = sample_condition"
    by (simp add: sample_condition_def stream_of_def)
  have "Condition_Execute node_2020 empty_world sample_condition sample_validate = Inr (outcome OP_EQUALS (sint (1 - 1 :: u64)), 16)"
    by (rule compare_executes) (simp_all add: is_compare_def sample_condition_def stream_of_def sample_validate_def sample_contract_def)
  from script_loop_of_execute [OF this] obtain k s where
    "script_loop k node_2020 empty_world sample_validate (Condition_new sample_condition 0) = Inr s" by (auto simp: c)
  with condition_memory [OF this] show ?thesis by blast
qed

text \<open>Bytes that are allocated come back unchanged when they are given back, and the machine is
  where it was, with the registers that were used set to zero.\<close>

theorem allocate_roundtrip:
  assumes "alloc_bytes d s = Inr (v, s')" and "d \<noteq> []" and "length d < 2 ^ 16"
  shows "dealloc_bytes v s' = Inr (d, s\<lparr>vRegister := take (nPointer s) (vRegister s) @ replicate (regs_for (length d)) 0 @
    drop (nPointer s + regs_for (length d)) (vRegister s)\<rparr>)"
  by (rule alloc_dealloc_bytes [OF assms])

theorem allocate_roundtrip_witness:
  "\<exists>v s'. alloc_bytes [1, 2, 3] (vm_new 2) = Inr (v, s') \<and> dealloc_bytes v s' = Inr ([1, 2, 3], vm_new 2)"
proof -
  obtain v s' where a: "alloc_bytes [1, 2, 3] (vm_new 2) = Inr (v, s')"
    by (simp add: alloc_bytes_def vm_new_def regs_for_def Let_def)
  have "vm_new 2 = \<lparr>vRegister = [0, 0], nPointer = 0\<rparr>" by (simp add: vm_new_def numeral_2_eq_2)
  then show ?thesis using allocate_roundtrip [OF a] a by (simp add: regs_for_def)
qed

section \<open>Arithmetic\<close>

text \<open>The 64-bit operations of conditions are exact or throw: a sum or product is the one of the
  natural numbers exactly when that fits into 64 bits, a difference exactly when it is not negative,
  and only a division by zero is refused.\<close>

theorem condition_arithmetic:
  "op_add x y = (if unat x + unat y < 2 ^ 64 then Inr (of_nat (unat x + unat y)) else Inl (Throw ''OP::ADD 64-bit value overflow'')) \<and>
   op_sub x y = (if unat y \<le> unat x then Inr (of_nat (unat x - unat y)) else Inl (Throw ''OP::SUB 64-bit value overflow'')) \<and>
   op_mul x y = (if unat x * unat y < 2 ^ 64 then Inr (of_nat (unat x * unat y)) else Inl (Throw ''OP::MUL 64-bit value overflow'')) \<and>
   op_div x y = (if unat y = 0 then Inl (Throw ''OP::DIV cannot divide by zero'') else Inr (of_nat (unat x div unat y))) \<and>
   op_mod x y = (if unat y = 0 then Inl (Throw ''OP::MOD cannot divide by zero'') else Inr (of_nat (unat x mod unat y)))"
  by (intro conjI)
    (simp_all add: op_add_exact op_sub_exact op_mul_exact op_div_def op_mod_def unat_eq_zero word_div_def word_mod_def
      of_nat_diff unat_div [symmetric] unat_mod [symmetric])

text \<open>Raising to a power is exact or throws: with operands in different registers, the register
  of the base becomes the power of the natural numbers when that fits into 64 bits; otherwise, and
  only then, the overflow is reported.\<close>

theorem condition_power:
  assumes "nBegin vRet \<noteq> nBegin vExp" and "nBegin vRet < length (vRegister s)" and "nBegin vExp < length (vRegister s)"
    and "vRegister s ! nBegin vExp \<noteq> 0"
  shows "exp_loop vRet vExp (vRegister s ! nBegin vRet) 1 s =
    (if unat (vRegister s ! nBegin vRet) ^ unat (vRegister s ! nBegin vExp) < 2 ^ 64
     then Inr (vm_put vRet (of_nat (unat (vRegister s ! nBegin vRet) ^ unat (vRegister s ! nBegin vExp))) s)
     else Inl (Throw ''OP::EXP 64-bit value overflow''))"
  by (rule exp_loop_power) (use assms in \<open>simp_all add: word_le_nat_alt unat_gt_0 Suc_le_eq\<close>)


theorem condition_power_witness:
  "exp_loop \<lparr>nBegin = 0, nEnd = 1, nBytes = Some 8\<rparr> \<lparr>nBegin = 1, nEnd = 2, nBytes = Some 8\<rparr> 3 1
     ((Condition_new sample_condition 0)\<lparr>vRegister := [3, 4]\<rparr>) =
   Inr ((Condition_new sample_condition 0)\<lparr>vRegister := [81, 4]\<rparr>)"
  using condition_power [of "\<lparr>nBegin = 0, nEnd = 1, nBytes = Some 8\<rparr>" "\<lparr>nBegin = 1, nEnd = 2, nBytes = Some 8\<rparr>"
      "(Condition_new sample_condition 0)\<lparr>vRegister := [3, 4]\<rparr>"]
  by (simp add: vm_put_def)

section \<open>Comparisons\<close>

lemma sint_word_of_int: "sint (word_of_int k :: u64) = signed_take_bit 63 k"
  using sint_sbintrunc' [of k, where ?'a = 64] by simp

lemma sint_difference:
  fixes x y :: u64
  assumes "- (2 ^ 63) \<le> uint x - uint y" and "uint x - uint y < 2 ^ 63"
  shows "sint (x - y) = uint x - uint y"
proof -
  have "x - y = word_of_int (uint x - uint y)" by simp
  then have "sint (x - y) = signed_take_bit 63 (uint x - uint y)" by (simp only: sint_word_of_int)
  then show ?thesis using assms by (simp add: signed_take_bit_int_eq_self)
qed

text \<open>C40. A condition that compares two 64-bit literals gives the order of the numbers, as long as
  they are less than 2^63 apart, and costs 16.\<close>

theorem condition_compares:
  assumes "is_compare nOP" and "nOP \<noteq> OP_CONTAINS" and "sData (ssCondition c) = compare_script nOP x y"
    and "cVersion caller = 1 \<or> cVersion caller = 2" and "\<bar>uint x - uint y\<bar> < 2 ^ 63"
  shows "Condition_Execute E W c caller = Inr (outcome nOP (uint x - uint y), 16)"
  using compare_executes [OF assms(1-4), of E W] sint_difference [of x y] assms(5) by simp

theorem condition_compares_witness:
  "Condition_Execute node_2020 empty_world sample_condition sample_validate = Inr (True, 16)"
  using condition_compares [of OP_EQUALS sample_condition 1 1 sample_validate node_2020 empty_world]
  by (simp add: is_compare_def sample_condition_def stream_of_def sample_validate_def sample_contract_def outcome_def)

text \<open>The comparison takes the difference as a signed number: when the left literal is at least
  2^63 above the right one, a condition that asks whether it is smaller holds.\<close>

theorem condition_compares_wrong:
  assumes "sData (ssCondition c) = compare_script OP_LESSTHAN x y"
    and "cVersion caller = 1 \<or> cVersion caller = 2" and "uint y + 2 ^ 63 \<le> uint x"
  shows "Condition_Execute E W c caller = Inr (True, 16)"
proof -
  have b: "uint x < 2 ^ 64" using unsigned_less [of x, where ?'a = int] by simp
  have y: "- 1 < uint y" using uint_ge_0 [of y] by linarith
  have "x - y = word_of_int (uint x - uint y - 2 ^ 64)" by (simp flip: wi_hom_sub)
  then have "sint (x - y) = signed_take_bit 63 (uint x - uint y - 2 ^ 64)" by (simp only: sint_word_of_int)
  also have "\<dots> = uint x - uint y - 2 ^ 64" by (rule signed_take_bit_int_eq_self) (use assms(3) b y in \<open>simp; linarith\<close>)+
  finally have "sint (x - y) < 0" using b y by (simp; linarith)
  then show ?thesis using compare_executes [of OP_LESSTHAN c x y caller E W] assms(1,2) by (simp add: is_compare_def outcome_def)
qed

theorem condition_compares_wrong_witness:
  "Condition_Execute node_2020 empty_world (sample_condition\<lparr>ssCondition := stream_of (compare_script OP_LESSTHAN (2 ^ 63) 0)\<rparr>)
     sample_validate = Inr (True, 16)"
  by (rule condition_compares_wrong [of _ "2 ^ 63" 0])
    (simp_all add: stream_of_def sample_validate_def sample_contract_def)

section \<open>Searches and groups\<close>

text \<open>A search that returns finds exactly the places where the first byte agrees and every later
  byte agrees or is the wild card zero, but only for a needle of at least two bytes.\<close>

theorem condition_contains:
  assumes "vm_contains a b s = Inr f"
  shows "f \<longleftrightarrow> 0 < value_size b \<and> value_size b \<le> value_size a \<and>
    (\<exists>vA vB. vm_bytes a s = Inr vA \<and> vm_bytes b s = Inr vB \<and> 2 \<le> length vB \<and> (\<exists>i. matches_at vA vB i))"
proof (cases "value_size b > value_size a \<or> value_size a = 0 \<or> value_size b = 0")
  case True
  then show ?thesis using assms by (auto simp: vm_contains_def)
next
  case False
  then obtain vA vB where v: "vm_bytes a s = Inr vA" "vm_bytes b s = Inr vB" "vB \<noteq> []" "contains_from vA vB 0 = Inr f"
    using assms by (auto simp: vm_contains_def split: if_splits)
  show ?thesis using contains_from_iff [OF v(4,3)] v(1,2) False by auto
qed

theorem condition_contains_witness:
  "\<exists>v w (s :: vm). vm_contains v w s = Inr True \<and> vm_bytes v s = Inr [7, 1] \<and> vm_bytes w s = Inr [7, 0] \<and>
     (\<exists>i. matches_at [7, 1] [7, 0] i)"
proof -
  let ?v = "\<lparr>nBegin = 0, nEnd = 1, nBytes = Some 2\<rparr>" and ?w = "\<lparr>nBegin = 1, nEnd = 2, nBytes = Some 2\<rparr>"
  let ?s = "\<lparr>vRegister = [0x107, 7], nPointer = 2\<rparr>"
  have "take 2 (ser_word (0x107 :: u64)) = [7, 1]" "take 2 (ser_word (7 :: u64)) = [7, 0]" by code_simp+
  then have b: "vm_bytes ?v ?s = Inr [7, 1]" "vm_bytes ?w ?s = Inr [7, 0]" by (simp_all add: vm_bytes_def value_size_def)
  have "contains_rest [7, 1] [7, 0] 0 1 = Inr True" by (subst contains_rest.simps) simp
  then have "contains_from [7, 1] [7, 0] 0 = Inr True" by (subst contains_from.simps) simp
  then have f: "vm_contains ?v ?w ?s = Inr True" using b by (simp add: vm_contains_def value_size_def)
  have "\<exists>i. matches_at [7, 1] [7, 0] i" using condition_contains [OF f] b by simp
  then show ?thesis using f b by blast
qed

text \<open>A script that closes a group it never opened takes the top of an empty stack: the
  behaviour of the interpreter is undefined.\<close>

theorem ungroup_undefined:
  assumes "sData (ssCondition c) = OP_UNGROUP # rest" and "length rest < 2 ^ 62"
  shows "\<exists>msg. Condition_Execute E W c caller = Inl (Undefined msg)"
proof -
  define s where "s = Condition_new (c\<lparr>ssCondition := (ssCondition c)\<lparr>sPos := 0\<rparr>\<rparr>) 0"
  have s: "sData (script_of s) = OP_UNGROUP # rest" "sPos (script_of s) = 0" "cvEvaluate s = [(False, OP_RESERVED)]"
    using assms by (simp_all add: s_def Condition_new_def)
  have ok: "stream_ok (script_of s)" using s assms(2) by (simp add: stream_ok_def)
  have w: "cv_read cond_word s = Inr (OP_UNGROUP, at_pos 1 s)"
    using script_word [OF ok, of "[]" OP_UNGROUP rest] s by simp
  have e: "\<not> Contract_End CONDITIONS (cvContract s)" using script_more [of s "[]" OP_UNGROUP rest] s by simp
  have "script_step E W caller s = Inl (Undefined ''top of an empty stack'')"
    using w s(3) by (simp add: script_step_def join_def)
  then have "script_loop (script_fuel s) E W caller s = Inl (Undefined ''top of an empty stack'')"
    using e by (simp add: script_fuel_def)
  moreover have "Contract_Reset CONDITIONS c = Inr (c\<lparr>ssCondition := (ssCondition c)\<lparr>sPos := 0\<rparr>\<rparr>)"
    by (simp add: Contract_Reset_def flag_set_def seek_cond_def stream_seek_def Let_def)
  ultimately show ?thesis by (simp add: Condition_Execute_def s_def Let_def)
qed

theorem ungroup_undefined_witness:
  "\<exists>msg. Condition_Execute node_2020 empty_world (sample_condition\<lparr>ssCondition := stream_of [OP_UNGROUP]\<rparr>) sample_validate =
     Inl (Undefined msg)"
  by (rule ungroup_undefined [of _ "[]"]) (simp_all add: stream_of_def)

end
