(* ===== verification/Register_Verify.thy ===== *)
theory Register_Verify
  imports Execute
begin

text \<open>
  The check of the recorded pre-states against the registers as they are
  (\<^verbatim>\<open>TAO/Register/verify.cpp\<close>). A map carries the post-states of the contracts of the same
  transaction that have been checked before; it takes precedence over the database.
\<close>

type_synonym state_map = "u256 \<rightharpoonup> reg_state"
type_synonym verify_res = "(contract \<times> state_map) res"

definition current_state :: "state_map \<Rightarrow> u256 \<Rightarrow> u8 \<Rightarrow> world \<Rightarrow> reg_state res" where
  "current_state mapStates hashAddress nFlags W =
     (case mapStates hashAddress of
        Some state \<Rightarrow> Inr state
      | None \<Rightarrow> found ''failed to read pre-state'' (ReadState hashAddress nFlags W))"

text \<open>What the cases share: the pre-state of the contract must be the current state, the caller must
  own it where the operation asks for that, and the operation, computed on the current state, enters
  the map. A mismatch of a trust account or of a credit is logged with both balances first.\<close>

definition verify_state :: "env \<Rightarrow> bool \<Rightarrow> u256 \<Rightarrow> (contract \<Rightarrow> reg_state \<Rightarrow> reg_state res) \<Rightarrow> u8 \<Rightarrow> world \<Rightarrow>
    state_map \<Rightarrow> contract \<Rightarrow> verify_res" where
  "verify_state E fOwner hashAddress exec nFlags W mapStates c =
     rbind (take_prestate c) (\<lambda>(prestate, c).
     rbind (current_state mapStates hashAddress nFlags W) (\<lambda>state.
     if \<not> State_eq E prestate state then Inl (Reject ''pre-state verification failed'')
     else if fOwner \<and> hashCaller c \<noteq> hashOwner prestate then Inl (Reject ''not authorized'')
     else rbind (exec c state) (\<lambda>state. Inr (c, mapStates(hashAddress \<mapsto> state)))))"

definition verify_write :: "env \<Rightarrow> u8 \<Rightarrow> world \<Rightarrow> state_map \<Rightarrow> contract \<Rightarrow> verify_res" where
  "verify_write E nFlags W m c =
     rbind (op_word c) (\<lambda>(hashAddress, c).
     rbind (op_vector c) (\<lambda>(vchData, c).
     verify_state E True hashAddress (\<lambda>c state. Write_Execute E state vchData (nTimestamp c)) nFlags W m c))"

definition verify_append :: "env \<Rightarrow> u8 \<Rightarrow> world \<Rightarrow> state_map \<Rightarrow> contract \<Rightarrow> verify_res" where
  "verify_append E nFlags W m c =
     rbind (op_word c) (\<lambda>(hashAddress, c).
     rbind (op_vector c) (\<lambda>(vchData, c).
     verify_state E True hashAddress (\<lambda>c state. Append_Execute E state vchData (nTimestamp c)) nFlags W m c))"

definition verify_create :: "env \<Rightarrow> state_map \<Rightarrow> contract \<Rightarrow> verify_res" where
  "verify_create E m c =
     rbind (op_word c) (\<lambda>(hashAddress :: u256, c).
     rbind (op_word c) (\<lambda>(t, c).
     rbind (op_vector c) (\<lambda>(vchData, c).
     rbind (Create_Execute E ((State_default E)\<lparr>nVersion := 1, nType := t, hashOwner := hashCaller c\<rparr>)
              vchData (nTimestamp c)) (\<lambda>state.
     Inr (c, m(hashAddress \<mapsto> state))))))"

definition verify_transfer :: "env \<Rightarrow> u8 \<Rightarrow> world \<Rightarrow> state_map \<Rightarrow> contract \<Rightarrow> verify_res" where
  "verify_transfer E nFlags W m c =
     rbind (op_word c) (\<lambda>(hashAddress, c).
     rbind (op_word c) (\<lambda>(hashTransfer, c).
     rbind (op_word c) (\<lambda>(t, c).
     verify_state E True hashAddress
       (\<lambda>c state. Transfer_Execute E state (transfer_owner c t hashTransfer) (nTimestamp c)) nFlags W m c)))"

definition verify_claim :: "env \<Rightarrow> u8 \<Rightarrow> world \<Rightarrow> state_map \<Rightarrow> contract \<Rightarrow> verify_res" where
  "verify_claim E nFlags W m c =
     rbind (Contract_Seek 68 OPERATIONS STREAM_CURSOR c) (\<lambda>c.
     rbind (op_word c) (\<lambda>(hashAddress, c).
     verify_state E False hashAddress (\<lambda>c state. Claim_Execute E state (hashCaller c) (nTimestamp c)) nFlags W m c))"

definition verify_coinbase :: "state_map \<Rightarrow> contract \<Rightarrow> verify_res" where
  "verify_coinbase m c = rbind (Contract_Seek 48 OPERATIONS STREAM_CURSOR c) (\<lambda>c. Inr (c, m))"

text \<open>The operations on objects work on the object of the current state.\<close>

definition on_object :: "(object \<Rightarrow> object res) \<Rightarrow> reg_state \<Rightarrow> reg_state res" where
  "on_object exec state = rbind (exec (Object_of state)) (\<lambda>ob. Inr (State_of ob))"

definition trust_address :: "env \<Rightarrow> contract \<Rightarrow> u256 res" where
  "trust_address E c = Address_key E (str ''trust'') (hashCaller c) ADDR_TRUST"

definition verify_trust :: "env \<Rightarrow> nat \<Rightarrow> u8 \<Rightarrow> world \<Rightarrow> state_map \<Rightarrow> contract \<Rightarrow> verify_res" where
  "verify_trust E nSkip nFlags W m c =
     rbind (trust_address E c) (\<lambda>hashAddress.
     rbind (Contract_Seek nSkip OPERATIONS STREAM_CURSOR c) (\<lambda>c.
     rbind (op_word c) (\<lambda>(nScore, c).
     rbind (op_word c) (\<lambda>(nStakeChange, c).
     rbind (op_word c) (\<lambda>(nReward, c).
     verify_state E True hashAddress
       (\<lambda>c. on_object (\<lambda>ob. Trust_Execute E ob nReward nScore nStakeChange (nTimestamp c))) nFlags W m c)))))"

definition verify_genesis :: "env \<Rightarrow> nat \<Rightarrow> u8 \<Rightarrow> world \<Rightarrow> state_map \<Rightarrow> contract \<Rightarrow> verify_res" where
  "verify_genesis E nSkip nFlags W m c =
     rbind (trust_address E c) (\<lambda>hashAddress.
     rbind (if nSkip = 0 then Inr c else Contract_Seek nSkip OPERATIONS STREAM_CURSOR c) (\<lambda>c.
     rbind (op_word c) (\<lambda>(nReward, c).
     verify_state E True hashAddress
       (\<lambda>c. on_object (\<lambda>ob. Genesis_Execute E ob nReward (nTimestamp c))) nFlags W m c)))"

text \<open>The source reads the reference between the state byte and the state; the two streams are
  independent.\<close>

definition verify_debit :: "env \<Rightarrow> u8 \<Rightarrow> world \<Rightarrow> state_map \<Rightarrow> contract \<Rightarrow> verify_res" where
  "verify_debit E nFlags W m c =
     rbind (op_word c) (\<lambda>(hashAddress, c).
     rbind (Contract_Seek 32 OPERATIONS STREAM_CURSOR c) (\<lambda>c.
     rbind (op_word c) (\<lambda>(nAmount, c).
     rbind (op_word c) (\<lambda>(nReference :: u64, c).
     verify_state E True hashAddress
       (\<lambda>c. on_object (\<lambda>ob. Debit_Execute E ob nAmount (nTimestamp c))) nFlags W m c))))"

definition verify_credit :: "env \<Rightarrow> u8 \<Rightarrow> world \<Rightarrow> state_map \<Rightarrow> contract \<Rightarrow> verify_res" where
  "verify_credit E nFlags W m c =
     rbind (Contract_Seek 68 OPERATIONS STREAM_CURSOR c) (\<lambda>c.
     rbind (op_word c) (\<lambda>(hashAddress, c).
     rbind (Contract_Seek 32 OPERATIONS STREAM_CURSOR c) (\<lambda>c.
     rbind (op_word c) (\<lambda>(nAmount, c).
     verify_state E True hashAddress
       (\<lambda>c. on_object (\<lambda>ob. Credit_Execute E ob nAmount (nTimestamp c))) nFlags W m c))))"

definition verify_migrate :: "env \<Rightarrow> u8 \<Rightarrow> world \<Rightarrow> state_map \<Rightarrow> contract \<Rightarrow> verify_res" where
  "verify_migrate E nFlags W m c =
     rbind (Contract_Seek 64 OPERATIONS STREAM_CURSOR c) (\<lambda>c.
     rbind (op_word c) (\<lambda>(hashAccount, c).
     rbind (Contract_Seek 72 OPERATIONS STREAM_CURSOR c) (\<lambda>c.
     rbind (op_word c) (\<lambda>(nAmount, c).
     rbind (op_word c) (\<lambda>(nScore, c).
     rbind (Contract_Seek 64 OPERATIONS STREAM_CURSOR c) (\<lambda>c.
     verify_state E True hashAccount
       (\<lambda>c. on_object (\<lambda>ob. Migrate_Execute E ob nAmount nScore (nTimestamp c))) nFlags W m c))))))"

definition verify_fee :: "env \<Rightarrow> u8 \<Rightarrow> world \<Rightarrow> state_map \<Rightarrow> contract \<Rightarrow> verify_res" where
  "verify_fee E nFlags W m c =
     rbind (op_word c) (\<lambda>(hashAddress, c).
     rbind (op_word c) (\<lambda>(nFees, c).
     verify_state E True hashAddress
       (\<lambda>c. on_object (\<lambda>ob. Fee_Execute E ob nFees (nTimestamp c))) nFlags W m c))"

definition skip_sized :: "contract \<Rightarrow> contract res" where
  "skip_sized c =
     rbind (Contract_ReadCompactSize OPERATIONS c) (\<lambda>(nSize, c).
     Contract_Seek (nSize mod 2 ^ 32) OPERATIONS STREAM_CURSOR c)"

definition verify_legacy :: "env \<Rightarrow> u8 \<Rightarrow> world \<Rightarrow> state_map \<Rightarrow> contract \<Rightarrow> verify_res" where
  "verify_legacy E nFlags W m c =
     rbind (op_word c) (\<lambda>(hashAddress, c).
     rbind (op_word c) (\<lambda>(nAmount, c).
     rbind (verify_state E True hashAddress
       (\<lambda>c. on_object (\<lambda>ob. Legacy_Execute E ob nAmount (nTimestamp c))) nFlags W m c) (\<lambda>(c, m).
     rbind (skip_sized c) (\<lambda>c. Inr (c, m)))))"

definition verify_prefix :: "contract \<Rightarrow> (u8 \<times> contract) res" where
  "verify_prefix c =
     rbind (op_word c) (\<lambda>(nOP, c).
     if nOP = OP_CONDITION then op_word c
     else if nOP = OP_VALIDATE then rbind (Contract_Seek 68 OPERATIONS STREAM_CURSOR c) op_word
     else Inr (nOP, c))"

definition verify_primitive :: "env \<Rightarrow> u8 \<Rightarrow> world \<Rightarrow> state_map \<Rightarrow> u8 \<Rightarrow> contract \<Rightarrow> verify_res" where
  "verify_primitive E nFlags W m nOP c =
     (if nOP = OP_WRITE then verify_write E nFlags W m c
      else if nOP = OP_APPEND then verify_append E nFlags W m c
      else if nOP = OP_CREATE then verify_create E m c
      else if nOP = OP_TRANSFER then verify_transfer E nFlags W m c
      else if nOP = OP_CLAIM then verify_claim E nFlags W m c
      else if nOP = OP_COINBASE then verify_coinbase m c
      else if nOP = OP_TRUST then verify_trust E 64 nFlags W m c
      else if nOP = OP_GENESIS then verify_genesis E 0 nFlags W m c
      else if nOP = OP_TRUSTPOOL then verify_trust E 112 nFlags W m c
      else if nOP = OP_GENESISPOOL then verify_genesis E 48 nFlags W m c
      else if nOP = OP_DEBIT then verify_debit E nFlags W m c
      else if nOP = OP_CREDIT then verify_credit E nFlags W m c
      else if nOP = OP_MIGRATE then verify_migrate E nFlags W m c
      else if nOP = OP_FEE then verify_fee E nFlags W m c
      else if nOP = 0x03 then rbind (Contract_Seek 96 OPERATIONS STREAM_CURSOR c) (\<lambda>c. Inr (c, m))
      else if nOP = OP_VALIDATE then rbind (Contract_Seek 68 OPERATIONS STREAM_CURSOR c) (\<lambda>c. Inr (c, m))
      else if nOP = OP_LEGACY then verify_legacy E nFlags W m c
      else Inl (Reject ''invalid code for contract verification''))"

text \<open>A write and an append return before the check that the whole script has been read.\<close>

definition Register_Verify :: "env \<Rightarrow> contract \<Rightarrow> state_map \<Rightarrow> u8 \<Rightarrow> world \<Rightarrow> state_map res" where
  "Register_Verify E c m nFlags W =
     rbind (Contract_Reset ALL_STREAMS c) (\<lambda>c.
     catch_all (rbind (verify_prefix c) (\<lambda>(nOP, c).
       rbind (verify_primitive E nFlags W m nOP c) (\<lambda>(c, m).
       if nOP \<noteq> OP_WRITE \<and> nOP \<noteq> OP_APPEND \<and> \<not> Contract_End OPERATIONS c then
         Inl (Reject ''can only have one PRIMITIVE per contract'')
       else Inr m))))"

end
