(* ===== verification/Rollback.thy ===== *)
theory Rollback
  imports Register_Verify
begin

text \<open>
  Taking back an executed contract when its block is disconnected
  (\<^verbatim>\<open>TAO/Register/rollback.cpp\<close>): the registers get their recorded pre-states back, proofs and
  validations are erased, claimed amounts and events are taken back.
\<close>

type_synonym undo_res = "(contract \<times> world) res"

text \<open>Most cases end by writing the pre-state back.\<close>

definition restore :: "env \<Rightarrow> u256 \<Rightarrow> u8 \<Rightarrow> world \<Rightarrow> contract \<Rightarrow> undo_res" where
  "restore E hashAddress nFlags W c =
     rbind (take_prestate c) (\<lambda>(state, c). Inr (c, WriteState E hashAddress state nFlags W))"

definition undo_write :: "env \<Rightarrow> u8 \<Rightarrow> world \<Rightarrow> contract \<Rightarrow> undo_res" where
  "undo_write E nFlags W c =
     rbind (op_word c) (\<lambda>(hashAddress, c).
     rbind (skip_sized c) (\<lambda>c. restore E hashAddress nFlags W c))"

definition undo_create :: "u8 \<Rightarrow> world \<Rightarrow> contract \<Rightarrow> undo_res" where
  "undo_create nFlags W c =
     rbind (op_word c) (\<lambda>(hashAddress, c).
     rbind (op_word c) (\<lambda>(t :: u8, c).
     rbind (skip_sized c) (\<lambda>c. Inr (c, EraseState hashAddress nFlags W))))"

definition undo_transfer :: "env \<Rightarrow> u8 \<Rightarrow> world \<Rightarrow> contract \<Rightarrow> undo_res" where
  "undo_transfer E nFlags W c =
     rbind (op_word c) (\<lambda>(hashAddress, c).
     rbind (op_word c) (\<lambda>(hashTransfer, c).
     rbind (Contract_Seek 1 OPERATIONS STREAM_CURSOR c) (\<lambda>c.
     rbind (restore E hashAddress nFlags W c) (\<lambda>(c, W).
     if nFlags = FLAGS_BLOCK \<and> hashTransfer \<noteq> WILDCARD_ADDRESS then
       rbind (EraseEvent hashTransfer W) (\<lambda>W. Inr (c, W))
     else Inr (c, W)))))"

definition undo_claim :: "env \<Rightarrow> u8 \<Rightarrow> world \<Rightarrow> contract \<Rightarrow> undo_res" where
  "undo_claim E nFlags W c =
     rbind (op_word c) (\<lambda>(h, c).
     rbind (op_word c) (\<lambda>(nContract, c).
     rbind (op_word c) (\<lambda>(hashAddress, c).
     restore E hashAddress nFlags (EraseProof hashAddress h nContract nFlags W) c)))"

definition undo_coinbase :: "u8 \<Rightarrow> world \<Rightarrow> contract \<Rightarrow> undo_res" where
  "undo_coinbase nFlags W c =
     rbind (op_word c) (\<lambda>(hashGenesis, c).
     rbind (Contract_Seek 16 OPERATIONS STREAM_CURSOR c) (\<lambda>c.
     if nFlags = FLAGS_BLOCK \<and> hashCaller c \<noteq> hashGenesis then
       rbind (EraseEvent hashGenesis W) (\<lambda>W. Inr (c, W))
     else Inr (c, W)))"

definition undo_trust :: "env \<Rightarrow> nat \<Rightarrow> world \<Rightarrow> contract \<Rightarrow> undo_res" where
  "undo_trust E nSkip W c =
     rbind (Contract_Seek nSkip OPERATIONS STREAM_CURSOR c) (\<lambda>c.
     rbind (take_prestate c) (\<lambda>(state, c).
     rbind (WriteTrust E (hashOwner state) state W) (\<lambda>W. Inr (c, W))))"

definition undo_genesis :: "env \<Rightarrow> nat \<Rightarrow> world \<Rightarrow> contract \<Rightarrow> undo_res" where
  "undo_genesis E nSkip W c =
     rbind (Contract_Seek nSkip OPERATIONS STREAM_CURSOR c) (\<lambda>c.
     rbind (take_prestate c) (\<lambda>(state, c).
     rbind (Address_key E (str ''trust'') (hashOwner state) ADDR_TRUST) (\<lambda>hashAddress.
     Inr (c, EraseTrust (hashCaller c) (WriteState E hashAddress state FLAGS_BLOCK W)))))"

text \<open>The recipient is read before the test for the wild card: a debit to anyone cannot be taken
  back from a block.\<close>

definition undo_debit :: "env \<Rightarrow> u8 \<Rightarrow> world \<Rightarrow> contract \<Rightarrow> undo_res" where
  "undo_debit E nFlags W c =
     rbind (op_word c) (\<lambda>(hashFrom, c).
     rbind (op_word c) (\<lambda>(hashTo, c).
     rbind (Contract_Seek 16 OPERATIONS STREAM_CURSOR c) (\<lambda>c.
     rbind (restore E hashFrom nFlags W c) (\<lambda>(c, W).
     if nFlags = FLAGS_BLOCK then
       rbind (found ''failed to read register to'' (ReadState hashTo nFlags W)) (\<lambda>stateTo.
       if hashTo \<noteq> WILDCARD_ADDRESS then
         rbind (EraseEvent (hashOwner stateTo) W) (\<lambda>W. Inr (c, W))
       else Inr (c, W))
     else Inr (c, W)))))"

definition undo_claimed :: "contract \<Rightarrow> u512 \<Rightarrow> u32 \<Rightarrow> u64 \<Rightarrow> u8 \<Rightarrow> world \<Rightarrow> world res" where
  "undo_claimed debit h nContract nAmount nFlags W =
     rbind (op_word debit) (\<lambda>(t :: u8, debit).
     if t = OP_DEBIT then
       rbind (op_word debit) (\<lambda>(hashFrom :: u256, debit).
       rbind (op_word debit) (\<lambda>(hashTo :: u256, debit).
       if IsObject hashTo then
         rbind (found ''failed to read claimed amount'' (ReadClaimed h nContract nFlags W)) (\<lambda>nClaimed.
         if nClaimed < nAmount then Inl (Reject ''amount larger than claimed'')
         else Inr (WriteClaimed h nContract (nClaimed - nAmount) nFlags W))
       else Inr W))
     else Inr W)"

definition undo_credit :: "env \<Rightarrow> u8 \<Rightarrow> world \<Rightarrow> contract \<Rightarrow> undo_res" where
  "undo_credit E nFlags W c =
     rbind (op_word c) (\<lambda>(h, c).
     rbind (op_word c) (\<lambda>(nContract, c).
     rbind (op_word c) (\<lambda>(hashAddress, c).
     rbind (op_word c) (\<lambda>(hashProof, c).
     rbind (op_word c) (\<lambda>(nAmount, c).
     rbind (restore E hashAddress nFlags (EraseProof hashProof h nContract nFlags W) c) (\<lambda>(c, W).
     rbind (Ledger_ReadContract E h nContract FLAGS_BLOCK W) (\<lambda>debit.
     rbind (undo_claimed debit h nContract nAmount nFlags W) (\<lambda>W. Inr (c, W)))))))))"

definition EraseTrustConversion :: "u576 \<Rightarrow> world \<Rightarrow> world" where
  "EraseTrustConversion k W = W\<lparr>wTrustKeys := (wTrustKeys W)(k := None)\<rparr>"

definition undo_migrate :: "env \<Rightarrow> u8 \<Rightarrow> world \<Rightarrow> contract \<Rightarrow> undo_res" where
  "undo_migrate E nFlags W c =
     rbind (op_word c) (\<lambda>(h, c).
     rbind (op_word c) (\<lambda>(hashAccount, c).
     rbind (op_word c) (\<lambda>(hashTrust, c).
     rbind (Contract_Seek 76 OPERATIONS STREAM_CURSOR c) (\<lambda>c.
     rbind (restore E hashAccount nFlags W c) (\<lambda>(c, W).
     Inr (c, EraseTrustConversion hashTrust (EraseStake (hashCaller c) (EraseTrust (hashCaller c)
       (EraseProof WILDCARD_ADDRESS h 0 nFlags W)))))))))"

definition undo_fee :: "env \<Rightarrow> u8 \<Rightarrow> world \<Rightarrow> contract \<Rightarrow> undo_res" where
  "undo_fee E nFlags W c =
     rbind (op_word c) (\<lambda>(hashAddress, c).
     rbind (Contract_Seek 8 OPERATIONS STREAM_CURSOR c) (\<lambda>c. restore E hashAddress nFlags W c))"

definition undo_legacy :: "env \<Rightarrow> u8 \<Rightarrow> world \<Rightarrow> contract \<Rightarrow> undo_res" where
  "undo_legacy E nFlags W c =
     rbind (op_word c) (\<lambda>(hashFrom, c).
     rbind (Contract_Seek 8 OPERATIONS STREAM_CURSOR c) (\<lambda>c.
     rbind (op_vector c) (\<lambda>(script, c). restore E hashFrom nFlags W c)))"

definition undo_prefix :: "u8 \<Rightarrow> world \<Rightarrow> contract \<Rightarrow> (u8 \<times> contract \<times> world) res" where
  "undo_prefix nFlags W c =
     rbind (op_word c) (\<lambda>(nOP, c).
     if nOP = OP_CONDITION then rbind (op_word c) (\<lambda>(nOP, c). Inr (nOP, c, W))
     else if nOP = OP_VALIDATE then
       rbind (op_word c) (\<lambda>(h, c).
       rbind (op_word c) (\<lambda>(nContract, c).
       rbind (op_word c) (\<lambda>(nOP, c). Inr (nOP, c, EraseContract h nContract nFlags W))))
     else Inr (nOP, c, W))"

definition undo_primitive :: "env \<Rightarrow> u8 \<Rightarrow> world \<Rightarrow> u8 \<Rightarrow> contract \<Rightarrow> undo_res" where
  "undo_primitive E nFlags W nOP c =
     (if nOP = OP_WRITE \<or> nOP = OP_APPEND then undo_write E nFlags W c
      else if nOP = OP_CREATE then undo_create nFlags W c
      else if nOP = OP_TRANSFER then undo_transfer E nFlags W c
      else if nOP = OP_CLAIM then undo_claim E nFlags W c
      else if nOP = OP_COINBASE then undo_coinbase nFlags W c
      else if nOP = OP_TRUST then undo_trust E 88 W c
      else if nOP = OP_GENESIS then undo_genesis E 8 W c
      else if nOP = OP_TRUSTPOOL then undo_trust E 136 W c
      else if nOP = OP_GENESISPOOL then undo_genesis E 56 W c
      else if nOP = OP_DEBIT then undo_debit E nFlags W c
      else if nOP = OP_CREDIT then undo_credit E nFlags W c
      else if nOP = OP_MIGRATE then undo_migrate E nFlags W c
      else if nOP = OP_FEE then undo_fee E nFlags W c
      else if nOP = 0x03 then rbind (Contract_Seek 96 OPERATIONS STREAM_CURSOR c) (\<lambda>c. Inr (c, W))
      else if nOP = OP_LEGACY then undo_legacy E nFlags W c
      else Inl (Reject ''invalid code for contract execution''))"

definition Rollback :: "env \<Rightarrow> contract \<Rightarrow> u8 \<Rightarrow> world \<Rightarrow> world res" where
  "Rollback E c nFlags W =
     rbind (Contract_Reset ALL_STREAMS c) (\<lambda>c.
     catch_all (rbind (undo_prefix nFlags W c) (\<lambda>(nOP, c, W).
       rbind (undo_primitive E nFlags W nOP c) (\<lambda>(c, W).
       if nOP \<noteq> OP_WRITE \<and> nOP \<noteq> OP_APPEND \<and> \<not> Contract_End OPERATIONS c then
         Inl (Reject ''can only have one PRIMITIVE per contract'')
       else Inr W))))"

end
