(* ===== verification/Block_View.thy ===== *)
theory Block_View
  imports Rollback
begin

text \<open>
  Block processing refines the operations on plain key-value stores: whatever the memory of a node
  holds (\<^verbatim>\<open>pCommit\<close>, \<^verbatim>\<open>pMemory\<close>, \<^verbatim>\<open>pMiner\<close> and the memory pool), an execution or a roll-back with the
  flag for blocks gives the same on the world without it. The abstraction function is \<open>on_disk\<close>.
\<close>

section \<open>The world without its memory\<close>

definition bare :: "('k, 'v) overlay \<Rightarrow> ('k, 'v) overlay" where
  "bare d = empty_overlay\<lparr>disk := disk d\<rparr>"

definition on_disk :: "world \<Rightarrow> world" where
  "on_disk W = W\<lparr>wRegister := (wRegister W)\<lparr>rStates := bare (rStates (wRegister W))\<rparr>,
     wLedger := (wLedger W)\<lparr>lClaims := bare (lClaims (wLedger W)), lProofs := bare (lProofs (wLedger W)), lMempool := Map.empty\<rparr>,
     wContract := bare (wContract W), wLegacyPool := Map.empty\<rparr>"

abbreviation res_map :: "('a \<Rightarrow> 'b) \<Rightarrow> 'a res \<Rightarrow> 'b res" where
  "res_map \<equiv> map_sum id"

lemma res_map_rbind: "res_map f (rbind r g) = rbind r (\<lambda>x. res_map f (g x))"
  by (cases r) (simp_all add: rbind_def)

lemma rbind_res_map: "rbind (res_map f r) g = rbind r (\<lambda>x. g (f x))"
  by (cases r) (simp_all add: rbind_def)

lemma res_map_if: "res_map f (if b then x else y) = (if b then res_map f x else res_map f y)"
  by simp

lemma res_map_option: "res_map f (case x of None \<Rightarrow> a | Some y \<Rightarrow> b y) = (case x of None \<Rightarrow> res_map f a | Some y \<Rightarrow> res_map f (b y))"
  by (cases x) simp_all

lemma res_map_pair: "res_map f (case p of (a, b) \<Rightarrow> g a b) = (case p of (a, b) \<Rightarrow> res_map f (g a b))"
  by (cases p) simp

lemma rbind_if_map:
  "rbind (if b then res_map f x else Inr (f y)) g = rbind (if b then x else Inr y) (\<lambda>z. g (f z))"
  by (cases b) (simp_all add: rbind_res_map)

lemmas res_maps = rbind_if_map res_map_rbind rbind_res_map res_map_option res_map_pair

lemma bare_fields [simp]: "disk (bare d) = disk d" "bare (bare d) = bare d" "pCommit (bare d) = Map.empty"
  "pMemory (bare d) = None" "pMiner (bare d) = None"
  by (simp_all add: bare_def empty_overlay_def)

lemma write_state_bare: "bare (write_state E FLAGS_BLOCK a s d) = write_state E FLAGS_BLOCK a s (bare d)"
  by (simp add: bare_def empty_overlay_def write_state_def mem_erase_def overlay_defs disk_write_def Let_def split: option.splits)

lemma write_proof_bare: "bare (write_proof FLAGS_BLOCK k v d) = write_proof FLAGS_BLOCK k v (bare d)"
  by (simp add: bare_def empty_overlay_def write_proof_def mem_erase_def overlay_defs disk_write_def Let_def split: option.splits)

lemma write_claim_bare: "bare (write_claim FLAGS_BLOCK k v d) = write_claim FLAGS_BLOCK k v (bare d)"
  by (simp add: bare_def empty_overlay_def write_claim_def mem_erase_def overlay_defs disk_write_def Let_def split: option.splits)

lemma overlay_erase_bare: "bare (overlay_erase k FLAGS_BLOCK d) = overlay_erase k FLAGS_BLOCK (bare d)"
  by (simp add: bare_def empty_overlay_def overlay_erase_def mem_erase_def overlay_defs Let_def split: option.splits)

lemma on_disk_reads [simp]:
  "ReadState x FLAGS_BLOCK (on_disk W) = ReadState x FLAGS_BLOCK W"
  "HasState x FLAGS_BLOCK (on_disk W) = HasState x FLAGS_BLOCK W"
  "HasProof p h n FLAGS_BLOCK (on_disk W) = HasProof p h n FLAGS_BLOCK W"
  "ReadClaimed h n FLAGS_BLOCK (on_disk W) = ReadClaimed h n FLAGS_BLOCK W"
  "ReadContract h n FLAGS_BLOCK (on_disk W) = ReadContract h n FLAGS_BLOCK W"
  "HasContract h n FLAGS_BLOCK (on_disk W) = HasContract h n FLAGS_BLOCK W"
  "ReadSequence x (on_disk W) = ReadSequence x W" "HasTrust g (on_disk W) = HasTrust g W"
  "HasTrustConversion k (on_disk W) = HasTrustConversion k W"
  by (simp_all add: on_disk_def world_ops read_register_def has_register_def read_proof_def read_claim_def HasTrustConversion_def)

lemma on_disk_ReadContract [simp]:
  "Ledger_ReadContract E h n FLAGS_BLOCK (on_disk W) = Ledger_ReadContract E h n FLAGS_BLOCK W"
  by (simp add: Ledger_ReadContract_def ReadTx_def Legacy_ReadOutputs_def on_disk_def)

lemma on_disk_writes:
  "on_disk (WriteState E a s FLAGS_BLOCK W) = WriteState E a s FLAGS_BLOCK (on_disk W)"
  "on_disk (EraseState a FLAGS_BLOCK W) = EraseState a FLAGS_BLOCK (on_disk W)"
  "on_disk (WriteProof p h n FLAGS_BLOCK W) = WriteProof p h n FLAGS_BLOCK (on_disk W)"
  "on_disk (EraseProof p h n FLAGS_BLOCK W) = EraseProof p h n FLAGS_BLOCK (on_disk W)"
  "on_disk (WriteClaimed h n m FLAGS_BLOCK W) = WriteClaimed h n m FLAGS_BLOCK (on_disk W)"
  "on_disk (WriteContract h n g FLAGS_BLOCK W) = WriteContract h n g FLAGS_BLOCK (on_disk W)"
  "on_disk (EraseContract h n FLAGS_BLOCK W) = EraseContract h n FLAGS_BLOCK (on_disk W)"
  "on_disk (WriteEvent u h W) = WriteEvent u h (on_disk W)"
  "on_disk (IndexTrust g r W) = IndexTrust g r (on_disk W)" "on_disk (EraseTrust g W) = EraseTrust g (on_disk W)"
  "on_disk (WriteStake g h W) = WriteStake g h (on_disk W)" "on_disk (EraseStake g W) = EraseStake g (on_disk W)"
  "on_disk (WriteTrustConversion k W) = WriteTrustConversion k (on_disk W)"
  "on_disk (EraseTrustConversion k W) = EraseTrustConversion k (on_disk W)"
  by (simp_all add: on_disk_def world_ops EraseContract_def WriteTrustConversion_def EraseTrustConversion_def Let_def
      write_state_bare write_proof_bare write_claim_bare overlay_erase_bare)

lemma on_disk_EraseEvent: "EraseEvent u (on_disk W) = res_map on_disk (EraseEvent u W)"
  by (simp add: EraseEvent_def split: option.splits) (simp add: on_disk_def world_ops)

lemma on_disk_WriteTrust: "WriteTrust E g s (on_disk W) = res_map on_disk (WriteTrust E g s W)"
proof -
  let ?f = "\<lambda>V a. V\<lparr>wRegister := (wRegister V)\<lparr>rStates := (rStates (wRegister V))\<lparr>pCommit := (pCommit (rStates (wRegister V)))(a := None)\<rparr>\<rparr>\<rparr>"
  have "on_disk (?f W a) = on_disk W" "?f (on_disk W) a = on_disk W" for a
    by (rule world.equality, simp_all add: on_disk_def bare_def empty_overlay_def)+
  then have "on_disk (WriteState E a s FLAGS_BLOCK (?f W a)) = WriteState E a s FLAGS_BLOCK (?f (on_disk W) a)" for a
    by (simp add: on_disk_writes)
  then show ?thesis by (simp add: WriteTrust_def Let_def res_maps)
qed

section \<open>Conditions\<close>

lemma on_disk_register_state [simp]: "register_state (on_disk W) = register_state W"
  by (intro ext) (simp add: register_state_def)

lemma on_disk_value_op [simp]: "value_op E (on_disk W) = value_op E W"
  by (intro ext) (simp add: value_op_def register_op_def split_beta cong: if_cong)

lemma on_disk_GetValue [simp]: "GetValue k E (on_disk W) caller v s = GetValue k E W caller v s"
  by (induction k arbitrary: v s) (simp_all add: split_beta cong: rbind_cong if_cong)

lemma on_disk_script_step [simp]: "script_step E (on_disk W) = script_step E W"
proof (intro ext)
  have "GetValue k E (on_disk W) = GetValue k E W" for k by (intro ext) simp
  then show "script_step E (on_disk W) caller s = script_step E W caller s" for caller s
    unfolding script_step_def Evaluate_def EvaluateV1_def EvaluateV2_def by (simp only:)
qed

lemma on_disk_script_loop [simp]: "script_loop k E (on_disk W) caller s = script_loop k E W caller s"
  by (induction k arbitrary: s) (simp_all cong: rbind_cong)

lemma on_disk_Condition_Execute [simp]: "Condition_Execute E (on_disk W) = Condition_Execute E W"
  by (intro ext) (simp add: Condition_Execute_def)

section \<open>Commits\<close>

lemmas commit_defs = Write_Commit_def Append_Commit_def Transfer_Commit_def Claim_Commit_def Debit_Commit_def Credit_Commit_def
  Fee_Commit_def Legacy_Commit_def Coinbase_Commit_def Trust_Commit_def Genesis_Commit_def Trustpool_Commit_def Genesispool_Commit_def
  Migrate_Commit_def Validate_Commit_def

lemma on_disk_commits [simp]:
  "Write_Commit E s a FLAGS_BLOCK (on_disk W) = res_map on_disk (Write_Commit E s a FLAGS_BLOCK W)"
  "Append_Commit E s a FLAGS_BLOCK (on_disk W) = res_map on_disk (Append_Commit E s a FLAGS_BLOCK W)"
  "Transfer_Commit E s h a b FLAGS_BLOCK (on_disk W) = res_map on_disk (Transfer_Commit E s h a b FLAGS_BLOCK W)"
  "Claim_Commit E s a h n FLAGS_BLOCK (on_disk W) = res_map on_disk (Claim_Commit E s a h n FLAGS_BLOCK W)"
  "Fee_Commit E ob a FLAGS_BLOCK (on_disk W) = res_map on_disk (Fee_Commit E ob a FLAGS_BLOCK W)"
  "Legacy_Commit E s a FLAGS_BLOCK (on_disk W) = res_map on_disk (Legacy_Commit E s a FLAGS_BLOCK W)"
  "Coinbase_Commit g h FLAGS_BLOCK (on_disk W) = res_map on_disk (Coinbase_Commit g h FLAGS_BLOCK W)"
  "Validate_Commit h n g FLAGS_BLOCK (on_disk W) = res_map on_disk (Validate_Commit h n g FLAGS_BLOCK W)"
  "Migrate_Commit E ob a g h k l FLAGS_BLOCK (on_disk W) = res_map on_disk (Migrate_Commit E ob a g h k l FLAGS_BLOCK W)"
  by (simp_all add: commit_defs on_disk_writes Let_def)

lemma on_disk_Debit_Commit [simp]:
  "Debit_Commit E ob h a b FLAGS_BLOCK (on_disk W) = res_map on_disk (Debit_Commit E ob h a b FLAGS_BLOCK W)"
  by (simp add: Debit_Commit_def on_disk_writes split: option.split)

lemma on_disk_Credit_Commit [simp]:
  "Credit_Commit E ob d a p h n m FLAGS_BLOCK (on_disk W) = res_map on_disk (Credit_Commit E ob d a p h n m FLAGS_BLOCK W)"
proof -
  have "credit_claimed d h n m FLAGS_BLOCK (on_disk V) = res_map on_disk (credit_claimed d h n m FLAGS_BLOCK V)" for V
    by (simp add: credit_claimed_def res_maps res_map_if on_disk_writes Let_def cong: if_cong)
  then show ?thesis
    by (simp add: Credit_Commit_def res_maps Let_def flip: on_disk_writes)
qed

lemma on_disk_stake_commits [simp]:
  "Trust_Commit E s FLAGS_BLOCK (on_disk W) = res_map on_disk (Trust_Commit E s FLAGS_BLOCK W)"
  "Genesis_Commit E s FLAGS_BLOCK (on_disk W) = res_map on_disk (Genesis_Commit E s FLAGS_BLOCK W)"
  "Trustpool_Commit E s FLAGS_BLOCK (on_disk W) = res_map on_disk (Trustpool_Commit E s FLAGS_BLOCK W)"
  "Genesispool_Commit E s FLAGS_BLOCK (on_disk W) = res_map on_disk (Genesispool_Commit E s FLAGS_BLOCK W)"
  by (simp_all add: commit_defs on_disk_WriteTrust res_maps res_map_if on_disk_writes cong: if_cong)

text \<open>Creations look up the name space of a name in memory first.\<close>

definition namespaces_settled :: "world \<Rightarrow> bool" where
  "namespaces_settled W \<longleftrightarrow> (\<forall>x. IsNamespace x \<longrightarrow> ReadState x FLAGS_LOOKUP W = ReadState x FLAGS_BLOCK W)"

lemma on_disk_LOOKUP: "ReadState x FLAGS_LOOKUP (on_disk W) = ReadState x FLAGS_BLOCK W"
  by (simp add: on_disk_def world_ops read_register_def overlay_defs)

lemma Address_namespace_type: "Address_namespace E ns ADDR_NAMESPACE = Inr x \<Longrightarrow> IsNamespace x"
  by (auto simp: Address_namespace_def IsNamespace_def GetType_SetType Let_def split: if_splits)

lemma on_disk_GetNamespaceRegister:
  "namespaces_settled W \<Longrightarrow> GetNamespaceRegister E ns (on_disk W) = GetNamespaceRegister E ns W"
  unfolding GetNamespaceRegister_def
  by (rule rbind_cong [OF refl]) (simp add: on_disk_LOOKUP namespaces_settled_def Address_namespace_type)

lemma on_disk_create_object:
  assumes "namespaces_settled W"
  shows "create_object E s a k FLAGS_BLOCK (on_disk W) = create_object E s a k FLAGS_BLOCK W"
  unfolding create_object_def create_account_def create_token_def create_name_def on_disk_reads
    on_disk_GetNamespaceRegister [OF assms] by (rule refl)

lemma on_disk_Create_Commit:
  "namespaces_settled W \<Longrightarrow> Create_Commit E s a k FLAGS_BLOCK (on_disk W) =
     res_map (map_prod on_disk id) (Create_Commit E s a k FLAGS_BLOCK W)"
  by (simp add: Create_Commit_def on_disk_create_object res_maps res_map_if on_disk_writes cong: if_cong)

section \<open>Operations\<close>

lemma on_disk_checks [simp]:
  "claim_conditions E c d h n FLAGS_BLOCK (on_disk W) k = claim_conditions E c d h n FLAGS_BLOCK W k"
  "Validate_Verify E (on_disk W) c d k = Validate_Verify E W c d k"
  "Migrate_Verify E c d (on_disk W) = Migrate_Verify E c d W"
  unfolding claim_conditions_def Validate_Verify_def Migrate_Verify_def on_disk_reads on_disk_Condition_Execute by (rule refl)+

lemma on_disk_Credit_Verify [simp]: "Credit_Verify c d FLAGS_BLOCK (on_disk W) = Credit_Verify c d FLAGS_BLOCK W"
proof -
  have "credit_direct c d h n x b p m FLAGS_BLOCK (on_disk W) = credit_direct c d h n x b p m FLAGS_BLOCK W"
    "credit_partial c d h n b p m FLAGS_BLOCK (on_disk W) = credit_partial c d h n b p m FLAGS_BLOCK W" for c d h n x b p m
    unfolding credit_direct_def credit_partial_def on_disk_reads by (rule refl)+
  then show ?thesis unfolding Credit_Verify_def credit_debit_def by (simp only:)
qed

abbreviation (input) out :: "contract \<times> world \<times> u64 \<Rightarrow> contract \<times> world \<times> u64" where
  "out \<equiv> map_prod id (map_prod on_disk id)"

lemma on_disk_execs:
  "exec_write E FLAGS_BLOCK c (on_disk W) k = res_map out (exec_write E FLAGS_BLOCK c W k)"
  "exec_append E FLAGS_BLOCK c (on_disk W) k = res_map out (exec_append E FLAGS_BLOCK c W k)"
  "exec_transfer E FLAGS_BLOCK c (on_disk W) k = res_map out (exec_transfer E FLAGS_BLOCK c W k)"
  "exec_claim X E FLAGS_BLOCK c (on_disk W) k = res_map out (exec_claim X E FLAGS_BLOCK c W k)"
  "exec_coinbase E FLAGS_BLOCK v c (on_disk W) k = res_map out (exec_coinbase E FLAGS_BLOCK v c W k)"
  "exec_trust E FLAGS_BLOCK v c (on_disk W) k = res_map out (exec_trust E FLAGS_BLOCK v c W k)"
  "exec_genesis E FLAGS_BLOCK v c (on_disk W) k = res_map out (exec_genesis E FLAGS_BLOCK v c W k)"
  "exec_trustpool E FLAGS_BLOCK v c (on_disk W) k = res_map out (exec_trustpool E FLAGS_BLOCK v c W k)"
  "exec_genesispool E FLAGS_BLOCK v c (on_disk W) k = res_map out (exec_genesispool E FLAGS_BLOCK v c W k)"
  "exec_debit E FLAGS_BLOCK c (on_disk W) k = res_map out (exec_debit E FLAGS_BLOCK c W k)"
  "exec_credit X E FLAGS_BLOCK c (on_disk W) k = res_map out (exec_credit X E FLAGS_BLOCK c W k)"
  "exec_migrate X E FLAGS_BLOCK c (on_disk W) k = res_map out (exec_migrate X E FLAGS_BLOCK c W k)"
  "exec_fee E FLAGS_BLOCK c (on_disk W) k = res_map out (exec_fee E FLAGS_BLOCK c W k)"
  "exec_legacy E FLAGS_BLOCK c (on_disk W) k = res_map out (exec_legacy E FLAGS_BLOCK c W k)"
  "exec_authorize c (on_disk W) k = res_map out (exec_authorize c W k)"
  "namespaces_settled W \<Longrightarrow> exec_create E FLAGS_BLOCK c (on_disk W) k = res_map out (exec_create E FLAGS_BLOCK c W k)"
  unfolding exec_write_def exec_append_def exec_transfer_def exec_claim_def exec_coinbase_def exec_trust_def exec_genesis_def
    exec_trustpool_def exec_genesispool_def exec_debit_def exec_credit_def exec_migrate_def exec_fee_def exec_legacy_def
    exec_authorize_def exec_create_def
  by (simp_all add: res_maps res_map_if on_disk_Create_Commit Let_def cong: if_cong)

lemma on_disk_exec_primitive:
  assumes "namespaces_settled W"
  shows "exec_primitive X E FLAGS_BLOCK nOP v c (on_disk W) k = res_map out (exec_primitive X E FLAGS_BLOCK nOP v c W k)"
  unfolding exec_primitive_def on_disk_execs(1-15) on_disk_execs(16) [OF assms] by (simp only: res_map_if) simp

lemma on_disk_exec_prefix:
  "exec_prefix X E FLAGS_BLOCK c (on_disk W) k =
     res_map (map_prod id (map_prod id out)) (exec_prefix X E FLAGS_BLOCK c W k)"
  by (simp add: exec_prefix_def exec_condition_def exec_validate_def res_maps res_map_if cong: if_cong)

lemma prefix_settled:
  "exec_prefix X E FLAGS_BLOCK c W k = Inr (nOP, v, c1, W1, k1) \<Longrightarrow> namespaces_settled W \<Longrightarrow> namespaces_settled W1"
  unfolding exec_prefix_def exec_condition_def exec_validate_def
  by (auto simp: Validate_Commit_def namespaces_settled_def elim!: rbind_pairE rbindE simp del: rbind_eq_Inr split: if_splits)

lemma on_disk_Execute:
  assumes "namespaces_settled W"
  shows "Execute X E c FLAGS_BLOCK (on_disk W) k = res_map (map_prod on_disk id) (Execute X E c FLAGS_BLOCK W k)"
proof -
  have catch: "catch_all (res_map f r) = res_map f (catch_all r)" for f and r :: "'x res"
    by (auto simp: catch_all_def split: sum.splits error.splits)
  let ?p = "exec_prefix X E FLAGS_BLOCK (start c) W k"
  have "rbind (exec_prefix X E FLAGS_BLOCK (start c) (on_disk W) k) (\<lambda>(nOP, v, c, W, k).
       rbind (exec_primitive X E FLAGS_BLOCK nOP v c W k) (\<lambda>(c, W, k).
       if \<not> Contract_End OPERATIONS c then Inl (Reject ''contract can only have one PRIMITIVE'') else Inr (W, k)))
    = rbind ?p (\<lambda>(nOP, v, c, W, k).
       rbind (exec_primitive X E FLAGS_BLOCK nOP v c (on_disk W) k) (\<lambda>(c, W, k).
       if \<not> Contract_End OPERATIONS c then Inl (Reject ''contract can only have one PRIMITIVE'') else Inr (W, k)))"
    by (simp add: on_disk_exec_prefix res_maps case_prod_beta')
  also have "\<dots> = res_map (map_prod on_disk id) (rbind ?p (\<lambda>(nOP, v, c, W, k).
       rbind (exec_primitive X E FLAGS_BLOCK nOP v c W k) (\<lambda>(c, W, k).
       if \<not> Contract_End OPERATIONS c then Inl (Reject ''contract can only have one PRIMITIVE'') else Inr (W, k))))"
    unfolding res_map_rbind
    by (rule rbind_cong [OF refl])
      (auto simp: on_disk_exec_primitive [OF prefix_settled [OF _ assms]] res_maps res_map_if map_prod_def case_prod_beta' cong: if_cong)
  finally show ?thesis by (simp add: Execute_def catch)
qed

section \<open>Roll-back\<close>

lemma on_disk_restore [simp]:
  "restore E a FLAGS_BLOCK (on_disk W) = (\<lambda>c. res_map (map_prod id on_disk) (restore E a FLAGS_BLOCK W c))"
  by (intro ext) (simp add: restore_def res_maps on_disk_writes)

lemma on_disk_undo_prefix:
  "undo_prefix FLAGS_BLOCK (on_disk W) c = res_map (map_prod id (map_prod id on_disk)) (undo_prefix FLAGS_BLOCK W c)"
  by (simp add: undo_prefix_def res_maps res_map_if on_disk_writes cong: if_cong)

lemma on_disk_undo_claimed:
  "undo_claimed d h n m FLAGS_BLOCK (on_disk W) = res_map on_disk (undo_claimed d h n m FLAGS_BLOCK W)"
  by (simp add: undo_claimed_def res_maps res_map_if on_disk_writes cong: if_cong)

lemma on_disk_undo_primitive:
  "undo_primitive E FLAGS_BLOCK (on_disk W) nOP c = res_map (map_prod id on_disk) (undo_primitive E FLAGS_BLOCK W nOP c)"
proof -
  let ?o = "map_prod id on_disk :: contract \<times> world \<Rightarrow> contract \<times> world"
  have "undo_write E FLAGS_BLOCK (on_disk W) c = res_map ?o (undo_write E FLAGS_BLOCK W c)"
    "undo_create FLAGS_BLOCK (on_disk W) c = res_map ?o (undo_create FLAGS_BLOCK W c)"
    "undo_transfer E FLAGS_BLOCK (on_disk W) c = res_map ?o (undo_transfer E FLAGS_BLOCK W c)"
    "undo_claim E FLAGS_BLOCK (on_disk W) c = res_map ?o (undo_claim E FLAGS_BLOCK W c)"
    "undo_coinbase FLAGS_BLOCK (on_disk W) c = res_map ?o (undo_coinbase FLAGS_BLOCK W c)"
    "undo_trust E n (on_disk W) c = res_map ?o (undo_trust E n W c)"
    "undo_genesis E n (on_disk W) c = res_map ?o (undo_genesis E n W c)"
    "undo_debit E FLAGS_BLOCK (on_disk W) c = res_map ?o (undo_debit E FLAGS_BLOCK W c)"
    "undo_credit E FLAGS_BLOCK (on_disk W) c = res_map ?o (undo_credit E FLAGS_BLOCK W c)"
    "undo_migrate E FLAGS_BLOCK (on_disk W) c = res_map ?o (undo_migrate E FLAGS_BLOCK W c)"
    "undo_fee E FLAGS_BLOCK (on_disk W) c = res_map ?o (undo_fee E FLAGS_BLOCK W c)"
    "undo_legacy E FLAGS_BLOCK (on_disk W) c = res_map ?o (undo_legacy E FLAGS_BLOCK W c)" for n
    unfolding undo_write_def undo_create_def undo_transfer_def undo_claim_def undo_coinbase_def undo_trust_def undo_genesis_def
      undo_debit_def undo_credit_def undo_migrate_def undo_fee_def undo_legacy_def
    by (simp_all add: res_maps res_map_if case_prod_map_prod on_disk_WriteTrust on_disk_EraseEvent on_disk_undo_claimed cong: if_cong
        flip: on_disk_writes)
  then show ?thesis unfolding undo_primitive_def by (simp only: res_map_if) (simp add: res_maps)
qed

lemma on_disk_Rollback:
  "Rollback E c FLAGS_BLOCK (on_disk W) = res_map on_disk (Rollback E c FLAGS_BLOCK W)"
proof -
  have catch: "catch_all (res_map f r) = res_map f (catch_all r)" for f and r :: "'x res"
    by (auto simp: catch_all_def split: sum.splits error.splits)
  show ?thesis
    by (simp add: Rollback_def on_disk_undo_prefix on_disk_undo_primitive res_maps res_map_if case_prod_beta' cong: if_cong flip: catch)
qed

end
