(* ===== verification/Block_Properties.thy ===== *)
theory Block_Properties
  imports Block_View Samples
begin

text \<open>
  What block processing takes from the memory of a node: nothing, but for the name space of a new name.
\<close>

section \<open>Blocks and the memory pool\<close>

text \<open>
  C32. A block's contract is executed on the disk alone: as long as no change of a name space register is
  pending in memory, \<open>Execute\<close> with the flag for blocks gives the same outcome, the same cost and the
  same disk whatever the memory pool, a pending memory transaction or the miner's transaction hold.
\<close>

theorem block_ignores_memory:
  assumes "namespaces_settled W"
  shows "Execute X E c FLAGS_BLOCK (on_disk W) k = map_sum id (map_prod on_disk id) (Execute X E c FLAGS_BLOCK W k)"
  by (rule on_disk_Execute [OF assms])

theorem block_ignores_memory_witness:
  "\<exists>W'. Execute sample_ext node_2020 sample_debit FLAGS_BLOCK (on_disk sample_world) 0 = Inr (on_disk W', 0)"
proof -
  have "namespaces_settled sample_world"
    by (simp add: namespaces_settled_def sample_world_def world_ops write_state_def read_register_def empty_world_def empty_overlay_def
        overlay_defs disk_write_def)
  from block_ignores_memory [OF this, of sample_ext node_2020 sample_debit 0] show ?thesis
    using sample_debit_accepted by auto
qed

text \<open>
  A block is taken back on the disk alone: \<open>Rollback\<close> with the flag for blocks gives the same whatever
  the memory of the node holds.
\<close>

theorem rollback_ignores_memory:
  "Rollback E c FLAGS_BLOCK (on_disk W) = map_sum id on_disk (Rollback E c FLAGS_BLOCK W)"
  by (rule on_disk_Rollback)

section \<open>A name in a pending name space\<close>

definition ns_name :: "byte list" where "ns_name = [97, 98, 99]"

definition ns_address :: u256 where "ns_address = SetType ADDR_NAMESPACE 0"

definition ns_state :: reg_state where
  "ns_state = \<lparr>vchState = [9, 110, 97, 109, 101, 115, 112, 97, 99, 101, 8, 3, 97, 98, 99],
     nVersion = 1, nType = REGISTER_OBJECT, hashOwner = 5, nCreated = 1590000000,
     nModified = 1590000000, hashChecksum = 0\<rparr>"

definition name_state :: reg_state where
  "name_state = ns_state\<lparr>vchState := [4, 110, 97, 109, 101, 8, 1, 120] @ vchState ns_state\<rparr>"

definition unsettled_world :: world where
  "unsettled_world = WriteState node_2020 ns_address ns_state FLAGS_MEMPOOL empty_world"


definition ns_ob :: object where
  "ns_ob = (Object_of ns_state)\<lparr>mapData := [(str ''namespace'', 10, False)]\<rparr>"

definition name_ob :: object where
  "name_ob = (Object_of name_state)\<lparr>mapData := [(str ''name'', 5, False), (str ''namespace'', 18, False)]\<rparr>"

lemma ns_parse_loop: "parse_loop (cursor ns_state 0) [] = Inr [(str ''namespace'', 10, False)]"
  by code_simp

lemma ns_standard: "Object_Standard ns_ob = Inr OBJECTS_NAMESPACE"
  by code_simp

lemma name_strings:
  "Object_getString (str ''name'') name_ob = Inr [120]" "Object_getString (str ''namespace'') name_ob = Inr ns_name"
  by code_simp+


lemma ns_parse: "Object_Parse (Object_of ns_state) = Inr ns_ob"
  using ns_parse_loop
  by (simp add: Object_Parse_def Object_of_def reg_state.defs object.defs cursor_def ns_state_def ns_ob_def)

text \<open>
  The name space of a name is looked up in memory first, even for a block: when its register is only
  pending, a node that has it in memory accepts a name in it, and a node with the same disk that does
  not refuses it.
\<close>

theorem name_needs_memory:
  assumes "Object_getString (str ''name'') ob = Inr nm" and "Object_getString (str ''namespace'') ob = Inr ns"
    and "ns \<noteq> []" and "ns \<noteq> NAMESPACE_GLOBAL"
    and "ReadState (SetType ADDR_NAMESPACE (SK256 E ns)) FLAGS_BLOCK W = None"
    and "GetNamespaceRegister E ns W = Inr obn" and "hashOwner obn = hashOwner s"
    and "Address_key E nm (SetType ADDR_NAMESPACE (SK256 E ns)) ADDR_NAME = Inr a"
  shows "create_name E ob s a W = Inr () \<and> create_name E ob s a (on_disk W) = Inl (Reject ''Namespace does not exist'')"
proof -
  have ad: "Address_namespace E ns ADDR_NAMESPACE = Inr (SetType ADDR_NAMESPACE (SK256 E ns))"
    by (simp add: Address_namespace_def)
  have "GetNamespaceRegister E ns (on_disk W) = Inl (Reject ''Namespace register not found'')"
    using assms(5) by (simp add: GetNamespaceRegister_def ad on_disk_LOOKUP found_def)
  moreover have "IsName a" using assms(8) by (auto simp: Address_key_def IsName_def GetType_SetType Let_def split: if_splits)
  ultimately show ?thesis
    using assms by (simp add: create_name_def ad or_error_def)
qed

theorem name_needs_memory_witness:
  "create_name node_2020 name_ob name_state (SetType ADDR_NAME 0) unsettled_world = Inr () \<and>
   create_name node_2020 name_ob name_state (SetType ADDR_NAME 0) (on_disk unsettled_world) = Inl (Reject ''Namespace does not exist'')"
proof (rule name_needs_memory [OF name_strings])
  show "ns_name \<noteq> []" "ns_name \<noteq> NAMESPACE_GLOBAL" by (simp_all add: ns_name_def NAMESPACE_GLOBAL_def str_def)
  show "ReadState (SetType ADDR_NAMESPACE (SK256 node_2020 ns_name)) FLAGS_BLOCK unsettled_world = None"
    by (simp add: unsettled_world_def world_ops write_state_def read_register_def empty_world_def empty_overlay_def overlay_defs mem_write_def)
  show "GetNamespaceRegister node_2020 ns_name unsettled_world = Inr ns_ob"
    using ns_parse ns_standard
    by (simp add: GetNamespaceRegister_def Address_namespace_def node_2020_def unsettled_world_def ns_address_def world_ops
        write_state_def read_register_def empty_world_def empty_overlay_def overlay_defs mem_write_def mem_lookup_def found_def or_error_def ns_state_def)
  show "hashOwner ns_ob = hashOwner name_state"
    by (simp add: ns_ob_def Object_of_def reg_state.defs object.defs ns_state_def name_state_def)
  show "Address_key node_2020 [120] (SetType ADDR_NAMESPACE (SK256 node_2020 ns_name)) ADDR_NAME = Inr (SetType ADDR_NAME 0)"
    by (simp add: Address_key_def node_2020_def)
qed

end
