(* ===== verification/Op_Cost.thy ===== *)
theory Op_Cost
  imports Execute
begin

text \<open>
  The costs a transaction's author reckons with (\<^verbatim>\<open>TAO/Operation/cost.cpp\<close>): what executing a contract
  costs, and the fee for a contract in a transaction that follows another too quickly.
\<close>

section \<open>The costs of a condition\<close>

text \<open>\<open>Condition::Execute\<close> leaves the costs so far in the object, also when it refuses the script; every
  refusal of a step comes before the step has cost anything.\<close>

fun script_spent :: "nat \<Rightarrow> env \<Rightarrow> world \<Rightarrow> contract \<Rightarrow> condition \<Rightarrow> u64 res" where
  "script_spent 0 E W caller s = Inl Diverges"
| "script_spent (Suc k) E W caller s =
     (if Contract_End CONDITIONS (cvContract s) then Inr (cvCost s)
      else case script_step E W caller s of
        Inr s \<Rightarrow> script_spent k E W caller s
      | Inl (Reject _) \<Rightarrow> Inr (cvCost s)
      | Inl e \<Rightarrow> Inl e)"

definition condition_spent :: "env \<Rightarrow> world \<Rightarrow> contract \<Rightarrow> contract \<Rightarrow> u64 res" where
  "condition_spent E W c caller =
     rbind (Contract_Reset CONDITIONS c) (\<lambda>c.
     let s = Condition_new c 0 in script_spent (script_fuel s) E W caller s)"

definition beyond_free :: "u64 \<Rightarrow> u64 \<Rightarrow> u64" where
  "beyond_free cost nCost = (if cost > CONDITION_LIMIT_FREE then nCost + (cost - CONDITION_LIMIT_FREE) else nCost)"

section \<open>The costs of a contract\<close>

definition cost_prefix :: "env \<Rightarrow> contract \<Rightarrow> world \<Rightarrow> u64 \<Rightarrow> (u8 \<times> contract \<times> u64) res" where
  "cost_prefix E c W nCost =
     rbind (op_word c) (\<lambda>(nOP, c).
     if nOP = OP_CONDITION then rbind (op_word c) (\<lambda>(nOP, c). Inr (nOP, c, nCost))
     else if nOP = OP_VALIDATE then
       rbind (op_word c) (\<lambda>(h, c).
       rbind (op_word c) (\<lambda>(nContract, c).
       rbind (Ledger_ReadContract E h nContract FLAGS_BLOCK W) (\<lambda>condition.
       rbind (condition_spent E W condition c) (\<lambda>cost.
       rbind (op_word c) (\<lambda>(nOP, c). Inr (nOP, c, beyond_free cost nCost))))))
     else Inr (nOP, c, nCost))"

definition data_fee :: "contract \<Rightarrow> byte list \<Rightarrow> u64" where
  "data_fee c vchData =
     max MIN_DATA_FEE (of_nat (length vchData) * (if cVersion c = 1 then DATA_FEE_V1 else DATA_FEE))"

definition cost_create :: "env \<Rightarrow> contract \<Rightarrow> u64 \<Rightarrow> u64 res" where
  "cost_create E c nCost =
     rbind (op_word c) (\<lambda>(hashAddress :: u256, c).
     rbind (op_word c) (\<lambda>(t, c).
     rbind (op_vector c) (\<lambda>(vchData, c).
     if t = REGISTER_OBJECT then
       (case Object_Parse (Object_of (SetState E vchData ((State_type E REGISTER_OBJECT)\<lparr>nVersion := 1, nType := t, hashOwner := hashCaller c\<rparr>))) of
          Inr ob \<Rightarrow> rbind (Object_Cost E ob) (\<lambda>cost. Inr (nCost + cost))
        | Inl (Reject _) \<Rightarrow> Inl (Throw ''malformed object register'')
        | Inl e \<Rightarrow> Inl e)
     else Inr (nCost + data_fee c vchData))))"

text \<open>A claim and a credit pay for the condition of the contract they refer to, even where it has
  already been fulfilled by a validation; a claim also reads its address.\<close>

definition cost_claim :: "env \<Rightarrow> u8 \<Rightarrow> contract \<Rightarrow> world \<Rightarrow> u64 \<Rightarrow> u64 res" where
  "cost_claim E nOP c W nCost =
     rbind (op_word c) (\<lambda>(h, c).
     rbind (op_word c) (\<lambda>(nContract, c).
     rbind (if nOP = OP_CLAIM then rbind (op_word c) (\<lambda>(hashAddress :: u256, c). Inr c) else Inr c) (\<lambda>c.
     rbind (Ledger_ReadContract E h nContract FLAGS_BLOCK W) (\<lambda>prev.
     if Contract_Empty CONDITIONS prev then Inr nCost
     else rbind (condition_spent E W prev c) (\<lambda>cost. Inr (beyond_free cost nCost))))))"

definition Cost :: "env \<Rightarrow> contract \<Rightarrow> world \<Rightarrow> u64 \<Rightarrow> u64 res" where
  "Cost E c W nCost =
     rbind (Contract_Reset ALL_STREAMS c) (\<lambda>c.
     rbind (cost_prefix E c W nCost) (\<lambda>(nOP, c, nCost).
     if nOP = OP_CREATE then cost_create E c nCost
     else if nOP = OP_CLAIM \<or> nOP = OP_CREDIT then cost_claim E nOP c W nCost
     else Inr nCost))"

section \<open>The fee of a contract\<close>

definition TX_FEE :: u64 where "TX_FEE = 10000"

text \<open>A validation is taken for the primitive itself.\<close>

definition TxCost :: "contract \<Rightarrow> u64 \<Rightarrow> u64 res" where
  "TxCost c nCost =
     rbind (Contract_Reset ALL_STREAMS c) (\<lambda>c.
     rbind (op_word c) (\<lambda>(nOP, c).
     rbind (if nOP = OP_CONDITION then op_word c else Inr (nOP, c)) (\<lambda>(nOP, c).
     Inr (if nOP = OP_CLAIM \<or> nOP = OP_FEE \<or> nOP = OP_COINBASE \<or> nOP = OP_TRUST \<or> nOP = OP_GENESIS \<or>
             nOP = OP_TRUSTPOOL \<or> nOP = OP_GENESISPOOL
          then nCost else nCost + TX_FEE))))"

section \<open>What an execution charges\<close>

lemma script_spent_loop:
  "script_loop k E W caller s = Inr s' \<Longrightarrow> script_spent k E W caller s = Inr (cvCost s')"
  by (induction k arbitrary: s) (auto split: if_splits)

lemma condition_spent_Execute:
  assumes "Condition_Execute E W c caller = Inr (b, k)"
  shows "condition_spent E W c caller = Inr k"
  using assms unfolding Condition_Execute_def condition_spent_def Let_def
  by (elim rbindE if_InlE) (auto dest: script_spent_loop)

end
