(* ===== verification/Ledger_Transaction.thy ===== *)
theory Ledger_Transaction
  imports Op_Cost Rollback
begin

text \<open>
  Tritium transactions (\<^verbatim>\<open>TAO/Ledger/transaction.cpp\<close>): the checks on a transaction alone, the check of
  its pre-states, its costs and fees, and connecting it to and disconnecting it from the chain. Keys,
  the hash for the work of a first transaction and the state of the chain are fields of the node.
\<close>

section \<open>The node\<close>

record node =
  nVerifyKey :: "u8 \<Rightarrow> byte list \<Rightarrow> u512 \<Rightarrow> byte list \<Rightarrow> bool"
  nProofHash :: "tx \<Rightarrow> u512"
  fPrivate :: bool
  fSynchronizing :: bool
  nLoginGenesis :: u256
  nBestVersion :: u32
  nBlockHash :: "block_header \<Rightarrow> u1024"

definition MAX_TRANSACTION_CONTRACTS :: nat where "MAX_TRANSACTION_CONTRACTS = 100"
definition TX_FEE_INTERVAL :: u64 where "TX_FEE_INTERVAL = 10"
definition FIRST_REQUIRED_WORK :: u512 where "FIRST_REQUIRED_WORK = drop_bit 16 (- 1)"

definition GenesisType :: "env \<Rightarrow> u8" where
  "GenesisType E = (if fTestNet E then 0xa2 else 0xa1)"

section \<open>Kinds of transactions\<close>

fun has_op :: "u8 \<Rightarrow> contract list \<Rightarrow> bool res" where
  "has_op nOP [] = Inr False"
| "has_op nOP (c # cs) = rbind (Primitive c) (\<lambda>p. if p = nOP then Inr True else has_op nOP cs)"

text \<open>\<open>||\<close> of two tests that may throw.\<close>

definition ror :: "bool res \<Rightarrow> bool res \<Rightarrow> bool res" where
  "ror a b = rbind a (\<lambda>x. if x then Inr True else b)"

definition IsCoinBase :: "tx \<Rightarrow> bool res" where "IsCoinBase t = has_op OP_COINBASE (vContracts t)"
definition IsPrivate :: "tx \<Rightarrow> bool res" where "IsPrivate t = has_op 0x03 (vContracts t)"
definition tx_IsTrust :: "tx \<Rightarrow> bool res" where "tx_IsTrust t = has_op OP_TRUST (vContracts t)"
definition tx_IsGenesis :: "tx \<Rightarrow> bool res" where "tx_IsGenesis t = has_op OP_GENESIS (vContracts t)"
definition IsTrustPool :: "tx \<Rightarrow> bool res" where "IsTrustPool t = has_op OP_TRUSTPOOL (vContracts t)"
definition IsGenesisPool :: "tx \<Rightarrow> bool res" where "IsGenesisPool t = has_op OP_GENESISPOOL (vContracts t)"

definition IsCoinStake :: "tx \<Rightarrow> bool res" where
  "IsCoinStake t = ror (IsTrustPool t) (ror (tx_IsTrust t) (ror (IsGenesisPool t) (tx_IsGenesis t)))"

definition IsFirst :: "tx \<Rightarrow> bool" where "IsFirst t \<longleftrightarrow> txSequence t = 0"

definition PrevHash :: "env \<Rightarrow> tx \<Rightarrow> u256" where "PrevHash E t = SK256 E (txPubKey t)"

definition tx_bind :: "tx \<Rightarrow> contract \<Rightarrow> contract" where
  "tx_bind t = Contract_Bind_tx (txGenesis t) (txTimestamp t) (txVersion t) (txHash t)"

section \<open>Check\<close>

definition check_header :: "env \<Rightarrow> tx \<Rightarrow> unit res" where
  "check_header E t =
     (if \<not> TransactionVersionActive E (txTimestamp t) (txVersion t) then Inl (Reject ''invalid transaction version'')
      else if txGenesis t = 0 then Inl (Reject ''genesis cannot be zero'')
      else if txNext t = 0 then Inl (Reject ''nextHash cannot be zero'')
      else if txTimestamp t > drift_limit E then Inl (Reject ''transaction timestamp too far in the future'')
      else if length (txSig t) = 0 then Inl (Reject ''transaction with empty signature'')
      else if GetType (txGenesis t) \<noteq> GenesisType E then Inl (Reject ''genesis using incorrect leading byte'')
      else if length (vContracts t) > MAX_TRANSACTION_CONTRACTS then Inl (Reject ''transaction contract limit exceeded'')
      else Inr ())"

definition check_producer :: "tx \<Rightarrow> unit res" where
  "check_producer t =
     rbind (ror (IsCoinStake t) (IsPrivate t)) (\<lambda>f.
     if f then
       if length (vContracts t) \<noteq> 1 then Inl (Reject ''coinstake cannot exceed one contract'')
       else if \<not> Contract_Empty CONDITIONS (vContracts t ! 0) then Inl (Reject ''coinstake cannot contain conditions'')
       else Inr ()
     else Inr ())"

text \<open>The counters are bytes.\<close>

record tally =
  nNames :: u8
  nTrust :: u8
  nAccounts :: u8
  nCrypto :: u8
  nContracts :: u8

definition tally_first :: "node \<Rightarrow> contract \<Rightarrow> tally \<Rightarrow> tally res" where
  "tally_first N c n =
     rbind (Contract_Reset ALL_STREAMS c) (\<lambda>c.
     rbind (op_word c) (\<lambda>(nOP, c).
     if nOP = OP_CREATE then
       rbind (op_word c) (\<lambda>(address :: u256, c).
       if GetType address = ADDR_ACCOUNT then Inr (n\<lparr>nAccounts := nAccounts n + 1\<rparr>)
       else if GetType address = ADDR_TRUST then Inr (n\<lparr>nTrust := nTrust n + 1\<rparr>)
       else if GetType address = ADDR_NAME then Inr (n\<lparr>nNames := nNames n + 1\<rparr>)
       else if GetType address = ADDR_CRYPTO then Inr (n\<lparr>nCrypto := nCrypto n + 1\<rparr>)
       else if \<not> fPrivate N then Inl (Reject ''genesis transaction contains invalid contracts.'')
       else Inr n)
     else if \<not> fPrivate N then Inl (Reject ''genesis transaction contains invalid contracts.'')
     else Inr n))"

fun check_contracts :: "node \<Rightarrow> bool \<Rightarrow> bool \<Rightarrow> contract list \<Rightarrow> tally \<Rightarrow> tally res" where
  "check_contracts N fCoinBase fFirst [] n = Inr n"
| "check_contracts N fCoinBase fFirst (c # cs) n =
     rbind (if fCoinBase then
              rbind (Primitive c) (\<lambda>p.
              if p \<noteq> OP_COINBASE then Inl (Reject ''coinbase cannot include foreign ops'')
              else if \<not> Contract_Empty CONDITIONS c then Inl (Reject ''coinbase cannot include conditions'')
              else Inr ())
            else Inr ()) (\<lambda>_.
     if Contract_Empty OPERATIONS c then Inl (Reject ''contract is empty'')
     else rbind (Primitive c) (\<lambda>p.
       let n = (if p \<noteq> OP_FEE then n\<lparr>nContracts := nContracts n + 1\<rparr> else n) in
       rbind (if fFirst then tally_first N c n else Inr n) (check_contracts N fCoinBase fFirst cs)))"

definition check_first :: "node \<Rightarrow> tx \<Rightarrow> tally \<Rightarrow> unit res" where
  "check_first N t n =
     (if IsFirst t \<and> \<not> fPrivate N then
        if nProofHash N t > FIRST_REQUIRED_WORK then Inl (Reject ''first transaction not enough work'')
        else if length (vContracts t) > 5 \<or> nNames n > 2 \<or> nTrust n > 1 \<or> nAccounts n > 1 \<or> nCrypto n > 1 then
          Inl (Reject ''genesis transaction contains invalid contracts.'')
        else Inr ()
      else Inr ())"

abbreviation (input) SIGNATURE_FALCON :: u8 where "SIGNATURE_FALCON \<equiv> 1"
abbreviation (input) SIGNATURE_BRAINPOOL :: u8 where "SIGNATURE_BRAINPOOL \<equiv> 2"

definition check_signature :: "node \<Rightarrow> tx \<Rightarrow> unit res" where
  "check_signature N t =
     (if fSynchronizing N then Inr ()
      else if txKeyType t = SIGNATURE_FALCON \<or> txKeyType t = SIGNATURE_BRAINPOOL then
        if \<not> nVerifyKey N (txKeyType t) (txPubKey t) (txHash t) (txSig t) then Inl (Reject ''invalid transaction signature'')
        else Inr ()
      else Inl (Reject ''unknown signature type''))"

definition Transaction_Check :: "node \<Rightarrow> env \<Rightarrow> tx \<Rightarrow> unit res" where
  "Transaction_Check N E t =
     rbind (check_header E t) (\<lambda>_.
     rbind (check_producer t) (\<lambda>_.
     rbind (IsCoinBase t) (\<lambda>fCoinBase.
     rbind (check_contracts N fCoinBase (IsFirst t) (vContracts t)
              \<lparr>nNames = 0, nTrust = 0, nAccounts = 0, nCrypto = 0, nContracts = 0\<rparr>) (\<lambda>n.
     if nContracts n = 0 then Inl (Reject ''transaction is empty'')
     else rbind (check_first N t n) (\<lambda>_. check_signature N t)))))"

section \<open>Verify, costs and fees\<close>

fun verify_contracts :: "env \<Rightarrow> tx \<Rightarrow> u8 \<Rightarrow> world \<Rightarrow> contract list \<Rightarrow> state_map \<Rightarrow> state_map res" where
  "verify_contracts E t nFlags W [] mapStates = Inr mapStates"
| "verify_contracts E t nFlags W (c # cs) mapStates =
     rbind (Register_Verify E (tx_bind t c) mapStates nFlags W) (verify_contracts E t nFlags W cs)"

definition Transaction_Verify :: "env \<Rightarrow> tx \<Rightarrow> u8 \<Rightarrow> world \<Rightarrow> unit res" where
  "Transaction_Verify E t nFlags W = rbind (verify_contracts E t nFlags W (vContracts t) Map.empty) (\<lambda>_. Inr ())"

definition fee_applies :: "tx \<Rightarrow> tx \<Rightarrow> bool" where
  "fee_applies txPrev t \<longleftrightarrow> txTimestamp t - txTimestamp txPrev < TX_FEE_INTERVAL"

fun cost_contracts :: "env \<Rightarrow> tx \<Rightarrow> world \<Rightarrow> bool \<Rightarrow> contract list \<Rightarrow> u64 \<Rightarrow> u64 res" where
  "cost_contracts E t W fApplyTxFee [] nCost = Inr nCost"
| "cost_contracts E t W fApplyTxFee (c # cs) nCost =
     (let c = Contract_Bind E (txTimestamp t) (txGenesis t) c in
      rbind (Cost E c W nCost) (\<lambda>nCost.
      rbind (if fApplyTxFee then TxCost c nCost else Inr nCost) (cost_contracts E t W fApplyTxFee cs)))"

text \<open>Without the previous transaction the result is the number that \<open>false\<close> stands for.\<close>

definition Transaction_Cost :: "node \<Rightarrow> env \<Rightarrow> tx \<Rightarrow> world \<Rightarrow> u64 res" where
  "Transaction_Cost N E t W =
     (if fPrivate N then Inr 0
      else if IsFirst t then Inr 0
      else case ReadTx (txPrevTx t) FLAGS_MEMPOOL W of
        None \<Rightarrow> Inr 0
      | Some txPrev \<Rightarrow> cost_contracts E t W (fee_applies txPrev t) (vContracts t) 0)"

fun fees_of :: "contract list \<Rightarrow> u64 \<Rightarrow> u64 res" where
  "fees_of [] nFee = Inr nFee"
| "fees_of (c # cs) nFee =
     rbind (Primitive c) (\<lambda>p.
     if p = OP_FEE then rbind (Contract_Value c) (\<lambda>((f, nValue), c). fees_of cs (nFee + nValue))
     else fees_of cs nFee)"

definition Transaction_Fees :: "tx \<Rightarrow> u64 res" where
  "Transaction_Fees t = fees_of (vContracts t) 0"

definition GetTrustInfo :: "tx \<Rightarrow> (u64 \<times> u64 \<times> u64) res" where
  "GetTrustInfo t =
     rbind (IsCoinStake t) (\<lambda>f.
     if \<not> f then Inl (Reject ''transaction is not trust'')
     else rbind (Contract_Reset ALL_STREAMS (vContracts t ! 0)) (\<lambda>c.
     rbind (Contract_Seek 1 REGISTERS STREAM_CURSOR c) (\<lambda>c.
     rbind (reg_read_state c) (\<lambda>(state, c).
     rbind (or_error ''failed to parse trust object'' (Object_Parse (Object_of state))) (\<lambda>ob.
     rbind (Object_get (str ''balance'') ob) (\<lambda>nBalance.
     rbind (Object_get (str ''trust'') ob) (\<lambda>nTrust.
     rbind (Object_get (str ''stake'') ob) (\<lambda>nStake. Inr (nBalance, nTrust, nStake)))))))))"

section \<open>Payees of the network\<close>

text \<open>Genesis, the hash of the first key and the share, of the ambassador and developer signature chains
  (\<^verbatim>\<open>TAO/Ledger/include/ambassador.h\<close>, \<^verbatim>\<open>developer.h\<close>).\<close>

type_synonym payees = "(u256 \<times> u256 \<times> u32) list"

definition V7_AMBASSADOR :: payees where
  "V7_AMBASSADOR =
     [(0xa1bc1623d785130bd7bd725d523bd2bb755518646c3831ea7cd5f86883845901,
        0xde468f6b7d6f498544f6b1843941f7f223817a61e0b2c5a4df6b78973b29570c, 550),
      (0xa1d216ee832d63a7ab18569d7d0bdc4fd383390af5b99d9de3477ad19081a490,
        0xc52225d0131f5946536425df7ed4181064267053846294a77ceffce8feb2ec8e, 225),
      (0xa1206f9c4feb88239d60381f62af789febc6e71371cf6700838feb90e76987a3,
        0x6694a7cffc46dedd67c4d9ef814a930ef16da6e0b3185394fb8f8ee4d44fa4e4, 225)]"

definition V8_AMBASSADOR :: payees where
  "V8_AMBASSADOR =
     [(0xa1bc1623d785130bd7bd725d523bd2bb755518646c3831ea7cd5f86883845901,
        0xde468f6b7d6f498544f6b1843941f7f223817a61e0b2c5a4df6b78973b29570c, 650),
      (0xa1206f9c4feb88239d60381f62af789febc6e71371cf6700838feb90e76987a3,
        0x6694a7cffc46dedd67c4d9ef814a930ef16da6e0b3185394fb8f8ee4d44fa4e4, 350)]"

definition V7_AMBASSADOR_TESTNET :: payees where
  "V7_AMBASSADOR_TESTNET =
     [(0xa2cfad9f505f8166203df2685ee7cb8582be9ae017dcafa4ca4530cd5b4f1dca,
        0x6fcf29db16223b1aaddbbf0ad9f09758f12b2db85b5f1dbff4d0de1dac540fcc, 1000)]"

definition V8_AMBASSADOR_TESTNET :: payees where
  "V8_AMBASSADOR_TESTNET =
     [(0xa2cfad9f505f8166203df2685ee7cb8582be9ae017dcafa4ca4530cd5b4f1dca,
        0x6fcf29db16223b1aaddbbf0ad9f09758f12b2db85b5f1dbff4d0de1dac540fcc, 500),
      (0xa2769e12630b3943a1dc7d6a226c12a627f2c491400d7575b492b0b9cb9751d0,
        0x22728016f7776a0883c313ae354fef9f57c02f18822d5608c525c86df124aa11, 500)]"

definition DEVELOPER :: payees where
  "DEVELOPER =
     [(0xa10963c98e8996c70f470cdeb660ee98e233fda957439c81b19d9cb9ec5a6611,
        0xfe71f627fef7b25605873fa7dc7c3fe8d33c0e90dbf01dfb10fd7c1809296588, 1000)]"

definition DEVELOPER_TESTNET :: payees where
  "DEVELOPER_TESTNET =
     [(0xa20963c98e8996c70f470cdeb660ee98e233fda957439c81b19d9cb9ec5a6611,
        0x4f816e60e8161564d02f5e1ccc252db857a0121a248bd263559672cf843547d6, 1000)]"

definition Ambassador :: "env \<Rightarrow> u32 \<Rightarrow> payees" where
  "Ambassador E v =
     (if fTestNet E then (if v \<ge> 8 then V8_AMBASSADOR_TESTNET else V7_AMBASSADOR_TESTNET)
      else (if v \<ge> 8 then V8_AMBASSADOR else V7_AMBASSADOR))"

definition Developer :: "env \<Rightarrow> u32 \<Rightarrow> payees" where
  "Developer E v = (if fTestNet E then DEVELOPER_TESTNET else DEVELOPER)"

section \<open>Ledger indexes\<close>

text \<open>In client mode these are the indexes of the client database.\<close>

definition WriteLast :: "u256 \<Rightarrow> u512 \<Rightarrow> world \<Rightarrow> world" where
  "WriteLast g h W = W\<lparr>wLedger := (wLedger W)\<lparr>lLast := (lLast (wLedger W))(g \<mapsto> h)\<rparr>\<rparr>"

definition EraseLast :: "u256 \<Rightarrow> world \<Rightarrow> world" where
  "EraseLast g W = W\<lparr>wLedger := (wLedger W)\<lparr>lLast := (lLast (wLedger W))(g := None)\<rparr>\<rparr>"

definition WriteGenesis :: "u256 \<Rightarrow> u512 \<Rightarrow> world \<Rightarrow> world" where
  "WriteGenesis g h W = W\<lparr>wLedger := (wLedger W)\<lparr>lGenesis := (lGenesis (wLedger W))(g \<mapsto> h)\<rparr>\<rparr>"

definition HasIndex :: "u512 \<Rightarrow> world \<Rightarrow> bool" where
  "HasIndex h W \<longleftrightarrow> lIndex (wLedger W) h \<noteq> None"

definition ReadBlock :: "u1024 \<Rightarrow> world \<Rightarrow> block_state option" where
  "ReadBlock h W = lBlocks (wLedger W) h"

definition WriteBlock :: "u1024 \<Rightarrow> block_state \<Rightarrow> world \<Rightarrow> world" where
  "WriteBlock h b W = W\<lparr>wLedger := (wLedger W)\<lparr>lBlocks := (lBlocks (wLedger W))(h \<mapsto> b)\<rparr>\<rparr>"

text \<open>A block is also read by the hash of a transaction in it.\<close>

definition ReadBlock_tx :: "u512 \<Rightarrow> world \<Rightarrow> block_state option" where
  "ReadBlock_tx h W = (case lIndex (wLedger W) h of Some hashBlock \<Rightarrow> ReadBlock hashBlock W | None \<Rightarrow> None)"

definition IndexBlock :: "u512 \<Rightarrow> u1024 \<Rightarrow> world \<Rightarrow> world" where
  "IndexBlock h b W = W\<lparr>wLedger := (wLedger W)\<lparr>lIndex := (lIndex (wLedger W))(h \<mapsto> b)\<rparr>\<rparr>"

definition EraseIndex :: "u512 \<Rightarrow> world \<Rightarrow> world" where
  "EraseIndex h W = W\<lparr>wLedger := (wLedger W)\<lparr>lIndex := (lIndex (wLedger W))(h := None)\<rparr>\<rparr>"

definition ReadLast :: "u256 \<Rightarrow> world \<Rightarrow> u512 option" where
  "ReadLast g W = lLast (wLedger W) g"

definition Block_IsNull :: "block_state \<Rightarrow> bool" where
  "Block_IsNull b \<longleftrightarrow> bBits b = 0"

definition ReadConfirmations :: "env \<Rightarrow> u512 \<Rightarrow> block_state option \<Rightarrow> world \<Rightarrow> u32 option" where
  "ReadConfirmations E h pblock W =
     (case ReadBlock_tx h W of
        None \<Rightarrow> None
      | Some state \<Rightarrow>
          let nHeight = (case pblock of Some b \<Rightarrow> bHeight b | None \<Rightarrow> bestHeight E) in
          if nHeight < bHeight state then None else Some (nHeight - bHeight state + 1))"

definition MaturityCoinBase :: "env \<Rightarrow> node \<Rightarrow> block_state option \<Rightarrow> u32" where
  "MaturityCoinBase E N pblock =
     (if fTestNet E then 10
      else if (case pblock of Some b \<Rightarrow> (if Block_IsNull b then nBestVersion N else bVersion b) | None \<Rightarrow> nBestVersion N) < 7
      then 100 else 500)"

section \<open>Connect\<close>

text \<open>The key of a developer is looked up in one table and read from another.\<close>

definition check_payees :: "env \<Rightarrow> tx \<Rightarrow> u32 \<Rightarrow> unit res" where
  "check_payees E t nSwitchVersion =
     (if unifiedtimestamp E < StartBlockTimelock E nSwitchVersion then Inr ()
      else rbind (case map_of (Ambassador E nSwitchVersion) (txGenesis t) of
          Some (h, _) \<Rightarrow> if h \<noteq> PrevHash E t then Inl (Reject ''AMBASSADOR sigchain using invalid credentials'') else Inr ()
        | None \<Rightarrow> Inr ()) (\<lambda>_.
      case map_of (Developer E nSwitchVersion) (txGenesis t) of
        None \<Rightarrow> Inr ()
      | Some _ \<Rightarrow>
          (case map_of DEVELOPER (txGenesis t) of
             None \<Rightarrow> Inl (Throw ''map::at'')
           | Some (h, _) \<Rightarrow> if h \<noteq> PrevHash E t then Inl (Reject ''DEVELOPER sigchain using invalid credentials'') else Inr ())))"

fun check_versions :: "env \<Rightarrow> tx \<Rightarrow> u32 list \<Rightarrow> unit res" where
  "check_versions E t [] = Inr ()"
| "check_versions E t (v # vs) = rbind (check_payees E t v) (\<lambda>_. check_versions E t vs)"

definition switch_versions :: "env \<Rightarrow> u32 list" where
  "switch_versions E = map of_nat [7..<Suc (unat (CurrentBlockVersion E))]"

definition connect_first :: "env \<Rightarrow> tx \<Rightarrow> u8 \<Rightarrow> world \<Rightarrow> world res" where
  "connect_first E t nFlags W =
     rbind (check_versions E t (switch_versions E)) (\<lambda>_.
     Inr (if nFlags = FLAGS_BLOCK then WriteGenesis (txGenesis t) (txHash t) W else W))"

text \<open>The link to the previous transaction; the result is whether it was too recent.\<close>

definition connect_previous :: "node \<Rightarrow> env \<Rightarrow> tx \<Rightarrow> u8 \<Rightarrow> world \<Rightarrow> bool res" where
  "connect_previous N E t nFlags W =
     (if fClient E \<and> txGenesis t \<noteq> nLoginGenesis N then Inr False
      else case ReadTx (txPrevTx t) nFlags W of
        None \<Rightarrow> Inl (Reject ''prev transaction not on disk'')
      | Some txPrev \<Rightarrow>
          if txSequence txPrev + 1 \<noteq> txSequence t then Inl (Reject ''prev transaction incorrect sequence'')
          else if txTimestamp t < txTimestamp txPrev then Inl (Reject ''timestamp too far in the past'')
          else rbind (if txNext txPrev \<noteq> PrevHash E t then
                   if txRecovery txPrev = PrevHash E t then
                     if txRecovery txPrev = 0 then Inl (Reject ''NOTICE: recovery hash disabled'') else Inr True
                   else Inl (Reject ''invalid signature chain credentials'')
                 else Inr False) (\<lambda>fRecovery.
          if \<not> fRecovery \<and> txRecovery txPrev \<noteq> txRecovery t \<and> txRecovery txPrev \<noteq> 0 then
            Inl (Reject ''recovery hash broken chain'')
          else if txGenesis txPrev \<noteq> txGenesis t then Inl (Reject ''genesis hash broken chain'')
          else Inr (fee_applies txPrev t)))"

definition check_dependant :: "node \<Rightarrow> env \<Rightarrow> u8 \<Rightarrow> block_state option \<Rightarrow> world \<Rightarrow> contract \<Rightarrow> unit res" where
  "check_dependant N E nFlags pblock W c =
     (if fClient E then Inr ()
      else rbind (Contract_Dependant c) (\<lambda>((f, hashPrev, nContract), c).
      if f \<and> (nFlags = FLAGS_BLOCK \<or> nFlags = FLAGS_MINER) then
        if \<not> HasIndex hashPrev W then Inl (Reject ''not indexed'')
        else rbind (Ledger_ReadContract E hashPrev nContract nFlags W) (\<lambda>dependant.
        rbind (Primitive dependant) (\<lambda>p.
        if p = OP_COINBASE then
          (case ReadConfirmations E hashPrev pblock W of
             None \<Rightarrow> Inl (Reject ''failed to read confirmations for coinbase'')
           | Some nConfirms \<Rightarrow>
               if nConfirms + 1 < MaturityCoinBase E N pblock then Inl (Reject ''coinbase is immature'') else Inr ())
        else Inr ()))
      else Inr ()))"

fun connect_contracts :: "ext \<Rightarrow> node \<Rightarrow> env \<Rightarrow> tx \<Rightarrow> u8 \<Rightarrow> block_state option \<Rightarrow> bool \<Rightarrow> contract list \<Rightarrow> world \<Rightarrow> u64 \<Rightarrow>
    (world \<times> u64) res" where
  "connect_contracts X N E t nFlags pblock fApplyTxFee [] W nCost = Inr (W, nCost)"
| "connect_contracts X N E t nFlags pblock fApplyTxFee (c # cs) W nCost =
     rbind (check_dependant N E nFlags pblock W c) (\<lambda>_.
     rbind (Execute X E (tx_bind t c) nFlags W nCost) (\<lambda>(W, nCost).
     rbind (if fApplyTxFee then TxCost (tx_bind t c) nCost else Inr nCost) (\<lambda>nCost.
     connect_contracts X N E t nFlags pblock fApplyTxFee cs W nCost)))"

definition FIRST_FEES :: u64 where
  "FIRST_FEES = 2 * ACCOUNT_FEE + 2 * NAME_FEE + 1 * CRYPTO_FEE"

definition Transaction_Connect :: "ext \<Rightarrow> node \<Rightarrow> env \<Rightarrow> tx \<Rightarrow> u8 \<Rightarrow> block_state option \<Rightarrow> world \<Rightarrow> world res" where
  "Transaction_Connect X N E t nFlags pblock W =
     rbind (if IsFirst t then rbind (connect_first E t nFlags W) (\<lambda>W. Inr (W, False))
            else rbind (connect_previous N E t nFlags W) (\<lambda>f. Inr (W, f))) (\<lambda>(W, fApplyTxFee).
     rbind (connect_contracts X N E t nFlags pblock fApplyTxFee (vContracts t) W 0) (\<lambda>(W, nCost).
     rbind (if fPrivate N then Inr ()
            else rbind (if IsFirst t then Inr FIRST_FEES else Transaction_Fees t) (\<lambda>nFees.
              if nCost > nFees then Inl (Reject ''not enough fees supplied'') else Inr ())) (\<lambda>_.
     Inr (if nFlags = FLAGS_BLOCK then WriteLast (txGenesis t) (txHash t) W else W))))"

section \<open>Disconnect\<close>

text \<open>Erasing the last transaction of a first transaction succeeds, so that the other branch writes it
  again; the genesis index stays.\<close>

definition disconnect_last :: "tx \<Rightarrow> world \<Rightarrow> world" where
  "disconnect_last t W =
     WriteLast (txGenesis t) (txPrevTx t) (if IsFirst t then EraseLast (txGenesis t) W else W)"

definition reset_stake_change :: "tx \<Rightarrow> world \<Rightarrow> world" where
  "reset_stake_change t W =
     (case wStakeChange W (txGenesis t) of
        Some request \<Rightarrow>
          if fProcessed request \<and> scHashTx request = txHash t then
            W\<lparr>wStakeChange := (wStakeChange W)(txGenesis t \<mapsto> request\<lparr>fProcessed := False, scHashTx := 0\<rparr>)\<rparr>
          else W
      | None \<Rightarrow> W)"

definition disconnect_stake :: "tx \<Rightarrow> world \<Rightarrow> world res" where
  "disconnect_stake t W =
     rbind (ror (tx_IsTrust t) (IsTrustPool t)) (\<lambda>f.
     if f then
       rbind (Contract_Previous (vContracts t ! 0)) (\<lambda>((found, hashLast), c).
       if \<not> found then Inl (Reject ''failed to extract last stake hash from contract'')
       else Inr (reset_stake_change t (WriteStake (txGenesis t) hashLast W)))
     else Inr (EraseStake (txGenesis t) W))"

fun rollback_contracts :: "env \<Rightarrow> tx \<Rightarrow> u8 \<Rightarrow> contract list \<Rightarrow> world \<Rightarrow> world res" where
  "rollback_contracts E t nFlags [] W = Inr W"
| "rollback_contracts E t nFlags (c # cs) W =
     rbind (Rollback E (tx_bind t c) nFlags W) (rollback_contracts E t nFlags cs)"

definition Transaction_Disconnect :: "env \<Rightarrow> tx \<Rightarrow> u8 \<Rightarrow> world \<Rightarrow> world res" where
  "Transaction_Disconnect E t nFlags W =
     rbind (if nFlags = FLAGS_BLOCK then
              rbind (IsCoinStake t) (\<lambda>f.
              if f then disconnect_stake t (disconnect_last t W) else Inr (disconnect_last t W))
            else Inr W) (\<lambda>W.
     rollback_contracts E t nFlags (rev (vContracts t)) W)"

end
