(* ===== verification/Stake.thy ===== *)
theory Stake
  imports Ledger_Transaction "HOL-Library.Monad_Syntax"
begin

text \<open>
  Proof of stake (\<^verbatim>\<open>TAO/Ledger/stake.cpp\<close>) and the check of a coinstake (\<^verbatim>\<open>CheckTrust\<close> of
  \<^verbatim>\<open>transaction.cpp\<close>): trust scores, the consistency of the scores of a signature chain, rewards and the
  fee of the stake pool. The reward for a stake is computed in software floating point; it is an argument
  (record \<open>rewards\<close>).
\<close>

section \<open>Settings\<close>

record rewards =
  rCoinstake :: "u64 \<Rightarrow> u64 \<Rightarrow> u64 \<Rightarrow> bool \<Rightarrow> u64"

definition TRUST_KEY_TIMESPAN :: u64 where "TRUST_KEY_TIMESPAN = 60 * 60 * 24 * 3"
definition TRUST_KEY_TIMESPAN_TESTNET :: u64 where "TRUST_KEY_TIMESPAN_TESTNET = 60 * 60 * 3"
definition MINIMUM_GENESIS_COIN_AGE_TESTNET :: u64 where "MINIMUM_GENESIS_COIN_AGE_TESTNET = 60 * 10"
definition POOL_FEE_PCT :: u64 where "POOL_FEE_PCT = 16"

definition MaxBlockAge :: "env \<Rightarrow> u64" where
  "MaxBlockAge E = (if fTestNet E then TRUST_KEY_TIMESPAN_TESTNET else TRUST_KEY_TIMESPAN)"

definition MinCoinAge :: "env \<Rightarrow> u64" where
  "MinCoinAge E = (if fTestNet E then MINIMUM_GENESIS_COIN_AGE_TESTNET else TRUST_KEY_TIMESPAN)"

definition MinStakeInterval :: "env \<Rightarrow> block_state \<Rightarrow> u32" where
  "MinStakeInterval E b =
     (if fTestNet E then 10 else if bVersion b < 7 then 120 else if bVersion b < 9 then 250 else 60)"

definition GetPoolStakeFee :: "u64 \<Rightarrow> u64" where
  "GetPoolStakeFee nReward = (POOL_FEE_PCT * nReward) div 100"

section \<open>Trust scores\<close>

definition decayed_score :: "env \<Rightarrow> u64 \<Rightarrow> u64 \<Rightarrow> u64" where
  "decayed_score E nScorePrev nBlockAge =
     (if nBlockAge \<le> MaxBlockAge E then nScorePrev + nBlockAge
      else let nPenalty = (nBlockAge - MaxBlockAge E) * 3 in
        if nPenalty < nScorePrev then nScorePrev - nPenalty else 0)"

text \<open>The score that is left after stake has been removed. Up to version 7 the product is one of 64 bits;
  a division by zero is undefined there, and an exception of the 128-bit arithmetic later.\<close>

definition unstaked_score :: "u64 \<Rightarrow> u64 \<Rightarrow> u64 \<Rightarrow> u32 \<Rightarrow> u64 res" where
  "unstaked_score nScore nStake nStakeChange v =
     (let nUnstake = 0 - nStakeChange;
          nStakeNew = (if nUnstake < nStake then nStake - nUnstake else 0) in
      if v > 7 then
        if nStake = 0 then Inl (Throw ''Division by zero'')
        else Inr (ucast ((ucast nStakeNew * ucast nScore :: 128 word) div ucast nStake))
      else if nStake = 0 then Inl (Undefined ''division by zero'')
      else Inr ((nStakeNew * nScore) div nStake))"

definition GetTrustScore :: "env \<Rightarrow> u64 \<Rightarrow> u64 \<Rightarrow> u64 \<Rightarrow> u64 \<Rightarrow> u32 \<Rightarrow> u64 res" where
  "GetTrustScore E nScorePrev nBlockAge nStake nStakeChange v =
     (let nScore = decayed_score E nScorePrev nBlockAge in
      if sint nStakeChange < 0 then unstaked_score nScore nStake nStakeChange v else Inr nScore)"

section \<open>The trust account\<close>

text \<open>The account a coinstake carries as its pre-state; the operation stream is rewound with it.\<close>

definition stake_account :: "contract \<Rightarrow> (object \<times> contract) res" where
  "stake_account c =
     rbind (Contract_Reset ALL_STREAMS c) (\<lambda>c.
     rbind (reg_word c) (\<lambda>(nState :: u8, c).
     rbind (reg_read_state c) (\<lambda>(state, c).
     rbind (or_error ''failed to parse object register from pre-state'' (Object_Parse (Object_of state))) (\<lambda>account.
     rbind (Object_Standard account) (\<lambda>s.
     if s \<noteq> OBJECTS_TRUST then Inl (Reject ''stake producer account is not a trust account'')
     else Inr (account, c))))))"

text \<open>The account of a signature chain, indexed once it stakes.\<close>

definition trust_register :: "env \<Rightarrow> u256 \<Rightarrow> world \<Rightarrow> (bool \<times> reg_state) res" where
  "trust_register E hashGenesis W =
     (case rTrust (wRegister W) hashGenesis of
        Some hashAddress \<Rightarrow>
          rbind (found ''Unable to retrieve trust account'' (ReadState hashAddress FLAGS_BLOCK W)) (\<lambda>reg. Inr (True, reg))
      | None \<Rightarrow>
          rbind (Address_key E (str ''trust'') hashGenesis ADDR_TRUST) (\<lambda>hashAddress.
          rbind (found ''Unable to retrieve trust account for Genesis'' (ReadState hashAddress FLAGS_BLOCK W)) (\<lambda>reg.
          Inr (False, reg))))"

definition FindTrustAccount :: "env \<Rightarrow> u256 \<Rightarrow> world \<Rightarrow> (object \<times> bool) res" where
  "FindTrustAccount E hashGenesis W =
     rbind (trust_register E hashGenesis W) (\<lambda>(fIndexed, reg).
     rbind (or_error ''Unable to parse trust account register'' (Object_Parse (Object_of reg))) (\<lambda>ob.
     rbind (Object_Standard ob) (\<lambda>s.
     if s \<noteq> OBJECTS_TRUST then Inl (Reject ''Invalid trust account register'') else Inr (ob, fIndexed))))"

text \<open>The last coinstake of a signature chain, from its last transaction backwards; the result is \<open>None\<close> when
  the search does not end.\<close>

partial_function (option) last_stake_from :: "world \<Rightarrow> u512 \<Rightarrow> tx option res option" where
  "last_stake_from W hashLast =
     (if hashLast = 0 then Some (Inr None)
      else case ReadTx hashLast FLAGS_BLOCK W of
        None \<Rightarrow> Some (Inr None)
      | Some txCheck \<Rightarrow>
          (case IsCoinStake txCheck of
             Inl e \<Rightarrow> Some (Inl e)
           | Inr f \<Rightarrow> if f then Some (Inr (Some txCheck)) else last_stake_from W (txPrevTx txCheck)))"

definition FindLastStake :: "u256 \<Rightarrow> world \<Rightarrow> tx option res option" where
  "FindLastStake hashGenesis W =
     (case ReadLast hashGenesis W of None \<Rightarrow> Some (Inr None) | Some hashLast \<Rightarrow> last_stake_from W hashLast)"

section \<open>Consistency of the scores\<close>

text \<open>One coinstake of the way back: the coinstake before it, and the change of the score it stands for.\<close>

definition consistency_step :: "env \<Rightarrow> world \<Rightarrow> block_state \<Rightarrow> object \<Rightarrow> contract \<Rightarrow> (u512 \<times> u64 \<times> u64 \<times> bool) res" where
  "consistency_step E W block account c =
     rbind (Contract_Seek 1 OPERATIONS STREAM_CURSOR c) (\<lambda>c.
     rbind (op_word c) (\<lambda>(hashLastTrust, c).
     rbind (op_word c) (\<lambda>(nClaimedTrust :: u64, c).
     rbind (op_word c) (\<lambda>(nStakeChange, c).
     rbind (found ''prev block not in database'' (ReadBlock (hashPrevBlock block) W)) (\<lambda>statePrev.
     rbind (found ''last block not in database'' (ReadBlock_tx hashLastTrust W)) (\<lambda>stateLast.
     let nBlockAge = bTime statePrev - bTime stateLast in
     rbind (Object_get name_trust account) (\<lambda>nTrustPrev.
     rbind (Object_get name_stake account) (\<lambda>nStake.
     rbind (GetTrustScore E nTrustPrev nBlockAge nStake nStakeChange 7) (\<lambda>nTrust.
     rbind (GetTrustScore E nTrustPrev nBlockAge nStake nStakeChange 8) (\<lambda>nCheck.
     Inr (hashLastTrust, nTrustPrev, nCheck - nTrustPrev, nTrust = nCheck)))))))))))"

partial_function (option) consistency_from ::
  "env \<Rightarrow> world \<Rightarrow> u512 \<Rightarrow> u64 list \<Rightarrow> u64 \<Rightarrow> bool \<Rightarrow> (u64 list \<times> u64 \<times> bool) res option" where
  "consistency_from E W hashLast vChanges nTrustPrev fConsistent =
     (case ReadTx hashLast FLAGS_BLOCK W of
        None \<Rightarrow> Some (Inr (vChanges, nTrustPrev, fConsistent))
      | Some t \<Rightarrow>
          (case IsCoinStake t of
             Inl e \<Rightarrow> Some (Inl e)
           | Inr f \<Rightarrow>
               if \<not> f then consistency_from E W hashLast vChanges nTrustPrev fConsistent
               else case ReadBlock_tx hashLast W of
                 None \<Rightarrow> Some (Inr (vChanges, nTrustPrev, fConsistent))
               | Some block \<Rightarrow>
                   (case stake_account (vContracts t ! 0) of
                      Inl e \<Rightarrow> Some (Inl e)
                    | Inr (account, c) \<Rightarrow>
                        (case tx_IsTrust t of
                           Inl e \<Rightarrow> Some (Inl e)
                         | Inr f \<Rightarrow>
                             if \<not> f then Some (Inr (vChanges, nTrustPrev, fConsistent))
                             else case consistency_step E W block account c of
                               Inl e \<Rightarrow> Some (Inl e)
                             | Inr (hashLastTrust, nPrev, nChange, fSame) \<Rightarrow>
                                 consistency_from E W hashLastTrust (vChanges @ [nChange]) nPrev (fConsistent \<and> fSame)))))"

text \<open>A refusal on the way is the answer \<open>false\<close> with a score of zero.\<close>

definition CheckConsistency :: "env \<Rightarrow> u512 \<Rightarrow> world \<Rightarrow> (bool \<times> u64) res option" where
  "CheckConsistency E hashLastTrust W =
     map_option (\<lambda>r. case r of
         Inr (vChanges, nTrustPrev, fConsistent) \<Rightarrow>
           if fConsistent then Inr (True, 0) else Inr (False, foldr (\<lambda>n s. s + n) vChanges nTrustPrev)
       | Inl (Reject _) \<Rightarrow> Inr (False, 0)
       | Inl e \<Rightarrow> Inl e)
     (consistency_from E W hashLastTrust [] 0 True)"

section \<open>The check of a coinstake\<close>

definition or_diverge :: "'a res option \<Rightarrow> 'a res" where
  "or_diverge r = (case r of Some x \<Rightarrow> x | None \<Rightarrow> Inl Diverges)"

definition claimed_trust :: "env \<Rightarrow> block_state \<Rightarrow> block_state \<Rightarrow> u512 \<Rightarrow> u64 \<Rightarrow> u64 \<Rightarrow> u64 \<Rightarrow> u64 \<Rightarrow> world \<Rightarrow> u64 res" where
  "claimed_trust E b stateLast hashLast nTrustPrev nBlockAge nStake nStakeChange W =
     rbind (if bVersion b = 8 \<and> bVersion stateLast = 7 then or_diverge (CheckConsistency E hashLast W)
            else Inr (True, 0)) (\<lambda>(fConsistent, nTrustRet).
     GetTrustScore E (if fConsistent then nTrustPrev else nTrustRet) nBlockAge nStake nStakeChange (bVersion b))"

definition check_trust :: "rewards \<Rightarrow> env \<Rightarrow> tx \<Rightarrow> block_state \<Rightarrow> block_state \<Rightarrow> bool \<Rightarrow> u64 \<Rightarrow> bool \<Rightarrow> object \<Rightarrow> contract \<Rightarrow> world \<Rightarrow>
    (u64 \<times> u64) res" where
  "check_trust R E t b statePrev fPool nPoolFeeTotal fBlockFinder account c W =
     rbind (Contract_Seek 1 OPERATIONS STREAM_CURSOR c) (\<lambda>c.
     rbind (op_word c) (\<lambda>(hashLastClaimed, c).
     rbind (if fPool then Contract_Seek 48 OPERATIONS STREAM_CURSOR c else Inr c) (\<lambda>c.
     rbind (op_word c) (\<lambda>(nClaimedTrust :: u64, c).
     rbind (op_word c) (\<lambda>(nStakeChange, c).
     rbind (op_word c) (\<lambda>(nClaimedReward :: u64, c).
     rbind (found ''last stake not in database'' (ReadStake (txGenesis t) W)) (\<lambda>hashLast.
     if hashLast \<noteq> hashLastClaimed then Inl (Reject ''last stake mismatch'')
     else rbind (Object_get name_trust account) (\<lambda>nTrustPrev.
     rbind (Object_get name_stake account) (\<lambda>nStake.
     rbind (found ''last block not in database'' (ReadBlock_tx hashLastClaimed W)) (\<lambda>stateLast.
     let nBlockAge = bTime statePrev - bTime stateLast in
     rbind (claimed_trust E b stateLast hashLast nTrustPrev nBlockAge nStake nStakeChange W) (\<lambda>nTrust.
     if nClaimedTrust \<noteq> nTrust then Inl (Reject ''claimed trust score does not match calculated trust score'')
     else if bHeight b - bHeight stateLast \<le> MinStakeInterval E b then
       Inl (Reject ''stake block interval below minimum interval'')
     else
       let nTime = (if fPool \<and> \<not> fBlockFinder then bTime statePrev else bTime b) - bTime stateLast;
           nReward = rCoinstake R nStake nTime nTrust False;
           (nReward, nPoolFeeTotal) =
             (if fPool then
                if fBlockFinder then (nReward + nPoolFeeTotal, nPoolFeeTotal)
                else (nReward - GetPoolStakeFee nReward, nPoolFeeTotal + GetPoolStakeFee nReward)
              else (nReward, 0)) in
       if nClaimedReward \<noteq> nReward then Inl (Reject ''claimed stake reward does not match calculated reward'')
       else Inr (nReward, nPoolFeeTotal))))))))))))"

definition check_genesis :: "rewards \<Rightarrow> block_state \<Rightarrow> block_state \<Rightarrow> bool \<Rightarrow> u64 \<Rightarrow> object \<Rightarrow> contract \<Rightarrow> (u64 \<times> u64) res" where
  "check_genesis R b statePrev fPool nPoolFeeTotal account c =
     rbind (Contract_Seek 1 OPERATIONS STREAM_CURSOR c) (\<lambda>c.
     rbind (if fPool then Contract_Seek 48 OPERATIONS STREAM_CURSOR c else Inr c) (\<lambda>c.
     rbind (op_word c) (\<lambda>(nClaimedReward :: u64, c).
     rbind (Object_get name_balance account) (\<lambda>nStake.
     let nAge = (if fPool then bTime statePrev else bTime b) - nModified account;
         nReward = rCoinstake R nStake nAge 0 True;
         (nReward, nPoolFeeTotal) =
           (if fPool then (nReward - GetPoolStakeFee nReward, nPoolFeeTotal + GetPoolStakeFee nReward) else (nReward, 0)) in
     if nClaimedReward \<noteq> nReward then Inl (Reject ''claimed stake genesis reward does not match calculated reward'')
     else Inr (nReward, nPoolFeeTotal)))))"

text \<open>The result is the block, whose mint has grown by the reward in 32 bits, and the total of the pool's
  fees.\<close>

definition CheckTrust :: "rewards \<Rightarrow> env \<Rightarrow> tx \<Rightarrow> block_state \<Rightarrow> u64 \<Rightarrow> bool \<Rightarrow> world \<Rightarrow> (block_state \<times> u64) res" where
  "CheckTrust R E t b nPoolFeeTotal fBlockFinder W =
     rbind (IsCoinStake t) (\<lambda>f.
     if \<not> f then Inl (Reject ''no trust on non coinstake'')
     else rbind (ror (IsTrustPool t) (IsGenesisPool t)) (\<lambda>fPool.
     rbind (stake_account (vContracts t ! 0)) (\<lambda>(account, c).
     rbind (found ''prev block not in database'' (ReadBlock (hashPrevBlock b) W)) (\<lambda>statePrev.
     rbind (ror (tx_IsTrust t) (IsTrustPool t)) (\<lambda>fTrust.
     rbind (if fTrust then check_trust R E t b statePrev fPool nPoolFeeTotal fBlockFinder account c W
            else check_genesis R b statePrev fPool nPoolFeeTotal account c) (\<lambda>(nReward, nPoolFeeTotal).
     Inr (b\<lparr>bMint := bMint b + ucast nReward\<rparr>, nPoolFeeTotal)))))))"

end
