(* ===== verification/Block_Chain.thy ===== *)
theory Block_Chain
  imports Stake
begin

text \<open>
  The states of blocks in the chain (\<^verbatim>\<open>TAO/Ledger/state.cpp\<close>): connecting a block to and disconnecting it
  from the chain, and the way from the best block to a better one. Transactions of the legacy chain in a block
  are connected and disconnected by functions given as arguments (record \<open>legacy\<close>): connecting gives the mint of the
  block, which it changes, and the world.
\<close>

section \<open>Blocks\<close>

record legacy =
  xConnect :: "u512 \<Rightarrow> block_state \<Rightarrow> world \<Rightarrow> (u32 \<times> world) res"
  xDisconnect :: "u512 \<Rightarrow> block_state \<Rightarrow> world \<Rightarrow> world res"

text \<open>The hash is that of the header: what connecting a block changes does not enter.\<close>

definition Block_GetHash :: "node \<Rightarrow> block_state \<Rightarrow> u1024" where
  "Block_GetHash N b = nBlockHash N (block_header.truncate b)"

definition IsProofOfWork :: "block_state \<Rightarrow> bool" where
  "IsProofOfWork b \<longleftrightarrow> bChannel b = 1 \<or> bChannel b = 2"

definition IsProofOfStake :: "block_state \<Rightarrow> bool" where
  "IsProofOfStake b \<longleftrightarrow> bChannel b = 0"

definition Block_IsPrivate :: "block_state \<Rightarrow> bool" where
  "Block_IsPrivate b \<longleftrightarrow> bChannel b = 3"

definition Block_default :: "env \<Rightarrow> block_state" where
  "Block_default E = \<lparr>bVersion = CurrentBlockVersion E, hashPrevBlock = 0, hashMerkleRoot = 0, bChannel = 0, bHeight = 0,
     bBits = 0, bNonce = 0, bTime = unifiedtimestamp E, bOffsets = [], bVtx = [], bChainTrust = 0, bMoneySupply = 0, bMint = 0, bFees = 0,
     bChannelHeight = 0, bChannelWeight = [0, 0, 0], bReleasedReserve = [0, 0, 0], bFeeReserve = 0, hashNextBlock = 0,
     hashCheckpoint = 0\<rparr>"

definition Prev :: "env \<Rightarrow> block_state \<Rightarrow> world \<Rightarrow> block_state res" where
  "Prev E b W =
     (if hashPrevBlock b = 0 then Inr (Block_default E)
      else case ReadBlock (hashPrevBlock b) W of
        None \<Rightarrow> Inl (Throw ''failed to read previous block state'')
      | Some state \<Rightarrow> Inr state)"

definition Next :: "env \<Rightarrow> block_state \<Rightarrow> world \<Rightarrow> block_state res" where
  "Next E b W =
     (if hashNextBlock b = 0 then Inr (Block_default E)
      else case ReadBlock (hashNextBlock b) W of
        None \<Rightarrow> Inl (Throw ''failed to read next block state'')
      | Some state \<Rightarrow> Inr state)"

text \<open>Blocks are compared by their headers, without the offsets.\<close>

definition Block_eq :: "block_state \<Rightarrow> block_state \<Rightarrow> bool" where
  "Block_eq a b \<longleftrightarrow> bVersion a = bVersion b \<and> hashPrevBlock a = hashPrevBlock b \<and> hashMerkleRoot a = hashMerkleRoot b \<and>
     bChannel a = bChannel b \<and> bHeight a = bHeight b \<and> bBits a = bBits b \<and> bNonce a = bNonce b \<and> bTime a = bTime b"

text \<open>\<open>!=\<close> is written out on its own.\<close>

definition Block_neq :: "block_state \<Rightarrow> block_state \<Rightarrow> bool" where
  "Block_neq a b \<longleftrightarrow> bVersion a \<noteq> bVersion b \<or> hashPrevBlock a \<noteq> hashPrevBlock b \<or> hashMerkleRoot a \<noteq> hashMerkleRoot b \<or>
     bChannel a \<noteq> bChannel b \<or> bHeight a \<noteq> bHeight b \<or> bBits a \<noteq> bBits b \<or> bNonce a \<noteq> bNonce b \<or> bTime a \<noteq> bTime b"

definition Trust :: "env \<Rightarrow> block_state \<Rightarrow> world \<Rightarrow> u64 res" where
  "Trust E b W =
     rbind (Prev E b W) (\<lambda>prev. Inr (if \<not> Block_IsNull prev \<and> bChannel prev \<noteq> bChannel b then 3 else 1))"

text \<open>The last block of a channel, from a block backwards.\<close>

partial_function (option) GetLastState :: "env \<Rightarrow> world \<Rightarrow> block_state \<Rightarrow> u32 \<Rightarrow> (bool \<times> block_state) res option" where
  "GetLastState E W state nChan =
     (if bHeight state = 0 then Some (Inr (False, state))
      else if bChannel state = nChan then Some (Inr (True, state))
      else case Prev E state W of
        Inl e \<Rightarrow> Some (Inl e)
      | Inr state \<Rightarrow> if Block_IsNull state then Some (Inr (False, state)) else GetLastState E W state nChan)"

section \<open>Connecting a block\<close>

text \<open>A stake change that waits is marked as processed by the coinstake.\<close>

definition mark_stake_change :: "tx \<Rightarrow> world \<Rightarrow> world" where
  "mark_stake_change t W =
     (case wStakeChange W (txGenesis t) of
        Some request \<Rightarrow>
          if \<not> fProcessed request then
            W\<lparr>wStakeChange := (wStakeChange W)(txGenesis t \<mapsto> request\<lparr>fProcessed := True, scHashTx := txHash t\<rparr>)\<rparr>
          else W
      | None \<Rightarrow> W)"

definition connect_stake :: "rewards \<Rightarrow> env \<Rightarrow> tx \<Rightarrow> u512 \<Rightarrow> u512 \<Rightarrow> block_state \<Rightarrow> u64 \<Rightarrow> world \<Rightarrow> (block_state \<times> u64 \<times> world) res" where
  "connect_stake R E t h hashBlockFinder b nPoolFeeTotal W =
     rbind (IsCoinStake t) (\<lambda>f.
     if f then
       rbind (CheckTrust R E t b nPoolFeeTotal (h = hashBlockFinder) W) (\<lambda>(b, nPoolFeeTotal).
       Inr (b, nPoolFeeTotal, mark_stake_change t (WriteStake (txGenesis t) h W)))
     else Inr (b, nPoolFeeTotal, W))"

definition check_last :: "tx \<Rightarrow> world \<Rightarrow> unit res" where
  "check_last t W =
     (if IsFirst t then Inr ()
      else rbind (found ''failed to read last on non-genesis'' (ReadLast (txGenesis t) W)) (\<lambda>hashLast.
        if txPrevTx t \<noteq> hashLast then Inl (Reject ''last hash hash mismatch'') else Inr ()))"

definition connect_tritium :: "ext \<Rightarrow> rewards \<Rightarrow> node \<Rightarrow> env \<Rightarrow> u512 \<Rightarrow> u512 \<Rightarrow> block_state \<times> u64 \<times> world \<Rightarrow>
    (block_state \<times> u64 \<times> world) res" where
  "connect_tritium X R N E hashBlockFinder h = (\<lambda>(b, nPoolFeeTotal, W).
     if HasIndex h W then Inl (Reject ''transaction overwrites not allowed'')
     else rbind (found ''transaction not on disk'' (ReadTx h FLAGS_BLOCK W)) (\<lambda>t.
     rbind (check_last t W) (\<lambda>_.
     rbind (Transaction_Verify E t FLAGS_BLOCK W) (\<lambda>_.
     rbind (Transaction_Connect X N E t FLAGS_BLOCK (Some b) W) (\<lambda>W.
     rbind (Transaction_Fees t) (\<lambda>nFee.
     rbind (connect_stake R E t h hashBlockFinder (b\<lparr>bFees := bFees b + nFee\<rparr>) nPoolFeeTotal W) (\<lambda>(b, nPoolFeeTotal, W).
     Inr (b, nPoolFeeTotal, IndexBlock h (Block_GetHash N b) W))))))))"

definition connect_legacy :: "legacy \<Rightarrow> node \<Rightarrow> u512 \<Rightarrow> block_state \<times> u64 \<times> world \<Rightarrow> (block_state \<times> u64 \<times> world) res" where
  "connect_legacy L N h = (\<lambda>(b, nPoolFeeTotal, W).
     if HasIndex h W then Inl (Reject ''transaction overwrites not allowed'')
     else rbind (xConnect L h b W) (\<lambda>(nMint, W).
       Inr (b\<lparr>bMint := nMint\<rparr>, nPoolFeeTotal, IndexBlock h (Block_GetHash N b) W)))"

text \<open>What the properties rely on: a transaction of the legacy chain writes neither blocks nor transactions of signature chains.\<close>

definition legacy_keeps :: "legacy \<Rightarrow> bool" where
  "legacy_keeps L \<longleftrightarrow>
     (\<forall>h b W m V. xConnect L h b W = Inr (m, V) \<longrightarrow>
        lBlocks (wLedger V) = lBlocks (wLedger W) \<and> lTx (wLedger V) = lTx (wLedger W)) \<and>
     (\<forall>h b W V. xDisconnect L h b W = Inr V \<longrightarrow>
        lBlocks (wLedger V) = lBlocks (wLedger W) \<and> lTx (wLedger V) = lTx (wLedger W))"

fun connect_vtx :: "ext \<Rightarrow> rewards \<Rightarrow> legacy \<Rightarrow> node \<Rightarrow> env \<Rightarrow> u512 \<Rightarrow> (u8 \<times> u512) list \<Rightarrow> block_state \<times> u64 \<times> world \<Rightarrow>
    (block_state \<times> u64 \<times> world) res" where
  "connect_vtx X R L N E hashBlockFinder [] s = Inr s"
| "connect_vtx X R L N E hashBlockFinder ((ty, h) # vtx) s =
     rbind (if ty = TX_TRITIUM then connect_tritium X R N E hashBlockFinder h s
            else if ty = TX_LEGACY then connect_legacy L N h s
            else Inl (Reject ''using an unknown transaction type''))
       (connect_vtx X R L N E hashBlockFinder vtx)"

text \<open>The block is written with its supply, and its predecessor with the link to it. The mint is a signed
  number of 32 bits. The fees of the block are counted anew each time, its mint and fee reserve go on
  from what the block carries.\<close>

definition finish_block :: "node \<Rightarrow> env \<Rightarrow> block_state \<Rightarrow> world \<Rightarrow> (block_state \<times> world) res" where
  "finish_block N E b W =
     rbind (Prev E b W) (\<lambda>prev.
     let b = b\<lparr>bMoneySupply := (if Block_IsNull prev then 0 else bMoneySupply prev) + scast (bMint b),
               bFeeReserve := bFeeReserve b + bFees b\<rparr>;
         W = WriteBlock (Block_GetHash N b) b W in
     Inr (b, if Block_IsNull prev then W
             else WriteBlock (Block_GetHash N prev) (prev\<lparr>hashNextBlock := Block_GetHash N b\<rparr>) W))"

definition Block_Connect :: "ext \<Rightarrow> rewards \<Rightarrow> legacy \<Rightarrow> node \<Rightarrow> env \<Rightarrow> block_state \<Rightarrow> world \<Rightarrow> (block_state \<times> world) res" where
  "Block_Connect X R L N E b W =
     (if bVtx b = [] then Inl (Undefined ''back of an empty vector'')
      else rbind (connect_vtx X R L N E (snd (last (bVtx b))) (bVtx b) (b\<lparr>bFees := 0\<rparr>, 0, W)) (\<lambda>(b, nPoolFeeTotal, W).
        finish_block N E b W))"

section \<open>Disconnecting a block\<close>

fun disconnect_vtx :: "legacy \<Rightarrow> env \<Rightarrow> block_state \<Rightarrow> (u8 \<times> u512) list \<Rightarrow> world \<Rightarrow> world res" where
  "disconnect_vtx L E b [] W = Inr W"
| "disconnect_vtx L E b ((ty, h) # vtx) W =
     rbind (if ty = TX_TRITIUM then
              rbind (found ''transaction is not on disk'' (ReadTx h FLAGS_BLOCK W)) (\<lambda>t.
              Transaction_Disconnect E t FLAGS_BLOCK W)
            else if ty = TX_LEGACY then xDisconnect L h b W
            else Inr W) (\<lambda>W.
     disconnect_vtx L E b vtx (EraseIndex h W))"

definition Block_Disconnect :: "legacy \<Rightarrow> node \<Rightarrow> env \<Rightarrow> block_state \<Rightarrow> world \<Rightarrow> world res" where
  "Block_Disconnect L N E b W =
     rbind (disconnect_vtx L E b (rev (bVtx b)) W) (\<lambda>W.
     rbind (Prev E b W) (\<lambda>prev.
     Inr (if Block_IsNull prev then W
          else WriteBlock (Block_GetHash N prev) (prev\<lparr>hashNextBlock := 0\<rparr>) W)))"

section \<open>The best chain\<close>

text \<open>The way from the best block to a longer chain: the blocks to disconnect and, from the top, the blocks to
  connect. Both loops of the source are one here, the inner first.\<close>

partial_function (option) find_fork :: "env \<Rightarrow> world \<Rightarrow> bool \<Rightarrow> block_state \<Rightarrow> block_state \<Rightarrow> block_state list \<Rightarrow> block_state list \<Rightarrow>
    (block_state list \<times> block_state list) res option" where
  "find_fork E W inner fork longer vDisconnect vConnect =
     (if \<not> inner then
        if \<not> Block_neq fork longer then Some (Inr (vDisconnect, vConnect))
        else find_fork E W True fork longer vDisconnect vConnect
      else if bHeight fork < bHeight longer then
        (case Prev E longer W of
           Inl e \<Rightarrow> Some (Inl e)
         | Inr p \<Rightarrow>
             if Block_IsNull p then Some (Inl (Reject ''failed to find longer ancestor block''))
             else find_fork E W True fork p vDisconnect (vConnect @ [longer]))
      else if Block_eq fork longer then Some (Inr (vDisconnect, vConnect))
      else
        (case Prev E fork W of
           Inl e \<Rightarrow> Some (Inl e)
         | Inr p \<Rightarrow>
             if Block_IsNull p then Some (Inl (Reject ''failed to find ancestor fork block''))
             else find_fork E W False p longer (vDisconnect @ [fork]) vConnect))"

text \<open>The state of the chain in memory.\<close>

record chain_state =
  stateGenesis :: block_state
  stateBest :: block_state
  hashBestChain :: u1024
  nBestChainTrust :: u64
  nBestHeight :: u32

definition WriteBestChain :: "u1024 \<Rightarrow> world \<Rightarrow> world" where
  "WriteBestChain h W = W\<lparr>wLedger := (wLedger W)\<lparr>lBestChain := Some h\<rparr>\<rparr>"

definition EraseBlock :: "u1024 \<Rightarrow> world \<Rightarrow> world" where
  "EraseBlock h W = W\<lparr>wLedger := (wLedger W)\<lparr>lBlocks := (lBlocks (wLedger W))(h := None)\<rparr>\<rparr>"

fun disconnect_all :: "legacy \<Rightarrow> node \<Rightarrow> env \<Rightarrow> bool \<Rightarrow> block_state list \<Rightarrow> world \<Rightarrow> world res" where
  "disconnect_all L N E fErase [] W = Inr W"
| "disconnect_all L N E fErase (b # bs) W =
     rbind (Block_Disconnect L N E b W) (\<lambda>W.
     disconnect_all L N E fErase bs (if fErase then EraseBlock (Block_GetHash N b) W else W))"

fun connect_all :: "ext \<Rightarrow> rewards \<Rightarrow> legacy \<Rightarrow> node \<Rightarrow> env \<Rightarrow> block_state list \<Rightarrow> world \<Rightarrow> world res" where
  "connect_all X R L N E [] W = Inr W"
| "connect_all X R L N E (b # bs) W =
     rbind (Block_Connect X R L N E b W) (\<lambda>(b, W). connect_all X R L N E bs W)"

text \<open>The transactions of the blocks that were disconnected: they go to the memory pool again, which is not part of
  the model, or are erased when no block is connected instead.\<close>

fun resurrect :: "bool \<Rightarrow> (u8 \<times> u512) list \<Rightarrow> world \<Rightarrow> world res" where
  "resurrect fErase [] W = Inr W"
| "resurrect fErase ((ty, h) # vtx) W =
     rbind (if ty = TX_TRITIUM then
              if fErase then Inr (W\<lparr>wLedger := (wLedger W)\<lparr>lTx := (lTx (wLedger W))(h := None)\<rparr>\<rparr>)
              else rbind (found ''transaction not on disk'' (ReadTx h FLAGS_BLOCK W)) (\<lambda>t.
                rbind (ror (IsCoinBase t) (IsCoinStake t)) (\<lambda>_. Inr W))
            else if ty = TX_LEGACY then
              if fErase then Inr (W\<lparr>wLegacyTx := (wLegacyTx W)(h := None)\<rparr>)
              else rbind (found ''transaction not on disk'' (wLegacyTx W h)) (\<lambda>_. Inr W)
            else Inr W) (resurrect fErase vtx)"

definition reorganize :: "ext \<Rightarrow> rewards \<Rightarrow> legacy \<Rightarrow> node \<Rightarrow> env \<Rightarrow> block_state list \<Rightarrow> block_state list \<Rightarrow> world \<Rightarrow> world res" where
  "reorganize X R L N E vDisconnect vConnect W =
     rbind (disconnect_all L N E (vConnect = []) vDisconnect W) (\<lambda>W.
     rbind (connect_all X R L N E (rev vConnect) W) (\<lambda>W.
     resurrect (vConnect = []) (rev (concat (map (rev \<circ> bVtx) vDisconnect))) W))"

text \<open>The block becomes the best as it was before it was connected. The hardening of a checkpoint, which keeps the hash of the last
  checkpoint in memory, is left out.\<close>

definition SetBest :: "ext \<Rightarrow> rewards \<Rightarrow> legacy \<Rightarrow> node \<Rightarrow> env \<Rightarrow> block_state \<Rightarrow> chain_state \<Rightarrow> world \<Rightarrow> (chain_state \<times> world) res" where
  "SetBest X R L N E b S W =
     (let hash = Block_GetHash N b in
      if Block_IsNull (stateGenesis S) then
        Inr (S\<lparr>stateGenesis := b\<rparr>, WriteBlock hash b (WriteBestChain hash W))
      else rbind (or_diverge (find_fork E W False (stateBest S) b [] [])) (\<lambda>(vDisconnect, vConnect).
        rbind (reorganize X R L N E vDisconnect vConnect W) (\<lambda>W.
        Inr (S\<lparr>stateBest := b, hashBestChain := hash, nBestChainTrust := bChainTrust b, nBestHeight := bHeight b\<rparr>,
          WriteBestChain hash W))))"

end
