(* ===== verification/Ledger_Laws.thy ===== *)
theory Ledger_Laws
  imports Ledger_Transaction Block_View
begin

text \<open>
  What contracts do not touch: the transactions, the indexes of the signature chains and the block index. Connecting
  and disconnecting a transaction change of them only what they say they do.
\<close>

section \<open>The indexes\<close>

definition chain_of :: "world \<Rightarrow> (u256 \<rightharpoonup> u512) \<times> (u256 \<rightharpoonup> u512) \<times> (u512 \<rightharpoonup> u1024) \<times>
    (u1024 \<rightharpoonup> block_state) \<times> u1024 option \<times> (u512 \<rightharpoonup> tx) \<times> (u512 \<rightharpoonup> tx) \<times> (u512 \<rightharpoonup> txout list)" where
  "chain_of W = (lLast (wLedger W), lGenesis (wLedger W), lIndex (wLedger W), lBlocks (wLedger W), lBestChain (wLedger W),
     lTx (wLedger W), lMempool (wLedger W), wLegacyTx W)"

lemma chain_of_writes [simp]:
  "chain_of (WriteState E a s f W) = chain_of W" "chain_of (EraseState a f W) = chain_of W"
  "chain_of (WriteProof p h n f W) = chain_of W" "chain_of (EraseProof p h n f W) = chain_of W"
  "chain_of (WriteClaimed h n m f W) = chain_of W" "chain_of (WriteContract h n g f W) = chain_of W"
  "chain_of (EraseContract h n f W) = chain_of W" "chain_of (WriteEvent u h W) = chain_of W"
  "chain_of (IndexTrust g r W) = chain_of W" "chain_of (EraseTrust g W) = chain_of W"
  "chain_of (WriteStake g h W) = chain_of W" "chain_of (EraseStake g W) = chain_of W"
  "chain_of (WriteTrustConversion k W) = chain_of W" "chain_of (EraseTrustConversion k W) = chain_of W"
  by (simp_all add: chain_of_def world_ops EraseContract_def WriteTrustConversion_def EraseTrustConversion_def Let_def)

lemma chain_of_EraseEvent: "EraseEvent u W = Inr W' \<Longrightarrow> chain_of W' = chain_of W"
  by (auto simp: EraseEvent_def chain_of_def WriteSequence_def Let_def split: option.splits)

lemma chain_of_WriteTrust: "WriteTrust E g s W = Inr W' \<Longrightarrow> chain_of W' = chain_of W"
proof -
  assume "WriteTrust E g s W = Inr W'"
  then obtain V a where "W' = WriteState E a s FLAGS_BLOCK V" "chain_of V = chain_of W"
    unfolding WriteTrust_def Let_def by (elim rbindE) (auto simp: chain_of_def)
  then show ?thesis by simp
qed

section \<open>Contracts\<close>

lemma chain_of_commits:
  "Write_Commit E s a f W = Inr W' \<Longrightarrow> chain_of W' = chain_of W"
  "Append_Commit E s a f W = Inr W' \<Longrightarrow> chain_of W' = chain_of W"
  "Transfer_Commit E s h a b f W = Inr W' \<Longrightarrow> chain_of W' = chain_of W"
  "Claim_Commit E s a h n f W = Inr W' \<Longrightarrow> chain_of W' = chain_of W"
  "Debit_Commit E ob h a b f W = Inr W' \<Longrightarrow> chain_of W' = chain_of W"
  "Credit_Commit E ob d a p h n m f W = Inr W' \<Longrightarrow> chain_of W' = chain_of W"
  "Fee_Commit E ob a f W = Inr W' \<Longrightarrow> chain_of W' = chain_of W"
  "Legacy_Commit E s a f W = Inr W' \<Longrightarrow> chain_of W' = chain_of W"
  "Coinbase_Commit g h f W = Inr W' \<Longrightarrow> chain_of W' = chain_of W"
  "Trust_Commit E s f W = Inr W' \<Longrightarrow> chain_of W' = chain_of W"
  "Genesis_Commit E s f W = Inr W' \<Longrightarrow> chain_of W' = chain_of W"
  "Trustpool_Commit E s f W = Inr W' \<Longrightarrow> chain_of W' = chain_of W"
  "Genesispool_Commit E s f W = Inr W' \<Longrightarrow> chain_of W' = chain_of W"
  "Migrate_Commit E ob a g h t l f W = Inr W' \<Longrightarrow> chain_of W' = chain_of W"
  "Validate_Commit h n g f W = Inr W' \<Longrightarrow> chain_of W' = chain_of W"
  "Create_Commit E s a k f W = Inr (W', k') \<Longrightarrow> chain_of W' = chain_of W"
  unfolding commit_defs Create_Commit_def credit_claimed_def Let_def
  by (auto elim!: rbind_pairE rbindE simp del: rbind_eq_Inr dest!: chain_of_WriteTrust split: if_splits option.splits)

lemma chain_of_exec_primitive:
  assumes "exec_primitive X E f nOP v c W k = Inr (c', W', k')"
  shows "chain_of W' = chain_of W"
  using assms unfolding exec_primitive_def
  by (auto simp: exec_write_def exec_append_def exec_transfer_def exec_claim_def exec_coinbase_def exec_trust_def exec_genesis_def
      exec_trustpool_def exec_genesispool_def exec_debit_def exec_credit_def exec_migrate_def exec_fee_def exec_legacy_def
      exec_authorize_def exec_create_def Let_def elim!: rbind_pairE rbindE simp del: rbind_eq_Inr split: if_splits
      dest: chain_of_commits)

lemma chain_of_exec_prefix:
  assumes "exec_prefix X E f c W k = Inr (nOP, v, c', W', k')"
  shows "chain_of W' = chain_of W"
  using assms unfolding exec_prefix_def exec_condition_def exec_validate_def
  by (auto elim!: rbind_pairE rbindE simp del: rbind_eq_Inr split: if_splits dest: chain_of_commits)

lemma chain_of_Execute:
  assumes "Execute X E c f W k = Inr (W', k')"
  shows "chain_of W' = chain_of W"
proof -
  from assms obtain nOP v c1 W1 k1 c2 where "exec_prefix X E f (start c) W k = Inr (nOP, v, c1, W1, k1)"
    "exec_primitive X E f nOP v c1 W1 k1 = Inr (c2, W', k')"
    unfolding Execute_def catch_all_def
    by (auto split: sum.splits error.splits if_splits prod.splits elim!: rbindE simp del: rbind_eq_Inr)
  then show ?thesis using chain_of_exec_prefix chain_of_exec_primitive by metis
qed

lemma chain_of_undo_primitive:
  assumes "undo_primitive E f W nOP c = Inr (c', W')"
  shows "chain_of W' = chain_of W"
  using assms unfolding undo_primitive_def
  by (auto simp: undo_write_def undo_create_def undo_transfer_def undo_claim_def undo_coinbase_def undo_trust_def undo_genesis_def
      undo_debit_def undo_credit_def undo_claimed_def undo_migrate_def undo_fee_def undo_legacy_def restore_def
      elim!: rbind_pairE rbindE simp del: rbind_eq_Inr split: if_splits dest!: chain_of_EraseEvent chain_of_WriteTrust)

lemma chain_of_Rollback:
  assumes "Rollback E c f W = Inr W'"
  shows "chain_of W' = chain_of W"
proof -
  from assms obtain nOP c1 W1 c2 where p: "undo_prefix f W (start c) = Inr (nOP, c1, W1)"
    and u: "undo_primitive E f W1 nOP c1 = Inr (c2, W')"
    unfolding Rollback_def catch_all_def
    by (auto split: sum.splits error.splits if_splits elim!: rbind_pairE rbind_tripleE simp del: rbind_eq_Inr)
  have "chain_of W1 = chain_of W"
    using p unfolding undo_prefix_def by (auto elim!: rbind_pairE simp del: rbind_eq_Inr split: if_splits)
  then show ?thesis using chain_of_undo_primitive [OF u] by simp
qed

section \<open>Transactions\<close>

lemma tx_bind_fields [simp]:
  "ssOperation (tx_bind t c) = ssOperation c" "ssCondition (tx_bind t c) = ssCondition c"
  "ssRegister (tx_bind t c) = ssRegister c" "hashCaller (tx_bind t c) = txGenesis t"
  "nTimestamp (tx_bind t c) = txTimestamp t" "hashTx (tx_bind t c) = txHash t" "cVersion (tx_bind t c) = txVersion t"
  by (simp_all add: tx_bind_def Contract_Bind_tx_def)

lemma WriteTx_other [simp]:
  "ReadState x f (WriteTx h t W) = ReadState x f W" "HasProof p h' n f (WriteTx h t W) = HasProof p h' n f W"
  "ReadState x f (WriteLast g h W) = ReadState x f W"
  by (simp_all add: world_ops WriteLast_def)

lemma chain_of_connect_contracts:
  "connect_contracts X N E t f pb b cs W k = Inr (W', k') \<Longrightarrow> chain_of W' = chain_of W"
proof (induction cs arbitrary: W k)
  case (Cons c cs)
  then obtain V k1 k2 where e: "Execute X E (tx_bind t c) f W k = Inr (V, k1)"
    and r: "connect_contracts X N E t f pb b cs V k2 = Inr (W', k')"
    by (auto elim!: rbind_pairE rbindE simp del: rbind_eq_Inr)
  then show ?case using Cons.IH [OF r] chain_of_Execute [OF e] by simp
qed simp

lemma chain_of_rollback_contracts:
  "rollback_contracts E t f cs W = Inr W' \<Longrightarrow> chain_of W' = chain_of W"
proof (induction cs arbitrary: W)
  case (Cons c cs)
  then obtain V where e: "Rollback E (tx_bind t c) f W = Inr V" and r: "rollback_contracts E t f cs V = Inr W'"
    by (auto elim!: rbindE simp del: rbind_eq_Inr)
  then show ?case using Cons.IH [OF r] chain_of_Rollback [OF e] by simp
qed simp

section \<open>Connecting\<close>

lemma connect_previous_facts:
  assumes "connect_previous N E t f W = Inr b" and "\<not> fClient E"
  obtains p where "ReadTx (txPrevTx t) f W = Some p" and "txSequence p + 1 = txSequence t"
    and "txTimestamp p \<le> txTimestamp t" and "txGenesis p = txGenesis t" and "b = fee_applies p t"
    and "PrevHash E t = txNext p \<or> PrevHash E t = txRecovery p \<and> txRecovery p \<noteq> 0"
    and "PrevHash E t = txNext p \<Longrightarrow> txRecovery p = 0 \<or> txRecovery t = txRecovery p"
proof -
  from assms obtain p where p: "ReadTx (txPrevTx t) f W = Some p" and
    s: "txSequence p + 1 = txSequence t" "\<not> txTimestamp t < txTimestamp p" and
    r: "rbind (if txNext p \<noteq> PrevHash E t then
           if txRecovery p = PrevHash E t then
             if txRecovery p = 0 then Inl (Reject ''NOTICE: recovery hash disabled'') else Inr True
           else Inl (Reject ''invalid signature chain credentials'')
         else Inr False) (\<lambda>fRecovery.
       if \<not> fRecovery \<and> txRecovery p \<noteq> txRecovery t \<and> txRecovery p \<noteq> 0 then
         Inl (Reject ''recovery hash broken chain'')
       else if txGenesis p \<noteq> txGenesis t then Inl (Reject ''genesis hash broken chain'')
       else Inr (fee_applies p t)) = Inr b"
    by (auto simp: connect_previous_def split: option.splits if_splits)
  show thesis
    by (rule that [OF p s(1)]) (use s r in \<open>auto elim!: rbindE simp del: rbind_eq_Inr split: if_splits\<close>)
qed

lemma Connect_parts:
  assumes "Transaction_Connect X N E t f pb W = Inr W'"
  obtains W0 b V k where
    "(if IsFirst t then rbind (connect_first E t f W) (\<lambda>W. Inr (W, False))
      else rbind (connect_previous N E t f W) (\<lambda>f. Inr (W, f))) = Inr (W0, b)"
    and "connect_contracts X N E t f pb b (vContracts t) W0 0 = Inr (V, k)"
    and "\<not> fPrivate N \<Longrightarrow> (if IsFirst t then Inr FIRST_FEES else Transaction_Fees t) = Inr n \<Longrightarrow> k \<le> n"
    and "\<not> fPrivate N \<Longrightarrow> \<exists>n. (if IsFirst t then Inr FIRST_FEES else Transaction_Fees t) = Inr n"
    and "W' = (if f = FLAGS_BLOCK then WriteLast (txGenesis t) (txHash t) V else V)"
  using assms unfolding Transaction_Connect_def
  by (elim rbind_pairE rbindE) (auto simp del: rbind_eq_Inr elim!: rbindE split: if_splits)

end
