(* ===== verification/Rollback_Laws.thy ===== *)
theory Rollback_Laws
  imports Rollback Backing
begin

text \<open>
  Rolling back a contract that was verified and executed on a block restores what later contracts
  depend on: the registers, the proofs, the claimed amounts and the fulfilled conditions.
\<close>

section \<open>Skipping what has been read\<close>

lemma Seek_iff:
  "Contract_Seek n OPERATIONS STREAM_CURSOR c =
    (if sPos (ssOperation (opos (int n) c)) \<le> length (sData (ssOperation c)) then Inr (opos (int n) c)
     else Inl (Throw ''seek out of bounds''))"
  by (simp add: Contract_Seek_def seek_op_def stream_seek_def opos_def Let_def)

lemma skip_word:
  assumes "op_word c = Inr (w :: 'a::len word, c')"
  shows "Contract_Seek (LENGTH('a) div 8) OPERATIONS STREAM_CURSOR c = Inr c'"
  using op_word_in [OF assms] op_word_pos [OF assms] by (simp add: Seek_iff)

lemma skip_add:
  assumes "Contract_Seek m OPERATIONS STREAM_CURSOR c = Inr c1" and "Contract_Seek n OPERATIONS STREAM_CURSOR c1 = Inr c2"
  shows "Contract_Seek (m + n) OPERATIONS STREAM_CURSOR c = Inr c2"
  using assms by (auto simp: Seek_iff split: if_splits)

lemma skip_read:
  assumes "Contract_Seek m OPERATIONS STREAM_CURSOR c = Inr c1" and "op_word c1 = Inr (w :: 'a::len word, c2)"
  shows "Contract_Seek (m + LENGTH('a) div 8) OPERATIONS STREAM_CURSOR c = Inr c2"
  by (rule skip_add [OF assms(1) skip_word [OF assms(2)]])

lemma stream_read_pos:
  "stream_read n s = Inr (bs, s') \<Longrightarrow> s' = s\<lparr>sPos := (sPos s + n) mod 2 ^ 64\<rparr> \<and> sPos s' \<le> length (sData s)"
  unfolding stream_read_def Let_def by (elim if_InlE) (auto simp: not_less)

lemma read_blocks_pos:
  assumes "read_blocks stream_read n v s = Inr (d, s')" and "sPos s \<le> length (sData s)" and "sPos s < 2 ^ 64"
  shows "s' = s\<lparr>sPos := (sPos s + n) mod 2 ^ 64\<rparr> \<and> sPos s' \<le> length (sData s)"
  using assms
proof (induction stream_read n v s rule: read_blocks.induct)
  case (1 n v s)
  show ?case
  proof (cases "n = 0")
    case True
    then show ?thesis using "1.prems" by (subst (asm) read_blocks.simps) simp
  next
    case False
    let ?b = "min n BLOCK_LIMIT"
    obtain bs s1 where r: "stream_read ?b s = Inr (bs, s1)"
      and rest: "read_blocks stream_read (n - ?b) (v @ bs) s1 = Inr (d, s')"
      using "1.prems"(1) False by (subst (asm) read_blocks.simps) (auto simp: Let_def)
    note s1 = stream_read_pos [OF r]
    have "s' = s1\<lparr>sPos := (sPos s1 + (n - ?b)) mod 2 ^ 64\<rparr> \<and> sPos s' \<le> length (sData s1)"
      by (rule "1.hyps" [OF False refl r refl rest]) (use s1 in auto)
    moreover have "((sPos s + ?b) mod 2 ^ 64 + (n - ?b)) mod 2 ^ 64 = (sPos s + n) mod 2 ^ 64"
      by (simp only: mod_add_left_eq add.assoc) (simp add: min_def)
    moreover have "s1 = s\<lparr>sPos := (sPos s + ?b) mod 2 ^ 64\<rparr>" using s1 by blast
    ultimately show ?thesis by auto
  qed
qed


lemma ReadCompactSize_pos:
  assumes "ReadCompactSize stream_read s = Inr (n, s1)"
  shows "n \<le> MAX_SIZE \<and> sData s1 = sData s \<and> sPos s1 \<le> length (sData s1) \<and> sPos s1 < 2 ^ 64"
proof -
  have st: "sData s' = sData s \<and> sPos s' \<le> length (sData s') \<and> sPos s' < 2 ^ 64"
    if "stream_read k s = Inr (bs, s')" for k s bs s'
    using stream_read_pos [OF that] by auto
  from assms show ?thesis unfolding ReadCompactSize_def Let_def
    by (elim rbind_pairE if_InlE) (auto split: if_splits elim!: rbind_pairE dest!: st simp del: rbind_eq_Inr)
qed

lemma skip_vector:
  assumes "op_vector c = Inr (d, c')"
  shows "skip_sized c = Inr c'"
proof -
  from assms obtain n s1 s2 where z: "ReadCompactSize stream_read (ssOperation c) = Inr (n, s1)"
    and b: "read_blocks stream_read n [] s1 = Inr (d, s2)" and c': "c' = c\<lparr>ssOperation := s2\<rparr>"
    unfolding op_vector_def cop_lift_def read_vector_def by (elim rbind_pairE) auto
  note p = ReadCompactSize_pos [OF z]
  have "n mod 2 ^ 32 = n" using p by (simp add: MAX_SIZE_def)
  moreover have "s2 = s1\<lparr>sPos := (sPos s1 + n) mod 2 ^ 64\<rparr> \<and> sPos s2 \<le> length (sData s1)"
    using read_blocks_pos [OF b] p by blast
  ultimately show ?thesis
    by (auto simp: skip_sized_def Contract_ReadCompactSize_def cop_lift_def z Seek_iff opos_def c' nat_mod_as_int
        simp flip: of_nat_add)
qed

section \<open>What is restored\<close>

text \<open>A record that counts may be left at zero where there was none.\<close>

definition zero_or :: "'a::zero option \<Rightarrow> 'a option \<Rightarrow> bool" where
  "zero_or a b \<longleftrightarrow> b = a \<or> a = None \<and> b = Some 0"

definition kept :: "world \<Rightarrow> world \<Rightarrow> bool" where
  "kept W V \<longleftrightarrow> (\<forall>p h n. HasProof p h n FLAGS_BLOCK V = HasProof p h n FLAGS_BLOCK W) \<and>
     (\<forall>h n. zero_or (ReadClaimed h n FLAGS_BLOCK W) (ReadClaimed h n FLAGS_BLOCK V)) \<and>
     (\<forall>x. zero_or (ReadSequence x W) (ReadSequence x V)) \<and>
     lTx (wLedger V) = lTx (wLedger W) \<and> wLegacyTx V = wLegacyTx W"

text \<open>A register is as before, or it is the recorded pre-state, which the comparison of states cannot
  tell from the register before.\<close>

definition recorded :: "contract \<Rightarrow> reg_state \<Rightarrow> bool" where
  "recorded c s \<longleftrightarrow> (\<exists>cx cp. ssRegister cx = ssRegister c \<and> take_prestate cx = Inr (s, cp))"

definition restored :: "env \<Rightarrow> contract \<Rightarrow> world \<Rightarrow> world \<Rightarrow> bool" where
  "restored E c W V \<longleftrightarrow>
     (\<forall>x. ReadState x FLAGS_BLOCK V = ReadState x FLAGS_BLOCK W \<or>
       (\<exists>s st. recorded c s \<and> ReadState x FLAGS_BLOCK W = Some st \<and> ReadState x FLAGS_BLOCK V = Some s \<and> State_eq E s st)) \<and>
     kept W V"

text \<open>\<open>undoes E c undo c' W W'\<close>: the contract \<open>c\<close> was executed from \<open>W\<close> to \<open>W'\<close> and left the operation stream
  where \<open>c'\<close> has it; undoing it, whatever the fulfilled conditions are meanwhile, restores \<open>W\<close> and
  ends at the same place.\<close>

definition undoes :: "env \<Rightarrow> contract \<Rightarrow> (world \<Rightarrow> undo_res) \<Rightarrow> contract \<Rightarrow> world \<Rightarrow> world \<Rightarrow> bool" where
  "undoes E c undo c' W W' \<longleftrightarrow> wContract W' = wContract W \<and>
     (\<forall>C. \<exists>cu V. undo (W'\<lparr>wContract := C\<rparr>) = Inr (cu, V) \<and> ssOperation cu = ssOperation c' \<and>
        wContract V = C \<and> restored E c W V)"

lemma block_live [simp]: "wlive FLAGS_BLOCK W"
  by (simp add: wlive_def live_def)

lemma read_wContract [simp]:
  "ReadState x f (W\<lparr>wContract := C\<rparr>) = ReadState x f W" "HasProof p h n f (W\<lparr>wContract := C\<rparr>) = HasProof p h n f W"
  "ReadClaimed h n f (W\<lparr>wContract := C\<rparr>) = ReadClaimed h n f W"
  "ReadSequence a (W\<lparr>wContract := C\<rparr>) = ReadSequence a W"
  by (simp_all add: world_ops)

lemma ReadClaimed_ops [simp]:
  "ReadClaimed h n f (WriteState E a s g W) = ReadClaimed h n f W" "ReadClaimed h n f (WriteProof p h' n' g W) = ReadClaimed h n f W"
  "ReadClaimed h n f (WriteEvent u h' W) = ReadClaimed h n f W"
  "ReadClaimed h n f (EraseState a g W) = ReadClaimed h n f W"
  "ReadClaimed h n f (EraseProof p h' n' g W) = ReadClaimed h n f W" "ReadClaimed h n f (IndexTrust b r W) = ReadClaimed h n f W"
  "ReadClaimed h n f (WriteStake b h' W) = ReadClaimed h n f W" "ReadClaimed h n f (EraseTrust b W) = ReadClaimed h n f W"
  "ReadClaimed h n f (EraseStake b W) = ReadClaimed h n f W" "ReadClaimed h n f (EraseTrustConversion k W) = ReadClaimed h n f W"
  "ReadClaimed h n f (WriteTrustConversion k W) = ReadClaimed h n f W"
  by (simp_all add: world_ops EraseTrustConversion_def WriteTrustConversion_def)

lemma lTx_ops [simp]:
  "lTx (wLedger (WriteState E a s g W)) = lTx (wLedger W)" "lTx (wLedger (WriteProof p h' n' g W)) = lTx (wLedger W)"
  "lTx (wLedger (WriteEvent u h' W)) = lTx (wLedger W)" "lTx (wLedger (EraseState a g W)) = lTx (wLedger W)"
  "lTx (wLedger (EraseProof p h' n' g W)) = lTx (wLedger W)" "lTx (wLedger (IndexTrust b r W)) = lTx (wLedger W)"
  "lTx (wLedger (WriteStake b h' W)) = lTx (wLedger W)" "lTx (wLedger (EraseTrust b W)) = lTx (wLedger W)"
  "lTx (wLedger (EraseStake b W)) = lTx (wLedger W)" "lTx (wLedger (EraseTrustConversion k W)) = lTx (wLedger W)"
  "lTx (wLedger (WriteTrustConversion k W)) = lTx (wLedger W)" "lTx (wLedger (WriteClaimed h n m g W)) = lTx (wLedger W)"
  by (simp_all add: world_ops EraseTrustConversion_def WriteTrustConversion_def)

lemma wLegacyTx_ops [simp]:
  "wLegacyTx (WriteState E a s g W) = wLegacyTx W" "wLegacyTx (WriteProof p h' n' g W) = wLegacyTx W"
  "wLegacyTx (WriteEvent u h' W) = wLegacyTx W" "wLegacyTx (EraseState a g W) = wLegacyTx W"
  "wLegacyTx (EraseProof p h' n' g W) = wLegacyTx W" "wLegacyTx (IndexTrust b r W) = wLegacyTx W"
  "wLegacyTx (WriteStake b h' W) = wLegacyTx W" "wLegacyTx (EraseTrust b W) = wLegacyTx W"
  "wLegacyTx (EraseStake b W) = wLegacyTx W" "wLegacyTx (EraseTrustConversion k W) = wLegacyTx W"
  "wLegacyTx (WriteTrustConversion k W) = wLegacyTx W" "wLegacyTx (WriteClaimed h n m g W) = wLegacyTx W"
  by (simp_all add: world_ops EraseTrustConversion_def WriteTrustConversion_def)

lemma wContract_ops [simp]:
  "wContract (WriteState E a s g W) = wContract W" "wContract (WriteProof p h' n' g W) = wContract W"
  "wContract (WriteEvent u h' W) = wContract W" "wContract (EraseState a g W) = wContract W"
  "wContract (EraseProof p h' n' g W) = wContract W" "wContract (IndexTrust b r W) = wContract W"
  "wContract (WriteStake b h' W) = wContract W" "wContract (EraseTrust b W) = wContract W"
  "wContract (EraseStake b W) = wContract W" "wContract (EraseTrustConversion k W) = wContract W"
  "wContract (WriteTrustConversion k W) = wContract W" "wContract (WriteClaimed h n m g W) = wContract W"
  by (simp_all add: world_ops EraseTrustConversion_def WriteTrustConversion_def)

lemma ReadState_undo [simp]:
  "ReadState a f (EraseTrust b W) = ReadState a f W" "ReadState a f (EraseTrustConversion k W) = ReadState a f W"
  "ReadState a f (WriteTrustConversion k W) = ReadState a f W"
  by (simp_all add: world_ops EraseTrustConversion_def WriteTrustConversion_def)

lemma HasProof_undo [simp]:
  "HasProof p h n f (EraseTrust b W) = HasProof p h n f W" "HasProof p h n f (EraseTrustConversion k W) = HasProof p h n f W"
  "HasProof p h n f (EraseStake b W) = HasProof p h n f W" "HasProof p h n f (WriteTrustConversion k W) = HasProof p h n f W"
  by (simp_all add: world_ops EraseTrustConversion_def WriteTrustConversion_def)

lemma ReadState_EraseState:
  "ReadState x FLAGS_BLOCK (EraseState a FLAGS_BLOCK W) = (if x = a then None else ReadState x FLAGS_BLOCK W)"
  by (auto simp: world_ops read_register_def overlay_erase_def overlay_defs split: option.splits)

lemma HasProof_EraseProof:
  "HasProof p' h' n' FLAGS_BLOCK (EraseProof p h n FLAGS_BLOCK W) \<longleftrightarrow>
     (p', h', n') \<noteq> (p, h, n) \<and> HasProof p' h' n' FLAGS_BLOCK W"
  by (auto simp: world_ops read_proof_def overlay_erase_def overlay_defs split: option.splits)

lemma ReadSequence_ops [simp]:
  "ReadSequence a (WriteState E x s g W) = ReadSequence a W" "ReadSequence a (WriteProof p h n g W) = ReadSequence a W"
  "ReadSequence a (EraseProof p h n g W) = ReadSequence a W" "ReadSequence a (EraseState x g W) = ReadSequence a W"
  "ReadSequence a (IndexTrust b r W) = ReadSequence a W" "ReadSequence a (WriteStake b k W) = ReadSequence a W"
  "ReadSequence a (EraseTrust b W) = ReadSequence a W" "ReadSequence a (EraseStake b W) = ReadSequence a W"
  "ReadSequence a (EraseTrustConversion l W) = ReadSequence a W" "ReadSequence a (WriteTrustConversion l W) = ReadSequence a W"
  "ReadSequence a (WriteClaimed h n m g W) = ReadSequence a W"
  by (simp_all add: world_ops EraseTrustConversion_def WriteTrustConversion_def)

lemma zero_or_refl [simp]: "zero_or a a"
  by (simp add: zero_or_def)

text \<open>An event that is erased again leaves the counter as it was, or at zero.\<close>

lemma event_undone:
  assumes "\<And>x. ReadSequence x V = ReadSequence x (WriteEvent u h W)"
  obtains V' where "EraseEvent u V = Inr V'" and "\<And>x f. ReadState x f V' = ReadState x f V"
    and "\<And>p h n f. HasProof p h n f V' = HasProof p h n f V" and "\<And>h n f. ReadClaimed h n f V' = ReadClaimed h n f V"
    and "wContract V' = wContract V" and "lTx (wLedger V') = lTx (wLedger V)" and "wLegacyTx V' = wLegacyTx V"
    and "\<And>x. zero_or (ReadSequence x W) (ReadSequence x V')"
proof -
  obtain n where n: "ReadSequence u V = Some n" "n = (case ReadSequence u W of Some k \<Rightarrow> k | None \<Rightarrow> 0) + 1"
    using assms [of u] by (auto simp: world_ops)
  obtain V' where V': "EraseEvent u V = Inr V'" using n(1) by (simp add: EraseEvent_def Let_def)
  show thesis
  proof (rule that [OF V'])
    show "zero_or (ReadSequence x W) (ReadSequence x V')" for x
      using V' n assms [of x] by (auto simp: EraseEvent_def zero_or_def world_ops split: option.splits if_splits)
  qed (use V' n(1) in \<open>auto simp: EraseEvent_def world_ops\<close>)
qed

lemma kept_refl [simp]: "kept W W"
  by (simp add: kept_def)

text \<open>The registers after the pre-state has been written back.\<close>

lemma restored_by_prestate:
  assumes "recorded c s" and "ReadState a FLAGS_BLOCK W = Some st" and "State_eq E s st"
    and "\<And>x. ReadState x FLAGS_BLOCK V = (if x = a then Some s else ReadState x FLAGS_BLOCK W)" and "kept W V"
  shows "restored E c W V"
  using assms by (auto simp: restored_def)

lemma restored_refl [simp]: "restored E c W W"
  by (simp add: restored_def)

lemma restored_same:
  assumes "\<And>x. ReadState x FLAGS_BLOCK V = ReadState x FLAGS_BLOCK W" and "kept W V"
  shows "restored E c W V"
  using assms by (simp add: restored_def)

lemma recordedI: "take_prestate cx = Inr (s, cp) \<Longrightarrow> ssRegister cx = ssRegister c \<Longrightarrow> recorded c s"
  by (auto simp: recorded_def)

lemma op_word_reg: "op_word c = Inr (w :: 'a::len word, c') \<Longrightarrow> ssRegister c' = ssRegister c"
  by (auto dest!: op_word_pos)

lemma op_vector_reg: "op_vector c = Inr (d, c') \<Longrightarrow> ssRegister c' = ssRegister c"
  by (auto dest!: op_vector_only simp: op_only_fields)

lemma Seek_reg: "Contract_Seek n OPERATIONS STREAM_CURSOR c = Inr c' \<Longrightarrow> ssRegister c' = ssRegister c"
  by (auto dest!: Seek_pos)

section \<open>The operations\<close>

lemma check_poststate_op: "check_poststate E s c = Inr c' \<Longrightarrow> ssOperation c' = ssOperation c"
  by (auto dest!: check_poststate_pos)

lemma verify_state_facts:
  assumes "verify_state E own a g f W Map.empty c = Inr r" and "take_prestate c = Inr (s, cp)"
  shows "\<exists>st. ReadState a f W = Some st \<and> State_eq E s st" and "own \<Longrightarrow> hashCaller cp = hashOwner s"
  using assms by (auto simp: verify_state_def current_state_def split: if_splits)

lemma restore_undone:
  assumes "take_prestate cx = Inr (s, cp)" and "ReadState a FLAGS_BLOCK W = Some st" and "State_eq E s st" and "ssRegister cx = ssRegister c"
    and "\<And>x. x \<noteq> a \<Longrightarrow> ReadState x FLAGS_BLOCK V = ReadState x FLAGS_BLOCK W" and "kept W V"
  shows "restored E c W (WriteState E a s FLAGS_BLOCK V)"
  by (rule restored_by_prestate [OF recordedI [OF assms(1,4)] assms(2,3)])
    (use assms(5,6) in \<open>auto simp: ReadState_WriteState kept_def\<close>)

lemma undoes_restore:
  assumes "take_prestate cx = Inr (s, cp)" and "verify_state E own a g FLAGS_BLOCK W Map.empty cx = Inr r"
    and "check_poststate E ob cp = Inr c'" and "ssRegister cx = ssRegister c"
  shows "undoes E c (\<lambda>W. restore E a FLAGS_BLOCK W cx) c' W (WriteState E a s' FLAGS_BLOCK W)"
proof -
  obtain st where st: "ReadState a FLAGS_BLOCK W = Some st" "State_eq E s st"
    using verify_state_facts [OF assms(2,1)] by blast
  have op: "ssOperation cp = ssOperation c'" using check_poststate_op [OF assms(3)] by simp
  have "restored E c W (WriteState E a s FLAGS_BLOCK ((WriteState E a s' FLAGS_BLOCK W)\<lparr>wContract := C\<rparr>))" for C
    by (rule restore_undone [OF assms(1) st assms(4)]) (simp_all add: ReadState_WriteState kept_def)
  then show ?thesis unfolding undoes_def restore_def assms(1) using op by auto
qed

lemma undo_write_ok:
  assumes "exec_write E FLAGS_BLOCK c W k = Inr (c', W', k')" and "verify_write E FLAGS_BLOCK W Map.empty c = Inr r"
    and pos: "sPos (ssOperation c) < 2 ^ 64" "sPos (ssRegister c) = 0"
  shows "undoes E c (\<lambda>W. undo_write E FLAGS_BLOCK W c) c' W W'"
proof -
  from assms(1) obtain c0 a c1 d c2 s c3 s' where
    v: "Write_Verify E c = Inr c0" and r: "op_word c0 = Inr (a, c1)" "op_vector c1 = Inr (d, c2)" and
    t: "take_prestate c2 = Inr (s, c3)" and k: "check_poststate E s' c3 = Inr c'" and w: "Write_Commit E s' a FLAGS_BLOCK W = Inr W'"
    unfolding exec_write_def by (elim rbind_pairE rbindE) simp
  have c0: "c0 = c" using Write_Verify_facts [OF v pos(1)] rpos_0 [OF pos(2)] by auto
  have "undo_write E FLAGS_BLOCK W c = restore E a FLAGS_BLOCK W c2" for W
    using r c0 skip_vector [OF r(2)] by (simp add: undo_write_def)
  moreover have "W' = WriteState E a s' FLAGS_BLOCK W" using w by (simp add: Write_Commit_def)
  ultimately show ?thesis using undoes_restore [OF t _ k, of _ _ _ _ _ c] assms(2) r c0 op_word_reg [OF r(1)] op_vector_reg [OF r(2)] by (simp add: verify_write_def)
qed

lemma undo_append_ok:
  assumes "exec_append E FLAGS_BLOCK c W k = Inr (c', W', k')" and "verify_append E FLAGS_BLOCK W Map.empty c = Inr r"
    and pos: "sPos (ssOperation c) < 2 ^ 64" "sPos (ssRegister c) = 0"
  shows "undoes E c (\<lambda>W. undo_write E FLAGS_BLOCK W c) c' W W'"
proof -
  from assms(1) obtain c0 a c1 d c2 s c3 s' where
    v: "Append_Verify E c = Inr c0" and r: "op_word c0 = Inr (a, c1)" "op_vector c1 = Inr (d, c2)" and
    t: "take_prestate c2 = Inr (s, c3)" and k: "check_poststate E s' c3 = Inr c'" and w: "Append_Commit E s' a FLAGS_BLOCK W = Inr W'"
    unfolding exec_append_def by (elim rbind_pairE rbindE if_InlE) simp
  have c0: "c0 = c" using Append_Verify_facts [OF v pos(1)] rpos_0 [OF pos(2)] by auto
  have "undo_write E FLAGS_BLOCK W c = restore E a FLAGS_BLOCK W c2" for W
    using r c0 skip_vector [OF r(2)] by (simp add: undo_write_def)
  moreover have "W' = WriteState E a s' FLAGS_BLOCK W" using w by (simp add: Append_Commit_def)
  ultimately show ?thesis using undoes_restore [OF t _ k, of _ _ _ _ _ c] assms(2) r c0 op_word_reg [OF r(1)] op_vector_reg [OF r(2)] by (simp add: verify_append_def)
qed

lemma undo_fee_ok:
  assumes "exec_fee E FLAGS_BLOCK c W k = Inr (c', W', k')" and "verify_fee E FLAGS_BLOCK W Map.empty c = Inr r"
    and pos: "sPos (ssOperation c) < 2 ^ 64" "sPos (ssRegister c) = 0"
  shows "undoes E c (\<lambda>W. undo_fee E FLAGS_BLOCK W c) c' W W'"
proof -
  from assms(1) obtain c0 a c1 n c2 s c3 ob where
    v: "Fee_Verify E c = Inr c0" and r: "op_word c0 = Inr (a, c1)" "op_word c1 = Inr (n :: u64, c2)" and
    t: "take_prestate c2 = Inr (s, c3)" and k: "check_poststate E (ob :: object) c3 = Inr c'" and w: "Fee_Commit E ob a FLAGS_BLOCK W = Inr W'"
    unfolding exec_fee_def by (elim rbind_pairE rbindE) simp
  have c0: "c0 = c" using Fee_Verify_facts [OF v pos(1)] rpos_0 [OF pos(2)] by auto
  have "undo_fee E FLAGS_BLOCK W c = restore E a FLAGS_BLOCK W c2" for W
    using r(1) c0 skip_word [OF r(2)] by (simp add: undo_fee_def)
  moreover have "W' = WriteState E a (State_of ob) FLAGS_BLOCK W" using w by (simp add: Fee_Commit_def)
  ultimately show ?thesis using undoes_restore [OF t _ k, of _ _ _ _ _ c] assms(2) r c0 op_word_reg [OF r(1)] op_word_reg [OF r(2)] by (simp add: verify_fee_def)
qed

text \<open>The size check of a creation reads the type byte; a type in range is a size of one byte, so that
  the check ends where it began.\<close>

lemma size_at_byte:
  assumes "op_word c = Inr (t :: u8, c')" and "unat t < 253"
    and "sPos (ssOperation c) \<le> length (sData (ssOperation c))" and "length (sData (ssOperation c)) < 2 ^ 63"
  shows "Contract_ReadCompactSize OPERATIONS c = Inr (unat t, c')"
proof -
  from assms(1) obtain bs s where r: "stream_read 1 (ssOperation c) = Inr (bs, s)" and c': "c' = c\<lparr>ssOperation := s\<rparr>"
    and t: "deser_word bs = t"
    unfolding op_word_def cop_lift_def read_word_def by (elim rbind_pairE) auto
  have "length bs = 1" using r assms(3,4) unfolding stream_read_def Let_def by (elim if_InlE) auto
  then obtain b where b: "bs = [b]" by (cases bs) auto
  then show ?thesis using r c' t assms(2)
    by (simp add: Contract_ReadCompactSize_def cop_lift_def ReadCompactSize_def MAX_SIZE_def)
qed

lemma Create_Verify_back:
  assumes "Create_Verify c = Inr c0" and "op_word c = Inr (a :: u256, c1)" and "op_word c1 = Inr (t :: u8, c2)"
    and "Range_type t" and pos: "sPos (ssOperation c) < 2 ^ 64" and len: "length (sData (ssOperation c)) < 2 ^ 63"
  shows "c0 = c"
proof -
  from assms(1) obtain c3 opx c4 where w: "Contract_Rewind 1 OPERATIONS c = Inr c3" "op_word c3 = Inr (opx :: u8, c4)"
    unfolding Create_Verify_def by (elim rbind_pairE rbindE) auto
  have c4: "c4 = c" using Rewind_pos [OF w(1)] op_word_pos [OF w(2)] pos by simp
  have t: "unat t < 253" "unat t \<le> 1024" using assms(4) by (simp_all add: Range_type_def word_less_nat_alt)
  have "Contract_Rewind (32 + GetSizeOfCompactSize (unat t)) OPERATIONS c2 = Inr c0"
    using assms(1,2) w c4 size_at_byte [OF assms(3) t(1)] op_word_in [OF assms(2)] op_word_pos [OF assms(2)] len t by (auto simp: Create_Verify_def split: if_splits)
  then show ?thesis
    using Rewind_pos op_word_pos [OF assms(2)] op_word_pos [OF assms(3)] pos t(1) by (force simp: GetSizeOfCompactSize_def)
qed

lemma undo_create_ok:
  assumes "exec_create E FLAGS_BLOCK c W k = Inr (c', W', k')" and "\<not> fClient E"
    and vr: "verify_create E m c = Inr r" and len: "length (sData (ssOperation c)) < 2 ^ 63"
    and pos: "sPos (ssOperation c) < 2 ^ 64" "sPos (ssRegister c) = 0"
  shows "undoes E c (\<lambda>W. undo_create FLAGS_BLOCK W c) c' W W'"
proof -
  from assms(1) obtain c0 a c1 t c2 d c3 s' k1 where v: "Create_Verify c = Inr c0" and
    r: "op_word c0 = Inr (a, c1)" "op_word c1 = Inr (t :: u8, c2)" "op_vector c2 = Inr (d, c3)" and
    k: "check_poststate E s' c3 = Inr c'" and w: "Create_Commit E s' a k1 FLAGS_BLOCK W = Inr (W', k')"
    unfolding exec_create_def Let_def by (elim rbind_pairE rbindE if_InlE) auto
  obtain a' c1' t' c2' where u: "op_word c = Inr (a' :: u256, c1')" "op_word c1' = Inr (t', c2')" "Range_type t'"
    using vr unfolding verify_create_def by (elim rbind_pairE rbindE) (auto simp: Create_Execute_def split: if_splits)
  have c0: "c0 = c" by (rule Create_Verify_back [OF v u pos(1) len])
  have "undo_create FLAGS_BLOCK W c = Inr (c3, EraseState a FLAGS_BLOCK W)" for W
    using r c0 skip_vector [OF r(3)] by (simp add: undo_create_def)
  moreover have W': "W' = WriteState E a s' FLAGS_BLOCK W" "ReadState a FLAGS_BLOCK W = None"
    using w assms(2) by (auto simp: Create_Commit_def HasState_def has_register_def ReadState_def read_register_def)
  ultimately show ?thesis using check_poststate_op [OF k]
    by (auto simp: undoes_def kept_def ReadState_EraseState ReadState_WriteState intro!: restored_same)
qed


text \<open>A contract whose script goes on behind the pre-state is compared at the end of the script.\<close>

lemma restore_op:
  assumes "take_prestate cx = Inr (s, cp)"
  shows "restore E a f W cx = Inr (cp, WriteState E a s f W)" and "ssOperation cp = ssOperation cx"
  using assms take_prestate_op [OF assms] by (simp_all add: restore_def)

lemma undo_legacy_ok:
  assumes "exec_legacy E FLAGS_BLOCK c W k = Inr (c', W', k')" and vr: "verify_legacy E FLAGS_BLOCK W Map.empty c = Inr r"
    and pos: "sPos (ssOperation c) < 2 ^ 64" "sPos (ssRegister c) = 0"
  shows "undoes E c (\<lambda>W. undo_legacy E FLAGS_BLOCK W c) c' W W'"
proof -
  from assms(1) obtain c0 a c1 n c2 s c3 ob c4 d where
    v: "Legacy_Verify E c = Inr c0" and r: "op_word c0 = Inr (a, c1)" "op_word c1 = Inr (n :: u64, c2)" and
    t: "take_prestate c2 = Inr (s, c3)" and k: "check_poststate E (ob :: object) c3 = Inr c4" and
    w: "Legacy_Commit E (State_of ob) a FLAGS_BLOCK W = Inr W'" and e: "op_vector c4 = Inr (d, c')"
    unfolding exec_legacy_def by (elim rbind_pairE rbindE) simp
  have c0: "c0 = c" using Legacy_Verify_facts [OF v pos(1)] rpos_0 [OF pos(2)] by auto
  have sr: "sPos (ssRegister c2) = 0" using op_word_pos [OF r(1)] op_word_pos [OF r(2)] c0 pos(2) by simp
  obtain p q where c34: "c3 = rpos p c2" "c4 = rpos q c2"
    using take_prestate_of [OF t sr] check_poststate_pos [OF k] by auto
  have vec: "op_vector (rpos q c2) = Inr (d, c')" using e c34 by simp
  then obtain ss where ss: "cop_lift (read_vector stream_read) c2 = Inr (d, c2\<lparr>ssOperation := ss\<rparr>)" "c' = (rpos q c2)\<lparr>ssOperation := ss\<rparr>"
    unfolding op_vector_def cop_lift_def by (elim rbind_pairE) auto
  let ?c = "c2\<lparr>ssOperation := ss\<rparr>"
  have tp: "take_prestate ?c = Inr (s, c3\<lparr>ssOperation := ss\<rparr>)"
    using t unfolding take_prestate_def reg_word_def reg_read_state_def creg_lift_def
    by (elim rbind_pairE if_InlE) auto
  from vr r c0 have "\<exists>r'. verify_state E True a (\<lambda>c. on_object (\<lambda>ob. Legacy_Execute E ob n (nTimestamp c))) FLAGS_BLOCK W Map.empty c2 = Inr r'"
    unfolding verify_legacy_def by auto
  then obtain st where st: "ReadState a FLAGS_BLOCK W = Some st" "State_eq E s st" using verify_state_facts(1) [OF _ t] by blast
  have "undo_legacy E FLAGS_BLOCK W c = Inr (c3\<lparr>ssOperation := ss\<rparr>, WriteState E a s FLAGS_BLOCK W)" for W
    using r(1) c0 skip_word [OF r(2)] ss(1) restore_op(1) [OF tp] by (simp add: undo_legacy_def op_vector_def)
  moreover have "W' = WriteState E a (State_of ob) FLAGS_BLOCK W" using w by (simp add: Legacy_Commit_def)
  moreover have "restored E c W (WriteState E a s FLAGS_BLOCK ((WriteState E a (State_of ob) FLAGS_BLOCK W)\<lparr>wContract := C\<rparr>))" for C
    by (rule restore_undone [OF tp st]) (use op_word_reg [OF r(1)] op_word_reg [OF r(2)] c0 in \<open>simp_all add: ReadState_WriteState kept_def\<close>)
  ultimately show ?thesis using ss(2) by (auto simp: undoes_def)
qed

lemma undo_transfer_ok:
  assumes "exec_transfer E FLAGS_BLOCK c W k = Inr (c', W', k')" and vr: "verify_transfer E FLAGS_BLOCK W Map.empty c = Inr r"
    and pos: "sPos (ssOperation c) < 2 ^ 64" "sPos (ssRegister c) = 0"
  shows "undoes E c (\<lambda>W. undo_transfer E FLAGS_BLOCK W c) c' W W'"
proof -
  from assms(1) obtain c0 a c1 b c2 t c3 s c4 s' h where
    v: "Transfer_Verify E c = Inr c0" and
    r: "op_word c0 = Inr (a, c1)" "op_word c1 = Inr (b, c2)" "op_word c2 = Inr (t :: u8, c3)" and
    tp: "take_prestate c3 = Inr (s, c4)" and k: "check_poststate E s' c4 = Inr c'" and
    w: "Transfer_Commit E s' h a b FLAGS_BLOCK W = Inr W'"
    unfolding exec_transfer_def Let_def by (elim rbind_pairE rbindE) simp
  have c0: "c0 = c" using Transfer_Verify_facts [OF v pos(1)] rpos_0 [OF pos(2)] by auto
  obtain st where st: "ReadState a FLAGS_BLOCK W = Some st" "State_eq E s st"
    using vr r c0 verify_state_facts(1) [OF _ tp] unfolding verify_transfer_def by fastforce
  have op: "ssOperation c4 = ssOperation c'" using check_poststate_op [OF k] by simp
  have u: "undo_transfer E FLAGS_BLOCK W c = (if b \<noteq> WILDCARD_ADDRESS then
      rbind (EraseEvent b (WriteState E a s FLAGS_BLOCK W)) (\<lambda>W. Inr (c4, W)) else Inr (c4, WriteState E a s FLAGS_BLOCK W))" for W
    using r(1,2) c0 skip_word [OF r(3)] restore_op(1) [OF tp] by (simp add: undo_transfer_def)
  have W': "W' = WriteState E a s' FLAGS_BLOCK (if b \<noteq> WILDCARD_ADDRESS then WriteEvent b h W else W)"
    using w by (simp add: Transfer_Commit_def)
  have rg: "ssRegister c3 = ssRegister c" using op_word_reg [OF r(1)] op_word_reg [OF r(2)] op_word_reg [OF r(3)] c0 by simp
  have "\<exists>V. (if b \<noteq> WILDCARD_ADDRESS then rbind (EraseEvent b (WriteState E a s FLAGS_BLOCK (W'\<lparr>wContract := C\<rparr>))) (\<lambda>W. Inr (c4, W))
      else Inr (c4, WriteState E a s FLAGS_BLOCK (W'\<lparr>wContract := C\<rparr>))) = Inr (c4, V) \<and> wContract V = C \<and> restored E c W V" for C
  proof (cases "b = WILDCARD_ADDRESS")
    case True
    have "restored E c W (WriteState E a s FLAGS_BLOCK (W'\<lparr>wContract := C\<rparr>))"
      by (rule restore_undone [OF tp st rg]) (use True in \<open>simp_all add: W' ReadState_WriteState kept_def\<close>)
    then show ?thesis using True by simp
  next
    case False
    obtain V where V: "EraseEvent b (WriteState E a s FLAGS_BLOCK (W'\<lparr>wContract := C\<rparr>)) = Inr V"
      and k: "\<And>x f. ReadState x f V = ReadState x f (WriteState E a s FLAGS_BLOCK (W'\<lparr>wContract := C\<rparr>))" "wContract V = C" "kept W V"
      by (rule event_undone [of "WriteState E a s FLAGS_BLOCK (W'\<lparr>wContract := C\<rparr>)" b h W])
        (use False in \<open>simp_all add: W' kept_def\<close>)
    have "restored E c W V"
      by (rule restored_by_prestate [OF recordedI [OF tp rg] st _ k(3)]) (use False in \<open>simp add: k W' ReadState_WriteState\<close>)
    then show ?thesis using V k False by simp
  qed
  then show ?thesis unfolding undoes_def u using op by (fastforce simp: W')
qed

lemma undo_claim_ok:
  assumes "exec_claim X E FLAGS_BLOCK c W k = Inr (c', W', k')" and vr: "verify_claim E FLAGS_BLOCK W Map.empty c = Inr r"
  shows "undoes E c (\<lambda>W. undo_claim E FLAGS_BLOCK W c) c' W W'"
proof -
  from assms(1) obtain h c1 n c2 a c3 s c4 s' where
    r: "op_word c = Inr (h, c1)" "op_word c1 = Inr (n, c2)" "op_word c2 = Inr (a, c3)" and
    tp: "take_prestate c3 = Inr (s, c4)" and k: "check_poststate E s' c4 = Inr c'" and w: "Claim_Commit E s' a h n FLAGS_BLOCK W = Inr W'"
    unfolding exec_claim_def by (elim rbind_pairE rbindE) simp
  have sk: "Contract_Seek 68 OPERATIONS STREAM_CURSOR c = Inr c2" using skip_read [OF skip_word [OF r(1)] r(2)] by simp
  obtain st where st: "ReadState a FLAGS_BLOCK W = Some st" "State_eq E s st"
    using vr r(3) sk verify_state_facts(1) [OF _ tp] unfolding verify_claim_def by fastforce
  have op: "ssOperation c4 = ssOperation c'" using check_poststate_op [OF k] by simp
  have W': "W' = WriteState E a s' FLAGS_BLOCK (WriteProof a h n FLAGS_BLOCK W)" "\<not> HasProof a h n FLAGS_BLOCK W"
    using w by (auto simp: Claim_Commit_def Let_def split: if_splits)
  have "undo_claim E FLAGS_BLOCK W c = Inr (c4, WriteState E a s FLAGS_BLOCK (EraseProof a h n FLAGS_BLOCK W))" for W
    using r restore_op(1) [OF tp] by (simp add: undo_claim_def)
  moreover have "restored E c W (WriteState E a s FLAGS_BLOCK (EraseProof a h n FLAGS_BLOCK (W'\<lparr>wContract := C\<rparr>)))" for C
    by (rule restore_undone [OF tp st]) (use W'(2) op_word_reg [OF r(1)] op_word_reg [OF r(2)] op_word_reg [OF r(3)] in
      \<open>auto simp: W'(1) kept_def ReadState_WriteState HasProof_EraseProof HasProof_WriteProof\<close>)
  ultimately show ?thesis using op by (auto simp: undoes_def W'(1))
qed

lemma undo_coinbase_ok:
  assumes "exec_coinbase E FLAGS_BLOCK v c W k = Inr (c', W', k')" and pos: "sPos (ssOperation c) < 2 ^ 64"
  shows "undoes E c (\<lambda>W. undo_coinbase FLAGS_BLOCK W c) c' W W'"
proof -
  from assms(1) obtain c0 g c1 where
    v: "Coinbase_Verify E c = Inr c0" and r: "op_word c0 = Inr (g :: u256, c1)" "Contract_Seek 16 OPERATIONS STREAM_CURSOR c1 = Inr c'"
    and W': "W' = (if hashCaller c' \<noteq> g then WriteEvent g (hashTx c') W else W)"
    unfolding exec_coinbase_def by (elim rbind_pairE rbindE if_InlE) (auto simp: Coinbase_Commit_def split: if_splits)
  have c0: "c0 = c"
    using v pos unfolding Coinbase_Verify_def
    by (elim rbind_pairE rbindE if_InlE) (auto dest!: Rewind_pos op_word_pos)
  have u: "undo_coinbase FLAGS_BLOCK W c = (if hashCaller c' \<noteq> g then rbind (EraseEvent g W) (\<lambda>W. Inr (c', W)) else Inr (c', W))" for W
    using r c0 by (simp add: undo_coinbase_def)
  have ev: "\<exists>V. EraseEvent g (W'\<lparr>wContract := C\<rparr>) = Inr V \<and> restored E c W V \<and> wContract V = C" if g: "hashCaller c' \<noteq> g" for C
  proof -
    obtain V where V: "EraseEvent g (W'\<lparr>wContract := C\<rparr>) = Inr V" "\<And>x f. ReadState x f V = ReadState x f (W'\<lparr>wContract := C\<rparr>)"
      "wContract V = C" "kept W V"
      by (rule event_undone [of "W'\<lparr>wContract := C\<rparr>" g "hashTx c'" W]) (use g in \<open>simp_all add: W' kept_def\<close>)
    have "restored E c W V" by (rule restored_same [OF _ V(4)]) (use g in \<open>simp add: V W'\<close>)
    with V show ?thesis by blast
  qed
  have "restored E c W (W'\<lparr>wContract := C\<rparr>)" if "hashCaller c' = g" for C
    by (rule restored_same) (use that in \<open>simp_all add: W' kept_def\<close>)
  then show ?thesis unfolding undoes_def u using ev by (fastforce simp: W')
qed

lemma undo_debit_ok:
  assumes "exec_debit E FLAGS_BLOCK c W k = Inr (c', W', k')" and vr: "verify_debit E FLAGS_BLOCK W Map.empty c = Inr r"
    and pos: "sPos (ssOperation c) < 2 ^ 64" "sPos (ssRegister c) = 0" and cl: "\<not> fClient E"
    and to: "\<And>a b n. debit_operands c = Inr (a, b, n) \<Longrightarrow> b \<noteq> WILDCARD_ADDRESS \<and> (\<forall>s. ReadState b FLAGS_BLOCK W = Some s \<longrightarrow> \<not> State_IsNull s)"
  shows "undoes E c (\<lambda>W. undo_debit E FLAGS_BLOCK W c) c' W W'"
proof -
  from assms(1) obtain c0 a c1 b c2 n c3 ref c4 s c5 ob h where
    v: "Debit_Verify E c = Inr c0" and
    r: "op_word c0 = Inr (a, c1)" "op_word c1 = Inr (b, c2)" "op_word c2 = Inr (n :: u64, c3)"
      "op_word c3 = Inr (ref :: u64, c4)" and
    tp: "take_prestate c4 = Inr (s, c5)" and k: "check_poststate E ob c5 = Inr c'" and
    w: "Debit_Commit E ob h a b FLAGS_BLOCK W = Inr W'"
    unfolding exec_debit_def by (elim rbind_pairE rbindE) simp
  have c0: "c0 = c" using Debit_Verify_facts [OF v pos(1)] rpos_0 [OF pos(2)] by auto
  obtain x a' ca b' cb where x: "verify_op OP_DEBIT c = Inr x" "op_word x = Inr (a' :: u256, ca)"
      "op_word ca = Inr (b' :: u256, cb)" "a' \<noteq> b'"
    using v unfolding Debit_Verify_def by (elim rbind_pairE rbindE if_InlE) simp
  have ab: "a \<noteq> b" using x verify_op_pos [OF x(1) pos(1)] rpos_0 [OF pos(2)] r(1,2) c0 by simp
  have b: "b \<noteq> WILDCARD_ADDRESS" and nn: "\<And>s. ReadState b FLAGS_BLOCK W = Some s \<Longrightarrow> \<not> State_IsNull s"
    using to r c0 by (auto simp: debit_operands_def)
  have sk: "Contract_Seek 16 OPERATIONS STREAM_CURSOR c2 = Inr c4" "Contract_Seek 32 OPERATIONS STREAM_CURSOR c1 = Inr c2"
    using skip_read [OF skip_word [OF r(3)] r(4)] skip_word [OF r(2)] by simp_all
  obtain st where st: "ReadState a FLAGS_BLOCK W = Some st" "State_eq E s st"
    using vr r c0 sk verify_state_facts(1) [OF _ tp] unfolding verify_debit_def by fastforce
  have op: "ssOperation c5 = ssOperation c'" using check_poststate_op [OF k] by simp
  obtain sb where sb: "ReadState b FLAGS_BLOCK W = Some sb"
    and W': "W' = WriteState E a (State_of ob) FLAGS_BLOCK (WriteEvent (hashOwner sb) h W)"
    using w b cl nn by (auto simp: Debit_Commit_def split: option.splits if_splits)
  have rb: "ReadState b FLAGS_BLOCK (WriteState E a s FLAGS_BLOCK (W'\<lparr>wContract := C\<rparr>)) = Some sb" for C
    using sb ab by (simp add: W' ReadState_WriteState)
  have u: "undo_debit E FLAGS_BLOCK (W'\<lparr>wContract := C\<rparr>) c =
      rbind (EraseEvent (hashOwner sb) (WriteState E a s FLAGS_BLOCK (W'\<lparr>wContract := C\<rparr>))) (\<lambda>W. Inr (c5, W))" for C
    using r(1,2) c0 sk restore_op(1) [OF tp] rb b by (simp add: undo_debit_def found_def)
  have rg: "ssRegister c4 = ssRegister c" using r [THEN op_word_reg] r(2-) [THEN op_word_reg] r(3-) [THEN op_word_reg] c0
    op_word_reg [OF r(4)] by simp
  have "\<exists>V. EraseEvent (hashOwner sb) (WriteState E a s FLAGS_BLOCK (W'\<lparr>wContract := C\<rparr>)) = Inr V \<and> restored E c W V \<and> wContract V = C" for C
  proof -
    let ?V = "WriteState E a s FLAGS_BLOCK (W'\<lparr>wContract := C\<rparr>)"
    obtain V where V: "EraseEvent (hashOwner sb) ?V = Inr V" "\<And>x f. ReadState x f V = ReadState x f ?V"
      "wContract V = C" "kept W V"
      by (rule event_undone [of ?V "hashOwner sb" h W]) (simp_all add: W' kept_def)
    have "restored E c W V"
      by (rule restored_by_prestate [OF recordedI [OF tp rg] st _ V(4)]) (simp add: V W' ReadState_WriteState)
    with V show ?thesis by blast
  qed
  then show ?thesis unfolding undoes_def u using op by (fastforce simp: W')
qed

text \<open>Trust accounts: the account lies at the address that belongs to its owner.\<close>

lemma disk_write_state [simp]: "disk (write_state E FLAGS_BLOCK a s d) = (disk d)(a \<mapsto> s)"
  by (auto simp: write_state_def disk_write_def mem_erase_def Let_def split: option.splits)

lemma zero_or_trans: "zero_or a b \<Longrightarrow> zero_or b d \<Longrightarrow> zero_or a d"
  by (auto simp: zero_or_def)

lemma kept_trans: "kept W V \<Longrightarrow> kept V U \<Longrightarrow> kept W U"
  unfolding kept_def using zero_or_trans by (safe; fastforce)

lemma restored_reads:
  assumes "restored E c W V" and "\<And>x. ReadState x FLAGS_BLOCK U = ReadState x FLAGS_BLOCK V" and "kept V U"
  shows "restored E c W U"
  using assms kept_trans [of W V U] by (simp add: restored_def)

lemma WriteTrust_reads:
  assumes "WriteTrust E g s W = Inr W'"
  obtains a where "Address_key E (str ''trust'') g ADDR_TRUST = Inr a"
    and "\<And>x. ReadState x FLAGS_BLOCK W' = (if x = a then Some s else ReadState x FLAGS_BLOCK W)"
    and "kept W W'" and "wContract W' = wContract W"
proof -
  from assms obtain a where a: "Address_key E (str ''trust'') g ADDR_TRUST = Inr a"
    and W': "W' = WriteState E a s FLAGS_BLOCK (W\<lparr>wRegister := (wRegister W)\<lparr>rStates := (rStates (wRegister W))\<lparr>pCommit := (pCommit (rStates (wRegister W)))(a := None)\<rparr>\<rparr>\<rparr>)"
    unfolding WriteTrust_def by (auto simp: Let_def)
  show thesis by (rule that [OF a]) (auto simp: W' ReadState_WriteState world_ops read_register_def kept_def)
qed

lemma finish_owner: "finish_account E t ob = Inr ob' \<Longrightarrow> hashOwner ob' = hashOwner ob"
  by (auto simp: finish_account_def Let_def)

lemma undo_trust_ok:
  assumes tp: "take_prestate cx = Inr (s, cp)" and k: "check_poststate E ob cp = Inr c'"
    and vr: "verify_state E True a g FLAGS_BLOCK W Map.empty cx = Inr r" and a: "trust_address E cx = Inr a"
    and w: "WriteTrust E (hashOwner s') s' W = Inr W1" and own: "hashOwner s' = hashOwner s" "hashCaller cp = hashCaller cx"
    and W': "\<And>x. ReadState x FLAGS_BLOCK W' = ReadState x FLAGS_BLOCK W1"
      "kept W1 W'" "wContract W' = wContract W1" and rg: "ssRegister cx = ssRegister c"
  shows "undoes E c (\<lambda>W. rbind (take_prestate cx) (\<lambda>(state, c). rbind (WriteTrust E (hashOwner state) state W) (\<lambda>W. Inr (c, W)))) c' W W'"
    and "undoes E c (\<lambda>W. rbind (take_prestate cx) (\<lambda>(state, c).
      rbind (Address_key E (str ''trust'') (hashOwner state) ADDR_TRUST) (\<lambda>hashAddress.
      Inr (c, EraseTrust (hashCaller c) (WriteState E hashAddress state FLAGS_BLOCK W))))) c' W W'"
proof -
  obtain st where st: "ReadState a FLAGS_BLOCK W = Some st" "State_eq E s st" and ow: "hashCaller cx = hashOwner s"
    using verify_state_facts [OF vr tp] own(2) by auto
  have ad: "Address_key E (str ''trust'') (hashOwner s) ADDR_TRUST = Inr a" using a ow by (simp add: trust_address_def)
  from w obtain b where b: "Address_key E (str ''trust'') (hashOwner s') ADDR_TRUST = Inr b"
    and W1: "\<And>x. ReadState x FLAGS_BLOCK W1 = (if x = b then Some s' else ReadState x FLAGS_BLOCK W)"
      "kept W W1" "wContract W1 = wContract W"
    by (rule WriteTrust_reads) blast
  have ba: "b = a" using b ad own by simp
  have op: "ssOperation cp = ssOperation c'" using check_poststate_op [OF k] by simp
  have kept: "kept W (W'\<lparr>wContract := C\<rparr>)" for C
    using kept_trans [OF W1(2) W'(2)] by (simp add: kept_def)
  have res: "restored E c W (WriteState E a s FLAGS_BLOCK (W'\<lparr>wContract := C\<rparr>))" for C
    by (rule restore_undone [OF tp st rg _ kept]) (auto simp: W' W1 ba)
  show "undoes E c (\<lambda>W. rbind (take_prestate cx) (\<lambda>(state, c).
      rbind (Address_key E (str ''trust'') (hashOwner state) ADDR_TRUST) (\<lambda>hashAddress.
      Inr (c, EraseTrust (hashCaller c) (WriteState E hashAddress state FLAGS_BLOCK W))))) c' W W'"
    unfolding undoes_def tp using ad op restored_reads [OF res] by (auto simp: W' W1 kept_def)
  have "\<exists>W''. WriteTrust E (hashOwner s) s (W'\<lparr>wContract := C\<rparr>) = Inr W'' \<and> restored E c W W'' \<and> wContract W'' = C" for C
  proof -
    obtain W'' where w2: "WriteTrust E (hashOwner s) s (W'\<lparr>wContract := C\<rparr>) = Inr W''"
      using ad by (simp add: WriteTrust_def Let_def)
    show ?thesis
    proof (rule WriteTrust_reads [OF w2])
      fix b assume b: "Address_key E (str ''trust'') (hashOwner s) ADDR_TRUST = Inr b"
        "\<And>x. ReadState x FLAGS_BLOCK W'' = (if x = b then Some s else ReadState x FLAGS_BLOCK (W'\<lparr>wContract := C\<rparr>))"
        "kept (W'\<lparr>wContract := C\<rparr>) W''" "wContract W'' = wContract (W'\<lparr>wContract := C\<rparr>)"
      have "restored E c W W''"
        by (rule restored_by_prestate [OF recordedI [OF tp rg] st]) (use b ad in \<open>auto simp: W' W1 ba intro: kept_trans [OF kept]\<close>)
      then show ?thesis using w2 b(4) by auto
    qed
  qed
  then show "undoes E c (\<lambda>W. rbind (take_prestate cx) (\<lambda>(state, c). rbind (WriteTrust E (hashOwner state) state W) (\<lambda>W. Inr (c, W)))) c' W W'"
    unfolding undoes_def tp using op by (fastforce simp: W' W1)
qed


lemma take_prestate_caller: "take_prestate c = Inr (s, c') \<Longrightarrow> hashCaller c' = hashCaller c"
  unfolding take_prestate_def reg_word_def reg_read_state_def creg_lift_def
  by (elim rbind_pairE if_InlE) auto

lemma Object_Parse_owner: "Object_Parse (Object_of s) = Inr ob \<Longrightarrow> hashOwner ob = hashOwner s"
  by (auto simp: Object_Parse_iff)

lemma Trust_Execute_owner: "Trust_Execute E (Object_of s) r sc ch t = Inr ob \<Longrightarrow> hashOwner ob = hashOwner s"
  unfolding Trust_Execute_def
  by (elim rbindE rbind_pairE) (auto simp: parse_trust_Inr dest!: finish_owner Object_Write_fields(5) Object_Parse_owner)

lemma Genesis_Execute_owner: "Genesis_Execute E (Object_of s) r t = Inr ob \<Longrightarrow> hashOwner ob = hashOwner s"
  unfolding Genesis_Execute_def
  by (elim rbindE rbind_pairE if_InlE) (auto simp: parse_trust_Inr dest!: finish_owner Object_Write_fields(5) Object_Parse_owner)

lemma undo_stake_ok:
  assumes sk: "Contract_Seek n OPERATIONS STREAM_CURSOR c = Inr c1" and
    r: "op_word c1 = Inr (sc :: u64, c2)" "op_word c2 = Inr (ch :: u64, c3)" "op_word c3 = Inr (rw :: u64, c4)" and
    tp: "take_prestate c4 = Inr (s, c5)" and e: "Trust_Execute E (Object_of s) rw sc ch t = Inr ob" and
    k: "check_poststate E ob c5 = Inr c'" and w: "Trust_Commit E (State_of ob) FLAGS_BLOCK W = Inr W'" and
    vr: "verify_trust E n FLAGS_BLOCK W Map.empty c = Inr rs"
  shows "undoes E c (\<lambda>W. undo_trust E (n + 24) W c) c' W W'"
proof -
  have sk': "Contract_Seek (n + 24) OPERATIONS STREAM_CURSOR c = Inr c4"
    using skip_read [OF skip_read [OF skip_read [OF sk r(1)] r(2)] r(3)] by (simp add: add.commute)
  have hc: "hashCaller c4 = hashCaller c" using Seek_pos [OF sk'] by simp
  obtain a g where a: "trust_address E c4 = Inr a" and vs: "verify_state E True a g FLAGS_BLOCK W Map.empty c4 = Inr rs"
    using vr sk r hc unfolding verify_trust_def trust_address_def by auto
  have wt: "WriteTrust E (hashOwner (State_of ob)) (State_of ob) W = Inr W'"
    using w by (auto simp: Trust_Commit_def split: if_splits)
  have ow: "hashOwner (State_of ob) = hashOwner s" using Trust_Execute_owner [OF e] by simp
  show ?thesis
    using undo_trust_ok(1) [OF tp k vs a wt ow take_prestate_caller [OF tp] refl kept_refl refl Seek_reg [OF sk']] sk'
    by (simp add: undo_trust_def)
qed

lemma undo_staking_ok:
  assumes sk: "Contract_Seek n OPERATIONS STREAM_CURSOR c = Inr c1 \<or> n = 0 \<and> c1 = c" and
    r: "op_word c1 = Inr (rw :: u64, c4)" and
    tp: "take_prestate c4 = Inr (s, c5)" and e: "Genesis_Execute E (Object_of s) rw t = Inr ob" and
    k: "check_poststate E ob c5 = Inr c'" and w: "Genesis_Commit E (State_of ob) FLAGS_BLOCK W = Inr W'" and
    vr: "verify_genesis E n FLAGS_BLOCK W Map.empty c = Inr rs" and pos: "sPos (ssOperation c) < 2 ^ 64"
  shows "undoes E c (\<lambda>W. undo_genesis E (n + 8) W c) c' W W'"
proof -
  have sk': "Contract_Seek (n + 8) OPERATIONS STREAM_CURSOR c = Inr c4"
    using sk skip_read [OF _ r] skip_word [OF r] by (auto simp: add.commute)
  have hc: "hashCaller c4 = hashCaller c" using Seek_pos [OF sk'] by simp
  have sk0: "(if n = 0 then Inr c else Contract_Seek n OPERATIONS STREAM_CURSOR c) = Inr c1"
    using sk Seek_pos [of 0 c c1] pos by auto
  obtain a g where a: "trust_address E c4 = Inr a" and vs: "verify_state E True a g FLAGS_BLOCK W Map.empty c4 = Inr rs"
    using vr r hc unfolding verify_genesis_def trust_address_def sk0 by auto
  obtain W1 b where wt: "WriteTrust E (hashOwner (State_of ob)) (State_of ob) W = Inr W1"
    and W': "W' = IndexTrust (hashOwner ob) b W1"
    using w by (auto simp: Genesis_Commit_def split: if_splits)
  have ow: "hashOwner (State_of ob) = hashOwner s" using Genesis_Execute_owner [OF e] by simp
  show ?thesis
    using undo_trust_ok(2) [OF tp k vs a wt ow take_prestate_caller [OF tp] _ _ _ Seek_reg [OF sk'], of W'] sk'
    by (simp add: undo_genesis_def W' kept_def)
qed

lemma undo_coinstakes:
  assumes pos: "sPos (ssOperation c) < 2 ^ 64" "sPos (ssRegister c) = 0"
  shows "exec_trust E FLAGS_BLOCK v c W k = Inr (c', W', k') \<Longrightarrow> verify_trust E 64 FLAGS_BLOCK W Map.empty c = Inr r \<Longrightarrow>
      undoes E c (\<lambda>W. undo_trust E 88 W c) c' W W'"
    and "exec_trustpool E FLAGS_BLOCK v c W k = Inr (c', W', k') \<Longrightarrow> verify_trust E 112 FLAGS_BLOCK W Map.empty c = Inr r \<Longrightarrow>
      undoes E c (\<lambda>W. undo_trust E 136 W c) c' W W'"
    and "exec_genesis E FLAGS_BLOCK v c W k = Inr (c', W', k') \<Longrightarrow> verify_genesis E 0 FLAGS_BLOCK W Map.empty c = Inr r \<Longrightarrow>
      undoes E c (\<lambda>W. undo_genesis E 8 W c) c' W W'"
    and "exec_genesispool E FLAGS_BLOCK v c W k = Inr (c', W', k') \<Longrightarrow> verify_genesis E 48 FLAGS_BLOCK W Map.empty c = Inr r \<Longrightarrow>
      undoes E c (\<lambda>W. undo_genesis E 56 W c) c' W W'"
proof -
  have at: "c0 = c" if "stake_verify opc E c = Inr c0" for opc c0
    using stake_verify_facts [OF that pos(1)] rpos_0 [OF pos(2)] by simp
  note sv = Trust_Verify_def Genesis_Verify_def Trustpool_Verify_def Genesispool_Verify_def
    Trustpool_Execute_def Genesispool_Execute_def Trustpool_Commit_def Genesispool_Commit_def
  show "undoes E c (\<lambda>W. undo_trust E 88 W c) c' W W'"
    if x: "exec_trust E FLAGS_BLOCK v c W k = Inr (c', W', k')" and vr: "verify_trust E 64 FLAGS_BLOCK W Map.empty c = Inr r"
    using x unfolding exec_trust_def sv
    by (elim rbind_pairE rbindE if_InlE) (drule at, use undo_stake_ok [OF _ _ _ _ _ _ _ _ vr] in auto)
  show "undoes E c (\<lambda>W. undo_trust E 136 W c) c' W W'"
    if x: "exec_trustpool E FLAGS_BLOCK v c W k = Inr (c', W', k')" and vr: "verify_trust E 112 FLAGS_BLOCK W Map.empty c = Inr r"
    using x unfolding exec_trustpool_def sv
    by (elim rbind_pairE rbindE if_InlE) (drule at, use undo_stake_ok [OF _ _ _ _ _ _ _ _ vr] in auto)
  show "undoes E c (\<lambda>W. undo_genesis E 8 W c) c' W W'"
    if x: "exec_genesis E FLAGS_BLOCK v c W k = Inr (c', W', k')" and vr: "verify_genesis E 0 FLAGS_BLOCK W Map.empty c = Inr r"
    using x unfolding exec_genesis_def sv
    by (elim rbind_pairE rbindE if_InlE) (drule at, use undo_staking_ok [OF disjI2 [OF conjI [OF refl refl]] _ _ _ _ _ vr pos(1)] in auto)
  show "undoes E c (\<lambda>W. undo_genesis E 56 W c) c' W W'"
    if x: "exec_genesispool E FLAGS_BLOCK v c W k = Inr (c', W', k')" and vr: "verify_genesis E 48 FLAGS_BLOCK W Map.empty c = Inr r"
    using x unfolding exec_genesispool_def sv
    by (elim rbind_pairE rbindE if_InlE) (drule at, use undo_staking_ok [OF _ _ _ _ _ _ vr pos(1)] in auto)
qed

end
