(* ===== verification/Rollback_Whole.thy ===== *)
theory Rollback_Whole
  imports Rollback_Laws
begin

text \<open>
  Rolling back credits and migrations, and the whole contract: what \<open>Execute\<close> did on a block is
  undone by \<open>Rollback\<close>, prefix included.
\<close>

section \<open>Credits\<close>

lemma Ledger_ReadContract_cong:
  assumes "lTx (wLedger W') = lTx (wLedger W)" and "wLegacyTx W' = wLegacyTx W"
  shows "Ledger_ReadContract E h n FLAGS_BLOCK W' = Ledger_ReadContract E h n FLAGS_BLOCK W"
  using assms by (simp add: Ledger_ReadContract_def ReadTx_def Legacy_ReadOutputs_def)

lemma op_word_data: "op_word c = Inr (w :: 'a::len word, c') \<Longrightarrow> sData (ssOperation c') = sData (ssOperation c)"
  by (auto dest!: op_word_pos)

lemma take_prestate_data: "take_prestate c = Inr (s, c') \<Longrightarrow> sData (ssOperation c') = sData (ssOperation c)"
  by (simp add: take_prestate_op)

lemma credit_done_data: "credit_done c d = Inr (c', d') \<Longrightarrow> sData (ssOperation d') = sData (ssOperation d)"
  by (auto simp: credit_done_def Contract_Reset_def flag_set_def seek_op_def seek_cond_def seek_reg_def stream_seek_def)

lemma credit_direct_data:
  "credit_direct c d h k x b p m f W = Inr (c', d') \<Longrightarrow> sData (ssOperation d') = sData (ssOperation d)"
  unfolding credit_direct_def
  by (elim rbind_pairE if_InlE) (auto split: if_splits option.splits dest!: credit_done_data op_word_data)

lemma credit_utxo_data:
  "credit_utxo c d x b a p m = Inr (c', d') \<Longrightarrow> sData (ssOperation d') = sData (ssOperation d)"
  unfolding credit_utxo_def
  by (elim rbind_pairE if_InlE) (auto dest!: credit_done_data op_word_data)

lemma credit_partial_data:
  "credit_partial c d h k b p m f W = Inr (c', d') \<Longrightarrow> sData (ssOperation d') = sData (ssOperation d)"
  unfolding credit_partial_def Let_def
  by (elim rbind_pairE rbindE if_InlE) (auto dest!: credit_done_data op_word_data)

lemma credit_coinbase_data:
  "credit_coinbase c d ac p m = Inr (c', d') \<Longrightarrow> sData (ssOperation d') = sData (ssOperation d)"
  unfolding credit_coinbase_def
  by (elim rbind_pairE rbindE if_InlE) (auto dest!: credit_done_data op_word_data)

lemma credit_debit_data:
  assumes "credit_debit c d ac h k a p m f W = Inr (c', d')"
  shows "sData (ssOperation d') = sData (ssOperation d)"
proof -
  from assms obtain x d1 b d2 where o: "op_word d = Inr (x :: u256, d1)" "op_word d1 = Inr (b :: u256, d2)"
    and r: "(if x = WILDCARD_ADDRESS then credit_utxo c d2 x b a p m
     else rbind (take_prestate d2) (\<lambda>(stateFrom, debit).
     rbind (or_error ''failed to parse account from'' (Object_Parse (Object_of stateFrom))) (\<lambda>accountFrom.
     rbind (Object_Base accountFrom) (\<lambda>base.
     if base \<noteq> OBJECTS_ACCOUNT then Inl (Reject ''debit from must have a base account object'')
     else rbind (Object_get name_token accountFrom) (\<lambda>tf :: u256.
     rbind (Object_get name_token ac) (\<lambda>ta :: u256.
     if tf \<noteq> ta then Inl (Reject ''credit can't be of different identifier'')
     else if b = a \<or> b = WILDCARD_ADDRESS \<or> (x = a \<and> p = a) then
       credit_direct c debit h k x b p m f W
     else credit_partial c debit h k b p m f W)))))) = Inr (c', d')"
    unfolding credit_debit_def by (elim rbind_pairE if_InlE)
  have "sData (ssOperation d') = sData (ssOperation d2)"
    using r by (auto elim!: rbind_pairE rbindE if_InlE simp del: rbind_eq_Inr split: if_splits
      dest!: credit_utxo_data credit_direct_data credit_partial_data take_prestate_data)
  then show ?thesis using o [THEN op_word_data] by simp
qed

lemma SeekToPrimitive_data: "SeekToPrimitive c = Inr c' \<Longrightarrow> sData (ssOperation c') = sData (ssOperation c)"
  by (auto simp: SeekToPrimitive_def seek_op_def stream_seek_def Let_def split: if_splits)

text \<open>Where a credit has been checked: the contract goes on behind its operands, the debit is
  rewound.\<close>

lemma Credit_Verify_back:
  assumes v: "Credit_Verify c d f W = Inr (c', d')" and pos: "sPos (ssOperation c) = 141" "sPos (ssRegister c) = 0"
  shows "c' = c" and "sData (ssOperation d') = sData (ssOperation d)"
proof -
  have st: "rpos 0 (c\<lparr>ssOperation := (ssOperation c)\<lparr>sPos := 0\<rparr>\<rparr>) = start c0" if "c = opos 141 (start c0)" for c0
    using that by (simp add: opos_def rpos_def start_def)
  from v obtain opx c1 h c2 n c3 a c4 p c5 m c6 s c7 ac d1 opd d2 where
    r: "op_word (rpos 0 (c\<lparr>ssOperation := (ssOperation c)\<lparr>sPos := 0\<rparr>\<rparr>)) = Inr (opx :: u8, c1)"
      "op_word c1 = Inr (h :: u512, c2)" "op_word c2 = Inr (n :: u32, c3)" "op_word c3 = Inr (a :: u256, c4)"
      "op_word c4 = Inr (p :: u256, c5)" "op_word c5 = Inr (m :: u64, c6)" and
    t: "take_prestate c6 = Inr (s, c7)" and sk: "SeekToPrimitive d = Inr d1" "op_word d1 = Inr (opd, d2)" and
    e: "(if opd = OP_COINBASE then credit_coinbase c7 d2 ac p m
     else if opd \<noteq> OP_DEBIT then Inl (Reject ''tx claim is not a debit'')
     else credit_debit c7 d2 ac h n a p m f W) = Inr (c', d')"
    unfolding Credit_Verify_def by (simp only: Reset_OPERATIONS Reset_REGISTERS rbind_Inr) (elim rbind_pairE rbindE if_InlE, simp)
  define c0 where "c0 = rpos 0 (c\<lparr>ssOperation := (ssOperation c)\<lparr>sPos := 0\<rparr>\<rparr>)"
  have c6: "c6 = opos 141 c0"
    using r [THEN op_word_pos] r(2-) [THEN op_word_pos] r(3-) [THEN op_word_pos] r(4-) [THEN op_word_pos]
    by (simp add: c0_def)
  have c60: "c6 = c" unfolding c6 c0_def using pos by (simp add: opos_def rpos_def)
  obtain q where "c7 = rpos q c6" using take_prestate_of [OF t] pos c60 by auto
  moreover have "c' = rpos 0 c7"
    using e by (auto split: if_splits dest: credit_coinbase_pos credit_debit_pos)
  ultimately show "c' = c" using c60 rpos_0 [OF pos(2)] by simp
  show "sData (ssOperation d') = sData (ssOperation d)"
    using e SeekToPrimitive_data [OF sk(1)] op_word_data [OF sk(2)]
    by (auto split: if_splits dest!: credit_coinbase_data credit_debit_data)
qed

definition claimed :: "u512 \<Rightarrow> u32 \<Rightarrow> u8 \<Rightarrow> world \<Rightarrow> u64" where
  "claimed h n f W = (case ReadClaimed h n f W of Some k \<Rightarrow> k | None \<Rightarrow> 0)"

lemma claimed_other [simp]:
  "claimed h n f (WriteProof p h' n' g W) = claimed h n f W" "claimed h n f (W\<lparr>wContract := C\<rparr>) = claimed h n f W"
  by (simp_all add: claimed_def)

lemma claimed_WriteClaimed:
  "claimed h' n' FLAGS_BLOCK (WriteClaimed h n m FLAGS_BLOCK W) = (if (h', n') = (h, n) then m else claimed h' n' FLAGS_BLOCK W)"
  by (auto simp: claimed_def ReadClaimed_WriteClaimed)

lemma claims_undone:
  assumes c: "credit_claimed d' h n m FLAGS_BLOCK W1 = Inr W2" and d: "sData (ssOperation d') = sData (ssOperation d)" "start d = d"
    and wrap: "unat (claimed h n FLAGS_BLOCK W1) + unat m < 2 ^ 64"
  shows "(\<forall>V. undo_claimed d h n m FLAGS_BLOCK V = Inr V) \<and> W2 = W1 \<or>
    W2 = WriteClaimed h n (claimed h n FLAGS_BLOCK W1 + m) FLAGS_BLOCK W1 \<and>
    (\<forall>V. ReadClaimed h n FLAGS_BLOCK V = Some (claimed h n FLAGS_BLOCK W1 + m) \<longrightarrow>
      undo_claimed d h n m FLAGS_BLOCK V = Inr (WriteClaimed h n (claimed h n FLAGS_BLOCK W1) FLAGS_BLOCK V))"
proof -
  have so: "ssOperation (start d') = ssOperation d" using d(1) by (subst d(2) [symmetric]) (simp add: start_def)
  have nw: "\<not> claimed h n FLAGS_BLOCK W1 + m < m"
    using wrap no_olen_add_nat [of "claimed h n FLAGS_BLOCK W1" m] by (simp add: word_less_nat_alt unat_word_ariths)
  from c obtain t e1 where t: "op_word (start d') = Inr (t :: u8, e1)" and
    rest: "(if t = OP_DEBIT then
       rbind (op_word e1) (\<lambda>(hashFrom :: u256, debit).
       rbind (op_word debit) (\<lambda>(hashTo :: u256, debit).
       if IsObject hashTo then Inr (WriteClaimed h n (claimed h n FLAGS_BLOCK W1 + m) FLAGS_BLOCK W1) else Inr W1)) else Inr W1) = Inr W2"
    unfolding credit_claimed_def Let_def claimed_def by (simp only: Reset_ALL rbind_Inr) (elim rbind_pairE)
  obtain u1 where u: "op_word d = Inr (t, u1)" "ssOperation u1 = ssOperation e1"
    using t so by (auto simp: op_word_def cop_lift_def elim!: rbind_pairE simp del: rbind_eq_Inr)
  show ?thesis
  proof (cases "t = OP_DEBIT")
    case False
    then show ?thesis using rest u(1) by (simp add: undo_claimed_def)
  next
    case True
    with rest obtain x e2 b e3 where e: "op_word e1 = Inr (x :: u256, e2)" "op_word e2 = Inr (b :: u256, e3)"
      and W2: "(if IsObject b then Inr (WriteClaimed h n (claimed h n FLAGS_BLOCK W1 + m) FLAGS_BLOCK W1) else Inr W1) = (Inr W2 :: world res)"
      by (auto elim!: rbind_pairE simp del: rbind_eq_Inr)
    obtain u2 where u2: "op_word u1 = Inr (x, u2)" "ssOperation u2 = ssOperation e2"
      using e(1) u(2) by (auto simp: op_word_def cop_lift_def elim!: rbind_pairE simp del: rbind_eq_Inr)
    obtain u3 where u3: "op_word u2 = Inr (b, u3)"
      using e(2) u2(2) by (auto simp: op_word_def cop_lift_def elim!: rbind_pairE simp del: rbind_eq_Inr)
    have "undo_claimed d h n m FLAGS_BLOCK V = (if IsObject b then
         rbind (found ''failed to read claimed amount'' (ReadClaimed h n FLAGS_BLOCK V)) (\<lambda>nClaimed.
         if nClaimed < m then Inl (Reject ''amount larger than claimed'')
         else Inr (WriteClaimed h n (nClaimed - m) FLAGS_BLOCK V)) else Inr V)" for V
      using True u(1) u2(1) u3 by (simp add: undo_claimed_def)
    then show ?thesis using W2 nw by (cases "IsObject b") (auto simp: found_def)
  qed
qed


lemma undo_credit_ok:
  assumes "exec_credit X E FLAGS_BLOCK c W k = Inr (c', W', k')" and vr: "verify_credit E FLAGS_BLOCK W Map.empty c = Inr r"
    and pos: "sPos (ssOperation c) = 1" "sPos (ssRegister c) = 0" and cl: "\<not> fClient E"
    and wrap: "\<And>h n a p m. credit_operands c = Inr (h, n, a, p, m) \<Longrightarrow> unat (claimed h n FLAGS_BLOCK W) + unat m < 2 ^ 64"
  shows "undoes E c (\<lambda>W. undo_credit E FLAGS_BLOCK W c) c' W W'"
proof -
  from assms(1) cl obtain h c1 n c2 a c3 p c4 m c5 d c6 d' s c7 ob where
    r: "op_word c = Inr (h :: u512, c1)" "op_word c1 = Inr (n :: u32, c2)" "op_word c2 = Inr (a :: u256, c3)"
      "op_word c3 = Inr (p :: u256, c4)" "op_word c4 = Inr (m :: u64, c5)" and
    ld: "Ledger_ReadContract E h n FLAGS_BLOCK W = Inr d" and cv: "Credit_Verify c5 d FLAGS_BLOCK W = Inr (c6, d')" and
    tp: "take_prestate c6 = Inr (s, c7)" and k: "check_poststate E ob c7 = Inr c'" and
    cm: "Credit_Commit E ob d' a p h n m FLAGS_BLOCK W = Inr W'"
    unfolding exec_credit_def by (auto elim!: rbind_pairE rbindE simp del: rbind_eq_Inr)
  have "c5 = opos 140 c"
    using r [THEN op_word_pos] r(2-) [THEN op_word_pos] r(3-) [THEN op_word_pos] r(4-) [THEN op_word_pos] by simp
  then have "sPos (ssOperation c5) = 141" "sPos (ssRegister c5) = 0" using pos by (simp_all add: opos_def)
  note bk = Credit_Verify_back [OF cv this]
  have tp: "take_prestate c5 = Inr (s, c7)" using tp bk(1) by simp
  have co: "credit_operands c = Inr (h, n, a, p, m)" using r by (simp add: credit_operands_def)
  have sk: "Contract_Seek 68 OPERATIONS STREAM_CURSOR c = Inr c2" "Contract_Seek 32 OPERATIONS STREAM_CURSOR c3 = Inr c4"
    using skip_read [OF skip_word [OF r(1)] r(2)] skip_word [OF r(4)] by simp_all
  obtain st where st: "ReadState a FLAGS_BLOCK W = Some st" "State_eq E s st"
    using vr r sk verify_state_facts(1) [OF _ tp] unfolding verify_credit_def by fastforce
  have op: "ssOperation c7 = ssOperation c'" using check_poststate_op [OF k] by simp
  define W1 where "W1 = WriteProof p h n FLAGS_BLOCK W"
  obtain W2 where np: "\<not> HasProof p h n FLAGS_BLOCK W" and cc: "credit_claimed d' h n m FLAGS_BLOCK W1 = Inr W2"
    and W': "W' = WriteState E a (State_of ob) FLAGS_BLOCK W2"
    using cm cl unfolding Credit_Commit_def Let_def W1_def by (elim rbindE if_InlE) simp
  have "unat (claimed h n FLAGS_BLOCK W1) + unat m < 2 ^ 64" using wrap [OF co] by (simp add: W1_def)
  note cu = claims_undone [OF cc bk(2) Ledger_ReadContract_start [OF ld] this]
  define V where "V C = WriteState E a s FLAGS_BLOCK (EraseProof p h n FLAGS_BLOCK (W'\<lparr>wContract := C\<rparr>))" for C
  have ld': "Ledger_ReadContract E h n FLAGS_BLOCK (V C) = Inr d" for C
  proof -
    have "lTx (wLedger W2) = lTx (wLedger W)" "wLegacyTx W2 = wLegacyTx W"
      using cu by (auto simp: W1_def world_ops)
    then show ?thesis using Ledger_ReadContract_cong [of "V C" W] ld by (simp add: V_def W' world_ops)
  qed
  have u: "undo_credit E FLAGS_BLOCK (W'\<lparr>wContract := C\<rparr>) c = rbind (undo_claimed d h n m FLAGS_BLOCK (V C)) (\<lambda>W. Inr (c7, W))" for C
    using r restore_op(1) [OF tp] ld' by (simp add: undo_credit_def V_def)
  have rg: "ssRegister c5 = ssRegister c"
    using r [THEN op_word_reg] r(2-) [THEN op_word_reg] r(3-) [THEN op_word_reg] r(4-) [THEN op_word_reg] op_word_reg [OF r(5)] by simp
  have pfs: "HasProof q h' n' FLAGS_BLOCK (V C) = HasProof q h' n' FLAGS_BLOCK W" for q h' n' C
    using cu np by (auto simp: V_def W' W1_def HasProof_EraseProof HasProof_WriteProof)
  have rest: "ReadSequence x (V C) = ReadSequence x W" "lTx (wLedger (V C)) = lTx (wLedger W)" "wLegacyTx (V C) = wLegacyTx W" for x C
    using cu by (auto simp: V_def W' W1_def)
  have sts: "ReadState x FLAGS_BLOCK (V C) = (if x = a then Some s else ReadState x FLAGS_BLOCK W)" for x C
    using cu by (auto simp: V_def W' W1_def ReadState_WriteState)
  have clm: "ReadClaimed h' n' FLAGS_BLOCK (V C) = ReadClaimed h' n' FLAGS_BLOCK W2" "wContract (V C) = C" for h' n' C
    by (simp_all add: V_def W')
  have "\<exists>U. undo_claimed d h n m FLAGS_BLOCK (V C) = Inr U \<and> wContract U = C \<and> restored E c W U" for C
    using cu
  proof (elim disjE conjE)
    assume a: "\<forall>V. undo_claimed d h n m FLAGS_BLOCK V = Inr V" and "W2 = W1"
    then have "kept W (V C)" using pfs rest clm by (simp add: kept_def W1_def)
    then have "restored E c W (V C)" by (rule restored_by_prestate [OF recordedI [OF tp rg] st sts])
    then show ?thesis using a clm by simp
  next
    let ?n = "claimed h n FLAGS_BLOCK W1"
    assume W2: "W2 = WriteClaimed h n (?n + m) FLAGS_BLOCK W1" and
      all: "\<forall>V. ReadClaimed h n FLAGS_BLOCK V = Some (?n + m) \<longrightarrow>
        undo_claimed d h n m FLAGS_BLOCK V = Inr (WriteClaimed h n ?n FLAGS_BLOCK V)"
    have "ReadClaimed h n FLAGS_BLOCK (V C) = Some (?n + m)" by (simp add: clm W2 ReadClaimed_WriteClaimed)
    with all have u: "undo_claimed d h n m FLAGS_BLOCK (V C) = Inr (WriteClaimed h n ?n FLAGS_BLOCK (V C))" by blast
    have "zero_or (ReadClaimed h' n' FLAGS_BLOCK W) (ReadClaimed h' n' FLAGS_BLOCK (WriteClaimed h n ?n FLAGS_BLOCK (V C)))" for h' n'
      by (auto simp: ReadClaimed_WriteClaimed clm W2 W1_def claimed_def zero_or_def split: option.splits)
    then have "kept W (WriteClaimed h n ?n FLAGS_BLOCK (V C))" using pfs rest by (simp add: kept_def)
    then have "restored E c W (WriteClaimed h n ?n FLAGS_BLOCK (V C))"
      by (rule restored_by_prestate [OF recordedI [OF tp rg] st, rotated]) (simp add: sts)
    then show ?thesis using u clm by simp
  qed
  then show ?thesis unfolding undoes_def u using op cu by (fastforce simp: W' W1_def)
qed

section \<open>Migrations\<close>

lemma undo_migrate_ok:
  assumes "exec_migrate X E FLAGS_BLOCK c W k = Inr (c', W', k')" and vr: "verify_migrate E FLAGS_BLOCK W Map.empty c = Inr r"
    and at: "c = opos 1 (start c)" and cl: "\<not> fClient E"
  shows "undoes E c (\<lambda>W. undo_migrate E FLAGS_BLOCK W c) c' W W'"
proof -
  from assms(1) obtain h e1 c1 a c2 t c3 m c4 sc c5 la c6 s c7 ob where
    r: "op_word c = Inr (h :: u512, e1)" and sk0: "Contract_Seek 65 OPERATIONS STREAM_CURSOR (start e1) = Inr c1" and
    q: "op_word c1 = Inr (a :: u256, c2)" "op_word c2 = Inr (t :: u576, c3)" "op_word c3 = Inr (m :: u64, c4)"
      "op_word c4 = Inr (sc :: u32, c5)" "op_word c5 = Inr (la :: u512, c6)" and
    tp: "take_prestate c6 = Inr (s, c7)" and k: "check_poststate E ob c7 = Inr c'" and
    cm: "Migrate_Commit E ob a (hashCaller c') h t la FLAGS_BLOCK W = Inr W'"
    unfolding exec_migrate_def by (simp only: Reset_ALL rbind_Inr) (elim rbind_pairE rbindE, simp)
  have e1: "e1 = opos 64 c" using op_word_pos [OF r] by simp
  have "start e1 = start c" unfolding e1 by (simp add: start_def opos_def)
  then have "c1 = opos 65 (start c)" using Seek_pos [OF sk0] by simp
  moreover have "e1 = opos 65 (start c)" unfolding e1 by (subst at) simp
  ultimately have c1: "c1 = e1" by simp
  have sk: "Contract_Seek 64 OPERATIONS STREAM_CURSOR c = Inr c1" "Contract_Seek 72 OPERATIONS STREAM_CURSOR c2 = Inr c3"
    "Contract_Seek 64 OPERATIONS STREAM_CURSOR c5 = Inr c6" "Contract_Seek 76 OPERATIONS STREAM_CURSOR c3 = Inr c6"
    using skip_word [OF r] skip_word [OF q(2)] skip_word [OF q(5)] c1
      skip_read [OF skip_read [OF skip_word [OF q(3)] q(4)] q(5)] by simp_all
  obtain st where st: "ReadState a FLAGS_BLOCK W = Some st" "State_eq E s st"
    using vr q(1,3,4) sk(1-3) verify_state_facts(1) [OF _ tp] unfolding verify_migrate_def by fastforce
  have op: "ssOperation c7 = ssOperation c'" using check_poststate_op [OF k] by simp
  have np: "\<not> HasProof WILDCARD_ADDRESS h 0 FLAGS_BLOCK W" and
    W': "W' = WriteTrustConversion t (WriteStake (hashCaller c') la (IndexTrust (hashCaller c') a
      (WriteState E a (State_of ob) FLAGS_BLOCK (WriteProof WILDCARD_ADDRESS h 0 FLAGS_BLOCK W))))"
    using cm cl by (auto simp: Migrate_Commit_def Let_def split: if_splits)
  have u: "undo_migrate E FLAGS_BLOCK V c = Inr (c7, EraseTrustConversion t (EraseStake (hashCaller c7) (EraseTrust (hashCaller c7)
      (EraseProof WILDCARD_ADDRESS h 0 FLAGS_BLOCK (WriteState E a s FLAGS_BLOCK V)))))" for V
    using r q(1,2) c1 sk(4) restore_op(1) [OF tp] by (simp add: undo_migrate_def)
  have rg: "ssRegister c6 = ssRegister c"
    using q [THEN op_word_reg] q(2-) [THEN op_word_reg] q(3-) [THEN op_word_reg] q(4-) [THEN op_word_reg] op_word_reg [OF q(5)]
      op_word_reg [OF r] c1 by simp
  have "restored E c W (EraseTrustConversion t (EraseStake b (EraseTrust b
      (EraseProof WILDCARD_ADDRESS h 0 FLAGS_BLOCK (WriteState E a s FLAGS_BLOCK (W'\<lparr>wContract := C\<rparr>))))))" for b C
    by (rule restored_by_prestate [OF recordedI [OF tp rg] st])
      (use np in \<open>auto simp: W' kept_def ReadState_WriteState HasProof_EraseProof HasProof_WriteProof\<close>)
  moreover have "wContract W' = wContract W" by (simp add: W')
  ultimately show ?thesis unfolding undoes_def u using op by simp
qed

section \<open>Every primitive\<close>

text \<open>What the undoing relies on beyond the checks: a debit has a recipient with a register, and
  the claimed amount of a debit did not wrap around when it was increased.\<close>

definition undoable :: "u8 \<Rightarrow> contract \<Rightarrow> world \<Rightarrow> bool" where
  "undoable nOP c W \<longleftrightarrow>
     (nOP = OP_DEBIT \<longrightarrow> (case debit_operands c of Inr (a, b, n) \<Rightarrow>
        b \<noteq> WILDCARD_ADDRESS \<and> (case ReadState b FLAGS_BLOCK W of Some s \<Rightarrow> \<not> State_IsNull s | None \<Rightarrow> True)
      | Inl _ \<Rightarrow> True)) \<and>
     (nOP = OP_CREDIT \<longrightarrow> (case credit_operands c of Inr (h, n, a, p, m) \<Rightarrow>
        unat (claimed h n FLAGS_BLOCK W) + unat m < 2 ^ 64
      | Inl _ \<Rightarrow> True))"

lemma undo_primitive_ok:
  assumes ex: "exec_primitive X E FLAGS_BLOCK nOP v c W k = Inr (c', W', k')"
    and vr: "verify_primitive E FLAGS_BLOCK W Map.empty nOP c = Inr r"
    and pos: "sPos (ssOperation c) < 2 ^ 64" "sPos (ssRegister c) = 0" and len: "length (sData (ssOperation c)) < 2 ^ 63"
    and cl: "\<not> fClient E" and un: "undoable nOP c W"
    and at: "nOP = OP_CREDIT \<or> nOP = OP_MIGRATE \<Longrightarrow> c = opos 1 (start c)"
  shows "undoes E c (\<lambda>W. undo_primitive E FLAGS_BLOCK W nOP c) c' W W'"
proof -
  note d = exec_primitive_def verify_primitive_def undo_primitive_def
  have p1: "sPos (ssOperation c) = 1" if "c = opos 1 (start c)"
    by (subst that) (simp add: opos_def)
  consider "nOP = OP_WRITE" | "nOP = OP_APPEND" | "nOP = OP_CREATE" | "nOP = OP_TRANSFER" | "nOP = OP_CLAIM"
    | "nOP = OP_COINBASE" | "nOP = OP_TRUST" | "nOP = OP_GENESIS" | "nOP = OP_TRUSTPOOL" | "nOP = OP_GENESISPOOL"
    | "nOP = OP_DEBIT" | "nOP = OP_CREDIT" | "nOP = OP_MIGRATE" | "nOP = OP_FEE" | "nOP = 0x03" | "nOP = OP_LEGACY"
    using ex unfolding exec_primitive_def by (auto split: if_splits)
  then show ?thesis
  proof cases
    case 1 show ?thesis using undo_write_ok [OF _ _ pos] ex vr by (simp add: d 1)
  next
    case 2 show ?thesis using undo_append_ok [OF _ _ pos] ex vr by (simp add: d 2)
  next
    case 3 show ?thesis using undo_create_ok [OF _ cl _ len pos] ex vr by (simp add: d 3)
  next
    case 4 show ?thesis using undo_transfer_ok [OF _ _ pos] ex vr by (simp add: d 4)
  next
    case 5 show ?thesis using undo_claim_ok ex vr by (simp add: d 5)
  next
    case 6 show ?thesis using undo_coinbase_ok [OF _ pos(1)] ex by (simp add: d 6)
  next
    case 7 show ?thesis using undo_coinstakes(1) [OF pos] ex vr by (simp add: d 7)
  next
    case 8 show ?thesis using undo_coinstakes(3) [OF pos] ex vr by (simp add: d 8)
  next
    case 9 show ?thesis using undo_coinstakes(2) [OF pos] ex vr by (simp add: d 9)
  next
    case 10 show ?thesis using undo_coinstakes(4) [OF pos] ex vr by (simp add: d 10)
  next
    case 11
    have "b \<noteq> WILDCARD_ADDRESS \<and> (\<forall>s. ReadState b FLAGS_BLOCK W = Some s \<longrightarrow> \<not> State_IsNull s)"
      if "debit_operands c = Inr (a, b, n)" for a b n
      using un that by (auto simp: undoable_def 11)
    then show ?thesis using undo_debit_ok [OF _ _ pos cl] ex vr by (simp add: d 11)
  next
    case 12
    have "unat (claimed h n FLAGS_BLOCK W) + unat m < 2 ^ 64"
      if "credit_operands c = Inr (h, n, a, p, m)" for h n a p m
      using un that by (simp add: undoable_def 12)
    then show ?thesis using undo_credit_ok [OF _ _ p1 pos(2) cl] ex vr at by (simp add: d 12)
  next
    case 13 show ?thesis using undo_migrate_ok [OF _ _ _ cl] ex vr at by (simp add: d 13)
  next
    case 14 show ?thesis using undo_fee_ok [OF _ _ pos] ex vr by (simp add: d 14)
  next
    case 15
    have "Contract_Seek 96 OPERATIONS STREAM_CURSOR c = Inr c'" "W' = W"
      using ex by (auto simp: exec_primitive_def exec_authorize_def 15)
    moreover have "restored E c W (W\<lparr>wContract := C\<rparr>)" for C by (rule restored_same) (simp_all add: kept_def)
    ultimately show ?thesis by (auto simp: undoes_def d 15)
  next
    case 16 show ?thesis using undo_legacy_ok [OF _ _ pos] ex vr by (simp add: d 16)
  qed
qed


section \<open>The whole contract\<close>

lemma wContract_same: "W\<lparr>wContract := wContract W\<rparr> = W"
  by simp

lemma read_proof_undone:
  "read_proof FLAGS_BLOCK x d = None \<Longrightarrow>
   read_proof FLAGS_BLOCK y (overlay_erase x FLAGS_BLOCK (write_proof FLAGS_BLOCK x v d)) = read_proof FLAGS_BLOCK y d"
  by (auto simp: read_proof_def write_proof_def overlay_erase_def overlay_defs split: option.splits if_splits)

lemma prefix_undone:
  assumes "exec_prefix X E FLAGS_BLOCK s W k = Inr (nOP, v, c1, W1, k1)"
  shows "verify_prefix s = Inr (nOP, c1)"
    and "\<exists>y d. op_word s = Inr (y, d) \<and> (y \<noteq> OP_CONDITION \<and> y \<noteq> OP_VALIDATE \<longrightarrow> nOP = y \<and> c1 = d)"
    and "\<exists>D C. W1 = W\<lparr>wContract := D\<rparr> \<and> (\<forall>h n. read_proof FLAGS_BLOCK (h, n) C = read_proof FLAGS_BLOCK (h, n) (wContract W)) \<and>
      (\<forall>V. wContract V = D \<longrightarrow> undo_prefix FLAGS_BLOCK V s = Inr (nOP, c1, V\<lparr>wContract := C\<rparr>))"
proof -
  from assms obtain y d where y: "op_word s = Inr (y, d)"
    and rest: "(if y = OP_CONDITION then exec_condition d W k
     else if y = OP_VALIDATE then exec_validate X E FLAGS_BLOCK d W k
     else Inr (y, False, d, W, k)) = Inr (nOP, v, c1, W1, k1)"
    unfolding exec_prefix_def by (elim rbind_pairE)
  show "\<exists>y d. op_word s = Inr (y, d) \<and> (y \<noteq> OP_CONDITION \<and> y \<noteq> OP_VALIDATE \<longrightarrow> nOP = y \<and> c1 = d)"
    using y rest by (intro exI [of _ y] exI [of _ d]) auto
  have "verify_prefix s = Inr (nOP, c1) \<and> (\<exists>D C. W1 = W\<lparr>wContract := D\<rparr> \<and>
      (\<forall>h n. read_proof FLAGS_BLOCK (h, n) C = read_proof FLAGS_BLOCK (h, n) (wContract W)) \<and>
      (\<forall>V. wContract V = D \<longrightarrow> undo_prefix FLAGS_BLOCK V s = Inr (nOP, c1, V\<lparr>wContract := C\<rparr>)))"
  proof (cases "y = OP_VALIDATE")
    case False
    then have "verify_prefix s = Inr (nOP, c1)" "W1 = W" and u: "\<And>V. undo_prefix FLAGS_BLOCK V s = Inr (nOP, c1, V)"
      using rest y by (auto simp: verify_prefix_def undo_prefix_def exec_condition_def split: if_splits
          elim!: rbind_pairE if_InlE simp del: rbind_eq_Inr)
    then show ?thesis by (intro conjI exI [of _ "wContract W"]) auto
  next
    case True
    with rest obtain h d1 n d2 where r: "op_word d = Inr (h :: u512, d1)" "op_word d1 = Inr (n :: u32, d2)"
      and w: "Validate_Commit h n (hashCaller d2) FLAGS_BLOCK W = Inr W1" and o: "op_word d2 = Inr (nOP, c1)"
      unfolding exec_validate_def by (auto elim!: rbind_pairE rbindE simp del: rbind_eq_Inr)
    have "Contract_Seek 68 OPERATIONS STREAM_CURSOR d = Inr d2" using skip_read [OF skip_word [OF r(1)] r(2)] by simp
    then have v: "verify_prefix s = Inr (nOP, c1)" using y o True by (simp add: verify_prefix_def)
    define D where "D = write_proof FLAGS_BLOCK (h, n) (hashCaller d2) (wContract W)"
    have np: "read_proof FLAGS_BLOCK (h, n) (wContract W) = None" and W1: "W1 = W\<lparr>wContract := D\<rparr>"
      using w by (auto simp: Validate_Commit_def HasContract_def WriteContract_def D_def split: if_splits)
    have u: "undo_prefix FLAGS_BLOCK V s = Inr (nOP, c1, V\<lparr>wContract := overlay_erase (h, n) FLAGS_BLOCK D\<rparr>)" if "wContract V = D" for V
      using y True r o that by (simp add: undo_prefix_def EraseContract_def)
    show ?thesis using v W1 u read_proof_undone [OF np] unfolding D_def by blast
  qed
  then show "verify_prefix s = Inr (nOP, c1)" and "\<exists>D C. W1 = W\<lparr>wContract := D\<rparr> \<and>
      (\<forall>h n. read_proof FLAGS_BLOCK (h, n) C = read_proof FLAGS_BLOCK (h, n) (wContract W)) \<and>
      (\<forall>V. wContract V = D \<longrightarrow> undo_prefix FLAGS_BLOCK V s = Inr (nOP, c1, V\<lparr>wContract := C\<rparr>))" by blast+
qed

lemma current_state_wContract [simp]:
  "current_state m a f (W\<lparr>wContract := D\<rparr>) = current_state m a f W"
  unfolding current_state_def read_wContract ..

lemma verify_state_wContract [simp]:
  "verify_state E own a g f (W\<lparr>wContract := D\<rparr>) = verify_state E own a g f W"
  by (intro ext) (simp add: verify_state_def)

lemma verify_primitive_wContract [simp]:
  "verify_primitive E f (W\<lparr>wContract := D\<rparr>) m nOP c = verify_primitive E f W m nOP c"
  unfolding verify_primitive_def verify_write_def verify_append_def verify_transfer_def verify_claim_def
    verify_trust_def verify_genesis_def verify_debit_def verify_credit_def verify_migrate_def verify_fee_def verify_legacy_def
  by simp

lemma undoable_wContract [simp]: "undoable nOP c (W\<lparr>wContract := D\<rparr>) = undoable nOP c W"
  unfolding undoable_def read_wContract claimed_other(2) ..

lemma restored_wContract [simp]: "restored E c (W\<lparr>wContract := D\<rparr>) W'' = restored E c W W''"
  by (simp add: restored_def kept_def)

text \<open>A credit and a migration check the first byte of the contract: they have no prefix.\<close>

lemma no_prefix:
  assumes "exec_primitive X E FLAGS_BLOCK nOP v c1 W1 k1 = Inr (c2, W', k')" and "nOP = OP_CREDIT \<or> nOP = OP_MIGRATE"
    and c1: "c1 = opos j (start c)" and cl: "\<not> fClient E"
  shows "\<exists>d. op_word (start c) = Inr (nOP, d)"
proof (cases "nOP = OP_CREDIT")
  case True
  with assms(1) cl obtain h e1 n e2 a e3 p e4 m e5 d c6 d' where
    r: "op_word c1 = Inr (h :: u512, e1)" "op_word e1 = Inr (n :: u32, e2)" "op_word e2 = Inr (a :: u256, e3)"
      "op_word e3 = Inr (p :: u256, e4)" "op_word e4 = Inr (m :: u64, e5)" and
    v: "Credit_Verify e5 d FLAGS_BLOCK W1 = Inr (c6, d')"
    unfolding exec_primitive_def exec_credit_def by (auto elim!: rbind_pairE rbindE simp del: rbind_eq_Inr)
  have "e5 = opos (j + 140) (start c)"
    using r [THEN op_word_pos] r(2-) [THEN op_word_pos] r(3-) [THEN op_word_pos] r(4-) [THEN op_word_pos] c1
    by (simp add: add.commute)
  then have "rpos 0 (e5\<lparr>ssOperation := (ssOperation e5)\<lparr>sPos := 0\<rparr>\<rparr>) = start c"
    by (simp add: opos_def rpos_def start_def)
  from Credit_Verify_cases [OF v this] True show ?thesis by auto
next
  case False
  with assms(1,2) cl have "exec_migrate X E FLAGS_BLOCK c1 W1 k1 = Inr (c2, W', k')" by (auto simp: exec_primitive_def)
  with cl obtain h e1 d x where r: "op_word c1 = Inr (h :: u512, e1)" and v: "Migrate_Verify E e1 d W1 = Inr x"
    unfolding exec_migrate_def by (auto elim!: rbind_pairE rbindE simp del: rbind_eq_Inr)
  from v obtain y e2 where y: "op_word (start e1) = Inr (y :: u8, e2)" "y = OP_MIGRATE"
    unfolding Migrate_Verify_def by (simp only: Reset_ALL rbind_Inr) (elim rbind_pairE if_InlE, simp)
  have "start e1 = start c" using op_word_pos [OF r] c1 by (simp add: start_def opos_def)
  then show ?thesis using y False assms(2) by auto
qed

text \<open>The result for a contract: \<open>undone E c W V\<close> names the pre-state of the contract itself.\<close>

definition undone :: "env \<Rightarrow> contract \<Rightarrow> world \<Rightarrow> world \<Rightarrow> bool" where
  "undone E c W V \<longleftrightarrow>
     (\<forall>x. ReadState x FLAGS_BLOCK V = ReadState x FLAGS_BLOCK W \<or>
       (\<exists>s st. prestate_of c = Inr s \<and> ReadState x FLAGS_BLOCK W = Some st \<and> ReadState x FLAGS_BLOCK V = Some s \<and> State_eq E s st)) \<and>
     kept W V"

lemma undone_of_restored:
  "restored E c1 W V \<Longrightarrow> (\<And>s. recorded c1 s \<Longrightarrow> prestate_of c = Inr s) \<Longrightarrow> undone E c W V"
  unfolding restored_def undone_def by blast

lemma recorded_start:
  assumes "ssRegister c1 = (ssRegister c)\<lparr>sPos := 0\<rparr>" and "recorded c1 s"
  shows "prestate_of c = Inr s"
proof -
  from assms(2) obtain cx cp where cx: "ssRegister cx = ssRegister c1" "take_prestate cx = Inr (s, cp)" by (auto simp: recorded_def)
  then have "prestate_of cx = Inr s" using take_prestate_of [OF cx(2)] assms(1) by auto
  then show ?thesis using cx(1) assms(1) by (simp add: prestate_of_def)
qed

lemma Rollback_of_Execute:
  assumes ex: "Execute X E c FLAGS_BLOCK W k = Inr (W', k')" and vr: "Register_Verify E c Map.empty FLAGS_BLOCK W = Inr m"
    and cl: "\<not> fClient E" and len: "length (sData (ssOperation c)) < 2 ^ 63"
    and at: "at_primitive c = Inr (nOP, c1)" and un: "undoable nOP c1 W"
  shows "\<exists>W''. Rollback E c FLAGS_BLOCK W' = Inr W'' \<and> undone E c W W'' \<and>
    (\<forall>h n. ReadContract h n FLAGS_BLOCK W'' = ReadContract h n FLAGS_BLOCK W)"
proof -
  obtain v c2 W1 k1 where pr: "exec_prefix X E FLAGS_BLOCK (start c) W k = Inr (nOP, v, c1, W1, k1)"
    and e: "exec_primitive X E FLAGS_BLOCK nOP v c1 W1 k1 = Inr (c2, W', k')" and en: "Contract_End OPERATIONS c2"
    by (rule Execute_primitive [OF ex len]) (use at in auto)
  obtain j where j: "c1 = opos j (start c)" and pos: "sPos (ssOperation c1) < 2 ^ 64"
    using at_primitive_pos [OF at len] by auto
  have c1: "sPos (ssRegister c1) = 0" "length (sData (ssOperation c1)) < 2 ^ 63" "start c1 = start c"
    using j len by (simp_all add: start_def opos_def)
  have at1: "c1 = opos 1 (start c1)" if n: "nOP = OP_CREDIT \<or> nOP = OP_MIGRATE"
  proof -
    obtain d where d: "op_word (start c) = Inr (nOP, d)" using no_prefix [OF e n j cl] by blast
    with prefix_undone(2) [OF pr] n have "c1 = d" by auto
    then show ?thesis using op_word_pos [OF d] c1(3) by simp
  qed
  obtain D C where W1: "W1 = W\<lparr>wContract := D\<rparr>"
    and same: "\<forall>h n. read_proof FLAGS_BLOCK (h, n) C = read_proof FLAGS_BLOCK (h, n) (wContract W)"
    and undo: "\<And>V. wContract V = D \<Longrightarrow> undo_prefix FLAGS_BLOCK V (start c) = Inr (nOP, c1, V\<lparr>wContract := C\<rparr>)"
    using prefix_undone(3) [OF pr] by blast
  from vr prefix_undone(1) [OF pr] obtain r where "verify_primitive E FLAGS_BLOCK W Map.empty nOP c1 = Inr r"
    unfolding Register_Verify_def catch_all_def by (auto split: sum.splits error.splits elim!: rbind_pairE simp del: rbind_eq_Inr)
  then have u: "undoes E c1 (\<lambda>W. undo_primitive E FLAGS_BLOCK W nOP c1) c2 W1 W'"
    by (intro undo_primitive_ok [OF e _ pos c1(1,2) cl _ at1]) (simp_all add: W1 un)
  then obtain cu W'' where p: "undo_primitive E FLAGS_BLOCK (W'\<lparr>wContract := C\<rparr>) nOP c1 = Inr (cu, W'')"
    and cu: "ssOperation cu = ssOperation c2" and W'': "wContract W'' = C" "restored E c1 W1 W''"
    unfolding undoes_def by blast
  have "wContract W' = D" using u by (simp add: undoes_def W1)
  have "Contract_End OPERATIONS cu" using en cu by (simp add: Contract_End_def)
  then have "Rollback E c FLAGS_BLOCK W' = Inr W''"
    using undo [of W'] p \<open>wContract W' = D\<close> by (simp add: Rollback_def catch_all_def)
  moreover have "ssRegister c1 = (ssRegister c)\<lparr>sPos := 0\<rparr>" using j by (simp add: start_def opos_def)
  then have "recorded c1 s \<Longrightarrow> prestate_of c = Inr s" for s by (rule recorded_start)
  ultimately show ?thesis using W'' same by (auto simp: W1 ReadContract_def intro: undone_of_restored)
qed

end
