(* ===== verification/Ledger_Disconnect.thy ===== *)
theory Ledger_Disconnect
  imports Ledger_Laws Rollback_Whole
begin

text \<open>
  Disconnecting a whole transaction. Rolling back its contracts in reverse order meets, at each of them, a
  world like the one after that contract was executed; so the roll-back of one contract is shown to respect
  likeness, and the check of the pre-states against a map is related to the world the map predicts.
\<close>

section \<open>Worlds alike\<close>

definition like :: "world \<Rightarrow> world \<Rightarrow> bool" where
  "like V W \<longleftrightarrow> (\<forall>x. ReadState x FLAGS_BLOCK W = ReadState x FLAGS_BLOCK V) \<and> kept V W \<and>
     (\<forall>h n. ReadContract h n FLAGS_BLOCK W = ReadContract h n FLAGS_BLOCK V)"

definition simr :: "('a \<Rightarrow> 'b \<Rightarrow> bool) \<Rightarrow> 'a res \<Rightarrow> 'b res \<Rightarrow> bool" where
  "simr P r r' \<longleftrightarrow> (\<forall>x. r = Inr x \<longrightarrow> (\<exists>y. r' = Inr y \<and> P x y))"

lemma like_refl [simp]: "like W W"
  by (simp add: like_def)

lemma like_trans: "like U V \<Longrightarrow> like V W \<Longrightarrow> like U W"
  using kept_trans [of U V W] by (simp add: like_def)

lemma simr_intros:
  "P x y \<Longrightarrow> simr P (Inr x) (Inr y)" "simr P (Inl e) r"
  "(\<And>x. simr P (f x) (g x)) \<Longrightarrow> simr P (rbind m f) (rbind m g)"
  "(b \<Longrightarrow> simr P r1 r1') \<Longrightarrow> (\<not> b \<Longrightarrow> simr P r2 r2') \<Longrightarrow> simr P (if b then r1 else r2) (if b then r1' else r2')"
  "(\<And>a b. simr P (h a b) (k a b)) \<Longrightarrow> simr P (case p of (a, b) \<Rightarrow> h a b) (case p of (a, b) \<Rightarrow> k a b)"
  by (auto simp: simr_def split: prod.splits)

lemma simr_rbind:
  assumes "simr Q m m'" and "\<And>x y. Q x y \<Longrightarrow> simr P (f x) (g y)"
  shows "simr P (rbind m f) (rbind m' g)"
  using assms by (cases m; cases m') (auto simp: simr_def)

lemma ReadContract_ops [simp]:
  "ReadContract h n f (W\<lparr>wContract := C\<rparr>) = read_proof f (h, n) C"
  by (simp add: ReadContract_def)

lemma ReadContract_same: "wContract V = wContract W \<Longrightarrow> ReadContract h n f V = ReadContract h n f W"
  by (simp add: ReadContract_def)

lemma ReadContract_EraseContract:
  "ReadContract h' n' FLAGS_BLOCK (EraseContract h n FLAGS_BLOCK W) =
     (if (h', n') = (h, n) then None else ReadContract h' n' FLAGS_BLOCK W)"
  by (auto simp: EraseContract_def ReadContract_def read_proof_def overlay_erase_def overlay_defs Let_def split: option.splits)

lemma ReadContract_other [simp]:
  "ReadContract h n f (WriteState E a s g W) = ReadContract h n f W" "ReadContract h n f (EraseState a g W) = ReadContract h n f W"
  "ReadContract h n f (EraseProof p h' n' g W) = ReadContract h n f W" "ReadContract h n f (WriteClaimed h' n' m g W) = ReadContract h n f W"
  "ReadContract h n f (EraseTrust b W) = ReadContract h n f W" "ReadContract h n f (EraseStake b W) = ReadContract h n f W"
  "ReadContract h n f (EraseTrustConversion k W) = ReadContract h n f W"
  by (rule ReadContract_same, simp)+

lemma kept_EraseContract [simp]: "kept (EraseContract h n f V) (EraseContract h' n' f' W) = kept V W"
  by (simp add: EraseContract_def kept_def)

lemma like_writes:
  assumes "like V W"
  shows "like (WriteState E a s FLAGS_BLOCK V) (WriteState E a s FLAGS_BLOCK W)"
    and "like (EraseState a FLAGS_BLOCK V) (EraseState a FLAGS_BLOCK W)"
    and "like (EraseProof p h n FLAGS_BLOCK V) (EraseProof p h n FLAGS_BLOCK W)"
    and "like (WriteClaimed h n m FLAGS_BLOCK V) (WriteClaimed h n m FLAGS_BLOCK W)"
    and "like (EraseContract h n FLAGS_BLOCK V) (EraseContract h n FLAGS_BLOCK W)"
    and "like (EraseTrust g V) (EraseTrust g W)" and "like (EraseStake g V) (EraseStake g W)"
    and "like (EraseTrustConversion k V) (EraseTrustConversion k W)"
proof -
  show "like (EraseContract h n FLAGS_BLOCK V) (EraseContract h n FLAGS_BLOCK W)"
    using assms by (simp add: like_def ReadContract_EraseContract)
qed (use assms in \<open>simp_all add: like_def kept_def ReadState_WriteState ReadState_EraseState HasProof_EraseProof ReadClaimed_WriteClaimed\<close>)

lemma like_EraseEvent: "like V W \<Longrightarrow> simr like (EraseEvent u V) (EraseEvent u W)"
proof -
  assume l: "like V W"
  then have "zero_or (ReadSequence u V) (ReadSequence u W)" by (simp add: like_def kept_def)
  then show ?thesis
  proof (cases "ReadSequence u V")
    case (Some n)
    then have "ReadSequence u W = Some n" using \<open>zero_or _ _\<close> by (simp add: zero_or_def)
    then show ?thesis using Some l
      by (simp add: EraseEvent_def Let_def simr_def) (simp add: like_def kept_def world_ops)
  qed (simp add: EraseEvent_def simr_def)
qed

lemma like_WriteTrust: "like V W \<Longrightarrow> simr like (WriteTrust E g s V) (WriteTrust E g s W)"
  unfolding WriteTrust_def Let_def
  by (intro simr_intros(3) simr_intros(1) like_writes(1)) (simp add: like_def kept_def world_ops read_register_def)

lemma like_undo_claimed: "like V W \<Longrightarrow> simr like (undo_claimed d h n m FLAGS_BLOCK V) (undo_claimed d h n m FLAGS_BLOCK W)"
proof -
  assume l: "like V W"
  then have z: "zero_or (ReadClaimed h n FLAGS_BLOCK V) (ReadClaimed h n FLAGS_BLOCK W)" by (simp add: like_def kept_def)
  have "simr (=) (found msg (ReadClaimed h n FLAGS_BLOCK V)) (found msg (ReadClaimed h n FLAGS_BLOCK W))" for msg
    using z by (auto simp: simr_def found_def zero_or_def split: option.splits)
  then show ?thesis unfolding undo_claimed_def using l
    by (intro simr_intros(3-5) simr_rbind [where Q = "(=)"]) (auto intro!: simr_intros like_writes)
qed

section \<open>Rolling back in worlds alike\<close>

abbreviation alike :: "contract \<times> world \<Rightarrow> contract \<times> world \<Rightarrow> bool" where
  "alike \<equiv> rel_prod (=) like"

lemma alikeI: "like V W \<Longrightarrow> simr alike (Inr (c, V)) (Inr (c, W))"
  by (simp add: simr_def)

lemma simr_pair:
  assumes "simr alike m m'" and "\<And>c V W. like V W \<Longrightarrow> simr P (f c V) (g c W)"
  shows "simr P (rbind m (\<lambda>(c, V). f c V)) (rbind m' (\<lambda>(c, W). g c W))"
  by (rule simr_rbind [OF assms(1)]) (auto intro: assms(2))

lemma simr_found: "x = y \<Longrightarrow> (\<And>s. simr P (f s) (g s)) \<Longrightarrow> simr P (rbind (found msg x) f) (rbind (found msg y) g)"
  by (simp add: simr_intros(3))

lemma like_reads:
  assumes "like V W"
  shows "ReadState x FLAGS_BLOCK V = ReadState x FLAGS_BLOCK W"
    and "Ledger_ReadContract E h n FLAGS_BLOCK V = Ledger_ReadContract E h n FLAGS_BLOCK W"
  using assms Ledger_ReadContract_cong [of W V] by (simp_all add: like_def kept_def)

lemma like_restore: "like V W \<Longrightarrow> simr alike (restore E a FLAGS_BLOCK V c) (restore E a FLAGS_BLOCK W c)"
  unfolding restore_def by (intro simr_intros(3,5) alikeI like_writes)

lemma like_event: "like V W \<Longrightarrow> simr alike (rbind (EraseEvent u V) (\<lambda>W. Inr (c, W))) (rbind (EraseEvent u W) (\<lambda>W. Inr (c, W)))"
  by (rule simr_rbind [OF like_EraseEvent]) (auto intro: alikeI)

lemma like_undo_debit: "like V W \<Longrightarrow> simr alike (undo_debit E FLAGS_BLOCK V c) (undo_debit E FLAGS_BLOCK W c)"
  unfolding undo_debit_def
  by (intro simr_intros(3,5) simr_pair [OF like_restore])
    (simp, intro simr_found conjI impI simr_intros(3,4) like_event alikeI like_reads, assumption+)

lemma like_undo_credit: "like V W \<Longrightarrow> simr alike (undo_credit E FLAGS_BLOCK V c) (undo_credit E FLAGS_BLOCK W c)"
  unfolding undo_credit_def
  by (intro simr_intros(3,5) simr_pair [OF like_restore [OF like_writes(3)]])
    (auto simp: like_reads(2) intro!: simr_intros(3) simr_rbind [OF like_undo_claimed] alikeI)

lemma like_undo_transfer: "like V W \<Longrightarrow> simr alike (undo_transfer E FLAGS_BLOCK V c) (undo_transfer E FLAGS_BLOCK W c)"
  unfolding undo_transfer_def
  by (intro simr_intros(3,5) simr_pair [OF like_restore] simr_intros(4) like_event alikeI)

lemma like_undo_primitive:
  assumes "like V W"
  shows "simr alike (undo_primitive E FLAGS_BLOCK V nOP c) (undo_primitive E FLAGS_BLOCK W nOP c)"
proof -
  have "simr alike (undo_write E FLAGS_BLOCK V c) (undo_write E FLAGS_BLOCK W c)"
    "simr alike (undo_create FLAGS_BLOCK V c) (undo_create FLAGS_BLOCK W c)"
    "simr alike (undo_claim E FLAGS_BLOCK V c) (undo_claim E FLAGS_BLOCK W c)"
    "simr alike (undo_coinbase FLAGS_BLOCK V c) (undo_coinbase FLAGS_BLOCK W c)"
    "simr alike (undo_migrate E FLAGS_BLOCK V c) (undo_migrate E FLAGS_BLOCK W c)"
    "simr alike (undo_fee E FLAGS_BLOCK V c) (undo_fee E FLAGS_BLOCK W c)"
    "simr alike (undo_legacy E FLAGS_BLOCK V c) (undo_legacy E FLAGS_BLOCK W c)"
    "simr alike (undo_trust E n V c) (undo_trust E n W c)" "simr alike (undo_genesis E n V c) (undo_genesis E n W c)" for n
    unfolding undo_write_def undo_create_def undo_claim_def undo_coinbase_def undo_migrate_def undo_fee_def undo_legacy_def
      undo_trust_def undo_genesis_def
    by (intro simr_intros(3,4,5) simr_pair [OF like_restore] like_restore like_event alikeI like_writes assms
        simr_rbind [OF like_WriteTrust]; (assumption | simp))+
  then show ?thesis
    unfolding undo_primitive_def using like_undo_debit [OF assms] like_undo_credit [OF assms] like_undo_transfer [OF assms] assms
    by (auto intro!: simr_intros(2,3,4) alikeI)
qed

lemma like_undo_prefix:
  "like V W \<Longrightarrow> simr (rel_prod (=) alike) (undo_prefix FLAGS_BLOCK V c) (undo_prefix FLAGS_BLOCK W c)"
  unfolding undo_prefix_def
  by (intro simr_intros(3,4,5)) (auto simp: simr_def intro: like_writes)

lemma like_Rollback:
  assumes "like V W"
  shows "simr like (Rollback E c FLAGS_BLOCK V) (Rollback E c FLAGS_BLOCK W)"
proof -
  have catch: "simr P r r' \<Longrightarrow> simr P (catch_all r) (catch_all r')" for P :: "world \<Rightarrow> world \<Rightarrow> bool" and r r'
    by (auto simp: simr_def catch_all_def split: sum.splits error.splits)
  show ?thesis
    unfolding Rollback_def
    by (intro simr_intros(3) catch simr_rbind [OF like_undo_prefix [OF assms]])
      (auto intro!: simr_pair [OF like_undo_primitive] simr_intros(1,2,4))
qed

lemma like_rollback_contracts:
  "like V W \<Longrightarrow> simr like (rollback_contracts E t FLAGS_BLOCK cs V) (rollback_contracts E t FLAGS_BLOCK cs W)"
  by (induction cs arbitrary: V W) (auto intro!: simr_intros(1) simr_rbind [OF like_Rollback])

lemma rbind_assoc: "rbind (rbind m f) g = rbind m (\<lambda>x. rbind (f x) g)"
  by (cases m) simp_all

lemma rollback_contracts_append:
  "rollback_contracts E t f (cs @ ds) W = rbind (rollback_contracts E t f cs W) (rollback_contracts E t f ds)"
  by (induction cs arbitrary: W) (auto simp: rbind_assoc intro!: rbind_cong)

section \<open>The predicted states\<close>

text \<open>A world in which the registers are as the map of post-states says and otherwise as at the beginning.\<close>

definition predicted :: "state_map \<Rightarrow> world \<Rightarrow> world \<Rightarrow> bool" where
  "predicted m W V \<longleftrightarrow> (\<forall>x. ReadState x FLAGS_BLOCK V = (case m x of Some s \<Rightarrow> Some s | None \<Rightarrow> ReadState x FLAGS_BLOCK W))"

lemma predicted_current:
  "predicted m W V \<Longrightarrow> current_state Map.empty x FLAGS_BLOCK V = current_state m x FLAGS_BLOCK W"
  by (simp add: predicted_def current_state_def split: option.splits)

definition shifts :: "state_map \<Rightarrow> verify_res \<Rightarrow> verify_res \<Rightarrow> bool" where
  "shifts m = simr (\<lambda>(c, m1) (c', m2). c' = c \<and> m1 = m ++ m2)"

lemma shifts_verify_state:
  assumes "predicted m W V"
  shows "shifts m (verify_state E own a exec FLAGS_BLOCK W m c) (verify_state E own a exec FLAGS_BLOCK V Map.empty c)"
  unfolding shifts_def verify_state_def predicted_current [OF assms]
  by (intro simr_intros(2-5)) (rule simr_intros(1), simp)

lemma shifts_verify_primitive:
  assumes "predicted m W V"
  shows "shifts m (verify_primitive E FLAGS_BLOCK W m nOP c) (verify_primitive E FLAGS_BLOCK V Map.empty nOP c)"
proof -
  note vs = shifts_verify_state [OF assms, unfolded shifts_def]
  have "shifts m (verify_write E FLAGS_BLOCK W m c) (verify_write E FLAGS_BLOCK V Map.empty c)"
    "shifts m (verify_append E FLAGS_BLOCK W m c) (verify_append E FLAGS_BLOCK V Map.empty c)"
    "shifts m (verify_create E m c) (verify_create E Map.empty c)"
    "shifts m (verify_transfer E FLAGS_BLOCK W m c) (verify_transfer E FLAGS_BLOCK V Map.empty c)"
    "shifts m (verify_claim E FLAGS_BLOCK W m c) (verify_claim E FLAGS_BLOCK V Map.empty c)"
    "shifts m (verify_coinbase m c) (verify_coinbase Map.empty c)"
    "shifts m (verify_trust E n FLAGS_BLOCK W m c) (verify_trust E n FLAGS_BLOCK V Map.empty c)"
    "shifts m (verify_genesis E n FLAGS_BLOCK W m c) (verify_genesis E n FLAGS_BLOCK V Map.empty c)"
    "shifts m (verify_debit E FLAGS_BLOCK W m c) (verify_debit E FLAGS_BLOCK V Map.empty c)"
    "shifts m (verify_credit E FLAGS_BLOCK W m c) (verify_credit E FLAGS_BLOCK V Map.empty c)"
    "shifts m (verify_migrate E FLAGS_BLOCK W m c) (verify_migrate E FLAGS_BLOCK V Map.empty c)"
    "shifts m (verify_fee E FLAGS_BLOCK W m c) (verify_fee E FLAGS_BLOCK V Map.empty c)" for n
    unfolding verify_write_def verify_append_def verify_create_def verify_transfer_def verify_claim_def verify_coinbase_def
      verify_trust_def verify_genesis_def verify_debit_def verify_credit_def verify_migrate_def verify_fee_def shifts_def
    by (intro simr_intros(3,4,5) vs; (rule simr_intros(1), simp))+
  moreover have "shifts m (verify_legacy E FLAGS_BLOCK W m c) (verify_legacy E FLAGS_BLOCK V Map.empty c)"
    unfolding verify_legacy_def shifts_def
    by (intro simr_intros(3,5), rule simr_rbind [OF vs]) (auto intro!: simr_intros(1,3))
  ultimately show ?thesis
    unfolding verify_primitive_def shifts_def by (auto intro!: simr_intros)
qed

lemma Register_Verify_shift:
  assumes "Register_Verify E c m FLAGS_BLOCK W = Inr m1" and "predicted m W V"
  shows "\<exists>m2. Register_Verify E c Map.empty FLAGS_BLOCK V = Inr m2 \<and> m1 = m ++ m2"
proof -
  have "simr (\<lambda>m1 m2. m1 = m ++ m2) (Register_Verify E c m FLAGS_BLOCK W) (Register_Verify E c Map.empty FLAGS_BLOCK V)"
  proof -
    have catch: "simr P r r' \<Longrightarrow> simr P (catch_all r) (catch_all r')" for P :: "state_map \<Rightarrow> state_map \<Rightarrow> bool" and r r'
      by (auto simp: simr_def catch_all_def split: sum.splits error.splits)
    show ?thesis
      unfolding Register_Verify_def
      by (intro simr_intros(3,5) catch, rule simr_rbind [OF shifts_verify_primitive [OF assms(2), unfolded shifts_def]])
        (auto intro!: simr_intros(1,2,4))
  qed
  then show ?thesis using assms(1) by (simp add: simr_def)
qed

section \<open>An execution is as predicted\<close>

text \<open>No register collides with the recorded pre-state under the comparison of states.\<close>

definition exact :: "env \<Rightarrow> contract \<Rightarrow> world \<Rightarrow> bool" where
  "exact E c W \<longleftrightarrow> (\<forall>x s st. recorded c s \<longrightarrow> ReadState x FLAGS_BLOCK W = Some st \<longrightarrow> State_eq E s st \<longrightarrow> s = st)"

lemma predicted_step:
  assumes v: "verify_state E own a ex FLAGS_BLOCK W Map.empty cx = Inr (r, m)" and t: "take_prestate cx = Inr (s, cp)"
    and x: "exact E c W" "ssRegister cx = ssRegister c" and e: "ex cp s = Inr s'"
    and W': "\<And>x. ReadState x FLAGS_BLOCK W' = (if x = a then Some s' else ReadState x FLAGS_BLOCK W)"
  shows "predicted m W W'"
proof -
  from v t obtain st s2 where st: "ReadState a FLAGS_BLOCK W = Some st" "State_eq E s st" and "ex cp st = Inr s2" "m = [a \<mapsto> s2]"
    by (auto simp: verify_state_def current_state_def split: option.splits if_splits)
  moreover have "s = st" using x st recordedI [OF t x(2)] by (auto simp: exact_def)
  ultimately have "m = [a \<mapsto> s']" using e by simp
  then show ?thesis by (simp add: predicted_def W')
qed

lemma predicted_none: "(\<And>x. ReadState x FLAGS_BLOCK W' = ReadState x FLAGS_BLOCK W) \<Longrightarrow> predicted Map.empty W W'"
  by (simp add: predicted_def)

lemma predicted_write:
  assumes "exec_write E FLAGS_BLOCK c W k = Inr (c', W', k')" and "verify_write E FLAGS_BLOCK W Map.empty c = Inr (r, m)"
    and pos: "sPos (ssOperation c) < 2 ^ 64" "sPos (ssRegister c) = 0" and x: "exact E c W"
  shows "predicted m W W'"
proof -
  from assms(1) obtain c0 a c1 d c2 s c3 s' where
    v: "Write_Verify E c = Inr c0" and r: "op_word c0 = Inr (a, c1)" "op_vector c1 = Inr (d, c2)" and
    t: "take_prestate c2 = Inr (s, c3)" and e: "Write_Execute E s d (nTimestamp c3) = Inr s'" and
    w: "Write_Commit E s' a FLAGS_BLOCK W = Inr W'"
    unfolding exec_write_def by (elim rbind_pairE rbindE) simp
  have c0: "c0 = c" using Write_Verify_facts [OF v pos(1)] rpos_0 [OF pos(2)] by auto
  have "verify_state E True a (\<lambda>c state. Write_Execute E state d (nTimestamp c)) FLAGS_BLOCK W Map.empty c2 = Inr (r, m)"
    using assms(2) r c0 by (simp add: verify_write_def)
  then show ?thesis
    by (rule predicted_step [OF _ t x, where s' = s']) (use w e r c0 op_word_reg [OF r(1)] op_vector_reg [OF r(2)] in \<open>auto simp: Write_Commit_def ReadState_WriteState\<close>)
qed

lemma predicted_append:
  assumes "exec_append E FLAGS_BLOCK c W k = Inr (c', W', k')" and "verify_append E FLAGS_BLOCK W Map.empty c = Inr (r, m)"
    and pos: "sPos (ssOperation c) < 2 ^ 64" "sPos (ssRegister c) = 0" and x: "exact E c W"
  shows "predicted m W W'"
proof -
  from assms(1) obtain c0 a c1 d c2 s c3 s' where
    v: "Append_Verify E c = Inr c0" and r: "op_word c0 = Inr (a, c1)" "op_vector c1 = Inr (d, c2)" and
    t: "take_prestate c2 = Inr (s, c3)" and e: "Append_Execute E s d (nTimestamp c3) = Inr s'" and
    w: "Append_Commit E s' a FLAGS_BLOCK W = Inr W'"
    unfolding exec_append_def by (elim rbind_pairE rbindE if_InlE) simp
  have c0: "c0 = c" using Append_Verify_facts [OF v pos(1)] rpos_0 [OF pos(2)] by auto
  have "verify_state E True a (\<lambda>c state. Append_Execute E state d (nTimestamp c)) FLAGS_BLOCK W Map.empty c2 = Inr (r, m)"
    using assms(2) r c0 by (simp add: verify_append_def)
  then show ?thesis
    by (rule predicted_step [OF _ t x, where s' = s']) (use w e r c0 op_word_reg [OF r(1)] op_vector_reg [OF r(2)] in \<open>auto simp: Append_Commit_def ReadState_WriteState\<close>)
qed

lemma predicted_fee:
  assumes "exec_fee E FLAGS_BLOCK c W k = Inr (c', W', k')" and "verify_fee E FLAGS_BLOCK W Map.empty c = Inr (r, m)"
    and pos: "sPos (ssOperation c) < 2 ^ 64" "sPos (ssRegister c) = 0" and x: "exact E c W"
  shows "predicted m W W'"
proof -
  from assms(1) obtain c0 a c1 n c2 s c3 ob where
    v: "Fee_Verify E c = Inr c0" and r: "op_word c0 = Inr (a, c1)" "op_word c1 = Inr (n :: u64, c2)" and
    t: "take_prestate c2 = Inr (s, c3)" and e: "Fee_Execute E (Object_of s) n (nTimestamp c3) = Inr ob" and
    w: "Fee_Commit E ob a FLAGS_BLOCK W = Inr W'"
    unfolding exec_fee_def by (elim rbind_pairE rbindE) simp
  have c0: "c0 = c" using Fee_Verify_facts [OF v pos(1)] rpos_0 [OF pos(2)] by auto
  have "verify_state E True a (\<lambda>c. on_object (\<lambda>ob. Fee_Execute E ob n (nTimestamp c))) FLAGS_BLOCK W Map.empty c2 = Inr (r, m)"
    using assms(2) r c0 by (simp add: verify_fee_def)
  then show ?thesis
    by (rule predicted_step [OF _ t x, where s' = "State_of ob"])
      (use w r c0 e op_word_reg [OF r(1)] op_word_reg [OF r(2)] in \<open>auto simp: Fee_Commit_def ReadState_WriteState on_object_def\<close>)
qed

lemma predicted_legacy:
  assumes "exec_legacy E FLAGS_BLOCK c W k = Inr (c', W', k')" and "verify_legacy E FLAGS_BLOCK W Map.empty c = Inr (r, m)"
    and pos: "sPos (ssOperation c) < 2 ^ 64" "sPos (ssRegister c) = 0" and x: "exact E c W"
  shows "predicted m W W'"
proof -
  from assms(1) obtain c0 a c1 n c2 s c3 ob where
    v: "Legacy_Verify E c = Inr c0" and r: "op_word c0 = Inr (a, c1)" "op_word c1 = Inr (n :: u64, c2)" and
    t: "take_prestate c2 = Inr (s, c3)" and e: "Legacy_Execute E (Object_of s) n (nTimestamp c3) = Inr ob" and
    w: "Legacy_Commit E (State_of ob) a FLAGS_BLOCK W = Inr W'"
    unfolding exec_legacy_def by (elim rbind_pairE rbindE) simp
  have c0: "c0 = c" using Legacy_Verify_facts [OF v pos(1)] rpos_0 [OF pos(2)] by auto
  obtain r' where "verify_state E True a (\<lambda>c. on_object (\<lambda>ob. Legacy_Execute E ob n (nTimestamp c))) FLAGS_BLOCK W Map.empty c2 = Inr (r', m)"
    using assms(2) r c0 by (auto simp: verify_legacy_def)
  then show ?thesis
    by (rule predicted_step [OF _ t x, where s' = "State_of ob"])
      (use w r c0 e op_word_reg [OF r(1)] op_word_reg [OF r(2)] in \<open>auto simp: Legacy_Commit_def ReadState_WriteState on_object_def\<close>)
qed

lemma predicted_create:
  assumes "exec_create E FLAGS_BLOCK c W k = Inr (c', W', k')" and vr: "verify_create E Map.empty c = Inr (r, m)"
    and len: "length (sData (ssOperation c)) < 2 ^ 63" and pos: "sPos (ssOperation c) < 2 ^ 64"
  shows "predicted m W W'"
proof -
  from assms(1) obtain c0 a c1 t c2 d c3 s' k1 where v: "Create_Verify c = Inr c0" and
    r: "op_word c0 = Inr (a, c1)" "op_word c1 = Inr (t :: u8, c2)" "op_vector c2 = Inr (d, c3)" and
    e: "Create_Execute E ((State_default E)\<lparr>nVersion := 1, nType := t, hashOwner := hashCaller c3\<rparr>) d (nTimestamp c3) = Inr s'" and
    w: "Create_Commit E s' a k1 FLAGS_BLOCK W = Inr (W', k')"
    unfolding exec_create_def Let_def by (elim rbind_pairE rbindE if_InlE) auto
  obtain a' c1' t' c2' where u: "op_word c = Inr (a' :: u256, c1')" "op_word c1' = Inr (t', c2')" "Range_type t'"
    using vr unfolding verify_create_def by (elim rbind_pairE rbindE) (auto simp: Create_Execute_def split: if_splits)
  have c0: "c0 = c" by (rule Create_Verify_back [OF v u pos len])
  have "m = [a \<mapsto> s']" using vr r e c0 by (simp add: verify_create_def)
  moreover have "W' = WriteState E a s' FLAGS_BLOCK W" using w by (auto simp: Create_Commit_def)
  ultimately show ?thesis by (simp add: predicted_def ReadState_WriteState)
qed

lemma predicted_transfer:
  assumes "exec_transfer E FLAGS_BLOCK c W k = Inr (c', W', k')" and vr: "verify_transfer E FLAGS_BLOCK W Map.empty c = Inr (r, m)"
    and pos: "sPos (ssOperation c) < 2 ^ 64" "sPos (ssRegister c) = 0" and x: "exact E c W"
  shows "predicted m W W'"
proof -
  from assms(1) obtain c0 a c1 b c2 t c3 s c4 s' h where
    v: "Transfer_Verify E c = Inr c0" and
    r: "op_word c0 = Inr (a, c1)" "op_word c1 = Inr (b, c2)" "op_word c2 = Inr (t :: u8, c3)" and
    tp: "take_prestate c3 = Inr (s, c4)" and e: "Transfer_Execute E s (transfer_owner c3 t b) (nTimestamp c4) = Inr s'" and
    w: "Transfer_Commit E s' h a b FLAGS_BLOCK W = Inr W'"
    unfolding exec_transfer_def Let_def by (elim rbind_pairE rbindE) simp
  have c0: "c0 = c" using Transfer_Verify_facts [OF v pos(1)] rpos_0 [OF pos(2)] by auto
  have rg: "ssRegister c3 = ssRegister c" using c0 op_word_reg [OF r(1)] op_word_reg [OF r(2)] op_word_reg [OF r(3)] by simp
  then obtain q where "c4 = rpos q c3" using take_prestate_of [OF tp] pos(2) by auto
  then have to: "transfer_owner c4 t b = transfer_owner c3 t b" by (simp add: transfer_owner_def)
  have "verify_state E True a (\<lambda>c state. Transfer_Execute E state (transfer_owner c t b) (nTimestamp c)) FLAGS_BLOCK W Map.empty c3 = Inr (r, m)"
    using vr r c0 by (simp add: verify_transfer_def)
  then show ?thesis
    by (rule predicted_step [OF _ tp x rg, where s' = s']) (use w e in \<open>auto simp: Transfer_Commit_def ReadState_WriteState to\<close>)
qed

lemma predicted_claim:
  assumes "exec_claim X E FLAGS_BLOCK c W k = Inr (c', W', k')" and vr: "verify_claim E FLAGS_BLOCK W Map.empty c = Inr (r, m)"
    and x: "exact E c W"
  shows "predicted m W W'"
proof -
  from assms(1) obtain h c1 n c2 a c3 s c4 s' where
    r: "op_word c = Inr (h :: u512, c1)" "op_word c1 = Inr (n :: u32, c2)" "op_word c2 = Inr (a, c3)" and
    tp: "take_prestate c3 = Inr (s, c4)" and e: "Claim_Execute E s (hashCaller c4) (nTimestamp c4) = Inr s'" and
    w: "Claim_Commit E s' a h n FLAGS_BLOCK W = Inr W'"
    unfolding exec_claim_def by (elim rbind_pairE rbindE) simp
  have sk: "Contract_Seek 68 OPERATIONS STREAM_CURSOR c = Inr c2" using skip_read [OF skip_word [OF r(1)] r(2)] by simp
  have "verify_state E False a (\<lambda>c state. Claim_Execute E state (hashCaller c) (nTimestamp c)) FLAGS_BLOCK W Map.empty c3 = Inr (r, m)"
    using vr r(3) sk by (simp add: verify_claim_def)
  then show ?thesis
    by (rule predicted_step [OF _ tp x, where s' = s'])
      (use w r e op_word_reg [OF r(1)] op_word_reg [OF r(2)] op_word_reg [OF r(3)] in \<open>auto simp: Claim_Commit_def Let_def ReadState_WriteState split: if_splits\<close>)
qed

lemma predicted_debit:
  assumes "exec_debit E FLAGS_BLOCK c W k = Inr (c', W', k')" and vr: "verify_debit E FLAGS_BLOCK W Map.empty c = Inr (r, m)"
    and pos: "sPos (ssOperation c) < 2 ^ 64" "sPos (ssRegister c) = 0" and x: "exact E c W"
  shows "predicted m W W'"
proof -
  from assms(1) obtain c0 a c1 b c2 n c3 ref c4 s c5 ob h where
    v: "Debit_Verify E c = Inr c0" and
    r: "op_word c0 = Inr (a, c1)" "op_word c1 = Inr (b :: u256, c2)" "op_word c2 = Inr (n :: u64, c3)"
      "op_word c3 = Inr (ref :: u64, c4)" and
    tp: "take_prestate c4 = Inr (s, c5)" and e: "Debit_Execute E (Object_of s) n (nTimestamp c5) = Inr ob" and
    w: "Debit_Commit E ob h a b FLAGS_BLOCK W = Inr W'"
    unfolding exec_debit_def by (elim rbind_pairE rbindE) simp
  have c0: "c0 = c" using Debit_Verify_facts [OF v pos(1)] rpos_0 [OF pos(2)] by auto
  have "verify_state E True a (\<lambda>c. on_object (\<lambda>ob. Debit_Execute E ob n (nTimestamp c))) FLAGS_BLOCK W Map.empty c4 = Inr (r, m)"
    using vr r c0 skip_word [OF r(2)] by (simp add: verify_debit_def)
  then show ?thesis
    by (rule predicted_step [OF _ tp x, where s' = "State_of ob"])
      (use w r c0 e op_word_reg [OF r(1)] op_word_reg [OF r(2)] op_word_reg [OF r(3)] op_word_reg [OF r(4)] in \<open>auto simp: Debit_Commit_def ReadState_WriteState on_object_def split: option.splits if_splits\<close>)
qed

lemma predicted_credit:
  assumes "exec_credit X E FLAGS_BLOCK c W k = Inr (c', W', k')" and vr: "verify_credit E FLAGS_BLOCK W Map.empty c = Inr (r, m)"
    and pos: "sPos (ssOperation c) = 1" "sPos (ssRegister c) = 0" and cl: "\<not> fClient E" and x: "exact E c W"
  shows "predicted m W W'"
proof -
  from assms(1) cl obtain h c1 n c2 a c3 p c4 v c5 d c6 d' s c7 ob where
    r: "op_word c = Inr (h :: u512, c1)" "op_word c1 = Inr (n :: u32, c2)" "op_word c2 = Inr (a :: u256, c3)"
      "op_word c3 = Inr (p :: u256, c4)" "op_word c4 = Inr (v :: u64, c5)" and
    cv: "Credit_Verify c5 d FLAGS_BLOCK W = Inr (c6, d')" and
    tp: "take_prestate c6 = Inr (s, c7)" and e: "Credit_Execute E (Object_of s) v (nTimestamp c7) = Inr ob" and
    cm: "Credit_Commit E ob d' a p h n v FLAGS_BLOCK W = Inr W'"
    unfolding exec_credit_def by (auto elim!: rbind_pairE rbindE simp del: rbind_eq_Inr)
  have "c5 = opos 140 c"
    using r [THEN op_word_pos] r(2-) [THEN op_word_pos] r(3-) [THEN op_word_pos] r(4-) [THEN op_word_pos] by simp
  then have "sPos (ssOperation c5) = 141" "sPos (ssRegister c5) = 0" using pos by (simp_all add: opos_def)
  then have tp: "take_prestate c5 = Inr (s, c7)" using tp Credit_Verify_back(1) [OF cv] by simp
  have sk: "Contract_Seek 68 OPERATIONS STREAM_CURSOR c = Inr c2" "Contract_Seek 32 OPERATIONS STREAM_CURSOR c3 = Inr c4"
    using skip_read [OF skip_word [OF r(1)] r(2)] skip_word [OF r(4)] by simp_all
  have vs: "verify_state E True a (\<lambda>c. on_object (\<lambda>ob. Credit_Execute E ob v (nTimestamp c))) FLAGS_BLOCK W Map.empty c5 = Inr (r, m)"
    using vr r sk by (simp add: verify_credit_def)
  from cm cl obtain V where V: "credit_claimed d' h n v FLAGS_BLOCK (WriteProof p h n FLAGS_BLOCK W) = Inr V"
    and W': "W' = WriteState E a (State_of ob) FLAGS_BLOCK V"
    unfolding Credit_Commit_def Let_def by (elim rbindE if_InlE) simp
  have "ReadState y FLAGS_BLOCK V = ReadState y FLAGS_BLOCK W" for y
    using V unfolding credit_claimed_def Let_def by (auto split: if_splits)
  then show ?thesis
    by (intro predicted_step [OF vs tp x, where s' = "State_of ob"])
      (use e op_word_reg [OF r(1)] op_word_reg [OF r(2)] op_word_reg [OF r(3)] op_word_reg [OF r(4)] op_word_reg [OF r(5)] in
        \<open>auto simp: W' ReadState_WriteState on_object_def\<close>)
qed

lemma predicted_migrate:
  assumes "exec_migrate X E FLAGS_BLOCK c W k = Inr (c', W', k')" and vr: "verify_migrate E FLAGS_BLOCK W Map.empty c = Inr (r, m)"
    and at: "c = opos 1 (start c)" and cl: "\<not> fClient E" and x: "exact E c W"
  shows "predicted m W W'"
proof -
  from assms(1) obtain h e1 c1 a c2 t c3 v c4 sc c5 la c6 s c7 ob where
    r: "op_word c = Inr (h :: u512, e1)" and sk0: "Contract_Seek 65 OPERATIONS STREAM_CURSOR (start e1) = Inr c1" and
    q: "op_word c1 = Inr (a :: u256, c2)" "op_word c2 = Inr (t :: u576, c3)" "op_word c3 = Inr (v :: u64, c4)"
      "op_word c4 = Inr (sc :: u32, c5)" "op_word c5 = Inr (la :: u512, c6)" and
    tp: "take_prestate c6 = Inr (s, c7)" and e: "Migrate_Execute E (Object_of s) v sc (nTimestamp c7) = Inr ob" and
    cm: "Migrate_Commit E ob a (hashCaller c') h t la FLAGS_BLOCK W = Inr W'"
    unfolding exec_migrate_def by (simp only: Reset_ALL rbind_Inr) (elim rbind_pairE rbindE, simp)
  have e1: "e1 = opos 64 c" using op_word_pos [OF r] by simp
  have "start e1 = start c" unfolding e1 by (simp add: start_def opos_def)
  then have "c1 = opos 65 (start c)" using Seek_pos [OF sk0] by simp
  moreover have "e1 = opos 65 (start c)" unfolding e1 by (subst at) simp
  ultimately have c1: "c1 = e1" by simp
  have sk: "Contract_Seek 64 OPERATIONS STREAM_CURSOR c = Inr c1" "Contract_Seek 72 OPERATIONS STREAM_CURSOR c2 = Inr c3"
    "Contract_Seek 64 OPERATIONS STREAM_CURSOR c5 = Inr c6"
    using skip_word [OF r] skip_word [OF q(2)] skip_word [OF q(5)] c1 by simp_all
  have "verify_state E True a (\<lambda>c. on_object (\<lambda>ob. Migrate_Execute E ob v sc (nTimestamp c))) FLAGS_BLOCK W Map.empty c6 = Inr (r, m)"
    using vr q(1,3,4) sk by (simp add: verify_migrate_def)
  then show ?thesis
    by (rule predicted_step [OF _ tp x, where s' = "State_of ob"])
      (use cm cl e c1 op_word_reg [OF r] op_word_reg [OF q(1)] op_word_reg [OF q(2)] op_word_reg [OF q(3)] op_word_reg [OF q(4)]
         op_word_reg [OF q(5)] in \<open>auto simp: Migrate_Commit_def Let_def ReadState_WriteState on_object_def split: if_splits\<close>)
qed

text \<open>Trust accounts.\<close>

lemma predicted_trust_step:
  assumes v: "verify_state E True a ex FLAGS_BLOCK W Map.empty cx = Inr (r, m)" and t: "take_prestate cx = Inr (s, cp)"
    and x: "exact E c W" "ssRegister cx = ssRegister c" and e: "ex cp s = Inr s'" and a: "trust_address E cx = Inr a"
    and w: "WriteTrust E (hashOwner s') s' W = Inr W1" and own: "hashOwner s' = hashOwner s"
    and W': "\<And>x. ReadState x FLAGS_BLOCK W' = ReadState x FLAGS_BLOCK W1"
  shows "predicted m W W'"
proof -
  have ow: "hashCaller cx = hashOwner s" using verify_state_facts(2) [OF v t] take_prestate_caller [OF t] by simp
  show ?thesis
  proof (rule WriteTrust_reads [OF w])
    fix b assume b: "Address_key E (str ''trust'') (hashOwner s') ADDR_TRUST = Inr b"
      and r: "\<And>x. ReadState x FLAGS_BLOCK W1 = (if x = b then Some s' else ReadState x FLAGS_BLOCK W)"
    have "b = a" using a b ow own by (simp add: trust_address_def)
    then show ?thesis using predicted_step [OF v t x, of s' W'] e r W' by simp
  qed
qed

lemma predicted_stake:
  assumes sk: "Contract_Seek n OPERATIONS STREAM_CURSOR c = Inr c1" and
    r: "op_word c1 = Inr (sc :: u64, c2)" "op_word c2 = Inr (ch :: u64, c3)" "op_word c3 = Inr (rw :: u64, c4)" and
    tp: "take_prestate c4 = Inr (s, c5)" and e: "Trust_Execute E (Object_of s) rw sc ch (nTimestamp c5) = Inr ob" and
    w: "Trust_Commit E (State_of ob) FLAGS_BLOCK W = Inr W'" and
    vr: "verify_trust E n FLAGS_BLOCK W Map.empty c = Inr (rs, m)" and x: "exact E c W"
  shows "predicted m W W'"
proof -
  have sk': "Contract_Seek (n + 24) OPERATIONS STREAM_CURSOR c = Inr c4"
    using skip_read [OF skip_read [OF skip_read [OF sk r(1)] r(2)] r(3)] by (simp add: add.commute)
  have hc: "hashCaller c4 = hashCaller c" using Seek_pos [OF sk'] by simp
  obtain a where a: "trust_address E c4 = Inr a" and vs: "verify_state E True a
      (\<lambda>c. on_object (\<lambda>ob. Trust_Execute E ob rw sc ch (nTimestamp c))) FLAGS_BLOCK W Map.empty c4 = Inr (rs, m)"
    using vr sk r hc unfolding verify_trust_def trust_address_def by auto
  have wt: "WriteTrust E (hashOwner (State_of ob)) (State_of ob) W = Inr W'"
    using w by (auto simp: Trust_Commit_def split: if_splits)
  have ow: "hashOwner (State_of ob) = hashOwner s" using Trust_Execute_owner [OF e] by simp
  show ?thesis
    by (rule predicted_trust_step [OF vs tp x Seek_reg [OF sk'] _ a wt ow refl]) (simp add: on_object_def e)
qed

lemma predicted_staking:
  assumes sk: "Contract_Seek n OPERATIONS STREAM_CURSOR c = Inr c1 \<or> n = 0 \<and> c1 = c" and
    r: "op_word c1 = Inr (rw :: u64, c4)" and
    tp: "take_prestate c4 = Inr (s, c5)" and e: "Genesis_Execute E (Object_of s) rw (nTimestamp c5) = Inr ob" and
    w: "Genesis_Commit E (State_of ob) FLAGS_BLOCK W = Inr W'" and
    vr: "verify_genesis E n FLAGS_BLOCK W Map.empty c = Inr (rs, m)" and pos: "sPos (ssOperation c) < 2 ^ 64" and x: "exact E c W"
  shows "predicted m W W'"
proof -
  have sk': "Contract_Seek (n + 8) OPERATIONS STREAM_CURSOR c = Inr c4"
    using sk skip_read [OF _ r] skip_word [OF r] by (auto simp: add.commute)
  have hc: "hashCaller c4 = hashCaller c" using Seek_pos [OF sk'] by simp
  have sk0: "(if n = 0 then Inr c else Contract_Seek n OPERATIONS STREAM_CURSOR c) = Inr c1"
    using sk Seek_pos [of 0 c c1] pos by auto
  obtain a where a: "trust_address E c4 = Inr a" and vs: "verify_state E True a
      (\<lambda>c. on_object (\<lambda>ob. Genesis_Execute E ob rw (nTimestamp c))) FLAGS_BLOCK W Map.empty c4 = Inr (rs, m)"
    using vr r hc unfolding verify_genesis_def trust_address_def sk0 by auto
  obtain W1 b where wt: "WriteTrust E (hashOwner (State_of ob)) (State_of ob) W = Inr W1"
    and W': "W' = IndexTrust (hashOwner ob) b W1"
    using w by (auto simp: Genesis_Commit_def split: if_splits)
  have ow: "hashOwner (State_of ob) = hashOwner s" using Genesis_Execute_owner [OF e] by simp
  show ?thesis
    by (rule predicted_trust_step [OF vs tp x Seek_reg [OF sk'] _ a wt ow]) (simp_all add: on_object_def e W')
qed

lemma predicted_coinstakes:
  assumes pos: "sPos (ssOperation c) < 2 ^ 64" "sPos (ssRegister c) = 0" and ex: "exact E c W"
  shows "exec_trust E FLAGS_BLOCK v c W k = Inr (c', W', k') \<Longrightarrow> verify_trust E 64 FLAGS_BLOCK W Map.empty c = Inr (r, m) \<Longrightarrow> predicted m W W'"
    and "exec_trustpool E FLAGS_BLOCK v c W k = Inr (c', W', k') \<Longrightarrow> verify_trust E 112 FLAGS_BLOCK W Map.empty c = Inr (r, m) \<Longrightarrow> predicted m W W'"
    and "exec_genesis E FLAGS_BLOCK v c W k = Inr (c', W', k') \<Longrightarrow> verify_genesis E 0 FLAGS_BLOCK W Map.empty c = Inr (r, m) \<Longrightarrow> predicted m W W'"
    and "exec_genesispool E FLAGS_BLOCK v c W k = Inr (c', W', k') \<Longrightarrow> verify_genesis E 48 FLAGS_BLOCK W Map.empty c = Inr (r, m) \<Longrightarrow> predicted m W W'"
proof -
  have at: "c0 = c" if "stake_verify opc E c = Inr c0" for opc c0
    using stake_verify_facts [OF that pos(1)] rpos_0 [OF pos(2)] by simp
  note sv = Trust_Verify_def Genesis_Verify_def Trustpool_Verify_def Genesispool_Verify_def
    Trustpool_Execute_def Genesispool_Execute_def Trustpool_Commit_def Genesispool_Commit_def
  show "predicted m W W'"
    if x: "exec_trust E FLAGS_BLOCK v c W k = Inr (c', W', k')" and vr: "verify_trust E 64 FLAGS_BLOCK W Map.empty c = Inr (r, m)"
    using x unfolding exec_trust_def sv
    by (elim rbind_pairE rbindE if_InlE) (drule at, use predicted_stake [OF _ _ _ _ _ _ _ vr ex] in auto)
  show "predicted m W W'"
    if x: "exec_trustpool E FLAGS_BLOCK v c W k = Inr (c', W', k')" and vr: "verify_trust E 112 FLAGS_BLOCK W Map.empty c = Inr (r, m)"
    using x unfolding exec_trustpool_def sv
    by (elim rbind_pairE rbindE if_InlE) (drule at, use predicted_stake [OF _ _ _ _ _ _ _ vr ex] in auto)
  show "predicted m W W'"
    if x: "exec_genesis E FLAGS_BLOCK v c W k = Inr (c', W', k')" and vr: "verify_genesis E 0 FLAGS_BLOCK W Map.empty c = Inr (r, m)"
    using x unfolding exec_genesis_def sv
    by (elim rbind_pairE rbindE if_InlE) (drule at, use predicted_staking [OF disjI2 [OF conjI [OF refl refl]] _ _ _ _ vr pos(1) ex] in auto)
  show "predicted m W W'"
    if x: "exec_genesispool E FLAGS_BLOCK v c W k = Inr (c', W', k')" and vr: "verify_genesis E 48 FLAGS_BLOCK W Map.empty c = Inr (r, m)"
    using x unfolding exec_genesispool_def sv
    by (elim rbind_pairE rbindE if_InlE) (drule at, use predicted_staking [OF _ _ _ _ _ vr pos(1) ex] in auto)
qed

lemma predicted_primitive:
  assumes ex: "exec_primitive X E FLAGS_BLOCK nOP v c W k = Inr (c', W', k')"
    and vr: "verify_primitive E FLAGS_BLOCK W Map.empty nOP c = Inr (r, m)"
    and pos: "sPos (ssOperation c) < 2 ^ 64" "sPos (ssRegister c) = 0" and len: "length (sData (ssOperation c)) < 2 ^ 63"
    and cl: "\<not> fClient E" and x: "exact E c W"
    and at: "nOP = OP_CREDIT \<or> nOP = OP_MIGRATE \<Longrightarrow> c = opos 1 (start c)"
  shows "predicted m W W'"
proof -
  note d = exec_primitive_def verify_primitive_def
  have p1: "sPos (ssOperation c) = 1" if "c = opos 1 (start c)"
    by (subst that) (simp add: opos_def)
  consider "nOP = OP_WRITE" | "nOP = OP_APPEND" | "nOP = OP_CREATE" | "nOP = OP_TRANSFER" | "nOP = OP_CLAIM"
    | "nOP = OP_COINBASE" | "nOP = OP_TRUST" | "nOP = OP_GENESIS" | "nOP = OP_TRUSTPOOL" | "nOP = OP_GENESISPOOL"
    | "nOP = OP_DEBIT" | "nOP = OP_CREDIT" | "nOP = OP_MIGRATE" | "nOP = OP_FEE" | "nOP = 0x03" | "nOP = OP_LEGACY"
    using ex unfolding exec_primitive_def by (auto split: if_splits)
  then show ?thesis
  proof cases
    case 1 show ?thesis using predicted_write [OF _ _ pos x] ex vr by (simp add: d 1)
  next
    case 2 show ?thesis using predicted_append [OF _ _ pos x] ex vr by (simp add: d 2)
  next
    case 3 show ?thesis using predicted_create [OF _ _ len pos(1)] ex vr by (simp add: d 3)
  next
    case 4 show ?thesis using predicted_transfer [OF _ _ pos x] ex vr by (simp add: d 4)
  next
    case 5 show ?thesis using predicted_claim [OF _ _ x] ex vr by (simp add: d 5)
  next
    case 6
    then have "m = Map.empty" using vr by (auto simp: verify_primitive_def verify_coinbase_def)
    moreover have "ReadState y FLAGS_BLOCK W' = ReadState y FLAGS_BLOCK W" for y
      using ex 6 unfolding exec_primitive_def exec_coinbase_def
      by (auto elim!: rbind_pairE rbindE simp: Coinbase_Commit_def simp del: rbind_eq_Inr split: if_splits)
    ultimately show ?thesis by (simp add: predicted_none)
  next
    case 7 show ?thesis using predicted_coinstakes(1) [OF pos x] ex vr by (simp add: d 7)
  next
    case 8 show ?thesis using predicted_coinstakes(3) [OF pos x] ex vr by (simp add: d 8)
  next
    case 9 show ?thesis using predicted_coinstakes(2) [OF pos x] ex vr by (simp add: d 9)
  next
    case 10 show ?thesis using predicted_coinstakes(4) [OF pos x] ex vr by (simp add: d 10)
  next
    case 11 show ?thesis using predicted_debit [OF _ _ pos x] ex vr by (simp add: d 11)
  next
    case 12 show ?thesis using predicted_credit [OF _ _ p1 pos(2) cl x] ex vr at by (simp add: d 12)
  next
    case 13 show ?thesis using predicted_migrate [OF _ _ _ cl x] ex vr at by (simp add: d 13)
  next
    case 14 show ?thesis using predicted_fee [OF _ _ pos x] ex vr by (simp add: d 14)
  next
    case 15
    then have "m = Map.empty" "W' = W" using ex vr by (auto simp: d exec_authorize_def)
    then show ?thesis by (simp add: predicted_none)
  next
    case 16 show ?thesis using predicted_legacy [OF _ _ pos x] ex vr by (simp add: d 16)
  qed
qed

lemma predicted_Execute:
  assumes ex: "Execute X E c FLAGS_BLOCK W k = Inr (W', k')" and vr: "Register_Verify E c Map.empty FLAGS_BLOCK W = Inr m"
    and cl: "\<not> fClient E" and len: "length (sData (ssOperation c)) < 2 ^ 63" and at: "at_primitive c = Inr (nOP, c1)"
    and x: "exact E (start c) W"
  shows "predicted m W W'"
proof -
  obtain v c2 W1 k1 where pr: "exec_prefix X E FLAGS_BLOCK (start c) W k = Inr (nOP, v, c1, W1, k1)"
    and e: "exec_primitive X E FLAGS_BLOCK nOP v c1 W1 k1 = Inr (c2, W', k')"
    by (rule Execute_primitive [OF ex len]) (use at in auto)
  obtain j where j: "c1 = opos j (start c)" and pos: "sPos (ssOperation c1) < 2 ^ 64"
    using at_primitive_pos [OF at len] by auto
  have c1: "sPos (ssRegister c1) = 0" "length (sData (ssOperation c1)) < 2 ^ 63" "start c1 = start c"
    using j len by (simp_all add: start_def opos_def)
  have at1: "c1 = opos 1 (start c1)" if n: "nOP = OP_CREDIT \<or> nOP = OP_MIGRATE"
  proof -
    obtain d where d: "op_word (start c) = Inr (nOP, d)" using no_prefix [OF e n j cl] by blast
    with prefix_undone(2) [OF pr] n have "c1 = d" by auto
    then show ?thesis using op_word_pos [OF d] c1(3) by simp
  qed
  obtain D where W1: "W1 = W\<lparr>wContract := D\<rparr>" using prefix_undone(3) [OF pr] by blast
  from vr prefix_undone(1) [OF pr] obtain r where v: "verify_primitive E FLAGS_BLOCK W Map.empty nOP c1 = Inr (r, m)"
    unfolding Register_Verify_def catch_all_def
    by (auto split: sum.splits error.splits if_splits elim!: rbind_pairE simp del: rbind_eq_Inr)
  have "ssRegister c1 = ssRegister (start c)" using j by (simp add: opos_def)
  then have "exact E c1 W1" using x by (simp add: exact_def recorded_def W1)
  then have "predicted m W1 W'"
    by (intro predicted_primitive [OF e _ pos c1(1,2) cl _ at1]) (simp_all add: W1 v)
  then show ?thesis by (simp add: predicted_def W1 cong: option.case_cong)
qed

section \<open>Disconnecting what was connected\<close>

text \<open>What the undoing of each contract relies on, in the world in which it was executed: the operation
  stream is of a size a stream can address, no other register collides with the recorded pre-state,
  and \<open>undoable\<close>.\<close>

fun revertible :: "ext \<Rightarrow> env \<Rightarrow> tx \<Rightarrow> contract list \<Rightarrow> world \<Rightarrow> bool" where
  "revertible X E t [] V \<longleftrightarrow> True"
| "revertible X E t (c # cs) V \<longleftrightarrow>
     length (sData (ssOperation c)) < 2 ^ 63 \<and> exact E (start c) V \<and>
     (\<exists>nOP c1. at_primitive (tx_bind t c) = Inr (nOP, c1) \<and> undoable nOP c1 V) \<and>
     (\<forall>k V' k'. Execute X E (tx_bind t c) FLAGS_BLOCK V k = Inr (V', k') \<longrightarrow> revertible X E t cs V')"

lemma exact_tx_bind: "exact E (start (tx_bind t c)) V \<longleftrightarrow> exact E (start c) V"
  by (simp add: exact_def recorded_def start_def)

lemma like_undone:
  assumes "undone E c W V" and "exact E (start c) W" and "\<forall>h n. ReadContract h n FLAGS_BLOCK V = ReadContract h n FLAGS_BLOCK W"
  shows "like W V"
proof -
  have "recorded (start c) s" if "prestate_of c = Inr s" for s
  proof -
    have "ssRegister (start c) = stream_of (sData (ssRegister c))" by (simp add: start_def stream_of_def)
    with that obtain cp where "take_prestate (start c) = Inr (s, cp)"
      unfolding prestate_of_def take_prestate_def reg_word_def reg_read_state_def creg_lift_def
      by (elim rbind_pairE if_InlE) auto
    then show ?thesis by (auto simp: recorded_def)
  qed
  then have "ReadState x FLAGS_BLOCK V = ReadState x FLAGS_BLOCK W" for x
    using assms(1,2) unfolding undone_def exact_def by metis
  then show ?thesis using assms(1,3) by (simp add: like_def undone_def)
qed

lemma predicted_trans:
  assumes "predicted m W V" and "predicted m2 V U"
  shows "predicted (m ++ m2) W U"
  using assms by (auto simp: predicted_def map_add_def split: option.splits)

lemma rollback_of_connect:
  assumes "connect_contracts X N E t FLAGS_BLOCK pb b cs V k = Inr (W', k')"
    and "verify_contracts E t FLAGS_BLOCK W cs m = Inr m'" and "predicted m W V" and "revertible X E t cs V" and cl: "\<not> fClient E"
  shows "\<exists>U. rollback_contracts E t FLAGS_BLOCK (rev cs) W' = Inr U \<and> like V U"
  using assms(1-4)
proof (induction cs arbitrary: V k m)
  case (Cons c cs)
  from Cons.prems(1) obtain V1 k1 k2 where e: "Execute X E (tx_bind t c) FLAGS_BLOCK V k = Inr (V1, k1)"
    and r: "connect_contracts X N E t FLAGS_BLOCK pb b cs V1 k2 = Inr (W', k')"
    by (auto elim!: rbind_pairE rbindE simp del: rbind_eq_Inr)
  from Cons.prems(2) obtain m1 where v: "Register_Verify E (tx_bind t c) m FLAGS_BLOCK W = Inr m1"
    and vs: "verify_contracts E t FLAGS_BLOCK W cs m1 = Inr m'" by auto
  obtain m2 where m2: "Register_Verify E (tx_bind t c) Map.empty FLAGS_BLOCK V = Inr m2" "m1 = m ++ m2"
    using Register_Verify_shift [OF v Cons.prems(3)] by blast
  from Cons.prems(4) obtain nOP c1 where len: "length (sData (ssOperation (tx_bind t c))) < 2 ^ 63"
    and x: "exact E (start (tx_bind t c)) V" and at: "at_primitive (tx_bind t c) = Inr (nOP, c1)" and un: "undoable nOP c1 V"
    unfolding exact_tx_bind by auto
  have rv: "revertible X E t cs V1" using Cons.prems(4) e by simp blast
  have p: "predicted m1 W V1"
    unfolding m2(2) by (rule predicted_trans [OF Cons.prems(3) predicted_Execute [OF e m2(1) cl len at x]])
  obtain U1 where U1: "rollback_contracts E t FLAGS_BLOCK (rev cs) W' = Inr U1" "like V1 U1"
    using Cons.IH [OF r vs p rv] by blast
  obtain V2 where V2: "Rollback E (tx_bind t c) FLAGS_BLOCK V1 = Inr V2" "like V V2"
    using Rollback_of_Execute [OF e m2(1) cl len at un] like_undone [OF _ x] by blast
  obtain U2 where U2: "Rollback E (tx_bind t c) FLAGS_BLOCK U1 = Inr U2" "like V2 U2"
    using like_Rollback [OF U1(2), of E "tx_bind t c"] V2(1) by (auto simp: simr_def)
  show ?case using U1(1) U2 like_trans [OF V2(2) U2(2)] by (auto simp: rollback_contracts_append)
qed simp

lemma like_WriteLast [simp]: "like (WriteLast g h V) W \<longleftrightarrow> like V W" "like V (WriteLast g h W) \<longleftrightarrow> like V W"
  by (simp_all add: like_def kept_def WriteLast_def world_ops)

lemma rollback_from_like:
  assumes "rollback_contracts E t FLAGS_BLOCK cs V = Inr U" and "like W U" and "like V V'"
  shows "\<exists>U'. rollback_contracts E t FLAGS_BLOCK cs V' = Inr U' \<and> like W U'"
  using like_rollback_contracts [OF assms(3), of E t cs] assms(1) like_trans [OF assms(2)] by (auto simp: simr_def)

text \<open>A connected transaction can be disconnected, and everything is as before.\<close>

lemma disconnect_connected:
  assumes "Transaction_Verify E t FLAGS_BLOCK W = Inr ()" and c: "Transaction_Connect X N E t FLAGS_BLOCK pb W = Inr W'"
    and "revertible X E t (vContracts t) W" and "IsCoinStake t = Inr False" and "\<not> IsFirst t" and "\<not> fClient E"
    and "lLast (wLedger W) (txGenesis t) = Some (txPrevTx t)"
  shows "\<exists>W''. Transaction_Disconnect E t FLAGS_BLOCK W' = Inr W'' \<and> like W W'' \<and> chain_of W'' = chain_of W"
proof -
  obtain m where m: "verify_contracts E t FLAGS_BLOCK W (vContracts t) Map.empty = Inr m"
    using assms(1) by (auto simp: Transaction_Verify_def)
  from c obtain b V k where v: "connect_contracts X N E t FLAGS_BLOCK pb b (vContracts t) W 0 = Inr (V, k)"
    and W': "W' = WriteLast (txGenesis t) (txHash t) V"
    by (rule Connect_parts) (use assms(5) in auto)
  have "predicted Map.empty W W" by (simp add: predicted_none)
  then obtain U0 where U0: "rollback_contracts E t FLAGS_BLOCK (rev (vContracts t)) V = Inr U0" "like W U0"
    using rollback_of_connect [OF v m _ assms(3,6)] by blast
  have "like V (disconnect_last t W')" using assms(5) by (simp add: W' disconnect_last_def)
  then obtain U where U: "rollback_contracts E t FLAGS_BLOCK (rev (vContracts t)) (disconnect_last t W') = Inr U" "like W U"
    using rollback_from_like [OF U0] by blast
  have "chain_of U = chain_of (disconnect_last t W')" by (rule chain_of_rollback_contracts [OF U(1)])
  moreover have "chain_of V = chain_of W" by (rule chain_of_connect_contracts [OF v])
  ultimately have "chain_of U = chain_of W"
    using assms(5,7) by (auto simp: chain_of_def W' disconnect_last_def WriteLast_def)
  then show ?thesis using U assms(4) by (simp add: Transaction_Disconnect_def)
qed

end
