(* ===== verification/Chain_Laws.thy ===== *)
theory Chain_Laws
  imports Block_Chain Ledger_Disconnect
begin

text \<open>
  Connecting and disconnecting blocks: the signature chains stay linked, an ordinary block can be taken off
  again, and the search for the fork of two chains ends at their last common block.
\<close>

section \<open>Signature chains\<close>

inductive sigchain :: "(u512 \<rightharpoonup> tx) \<Rightarrow> u256 \<Rightarrow> u512 \<Rightarrow> bool" for T g where
  sig_first: "T h = Some t \<Longrightarrow> txGenesis t = g \<Longrightarrow> IsFirst t \<Longrightarrow> sigchain T g h"
| sig_next: "T h = Some t \<Longrightarrow> txGenesis t = g \<Longrightarrow> \<not> IsFirst t \<Longrightarrow> T (txPrevTx t) = Some p \<Longrightarrow>
    txSequence t = txSequence p + 1 \<Longrightarrow> txTimestamp p \<le> txTimestamp t \<Longrightarrow> sigchain T g (txPrevTx t) \<Longrightarrow> sigchain T g h"

lemma sigchain_top:
  assumes "sigchain T g h" and "T h = Some t"
  shows "txGenesis t = g" and "\<not> IsFirst t \<Longrightarrow> sigchain T g (txPrevTx t)"
proof -
  have *: "txGenesis t = g \<and> (\<not> IsFirst t \<longrightarrow> sigchain T g (txPrevTx t))"
    using assms(1)
  proof cases
    case (sig_first u)
    then have "u = t" using assms(2) by (metis option.inject)
    then show ?thesis using sig_first by blast
  next
    case (sig_next u p)
    then have "u = t" using assms(2) by (metis option.inject)
    then show ?thesis using sig_next by blast
  qed
  show "txGenesis t = g" using * by blast
  show "sigchain T g (txPrevTx t)" if "\<not> IsFirst t" using * that by blast
qed

text \<open>Every transaction is stored under its hash, and the last transaction of a signature chain is the top of
  a chain of transactions of the same genesis, down to a first one.\<close>

definition well_chained :: "world \<Rightarrow> bool" where
  "well_chained W \<longleftrightarrow> (\<forall>h t. lTx (wLedger W) h = Some t \<longrightarrow> txHash t = h) \<and>
     (\<forall>g h. lLast (wLedger W) g = Some h \<longrightarrow> sigchain (lTx (wLedger W)) g h)"

lemma sigchain_mono:
  assumes "sigchain T g h" and "T k = None"
  shows "sigchain (T(k \<mapsto> t)) g h"
  using assms(1)
proof induction
  case (sig_first h t')
  then show ?case using assms(2) by (intro sigchain.sig_first [of _ _ t']) auto
next
  case (sig_next h t' p)
  have h: "(T(k \<mapsto> t)) h = Some t'" and p: "(T(k \<mapsto> t)) (txPrevTx t') = Some p"
    using sig_next(1,4) assms(2) by (metis fun_upd_other option.distinct(1))+
  show ?case by (rule sigchain.sig_next [where t = t' and p = p]) (fact h p sig_next)+
qed

lemma chain_of_stake [simp]: "chain_of (mark_stake_change t W) = chain_of W" "chain_of (reset_stake_change t W) = chain_of W"
  by (simp_all add: chain_of_def mark_stake_change_def reset_stake_change_def split: option.splits)

lemma chain_of_connect_stake:
  "connect_stake R E t h f b p W = Inr (b', p', W') \<Longrightarrow> chain_of W' = chain_of W"
  unfolding connect_stake_def by (auto elim!: rbindE rbind_pairE simp del: rbind_eq_Inr split: if_splits)

lemma lLast_chain: "chain_of V = chain_of W \<Longrightarrow> lLast (wLedger V) = lLast (wLedger W) \<and> lTx (wLedger V) = lTx (wLedger W)"
  by (simp add: chain_of_def)

lemma ledger_other [simp]:
  "lTx (wLedger (IndexBlock h b W)) = lTx (wLedger W)" "lTx (wLedger (EraseIndex h W)) = lTx (wLedger W)"
  "lTx (wLedger (WriteLast g h W)) = lTx (wLedger W)" "lTx (wLedger (WriteGenesis g h W)) = lTx (wLedger W)"
  "lTx (wLedger (WriteBlock k bl W)) = lTx (wLedger W)"
  "lLast (wLedger (IndexBlock h b W)) = lLast (wLedger W)" "lLast (wLedger (EraseIndex h W)) = lLast (wLedger W)"
  "lLast (wLedger (WriteGenesis g h W)) = lLast (wLedger W)" "lLast (wLedger (WriteLast g h W)) = (lLast (wLedger W))(g \<mapsto> h)"
  "lLast (wLedger (WriteBlock k bl W)) = lLast (wLedger W)"
  "lTx (wLedger (disconnect_last t W)) = lTx (wLedger W)"
  "lLast (wLedger (disconnect_last t W)) = (lLast (wLedger W))(txGenesis t \<mapsto> txPrevTx t)"
  by (simp_all add: IndexBlock_def EraseIndex_def WriteLast_def WriteGenesis_def WriteBlock_def disconnect_last_def EraseLast_def)

lemma connect_ledger:
  assumes "Transaction_Connect X N E t FLAGS_BLOCK pb W = Inr W'"
  shows "lTx (wLedger W') = lTx (wLedger W)" and "lLast (wLedger W') = (lLast (wLedger W))(txGenesis t \<mapsto> txHash t)"
proof -
  from assms obtain W0 b V k where f: "(if IsFirst t then rbind (connect_first E t FLAGS_BLOCK W) (\<lambda>W. Inr (W, False))
      else rbind (connect_previous N E t FLAGS_BLOCK W) (\<lambda>f. Inr (W, f))) = Inr (W0, b)"
    and c: "connect_contracts X N E t FLAGS_BLOCK pb b (vContracts t) W0 0 = Inr (V, k)"
    and W': "W' = WriteLast (txGenesis t) (txHash t) V"
    by (rule Connect_parts) auto
  have "lTx (wLedger W0) = lTx (wLedger W) \<and> lLast (wLedger W0) = lLast (wLedger W)"
    using f unfolding connect_first_def by (auto elim!: rbindE simp del: rbind_eq_Inr split: if_splits)
  then show "lTx (wLedger W') = lTx (wLedger W)" and "lLast (wLedger W') = (lLast (wLedger W))(txGenesis t \<mapsto> txHash t)"
    using lLast_chain [OF chain_of_connect_contracts [OF c]] by (simp_all add: W')
qed

lemma disconnect_ledger:
  assumes "Transaction_Disconnect E t FLAGS_BLOCK W = Inr W'"
  shows "lTx (wLedger W') = lTx (wLedger W)" and "lLast (wLedger W') = (lLast (wLedger W))(txGenesis t \<mapsto> txPrevTx t)"
proof -
  from assms obtain f V where V: "(if f then disconnect_stake t (disconnect_last t W) else Inr (disconnect_last t W)) = Inr V"
    and r: "rollback_contracts E t FLAGS_BLOCK (rev (vContracts t)) V = Inr W'"
    unfolding Transaction_Disconnect_def by (auto elim!: rbindE simp del: rbind_eq_Inr)
  have "chain_of V = chain_of (disconnect_last t W)"
    using V unfolding disconnect_stake_def by (auto elim!: rbindE rbind_pairE rbind_tripleE simp del: rbind_eq_Inr split: if_splits prod.splits)
  then show "lTx (wLedger W') = lTx (wLedger W)" and "lLast (wLedger W') = (lLast (wLedger W))(txGenesis t \<mapsto> txPrevTx t)"
    using lLast_chain [of W' V] lLast_chain [of V "disconnect_last t W"] chain_of_rollback_contracts [OF r] by auto
qed

text \<open>What happens to the ledger: a transaction is stored, it is connected in a block, or the last transaction
  of a signature chain is disconnected.\<close>

inductive ledger_step :: "env \<Rightarrow> world \<Rightarrow> world \<Rightarrow> bool" for E where
  step_store: "lTx (wLedger W) (txHash t) = None \<Longrightarrow> ledger_step E W (WriteTx (txHash t) t W)"
| step_connect: "connect_tritium X R N E f h (b, p, W) = Inr (b', p', W') \<Longrightarrow> ledger_step E W W'"
| step_disconnect: "ReadTx h FLAGS_BLOCK W = Some t \<Longrightarrow> lLast (wLedger W) (txGenesis t) = Some h \<Longrightarrow> \<not> IsFirst t \<Longrightarrow>
    Transaction_Disconnect E t FLAGS_BLOCK W = Inr W' \<Longrightarrow> ledger_step E W (EraseIndex h W')"

lemma well_chained_connect:
  assumes w: "well_chained W" and c: "connect_tritium X R N E f h (b, p, W) = Inr (b', p', W')" and cl: "\<not> fClient E"
  shows "well_chained W'"
proof -
  from c obtain t V b1 p1 V1 where t: "ReadTx h FLAGS_BLOCK W = Some t" and l: "check_last t W = Inr ()"
    and x: "Transaction_Connect X N E t FLAGS_BLOCK (Some b) W = Inr V"
    and s: "connect_stake R E t h f b1 p V = Inr (b', p', V1)" and W': "W' = IndexBlock h (Block_GetHash N b') V1"
    unfolding connect_tritium_def
    by (auto elim!: rbindE rbind_tripleE simp del: rbind_eq_Inr simp: found_eq_Inr split: if_splits)
  have e: "lTx (wLedger W') = lTx (wLedger W)" "lLast (wLedger W') = (lLast (wLedger W))(txGenesis t \<mapsto> txHash t)"
    using connect_ledger [OF x] lLast_chain [OF chain_of_connect_stake [OF s]] by (simp_all add: W')
  have th: "lTx (wLedger W) h = Some t" "txHash t = h" using t w by (auto simp: ReadTx_def well_chained_def)
  have "sigchain (lTx (wLedger W)) (txGenesis t) h"
  proof (cases "IsFirst t")
    case True
    then show ?thesis using th by (intro sig_first) auto
  next
    case False
    then obtain f' where "connect_previous N E t FLAGS_BLOCK W = Inr f'"
      using Connect_parts [OF x] by (metis (no_types, lifting) rbindE)
    then obtain q where q: "ReadTx (txPrevTx t) FLAGS_BLOCK W = Some q" "txSequence q + 1 = txSequence t" "txTimestamp q \<le> txTimestamp t"
      using connect_previous_facts [OF _ cl] by metis
    have "lLast (wLedger W) (txGenesis t) = Some (txPrevTx t)"
      using l False by (auto simp: check_last_def ReadLast_def split: if_splits)
    then have "sigchain (lTx (wLedger W)) (txGenesis t) (txPrevTx t)" using w by (simp add: well_chained_def)
    moreover have "lTx (wLedger W) (txPrevTx t) = Some q" using q(1) by (simp add: ReadTx_def)
    ultimately show ?thesis using th(1) False q(2) [symmetric] q(3) sig_next by blast
  qed
  then show ?thesis using w th(2) by (simp add: well_chained_def e)
qed

lemma well_chained_step:
  assumes "ledger_step E W W'" and w: "well_chained W" and "\<not> fClient E"
  shows "well_chained W'"
  using assms(1)
proof cases
  case (step_store t)
  then show ?thesis using w sigchain_mono by (auto simp: well_chained_def WriteTx_def)
next
  case step_connect
  then show ?thesis using well_chained_connect [OF w _ assms(3)] by blast
next
  case (step_disconnect h t V)
  have read: "lTx (wLedger W) h = Some t" using step_disconnect(2) by (simp add: ReadTx_def)
  have "sigchain (lTx (wLedger W)) (txGenesis t) h" using w step_disconnect(3) by (simp add: well_chained_def)
  then have "sigchain (lTx (wLedger W)) (txGenesis t) (txPrevTx t)"
    using read step_disconnect(4) by (rule sigchain_top(2))
  then show ?thesis using w disconnect_ledger [OF step_disconnect(5)] by (simp add: well_chained_def step_disconnect(1))
qed

lemma well_chained_steps:
  assumes "(ledger_step E)\<^sup>*\<^sup>* W W'" and "well_chained W" and "\<not> fClient E"
  shows "well_chained W'"
  using assms(1,2) by (induction rule: rtranclp_induct) (auto intro: well_chained_step [OF _ _ assms(3)])

text \<open>On a chain whose first transaction has no predecessor, the search for the last coinstake ends.\<close>

lemma last_stake_ends:
  assumes "sigchain (lTx (wLedger W)) g h" and "\<And>k t. lTx (wLedger W) k = Some t \<Longrightarrow> IsFirst t \<Longrightarrow> txPrevTx t = 0"
  shows "\<exists>r. last_stake_from W h = Some r \<and> (\<forall>t. r = Inr (Some t) \<longrightarrow> IsCoinStake t = Inr True \<and> txGenesis t = g)"
  using assms(1)
proof induction
  case (sig_first h t)
  have "last_stake_from W 0 = Some (Inr None)" by (subst last_stake_from.simps) simp
  then show ?case using sig_first assms(2) [of h t]
    by (subst last_stake_from.simps) (auto simp: ReadTx_def split: sum.splits)
next
  case (sig_next h t p)
  then show ?case by (subst last_stake_from.simps) (auto simp: ReadTx_def split: sum.splits)
qed

end
