(* ===== verification/Chain_Disconnect.thy ===== *)
theory Chain_Disconnect
  imports Chain_Laws
begin

text \<open>
  Taking a connected block off the chain again: the transactions are disconnected in the opposite order, each
  in a world like the one its connection led to.
\<close>

section \<open>The ledger without its blocks\<close>

definition links :: "world \<Rightarrow> (u256 \<rightharpoonup> u512) \<times> (u256 \<rightharpoonup> u512) \<times> (u512 \<rightharpoonup> u1024) \<times> (u512 \<rightharpoonup> tx) \<times> (u512 \<rightharpoonup> tx) \<times>
    (u512 \<rightharpoonup> txout list)" where
  "links W = (lLast (wLedger W), lGenesis (wLedger W), lIndex (wLedger W), lTx (wLedger W), lMempool (wLedger W), wLegacyTx W)"

lemma links_chain: "chain_of V = chain_of W \<Longrightarrow> links V = links W"
  by (simp add: chain_of_def links_def)

lemma links_writes [simp]: "links (WriteBlock k b W) = links W"
  by (simp add: links_def WriteBlock_def)

lemma ReadTx_links: "links V = links W \<Longrightarrow> ReadTx h f V = ReadTx h f W"
  by (simp add: links_def ReadTx_def split: option.split)

lemma like_ledger [simp]:
  "like (IndexBlock h k V) W \<longleftrightarrow> like V W" "like V (IndexBlock h k W) \<longleftrightarrow> like V W"
  "like (EraseIndex h V) W \<longleftrightarrow> like V W" "like V (EraseIndex h W) \<longleftrightarrow> like V W"
  "like (WriteBlock k b V) W \<longleftrightarrow> like V W" "like V (WriteBlock k b W) \<longleftrightarrow> like V W"
  by (simp_all add: like_def kept_def IndexBlock_def EraseIndex_def WriteBlock_def world_ops)

section \<open>Disconnecting in a world alike\<close>

lemma disconnect_chain:
  assumes "Transaction_Disconnect E t FLAGS_BLOCK W = Inr W'" and "IsCoinStake t = Inr False"
  shows "chain_of W' = chain_of (disconnect_last t W)"
  using assms chain_of_rollback_contracts by (auto simp: Transaction_Disconnect_def)

lemma disconnect_from_like:
  assumes "Transaction_Disconnect E t FLAGS_BLOCK V = Inr U" and "IsCoinStake t = Inr False" and "\<not> IsFirst t" and "like V V'"
  shows "\<exists>U'. Transaction_Disconnect E t FLAGS_BLOCK V' = Inr U' \<and> like U U' \<and> chain_of U' = chain_of (disconnect_last t V')"
proof -
  have r: "rollback_contracts E t FLAGS_BLOCK (rev (vContracts t)) (disconnect_last t V) = Inr U"
    using assms(1,2) by (simp add: Transaction_Disconnect_def)
  have "like (disconnect_last t V) (disconnect_last t V')" using assms(3,4) by (simp add: disconnect_last_def)
  then obtain U' where U': "rollback_contracts E t FLAGS_BLOCK (rev (vContracts t)) (disconnect_last t V') = Inr U'" "like U U'"
    using rollback_from_like [OF r like_refl] by blast
  then show ?thesis using assms(2) chain_of_rollback_contracts [OF U'(1)] by (auto simp: Transaction_Disconnect_def)
qed

lemma disconnect_vtx_append:
  "disconnect_vtx L E b (vs @ ws) W = rbind (disconnect_vtx L E b vs W) (disconnect_vtx L E b ws)"
proof (induction vs arbitrary: W)
  case (Cons v vs)
  obtain ty h where "v = (ty, h)" by (cases v)
  then show ?case using Cons.IH by (simp add: rbind_assoc)
qed simp

section \<open>The transactions of a block\<close>

lemma connect_tritium_parts:
  assumes "connect_tritium X R N E f h (b, p, W) = Inr (b', p', W')"
  obtains t V n b1 where "\<not> HasIndex h W" and "ReadTx h FLAGS_BLOCK W = Some t" and "check_last t W = Inr ()"
    and "Transaction_Verify E t FLAGS_BLOCK W = Inr ()" and "Transaction_Connect X N E t FLAGS_BLOCK (Some b) W = Inr V"
    and "Transaction_Fees t = Inr n" and "connect_stake R E t h f (b\<lparr>bFees := bFees b + n\<rparr>) p V = Inr (b', p', b1)"
    and "W' = IndexBlock h (Block_GetHash N b') b1"
  using assms unfolding connect_tritium_def
  by (auto elim!: rbindE rbind_tripleE simp del: rbind_eq_Inr simp: found_eq_Inr split: if_splits)

text \<open>The block has transactions of signature chains only, none a first one or a coinstake, and each can be
  rolled back from where it is executed.\<close>

fun ordinary_vtx :: "ext \<Rightarrow> rewards \<Rightarrow> node \<Rightarrow> env \<Rightarrow> u512 \<Rightarrow> (u8 \<times> u512) list \<Rightarrow> block_state \<times> u64 \<times> world \<Rightarrow> bool" where
  "ordinary_vtx X R N E f [] s \<longleftrightarrow> True"
| "ordinary_vtx X R N E f ((ty, h) # vtx) (b, p, W) \<longleftrightarrow>
     ty = TX_TRITIUM \<and>
     (\<exists>t. ReadTx h FLAGS_BLOCK W = Some t \<and> txHash t = h \<and> \<not> IsFirst t \<and> IsCoinStake t = Inr False \<and> revertible X E t (vContracts t) W) \<and>
     (\<forall>s. connect_tritium X R N E f h (b, p, W) = Inr s \<longrightarrow> ordinary_vtx X R N E f vtx s)"

lemma disconnect_of_connect:
  assumes "connect_vtx X R L N E f vtx (b, p, W) = Inr (b', p', W')" and "ordinary_vtx X R N E f vtx (b, p, W)" and cl: "\<not> fClient E"
    and "like W' V" and "links V = links W'"
  shows "\<exists>U. disconnect_vtx L E a (rev vtx) V = Inr U \<and> like W U \<and> links U = links W \<and> lBlocks (wLedger U) = lBlocks (wLedger V)"
  using assms(1,2,4,5)
proof (induction vtx arbitrary: b p W V)
  case (Cons v vtx)
  obtain ty h where v: "v = (ty, h)" by (cases v)
  then obtain t where ty: "ty = TX_TRITIUM" and t: "ReadTx h FLAGS_BLOCK W = Some t" "txHash t = h" "\<not> IsFirst t"
    "IsCoinStake t = Inr False" "revertible X E t (vContracts t) W"
    using Cons.prems(2) by auto
  obtain s where "connect_tritium X R N E f h (b, p, W) = Inr s" "connect_vtx X R L N E f vtx s = Inr (b', p', W')"
    using Cons.prems(1) unfolding v ty by (auto elim: rbindE simp del: rbind_eq_Inr)
  then obtain b1 p1 W1 where c: "connect_tritium X R N E f h (b, p, W) = Inr (b1, p1, W1)"
    and r: "connect_vtx X R L N E f vtx (b1, p1, W1) = Inr (b', p', W')"
    by (cases s) auto
  obtain V1 n where x: "\<not> HasIndex h W" "check_last t W = Inr ()" "Transaction_Verify E t FLAGS_BLOCK W = Inr ()"
    "Transaction_Connect X N E t FLAGS_BLOCK (Some b) W = Inr V1" "W1 = IndexBlock h (Block_GetHash N b1) V1"
    by (rule connect_tritium_parts [OF c]) (use t in \<open>auto simp: connect_stake_def\<close>)
  have "ordinary_vtx X R N E f vtx (b1, p1, W1)" using Cons.prems(2) c by (simp add: v ty)
  then obtain U1 where U1: "disconnect_vtx L E a (rev vtx) V = Inr U1" "like W1 U1" "links U1 = links W1"
    "lBlocks (wLedger U1) = lBlocks (wLedger V)"
    using Cons.IH [OF r _ Cons.prems(3,4)] by blast
  have last: "lLast (wLedger W) (txGenesis t) = Some (txPrevTx t)"
    using x(2) t(3) by (auto simp: check_last_def ReadLast_def split: if_splits)
  obtain U2 where U2: "Transaction_Disconnect E t FLAGS_BLOCK V1 = Inr U2" "like W U2" "chain_of U2 = chain_of W"
    using disconnect_connected [OF x(3,4) t(5,4,3) cl last] by blast
  have "like V1 U1" using U1(2) by (simp add: x(5))
  then obtain U3 where U3: "Transaction_Disconnect E t FLAGS_BLOCK U1 = Inr U3" "like U2 U3" "chain_of U3 = chain_of (disconnect_last t U1)"
    using disconnect_from_like [OF U2(1) t(4,3)] by blast
  have "chain_of U2 = chain_of (disconnect_last t V1)" by (rule disconnect_chain [OF U2(1) t(4)])
  then have e: "chain_of (disconnect_last t V1) = chain_of W" using U2(3) by simp
  have rd: "ReadTx h FLAGS_BLOCK U1 = Some t"
  proof -
    have "lTx (wLedger V1) = lTx (wLedger W)" using e t(3) by (simp add: chain_of_def disconnect_last_def WriteLast_def)
    moreover have "lTx (wLedger U1) = lTx (wLedger W1)" using U1(3) by (simp add: links_def)
    ultimately show ?thesis using t(1) by (simp add: x(5) ReadTx_def)
  qed
  have "links (EraseIndex h U3) = links W"
    using e U3(3) U1(3) x(1) t(3)
    by (auto simp: links_def chain_of_def x(5) disconnect_last_def WriteLast_def EraseIndex_def IndexBlock_def HasIndex_def)
  moreover have "lBlocks (wLedger (EraseIndex h U3)) = lBlocks (wLedger V)"
    using U3(3) U1(4) t(3) by (simp add: chain_of_def disconnect_last_def WriteLast_def EraseIndex_def)
  moreover have "like W (EraseIndex h U3)" using like_trans [OF U2(2) U3(2)] by simp
  ultimately show ?case using U1(1) rd U3(1) by (simp add: disconnect_vtx_append v ty)
qed auto

section \<open>What connecting leaves of a block\<close>

lemma connect_stake_block:
  assumes "connect_stake R E t h f b p W = Inr (b', p', W')"
  shows "\<exists>m. b' = b\<lparr>bMint := bMint b + m\<rparr>"
proof -
  have z: "\<exists>m. b = b\<lparr>bMint := bMint b + m\<rparr>" by (rule exI [of _ 0]) simp
  have "\<exists>m. b\<lparr>bMint := bMint b + k\<rparr> = b\<lparr>bMint := bMint b + m\<rparr>" for k by blast
  then show ?thesis using assms z unfolding connect_stake_def CheckTrust_def
    by (auto elim!: rbindE rbind_pairE simp del: rbind_eq_Inr split: if_splits)
qed

lemma connect_vtx_block:
  assumes "connect_vtx X R L N E f vtx (b, p, W) = Inr (b', p', W')"
  shows "\<exists>n m. b' = b\<lparr>bFees := n, bMint := bMint b + m\<rparr>"
  using assms
proof (induction vtx arbitrary: b p W)
  case Nil
  then show ?case by (intro exI [of _ "bFees b"] exI [of _ 0]) simp
next
  case (Cons v vtx)
  obtain ty h where v: "v = (ty, h)" by (cases v)
  obtain s where s: "(if ty = TX_TRITIUM then connect_tritium X R N E f h (b, p, W)
      else if ty = TX_LEGACY then connect_legacy L N h (b, p, W)
      else Inl (Reject ''using an unknown transaction type'')) = Inr s" "connect_vtx X R L N E f vtx s = Inr (b', p', W')"
    using Cons.prems unfolding v by (auto elim: rbindE simp del: rbind_eq_Inr)
  obtain b1 p1 W1 where s1: "s = (b1, p1, W1)" by (cases s)
  have "\<exists>n m. b1 = b\<lparr>bFees := n, bMint := bMint b + m\<rparr>"
  proof (cases "ty = TX_TRITIUM")
    case True
    then have "connect_tritium X R N E f h (b, p, W) = Inr (b1, p1, W1)" using s(1) by (simp add: s1)
    then show ?thesis by (rule connect_tritium_parts) (force dest: connect_stake_block)
  next
    case False
    have "\<exists>n m. b\<lparr>bMint := k\<rparr> = b\<lparr>bFees := n, bMint := bMint b + m\<rparr>" for k
      by (intro exI [of _ "bFees b"] exI [of _ "k - bMint b"]) simp
    then show ?thesis using s(1) False unfolding s1 connect_legacy_def
      by (auto elim!: rbindE rbind_pairE simp del: rbind_eq_Inr split: if_splits)
  qed
  then obtain n1 m1 where "b1 = b\<lparr>bFees := n1, bMint := bMint b + m1\<rparr>" by blast
  moreover obtain n2 m2 where "b' = b1\<lparr>bFees := n2, bMint := bMint b1 + m2\<rparr>" using Cons.IH s(2) unfolding s1 by blast
  ultimately have "b' = b\<lparr>bFees := n2, bMint := bMint b + (m1 + m2)\<rparr>" by (simp add: add.assoc)
  then show ?case by blast
qed

text \<open>The fees of a block are the sum of the fees its transactions of signature chains pay.\<close>

fun block_fees :: "(u512 \<rightharpoonup> tx) \<Rightarrow> (u8 \<times> u512) list \<Rightarrow> u64" where
  "block_fees T [] = 0"
| "block_fees T ((ty, h) # vtx) =
     (if ty = TX_TRITIUM then
        case T h of Some t \<Rightarrow> (case Transaction_Fees t of Inr n \<Rightarrow> n | Inl _ \<Rightarrow> 0) | None \<Rightarrow> 0
      else 0) + block_fees T vtx"

text \<open>The reward a coinstake claims: the last operand of its only contract.\<close>

definition claimed_reward :: "tx \<Rightarrow> u64 res" where
  "claimed_reward t =
     rbind (ror (IsTrustPool t) (IsGenesisPool t)) (\<lambda>fPool.
     rbind (stake_account (vContracts t ! 0)) (\<lambda>(account, c).
     rbind (ror (tx_IsTrust t) (IsTrustPool t)) (\<lambda>fTrust.
     rbind (Contract_Seek 1 OPERATIONS STREAM_CURSOR c) (\<lambda>c.
     rbind (if fTrust then rbind (op_word c) (\<lambda>(hashLast :: u512, c). Inr c) else Inr c) (\<lambda>c.
     rbind (if fPool then Contract_Seek 48 OPERATIONS STREAM_CURSOR c else Inr c) (\<lambda>c.
     rbind (if fTrust then rbind (op_word c) (\<lambda>(nTrust :: u64, c). rbind (op_word c) (\<lambda>(nChange :: u64, c). Inr c)) else Inr c) (\<lambda>c.
     rbind (op_word c) (\<lambda>(nReward, c). Inr nReward))))))))"

fun stake_rewards :: "(u512 \<rightharpoonup> tx) \<Rightarrow> (u8 \<times> u512) list \<Rightarrow> nat" where
  "stake_rewards T [] = 0"
| "stake_rewards T ((ty, h) # vtx) =
     (case T h of
        Some t \<Rightarrow> (if IsCoinStake t = Inr True then (case claimed_reward t of Inr r \<Rightarrow> unat r | Inl _ \<Rightarrow> 0) else 0)
      | None \<Rightarrow> 0) + stake_rewards T vtx"

lemma check_trust_claimed:
  assumes "check_trust R E t b q fPool p finder account c W = Inr (r, p')"
    and "ror (IsTrustPool t) (IsGenesisPool t) = Inr fPool" and "stake_account (vContracts t ! 0) = Inr (account, c)"
    and "ror (tx_IsTrust t) (IsTrustPool t) = Inr True"
  shows "claimed_reward t = Inr r"
proof -
  from assms(1) obtain c1 l c2 c3 s c4 d c5 c6 where "Contract_Seek 1 OPERATIONS STREAM_CURSOR c = Inr c1" "op_word c1 = Inr (l :: u512, c2)"
    "(if fPool then Contract_Seek 48 OPERATIONS STREAM_CURSOR c2 else Inr c2) = Inr c3" "op_word c3 = Inr (s :: u64, c4)"
    "op_word c4 = Inr (d :: u64, c5)" "op_word c5 = Inr (r, c6)"
    unfolding check_trust_def Let_def by (elim rbindE rbind_pairE if_InlE) (auto split: if_splits)
  then show ?thesis using assms(2-4) by (simp add: claimed_reward_def del: rbind_eq_Inr)
qed

lemma check_genesis_claimed:
  assumes "check_genesis R b q fPool p account c = Inr (r, p')"
    and "ror (IsTrustPool t) (IsGenesisPool t) = Inr fPool" and "stake_account (vContracts t ! 0) = Inr (account, c)"
    and "ror (tx_IsTrust t) (IsTrustPool t) = Inr False"
  shows "claimed_reward t = Inr r"
proof -
  from assms(1) obtain c1 c2 c3 where "Contract_Seek 1 OPERATIONS STREAM_CURSOR c = Inr c1"
    "(if fPool then Contract_Seek 48 OPERATIONS STREAM_CURSOR c1 else Inr c1) = Inr c2" "op_word c2 = Inr (r, c3)"
    unfolding check_genesis_def Let_def by (elim rbindE rbind_pairE if_InlE) (auto split: if_splits)
  then show ?thesis using assms(2-4) by (simp add: claimed_reward_def del: rbind_eq_Inr)
qed

lemma connect_stake_mint:
  assumes "connect_stake R E t h f b p W = Inr (b', p', W')" and "lTx (wLedger W0) h = Some t"
  shows "b' = b\<lparr>bMint := bMint b + of_nat (stake_rewards (lTx (wLedger W0)) [(ty, h)])\<rparr>"
proof (cases "IsCoinStake t = Inr True")
  case True
  then obtain p1 where "CheckTrust R E t b p (h = f) W = Inr (b', p1)"
    using assms(1) unfolding connect_stake_def by (auto elim!: rbind_pairE simp del: rbind_eq_Inr)
  then obtain fPool account c q fTrust r where k: "ror (IsTrustPool t) (IsGenesisPool t) = Inr fPool"
    "stake_account (vContracts t ! 0) = Inr (account, c)" "ror (tx_IsTrust t) (IsTrustPool t) = Inr fTrust"
    and x: "(if fTrust then check_trust R E t b q fPool p (h = f) account c W
      else check_genesis R b q fPool p account c) = Inr (r, p1)" and b': "b' = b\<lparr>bMint := bMint b + ucast r\<rparr>"
    using True unfolding CheckTrust_def by (auto elim!: rbindE rbind_pairE simp del: rbind_eq_Inr)
  have "claimed_reward t = Inr r"
    using x k check_trust_claimed [of R E t b q fPool p _ account c W r p1] check_genesis_claimed [of R b q fPool p account c r p1 t]
    by (cases fTrust) auto
  then show ?thesis using True assms(2) b' by simp
next
  case False
  then have "b' = b" using assms(1) unfolding connect_stake_def by (auto elim!: rbindE simp del: rbind_eq_Inr split: if_splits)
  then show ?thesis using False assms(2) by simp
qed

lemma connect_tritium_fees:
  assumes "connect_tritium X R N E f h (b, p, W) = Inr (b', p', W')"
  shows "bFees b' = bFees b + block_fees (lTx (wLedger W)) [(TX_TRITIUM, h)]" and "lTx (wLedger W') = lTx (wLedger W)"
    and "bMint b' = bMint b + of_nat (stake_rewards (lTx (wLedger W)) [(TX_TRITIUM, h)])"
proof -
  obtain t V n W1 where t: "ReadTx h FLAGS_BLOCK W = Some t" and x: "Transaction_Connect X N E t FLAGS_BLOCK (Some b) W = Inr V"
    and n: "Transaction_Fees t = Inr n" and s: "connect_stake R E t h f (b\<lparr>bFees := bFees b + n\<rparr>) p V = Inr (b', p', W1)"
    and W': "W' = IndexBlock h (Block_GetHash N b') W1"
    by (rule connect_tritium_parts [OF assms])
  show "lTx (wLedger W') = lTx (wLedger W)"
    using connect_ledger(1) [OF x] lLast_chain [OF chain_of_connect_stake [OF s]] by (simp add: W')
  have "bFees b' = bFees b + n" using connect_stake_block [OF s] by auto
  then show "bFees b' = bFees b + block_fees (lTx (wLedger W)) [(TX_TRITIUM, h)]" using t n by (simp add: ReadTx_def)
  have "lTx (wLedger W) h = Some t" using t by (simp add: ReadTx_def)
  from arg_cong [where f = bMint, OF connect_stake_mint [OF s this, where ty = TX_TRITIUM]]
  show "bMint b' = bMint b + of_nat (stake_rewards (lTx (wLedger W)) [(TX_TRITIUM, h)])" by simp
qed

text \<open>Transactions leave the blocks on disk as they are.\<close>

lemma connect_tritium_blocks:
  assumes "connect_tritium X R N E f h (b, p, W) = Inr (b', p', W')"
  shows "lBlocks (wLedger W') = lBlocks (wLedger W)"
proof (rule connect_tritium_parts [OF assms])
  fix t V n W1
  assume x: "Transaction_Connect X N E t FLAGS_BLOCK (Some b) W = Inr V"
    and s: "connect_stake R E t h f (b\<lparr>bFees := bFees b + n\<rparr>) p V = Inr (b', p', W1)"
    and W': "W' = IndexBlock h (Block_GetHash N b') W1"
  from x obtain W0 f0 U k where f: "(if IsFirst t then rbind (connect_first E t FLAGS_BLOCK W) (\<lambda>W. Inr (W, False))
      else rbind (connect_previous N E t FLAGS_BLOCK W) (\<lambda>f. Inr (W, f))) = Inr (W0, f0)"
    and c: "connect_contracts X N E t FLAGS_BLOCK (Some b) f0 (vContracts t) W0 0 = Inr (U, k)"
    and V: "V = WriteLast (txGenesis t) (txHash t) U"
    by (rule Connect_parts) auto
  have "lBlocks (wLedger W0) = lBlocks (wLedger W)"
    using f unfolding connect_first_def WriteGenesis_def by (auto elim!: rbindE simp del: rbind_eq_Inr split: if_splits)
  then show ?thesis
    using chain_of_connect_contracts [OF c] chain_of_connect_stake [OF s]
    by (simp add: W' V chain_of_def IndexBlock_def WriteLast_def)
qed

lemma connect_vtx_step:
  assumes "connect_vtx X R L N E f ((ty, h) # vtx) (b, p, W) = Inr r" and "legacy_keeps L"
  obtains b1 p1 W1 where "connect_vtx X R L N E f vtx (b1, p1, W1) = Inr r"
    and "lBlocks (wLedger W1) = lBlocks (wLedger W)" and "lTx (wLedger W1) = lTx (wLedger W)"
    and "bFees b1 = bFees b + block_fees (lTx (wLedger W)) [(ty, h)]"
    and "ty = TX_TRITIUM \<Longrightarrow> bMint b1 = bMint b + of_nat (stake_rewards (lTx (wLedger W)) [(ty, h)])"
proof -
  obtain s where s: "(if ty = TX_TRITIUM then connect_tritium X R N E f h (b, p, W)
      else if ty = TX_LEGACY then connect_legacy L N h (b, p, W)
      else Inl (Reject ''using an unknown transaction type'')) = Inr s" "connect_vtx X R L N E f vtx s = Inr r"
    using assms(1) by (auto elim: rbindE simp del: rbind_eq_Inr)
  obtain b1 p1 W1 where s1: "s = (b1, p1, W1)" by (cases s)
  show thesis
  proof (cases "ty = TX_TRITIUM")
    case True
    then have c: "connect_tritium X R N E f h (b, p, W) = Inr (b1, p1, W1)" using s(1) by (simp add: s1)
    show thesis
      by (rule that [of b1 p1 W1]) (use s(2) True connect_tritium_fees [OF c] connect_tritium_blocks [OF c] in \<open>simp_all add: s1\<close>)
  next
    case False
    then obtain m V where "xConnect L h b W = Inr (m, V)" "b1 = b\<lparr>bMint := m\<rparr>" "W1 = IndexBlock h (Block_GetHash N b) V"
      using s(1) unfolding s1 connect_legacy_def by (auto elim!: rbind_pairE simp del: rbind_eq_Inr split: if_splits)
    moreover have "lBlocks (wLedger (IndexBlock h k V)) = lBlocks (wLedger V)" for k by (simp add: IndexBlock_def)
    ultimately show thesis
      by (intro that [of b1 p1 W1]) (use s(2) False assms(2) in \<open>auto simp: s1 legacy_keeps_def\<close>)
  qed
qed

lemma connect_vtx_fees:
  assumes "connect_vtx X R L N E f vtx (b, p, W) = Inr (b', p', W')" and "legacy_keeps L"
  shows "bFees b' = bFees b + block_fees (lTx (wLedger W)) vtx \<and> lBlocks (wLedger W') = lBlocks (wLedger W) \<and>
    lTx (wLedger W') = lTx (wLedger W)"
  using assms(1)
proof (induction vtx arbitrary: b p W)
  case (Cons v vtx)
  obtain ty h where v: "v = (ty, h)" by (cases v)
  obtain b1 p1 W1 where r: "connect_vtx X R L N E f vtx (b1, p1, W1) = Inr (b', p', W')"
    "lBlocks (wLedger W1) = lBlocks (wLedger W)" "lTx (wLedger W1) = lTx (wLedger W)"
    "bFees b1 = bFees b + block_fees (lTx (wLedger W)) [(ty, h)]"
    by (rule connect_vtx_step [OF Cons.prems [unfolded v] assms(2)])
  then show ?case using Cons.IH [OF r(1)] by (simp add: v add.assoc)
qed simp

lemma connect_vtx_mint:
  assumes "connect_vtx X R L N E f vtx (b, p, W) = Inr (b', p', W')" and "legacy_keeps L" and "\<forall>v \<in> set vtx. fst v = TX_TRITIUM"
  shows "bMint b' = bMint b + of_nat (stake_rewards (lTx (wLedger W)) vtx)"
  using assms(1,3)
proof (induction vtx arbitrary: b p W)
  case (Cons v vtx)
  obtain ty h where v: "v = (ty, h)" by (cases v)
  have ty: "ty = TX_TRITIUM" using Cons.prems(2) by (simp add: v)
  obtain b1 p1 W1 where r: "connect_vtx X R L N E f vtx (b1, p1, W1) = Inr (b', p', W')" "lTx (wLedger W1) = lTx (wLedger W)"
    "bMint b1 = bMint b + of_nat (stake_rewards (lTx (wLedger W)) [(ty, h)])"
    by (rule connect_vtx_step [OF Cons.prems(1) [unfolded v] assms(2)]) (use ty in simp)
  then show ?case using Cons.IH [OF r(1)] Cons.prems(2) by (simp add: v add.assoc)
qed simp

section \<open>A block and its disconnection\<close>

lemma Block_Connect_parts:
  assumes "Block_Connect X R L N E b W = Inr (b', W')"
  obtains b1 p V prev n m where "connect_vtx X R L N E (snd (last (bVtx b))) (bVtx b) (b\<lparr>bFees := 0\<rparr>, 0, W) = Inr (b1, p, V)"
    and "Prev E b V = Inr prev"
    and "b' = b1\<lparr>bMoneySupply := (if Block_IsNull prev then 0 else bMoneySupply prev) + scast (bMint b1),
      bFeeReserve := bFeeReserve b1 + bFees b1\<rparr>"
    and "W' = (if Block_IsNull prev then WriteBlock (Block_GetHash N b) b' V
      else WriteBlock (Block_GetHash N prev) (prev\<lparr>hashNextBlock := Block_GetHash N b\<rparr>) (WriteBlock (Block_GetHash N b) b' V))"
    and "b1 = b\<lparr>bFees := n, bMint := bMint b + m\<rparr>"
proof -
  from assms obtain b1 p V where c: "connect_vtx X R L N E (snd (last (bVtx b))) (bVtx b) (b\<lparr>bFees := 0\<rparr>, 0, W) = Inr (b1, p, V)"
    and f: "finish_block N E b1 V = Inr (b', W')"
    unfolding Block_Connect_def by (auto elim!: rbind_tripleE simp del: rbind_eq_Inr split: if_splits)
  obtain n m where b1: "b1 = b\<lparr>bFees := n, bMint := bMint b + m\<rparr>" using connect_vtx_block [OF c] by auto
  have h: "Block_GetHash N (b1\<lparr>bMoneySupply := x, bFeeReserve := y\<rparr>) = Block_GetHash N b" for x y
    by (simp add: Block_GetHash_def b1 block_header.truncate_def)
  have pr: "Prev E b1 V = Prev E b V" by (simp add: Prev_def b1)
  obtain prev where prev: "Prev E b V = Inr prev"
    using f unfolding finish_block_def pr by (auto elim: rbindE simp del: rbind_eq_Inr)
  have "b' = b1\<lparr>bMoneySupply := (if Block_IsNull prev then 0 else bMoneySupply prev) + scast (bMint b1),
      bFeeReserve := bFeeReserve b1 + bFees b1\<rparr> \<and>
    W' = (if Block_IsNull prev then WriteBlock (Block_GetHash N b) b' V
      else WriteBlock (Block_GetHash N prev) (prev\<lparr>hashNextBlock := Block_GetHash N b\<rparr>) (WriteBlock (Block_GetHash N b) b' V))"
    using f unfolding finish_block_def pr prev Let_def rbind_Inr h by (auto split: if_splits)
  then show thesis using that [OF c prev] b1 by blast
qed

lemma block_disconnected:
  assumes "Block_Connect X R L N E b W = Inr (b', W')" and "\<not> fClient E"
    and "ordinary_vtx X R N E (snd (last (bVtx b))) (bVtx b) (b\<lparr>bFees := 0\<rparr>, 0, W)"
  shows "\<exists>U. Block_Disconnect L N E b' W' = Inr U \<and> like W U \<and> links U = links W"
proof -
  from assms(1) obtain b1 p V prev n m where c: "connect_vtx X R L N E (snd (last (bVtx b))) (bVtx b) (b\<lparr>bFees := 0\<rparr>, 0, W) = Inr (b1, p, V)"
    and prev: "Prev E b V = Inr prev"
    and b': "b' = b1\<lparr>bMoneySupply := (if Block_IsNull prev then 0 else bMoneySupply prev) + scast (bMint b1),
      bFeeReserve := bFeeReserve b1 + bFees b1\<rparr>"
    and W': "W' = (if Block_IsNull prev then WriteBlock (Block_GetHash N b) b' V
      else WriteBlock (Block_GetHash N prev) (prev\<lparr>hashNextBlock := Block_GetHash N b\<rparr>) (WriteBlock (Block_GetHash N b) b' V))"
    and b1: "b1 = b\<lparr>bFees := n, bMint := bMint b + m\<rparr>"
    by (rule Block_Connect_parts)
  have "like V W'" "links W' = links V" by (simp_all add: W')
  then obtain U where U: "disconnect_vtx L E b' (rev (bVtx b)) W' = Inr U" "like W U" "links U = links W"
    "lBlocks (wLedger U) = lBlocks (wLedger W')"
    using disconnect_of_connect [OF c assms(3,2)] by blast
  have h: "hashPrevBlock b' = hashPrevBlock b" by (simp add: b' b1)
  have mono: "lBlocks (wLedger V) k \<noteq> None \<Longrightarrow> lBlocks (wLedger U) k \<noteq> None" for k
    unfolding U(4) W' by (cases "Block_IsNull prev") (auto simp: WriteBlock_def)
  obtain q where q: "Prev E b' U = Inr q"
  proof (cases "hashPrevBlock b = 0")
    case False
    then have "lBlocks (wLedger V) (hashPrevBlock b) \<noteq> None"
      using prev by (auto simp: Prev_def ReadBlock_def split: option.splits)
    then have "lBlocks (wLedger U) (hashPrevBlock b) \<noteq> None" by (rule mono)
    then show thesis using that False unfolding Prev_def h ReadBlock_def by (cases "lBlocks (wLedger U) (hashPrevBlock b)") auto
  qed (use that in \<open>simp add: Prev_def h\<close>)
  show ?thesis using U(1-3) q by (simp add: Block_Disconnect_def b' b1)
qed

text \<open>What a connected block carries: the supply of its predecessor and its mint, the fees of its transactions, counted anew,
  and a reserve that has grown by them; it is stored so.\<close>

lemma connected_supply:
  assumes "Block_Connect X R L N E b W = Inr (b', W')" and "legacy_keeps L"
    and "Prev E b W = Inr prev" and "\<not> Block_IsNull prev"
  shows "bMoneySupply b' = bMoneySupply prev + scast (bMint b')"
    and "Block_GetHash N prev \<noteq> Block_GetHash N b \<Longrightarrow> ReadBlock (Block_GetHash N b) W' = Some b'"
    and "ReadBlock (Block_GetHash N prev) W' = Some (prev\<lparr>hashNextBlock := Block_GetHash N b\<rparr>)"
proof -
  from assms(1) obtain b1 p V q n m where c: "connect_vtx X R L N E (snd (last (bVtx b))) (bVtx b) (b\<lparr>bFees := 0\<rparr>, 0, W) = Inr (b1, p, V)"
    and q: "Prev E b V = Inr q"
    and b': "b' = b1\<lparr>bMoneySupply := (if Block_IsNull q then 0 else bMoneySupply q) + scast (bMint b1),
      bFeeReserve := bFeeReserve b1 + bFees b1\<rparr>"
    and W': "W' = (if Block_IsNull q then WriteBlock (Block_GetHash N b) b' V
      else WriteBlock (Block_GetHash N q) (q\<lparr>hashNextBlock := Block_GetHash N b\<rparr>) (WriteBlock (Block_GetHash N b) b' V))"
    and "b1 = b\<lparr>bFees := n, bMint := bMint b + m\<rparr>"
    by (rule Block_Connect_parts)
  have "Prev E b V = Prev E b W" using connect_vtx_fees [OF c assms(2)] by (simp add: Prev_def ReadBlock_def)
  then have "q = prev" using q assms(3) by simp
  then show "bMoneySupply b' = bMoneySupply prev + scast (bMint b')"
    and "Block_GetHash N prev \<noteq> Block_GetHash N b \<Longrightarrow> ReadBlock (Block_GetHash N b) W' = Some b'"
    and "ReadBlock (Block_GetHash N prev) W' = Some (prev\<lparr>hashNextBlock := Block_GetHash N b\<rparr>)"
    using assms(4) by (simp_all add: b' W' ReadBlock_def WriteBlock_def)
qed

lemma connected_fees:
  assumes "Block_Connect X R L N E b W = Inr (b', W')" and "legacy_keeps L"
  shows "bFees b' = block_fees (lTx (wLedger W)) (bVtx b)" and "bFeeReserve b' = bFeeReserve b + bFees b'" and "bVtx b' = bVtx b"
    and "lTx (wLedger W') = lTx (wLedger W)"
    and "\<forall>v \<in> set (bVtx b). fst v = TX_TRITIUM \<Longrightarrow> bMint b' = bMint b + of_nat (stake_rewards (lTx (wLedger W)) (bVtx b))"
proof -
  from assms(1) obtain b1 p V q n m where c: "connect_vtx X R L N E (snd (last (bVtx b))) (bVtx b) (b\<lparr>bFees := 0\<rparr>, 0, W) = Inr (b1, p, V)"
    and "Prev E b V = Inr q"
    and b': "b' = b1\<lparr>bMoneySupply := (if Block_IsNull q then 0 else bMoneySupply q) + scast (bMint b1),
      bFeeReserve := bFeeReserve b1 + bFees b1\<rparr>"
    and W': "W' = (if Block_IsNull q then WriteBlock (Block_GetHash N b) b' V
      else WriteBlock (Block_GetHash N q) (q\<lparr>hashNextBlock := Block_GetHash N b\<rparr>) (WriteBlock (Block_GetHash N b) b' V))"
    and b1: "b1 = b\<lparr>bFees := n, bMint := bMint b + m\<rparr>"
    by (rule Block_Connect_parts)
  show "bFees b' = block_fees (lTx (wLedger W)) (bVtx b)" "lTx (wLedger W') = lTx (wLedger W)"
    using connect_vtx_fees [OF c assms(2)] by (simp_all add: b' W')
  show "bFeeReserve b' = bFeeReserve b + bFees b'" "bVtx b' = bVtx b" by (simp_all add: b' b1)
  show "bMint b' = bMint b + of_nat (stake_rewards (lTx (wLedger W)) (bVtx b))" if "\<forall>v \<in> set (bVtx b). fst v = TX_TRITIUM"
    using connect_vtx_mint [OF c assms(2) that] by (simp add: b')
qed

lemma connected_prev:
  assumes "Block_Connect X R L N E b W = Inr (b', W')"
  shows "hashPrevBlock b' = hashPrevBlock b" and "Block_GetHash N b' = Block_GetHash N b"
proof -
  from assms obtain b1 p V q n m where "connect_vtx X R L N E (snd (last (bVtx b))) (bVtx b) (b\<lparr>bFees := 0\<rparr>, 0, W) = Inr (b1, p, V)"
    and "Prev E b V = Inr q"
    and b': "b' = b1\<lparr>bMoneySupply := (if Block_IsNull q then 0 else bMoneySupply q) + scast (bMint b1),
      bFeeReserve := bFeeReserve b1 + bFees b1\<rparr>"
    and "W' = (if Block_IsNull q then WriteBlock (Block_GetHash N b) b' V
      else WriteBlock (Block_GetHash N q) (q\<lparr>hashNextBlock := Block_GetHash N b\<rparr>) (WriteBlock (Block_GetHash N b) b' V))"
    and b1: "b1 = b\<lparr>bFees := n, bMint := bMint b + m\<rparr>"
    by (rule Block_Connect_parts)
  show "hashPrevBlock b' = hashPrevBlock b" and "Block_GetHash N b' = Block_GetHash N b"
    by (simp_all add: b' b1 Block_GetHash_def block_header.truncate_def)
qed

text \<open>Disconnecting writes no block but the predecessor.\<close>

lemma Transaction_Disconnect_blocks:
  assumes "Transaction_Disconnect E t FLAGS_BLOCK W = Inr W'"
  shows "lBlocks (wLedger W') = lBlocks (wLedger W)"
proof -
  from assms obtain f V where V: "(if f then disconnect_stake t (disconnect_last t W) else Inr (disconnect_last t W)) = Inr V"
    and r: "rollback_contracts E t FLAGS_BLOCK (rev (vContracts t)) V = Inr W'"
    unfolding Transaction_Disconnect_def by (auto elim!: rbindE simp del: rbind_eq_Inr)
  have "chain_of V = chain_of (disconnect_last t W)"
    using V unfolding disconnect_stake_def by (auto elim!: rbindE rbind_pairE rbind_tripleE simp del: rbind_eq_Inr split: if_splits prod.splits)
  then show ?thesis
    using chain_of_rollback_contracts [OF r] by (simp add: chain_of_def disconnect_last_def WriteLast_def EraseLast_def split: if_splits)
qed

lemma disconnect_vtx_keeps:
  assumes "disconnect_vtx L E a vtx W = Inr V" and "legacy_keeps L"
  shows "lBlocks (wLedger V) = lBlocks (wLedger W) \<and> lTx (wLedger V) = lTx (wLedger W)"
  using assms(1)
proof (induction vtx arbitrary: W)
  case (Cons v vtx)
  obtain ty h where v: "v = (ty, h)" by (cases v)
  obtain W1 where s: "(if ty = TX_TRITIUM then
        rbind (found ''transaction is not on disk'' (ReadTx h FLAGS_BLOCK W)) (\<lambda>t. Transaction_Disconnect E t FLAGS_BLOCK W)
      else if ty = TX_LEGACY then xDisconnect L h a W else Inr W) = Inr W1"
    and r: "disconnect_vtx L E a vtx (EraseIndex h W1) = Inr V"
    using Cons.prems unfolding v disconnect_vtx.simps by (elim rbindE) auto
  have "lBlocks (wLedger W1) = lBlocks (wLedger W) \<and> lTx (wLedger W1) = lTx (wLedger W)"
    using s assms(2) disconnect_ledger(1) [of E _ W W1] Transaction_Disconnect_blocks [of E _ W W1]
    by (auto simp: legacy_keeps_def elim!: rbindE simp del: rbind_eq_Inr split: if_splits)
  moreover have "lBlocks (wLedger (EraseIndex h W1)) = lBlocks (wLedger W1)" by (simp add: EraseIndex_def)
  ultimately show ?case using Cons.IH [OF r] by simp
qed simp

lemma disconnected_keeps:
  assumes "Block_Disconnect L N E b W = Inr V" and "legacy_keeps L" and "Prev E b W = Inr q"
  shows "lTx (wLedger V) = lTx (wLedger W)" and "k \<noteq> Block_GetHash N q \<Longrightarrow> ReadBlock k V = ReadBlock k W"
proof -
  from assms(1) obtain U p where d: "disconnect_vtx L E b (rev (bVtx b)) W = Inr U" and p: "Prev E b U = Inr p"
    and V: "V = (if Block_IsNull p then U else WriteBlock (Block_GetHash N p) (p\<lparr>hashNextBlock := 0\<rparr>) U)"
    unfolding Block_Disconnect_def by (auto elim!: rbindE simp del: rbind_eq_Inr)
  note k = disconnect_vtx_keeps [OF d assms(2)]
  have "Prev E b U = Prev E b W" using k by (simp add: Prev_def ReadBlock_def)
  then have "p = q" using p assms(3) by simp
  then show "lTx (wLedger V) = lTx (wLedger W)" and "k \<noteq> Block_GetHash N q \<Longrightarrow> ReadBlock k V = ReadBlock k W"
    using k by (simp_all add: V ReadBlock_def WriteBlock_def)
qed

end
