(* ===== verification/Chain_Fork.thy ===== *)
theory Chain_Fork
  imports Chain_Disconnect
begin

text \<open>
  The search for the fork of two chains ends at their last common block, and what the best block of the
  chain is after a change to a better one.
\<close>

section \<open>Ways between blocks\<close>

lemma Block_neq_eq [simp]: "Block_neq a b \<longleftrightarrow> \<not> Block_eq a b"
  by (auto simp: Block_neq_def Block_eq_def)

lemma Block_eq_refl [simp]: "Block_eq b b"
  by (simp add: Block_eq_def)

lemma Block_eq_join: "Block_eq x a \<Longrightarrow> Block_eq y a \<Longrightarrow> Block_eq x y"
  by (simp add: Block_eq_def)

lemma Block_eq_height: "Block_eq a b \<Longrightarrow> bHeight a = bHeight b"
  by (simp add: Block_eq_def)

text \<open>The blocks from one down to an ancestor, which is not among them; heights go down by one. The ancestor is
  given by its header: the best block in memory need not be the one on disk.\<close>

inductive way :: "env \<Rightarrow> world \<Rightarrow> block_state \<Rightarrow> block_state \<Rightarrow> block_state list \<Rightarrow> bool" for E W a where
  way_here: "Block_eq x a \<Longrightarrow> way E W a x []"
| way_prev: "Prev E x W = Inr p \<Longrightarrow> \<not> Block_IsNull p \<Longrightarrow> unat (bHeight x) = unat (bHeight p) + 1 \<Longrightarrow> way E W a p ds \<Longrightarrow>
    way E W a x (x # ds)"

inductive_cases way_NilE: "way E W a x []"
inductive_cases way_ConsE: "way E W a x (d # ds)"

lemma way_height: "way E W a x ds \<Longrightarrow> unat (bHeight x) = unat (bHeight a) + length ds"
  by (induction rule: way.induct) (auto dest: Block_eq_height)

lemma way_up:
  assumes "way E W a x ds" and "unat (bHeight a) < unat (bHeight x)"
  obtains p ds' where "ds = x # ds'" and "Prev E x W = Inr p" and "\<not> Block_IsNull p" and "way E W a p ds'"
  using assms by (cases rule: way.cases) (auto dest: Block_eq_height)

text \<open>The blocks of the two chains above the common one differ where they are of the same height.\<close>

definition apart :: "block_state list \<Rightarrow> block_state list \<Rightarrow> bool" where
  "apart ds cs \<longleftrightarrow> (\<forall>d \<in> set ds. \<forall>c \<in> set cs. bHeight d = bHeight c \<longrightarrow> \<not> Block_eq d c)"

lemma way_eq:
  assumes "way E W a x ds" and "way E W a y cs" and "apart ds cs" and "Block_eq x y"
  shows "ds = [] \<and> cs = []"
proof -
  have l: "length ds = length cs" using way_height [OF assms(1)] way_height [OF assms(2)] Block_eq_height [OF assms(4)] by simp
  show ?thesis
  proof (rule ccontr)
    assume "\<not> ?thesis"
    then have "ds \<noteq> []" "cs \<noteq> []" using l by auto
    then have "x \<in> set ds" "y \<in> set cs" using assms(1,2) by (auto elim: way.cases)
    then show False using assms(3,4) Block_eq_height [OF assms(4)] by (auto simp: apart_def)
  qed
qed

lemma find_fork_inner:
  assumes "way E W a x ds" and "way E W a y cs" and "apart ds cs" and "\<not> (ds = [] \<and> cs = [])"
  shows "find_fork E W True x y D C = Some (Inr (D @ ds, C @ cs))"
  using assms
proof (induction "length ds + length cs" arbitrary: x y ds cs D C rule: less_induct)
  case less
  note h = way_height [OF less.prems(1)] way_height [OF less.prems(2)]
  show ?case
  proof (cases "bHeight x < bHeight y")
    case True
    then have "unat (bHeight a) < unat (bHeight y)" using h by (cases cs) (simp_all add: word_less_nat_alt)
    then obtain p cs' where p: "cs = y # cs'" "Prev E y W = Inr p" "\<not> Block_IsNull p" "way E W a p cs'"
      by (rule way_up [OF less.prems(2)])
    have ap: "apart ds cs'" using less.prems(3) by (auto simp: apart_def p(1))
    show ?thesis
    proof (cases "ds = [] \<and> cs' = []")
      case True
      then have "Block_eq x p" using less.prems(1) p(4) by (auto elim!: way_NilE intro: Block_eq_join)
      moreover from this have "bHeight x = bHeight p" by (rule Block_eq_height)
      ultimately show ?thesis using True \<open>bHeight x < bHeight y\<close> p(2,3)
        by (subst find_fork.simps) (simp add: p(1), subst find_fork.simps, simp)
    next
      case False
      then show ?thesis using less.hyps [OF _ less.prems(1) p(4) ap False, of D "C @ [y]"] True p(2,3)
        by (subst find_fork.simps) (simp add: p(1))
    qed
  next
    case False
    have ne: "\<not> Block_eq x y" using way_eq [OF less.prems(1-3)] less.prems(4) by blast
    have "length cs \<le> length ds" using False h by (simp add: word_less_nat_alt)
    then have "unat (bHeight a) < unat (bHeight x)" using less.prems(4) h by (cases ds) auto
    then obtain p ds' where p: "ds = x # ds'" "Prev E x W = Inr p" "\<not> Block_IsNull p" "way E W a p ds'"
      by (rule way_up [OF less.prems(1)])
    have ap: "apart ds' cs" using less.prems(3) by (auto simp: apart_def p(1))
    show ?thesis
    proof (cases "ds' = [] \<and> cs = []")
      case True
      then have "Block_eq p y" using less.prems(2) p(4) by (auto elim!: way_NilE intro: Block_eq_join)
      moreover from this have "bHeight p = bHeight y" by (rule Block_eq_height)
      ultimately show ?thesis using True False ne p(2,3)
        by (subst find_fork.simps) (simp add: p(1), subst find_fork.simps, simp)
    next
      case f: False
      have "\<not> Block_eq p y" using way_eq [OF p(4) less.prems(2) ap] f by blast
      then have "find_fork E W False p y D' C = find_fork E W True p y D' C" for D' by (subst find_fork.simps) simp
      then show ?thesis using less.hyps [OF _ p(4) less.prems(2) ap f, of "D @ [x]" C] False ne p(2,3)
        by (subst find_fork.simps) (simp add: p(1))
    qed
  qed
qed

lemma find_fork_way:
  assumes "way E W a x ds" and "way E W a y cs" and "apart ds cs"
  shows "find_fork E W False x y [] [] = Some (Inr (ds, cs))"
proof (cases "ds = [] \<and> cs = []")
  case True
  then have "Block_eq x y" using assms(1,2) by (auto elim!: way_NilE intro: Block_eq_join)
  then show ?thesis using True by (subst find_fork.simps) simp
next
  case False
  then have "\<not> Block_eq x y" using way_eq [OF assms] by blast
  then show ?thesis using find_fork_inner [OF assms False, of "[]" "[]"] by (subst find_fork.simps) simp
qed

section \<open>The best block\<close>

lemma SetBest_extends:
  assumes "SetBest X R L N E b S W = Inr (S', W')" and "\<not> Block_IsNull (stateGenesis S)"
    and "Prev E b W = Inr p" and "\<not> Block_IsNull p" and "Block_eq (stateBest S) p" and "unat (bHeight b) = unat (bHeight p) + 1"
  obtains b' V where "Block_Connect X R L N E b W = Inr (b', V)" and "W' = WriteBestChain (Block_GetHash N b) V"
    and "S' = S\<lparr>stateBest := b, hashBestChain := Block_GetHash N b, nBestChainTrust := bChainTrust b, nBestHeight := bHeight b\<rparr>"
proof -
  have "way E W p b [b]" by (rule way_prev [OF assms(3,4,6) way_here]) simp
  then have "find_fork E W False (stateBest S) b [] [] = Some (Inr ([], [b]))"
    using find_fork_way [OF way_here [OF assms(5)], of E W b "[b]"] by (simp add: apart_def)
  then show thesis using assms(1,2) that
    by (auto simp: SetBest_def or_diverge_def reorganize_def Let_def elim!: rbind_pairE rbindE simp del: rbind_eq_Inr)
qed

section \<open>Trust scores\<close>

lemma unat_wide:
  fixes x y :: u64
  shows "unat (ucast x * ucast y :: 128 word) = unat x * unat y" and "unat (ucast x :: 128 word) = unat x"
proof -
  have lt: "unat u < 2 ^ 64" for u :: u64 using unsigned_less [of u] by simp
  show u: "unat (ucast x :: 128 word) = unat x" for x :: u64
    using lt [of x] by (simp add: unsigned_ucast_eq take_bit_nat_eq_self)
  have "unat x * unat y < 2 ^ 64 * 2 ^ 64" by (rule mult_strict_mono) (use lt in simp_all)
  then show "unat (ucast x * ucast y :: 128 word) = unat x * unat y" by (simp add: unat_word_ariths u)
qed

lemma unstaked_exact:
  assumes "7 < v" and "nStake \<noteq> 0"
  shows "\<exists>r. unstaked_score nScore nStake nStakeChange v = Inr r \<and>
    unat r = (unat nStake - unat (0 - nStakeChange)) * unat nScore div unat nStake"
proof -
  obtain n where n: "n = (if 0 - nStakeChange < nStake then nStake - (0 - nStakeChange) else 0)" by blast
  have "unat (if u < nStake then nStake - u else 0) = unat nStake - unat u" for u :: u64
    by (auto simp: unat_sub word_less_nat_alt word_le_nat_alt)
  then have un: "unat n = unat nStake - unat (0 - nStakeChange)" unfolding n by blast
  have "unat n * unat nScore \<le> unat nStake * unat nScore" by (rule mult_le_mono1) (simp add: un)
  then have "unat n * unat nScore div unat nStake \<le> unat nScore"
    using assms(2) by (metis div_le_mono nonzero_mult_div_cancel_left unat_eq_zero)
  then have "unat n * unat nScore div unat nStake < 2 ^ 64" using unsigned_less [of nScore] le_less_trans by fastforce
  moreover have "unat ((ucast n * ucast nScore :: 128 word) div ucast nStake) = unat n * unat nScore div unat nStake"
    by (simp only: unat_div unat_wide)
  ultimately have "unat (ucast ((ucast n * ucast nScore :: 128 word) div ucast nStake) :: u64) = unat n * unat nScore div unat nStake"
    by (simp only: unsigned_ucast_eq) (simp add: take_bit_nat_eq_self)
  then show ?thesis using assms(1,2) unfolding unstaked_score_def Let_def n [symmetric] un [symmetric] by auto
qed

end
