(* ===== verification/Rollback_Properties.thy ===== *)
theory Rollback_Properties
  imports Rollback_Whole Samples
begin

text \<open>
  The properties of the roll-back: what was executed on a block can be taken back, with the one
  exception of a debit to anyone.
\<close>

section \<open>A debit that is taken back\<close>

definition undo_world :: world where
  "undo_world = WriteState node_2020 debit_from acct FLAGS_BLOCK sample_world"

lemma undo_world_reads [simp]:
  "ReadState debit_from FLAGS_BLOCK undo_world = Some acct" "ReadState debit_to FLAGS_BLOCK undo_world = Some acct"
  using debit_from_to by (simp_all add: undo_world_def ReadState_WriteState)

lemma acct_not_null [simp]: "\<not> State_IsNull acct"
  by (simp add: acct_def State_IsNull_def)

lemma undo_debit_executed:
  "\<exists>W'. Execute sample_ext node_2020 sample_debit FLAGS_BLOCK undo_world 0 = Inr (W', 0)"
proof -
  obtain ob where "Debit_Execute node_2020 (Object_of acct) 30 1600000000 = Inr ob" "GetHash node_2020 ob = 108"
    using acct_debit by blast
  then show ?thesis
    using debit_accepted [of sample_debit debit_from debit_to 30 0 acct node_2020 ob FLAGS_BLOCK undo_world acct]
      acct_valid debit_from_to
    by (simp add: sample_debit_def MAX_SIZE_def)
qed

lemma undo_debit_verified:
  "\<exists>m. Register_Verify node_2020 sample_debit Map.empty FLAGS_BLOCK undo_world = Inr m"
proof -
  have ops: "sData (ssOperation sample_debit) = debit_script debit_from debit_to 30 0"
    and regs: "sData (ssRegister sample_debit) = states_script acct 108" and hc: "hashCaller sample_debit = 5"
    and ts: "nTimestamp sample_debit = 1600000000" 
    by (simp_all add: sample_debit_def)
  have len: "length (vchState acct) \<le> MAX_SIZE" by (simp add: MAX_SIZE_def)
  obtain ob where ob: "Debit_Execute node_2020 (Object_of acct) 30 1600000000 = Inr ob" using acct_debit by blast
  note op = debit_script_at [OF ops]
  have sk: "Contract_Seek 32 OPERATIONS STREAM_CURSOR (opos 33 (start sample_debit)) = Inr (opos 65 (start sample_debit))"
    using skip_word [OF op(3)] by simp
  have L: "length (sData (ssOperation sample_debit)) = 81" by (simp add: ops debit_script_def)
  have en: "Contract_End OPERATIONS (opos 81 (rpos p (start sample_debit)))" for p
    by (rule stream_end_start) (simp_all add: L)
  show ?thesis
    using op sk ob en by (simp add: Register_Verify_def verify_prefix_def verify_primitive_def verify_debit_def verify_state_def
      current_state_def found_def catch_all_def states_script_opos [OF regs len] State_eq_def hc ts on_object_def)
qed


section \<open>Taking back\<close>

text \<open>
  C5. Disconnecting what was connected: a contract whose recorded pre-state passed
  \<open>Register::Verify\<close> and that was executed on a block is rolled back, whatever its operation, and the
  roll-back restores every proof, every transaction and every fulfilled condition exactly, every claimed
  amount and every event count up to a zero that stays where there was no record, and every register
  exactly or to the pre-state the contract recorded, which is the register as the comparison of states
  sees it. The node is not in client mode, the recipient of a debit must have a register, and
  the claimed amount of an object's debit must not have wrapped around.
\<close>

theorem rollback_undoes:
  assumes "Execute X E c FLAGS_BLOCK W k = Inr (W', k')" and "Register_Verify E c Map.empty FLAGS_BLOCK W = Inr m"
    and "\<not> fClient E" and "length (sData (ssOperation c)) < 2 ^ 63"
    and "at_primitive c = Inr (nOP, c1)" and "undoable nOP c1 W"
  shows "\<exists>W''. Rollback E c FLAGS_BLOCK W' = Inr W'' \<and> undone E c W W'' \<and>
    (\<forall>h n. ReadContract h n FLAGS_BLOCK W'' = ReadContract h n FLAGS_BLOCK W)"
  by (rule Rollback_of_Execute [OF assms])

lemma sample_debit_undoable: "undoable OP_DEBIT (opos 1 (start sample_debit)) undo_world"
proof -
  have "debit_to \<noteq> WILDCARD_ADDRESS" by (simp add: debit_to_def addr_not_wildcard)
  then show ?thesis using sample_debit_ops(2) by (simp add: undoable_def)
qed

theorem rollback_undoes_witness:
  "\<exists>W' W''. Execute sample_ext node_2020 sample_debit FLAGS_BLOCK undo_world 0 = Inr (W', 0) \<and>
    Rollback node_2020 sample_debit FLAGS_BLOCK W' = Inr W'' \<and> undone node_2020 sample_debit undo_world W''"
proof -
  obtain W' m where e: "Execute sample_ext node_2020 sample_debit FLAGS_BLOCK undo_world 0 = Inr (W', 0)"
    and v: "Register_Verify node_2020 sample_debit Map.empty FLAGS_BLOCK undo_world = Inr m"
    using undo_debit_executed undo_debit_verified by blast
  have len: "length (sData (ssOperation sample_debit)) < 2 ^ 63" by (simp add: sample_debit_def debit_script_def)
  show ?thesis
    using rollback_undoes [OF e v fClient_node_2020 len sample_debit_at(1) sample_debit_undoable] e by blast
qed

section \<open>A debit to anyone\<close>

text \<open>The prefix of the verification leads to the primitive.\<close>

lemma verify_prefix_at:
  assumes "verify_prefix (start c) = Inr (nOP, d)" and len: "length (sData (ssOperation c)) < 2 ^ 63"
  shows "at_primitive c = Inr (nOP, d)"
proof -
  from assms(1) obtain y c0 where y: "op_word (start c) = Inr (y, c0)"
    and rest: "(if y = OP_CONDITION then op_word c0
      else if y = OP_VALIDATE then rbind (Contract_Seek 68 OPERATIONS STREAM_CURSOR c0) op_word else Inr (y, c0)) = Inr (nOP, d)"
    unfolding verify_prefix_def by (elim rbind_pairE)
  note st = op_word_start [OF y len]
  consider (cond) "y = OP_CONDITION" | (val) "y = OP_VALIDATE" | (none) "y \<noteq> OP_CONDITION" "y \<noteq> OP_VALIDATE" by blast
  then show ?thesis
  proof cases
    case cond
    have "seek_op 1 STREAM_CURSOR (start c) = Inr c0"
      using seek_op_CURSOR [of "start c" 1] st(1,3) by (simp add: Suc_le_eq)
    then show ?thesis using cond rest st(1,2) by (simp add: at_primitive_def SeekToPrimitive_start)
  next
    case val
    with rest obtain e where e: "Contract_Seek 68 OPERATIONS STREAM_CURSOR c0 = Inr e" "op_word e = Inr (nOP, d)" by auto
    have e69: "e = opos 69 (start c)" using Seek_pos [OF e(1)] st(3) by simp
    have "69 \<le> length (sData (ssOperation c))"
      using e(1) e69 st(3) len by (auto simp: Seek_iff opos_def start_def split: if_splits)
    then have "seek_op 69 STREAM_CURSOR (start c) = Inr e" using seek_op_CURSOR [of "start c" 69] e69 by simp
    then show ?thesis using val st(1,2) e(2) by (simp add: at_primitive_def SeekToPrimitive_start)
  next
    case none
    with rest show ?thesis using st(1,2) y by (simp add: at_primitive_def SeekToPrimitive_start)
  qed
qed

lemma undo_prefix_at:
  assumes "undo_prefix f W (start c) = Inr (nOP, d, V)" and "length (sData (ssOperation c)) < 2 ^ 63"
  shows "at_primitive c = Inr (nOP, d)" and "ReadState a f V = ReadState a f W"
proof -
  from assms(1) obtain y c0 where y: "op_word (start c) = Inr (y, c0)"
    and rest: "(if y = OP_CONDITION then rbind (op_word c0) (\<lambda>(nOP, c). Inr (nOP, c, W))
     else if y = OP_VALIDATE then
       rbind (op_word c0) (\<lambda>(h, c).
       rbind (op_word c) (\<lambda>(nContract, c).
       rbind (op_word c) (\<lambda>(nOP, c). Inr (nOP, c, EraseContract h nContract f W))))
     else Inr (y, c0, W)) = Inr (nOP, d, V)"
    unfolding undo_prefix_def by (elim rbind_pairE)
  have "verify_prefix (start c) = Inr (nOP, d) \<and> ReadState a f V = ReadState a f W"
  proof (cases "y = OP_VALIDATE")
    case True
    with rest obtain h c2 n c3 where r: "op_word c0 = Inr (h :: u512, c2)" "op_word c2 = Inr (n :: u32, c3)"
      "op_word c3 = Inr (nOP, d)" "V = EraseContract h n f W"
      by (auto elim!: rbind_pairE simp del: rbind_eq_Inr)
    then show ?thesis using y True skip_read [OF skip_word [OF r(1)] r(2)]
      by (simp add: verify_prefix_def EraseContract_def)
  next
    case False
    then show ?thesis using y rest
      by (auto simp: verify_prefix_def split: if_splits elim!: rbind_pairE simp del: rbind_eq_Inr)
  qed
  then show "at_primitive c = Inr (nOP, d)" and "ReadState a f V = ReadState a f W"
    using verify_prefix_at [OF _ assms(2)] by blast+
qed

definition anyone_debit :: contract where
  "anyone_debit = sample_contract (debit_script debit_from WILDCARD_ADDRESS 30 0) (states_script acct 108) 5"

lemma anyone_debit_ops:
  "op_word (start anyone_debit) = Inr (OP_DEBIT, opos 1 (start anyone_debit))"
  "debit_operands (opos 1 (start anyone_debit)) = Inr (debit_from, WILDCARD_ADDRESS, 30)"
  using debit_script_at [of anyone_debit] by (simp_all add: anyone_debit_def debit_operands_def MAX_SIZE_def)

text \<open>
  C6. A debit to anyone cannot be taken back from a block: the roll-back reads the register of the
  recipient before it looks whether there is one, and no register has the wild card as its address.
\<close>

theorem anyone_debit_stays:
  assumes "at_primitive c = Inr (OP_DEBIT, c1)" and "debit_operands c1 = Inr (a, WILDCARD_ADDRESS, n)"
    and "ReadState WILDCARD_ADDRESS FLAGS_BLOCK W = None" and "a \<noteq> WILDCARD_ADDRESS"
    and "length (sData (ssOperation c)) < 2 ^ 63"
  shows "Rollback E c FLAGS_BLOCK W \<noteq> Inr W'"
proof
  assume "Rollback E c FLAGS_BLOCK W = Inr W'"
  then obtain nOP d V cu where p: "undo_prefix FLAGS_BLOCK W (start c) = Inr (nOP, d, V)"
    and u: "undo_primitive E FLAGS_BLOCK V nOP d = Inr (cu, W')"
    unfolding Rollback_def catch_all_def
    by (auto split: sum.splits error.splits if_splits elim!: rbind_pairE rbind_tripleE simp del: rbind_eq_Inr)
  have d: "nOP = OP_DEBIT" "d = c1" using undo_prefix_at(1) [OF p assms(5)] assms(1) by simp_all
  have V: "ReadState WILDCARD_ADDRESS FLAGS_BLOCK V = None" using undo_prefix_at(2) [OF p assms(5)] assms(3) by simp
  from u d have "undo_debit E FLAGS_BLOCK V c1 = Inr (cu, W')" by (simp add: undo_primitive_def)
  with assms(2) V assms(4) show False
    unfolding undo_debit_def debit_operands_def restore_def
    by (auto elim!: rbind_pairE rbindE simp: found_def ReadState_WriteState simp del: rbind_eq_Inr split: option.splits)
qed

theorem anyone_debit_stays_witness:
  "\<forall>W'. Rollback node_2020 anyone_debit FLAGS_BLOCK undo_world \<noteq> Inr W'"
proof (intro allI, rule anyone_debit_stays [OF _ anyone_debit_ops(2)])
  have len: "length (sData (ssOperation anyone_debit)) < 2 ^ 63" by (simp add: anyone_debit_def debit_script_def)
  then show "length (sData (ssOperation anyone_debit)) < 2 ^ 63" .
  show "at_primitive anyone_debit = Inr (OP_DEBIT, opos 1 (start anyone_debit))"
    by (rule script_at_primitive [OF anyone_debit_ops(1)]) (use len in simp_all)
  have "WILDCARD_ADDRESS \<noteq> debit_to" "WILDCARD_ADDRESS \<noteq> debit_from"
    using addr_not_wildcard [of ADDR_ACCOUNT] by (simp_all add: debit_from_def debit_to_def not_sym)
  then show "ReadState WILDCARD_ADDRESS FLAGS_BLOCK undo_world = None"
    by (simp add: undo_world_def sample_world_def ReadState_WriteState WriteTx_def)
      (simp add: ReadState_def WriteState_def write_state_def empty_world_def empty_overlay_def overlay_defs read_register_def)
qed simp

end
