(* ===== verification/Ledger_Properties.thy ===== *)
theory Ledger_Properties
  imports Ledger_Disconnect Rollback_Properties
begin

text \<open>
  The properties of transactions: what connecting one guarantees for its signature chain and for the fees, what
  the checks bound, and where the code departs from its intention.
\<close>

section \<open>A transaction and its predecessor\<close>

definition sample_node :: node where
  "sample_node = \<lparr>nVerifyKey = \<lambda>_ _ _ _. True, nProofHash = \<lambda>_. 0, fPrivate = False, fSynchronizing = False,
     nLoginGenesis = 0, nBestVersion = 8, nBlockHash = \<lambda>b. ucast (bNonce b)\<rparr>"

definition first_tx :: tx where
  "first_tx = (tx_of [])\<lparr>txSequence := 0, txNext := 0, txTimestamp := 1500000000, txHash := 6, txPrevTx := 0\<rparr>"

definition debit_tx :: tx where
  "debit_tx = tx_of [sample_debit]"

definition base_block :: block_state where
  "base_block = \<lparr>bVersion = 8, hashPrevBlock = 0, hashMerkleRoot = 0, bChannel = 0, bHeight = 1, bBits = 1, bNonce = 1,
     bTime = 1500000000, bOffsets = [], bVtx = [], bChainTrust = 0, bMoneySupply = 9000, bMint = 0, bFees = 0,
     bChannelHeight = 0, bChannelWeight = [0, 0, 0], bReleasedReserve = [0, 0, 0], bFeeReserve = 0, hashNextBlock = 0,
     hashCheckpoint = 0\<rparr>"

definition connect_world :: world where
  "connect_world = WriteBlock 1 base_block (WriteTx sample_txid debit_tx (WriteLast 5 6 (WriteTx 6 first_tx undo_world)))"

abbreviation bound_debit :: contract where
  "bound_debit \<equiv> tx_bind debit_tx sample_debit"

lemma ReadState_WriteBlock: "ReadState x f (WriteBlock k b W) = ReadState x f W"
  by (simp add: ReadState_def WriteBlock_def)

lemma GetType_6: "GetType (6 :: u512) \<noteq> TX_TRITIUM"
  by (simp add: GetType_def)

lemma connect_world_reads [simp]:
  "ReadState x FLAGS_BLOCK connect_world = (if x = debit_from \<or> x = debit_to then Some acct else None)"
  "ReadTx 6 f connect_world = Some first_tx" "ReadTx sample_txid f connect_world = Some debit_tx"
  "lLast (wLedger connect_world) 5 = Some 6" "ReadBlock 1 connect_world = Some base_block" "\<not> HasIndex sample_txid connect_world"
proof -
  have "ReadState x FLAGS_BLOCK empty_world = None"
    by (simp add: ReadState_def empty_world_def empty_overlay_def overlay_defs read_register_def)
  then show "ReadState x FLAGS_BLOCK connect_world = (if x = debit_from \<or> x = debit_to then Some acct else None)"
    by (simp add: connect_world_def undo_world_def sample_world_def ReadState_WriteState ReadState_WriteBlock)
  have "sample_txid \<noteq> 6" using GetType_sample_txid by (metis GetType_6)
  then show "ReadTx 6 f connect_world = Some first_tx"
    by (simp add: connect_world_def ReadTx_def WriteLast_def WriteTx_def undo_world_def sample_world_def WriteState_def empty_world_def WriteBlock_def ReadBlock_def HasIndex_def)
qed (simp_all add: connect_world_def ReadTx_def WriteLast_def WriteTx_def undo_world_def sample_world_def WriteState_def empty_world_def WriteBlock_def ReadBlock_def HasIndex_def)

lemma debit_tx_executed:
  "\<exists>W'. Execute sample_ext node_2020 (tx_bind debit_tx sample_debit) FLAGS_BLOCK connect_world 0 = Inr (W', 0)"
proof -
  obtain ob where "Debit_Execute node_2020 (Object_of acct) 30 1600000000 = Inr ob" "GetHash node_2020 ob = 108"
    using acct_debit by blast
  then show ?thesis
    using debit_accepted [of "tx_bind debit_tx sample_debit" debit_from debit_to 30 0 acct node_2020 ob FLAGS_BLOCK connect_world acct]
      acct_valid debit_from_to
    by (simp add: debit_tx_def sample_debit_def MAX_SIZE_def)
qed

lemma sample_debit_bytes: "\<exists>r. sData (ssOperation sample_debit) = OP_DEBIT # r"
  by (simp add: sample_debit_def debit_script_def)

lemma sample_debit_primitive: "Primitive sample_debit = Inr OP_DEBIT"
  using sample_debit_bytes by (auto simp: Primitive_def stream_get_def)

lemma debit_tx_connected:
  "\<exists>W'. Transaction_Connect sample_ext sample_node node_2020 debit_tx FLAGS_BLOCK pb connect_world = Inr W'"
proof -
  note pr = sample_debit_primitive
  have dp: "\<exists>c. Contract_Dependant sample_debit = Inr ((False, 0, 0), c)"
  proof -
    have "start sample_debit = sample_debit" by (simp add: start_def sample_debit_def sample_contract_def stream_of_def)
    then show ?thesis
      using SeekToPrimitive_start [of sample_debit] sample_debit_ops(1) sample_debit_bytes by (fastforce simp: Contract_Dependant_def)
  qed
  have "connect_previous sample_node node_2020 debit_tx FLAGS_BLOCK connect_world = Inr False"
    by (simp add: connect_previous_def debit_tx_def tx_of_def first_tx_def PrevHash_def node_2020_def fee_applies_def TX_FEE_INTERVAL_def)
  moreover have "Transaction_Fees debit_tx = Inr 0" using pr by (simp add: Transaction_Fees_def debit_tx_def)
  moreover have "vContracts debit_tx = [sample_debit]" "\<not> IsFirst debit_tx"
    by (simp_all add: debit_tx_def IsFirst_def tx_of_def)
  ultimately show ?thesis
    using debit_tx_executed pr dp by (auto simp: Transaction_Connect_def check_dependant_def sample_node_def)
qed

section \<open>The signature chain\<close>

text \<open>
  C30. A connected transaction extends its signature chain: the transaction it names as its predecessor
  is there, belongs to the same genesis, has the sequence number just below and is not younger; the key
  is the one the predecessor announced, or its recovery key, and only the recovery key may change the
  announced recovery. The chain's last transaction is then this one.
\<close>

theorem connect_extends_chain:
  assumes "Transaction_Connect X N E t FLAGS_BLOCK pb W = Inr W'" and "\<not> IsFirst t" and "\<not> fClient E"
  shows "\<exists>p. ReadTx (txPrevTx t) FLAGS_BLOCK W = Some p \<and> txGenesis p = txGenesis t \<and>
    txSequence t = txSequence p + 1 \<and> txTimestamp p \<le> txTimestamp t \<and>
    (PrevHash E t = txNext p \<and> (txRecovery p = 0 \<or> txRecovery t = txRecovery p) \<or>
     PrevHash E t = txRecovery p \<and> txRecovery p \<noteq> 0) \<and>
    lLast (wLedger W') (txGenesis t) = Some (txHash t)"
proof -
  from assms(1) obtain b V where c: "connect_previous N E t FLAGS_BLOCK W = Inr b"
    and W': "W' = WriteLast (txGenesis t) (txHash t) V"
    by (rule Connect_parts) (use assms(2) in auto)
  obtain p where "ReadTx (txPrevTx t) FLAGS_BLOCK W = Some p" "txSequence p + 1 = txSequence t"
    "txTimestamp p \<le> txTimestamp t" "txGenesis p = txGenesis t"
    "PrevHash E t = txNext p \<or> PrevHash E t = txRecovery p \<and> txRecovery p \<noteq> 0"
    "PrevHash E t = txNext p \<Longrightarrow> txRecovery p = 0 \<or> txRecovery t = txRecovery p"
    using connect_previous_facts [OF c assms(3)] by metis
  then show ?thesis by (intro exI [of _ p]) (auto simp: W' WriteLast_def)
qed

theorem connect_extends_chain_witness:
  "\<exists>W'. Transaction_Connect sample_ext sample_node node_2020 debit_tx FLAGS_BLOCK None connect_world = Inr W' \<and>
    lLast (wLedger W') 5 = Some sample_txid"
proof -
  obtain W' where W': "Transaction_Connect sample_ext sample_node node_2020 debit_tx FLAGS_BLOCK None connect_world = Inr W'"
    using debit_tx_connected by blast
  have "\<not> IsFirst debit_tx" by (simp add: debit_tx_def IsFirst_def tx_of_def)
  then show ?thesis using connect_extends_chain [OF W' _ fClient_node_2020] W' by (auto simp: debit_tx_def)
qed

section \<open>A debit that can be rolled back\<close>

lemma bound_debit_at:
  "sData (ssOperation bound_debit) = debit_script debit_from debit_to 30 0" "sData (ssRegister bound_debit) = states_script acct 108"
  "op_word (start bound_debit) = Inr (OP_DEBIT, opos 1 (start bound_debit))"
  "debit_operands (opos 1 (start bound_debit)) = Inr (debit_from, debit_to, 30)"
  "length (sData (ssOperation bound_debit)) < 2 ^ 63"
proof -
  show o: "sData (ssOperation bound_debit) = debit_script debit_from debit_to 30 0" "sData (ssRegister bound_debit) = states_script acct 108"
    by (simp_all add: sample_debit_def)
  show "op_word (start bound_debit) = Inr (OP_DEBIT, opos 1 (start bound_debit))"
    "debit_operands (opos 1 (start bound_debit)) = Inr (debit_from, debit_to, 30)"
    using debit_script_at [OF o(1)] by (simp_all add: debit_operands_def)
  show "length (sData (ssOperation bound_debit)) < 2 ^ 63" unfolding o(1) by (simp add: debit_script_def)
qed

lemma debit_tx_verified: "Transaction_Verify node_2020 debit_tx FLAGS_BLOCK connect_world = Inr ()"
proof -
  have len: "length (vchState acct) \<le> MAX_SIZE" by (simp add: MAX_SIZE_def)
  obtain ob where ob: "Debit_Execute node_2020 (Object_of acct) 30 1600000000 = Inr ob" using acct_debit by blast
  note op = debit_script_at [OF bound_debit_at(1)]
  have sk: "Contract_Seek 32 OPERATIONS STREAM_CURSOR (opos 33 (start bound_debit)) = Inr (opos 65 (start bound_debit))"
    using skip_word [OF op(3)] by simp
  have L: "length (sData (ssOperation sample_debit)) = 81" by (simp add: sample_debit_def debit_script_def)
  have en: "Contract_End OPERATIONS (opos 81 (rpos p (start bound_debit)))" for p
    by (rule stream_end_start) (use L in simp_all)
  have "txGenesis debit_tx = 5" "txTimestamp debit_tx = 1600000000" by (simp_all add: debit_tx_def)
  then have "\<exists>m. Register_Verify node_2020 bound_debit Map.empty FLAGS_BLOCK connect_world = Inr m"
    using op sk ob en by (simp add: Register_Verify_def verify_prefix_def verify_primitive_def verify_debit_def verify_state_def
      current_state_def found_def catch_all_def states_script_opos [OF bound_debit_at(2) len] State_eq_def on_object_def)
  then show ?thesis by (auto simp: Transaction_Verify_def debit_tx_def)
qed

lemma debit_tx_revertible: "revertible sample_ext node_2020 debit_tx [sample_debit] connect_world"
proof -
  have "prestate_of sample_debit = Inr acct"
    by (rule prestate_of_script [of _ _ 108]) (simp_all add: sample_debit_def MAX_SIZE_def)
  then have "recorded (start sample_debit) s \<Longrightarrow> s = acct" for s
    using recorded_start [of "start sample_debit" sample_debit s] by (simp add: start_def)
  then have "exact node_2020 (start sample_debit) connect_world" by (auto simp: exact_def)
  moreover have "at_primitive bound_debit = Inr (OP_DEBIT, opos 1 (start bound_debit))"
    by (rule script_at_primitive [OF bound_debit_at(3,5)]) simp_all
  moreover have "undoable OP_DEBIT (opos 1 (start bound_debit)) connect_world"
  proof -
    have "debit_to \<noteq> WILDCARD_ADDRESS" by (simp add: debit_to_def addr_not_wildcard)
    then show ?thesis using bound_debit_at(4) by (simp add: undoable_def)
  qed
  ultimately show ?thesis using bound_debit_at(5) by auto
qed

section \<open>Disconnecting a first transaction\<close>

text \<open>
  C31. Disconnecting the first transaction of a signature chain leaves the chain with a last transaction, the
  one it names as its predecessor, instead of none, and with its genesis: erasing the last transaction
  succeeds, and then the branch for all other transactions is taken.
\<close>

theorem disconnect_first_stays:
  assumes "Transaction_Disconnect E t FLAGS_BLOCK W = Inr W'" and "IsFirst t" and "IsCoinStake t = Inr False"
  shows "lLast (wLedger W') (txGenesis t) = Some (txPrevTx t) \<and> lGenesis (wLedger W') = lGenesis (wLedger W)"
proof -
  have r: "rollback_contracts E t FLAGS_BLOCK (rev (vContracts t)) (disconnect_last t W) = Inr W'"
    using assms by (simp add: Transaction_Disconnect_def)
  have "chain_of W' = chain_of (disconnect_last t W)" by (rule chain_of_rollback_contracts [OF r])
  then show ?thesis by (auto simp: chain_of_def disconnect_last_def WriteLast_def EraseLast_def)
qed

theorem disconnect_first_stays_witness:
  "\<exists>W'. Transaction_Disconnect node_2020 first_tx FLAGS_BLOCK empty_world = Inr W' \<and>
    lLast (wLedger W') 5 = Some 0 \<and> lLast (wLedger empty_world) 5 = None"
proof -
  have f: "IsFirst first_tx" "vContracts first_tx = []" "txGenesis first_tx = 5" "txPrevTx first_tx = 0"
    by (simp_all add: first_tx_def IsFirst_def tx_of_def)
  have c: "IsCoinStake first_tx = Inr False"
    by (simp add: IsCoinStake_def IsTrustPool_def tx_IsTrust_def IsGenesisPool_def tx_IsGenesis_def ror_def f)
  have d: "Transaction_Disconnect node_2020 first_tx FLAGS_BLOCK empty_world = Inr (disconnect_last first_tx empty_world)"
    by (simp add: Transaction_Disconnect_def c f)
  show ?thesis using disconnect_first_stays [OF d f(1) c] d f by (simp add: empty_world_def)
qed

section \<open>The developer of the test network\<close>

text \<open>
  On the test network the developer's signature chain cannot be started: once version 7 of the blocks
  is active its key is looked up in the table of the main network, where it is not, and connecting its first
  transaction ends with an exception that nothing in the function catches.
\<close>

theorem testnet_developer_throws:
  assumes "fTestNet E" and "IsFirst t" and "txGenesis t \<in> fst ` set DEVELOPER_TESTNET"
    and "StartBlockTimelock E 7 \<le> unifiedtimestamp E" and "7 \<le> CurrentBlockVersion E"
  shows "Transaction_Connect X N E t f pb W = Inl (Throw ''map::at'')"
proof -
  have g: "txGenesis t = 0xa20963c98e8996c70f470cdeb660ee98e233fda957439c81b19d9cb9ec5a6611"
    using assms(3) by (simp add: DEVELOPER_TESTNET_def)
  have "map_of (Ambassador E 7) (txGenesis t) = None" "map_of DEVELOPER (txGenesis t) = None"
    "map_of (Developer E 7) (txGenesis t) \<noteq> None"
    using assms(1) by (simp_all add: g Ambassador_def Developer_def V7_AMBASSADOR_TESTNET_def DEVELOPER_def DEVELOPER_TESTNET_def)
  then have "check_payees E t 7 = Inl (Throw ''map::at'')"
    using assms(4) by (auto simp: check_payees_def not_less)
  moreover have "\<exists>vs. switch_versions E = 7 # vs"
    using assms(5) unfolding switch_versions_def by (subst upt_conv_Cons) (simp_all add: word_le_nat_alt del: upt_Suc)
  ultimately have "check_versions E t (switch_versions E) = Inl (Throw ''map::at'')" by auto
  then show ?thesis using assms(2) by (simp add: Transaction_Connect_def connect_first_def)
qed

definition developer_tx :: tx where
  "developer_tx = first_tx\<lparr>txGenesis := 0xa20963c98e8996c70f470cdeb660ee98e233fda957439c81b19d9cb9ec5a6611\<rparr>"

theorem testnet_developer_throws_witness:
  "Transaction_Connect sample_ext sample_node (node_2020\<lparr>fTestNet := True\<rparr>) developer_tx FLAGS_BLOCK None empty_world
     = Inl (Throw ''map::at'')"
proof (rule testnet_developer_throws)
  show "IsFirst developer_tx" by (simp add: developer_tx_def first_tx_def IsFirst_def)
  show "txGenesis developer_tx \<in> fst ` set DEVELOPER_TESTNET" by (simp add: developer_tx_def DEVELOPER_TESTNET_def)
  show "StartBlockTimelock (node_2020\<lparr>fTestNet := True\<rparr>) 7 \<le> unifiedtimestamp (node_2020\<lparr>fTestNet := True\<rparr>)"
    "7 \<le> CurrentBlockVersion (node_2020\<lparr>fTestNet := True\<rparr>)" by code_simp+
qed simp

section \<open>The costs of a creation\<close>

lemma create_uncharged:
  assumes "exec_create E f c W k = Inr (c', W', k')" and "op_word c = Inr (a :: u256, c1)" and "op_word c1 = Inr (t :: u8, c2)"
    and "Range_type t" and "t \<noteq> REGISTER_OBJECT" and "op_vector c2 = Inr (d, c3)"
    and pos: "sPos (ssOperation c) < 2 ^ 64" and len: "length (sData (ssOperation c)) < 2 ^ 63"
  shows "k' = k" and "cost_create E c k = Inr (k + data_fee c3 d)"
proof -
  from assms(1) obtain c0 a' e1 t' e2 d' e3 s' where v: "Create_Verify c = Inr c0" and
    r: "op_word c0 = Inr (a' :: u256, e1)" "op_word e1 = Inr (t' :: u8, e2)" "op_vector e2 = Inr (d', e3)" and
    x: "Create_Execute E ((State_default E)\<lparr>nVersion := 1, nType := t', hashOwner := hashCaller e3\<rparr>) d' (nTimestamp e3) = Inr s'" and
    w: "Create_Commit E s' a' k f W = Inr (W', k')"
    unfolding exec_create_def Let_def by (elim rbind_pairE rbindE if_InlE) auto
  have "c0 = c" by (rule Create_Verify_back [OF v assms(2,3,4) pos len])
  then have t': "t' = t" using r assms(2,3) by simp
  have "nType s' = t'" using x by (auto simp: Create_Execute_def Let_def SetState_def SetChecksum_def split: if_splits)
  then have "nType s' \<noteq> REGISTER_OBJECT" using t' assms(5) by simp
  then show "k' = k" using w by (auto simp: Create_Commit_def split: if_splits)
  show "cost_create E c k = Inr (k + data_fee c3 d)"
    using assms(2,3,5,6) by (simp add: cost_create_def)
qed

text \<open>
  Creating a register that is not an object is free of charge for the chain, though not for its
  author: an accepted creation leaves the cost as it was, where \<open>Cost\<close> adds the fee for the size of the
  data, at least one coin.
\<close>

theorem raw_create_uncharged:
  assumes "Execute X E c f W k = Inr (W', k')" and "op_word (start c) = Inr (OP_CREATE, c1)"
    and "op_word c1 = Inr (a :: u256, c2)" and "op_word c2 = Inr (t, c3)" and "op_vector c3 = Inr (d, c4)"
    and "Range_type t" and "t \<noteq> REGISTER_OBJECT" and "length (sData (ssOperation c)) < 2 ^ 63"
  shows "k' = k \<and> Cost E c W k = Inr (k + data_fee c d) \<and> MIN_DATA_FEE \<le> data_fee c d"
proof -
  from assms(1,2) obtain c' where "exec_create E f c1 W k = Inr (c', W', k')"
    by (auto simp: Execute_def exec_prefix_def exec_primitive_def elim!: rbind_pairE simp del: rbind_eq_Inr)
  moreover have "sPos (ssOperation c1) < 2 ^ 64" "length (sData (ssOperation c1)) < 2 ^ 63"
    using op_word_in [OF assms(2)] assms(8) by (simp_all add: op_word_pos [OF assms(2)] start_def opos_def)
  ultimately have e: "k' = k" "cost_create E c1 k = Inr (k + data_fee c4 d)"
    using create_uncharged [OF _ assms(3,4,6,7,5)] by blast+
  have "cVersion c4 = cVersion c"
    using op_only_fields [OF op_vector_only [OF assms(5)]]
    by (simp add: op_word_pos [OF assms(2)] op_word_pos [OF assms(3)] op_word_pos [OF assms(4)] start_def)
  then have "data_fee c4 d = data_fee c d" by (simp add: data_fee_def)
  then show ?thesis using e assms(2) by (simp add: Cost_def cost_prefix_def data_fee_def)
qed

theorem raw_create_uncharged_witness:
  "\<exists>W'. Execute sample_ext node_2020 sample_create FLAGS_BLOCK empty_world 0 = Inr (W', 0) \<and>
    Cost node_2020 sample_create empty_world 0 = Inr 1000000"
proof -
  have o: "sData (ssOperation sample_create) = create_script raw_addr REGISTER_RAW [1, 2, 3]"
    by (simp add: sample_create_def)
  note at = create_script_at [OF o]
  have "Cost node_2020 sample_create empty_world 0 = Inr (0 + data_fee sample_create [1, 2, 3])"
    using raw_create_uncharged [OF sample_create_accepted at(1-4) _ _ sample_create_at(2)] by (simp add: Range_type_def MAX_SIZE_def)
  moreover have "data_fee sample_create [1, 2, 3] = 1000000"
    by (simp add: data_fee_def MIN_DATA_FEE_def NXS_COIN_def DATA_FEE_def DATA_FEE_V1_def)
  ultimately show ?thesis using sample_create_accepted by auto
qed

section \<open>What a first transaction may contain\<close>

definition creates :: "contract \<Rightarrow> u8 option" where
  "creates c =
     (case rbind (op_word (start c)) (\<lambda>(nOP, c).
        if nOP = OP_CREATE then rbind (op_word c) (\<lambda>(address :: u256, c). Inr (GetType address)) else Inl Diverges) of
        Inr t \<Rightarrow> Some t
      | Inl _ \<Rightarrow> None)"

definition created :: "u8 \<Rightarrow> contract list \<Rightarrow> nat" where
  "created t cs = length (filter (\<lambda>c. creates c = Some t) cs)"

lemma tally_first_creates:
  assumes "tally_first N c n = Inr n'" and "\<not> fPrivate N"
  obtains t where "creates c = Some t" and "t \<in> {ADDR_ACCOUNT, ADDR_TRUST, ADDR_NAME, ADDR_CRYPTO}"
    and "n' = (if t = ADDR_ACCOUNT then n\<lparr>nAccounts := nAccounts n + 1\<rparr> else if t = ADDR_TRUST then n\<lparr>nTrust := nTrust n + 1\<rparr>
      else if t = ADDR_NAME then n\<lparr>nNames := nNames n + 1\<rparr> else n\<lparr>nCrypto := nCrypto n + 1\<rparr>)"
proof -
  from assms obtain c1 a c2 where "op_word (start c) = Inr (OP_CREATE, c1)" "op_word c1 = Inr (a :: u256, c2)"
    and r: "(if GetType a = ADDR_ACCOUNT then Inr (n\<lparr>nAccounts := nAccounts n + 1\<rparr>)
       else if GetType a = ADDR_TRUST then Inr (n\<lparr>nTrust := nTrust n + 1\<rparr>)
       else if GetType a = ADDR_NAME then Inr (n\<lparr>nNames := nNames n + 1\<rparr>)
       else if GetType a = ADDR_CRYPTO then Inr (n\<lparr>nCrypto := nCrypto n + 1\<rparr>)
       else Inl (Reject ''genesis transaction contains invalid contracts.'')) = Inr n'"
    unfolding tally_first_def by (auto elim!: rbind_pairE rbindE simp del: rbind_eq_Inr split: if_splits)
  then show thesis by (intro that [of "GetType a"]) (auto simp: creates_def split: if_splits)
qed

lemma first_counts:
  assumes "check_contracts N b True cs n = Inr n'" and "\<not> fPrivate N"
  shows "nAccounts n' = nAccounts n + of_nat (created ADDR_ACCOUNT cs)" and "nTrust n' = nTrust n + of_nat (created ADDR_TRUST cs)"
    and "nNames n' = nNames n + of_nat (created ADDR_NAME cs)" and "nCrypto n' = nCrypto n + of_nat (created ADDR_CRYPTO cs)"
    and "\<forall>c \<in> set cs. creates c \<in> Some ` {ADDR_ACCOUNT, ADDR_TRUST, ADDR_NAME, ADDR_CRYPTO}"
proof -
  have "nAccounts n' = nAccounts n + of_nat (created ADDR_ACCOUNT cs) \<and> nTrust n' = nTrust n + of_nat (created ADDR_TRUST cs) \<and>
    nNames n' = nNames n + of_nat (created ADDR_NAME cs) \<and> nCrypto n' = nCrypto n + of_nat (created ADDR_CRYPTO cs) \<and>
    (\<forall>c \<in> set cs. creates c \<in> Some ` {ADDR_ACCOUNT, ADDR_TRUST, ADDR_NAME, ADDR_CRYPTO})"
    using assms(1)
  proof (induction cs arbitrary: n)
    case (Cons c cs)
    then obtain p m m' where m: "m = (if p \<noteq> OP_FEE then n\<lparr>nContracts := nContracts n + 1\<rparr> else n)"
      and t: "tally_first N c m = Inr m'" and r: "check_contracts N b True cs m' = Inr n'"
      by (auto simp: Let_def elim!: rbindE simp del: rbind_eq_Inr split: if_splits)
    show ?case
      by (rule tally_first_creates [OF t assms(2)]) (use Cons.IH [OF r] m in \<open>auto simp: created_def\<close>)
  qed (simp add: created_def)
  then show "nAccounts n' = nAccounts n + of_nat (created ADDR_ACCOUNT cs)" and "nTrust n' = nTrust n + of_nat (created ADDR_TRUST cs)"
    and "nNames n' = nNames n + of_nat (created ADDR_NAME cs)" and "nCrypto n' = nCrypto n + of_nat (created ADDR_CRYPTO cs)"
    and "\<forall>c \<in> set cs. creates c \<in> Some ` {ADDR_ACCOUNT, ADDR_TRUST, ADDR_NAME, ADDR_CRYPTO}" by blast+
qed

lemma of_nat_le_word8:
  assumes "(of_nat k :: u8) \<le> x" and "k < 256"
  shows "k \<le> unat x"
  using assms by (simp add: word_le_nat_alt unat_of_nat)

text \<open>
  A first transaction that passes the check contains nothing but the creation of at most one account, one
  trust account, two names and one crypto object, at least one and at most five together: the counters are
  bytes and do not wrap around.
\<close>

theorem first_transaction_contents:
  assumes "Transaction_Check N E t = Inr ()" and "IsFirst t" and "\<not> fPrivate N"
  shows "(\<forall>c \<in> set (vContracts t). creates c \<in> Some ` {ADDR_ACCOUNT, ADDR_TRUST, ADDR_NAME, ADDR_CRYPTO}) \<and>
    vContracts t \<noteq> [] \<and> length (vContracts t) \<le> 5 \<and> created ADDR_ACCOUNT (vContracts t) \<le> 1 \<and>
    created ADDR_TRUST (vContracts t) \<le> 1 \<and> created ADDR_NAME (vContracts t) \<le> 2 \<and> created ADDR_CRYPTO (vContracts t) \<le> 1"
proof -
  from assms obtain b n where
    c: "check_contracts N b True (vContracts t) \<lparr>nNames = 0, nTrust = 0, nAccounts = 0, nCrypto = 0, nContracts = 0\<rparr> = Inr n"
    and n: "nContracts n \<noteq> 0" and f: "check_first N t n = Inr ()"
    unfolding Transaction_Check_def by (auto elim!: rbindE simp del: rbind_eq_Inr split: if_splits)
  have b: "length (vContracts t) \<le> 5" "nNames n \<le> 2" "nTrust n \<le> 1" "nAccounts n \<le> 1" "nCrypto n \<le> 1"
    using f assms(2,3) by (auto simp: check_first_def split: if_splits)
  have "created a (vContracts t) < 256" for a
    using b(1) length_filter_le [of "\<lambda>c. creates c = Some a" "vContracts t"] unfolding created_def by linarith
  moreover have "vContracts t \<noteq> []" using c n by auto
  ultimately show ?thesis
    using first_counts [OF c assms(3)] b
      of_nat_le_word8 [of "created ADDR_ACCOUNT (vContracts t)" 1] of_nat_le_word8 [of "created ADDR_TRUST (vContracts t)" 1]
      of_nat_le_word8 [of "created ADDR_NAME (vContracts t)" 2] of_nat_le_word8 [of "created ADDR_CRYPTO (vContracts t)" 1]
    by simp
qed

definition account_create :: contract where
  "account_create = sample_contract (create_script (addr ADDR_ACCOUNT 4) REGISTER_OBJECT [1, 2, 3]) [] 5"

definition starting_tx :: tx where
  "starting_tx = (tx_of [account_create])\<lparr>txSequence := 0, txGenesis := addr 0xa1 7\<rparr>"

lemma starting_tx_checked: "Transaction_Check sample_node node_2020 starting_tx = Inr ()"
proof -
  have o: "sData (ssOperation account_create) = create_script (addr ADDR_ACCOUNT 4) REGISTER_OBJECT [1, 2, 3]"
    by (simp add: account_create_def)
  have "length [1, 2, 3 :: byte] \<le> MAX_SIZE" by (simp add: MAX_SIZE_def)
  note at = create_script_at [OF o this]
  have "\<exists>r. sData (ssOperation account_create) = OP_CREATE # r" by (simp add: o create_script_def)
  then have pr: "Primitive account_create = Inr OP_CREATE" "\<not> Contract_Empty OPERATIONS account_create"
    by (auto simp: Primitive_def stream_get_def Contract_Empty_def)
  have tf: "tally_first sample_node account_create n = Inr (n\<lparr>nAccounts := nAccounts n + 1\<rparr>)" for n
    using at(1,2) by (simp add: tally_first_def del: rbind_eq_Inr)
  have f: "vContracts starting_tx = [account_create]" "IsFirst starting_tx" "txGenesis starting_tx = addr 0xa1 7"
    by (simp_all add: starting_tx_def tx_of_def IsFirst_def)
  have g: "addr 0xa1 7 \<noteq> 0" 
  proof
    assume "addr 0xa1 7 = 0"
    then have "GetType (0 :: u256) = 0xa1" by (metis GetType_addr)
    then show False by (simp add: GetType_def)
  qed
  have v: "TransactionVersionActive node_2020 1600000000 2" by code_simp
  have "check_header node_2020 starting_tx = Inr ()"
    using g v by (simp add: check_header_def f drift_node_2020 MAX_TRANSACTION_CONTRACTS_def GenesisType_def)
      (simp add: starting_tx_def tx_of_def node_2020_def)
  moreover have "check_producer starting_tx = Inr ()" "IsCoinBase starting_tx = Inr False"
    using pr by (simp_all add: check_producer_def IsCoinStake_def IsTrustPool_def tx_IsTrust_def IsGenesisPool_def tx_IsGenesis_def
      IsPrivate_def IsCoinBase_def ror_def f)
  moreover have "check_signature sample_node starting_tx = Inr ()"
    by (simp add: check_signature_def sample_node_def starting_tx_def tx_of_def)
  ultimately show ?thesis
    using pr by (simp add: Transaction_Check_def f tf check_first_def) (simp add: sample_node_def)
qed

theorem first_transaction_contents_witness:
  "Transaction_Check sample_node node_2020 starting_tx = Inr () \<and> created ADDR_ACCOUNT (vContracts starting_tx) \<le> 1"
proof -
  have "IsFirst starting_tx" "\<not> fPrivate sample_node" by (simp_all add: starting_tx_def IsFirst_def sample_node_def)
  then show ?thesis using first_transaction_contents [OF starting_tx_checked] starting_tx_checked by blast
qed

end
