(* ===== verification/Chain_Properties.thy ===== *)
theory Chain_Properties
  imports Chain_Fork Ledger_Properties
begin

text \<open>
  The properties of the chain: its signature chains, connecting and disconnecting of blocks, the way to a better
  chain, and the scores of proof of stake.
\<close>

section \<open>A block with one transaction\<close>

definition no_legacy :: legacy where
  "no_legacy = \<lparr>xConnect = \<lambda>h b W. Inr (bMint b, W), xDisconnect = \<lambda>h b W. Inr W\<rparr>"

lemma no_legacy_keeps: "legacy_keeps no_legacy"
  by (simp add: legacy_keeps_def no_legacy_def)

definition no_rewards :: rewards where
  "no_rewards = \<lparr>rCoinstake = \<lambda>_ _ _ _. 0\<rparr>"

definition sample_block :: block_state where
  "sample_block = base_block\<lparr>hashPrevBlock := 1, bHeight := 2, bNonce := 2, bChannel := 2, bMint := 5, bMoneySupply := 0,
     bVtx := [(TX_TRITIUM, sample_txid)]\<rparr>"

lemma sample_hash [simp]: "Block_GetHash sample_node b = ucast (bNonce b)"
  by (simp add: Block_GetHash_def sample_node_def block_header.truncate_def)

lemma debit_tx_fields [simp]:
  "vContracts debit_tx = [sample_debit]" "\<not> IsFirst debit_tx" "txGenesis debit_tx = 5" "txPrevTx debit_tx = 6"
  "txHash debit_tx = sample_txid" "IsCoinStake debit_tx = Inr False" "Transaction_Fees debit_tx = Inr 0"
proof -
  show "vContracts debit_tx = [sample_debit]" "\<not> IsFirst debit_tx" "txGenesis debit_tx = 5" "txPrevTx debit_tx = 6"
    "txHash debit_tx = sample_txid"
    by (simp_all add: debit_tx_def IsFirst_def tx_of_def)
  then show "IsCoinStake debit_tx = Inr False" "Transaction_Fees debit_tx = Inr 0"
    using sample_debit_primitive
    by (simp_all add: IsCoinStake_def IsTrustPool_def tx_IsTrust_def IsGenesisPool_def tx_IsGenesis_def ror_def Transaction_Fees_def)
qed

text \<open>The same with a transaction that pays a fee.\<close>

definition fee_tx :: tx where
  "fee_tx = tx_of [sample_fee]"

definition fee_world :: world where
  "fee_world = WriteTx sample_txid fee_tx connect_world"

lemma fee_world_reads [simp]:
  "ReadState x FLAGS_BLOCK fee_world = ReadState x FLAGS_BLOCK connect_world" "ReadTx sample_txid FLAGS_BLOCK fee_world = Some fee_tx"
  "ReadTx 6 FLAGS_BLOCK fee_world = Some first_tx" "lLast (wLedger fee_world) 5 = Some 6"
  "ReadBlock k fee_world = ReadBlock k connect_world" "HasIndex h fee_world = HasIndex h connect_world"
proof -
  have "sample_txid \<noteq> 6" using GetType_sample_txid by (metis GetType_6)
  then show "ReadTx 6 FLAGS_BLOCK fee_world = Some first_tx"
    using connect_world_reads(2) [of FLAGS_BLOCK] by (simp add: fee_world_def ReadTx_def WriteTx_def)
  show "lLast (wLedger fee_world) 5 = Some 6" using connect_world_reads(4) by (simp add: fee_world_def WriteTx_def)
qed (simp_all add: fee_world_def ReadTx_def WriteTx_def ReadBlock_def HasIndex_def ReadState_def)

lemma one_transaction:
  assumes "connect_tritium X R N E h h (b\<lparr>bFees := 0\<rparr>, 0, W) = Inr (b1, p, V)" and "bVtx b = [(TX_TRITIUM, h)]"
    and "Prev E b W = Inr prev"
  shows "\<exists>b' W'. Block_Connect X R L N E b W = Inr (b', W')"
proof -
  have c: "connect_vtx X R L N E h [(TX_TRITIUM, h)] (b\<lparr>bFees := 0\<rparr>, 0, W) = Inr (b1, p, V)" using assms(1) by simp
  have "lBlocks (wLedger V) = lBlocks (wLedger W)" by (rule connect_tritium_blocks [OF assms(1)])
  moreover obtain n m where "b1 = b\<lparr>bFees := n, bMint := bMint b + m\<rparr>" using connect_vtx_block [OF c] by auto
  ultimately have "Prev E b1 V = Prev E b W" by (simp add: Prev_def ReadBlock_def)
  then have "Prev E b1 V = Inr prev" using assms(3) by simp
  then show ?thesis using c assms(2) by (simp add: Block_Connect_def finish_block_def Let_def del: connect_vtx.simps)
qed

lemma tritium_connected:
  assumes "\<not> HasIndex h W" and "ReadTx h FLAGS_BLOCK W = Some t" and "check_last t W = Inr ()"
    and "Transaction_Verify E t FLAGS_BLOCK W = Inr ()" and "Transaction_Connect X N E t FLAGS_BLOCK (Some b) W = Inr V"
    and "Transaction_Fees t = Inr n" and "IsCoinStake t = Inr False"
  shows "connect_tritium X R N E f h (b, p, W) = Inr (b\<lparr>bFees := bFees b + n\<rparr>, p, IndexBlock h (Block_GetHash N (b\<lparr>bFees := bFees b + n\<rparr>)) V)"
  using assms by (simp add: connect_tritium_def connect_stake_def found_def)

lemma sample_vtx: "bVtx sample_block = [(TX_TRITIUM, sample_txid)]"
  by (simp add: sample_block_def)

lemma sample_prev [simp]: "Prev node_2020 sample_block connect_world = Inr base_block" "Prev node_2020 sample_block fee_world = Inr base_block"
  by (simp_all add: Prev_def sample_block_def)

lemma debit_tritium:
  "\<exists>V. connect_tritium sample_ext R sample_node node_2020 f sample_txid (b, p, connect_world) = Inr (b\<lparr>bFees := bFees b\<rparr>, p, V)"
proof -
  obtain V where V: "Transaction_Connect sample_ext sample_node node_2020 debit_tx FLAGS_BLOCK (Some b) connect_world = Inr V"
    using debit_tx_connected by blast
  have "check_last debit_tx connect_world = Inr ()" by (simp add: check_last_def ReadLast_def)
  then show ?thesis using tritium_connected [OF _ _ _ debit_tx_verified V] by simp
qed

lemma debit_block:
  "\<exists>b' W'. Block_Connect sample_ext no_rewards no_legacy sample_node node_2020 sample_block connect_world = Inr (b', W')"
proof -
  obtain V where V: "connect_tritium sample_ext no_rewards sample_node node_2020 sample_txid sample_txid
      (sample_block\<lparr>bFees := 0\<rparr>, 0, connect_world) = Inr (sample_block\<lparr>bFees := 0\<rparr>, 0, V)"
    using debit_tritium [of no_rewards sample_txid "sample_block\<lparr>bFees := 0\<rparr>" 0] by auto
  show ?thesis by (rule one_transaction [OF V sample_vtx sample_prev(1)])
qed

lemma fee_tx_at:
  "op_word (start sample_fee) = Inr (OP_FEE, opos 1 (start sample_fee))"
  "op_word (opos 1 (start sample_fee)) = Inr (debit_from, opos 33 (start sample_fee))"
  "op_word (opos 33 (start sample_fee)) = Inr (30 :: u64, opos 41 (start sample_fee))"
  "start sample_fee = sample_fee" "Primitive sample_fee = Inr OP_FEE"
  "Contract_Dependant sample_fee = Inr ((False, 0, 0), opos 1 (start sample_fee))"
  "Contract_Value sample_fee = Inr ((True, 30), opos 41 (start sample_fee))"
proof -
  have o: "sData (ssOperation sample_fee) = fee_script debit_from 30" by (simp add: sample_fee_def)
  show at: "op_word (start sample_fee) = Inr (OP_FEE, opos 1 (start sample_fee))"
    "op_word (opos 1 (start sample_fee)) = Inr (debit_from, opos 33 (start sample_fee))"
    "op_word (opos 33 (start sample_fee)) = Inr (30 :: u64, opos 41 (start sample_fee))"
    using fee_script_at [OF o] by simp_all
  show st: "start sample_fee = sample_fee" by (simp add: start_def sample_fee_def sample_contract_def stream_of_def)
  have b: "\<exists>r. sData (ssOperation sample_fee) = OP_FEE # r" "sData (ssOperation sample_fee) \<noteq> []" by (simp_all add: o fee_script_def)
  then show "Primitive sample_fee = Inr OP_FEE" by (auto simp: Primitive_def stream_get_def)
  have sk: "SeekToPrimitive sample_fee = Inr (start sample_fee)"
    using SeekToPrimitive_start [of sample_fee] b by (fastforce simp: st)
  then show "Contract_Dependant sample_fee = Inr ((False, 0, 0), opos 1 (start sample_fee))" using at by (simp add: Contract_Dependant_def)
  show "Contract_Value sample_fee = Inr ((True, 30), opos 41 (start sample_fee))"
    using sk at skip_word [OF at(2)] by (simp add: Contract_Value_def value_offset_def Contract_Seek_def flag_set_def)
qed

lemma fee_tx_fields [simp]:
  "vContracts fee_tx = [sample_fee]" "\<not> IsFirst fee_tx" "txGenesis fee_tx = 5" "txPrevTx fee_tx = 6"
  "txHash fee_tx = sample_txid" "txTimestamp fee_tx = 1600000000" "IsCoinStake fee_tx = Inr False" "Transaction_Fees fee_tx = Inr 30"
proof -
  show f: "vContracts fee_tx = [sample_fee]" "\<not> IsFirst fee_tx" "txGenesis fee_tx = 5" "txPrevTx fee_tx = 6"
    "txHash fee_tx = sample_txid" "txTimestamp fee_tx = 1600000000"
    by (simp_all add: fee_tx_def IsFirst_def tx_of_def)
  show "IsCoinStake fee_tx = Inr False" "Transaction_Fees fee_tx = Inr 30"
    using fee_tx_at f
    by (simp_all add: IsCoinStake_def IsTrustPool_def tx_IsTrust_def IsGenesisPool_def tx_IsGenesis_def ror_def Transaction_Fees_def)
qed

lemma fee_tx_verified:
  assumes "ReadState debit_from FLAGS_BLOCK F = Some acct"
  shows "Transaction_Verify node_2020 fee_tx FLAGS_BLOCK F = Inr ()"
proof -
  have len: "length (vchState acct) \<le> MAX_SIZE" by (simp add: MAX_SIZE_def)
  have o: "sData (ssOperation (tx_bind fee_tx sample_fee)) = fee_script debit_from 30"
    "sData (ssRegister (tx_bind fee_tx sample_fee)) = states_script acct 108"
    by (simp_all add: sample_fee_def)
  obtain ob where ob: "Fee_Execute node_2020 (Object_of acct) 30 1600000000 = Inr ob" using acct_fee by blast
  note op = fee_script_at [OF o(1)]
  have L: "length (sData (ssOperation sample_fee)) = 41" by (simp add: sample_fee_def fee_script_def)
  have en: "Contract_End OPERATIONS (opos 41 (rpos p (start (tx_bind fee_tx sample_fee))))" for p
    by (rule stream_end_start) (use L in simp_all)
  have "\<exists>m. Register_Verify node_2020 (tx_bind fee_tx sample_fee) Map.empty FLAGS_BLOCK F = Inr m"
    using op ob en assms by (simp add: Register_Verify_def verify_prefix_def verify_primitive_def verify_fee_def verify_state_def
      current_state_def found_def catch_all_def states_script_opos [OF o(2) len] State_eq_def on_object_def)
  then show ?thesis by (auto simp: Transaction_Verify_def)
qed

lemma fee_tx_connected:
  assumes "ReadTx 6 FLAGS_BLOCK F = Some first_tx"
  shows "\<exists>W'. Transaction_Connect sample_ext sample_node node_2020 fee_tx FLAGS_BLOCK pb F = Inr W'"
proof -
  obtain ob where "Fee_Execute node_2020 (Object_of acct) 30 1600000000 = Inr ob" "GetHash node_2020 ob = 108"
    using acct_fee by blast
  then have x: "\<exists>W'. Execute sample_ext node_2020 (tx_bind fee_tx sample_fee) FLAGS_BLOCK F 0 = Inr (W', 0)"
    using fee_accepted [of "tx_bind fee_tx sample_fee" debit_from 30 acct node_2020 ob sample_ext FLAGS_BLOCK F 0] acct_valid
    by (simp add: sample_fee_def MAX_SIZE_def)
  have "connect_previous sample_node node_2020 fee_tx FLAGS_BLOCK F = Inr False"
    using assms by (simp add: connect_previous_def fee_tx_def tx_of_def first_tx_def PrevHash_def node_2020_def fee_applies_def TX_FEE_INTERVAL_def)
  then show ?thesis using x fee_tx_at(5,6) by (auto simp: Transaction_Connect_def check_dependant_def sample_node_def)
qed

text \<open>The block is connected in every world that has these records.\<close>

definition fee_ready :: "block_state \<Rightarrow> world \<Rightarrow> bool" where
  "fee_ready b F \<longleftrightarrow> ReadState debit_from FLAGS_BLOCK F = Some acct \<and> ReadTx 6 FLAGS_BLOCK F = Some first_tx \<and>
     ReadTx sample_txid FLAGS_BLOCK F = Some fee_tx \<and> lLast (wLedger F) 5 = Some 6 \<and> \<not> HasIndex sample_txid F \<and>
     (\<exists>q. Prev node_2020 b F = Inr q)"

lemma fee_world_ready: "fee_ready sample_block fee_world"
  by (simp add: fee_ready_def)

lemma fee_block:
  assumes "fee_ready b F" and v: "bVtx b = [(TX_TRITIUM, sample_txid)]"
  shows "\<exists>b' W'. Block_Connect sample_ext no_rewards no_legacy sample_node node_2020 b F = Inr (b', W')"
proof -
  from assms(1) obtain q where r: "ReadState debit_from FLAGS_BLOCK F = Some acct" "ReadTx 6 FLAGS_BLOCK F = Some first_tx"
    "ReadTx sample_txid FLAGS_BLOCK F = Some fee_tx" "lLast (wLedger F) 5 = Some 6" "\<not> HasIndex sample_txid F" "Prev node_2020 b F = Inr q"
    unfolding fee_ready_def by blast
  obtain V where V: "Transaction_Connect sample_ext sample_node node_2020 fee_tx FLAGS_BLOCK (Some (b\<lparr>bFees := 0\<rparr>)) F = Inr V"
    using fee_tx_connected [OF r(2)] by blast
  have "check_last fee_tx F = Inr ()" by (simp add: check_last_def ReadLast_def r(4))
  then show ?thesis
    by (intro one_transaction [OF tritium_connected [OF r(5,3) _ fee_tx_verified [OF r(1)] V] v r(6)]) simp_all
qed

text \<open>It can be disconnected again, and then connected a second time.\<close>

lemma bound_fee_at: "at_primitive (tx_bind fee_tx sample_fee) = Inr (OP_FEE, opos 1 (start (tx_bind fee_tx sample_fee)))"
  by (rule script_at_primitive [OF fee_script_at(1)]) (simp_all add: sample_fee_def fee_script_def)

lemma fee_tx_revertible: "revertible sample_ext node_2020 fee_tx [sample_fee] fee_world"
proof -
  have "prestate_of sample_fee = Inr acct"
    by (rule prestate_of_script [of _ _ 108]) (simp_all add: sample_fee_def MAX_SIZE_def)
  then have "recorded (start sample_fee) s \<Longrightarrow> s = acct" for s
    using recorded_start [of "start sample_fee" sample_fee s] by (simp add: start_def)
  then have "exact node_2020 (start sample_fee) fee_world" by (auto simp: exact_def)
  moreover have "undoable OP_FEE (opos 1 (start (tx_bind fee_tx sample_fee))) fee_world" by (simp add: undoable_def)
  ultimately show ?thesis using bound_fee_at by (auto simp: sample_fee_def fee_script_def)
qed

section \<open>Signature chains\<close>

lemma connect_world_chained: "well_chained connect_world"
proof -
  have t: "lTx (wLedger connect_world) h = (if h = sample_txid then Some debit_tx else if h = 6 then Some first_tx else None)" for h
    by (simp add: connect_world_def WriteBlock_def WriteTx_def WriteLast_def undo_world_def sample_world_def WriteState_def empty_world_def)
  have l: "lLast (wLedger connect_world) g = (if g = 5 then Some 6 else None)" for g
    by (simp add: connect_world_def WriteBlock_def WriteTx_def WriteLast_def undo_world_def sample_world_def WriteState_def empty_world_def)
  have "sample_txid \<noteq> 6" using GetType_sample_txid by (metis GetType_6)
  then have "sigchain (lTx (wLedger connect_world)) 5 6"
    by (intro sig_first [of _ _ first_tx]) (simp_all add: t first_tx_def tx_of_def IsFirst_def)
  then show ?thesis by (simp add: well_chained_def l) (simp add: t first_tx_def)
qed

text \<open>
  C8. In a ledger where this is so and every transaction is stored under its hash (an empty one, say), and however
  transactions are then stored, connected in blocks and, at the end of their chain, disconnected: the last transaction
  of every signature chain is the top of a chain of stored transactions of the same genesis, with sequence numbers that
  go down by one and times that do not go up, to a first transaction. The node is not in client mode, and no first
  transaction is disconnected, since that leaves the chain with a last transaction that need not be stored.
\<close>

theorem signature_chains_linked:
  assumes "(ledger_step E)\<^sup>*\<^sup>* W W'" and "well_chained W" and "\<not> fClient E" and "lLast (wLedger W') g = Some h"
  shows "sigchain (lTx (wLedger W')) g h"
  using well_chained_steps [OF assms(1-3)] assms(4) by (simp add: well_chained_def)

theorem signature_chains_linked_witness:
  "\<exists>W'. (ledger_step node_2020)\<^sup>*\<^sup>* connect_world W' \<and> lLast (wLedger W') 5 = Some sample_txid \<and>
    sigchain (lTx (wLedger W')) 5 sample_txid"
proof -
  obtain V where V: "Transaction_Connect sample_ext sample_node node_2020 debit_tx FLAGS_BLOCK (Some sample_block) connect_world = Inr V"
    using debit_tx_connected by blast
  have "check_last debit_tx connect_world = Inr ()" by (simp add: check_last_def ReadLast_def)
  then have "connect_tritium sample_ext no_rewards sample_node node_2020 sample_txid sample_txid (sample_block, 0, connect_world)
      = Inr (sample_block, 0, IndexBlock sample_txid 2 V)"
    using tritium_connected [OF _ _ _ debit_tx_verified V, of sample_txid 0 no_rewards sample_txid 0] by (simp add: sample_block_def)
  then have st: "(ledger_step node_2020)\<^sup>*\<^sup>* connect_world (IndexBlock sample_txid 2 V)" by (intro r_into_rtranclp step_connect)
  have "lLast (wLedger V) 5 = Some sample_txid" using connect_ledger(2) [OF V] by simp
  then have l: "lLast (wLedger (IndexBlock sample_txid 2 V)) 5 = Some sample_txid" by simp
  show ?thesis using signature_chains_linked [OF st connect_world_chained fClient_node_2020 l] st l by blast
qed

text \<open>
  The search for the last coinstake of a signature chain ends, when the chains are linked and no first
  transaction names a predecessor; what it finds is a coinstake of the same genesis.
\<close>

theorem last_stake_found:
  assumes "well_chained W" and "\<And>k t. lTx (wLedger W) k = Some t \<Longrightarrow> IsFirst t \<Longrightarrow> txPrevTx t = 0"
  shows "\<exists>r. FindLastStake g W = Some r \<and> (\<forall>t. r = Inr (Some t) \<longrightarrow> IsCoinStake t = Inr True \<and> txGenesis t = g)"
proof (cases "lLast (wLedger W) g")
  case (Some h)
  then have "sigchain (lTx (wLedger W)) g h" using assms(1) by (simp add: well_chained_def)
  then show ?thesis using last_stake_ends [OF _ assms(2)] Some by (simp add: FindLastStake_def ReadLast_def)
qed (simp add: FindLastStake_def ReadLast_def)

theorem last_stake_found_witness: "\<exists>r. FindLastStake 5 connect_world = Some r"
proof -
  have "lTx (wLedger connect_world) k = Some t \<Longrightarrow> IsFirst t \<Longrightarrow> txPrevTx t = 0" for k t
    by (auto simp: connect_world_def WriteBlock_def WriteTx_def WriteLast_def undo_world_def sample_world_def WriteState_def
        empty_world_def first_tx_def split: if_splits)
  then show ?thesis using last_stake_found [OF connect_world_chained, of 5] by blast
qed

section \<open>Connecting and disconnecting\<close>

text \<open>
  C7. Disconnecting a block undoes connecting it: a block of ordinary transactions that was connected, whatever
  their contracts are, can be disconnected, and then the registers, the proofs, the fulfilled conditions, the
  indexes of the transactions and the last transactions of all signature chains are what they were; the counters
  of claimed amounts and events are the same, or zero where there was no record. The transactions are neither
  first ones nor coinstakes, and each can be rolled back from the world in which the block executes it.
\<close>

theorem block_undone:
  assumes "Block_Connect X R L N E b W = Inr (b', W')" and "\<not> fClient E"
    and "ordinary_vtx X R N E (snd (last (bVtx b))) (bVtx b) (b\<lparr>bFees := 0\<rparr>, 0, W)"
  shows "\<exists>W''. Block_Disconnect L N E b' W' = Inr W'' \<and> like W W'' \<and> links W'' = links W"
  using assms by (rule block_disconnected)

theorem block_undone_witness:
  "\<exists>b' W' W''. Block_Connect sample_ext no_rewards no_legacy sample_node node_2020 sample_block connect_world = Inr (b', W') \<and>
    Block_Disconnect no_legacy sample_node node_2020 b' W' = Inr W'' \<and> like connect_world W'' \<and> links W'' = links connect_world"
proof -
  obtain b' W' where c: "Block_Connect sample_ext no_rewards no_legacy sample_node node_2020 sample_block connect_world = Inr (b', W')"
    using debit_block by blast
  have "ordinary_vtx sample_ext no_rewards sample_node node_2020 (snd (last (bVtx sample_block))) (bVtx sample_block)
      (sample_block\<lparr>bFees := 0\<rparr>, 0, connect_world)"
    using debit_tx_revertible by (simp add: sample_vtx del: revertible.simps)
  then show ?thesis using block_undone [OF c fClient_node_2020] c by blast
qed

text \<open>
  C12. A block that is connected, disconnected and connected a second time counts its fees twice in the fee reserve. After the
  disconnection the copy on disk still carries the reserve with the fees; connecting it again counts the same fees
  anew and adds them to that reserve. The block has a predecessor that is stored under its own hash and is not the
  block itself; connecting and disconnecting transactions of the legacy chain write neither blocks nor
  transactions of signature chains.
\<close>

theorem reconnect_counts_fees_twice:
  assumes "Block_Connect X R L N E b W = Inr (b', W')" and "Block_Disconnect L N E b' W' = Inr V"
    and "ReadBlock (Block_GetHash N b) V = Some c" and "Block_Connect X' R' L N E' c V = Inr (b'', V')"
    and "legacy_keeps L" and "Prev E b W = Inr prev" and "\<not> Block_IsNull prev" and "Block_GetHash N prev = hashPrevBlock b"
    and "hashPrevBlock b \<noteq> Block_GetHash N b"
  shows "c = b' \<and> bFees b'' = bFees b' \<and> bFeeReserve b' = bFeeReserve b + bFees b' \<and>
    bFeeReserve b'' = bFeeReserve b + 2 * bFees b'"
proof -
  note f = connected_fees [OF assms(1,5)] and s = connected_supply [OF assms(1,5,6,7)]
  have "hashPrevBlock b \<noteq> 0" using assms(6,7) by (auto simp: Prev_def Block_IsNull_def Block_default_def)
  then have p: "Prev E b' W' = Inr (prev\<lparr>hashNextBlock := Block_GetHash N b\<rparr>)"
    using s(3) by (simp add: Prev_def connected_prev(1) [OF assms(1)] assms(8))
  have "Block_GetHash N (prev\<lparr>hashNextBlock := h\<rparr>) = hashPrevBlock b" for h
    using assms(8) by (simp add: Block_GetHash_def block_header.truncate_def)
  then have "c = b'" and t: "lTx (wLedger V) = lTx (wLedger W)"
    using disconnected_keeps(1) [OF assms(2,5) p] disconnected_keeps(2) [OF assms(2,5) p, of "Block_GetHash N b"] s(2) assms(3,8,9) f(4)
    by simp_all
  note g = connected_fees [OF assms(4,5), unfolded \<open>c = b'\<close>]
  show ?thesis using \<open>c = b'\<close> f(1,2,3) g(1,2) t by simp
qed

theorem reconnect_counts_fees_twice_witness:
  "\<exists>b' W' V b'' V'. Block_Connect sample_ext no_rewards no_legacy sample_node node_2020 sample_block fee_world = Inr (b', W') \<and>
    Block_Disconnect no_legacy sample_node node_2020 b' W' = Inr V \<and> ReadBlock 2 V = Some b' \<and>
    Block_Connect sample_ext no_rewards no_legacy sample_node node_2020 b' V = Inr (b'', V') \<and>
    bFeeReserve b' = 30 \<and> bFeeReserve b'' = 60"
proof -
  obtain b' W' where c: "Block_Connect sample_ext no_rewards no_legacy sample_node node_2020 sample_block fee_world = Inr (b', W')"
    using fee_block [OF fee_world_ready sample_vtx] by blast
  note f = connected_fees [OF c no_legacy_keeps]
  have n: "\<not> Block_IsNull base_block" "Block_GetHash sample_node base_block = hashPrevBlock sample_block"
    "hashPrevBlock sample_block \<noteq> Block_GetHash sample_node sample_block" "Block_GetHash sample_node sample_block = 2"
    by (simp_all add: Block_IsNull_def base_block_def sample_block_def)
  note s = connected_supply [OF c no_legacy_keeps sample_prev(2) n(1)]
  have "ordinary_vtx sample_ext no_rewards sample_node node_2020 (snd (last (bVtx sample_block))) (bVtx sample_block)
      (sample_block\<lparr>bFees := 0\<rparr>, 0, fee_world)"
    using fee_tx_revertible by (simp add: sample_vtx del: revertible.simps)
  then obtain V where d: "Block_Disconnect no_legacy sample_node node_2020 b' W' = Inr V" "like fee_world V" "links V = links fee_world"
    using block_disconnected [OF c fClient_node_2020] by blast
  have p: "Prev node_2020 b' W' = Inr (base_block\<lparr>hashNextBlock := 2\<rparr>)"
    using s(3) n(4) by (simp add: Prev_def connected_prev(1) [OF c] base_block_def sample_block_def)
  have r: "ReadBlock 2 V = Some b'"
    using disconnected_keeps(2) [OF d(1) no_legacy_keeps p, of 2] s(2) n by (simp add: base_block_def)
  have "\<exists>q. Prev node_2020 b' V = Inr q"
    using d(1) unfolding Block_Disconnect_def
    by (auto elim!: rbindE simp del: rbind_eq_Inr split: if_splits) (auto simp: Prev_def ReadBlock_def WriteBlock_def split: option.splits)
  then have "fee_ready b' V"
    using fee_world_ready d(2,3) unfolding fee_ready_def by (simp add: like_def links_def ReadTx_def HasIndex_def)
  then obtain b'' V' where e: "Block_Connect sample_ext no_rewards no_legacy sample_node node_2020 b' V = Inr (b'', V')"
    using fee_block f(3) sample_vtx by metis
  have "bFees b' = 30" using f(1) fee_world_reads(2) by (simp add: sample_vtx ReadTx_def)
  moreover have "bFeeReserve b' = bFeeReserve sample_block + bFees b' \<and> bFeeReserve b'' = bFeeReserve sample_block + 2 * bFees b'"
    using reconnect_counts_fees_twice [OF c d(1) _ e no_legacy_keeps sample_prev(2) n(1-3)] r n(4) by simp
  ultimately show ?thesis using c d(1) r e by (simp add: sample_block_def base_block_def)
qed

lemma signed_above:
  fixes k :: int
  assumes "2 ^ 31 \<le> k" and "k < 2 ^ 32"
  shows "signed_take_bit 31 k = k - 2 ^ 32"
proof -
  have "(k + 2 ^ 31) mod 2 ^ 32 = (k - 2 ^ 31 + 2 ^ 32) mod 2 ^ 32" by (simp add: add.commute)
  also have "\<dots> = k - 2 ^ 31" using assms by (simp only: mod_add_self2) (simp add: mod_pos_pos_trivial)
  finally show ?thesis unfolding signed_take_bit_eq_take_bit_shift take_bit_eq_mod by simp
qed

text \<open>A mint of 32 bits as the signed number it is added as.\<close>

lemma scast_mint:
  assumes "r < 2 ^ 32"
  shows "(scast (of_nat r :: u32) :: u64) = (if r < 2 ^ 31 then of_nat r else of_nat r - 2 ^ 32)"
proof -
  have i: "int r < 2 ^ 31 \<longleftrightarrow> r < 2 ^ 31" "int r < 2 ^ 32" using assms by simp_all
  have u: "uint (of_nat r :: u32) = int r" using i(2) by (simp add: unsigned_of_nat take_bit_nat_eq_self_iff assms)
  have "sint (of_nat r :: u32) = signed_take_bit 31 (uint (of_nat r :: u32))" by (simp only: sint_uint) (simp only: len_bit0 len_num1, simp)
  also have "\<dots> = (if r < 2 ^ 31 then int r else int r - 2 ^ 32)"
    unfolding u using i signed_above [of "int r"] by (auto simp: signed_take_bit_int_eq_self_iff)
  finally have s: "sint (of_nat r :: u32) = (if r < 2 ^ 31 then int r else int r - 2 ^ 32)" .
  show ?thesis unfolding scast_eq s by (simp only: of_int_diff if_distrib [of word_of_int]) simp
qed

text \<open>
  C13. A connected block carries the money supply of its predecessor on disk, changed by its mint as a signed number of 32
  bits, and is stored with it; the predecessor is a block with another hash, and transactions of the legacy chain write
  neither blocks nor transactions of signature chains. In a block with transactions of signature chains only, the mint
  is the one the block comes with and the rewards its coinstakes claim. As long as they come to less than 2^31 (2147
  coins), the supply rises by them; from 2^31 and below 2^32 it falls instead, by 2^32 less them.
\<close>

theorem supply_follows_mint:
  assumes "Block_Connect X R L N E b W = Inr (b', W')" and "legacy_keeps L"
    and "Prev E b W = Inr prev" and "\<not> Block_IsNull prev" and "Block_GetHash N prev \<noteq> Block_GetHash N b"
  shows "ReadBlock (Block_GetHash N b) W' = Some b' \<and> bMoneySupply b' = bMoneySupply prev + scast (bMint b') \<and>
    ((\<forall>v \<in> set (bVtx b). fst v = TX_TRITIUM) \<longrightarrow>
      (let r = unat (bMint b) + stake_rewards (lTx (wLedger W)) (bVtx b) in
        bMint b' = of_nat r \<and> (r < 2 ^ 31 \<longrightarrow> bMoneySupply b' = bMoneySupply prev + of_nat r) \<and>
        (2 ^ 31 \<le> r \<and> r < 2 ^ 32 \<longrightarrow> bMoneySupply b' = bMoneySupply prev - of_nat (2 ^ 32 - r))))"
proof -
  note s = connected_supply [OF assms(1-4)]
  define r where "r = unat (bMint b) + stake_rewards (lTx (wLedger W)) (bVtx b)"
  have "bMint b' = of_nat r" if "\<forall>v \<in> set (bVtx b). fst v = TX_TRITIUM"
    using connected_fees(5) [OF assms(1,2) that] by (simp add: r_def)
  moreover have "bMoneySupply b' = bMoneySupply prev + of_nat r" if "bMint b' = of_nat r" "r < 2 ^ 31"
    using s(1) scast_mint [of r] that by simp
  moreover have "bMoneySupply b' = bMoneySupply prev - of_nat (2 ^ 32 - r)" if "bMint b' = of_nat r" "2 ^ 31 \<le> r" "r < 2 ^ 32"
    using s(1) scast_mint [of r] that by (simp add: of_nat_diff)
  ultimately show ?thesis using s(1) s(2) [OF assms(5)] unfolding Let_def r_def [symmetric] by blast
qed

definition minting_block :: block_state where
  "minting_block = sample_block\<lparr>bMint := 3000000000\<rparr>"

theorem supply_follows_mint_witness:
  "\<exists>b' W'. Block_Connect sample_ext no_rewards no_legacy sample_node node_2020 minting_block connect_world = Inr (b', W') \<and>
    ReadBlock 2 W' = Some b' \<and> bMoneySupply b' = 9000 - 1294967296"
proof -
  have v: "bVtx minting_block = [(TX_TRITIUM, sample_txid)]" by (simp add: minting_block_def sample_vtx)
  have h: "hashPrevBlock minting_block = hashPrevBlock sample_block" by (simp add: minting_block_def)
  have p: "Prev node_2020 minting_block connect_world = Inr base_block"
    using sample_prev(1) unfolding Prev_def h .
  obtain V where "connect_tritium sample_ext no_rewards sample_node node_2020 sample_txid sample_txid
      (minting_block\<lparr>bFees := 0\<rparr>, 0, connect_world) = Inr (minting_block\<lparr>bFees := 0\<rparr>, 0, V)"
    using debit_tritium [of no_rewards sample_txid "minting_block\<lparr>bFees := 0\<rparr>" 0] by auto
  from one_transaction [OF this v p]
  obtain b' W' where c: "Block_Connect sample_ext no_rewards no_legacy sample_node node_2020 minting_block connect_world = Inr (b', W')"
    by blast
  have t: "stake_rewards (lTx (wLedger connect_world)) (bVtx minting_block) = 0"
    using connect_world_reads(3) [of FLAGS_BLOCK] by (simp add: v ReadTx_def)
  have n: "\<not> Block_IsNull base_block" "Block_GetHash sample_node base_block \<noteq> Block_GetHash sample_node minting_block"
    "Block_GetHash sample_node minting_block = 2" "unat (bMint minting_block) = 3000000000"
    by (simp_all add: Block_IsNull_def base_block_def sample_block_def minting_block_def)
  have i: "\<forall>v \<in> set (bVtx minting_block). fst v = TX_TRITIUM" by (simp add: v)
  have "ReadBlock 2 W' = Some b' \<and> bMoneySupply b' = bMoneySupply base_block - of_nat (2 ^ 32 - 3000000000)"
    using supply_follows_mint [OF c no_legacy_keeps p n(1,2)] i unfolding t n(3,4) Let_def by simp
  moreover have "bMoneySupply base_block = 9000" by (simp add: base_block_def)
  ultimately show ?thesis using c by auto
qed

text \<open>
  C11. The best block in memory has a stale money supply: after a change to a block that extends the best one, the
  copy on disk has the supply of its predecessor and its mint, but the node goes on with the block as it was
  before it was connected, with the supply it came with. The best block is on disk and has another hash than the new one,
  and transactions of the legacy chain write neither blocks nor transactions of signature chains.
\<close>

theorem best_supply_stale:
  assumes "SetBest X R L N E b S W = Inr (S', W')" and "\<not> Block_IsNull (stateGenesis S)"
    and "Prev E b W = Inr p" and "\<not> Block_IsNull p" and "Block_eq (stateBest S) p" and "unat (bHeight b) = unat (bHeight p) + 1"
    and "legacy_keeps L" and "Block_GetHash N p \<noteq> Block_GetHash N b"
  shows "stateBest S' = b \<and> bMoneySupply (stateBest S') = bMoneySupply b \<and>
    (\<exists>b'. ReadBlock (hashBestChain S') W' = Some b' \<and> bMoneySupply b' = bMoneySupply p + scast (bMint b'))"
proof -
  obtain b' V where c: "Block_Connect X R L N E b W = Inr (b', V)" and W': "W' = WriteBestChain (Block_GetHash N b) V"
    and S': "S' = S\<lparr>stateBest := b, hashBestChain := Block_GetHash N b, nBestChainTrust := bChainTrust b, nBestHeight := bHeight b\<rparr>"
    by (rule SetBest_extends [OF assms(1-6)])
  note s = connected_supply [OF c assms(7,3,4)]
  have "ReadBlock (Block_GetHash N b) W' = Some b'"
    using s(2) [OF assms(8)] by (simp add: W' WriteBestChain_def ReadBlock_def)
  then show ?thesis using s(1) by (simp add: S')
qed

definition base_chain :: chain_state where
  "base_chain = \<lparr>stateGenesis = base_block, stateBest = base_block, hashBestChain = 1, nBestChainTrust = 0, nBestHeight = 1\<rparr>"

theorem best_supply_stale_witness:
  "\<exists>S' W' b'. SetBest sample_ext no_rewards no_legacy sample_node node_2020 sample_block base_chain connect_world = Inr (S', W') \<and>
    bMoneySupply (stateBest S') = 0 \<and> ReadBlock (hashBestChain S') W' = Some b' \<and> bMoneySupply b' = 9000 + scast (bMint b')"
proof -
  let ?b = "sample_block"
  obtain b' V where c: "Block_Connect sample_ext no_rewards no_legacy sample_node node_2020 ?b connect_world = Inr (b', V)"
    using debit_block by blast
  have n: "\<not> Block_IsNull base_block" "unat (bHeight ?b) = unat (bHeight base_block) + 1" "stateGenesis base_chain = base_block"
    "stateBest base_chain = base_block" "bMoneySupply ?b = 0" "bMoneySupply base_block = 9000"
    by (simp_all add: Block_IsNull_def base_block_def sample_block_def base_chain_def)
  have "way node_2020 connect_world base_block ?b [?b]"
    by (rule way_prev [OF sample_prev(1) n(1,2) way_here]) simp
  then have "find_fork node_2020 connect_world False base_block ?b [] [] = Some (Inr ([], [?b]))"
    using find_fork_way [OF way_here [OF Block_eq_refl], of node_2020 connect_world base_block ?b "[?b]"] by (simp add: apart_def)
  then have "\<exists>s. SetBest sample_ext no_rewards no_legacy sample_node node_2020 ?b base_chain connect_world = Inr s"
    using n c by (simp add: SetBest_def or_diverge_def reorganize_def Let_def)
  then obtain S' W' where s: "SetBest sample_ext no_rewards no_legacy sample_node node_2020 ?b base_chain connect_world = Inr (S', W')"
    by fastforce
  have "stateBest S' = ?b \<and> (\<exists>b'. ReadBlock (hashBestChain S') W' = Some b' \<and> bMoneySupply b' = 9000 + scast (bMint b'))"
    using best_supply_stale [OF s _ sample_prev(1) n(1) _ n(2) no_legacy_keeps] n by (simp add: base_block_def sample_block_def)
  then show ?thesis using s n(5) by auto
qed

section \<open>The fork of two chains\<close>

text \<open>
  C10. The search for the fork ends, and gives the blocks above the last common block: from the best block down to
  disconnect, and from the longer chain's top down to connect. The blocks of both chains are linked through
  the disk with heights that go down by one, and above the common block no two of the same height are equal.
\<close>

theorem fork_found:
  assumes "way E W a fork ds" and "way E W a longer cs" and "\<forall>d \<in> set ds. \<forall>c \<in> set cs. bHeight d = bHeight c \<longrightarrow> Block_neq d c"
  shows "find_fork E W False fork longer [] [] = Some (Inr (ds, cs))"
  using find_fork_way [OF assms(1,2)] assms(3) by (simp add: apart_def)

definition side_block :: block_state where
  "side_block = sample_block\<lparr>bNonce := 3\<rparr>"

theorem fork_found_witness:
  "find_fork node_2020 connect_world False sample_block side_block [] [] = Some (Inr ([sample_block], [side_block]))"
proof -
  have n: "\<not> Block_IsNull base_block" "unat (bHeight sample_block) = unat (bHeight base_block) + 1"
    "unat (bHeight side_block) = unat (bHeight base_block) + 1" "Prev node_2020 side_block connect_world = Inr base_block"
    by (simp_all add: Block_IsNull_def base_block_def sample_block_def side_block_def Prev_def connect_world_reads(5) [unfolded base_block_def])
  have "way node_2020 connect_world base_block sample_block [sample_block]"
    "way node_2020 connect_world base_block side_block [side_block]"
    by (rule way_prev [OF sample_prev(1) n(1,2) way_here], simp, rule way_prev [OF n(4,1,3) way_here], simp)
  then show ?thesis by (rule fork_found) (simp add: Block_eq_def side_block_def sample_block_def)
qed

section \<open>Trust scores\<close>

text \<open>
  From version 8 of the blocks on, the score that is left after stake has been removed is exact: the share
  of the stake that stays, rounded down, with nothing lost to a word's width, and at most the score before.
\<close>

theorem trust_score_exact:
  assumes "7 < v" and "sint nStakeChange < 0" and "nStake \<noteq> 0"
  shows "\<exists>r. GetTrustScore E nScorePrev nBlockAge nStake nStakeChange v = Inr r \<and>
    unat r = (unat nStake - unat (0 - nStakeChange)) * unat (decayed_score E nScorePrev nBlockAge) div unat nStake \<and>
    r \<le> decayed_score E nScorePrev nBlockAge"
proof -
  let ?s = "decayed_score E nScorePrev nBlockAge"
  obtain r where r: "unstaked_score ?s nStake nStakeChange v = Inr r"
    "unat r = (unat nStake - unat (0 - nStakeChange)) * unat ?s div unat nStake"
    using unstaked_exact [OF assms(1,3)] by blast
  have "(unat nStake - unat (0 - nStakeChange)) * unat ?s \<le> unat nStake * unat ?s" by (rule mult_le_mono1) simp
  then have "unat r \<le> unat ?s" unfolding r(2) using assms(3) by (metis div_le_mono nonzero_mult_div_cancel_left unat_eq_zero)
  then show ?thesis using r assms(2) by (simp add: GetTrustScore_def Let_def word_le_nat_alt)
qed

theorem trust_score_exact_witness:
  "\<exists>r. GetTrustScore node_2020 1000000 0 (2 ^ 60) (- (2 ^ 59)) 8 = Inr r \<and> unat r = 500000 \<and>
    GetTrustScore node_2020 1000000 0 (2 ^ 60) (- (2 ^ 59)) 7 \<noteq> Inr r"
proof -
  have s: "sint (- (2 ^ 59) :: u64) < 0" by simp
  have d: "decayed_score node_2020 1000000 0 = 1000000" by (simp add: decayed_score_def MaxBlockAge_def)
  obtain r where r: "GetTrustScore node_2020 1000000 0 (2 ^ 60) (- (2 ^ 59)) 8 = Inr r" "unat r = 500000"
    using trust_score_exact [OF _ s, of 8 "2 ^ 60" node_2020 1000000 0] by (auto simp: d)
  have "r = of_nat (unat r)" by simp
  then have "r = 500000" by (simp add: r(2))
  then show ?thesis using r by (simp add: GetTrustScore_def unstaked_score_def d Let_def)
qed

end
