(* ===== verification/Legacy_Script.thy ===== *)
theory Legacy_Script
  imports Serialize Timelocks
begin

text \<open>
  Scripts of the legacy chain (\<^verbatim>\<open>Legacy/script.cpp\<close>, \<^verbatim>\<open>Legacy/types/script.h\<close>): reading the operations
  of a script, writing values into one, and the scripts of the standard outputs. A script is a list of bytes
  and an iterator into it the rest from there. Big numbers are the integers; how the library turns one
  into bytes and words and back is an argument (record \<open>bignum\<close>). The asserts of the code are not modelled: a
  small number is at most 16 and the script whose hash is paid to is not empty.
\<close>

section \<open>Operation codes\<close>

abbreviation (input) S_0 :: u8 where "S_0 \<equiv> 0x00"
abbreviation (input) S_PUSHDATA1 :: u8 where "S_PUSHDATA1 \<equiv> 0x4c"
abbreviation (input) S_PUSHDATA2 :: u8 where "S_PUSHDATA2 \<equiv> 0x4d"
abbreviation (input) S_PUSHDATA4 :: u8 where "S_PUSHDATA4 \<equiv> 0x4e"
abbreviation (input) S_1NEGATE :: u8 where "S_1NEGATE \<equiv> 0x4f"
abbreviation (input) S_1 :: u8 where "S_1 \<equiv> 0x51"
abbreviation (input) S_16 :: u8 where "S_16 \<equiv> 0x60"
abbreviation (input) S_NOP :: u8 where "S_NOP \<equiv> 0x61"
abbreviation (input) S_IF :: u8 where "S_IF \<equiv> 0x63"
abbreviation (input) S_NOTIF :: u8 where "S_NOTIF \<equiv> 0x64"
abbreviation (input) S_ELSE :: u8 where "S_ELSE \<equiv> 0x67"
abbreviation (input) S_ENDIF :: u8 where "S_ENDIF \<equiv> 0x68"
abbreviation (input) S_VERIFY :: u8 where "S_VERIFY \<equiv> 0x69"
abbreviation (input) S_RETURN :: u8 where "S_RETURN \<equiv> 0x6a"
abbreviation (input) S_TOALTSTACK :: u8 where "S_TOALTSTACK \<equiv> 0x6b"
abbreviation (input) S_FROMALTSTACK :: u8 where "S_FROMALTSTACK \<equiv> 0x6c"
abbreviation (input) S_2DROP :: u8 where "S_2DROP \<equiv> 0x6d"
abbreviation (input) S_2DUP :: u8 where "S_2DUP \<equiv> 0x6e"
abbreviation (input) S_3DUP :: u8 where "S_3DUP \<equiv> 0x6f"
abbreviation (input) S_2OVER :: u8 where "S_2OVER \<equiv> 0x70"
abbreviation (input) S_2ROT :: u8 where "S_2ROT \<equiv> 0x71"
abbreviation (input) S_2SWAP :: u8 where "S_2SWAP \<equiv> 0x72"
abbreviation (input) S_IFDUP :: u8 where "S_IFDUP \<equiv> 0x73"
abbreviation (input) S_DEPTH :: u8 where "S_DEPTH \<equiv> 0x74"
abbreviation (input) S_DROP :: u8 where "S_DROP \<equiv> 0x75"
abbreviation (input) S_DUP :: u8 where "S_DUP \<equiv> 0x76"
abbreviation (input) S_NIP :: u8 where "S_NIP \<equiv> 0x77"
abbreviation (input) S_OVER :: u8 where "S_OVER \<equiv> 0x78"
abbreviation (input) S_PICK :: u8 where "S_PICK \<equiv> 0x79"
abbreviation (input) S_ROLL :: u8 where "S_ROLL \<equiv> 0x7a"
abbreviation (input) S_ROT :: u8 where "S_ROT \<equiv> 0x7b"
abbreviation (input) S_SWAP :: u8 where "S_SWAP \<equiv> 0x7c"
abbreviation (input) S_TUCK :: u8 where "S_TUCK \<equiv> 0x7d"
abbreviation (input) S_CAT :: u8 where "S_CAT \<equiv> 0x7e"
abbreviation (input) S_SUBSTR :: u8 where "S_SUBSTR \<equiv> 0x7f"
abbreviation (input) S_LEFT :: u8 where "S_LEFT \<equiv> 0x80"
abbreviation (input) S_RIGHT :: u8 where "S_RIGHT \<equiv> 0x81"
abbreviation (input) S_SIZE :: u8 where "S_SIZE \<equiv> 0x82"
abbreviation (input) S_INVERT :: u8 where "S_INVERT \<equiv> 0x83"
abbreviation (input) S_AND :: u8 where "S_AND \<equiv> 0x84"
abbreviation (input) S_OR :: u8 where "S_OR \<equiv> 0x85"
abbreviation (input) S_XOR :: u8 where "S_XOR \<equiv> 0x86"
abbreviation (input) S_EQUAL :: u8 where "S_EQUAL \<equiv> 0x87"
abbreviation (input) S_EQUALVERIFY :: u8 where "S_EQUALVERIFY \<equiv> 0x88"
abbreviation (input) S_1ADD :: u8 where "S_1ADD \<equiv> 0x8b"
abbreviation (input) S_1SUB :: u8 where "S_1SUB \<equiv> 0x8c"
abbreviation (input) S_2MUL :: u8 where "S_2MUL \<equiv> 0x8d"
abbreviation (input) S_2DIV :: u8 where "S_2DIV \<equiv> 0x8e"
abbreviation (input) S_NEGATE :: u8 where "S_NEGATE \<equiv> 0x8f"
abbreviation (input) S_ABS :: u8 where "S_ABS \<equiv> 0x90"
abbreviation (input) S_NOT :: u8 where "S_NOT \<equiv> 0x91"
abbreviation (input) S_0NOTEQUAL :: u8 where "S_0NOTEQUAL \<equiv> 0x92"
abbreviation (input) S_ADD :: u8 where "S_ADD \<equiv> 0x93"
abbreviation (input) S_SUB :: u8 where "S_SUB \<equiv> 0x94"
abbreviation (input) S_MUL :: u8 where "S_MUL \<equiv> 0x95"
abbreviation (input) S_DIV :: u8 where "S_DIV \<equiv> 0x96"
abbreviation (input) S_MOD :: u8 where "S_MOD \<equiv> 0x97"
abbreviation (input) S_LSHIFT :: u8 where "S_LSHIFT \<equiv> 0x98"
abbreviation (input) S_RSHIFT :: u8 where "S_RSHIFT \<equiv> 0x99"
abbreviation (input) S_BOOLAND :: u8 where "S_BOOLAND \<equiv> 0x9a"
abbreviation (input) S_BOOLOR :: u8 where "S_BOOLOR \<equiv> 0x9b"
abbreviation (input) S_NUMEQUAL :: u8 where "S_NUMEQUAL \<equiv> 0x9c"
abbreviation (input) S_NUMEQUALVERIFY :: u8 where "S_NUMEQUALVERIFY \<equiv> 0x9d"
abbreviation (input) S_NUMNOTEQUAL :: u8 where "S_NUMNOTEQUAL \<equiv> 0x9e"
abbreviation (input) S_LESSTHAN :: u8 where "S_LESSTHAN \<equiv> 0x9f"
abbreviation (input) S_GREATERTHAN :: u8 where "S_GREATERTHAN \<equiv> 0xa0"
abbreviation (input) S_LESSTHANOREQUAL :: u8 where "S_LESSTHANOREQUAL \<equiv> 0xa1"
abbreviation (input) S_GREATERTHANOREQUAL :: u8 where "S_GREATERTHANOREQUAL \<equiv> 0xa2"
abbreviation (input) S_MIN :: u8 where "S_MIN \<equiv> 0xa3"
abbreviation (input) S_MAX :: u8 where "S_MAX \<equiv> 0xa4"
abbreviation (input) S_WITHIN :: u8 where "S_WITHIN \<equiv> 0xa5"
abbreviation (input) S_HASH256 :: u8 where "S_HASH256 \<equiv> 0xa9"
abbreviation (input) S_CODESEPARATOR :: u8 where "S_CODESEPARATOR \<equiv> 0xab"
abbreviation (input) S_CHECKSIG :: u8 where "S_CHECKSIG \<equiv> 0xac"
abbreviation (input) S_CHECKSIGVERIFY :: u8 where "S_CHECKSIGVERIFY \<equiv> 0xad"
abbreviation (input) S_CHECKMULTISIG :: u8 where "S_CHECKMULTISIG \<equiv> 0xae"
abbreviation (input) S_CHECKMULTISIGVERIFY :: u8 where "S_CHECKMULTISIGVERIFY \<equiv> 0xaf"
abbreviation (input) S_NOP1 :: u8 where "S_NOP1 \<equiv> 0xb0"
abbreviation (input) S_NOP10 :: u8 where "S_NOP10 \<equiv> 0xb9"
abbreviation (input) S_SMALLINTEGER :: u8 where "S_SMALLINTEGER \<equiv> 0xfa"
abbreviation (input) S_PUBKEYS :: u8 where "S_PUBKEYS \<equiv> 0xfb"
abbreviation (input) S_PUBKEYHASH :: u8 where "S_PUBKEYHASH \<equiv> 0xfd"
abbreviation (input) S_PUBKEY :: u8 where "S_PUBKEY \<equiv> 0xfe"
abbreviation (input) S_INVALIDOPCODE :: u8 where "S_INVALIDOPCODE \<equiv> 0xff"

section \<open>Reading operations\<close>

definition read_size :: "nat \<Rightarrow> byte list \<Rightarrow> (nat \<times> byte list) option" where
  "read_size k pc = (if length pc < k then None else Some (le_nat (take k pc), drop k pc))"

text \<open>The operation, the value it pushes, and the rest of the script.\<close>

definition GetOp :: "byte list \<Rightarrow> (u8 \<times> byte list \<times> byte list) option" where
  "GetOp pc =
     (case pc of
        [] \<Rightarrow> None
      | opcode # pc \<Rightarrow>
          if opcode \<le> S_PUSHDATA4 then
            (case (if opcode < S_PUSHDATA1 then Some (unat opcode, pc)
                   else if opcode = S_PUSHDATA1 then read_size 1 pc
                   else if opcode = S_PUSHDATA2 then read_size 2 pc
                   else read_size 4 pc) of
               None \<Rightarrow> None
             | Some (nSize, pc) \<Rightarrow> if length pc < nSize then None else Some (opcode, take nSize pc, drop nSize pc))
          else Some (opcode, [], pc))"

lemma GetOp_shorter: "GetOp pc = Some (opcode, v, r) \<Longrightarrow> length r < length pc"
  by (auto simp: GetOp_def read_size_def split: list.splits if_splits option.splits)

lemma GetOp_Nil [simp]: "GetOp [] = None"
  by (simp add: GetOp_def)

function IsPushOnly :: "byte list \<Rightarrow> bool" where
  "IsPushOnly pc =
     (if pc = [] then True
      else case GetOp pc of
        None \<Rightarrow> False
      | Some (opcode, v, r) \<Rightarrow> if opcode > S_16 then False else IsPushOnly r)"
  by pat_completeness auto
termination
  by (relation "measure length") (auto dest: GetOp_shorter)

declare IsPushOnly.simps [simp del]

function Find :: "u8 \<Rightarrow> byte list \<Rightarrow> nat" where
  "Find op pc =
     (case GetOp pc of
        None \<Rightarrow> 0
      | Some (opcode, v, r) \<Rightarrow> (if opcode = op then 1 else 0) + Find op r)"
  by pat_completeness auto
termination
  by (relation "measure (\<lambda>(op, pc). length pc)") (auto dest: GetOp_shorter)

declare Find.simps [simp del]

definition IsPayToScriptHash :: "byte list \<Rightarrow> bool" where
  "IsPayToScriptHash s \<longleftrightarrow> length s = 23 \<and> s ! 0 = S_HASH256 \<and> s ! 1 = 0x14 \<and> s ! 22 = S_EQUAL"

section \<open>Small numbers\<close>

definition DecodeOP_N :: "u8 \<Rightarrow> int" where
  "DecodeOP_N opcode = (if opcode = S_0 then 0 else uint opcode - (uint S_1 - 1))"

definition EncodeOP_N :: "nat \<Rightarrow> u8" where
  "EncodeOP_N n = (if n = 0 then S_0 else S_1 + of_nat n - 1)"

section \<open>Counting signatures\<close>

function sig_ops :: "bool \<Rightarrow> u8 \<Rightarrow> u32 \<Rightarrow> byte list \<Rightarrow> u32" where
  "sig_ops fAccurate lastOpcode n pc =
     (case GetOp pc of
        None \<Rightarrow> n
      | Some (opcode, v, r) \<Rightarrow>
          sig_ops fAccurate opcode
            (if opcode = S_CHECKSIG \<or> opcode = S_CHECKSIGVERIFY then n + 1
             else if opcode = S_CHECKMULTISIG \<or> opcode = S_CHECKMULTISIGVERIFY then
               if fAccurate \<and> S_1 \<le> lastOpcode \<and> lastOpcode \<le> S_16 then n + of_int (DecodeOP_N lastOpcode) else n + 20
             else n) r)"
  by pat_completeness auto
termination
  by (relation "measure (\<lambda>(f, l, n, pc). length pc)") (auto dest: GetOp_shorter)

declare sig_ops.simps [simp del]

definition GetSigOpCount :: "bool \<Rightarrow> byte list \<Rightarrow> u32" where
  "GetSigOpCount fAccurate script = sig_ops fAccurate S_INVALIDOPCODE 0 script"

text \<open>The last value an input pushes, when it pushes nothing but values.\<close>

function last_push :: "byte list \<Rightarrow> byte list \<Rightarrow> byte list option" where
  "last_push data pc =
     (if pc = [] then Some data
      else case GetOp pc of
        None \<Rightarrow> None
      | Some (opcode, v, r) \<Rightarrow> if opcode > S_16 then None else last_push v r)"
  by pat_completeness auto
termination
  by (relation "measure (\<lambda>(d, pc). length pc)") (auto dest: GetOp_shorter)

declare last_push.simps [simp del]

definition SigOps_of_input :: "byte list \<Rightarrow> byte list \<Rightarrow> u32" where
  "SigOps_of_input script scriptSig =
     (if \<not> IsPayToScriptHash script then GetSigOpCount True script
      else case last_push [] scriptSig of None \<Rightarrow> 0 | Some data \<Rightarrow> GetSigOpCount True data)"

section \<open>Deleting a script from a script\<close>

function strip_script :: "byte list \<Rightarrow> byte list \<Rightarrow> nat \<times> byte list" where
  "strip_script b s =
     (if b \<noteq> [] \<and> length b \<le> length s \<and> take (length b) s = b then
        let (n, s) = strip_script b (drop (length b) s) in (n + 1, s)
      else (0, s))"
  by pat_completeness auto
termination
  by (relation "measure (\<lambda>(b, s). length s)") (auto intro!: diff_less)

declare strip_script.simps [simp del]

lemma strip_script_shorter: "length (snd (strip_script b s)) \<le> length s"
  by (induction b s rule: strip_script.induct) (subst strip_script.simps, auto split: prod.splits)

lemma GetOp_strip_shorter: "GetOp (snd (strip_script b s)) = Some (opcode, v, r) \<Longrightarrow> length r < length s"
  using GetOp_shorter strip_script_shorter [of b s] by fastforce

function delete_from :: "byte list \<Rightarrow> byte list \<Rightarrow> nat \<times> byte list" where
  "delete_from b s =
     (case GetOp (snd (strip_script b s)) of
        None \<Rightarrow> strip_script b s
      | Some (opcode, v, r) \<Rightarrow>
          (fst (strip_script b s) + fst (delete_from b r),
           take (length (snd (strip_script b s)) - length r) (snd (strip_script b s)) @ snd (delete_from b r)))"
  by pat_completeness auto
termination
  by (relation "measure (\<lambda>(b, s). length s)") (auto dest: GetOp_strip_shorter)

declare delete_from.simps [simp del]

definition FindAndDelete :: "byte list \<Rightarrow> byte list \<Rightarrow> nat \<times> byte list" where
  "FindAndDelete b s = (if b = [] then (0, s) else delete_from b s)"

section \<open>Writing values\<close>

definition push_data :: "byte list \<Rightarrow> byte list" where
  "push_data b =
     (if length b < 0x4c then [of_nat (length b)]
      else if length b \<le> 0xff then [S_PUSHDATA1, of_nat (length b)]
      else if length b \<le> 0xffff then S_PUSHDATA2 # le_bytes 2 (length b)
      else S_PUSHDATA4 # le_bytes 4 (length b)) @ b"

definition push_hash :: "u256 \<Rightarrow> byte list" where
  "push_hash h = 32 # ser_word h"

definition SetNexusAddress :: "bool \<Rightarrow> u256 \<Rightarrow> byte list" where
  "SetNexusAddress fScript h =
     (if fScript then [S_HASH256] @ push_hash h @ [S_EQUAL]
      else [S_DUP, S_HASH256] @ push_hash h @ [S_EQUALVERIFY, S_CHECKSIG])"

definition SetRegisterAddress :: "u256 \<Rightarrow> byte list" where
  "SetRegisterAddress h = push_hash h @ [S_RETURN]"

definition SetPayToScriptHash :: "env \<Rightarrow> byte list \<Rightarrow> byte list" where
  "SetPayToScriptHash E subscript = [S_HASH256] @ push_hash (SK256 E subscript) @ [S_EQUAL]"

definition SetMultisig :: "nat \<Rightarrow> byte list list \<Rightarrow> byte list" where
  "SetMultisig nRequired keys =
     [EncodeOP_N nRequired] @ concat (map push_data keys) @ [EncodeOP_N (length keys), S_CHECKMULTISIG]"

text \<open>The register that an output pays to.\<close>

definition ExtractRegister :: "byte list \<Rightarrow> u256 option" where
  "ExtractRegister s =
     (if length s \<noteq> 34 \<or> s ! 0 \<noteq> 32 \<or> s ! 33 \<noteq> S_RETURN then None else Some (deser_word (take 32 (drop 1 s))))"

section \<open>Numbers\<close>

record bignum =
  BN_mpi2bn :: "byte list \<Rightarrow> int"
  BN_bn2mpi :: "int \<Rightarrow> byte list"
  BN_get_word :: "int \<Rightarrow> u64"

definition setvch :: "bignum \<Rightarrow> byte list \<Rightarrow> int" where
  "setvch B vch = BN_mpi2bn B (rev (le_bytes 4 (length vch)) @ rev vch)"

definition getvch :: "bignum \<Rightarrow> int \<Rightarrow> byte list" where
  "getvch B n =
     (let m = BN_bn2mpi B n in
      if length m \<le> 4 then [] else take (length m - 4) (rev m))"

definition getint32 :: "bignum \<Rightarrow> int \<Rightarrow> int" where
  "getint32 B m =
     (let n = (ucast (BN_get_word B m) :: u32) in
      if \<not> m < 0 then if n > 0x7fffffff then 0x7fffffff else uint n
      else if n > 0x7fffffff then - 0x80000000 else - uint n)"

definition push_int64 :: "bignum \<Rightarrow> int \<Rightarrow> byte list" where
  "push_int64 B n = (if n = -1 \<or> 1 \<le> n \<and> n \<le> 16 then [of_int (n + 0x50)] else push_data (getvch B n))"

section \<open>Reading back\<close>

lemma GetOp_push_data:
  assumes "length v < 2 ^ 32"
  shows "\<exists>opcode. GetOp (push_data v @ r) = Some (opcode, v, r) \<and> opcode \<le> S_PUSHDATA4"
proof -
  consider "length v < 0x4c" | "0x4c \<le> length v" "length v \<le> 0xff" | "0xff < length v" "length v \<le> 0xffff" | "0xffff < length v"
    by linarith
  then show ?thesis
  proof cases
    case 1
    then have u: "unat (of_nat (length v) :: u8) = length v" by (simp add: unat_of_nat)
    then have "(of_nat (length v) :: u8) < 0x4c" using 1 by (simp add: word_less_nat_alt)
    moreover have "(of_nat (length v) :: u8) \<le> 0x4e" using 1 u by (simp add: word_le_nat_alt)
    ultimately show ?thesis using 1 u by (intro exI [of _ "of_nat (length v)"]) (auto simp: push_data_def GetOp_def)
  next
    case 2
    then show ?thesis by (auto simp: push_data_def GetOp_def read_size_def unat_of_nat)
  next
    case 3
    moreover have "le_nat (le_bytes 2 (length v)) = length v" using 3 by (simp add: le_nat_le_bytes)
    ultimately show ?thesis by (auto simp: push_data_def GetOp_def read_size_def simp del: le_nat.simps le_bytes.simps)
  next
    case 4
    moreover have "le_nat (le_bytes 4 (length v)) = length v" using 4 assms by (simp add: le_nat_le_bytes)
    ultimately show ?thesis by (auto simp: push_data_def GetOp_def read_size_def simp del: le_nat.simps le_bytes.simps)
  qed
qed

lemma GetOp_push_hash: "GetOp (push_hash h @ r) = Some (32, ser_word h, r)"
  by (simp add: push_hash_def GetOp_def)

lemma GetOp_code: "\<not> c \<le> S_PUSHDATA4 \<Longrightarrow> GetOp (c # r) = Some (c, [], r)"
  by (simp add: GetOp_def)

end
