(* ===== verification/Legacy_Eval.thy ===== *)
theory Legacy_Eval
  imports Legacy_Script "HOL-Library.Sublist"
begin

text \<open>
  The stack machine that evaluates scripts, the standard scripts and the verification of an input
  (\<^verbatim>\<open>Legacy/evaluate.cpp\<close>). The top of a stack is the head of its list, and so is the innermost branch
  of the conditions. An evaluation that answers false, or whose exception is caught, is \<open>None\<close>. The check of
  one signature against a key and the code it signs is an argument \<open>C\<close>. The operations that are
  disabled end the evaluation before they are reached; their code is not modelled.
\<close>

section \<open>Conversions\<close>

definition nMaxNumSize :: nat where "nMaxNumSize = 4"

definition CastToBigNum :: "bignum \<Rightarrow> byte list \<Rightarrow> int option" where
  "CastToBigNum B vch = (if length vch > nMaxNumSize then None else Some (setvch B (getvch B (setvch B vch))))"

fun CastToBool :: "byte list \<Rightarrow> bool" where
  "CastToBool [] = False"
| "CastToBool (b # bs) = (if b \<noteq> 0 then \<not> (bs = [] \<and> b = 0x80) else CastToBool bs)"

definition bool_bytes :: "bool \<Rightarrow> byte list" where
  "bool_bytes b = (if b then [1] else [])"

definition of_bool_int :: "bool \<Rightarrow> int" where
  "of_bool_int b = (if b then 1 else 0)"

section \<open>Operations on the stacks\<close>

type_synonym stack = "byte list list"

definition pick_roll :: "bignum \<Rightarrow> bool \<Rightarrow> stack \<Rightarrow> stack option" where
  "pick_roll B fRoll st =
     (if length st < 2 then None
      else case CastToBigNum B (hd st) of
        None \<Rightarrow> None
      | Some bn \<Rightarrow>
          let n = getint32 B bn; s = tl st in
          if n < 0 \<or> n \<ge> int (length s) then None
          else Some (s ! nat n # (if fRoll then take (nat n) s @ drop (nat n + 1) s else s)))"

definition stack_op :: "bignum \<Rightarrow> u8 \<Rightarrow> stack \<times> stack \<Rightarrow> (stack \<times> stack) option" where
  "stack_op B opcode = (\<lambda>(st, alt).
     if opcode = S_TOALTSTACK then (case st of x # s \<Rightarrow> Some (s, x # alt) | _ \<Rightarrow> None)
     else if opcode = S_FROMALTSTACK then (case alt of x # a \<Rightarrow> Some (x # st, a) | _ \<Rightarrow> None)
     else map_option (\<lambda>st. (st, alt))
       (if opcode = S_2DROP then (case st of b # a # s \<Rightarrow> Some s | _ \<Rightarrow> None)
        else if opcode = S_2DUP then (case st of b # a # s \<Rightarrow> Some (b # a # b # a # s) | _ \<Rightarrow> None)
        else if opcode = S_3DUP then (case st of c # b # a # s \<Rightarrow> Some (c # b # a # c # b # a # s) | _ \<Rightarrow> None)
        else if opcode = S_2OVER then (case st of d # c # b # a # s \<Rightarrow> Some (b # a # d # c # b # a # s) | _ \<Rightarrow> None)
        else if opcode = S_2ROT then (case st of f # e # d # c # b # a # s \<Rightarrow> Some (b # a # f # e # d # c # s) | _ \<Rightarrow> None)
        else if opcode = S_2SWAP then (case st of d # c # b # a # s \<Rightarrow> Some (b # a # d # c # s) | _ \<Rightarrow> None)
        else if opcode = S_IFDUP then (case st of a # s \<Rightarrow> Some (if CastToBool a then a # a # s else a # s) | _ \<Rightarrow> None)
        else if opcode = S_DEPTH then Some (getvch B (uint (of_nat (length st) :: u32)) # st)
        else if opcode = S_DROP then (case st of a # s \<Rightarrow> Some s | _ \<Rightarrow> None)
        else if opcode = S_DUP then (case st of a # s \<Rightarrow> Some (a # a # s) | _ \<Rightarrow> None)
        else if opcode = S_NIP then (case st of b # a # s \<Rightarrow> Some (b # s) | _ \<Rightarrow> None)
        else if opcode = S_OVER then (case st of b # a # s \<Rightarrow> Some (a # b # a # s) | _ \<Rightarrow> None)
        else if opcode = S_PICK then pick_roll B False st
        else if opcode = S_ROLL then pick_roll B True st
        else if opcode = S_ROT then (case st of c # b # a # s \<Rightarrow> Some (a # c # b # s) | _ \<Rightarrow> None)
        else if opcode = S_SWAP then (case st of b # a # s \<Rightarrow> Some (a # b # s) | _ \<Rightarrow> None)
        else if opcode = S_TUCK then (case st of b # a # s \<Rightarrow> Some (b # a # b # s) | _ \<Rightarrow> None)
        else (case st of a # s \<Rightarrow> Some (getvch B (uint (of_nat (length a) :: u32)) # a # s) | _ \<Rightarrow> None)))"

definition IsStackOp :: "u8 \<Rightarrow> bool" where
  "IsStackOp opcode \<longleftrightarrow> S_TOALTSTACK \<le> opcode \<and> opcode \<le> S_TUCK \<or> opcode = S_SIZE"

text \<open>A test that is also asked to hold.\<close>

definition push_test :: "bool \<Rightarrow> bool \<Rightarrow> stack \<Rightarrow> stack option" where
  "push_test fVerify f s = (if fVerify then if f then Some s else None else Some (bool_bytes f # s))"

definition equal_op :: "bool \<Rightarrow> stack \<Rightarrow> stack option" where
  "equal_op fVerify st = (case st of b # a # s \<Rightarrow> push_test fVerify (a = b) s | _ \<Rightarrow> None)"

section \<open>Numbers\<close>

definition unary_num :: "u8 \<Rightarrow> int \<Rightarrow> int" where
  "unary_num opcode n =
     (if opcode = S_1ADD then n + 1
      else if opcode = S_1SUB then n - 1
      else if opcode = S_NEGATE then - n
      else if opcode = S_ABS then (if n < 0 then - n else n)
      else if opcode = S_NOT then of_bool_int (n = 0)
      else of_bool_int (n \<noteq> 0))"

definition unary_op :: "bignum \<Rightarrow> u8 \<Rightarrow> stack \<Rightarrow> stack option" where
  "unary_op B opcode st =
     (case st of
        a # s \<Rightarrow> map_option (\<lambda>n. getvch B (unary_num opcode n) # s) (CastToBigNum B a)
      | _ \<Rightarrow> None)"

definition binary_num :: "u8 \<Rightarrow> int \<Rightarrow> int \<Rightarrow> int" where
  "binary_num opcode m n =
     (if opcode = S_ADD then m + n
      else if opcode = S_SUB then m - n
      else if opcode = S_BOOLAND then of_bool_int (m \<noteq> 0 \<and> n \<noteq> 0)
      else if opcode = S_BOOLOR then of_bool_int (m \<noteq> 0 \<or> n \<noteq> 0)
      else if opcode = S_NUMEQUAL \<or> opcode = S_NUMEQUALVERIFY then of_bool_int (m = n)
      else if opcode = S_NUMNOTEQUAL then of_bool_int (m \<noteq> n)
      else if opcode = S_LESSTHAN then of_bool_int (m < n)
      else if opcode = S_GREATERTHAN then of_bool_int (m > n)
      else if opcode = S_LESSTHANOREQUAL then of_bool_int (m \<le> n)
      else if opcode = S_GREATERTHANOREQUAL then of_bool_int (m \<ge> n)
      else if opcode = S_MIN then min m n
      else max m n)"

definition binary_op :: "bignum \<Rightarrow> u8 \<Rightarrow> stack \<Rightarrow> stack option" where
  "binary_op B opcode st =
     (case st of
        b # a # s \<Rightarrow>
          (case (CastToBigNum B a, CastToBigNum B b) of
             (Some m, Some n) \<Rightarrow>
               let v = getvch B (binary_num opcode m n) in
               if opcode = S_NUMEQUALVERIFY then if CastToBool v then Some s else None else Some (v # s)
           | _ \<Rightarrow> None)
      | _ \<Rightarrow> None)"

definition within_op :: "bignum \<Rightarrow> stack \<Rightarrow> stack option" where
  "within_op B st =
     (case st of
        c # b # a # s \<Rightarrow>
          (case (CastToBigNum B a, CastToBigNum B b, CastToBigNum B c) of
             (Some x, Some lo, Some hi) \<Rightarrow> Some (bool_bytes (lo \<le> x \<and> x < hi) # s)
           | _ \<Rightarrow> None)
      | _ \<Rightarrow> None)"

definition IsUnary :: "u8 \<Rightarrow> bool" where
  "IsUnary opcode \<longleftrightarrow> opcode = S_1ADD \<or> opcode = S_1SUB \<or> S_NEGATE \<le> opcode \<and> opcode \<le> S_0NOTEQUAL"

definition IsBinary :: "u8 \<Rightarrow> bool" where
  "IsBinary opcode \<longleftrightarrow> opcode = S_ADD \<or> opcode = S_SUB \<or> S_BOOLAND \<le> opcode \<and> opcode \<le> S_MAX"

section \<open>Signatures\<close>

type_synonym check = "byte list \<Rightarrow> byte list \<Rightarrow> byte list \<Rightarrow> bool"

definition checksig_op :: "check \<Rightarrow> bool \<Rightarrow> byte list \<Rightarrow> stack \<Rightarrow> stack option" where
  "checksig_op C fVerify code st =
     (case st of
        vchPubKey # vchSig # s \<Rightarrow>
          push_test fVerify (C vchSig vchPubKey (snd (FindAndDelete (push_data vchSig) code))) s
      | _ \<Rightarrow> None)"

text \<open>Signatures and keys from the top of the stack: each key is tried for the next signature that is
  not yet found.\<close>

fun check_sigs :: "(byte list \<Rightarrow> byte list \<Rightarrow> bool) \<Rightarrow> stack \<Rightarrow> stack \<Rightarrow> bool" where
  "check_sigs C [] keys = True"
| "check_sigs C (sig # sigs) [] = False"
| "check_sigs C (sig # sigs) (key # keys) =
     (let rest = (if C sig key then sigs else sig # sigs) in
      if length rest > length keys then False else check_sigs C rest keys)"

definition multisig_op :: "bignum \<Rightarrow> check \<Rightarrow> bool \<Rightarrow> byte list \<Rightarrow> int \<Rightarrow> stack \<Rightarrow> (stack \<times> int) option" where
  "multisig_op B C fVerify code nOpCount st =
     (case st of
        [] \<Rightarrow> None
      | k # s \<Rightarrow>
          (case CastToBigNum B k of
             None \<Rightarrow> None
           | Some bn \<Rightarrow>
               let nKeysCount = getint32 B bn; nOpCount = nOpCount + nKeysCount in
               if nKeysCount < 0 \<or> nKeysCount > 20 then None
               else if nOpCount > 201 then None
               else if length s < nat nKeysCount + 1 then None
               else case CastToBigNum B (s ! nat nKeysCount) of
                 None \<Rightarrow> None
               | Some bn \<Rightarrow>
                   let nSigsCount = getint32 B bn; t = drop (nat nKeysCount + 1) s in
                   if nSigsCount < 0 \<or> nSigsCount > nKeysCount then None
                   else if length t < nat nSigsCount + 1 then None
                   else
                     let sigs = take (nat nSigsCount) t;
                         code = foldl (\<lambda>code sig. snd (FindAndDelete (push_data sig) code)) code sigs in
                     map_option (\<lambda>s. (s, nOpCount))
                       (push_test fVerify (check_sigs (\<lambda>sig key. C sig key code) sigs (take (nat nKeysCount) s))
                         (drop (nat nSigsCount + 1) t))))"

section \<open>The evaluation\<close>

record eval_state =
  evStack :: stack
  evAlt :: stack
  evExec :: "bool list"
  evOps :: int
  evCode :: "byte list"

definition disabled_op :: "u8 \<Rightarrow> bool" where
  "disabled_op opcode \<longleftrightarrow> opcode \<in> {S_CAT, S_SUBSTR, S_LEFT, S_RIGHT, S_INVERT, S_AND, S_OR, S_XOR, S_2MUL, S_2DIV,
     S_MUL, S_DIV, S_MOD, S_LSHIFT, S_RSHIFT}"

definition on_stack :: "eval_state \<Rightarrow> stack option \<Rightarrow> eval_state option" where
  "on_stack s st = map_option (\<lambda>st. s\<lparr>evStack := st\<rparr>) st"

definition cond_op :: "u8 \<Rightarrow> bool \<Rightarrow> eval_state \<Rightarrow> eval_state option" where
  "cond_op opcode fExec s =
     (if opcode = S_IF \<or> opcode = S_NOTIF then
        if fExec then
          (case evStack s of
             x # st \<Rightarrow> Some (s\<lparr>evStack := st, evExec := (CastToBool x \<noteq> (opcode = S_NOTIF)) # evExec s\<rparr>)
           | _ \<Rightarrow> None)
        else Some (s\<lparr>evExec := False # evExec s\<rparr>)
      else if opcode = S_ELSE then (case evExec s of f # fs \<Rightarrow> Some (s\<lparr>evExec := (\<not> f) # fs\<rparr>) | _ \<Rightarrow> None)
      else if opcode = S_ENDIF then (case evExec s of f # fs \<Rightarrow> Some (s\<lparr>evExec := fs\<rparr>) | _ \<Rightarrow> None)
      else None)"

definition eval_op :: "env \<Rightarrow> bignum \<Rightarrow> check \<Rightarrow> u8 \<Rightarrow> byte list \<Rightarrow> eval_state \<Rightarrow> eval_state option" where
  "eval_op E B C opcode pc s =
     (if opcode = S_1NEGATE \<or> S_1 \<le> opcode \<and> opcode \<le> S_16 then
        Some (s\<lparr>evStack := getvch B (uint opcode - 0x50) # evStack s\<rparr>)
      else if opcode = S_NOP \<or> S_NOP1 \<le> opcode \<and> opcode \<le> S_NOP10 then Some s
      else if opcode = S_VERIFY then
        (case evStack s of x # st \<Rightarrow> if CastToBool x then Some (s\<lparr>evStack := st\<rparr>) else None | _ \<Rightarrow> None)
      else if IsStackOp opcode then
        map_option (\<lambda>(st, alt). s\<lparr>evStack := st, evAlt := alt\<rparr>) (stack_op B opcode (evStack s, evAlt s))
      else if opcode = S_EQUAL \<or> opcode = S_EQUALVERIFY then on_stack s (equal_op (opcode = S_EQUALVERIFY) (evStack s))
      else if IsUnary opcode then on_stack s (unary_op B opcode (evStack s))
      else if IsBinary opcode then on_stack s (binary_op B opcode (evStack s))
      else if opcode = S_WITHIN then on_stack s (within_op B (evStack s))
      else if opcode = S_HASH256 then
        (case evStack s of x # st \<Rightarrow> Some (s\<lparr>evStack := ser_word (SK256 E x) # st\<rparr>) | _ \<Rightarrow> None)
      else if opcode = S_CODESEPARATOR then Some (s\<lparr>evCode := pc\<rparr>)
      else if opcode = S_CHECKSIG \<or> opcode = S_CHECKSIGVERIFY then
        on_stack s (checksig_op C (opcode = S_CHECKSIGVERIFY) (evCode s) (evStack s))
      else if opcode = S_CHECKMULTISIG \<or> opcode = S_CHECKMULTISIGVERIFY then
        map_option (\<lambda>(st, n). s\<lparr>evStack := st, evOps := n\<rparr>)
          (multisig_op B C (opcode = S_CHECKMULTISIGVERIFY) (evCode s) (evOps s) (evStack s))
      else None)"

text \<open>One operation: the limits, and what it does where it is executed.\<close>

definition eval_step :: "env \<Rightarrow> bignum \<Rightarrow> check \<Rightarrow> u8 \<Rightarrow> byte list \<Rightarrow> byte list \<Rightarrow> eval_state \<Rightarrow> eval_state option" where
  "eval_step E B C opcode vchPushValue pc s =
     (let fExec = (\<forall>f \<in> set (evExec s). f);
          s = (if opcode > S_16 then s\<lparr>evOps := evOps s + 1\<rparr> else s) in
      if length vchPushValue > 520 then None
      else if opcode > S_16 \<and> evOps s > 201 then None
      else if disabled_op opcode then None
      else case (if fExec \<and> opcode \<le> S_PUSHDATA4 then Some (s\<lparr>evStack := vchPushValue # evStack s\<rparr>)
                 else if S_IF \<le> opcode \<and> opcode \<le> S_ENDIF then cond_op opcode fExec s
                 else if fExec then eval_op E B C opcode pc s
                 else Some s) of
        None \<Rightarrow> None
      | Some s \<Rightarrow> if length (evStack s) + length (evAlt s) > 1000 then None else Some s)"

function eval_from :: "env \<Rightarrow> bignum \<Rightarrow> check \<Rightarrow> byte list \<Rightarrow> eval_state \<Rightarrow> eval_state option" where
  "eval_from E B C pc s =
     (if pc = [] then Some s
      else case GetOp pc of
        None \<Rightarrow> None
      | Some (opcode, v, r) \<Rightarrow>
          (case eval_step E B C opcode v r s of None \<Rightarrow> None | Some s \<Rightarrow> eval_from E B C r s))"
  by pat_completeness auto
termination
  by (relation "measure (\<lambda>(E, B, C, pc, s). length pc)") (auto dest: GetOp_shorter)

declare eval_from.simps [simp del]

definition EvalScript :: "env \<Rightarrow> bignum \<Rightarrow> check \<Rightarrow> byte list \<Rightarrow> stack \<Rightarrow> stack option" where
  "EvalScript E B C script st =
     (if length script > 10000 then None
      else case eval_from E B C script \<lparr>evStack = st, evAlt = [], evExec = [], evOps = 0, evCode = script\<rparr> of
        None \<Rightarrow> None
      | Some s \<Rightarrow> if evExec s \<noteq> [] then None else Some (evStack s))"

text \<open>Where a script hash was checked, the value that the input pushed last is the script to evaluate; the stack
  of the input is not empty there.\<close>

definition VerifyScript :: "env \<Rightarrow> bignum \<Rightarrow> check \<Rightarrow> byte list \<Rightarrow> byte list \<Rightarrow> bool" where
  "VerifyScript E B C scriptSig scriptPubKey =
     (case EvalScript E B C scriptSig [] of
        None \<Rightarrow> False
      | Some stackCopy \<Rightarrow>
          (case EvalScript E B C scriptPubKey stackCopy of
             None \<Rightarrow> False
           | Some st \<Rightarrow>
               if st = [] then False
               else if \<not> CastToBool (hd st) then False
               else if IsPayToScriptHash scriptPubKey then
                 if \<not> IsPushOnly scriptSig then False
                 else (case stackCopy of
                     [] \<Rightarrow> False
                   | pubKeySerialized # stackCopy \<Rightarrow>
                       (case EvalScript E B C pubKeySerialized stackCopy of
                          None \<Rightarrow> False
                        | Some st \<Rightarrow> st \<noteq> [] \<and> CastToBool (hd st)))
               else True))"

section \<open>Standard scripts\<close>

datatype TransactionType = TX_NONSTANDARD | TX_PUBKEY | TX_PUBKEYHASH | TX_SCRIPTHASH | TX_MULTISIG

text \<open>The run of public keys of a script that checks several signatures; the result goes on with the first operation
  that is none.\<close>

function take_pubkeys :: "stack \<Rightarrow> u8 \<Rightarrow> byte list \<Rightarrow> byte list \<Rightarrow> stack \<times> u8 \<times> byte list \<times> byte list" where
  "take_pubkeys acc opcode1 vch1 pc1 =
     (if 33 \<le> length vch1 \<and> length vch1 \<le> 120 then
        (case GetOp pc1 of
           None \<Rightarrow> (acc @ [vch1], S_INVALIDOPCODE, [], pc1)
         | Some (op, v, r) \<Rightarrow> take_pubkeys (acc @ [vch1]) op v r)
      else (acc, opcode1, vch1, pc1))"
  by pat_completeness auto
termination
  by (relation "measure (\<lambda>(acc, op, v, pc). length pc)") (auto dest: GetOp_shorter)

declare take_pubkeys.simps [simp del]

function match_script :: "byte list \<Rightarrow> byte list \<Rightarrow> stack \<Rightarrow> stack option" where
  "match_script pc1 pc2 acc =
     (if pc1 = [] \<and> pc2 = [] then Some acc
      else case GetOp pc1 of
        None \<Rightarrow> None
      | Some (opcode1, vch1, r1) \<Rightarrow>
          (case GetOp pc2 of
             None \<Rightarrow> None
           | Some (opcode2, vch2, r2) \<Rightarrow>
               let (acc, opcode1, vch1, r1) =
                     (if opcode2 = S_PUBKEYS then take_pubkeys acc opcode1 vch1 r1 else (acc, opcode1, vch1, r1)) in
               case (if opcode2 = S_PUBKEYS then GetOp r2 else Some (opcode2, vch2, r2)) of
                 None \<Rightarrow> None
               | Some (opcode2, vch2, r2) \<Rightarrow>
                   if opcode2 = S_PUBKEY then
                     if length vch1 < 33 \<or> length vch1 > 120 then None else match_script r1 r2 (acc @ [vch1])
                   else if opcode2 = S_PUBKEYHASH then
                     if length vch1 \<noteq> 32 then None else match_script r1 r2 (acc @ [vch1])
                   else if opcode2 = S_SMALLINTEGER then
                     if opcode1 = S_0 \<or> S_1 \<le> opcode1 \<and> opcode1 \<le> S_16 then
                       match_script r1 r2 (acc @ [[of_int (DecodeOP_N opcode1)]])
                     else None
                   else if opcode1 \<noteq> opcode2 \<or> vch1 \<noteq> vch2 then None
                   else match_script r1 r2 acc))"
  by pat_completeness auto
termination
  by (relation "measure (\<lambda>(pc1, pc2, acc). length pc2)")
    (auto dest!: GetOp_shorter split: if_splits)

declare match_script.simps [simp del]

definition template_pubkey :: "byte list" where "template_pubkey = [S_PUBKEY, S_CHECKSIG]"

definition template_pubkeyhash :: "byte list" where
  "template_pubkeyhash = [S_DUP, S_HASH256, S_PUBKEYHASH, S_EQUALVERIFY, S_CHECKSIG]"

definition template_multisig :: "byte list" where
  "template_multisig = [S_SMALLINTEGER, S_PUBKEYS, S_SMALLINTEGER, S_CHECKMULTISIG]"

definition Solver :: "byte list \<Rightarrow> bool \<times> TransactionType \<times> stack" where
  "Solver s =
     (if IsPayToScriptHash s then (True, TX_SCRIPTHASH, [take 20 (drop 2 s)])
      else case match_script s template_pubkey [] of
        Some v \<Rightarrow> (True, TX_PUBKEY, v)
      | None \<Rightarrow>
          (case match_script s template_pubkeyhash [] of
             Some v \<Rightarrow> (True, TX_PUBKEYHASH, v)
           | None \<Rightarrow>
               (case match_script s template_multisig [] of
                  Some v \<Rightarrow>
                    let m = hd v ! 0; n = last v ! 0 in
                    (\<not> (m < 1 \<or> n < 1 \<or> m > n \<or> length v - 2 \<noteq> unat n), TX_MULTISIG, v)
                | None \<Rightarrow> (False, TX_NONSTANDARD, []))))"

definition ScriptSigArgsExpected :: "TransactionType \<Rightarrow> stack \<Rightarrow> int" where
  "ScriptSigArgsExpected t vSolutions =
     (case t of
        TX_NONSTANDARD \<Rightarrow> - 1
      | TX_PUBKEY \<Rightarrow> 1
      | TX_PUBKEYHASH \<Rightarrow> 2
      | TX_MULTISIG \<Rightarrow>
          if vSolutions = [] \<or> hd vSolutions = [] then - 1 else uint (hd vSolutions ! 0) + 1
      | TX_SCRIPTHASH \<Rightarrow> 1)"

definition IsStandard :: "byte list \<Rightarrow> bool" where
  "IsStandard s =
     (let (f, t, v) = Solver s in
      if \<not> f then False
      else if t = TX_MULTISIG \<and> (last v ! 0 < 1 \<or> last v ! 0 > 3 \<or> hd v ! 0 < 1 \<or> hd v ! 0 > last v ! 0) then False
      else t \<noteq> TX_NONSTANDARD)"

end
