(* ===== verification/Legacy_Transaction.thy ===== *)
theory Legacy_Transaction
  imports Legacy_Eval Ledger_Transaction
begin

text \<open>
  Transactions of the legacy chain (\<^verbatim>\<open>Legacy/transaction.cpp\<close>, \<^verbatim>\<open>Legacy/types\<close>): their bytes and
  hash, the kinds of transactions, the checks that need no state, the values and the signatures they count,
  and what a signature signs (\<^verbatim>\<open>Legacy/signature.cpp\<close>). The amount of an output is a signed number of 64 bits
  in the source; the field is its word. The verification of an elliptic curve signature is an argument \<open>V\<close>.
\<close>

section \<open>Data\<close>

record outpoint =
  opHash :: u512
  opN :: u32

record txin =
  prevout :: outpoint
  scriptSig :: "byte list"
  inSequence :: u32

record ltx =
  ltVersion :: u32
  ltTime :: u32
  ltIn :: "txin list"
  ltOut :: "txout list"
  nLockTime :: u32

definition OutPoint_IsNull :: "outpoint \<Rightarrow> bool" where
  "OutPoint_IsNull p \<longleftrightarrow> opHash p = 0 \<and> opN p = - 1"

definition TxIn_IsFinal :: "txin \<Rightarrow> bool" where
  "TxIn_IsFinal i \<longleftrightarrow> inSequence i = - 1"

definition IsStakeSig :: "txin \<Rightarrow> bool" where
  "IsStakeSig i \<longleftrightarrow> take 8 (scriptSig i) = [1, 2, 3, 5, 8, 13, 21, 34]"

definition TxOut_IsEmpty :: "txout \<Rightarrow> bool" where
  "TxOut_IsEmpty out \<longleftrightarrow> nValue out = 0 \<and> scriptPubKey out = []"

definition TxOut_null :: txout where
  "TxOut_null = \<lparr>nValue = - 1, scriptPubKey = []\<rparr>"

section \<open>Bytes\<close>

definition ser_vec :: "('a \<Rightarrow> byte list) \<Rightarrow> 'a list \<Rightarrow> byte list" where
  "ser_vec f xs = WriteCompactSize (length xs) @ concat (map f xs)"

definition ser_outpoint :: "outpoint \<Rightarrow> byte list" where
  "ser_outpoint p = ser_word (opHash p) @ ser_word (opN p)"

definition ser_txin :: "txin \<Rightarrow> byte list" where
  "ser_txin i = ser_outpoint (prevout i) @ ser_bytes (scriptSig i) @ ser_word (inSequence i)"

definition ser_txout :: "txout \<Rightarrow> byte list" where
  "ser_txout out = ser_word (nValue out) @ ser_bytes (scriptPubKey out)"

definition ser_ltx :: "ltx \<Rightarrow> byte list" where
  "ser_ltx t = ser_word (ltVersion t) @ ser_word (ltTime t) @ ser_vec ser_txin (ltIn t) @ ser_vec ser_txout (ltOut t) @
     ser_word (nLockTime t)"

definition ltx_GetHash :: "env \<Rightarrow> ltx \<Rightarrow> u512" where
  "ltx_GetHash E t = (let h = SK512 E (ser_ltx t) in if sint (ltVersion t) \<ge> 2 then SetType TX_LEGACY h else h)"

section \<open>Kinds of transactions\<close>

definition ltx_IsCoinBase :: "ltx \<Rightarrow> bool" where
  "ltx_IsCoinBase t \<longleftrightarrow> length (ltIn t) = 1 \<and> OutPoint_IsNull (prevout (ltIn t ! 0)) \<and> length (ltOut t) \<ge> 1"

definition ltx_IsCoinStake :: "ltx \<Rightarrow> bool" where
  "ltx_IsCoinStake t \<longleftrightarrow> length (ltIn t) > 1 \<and> IsStakeSig (ltIn t ! 0) \<and>
     (\<forall>i \<in> set (tl (ltIn t)). \<not> OutPoint_IsNull (prevout i)) \<and> length (ltOut t) = 1"

definition ltx_IsGenesis :: "ltx \<Rightarrow> bool" where
  "ltx_IsGenesis t \<longleftrightarrow> ltx_IsCoinStake t \<and> OutPoint_IsNull (prevout (ltIn t ! 0))"

definition ltx_IsTrust :: "ltx \<Rightarrow> bool" where
  "ltx_IsTrust t \<longleftrightarrow> ltx_IsCoinStake t \<and> \<not> OutPoint_IsNull (prevout (ltIn t ! 0)) \<and>
     opHash (prevout (ltIn t ! 0)) \<noteq> 0 \<and> opN (prevout (ltIn t ! 0)) = 0"

definition ltx_IsStandard :: "ltx \<Rightarrow> bool" where
  "ltx_IsStandard t \<longleftrightarrow>
     (\<forall>i \<in> set (ltIn t). length (scriptSig i) \<le> 500 \<and> IsPushOnly (scriptSig i)) \<and>
     (\<forall>out \<in> set (ltOut t). IsStandard (scriptPubKey out))"

text \<open>The first input of a coinstake counts among the inputs, but spends nothing.\<close>

definition spending :: "ltx \<Rightarrow> txin list" where
  "spending t = (if ltx_IsCoinStake t then tl (ltIn t) else ltIn t)"

definition LOCKTIME_THRESHOLD :: int where "LOCKTIME_THRESHOLD = 500000000"

definition IsFinal :: "env \<Rightarrow> ltx \<Rightarrow> int \<Rightarrow> int \<Rightarrow> bool" where
  "IsFinal E t nBlockHeight nBlockTime =
     (if nLockTime t = 0 then True
      else let nBlockHeight = (if nBlockHeight = 0 then sint (bestHeight E) else nBlockHeight);
               nBlockTime = (if nBlockTime = 0 then sint (unifiedtimestamp E) else nBlockTime) in
      if uint (nLockTime t) < (if uint (nLockTime t) < LOCKTIME_THRESHOLD then nBlockHeight else nBlockTime) then True
      else (\<forall>i \<in> set (ltIn t). TxIn_IsFinal i))"

fun newer_than :: "(txin \<times> txin) list \<Rightarrow> bool \<Rightarrow> u32 \<Rightarrow> bool" where
  "newer_than [] fNewer nLowest = fNewer"
| "newer_than ((i, j) # ins) fNewer nLowest =
     (if inSequence i = inSequence j then newer_than ins fNewer nLowest
      else
        let (fNewer, nLowest) = (if inSequence i \<le> nLowest then (False, inSequence i) else (fNewer, nLowest)) in
        if inSequence j < nLowest then newer_than ins True (inSequence j) else newer_than ins fNewer nLowest)"

definition IsNewerThan :: "ltx \<Rightarrow> ltx \<Rightarrow> bool" where
  "IsNewerThan t old =
     (if length (ltIn t) \<noteq> length (ltIn old) then False
      else if map prevout (ltIn t) \<noteq> map prevout (ltIn old) then False
      else newer_than (zip (ltIn t) (ltIn old)) False (- 1))"

text \<open>The key of a coinstake, and the last block, sequence and trust score that it publishes.\<close>

definition ltx_TrustKey :: "ltx \<Rightarrow> byte list res" where
  "ltx_TrustKey t =
     (if ltOut t = [] then Inl (Undefined ''no output'')
      else let (f, whichType, vSolutions) = Solver (scriptPubKey (ltOut t ! 0)) in
        if \<not> f then Inl (Reject ''couldnt find trust key in script'')
        else if whichType \<noteq> TX_PUBKEY then Inl (Reject ''key not of public key type'')
        else Inr (vSolutions ! 0))"

definition ExtractTrust :: "ltx \<Rightarrow> (u1024 \<times> u32 \<times> u32) res" where
  "ExtractTrust t =
     (if \<not> ltx_IsCoinStake t then Inl (Reject ''not proof of stake'')
      else let s = scriptSig (ltIn t ! 0) in
        if length s \<noteq> 144 then Inl (Reject ''script not 144 bytes'')
        else Inr (deser_word (take 128 (drop 8 s)), deser_word (take 4 (drop 136 s)), deser_word (drop 140 s)))"

section \<open>Amounts\<close>

definition MaxTxOut :: int where "MaxTxOut = 50000000 * 1000000"

definition MoneyRange :: "int \<Rightarrow> bool" where
  "MoneyRange n \<longleftrightarrow> 0 \<le> n \<and> n \<le> MaxTxOut"

fun value_out :: "txout list \<Rightarrow> int \<Rightarrow> int res" where
  "value_out [] nValueOut = Inr nValueOut"
| "value_out (out # outs) nValueOut =
     (let nValueOut = nValueOut + sint (nValue out) in
      if \<not> MoneyRange (sint (nValue out)) \<or> \<not> MoneyRange nValueOut then Inl (Throw ''value out of range'')
      else value_out outs nValueOut)"

definition GetValueOut :: "ltx \<Rightarrow> u64 res" where
  "GetValueOut t = rbind (value_out (ltOut t) 0) (\<lambda>n. Inr (of_int n))"

text \<open>The smallest fee. The amount of an output is compared as an unsigned number there.\<close>

definition GetMinFee :: "ltx \<Rightarrow> u32 \<Rightarrow> bool \<Rightarrow> int" where
  "GetMinFee t nBlockSize fAllowFree =
     (let nBaseFee = 10000 :: int;
          nBytes = of_nat (length (ser_ltx t)) :: u32;
          nNewBlockSize = nBlockSize + nBytes;
          nMinFee = (1 + uint nBytes div 1000) * nBaseFee;
          nMinFee = (if fAllowFree \<and> (if nBlockSize = 1 then nBytes < 10000 else nNewBlockSize < 27000) then 0 else nMinFee);
          nMinFee = (if nMinFee < nBaseFee \<and> (\<exists>out \<in> set (ltOut t). nValue out < 10000) then nBaseFee else nMinFee) in
      if nBlockSize \<noteq> 1 \<and> nNewBlockSize \<ge> 500000 \<and> nNewBlockSize \<ge> 1000000 then MaxTxOut
      else
        let nMinFee = (if nBlockSize \<noteq> 1 \<and> nNewBlockSize \<ge> 500000 then nMinFee * uint (1000000 div (1000000 - nNewBlockSize)) else nMinFee) in
        if \<not> MoneyRange nMinFee then MaxTxOut else nMinFee)"

section \<open>Checks\<close>

definition LEGACY_TRANSACTION_VERSION :: u32 where "LEGACY_TRANSACTION_VERSION = 2"

text \<open>The smallest amount is an unsigned constant: a negative amount is not below it.\<close>

fun check_outputs :: "bool \<Rightarrow> txout list \<Rightarrow> int \<Rightarrow> unit res" where
  "check_outputs fProducer [] nValueOut = Inr ()"
| "check_outputs fProducer (out # outs) nValueOut =
     (if TxOut_IsEmpty out \<and> \<not> fProducer then Inl (Reject ''txout empty for user transaction'')
      else if \<not> TxOut_IsEmpty out \<and> nValue out < 1 then Inl (Reject ''txout.nValue below minimum'')
      else if sint (nValue out) > MaxTxOut then Inl (Reject ''txout.nValue too high'')
      else if \<not> MoneyRange (nValueOut + sint (nValue out)) then Inl (Reject ''txout total out of range'')
      else check_outputs fProducer outs (nValueOut + sint (nValue out)))"

definition CheckTransaction :: "env \<Rightarrow> ltx \<Rightarrow> unit res" where
  "CheckTransaction E t =
     (let fProducer = (ltx_IsCoinBase t \<or> ltx_IsCoinStake t) in
      if ucast (ltTime t) < StartBlockTimelock E 7 \<and> ltVersion t \<noteq> LEGACY_TRANSACTION_VERSION - 1 then
        Inl (Reject ''invalid transaction version'')
      else if ucast (ltTime t) \<ge> StartBlockTimelock E 7 + 3600 \<and> ltVersion t \<noteq> LEGACY_TRANSACTION_VERSION then
        Inl (Reject ''invalid transaction version'')
      else if ltIn t = [] then Inl (Reject ''vin empty'')
      else if ltOut t = [] then Inl (Reject ''vout empty'')
      else if length (ser_ltx t) > 1024 * 1024 * 2 then Inl (Reject ''size limits failed'')
      else rbind (check_outputs fProducer (ltOut t) 0) (\<lambda>_.
        if \<not> distinct (map prevout (ltIn t)) then Inl (Reject '''')
        else if \<not> fProducer \<and> (\<exists>i \<in> set (ltIn t). OutPoint_IsNull (prevout i)) then Inl (Reject ''prevout is null'')
        else Inr ()))"

section \<open>Inputs\<close>

datatype prev = PrevLegacy ltx | PrevTritium tx

text \<open>The transactions that the inputs spend from, by their hash.\<close>

type_synonym inputs = "u512 \<Rightarrow> prev option"

definition Legacy_output :: "tx \<Rightarrow> u32 \<Rightarrow> txout option res" where
  "Legacy_output t n =
     rbind (tx_contract t n) (\<lambda>c.
     rbind (Contract_Legacy c) (\<lambda>(out, _).
     Inr (map_option (\<lambda>(v, s). \<lparr>nValue = v, scriptPubKey = s\<rparr>) out)))"

definition GetOutputFor :: "txin \<Rightarrow> inputs \<Rightarrow> txout res" where
  "GetOutputFor i inputs =
     (let n = opN (prevout i) in
      case inputs (opHash (prevout i)) of
        None \<Rightarrow> Inl (Throw ''prevout.hash not found'')
      | Some (PrevLegacy p) \<Rightarrow>
          if unat n \<ge> length (ltOut p) then Inl (Throw ''prevout.n out of range'') else Inr (ltOut p ! unat n)
      | Some (PrevTritium p) \<Rightarrow>
          if unat n \<ge> length (vContracts p) then Inl (Throw ''prevout.n out of range'')
          else rbind (Legacy_output p n) (\<lambda>out.
            case out of None \<Rightarrow> Inl (Throw ''invalid tritium operation'') | Some out \<Rightarrow> Inr out))"

fun value_in :: "txin list \<Rightarrow> inputs \<Rightarrow> u64 \<Rightarrow> u64 res" where
  "value_in [] inputs nResult = Inr nResult"
| "value_in (i # is) inputs nResult =
     rbind (GetOutputFor i inputs) (\<lambda>out. value_in is inputs (nResult + nValue out))"

definition GetValueIn :: "ltx \<Rightarrow> inputs \<Rightarrow> u64 res" where
  "GetValueIn t inputs = (if ltx_IsCoinBase t then Inr 0 else value_in (spending t) inputs 0)"

definition GetLegacySigOpCount :: "ltx \<Rightarrow> u32" where
  "GetLegacySigOpCount t =
     sum_list (map (\<lambda>i. GetSigOpCount False (scriptSig i)) (filter (\<lambda>i. \<not> IsStakeSig i) (ltIn t))) +
     sum_list (map (\<lambda>out. GetSigOpCount False (scriptPubKey out)) (ltOut t))"

fun total_sig_ops :: "txin list \<Rightarrow> inputs \<Rightarrow> u32 \<Rightarrow> u32 res" where
  "total_sig_ops [] inputs n = Inr n"
| "total_sig_ops (i # is) inputs n =
     rbind (GetOutputFor i inputs) (\<lambda>out.
     total_sig_ops is inputs (n + SigOps_of_input (scriptPubKey out) (scriptSig i)))"

definition TotalSigOps :: "ltx \<Rightarrow> inputs \<Rightarrow> u32 res" where
  "TotalSigOps t inputs = (if ltx_IsCoinBase t then Inr 0 else total_sig_ops (spending t) inputs 0)"

section \<open>What a signature signs\<close>

text \<open>The inputs without their scripts, but for the one that is signed, and what the type of the signature leaves
  out.\<close>

definition SIGHASH_NONE :: u32 where "SIGHASH_NONE = 2"
definition SIGHASH_SINGLE :: u32 where "SIGHASH_SINGLE = 3"
definition SIGHASH_ANYONECANPAY :: u32 where "SIGHASH_ANYONECANPAY = 0x80"

definition blank_sequences :: "nat \<Rightarrow> txin list \<Rightarrow> txin list" where
  "blank_sequences nIn is = map (\<lambda>k. if k = nIn then is ! k else (is ! k)\<lparr>inSequence := 0\<rparr>) [0..<length is]"

definition signed_tx :: "byte list \<Rightarrow> ltx \<Rightarrow> nat \<Rightarrow> u32 \<Rightarrow> ltx option" where
  "signed_tx scriptCode t nIn nHashType =
     (let ins = map (\<lambda>i. i\<lparr>scriptSig := []\<rparr>) (ltIn t);
          ins = ins[nIn := (ins ! nIn)\<lparr>scriptSig := scriptCode\<rparr>];
          type = and nHashType 0x1f in
      if type = SIGHASH_SINGLE \<and> nIn \<ge> length (ltOut t) then None
      else
        let outs = (if type = SIGHASH_NONE then []
                    else if type = SIGHASH_SINGLE then replicate nIn TxOut_null @ [ltOut t ! nIn]
                    else ltOut t);
            ins = (if type = SIGHASH_NONE \<or> type = SIGHASH_SINGLE then blank_sequences nIn ins else ins);
            ins = (if and nHashType SIGHASH_ANYONECANPAY \<noteq> 0 then [ins ! nIn] else ins) in
        Some (t\<lparr>ltIn := ins, ltOut := outs\<rparr>))"

definition SignatureHash :: "env \<Rightarrow> byte list \<Rightarrow> ltx \<Rightarrow> nat \<Rightarrow> u32 \<Rightarrow> u256" where
  "SignatureHash E scriptCode t nIn nHashType =
     (if nIn \<ge> length (ltIn t) then 1
      else case signed_tx (snd (FindAndDelete [S_CODESEPARATOR] scriptCode)) t nIn nHashType of
        None \<Rightarrow> 1
      | Some t \<Rightarrow> SK256 E (ser_ltx t @ ser_word nHashType))"

type_synonym verify = "byte list \<Rightarrow> u256 \<Rightarrow> byte list \<Rightarrow> bool"

definition CheckSig :: "verify \<Rightarrow> env \<Rightarrow> ltx \<Rightarrow> nat \<Rightarrow> u32 \<Rightarrow> check" where
  "CheckSig V E t nIn nHashType vchSig vchPubKey scriptCode =
     (if vchSig = [] then False
      else if nHashType \<noteq> 0 \<and> nHashType \<noteq> ucast (last vchSig) then False
      else V vchPubKey (SignatureHash E scriptCode t nIn (ucast (last vchSig))) (butlast vchSig))"

definition VerifySignature :: "verify \<Rightarrow> env \<Rightarrow> bignum \<Rightarrow> ltx \<Rightarrow> ltx \<Rightarrow> nat \<Rightarrow> u32 \<Rightarrow> bool" where
  "VerifySignature V E B txFrom txTo nIn nHashType =
     (let i = ltIn txTo ! nIn; n = unat (opN (prevout i)) in
      if n \<ge> length (ltOut txFrom) then False
      else if opHash (prevout i) \<noteq> ltx_GetHash E txFrom then False
      else VerifyScript E B (CheckSig V E txTo nIn nHashType) (scriptSig i) (scriptPubKey (ltOut txFrom ! n)))"

section \<open>Standard inputs\<close>

definition input_standard :: "verify \<Rightarrow> env \<Rightarrow> bignum \<Rightarrow> ltx \<Rightarrow> inputs \<Rightarrow> nat \<Rightarrow> bool res" where
  "input_standard V E B t inputs k =
     rbind (GetOutputFor (ltIn t ! k) inputs) (\<lambda>out.
     let (f, whichType, vSolutions) = Solver (scriptPubKey out);
         nArgsExpected = ScriptSigArgsExpected whichType vSolutions in
     if \<not> f \<or> nArgsExpected < 0 then Inr False
     else case EvalScript E B (CheckSig V E t k 0) (scriptSig (ltIn t ! k)) [] of
       None \<Rightarrow> Inr False
     | Some st \<Rightarrow>
         if whichType = TX_SCRIPTHASH then
           if st = [] then Inr False
           else
             let (f2, whichType2, vSolutions2) = Solver (hd st);
                 tmpExpected = ScriptSigArgsExpected whichType2 vSolutions2 in
             Inr (f2 \<and> whichType2 \<noteq> TX_SCRIPTHASH \<and> \<not> tmpExpected < 0 \<and> int (length st) = nArgsExpected + tmpExpected)
         else Inr (int (length st) = nArgsExpected))"

fun inputs_standard :: "verify \<Rightarrow> env \<Rightarrow> bignum \<Rightarrow> ltx \<Rightarrow> inputs \<Rightarrow> nat list \<Rightarrow> bool res" where
  "inputs_standard V E B t inputs [] = Inr True"
| "inputs_standard V E B t inputs (k # ks) =
     rand (input_standard V E B t inputs k) (inputs_standard V E B t inputs ks)"

definition AreInputsStandard :: "verify \<Rightarrow> env \<Rightarrow> bignum \<Rightarrow> ltx \<Rightarrow> inputs \<Rightarrow> bool res" where
  "AreInputsStandard V E B t inputs =
     (if ltx_IsCoinBase t then Inr True
      else inputs_standard V E B t inputs [(if ltx_IsCoinStake t then 1 else 0)..<length (ltIn t)])"

end
