(* ===== verification/Legacy_Trust.thy ===== *)
theory Legacy_Trust
  imports Legacy_Transaction Block_Chain
begin

text \<open>
  The databases of the legacy chain (\<^verbatim>\<open>LLD/legacy.cpp\<close>, \<^verbatim>\<open>LLD/trust.cpp\<close>) and its proof of stake: trust
  keys (\<^verbatim>\<open>Legacy/trustkey.cpp\<close>), the check of a published trust score and what a coinstake does to its trust
  key (\<^verbatim>\<open>Legacy/transaction.cpp\<close>). Stake rates are floating-point numbers of 64 bits: their computation, the
  rewards that follow from them, and the search for a lost genesis are arguments (record \<open>legacy_stake\<close>).
\<close>

section \<open>Databases\<close>

record trust_key =
  tkPubKey :: "byte list"
  tkVersion :: u32
  hashGenesisBlock :: u1024
  hashGenesisTx :: u512
  nGenesisTime :: u32
  hashLastBlock :: u1024
  nLastBlockTime :: u64
  nStakeRate :: u64

record legacy_db =
  gTx :: "u512 \<Rightarrow> ltx option"
  gSpent :: "u512 \<times> u32 \<Rightarrow> bool"
  gSequence :: "u256 \<Rightarrow> u32 option"
  gEvents :: "u256 \<times> u32 \<Rightarrow> u512 option"
  gTrust :: "u576 \<Rightarrow> trust_key option"

definition Legacy_ReadTx :: "u512 \<Rightarrow> legacy_db \<Rightarrow> ltx option" where
  "Legacy_ReadTx h D = gTx D h"

definition WriteSpend :: "u512 \<Rightarrow> u32 \<Rightarrow> legacy_db \<Rightarrow> legacy_db" where
  "WriteSpend h n D = D\<lparr>gSpent := (gSpent D)((h, n) := True)\<rparr>"

definition EraseSpend :: "u512 \<Rightarrow> u32 \<Rightarrow> legacy_db \<Rightarrow> legacy_db" where
  "EraseSpend h n D = D\<lparr>gSpent := (gSpent D)((h, n) := False)\<rparr>"

definition IsSpent :: "u512 \<Rightarrow> u32 \<Rightarrow> legacy_db \<Rightarrow> bool" where
  "IsSpent h n D = gSpent D (h, n)"

definition Legacy_WriteEvent :: "u256 \<Rightarrow> u512 \<Rightarrow> legacy_db \<Rightarrow> legacy_db" where
  "Legacy_WriteEvent a h D =
     (let nSequence = (case gSequence D a of None \<Rightarrow> 0 | Some n \<Rightarrow> n) in
      D\<lparr>gSequence := (gSequence D)(a \<mapsto> nSequence + 1), gEvents := (gEvents D)((a, nSequence) \<mapsto> h)\<rparr>)"

definition Legacy_EraseEvent :: "u256 \<Rightarrow> legacy_db \<Rightarrow> legacy_db option" where
  "Legacy_EraseEvent a D =
     (case gSequence D a of
        None \<Rightarrow> None
      | Some nSequence \<Rightarrow>
          Some (D\<lparr>gSequence := (gSequence D)(a \<mapsto> nSequence - 1), gEvents := (gEvents D)((a, nSequence - 1) := None)\<rparr>))"

definition WriteTrustKey :: "u576 \<Rightarrow> trust_key \<Rightarrow> legacy_db \<Rightarrow> legacy_db" where
  "WriteTrustKey k key D = D\<lparr>gTrust := (gTrust D)(k \<mapsto> key)\<rparr>"

definition ReadTrustKey :: "u576 \<Rightarrow> legacy_db \<Rightarrow> trust_key option" where
  "ReadTrustKey k D = gTrust D k"

definition EraseTrustKey :: "u576 \<Rightarrow> legacy_db \<Rightarrow> legacy_db" where
  "EraseTrustKey k D = D\<lparr>gTrust := (gTrust D)(k := None)\<rparr>"

section \<open>Trust keys\<close>

text \<open>The number of a key: words of 32 bits from the first, each from its highest byte. A key that is too short is read
  past its end.\<close>

definition SetBytes :: "byte list \<Rightarrow> u576 res" where
  "SetBytes bs =
     (if length bs < 72 then Inl (Undefined ''read past the end of a vector'')
      else Inr (deser_word (concat (map (\<lambda>k. rev (take 4 (drop (4 * k) bs))) [0..<18]))))"

definition TrustKey_default :: trust_key where
  "TrustKey_default = \<lparr>tkPubKey = [], tkVersion = 1, hashGenesisBlock = 0, hashGenesisTx = 0, nGenesisTime = 0, hashLastBlock = 0,
     nLastBlockTime = 0, nStakeRate = 0\<rparr>"

definition TrustKey_make :: "byte list \<Rightarrow> u1024 \<Rightarrow> u512 \<Rightarrow> u32 \<Rightarrow> trust_key" where
  "TrustKey_make vchPubKey hashBlock h nTime = TrustKey_default
     \<lparr>tkPubKey := vchPubKey, hashGenesisBlock := hashBlock, hashGenesisTx := h, nGenesisTime := nTime\<rparr>"

definition TrustKey_IsNull :: "trust_key \<Rightarrow> bool" where
  "TrustKey_IsNull key \<longleftrightarrow> hashGenesisBlock key = 0 \<and> hashGenesisTx key = 0 \<and> nGenesisTime key = 0 \<and> tkPubKey key = []"

definition TrustKey_Age :: "trust_key \<Rightarrow> u64 \<Rightarrow> u64" where
  "TrustKey_Age key nTime = (if nTime < ucast (nGenesisTime key) then 0 else nTime - ucast (nGenesisTime key))"

definition TrustKey_BlockAge :: "trust_key \<Rightarrow> u64 \<Rightarrow> world \<Rightarrow> u64" where
  "TrustKey_BlockAge key nBlockTime W =
     (case ReadBlock (hashLastBlock key) W of None \<Rightarrow> 0 | Some stateLast \<Rightarrow> nBlockTime - bTime stateLast)"

definition TrustKey_Expired :: "env \<Rightarrow> trust_key \<Rightarrow> u64 \<Rightarrow> world \<Rightarrow> bool" where
  "TrustKey_Expired E key nBlockTime W \<longleftrightarrow> TrustKey_BlockAge key nBlockTime W > MaxBlockAge E"

definition CheckGenesis :: "node \<Rightarrow> trust_key \<Rightarrow> block_state \<Rightarrow> unit res" where
  "CheckGenesis N key b =
     (if TrustKey_IsNull key then Inl (Reject '''')
      else if \<not> IsProofOfStake b then Inl (Reject ''genesis has to be proof of stake'')
      else if ucast (nGenesisTime key) \<noteq> bTime b then Inl (Reject ''genesis time mismatch'')
      else if bVtx b = [] then Inl (Undefined ''no transaction'')
      else if snd (bVtx b ! 0) \<noteq> hashGenesisTx key then Inl (Reject ''genesis coinstake hash mismatch'')
      else if Block_GetHash N b \<noteq> hashGenesisBlock key then Inl (Reject ''genesis hash mismatch'')
      else Inr ())"

section \<open>The published score\<close>

definition TRUST_SCORE_MAX :: u32 where "TRUST_SCORE_MAX = 60 * 60 * 24 * 28 * 13"
definition TRUST_SCORE_MAX_TESTNET :: u32 where "TRUST_SCORE_MAX_TESTNET = 60 * 60 * 28 * 13"

text \<open>The score of the last block of the key, from the kind of its coinstake.\<close>

definition previous_score :: "env \<Rightarrow> trust_key \<Rightarrow> block_state \<Rightarrow> ltx \<Rightarrow> u32 \<Rightarrow> world \<Rightarrow> u32 res" where
  "previous_score E key stateLast txLast nSequence W =
     (if ltx_IsGenesis txLast then
        if nSequence \<noteq> 1 then Inl (Reject ''first trust block and sequence is not 1'') else Inr 0
      else if bVersion stateLast < 5 then
        if nSequence \<noteq> 1 then Inl (Reject ''version 4 block sequence number is'')
        else if TrustKey_Expired E key (bestTime E) W then Inl (Reject ''version 4 key expired'')
        else Inr (ucast (TrustKey_Age key (bestTime E)))
      else rbind (ExtractTrust txLast) (\<lambda>(hashBlockPrev, nSequencePrev, nScorePrev).
        if nSequence \<noteq> nSequencePrev + 1 then Inl (Reject ''previous sequence broken'') else Inr nScorePrev))"

definition legacy_score :: "env \<Rightarrow> u32 \<Rightarrow> u32 \<Rightarrow> u32" where
  "legacy_score E nScorePrev nTimespan =
     (let nMax = (if fTestNet E then TRUST_SCORE_MAX_TESTNET else TRUST_SCORE_MAX);
          nAllowed = ucast (MaxBlockAge E) :: u32;
          nScore = (if nTimespan < nAllowed then nScorePrev + nTimespan
                    else let nPenalty = (nTimespan - nAllowed) * 3 in if nPenalty > nScorePrev then 0 else nScorePrev - nPenalty) in
      if nScore > nMax then nMax else nScore)"

definition ltx_CheckTrust :: "env \<Rightarrow> ltx \<Rightarrow> block_state \<Rightarrow> trust_key \<Rightarrow> world \<Rightarrow> legacy_db \<Rightarrow> unit res" where
  "ltx_CheckTrust E t b key W D =
     rbind (ExtractTrust t) (\<lambda>(hashLast, nSequence, nTrustScore).
     rbind (found ''last stake block not in database'' (ReadBlock hashLast W)) (\<lambda>stateLast.
     rbind (found ''prev block not in database'' (ReadBlock (hashPrevBlock b) W)) (\<lambda>statePrev.
     if bVtx stateLast = [] then Inl (Undefined ''no transaction'')
     else rbind (found ''last state coinstake tx not found'' (Legacy_ReadTx (snd (bVtx stateLast ! 0)) D)) (\<lambda>txLast.
     if bHeight b - bHeight stateLast < MinStakeInterval E b then Inl (Reject ''trust key interval below minimum interval'')
     else rbind (SetBytes (tkPubKey key)) (\<lambda>cKey.
     rbind (ltx_TrustKey txLast) (\<lambda>vLast. rbind (SetBytes vLast) (\<lambda>keyLast.
     if keyLast \<noteq> cKey then Inl (Reject ''trust key in previous stake block does not match'')
     else rbind (previous_score E key stateLast txLast nSequence W) (\<lambda>nScorePrev.
     if nTrustScore \<noteq> legacy_score E nScorePrev (ucast (bTime statePrev - bTime stateLast))
     then Inl (Reject ''published trust score not meeting calculated score'') else Inr ()))))))))"

section \<open>Connecting and disconnecting a coinstake\<close>

record legacy_stake =
  xStakeRate :: "trust_key \<Rightarrow> block_state \<Rightarrow> u64 \<Rightarrow> legacy_db \<Rightarrow> u64"
  xReward :: "ltx \<Rightarrow> block_state \<Rightarrow> world \<Rightarrow> legacy_db \<Rightarrow> u64 res"
  xFindGenesis :: "u576 \<Rightarrow> u1024 \<Rightarrow> world \<Rightarrow> legacy_db \<Rightarrow> trust_key option"

text \<open>The trust key that a coinstake goes on from: a new one for a genesis, a checked one for a trust, and for a coinstake that
  is neither, the default.\<close>

definition staking_key :: "legacy_stake \<Rightarrow> node \<Rightarrow> env \<Rightarrow> ltx \<Rightarrow> byte list \<Rightarrow> u576 \<Rightarrow> block_state \<Rightarrow> world \<Rightarrow> legacy_db \<Rightarrow> trust_key res" where
  "staking_key X N E t vTrustKey cKey b W D =
     (if ltx_IsGenesis t then
        if bVersion b \<ge> 5 \<and> length (scriptSig (ltIn t ! 0)) \<noteq> 8 then Inl (Reject ''genesis unexpected size'')
        else let key = TrustKey_make vTrustKey (Block_GetHash N b) (ltx_GetHash E t) (ucast (bTime b)) in
          rbind (or_error ''invalid genesis transaction'' (CheckGenesis N key b)) (\<lambda>_. Inr key)
      else if ltx_IsTrust t then
        rbind (case ReadTrustKey cKey D of
                 Some key \<Rightarrow> Inr key
               | None \<Rightarrow> found ''no trust without genesis'' (xFindGenesis X cKey (hashPrevBlock b) W D)) (\<lambda>key.
        if tkPubKey key \<noteq> vTrustKey then Inl (Reject ''trust key and block trust key mismatch'')
        else rbind (found ''genesis block not found'' (ReadBlock (hashGenesisBlock key) W)) (\<lambda>stateGenesis.
        rbind (or_error ''invalid genesis transaction'' (CheckGenesis N key stateGenesis)) (\<lambda>_.
        if bVersion b \<ge> 5 then rbind (or_error ''invalid trust score'' (ltx_CheckTrust E t b key W D)) (\<lambda>_. Inr key)
        else Inr key)))
      else Inr TrustKey_default)"

definition connect_trust_key :: "legacy_stake \<Rightarrow> node \<Rightarrow> env \<Rightarrow> ltx \<Rightarrow> block_state \<Rightarrow> world \<Rightarrow> legacy_db \<Rightarrow> legacy_db res" where
  "connect_trust_key X N E t b W D =
     rbind (or_error ''cant extract trust key.'' (ltx_TrustKey t)) (\<lambda>vTrustKey.
     rbind (SetBytes vTrustKey) (\<lambda>cKey.
     rbind (staking_key X N E t vTrustKey cKey b W D) (\<lambda>key.
     let key = key\<lparr>hashLastBlock := Block_GetHash N b, nLastBlockTime := bTime b\<rparr>;
         key = key\<lparr>nStakeRate := xStakeRate X key b (bTime b) D\<rparr> in
     Inr (WriteTrustKey cKey key D))))"

definition revert_trust_key :: "legacy_stake \<Rightarrow> node \<Rightarrow> ltx \<Rightarrow> block_state \<Rightarrow> world \<Rightarrow> legacy_db \<Rightarrow> legacy_db res" where
  "revert_trust_key X N t b W D =
     rbind (or_error ''cant extract trust key.'' (ltx_TrustKey t)) (\<lambda>vTrustKey.
     rbind (SetBytes vTrustKey) (\<lambda>cKey.
     case ReadTrustKey cKey D of
       None \<Rightarrow> Inr D
     | Some key \<Rightarrow>
         if Block_GetHash N b = hashGenesisBlock key then Inr (EraseTrustKey cKey D)
         else rbind (or_error ''failed to extract coinstake trust values from script'' (ExtractTrust t)) (\<lambda>(hashLast, nSequence, nTrustScore).
         rbind (found ''failed to read previous stake block'' (ReadBlock hashLast W)) (\<lambda>statePrev.
         let key = key\<lparr>hashLastBlock := hashLast, nLastBlockTime := bTime statePrev\<rparr>;
             key = key\<lparr>nStakeRate := xStakeRate X key statePrev (bTime statePrev) D\<rparr> in
         Inr (WriteTrustKey cKey key D)))))"

end
