(* ===== verification/Merkle.thy ===== *)
theory Merkle
  imports Timelocks
begin

text \<open>
  Merkle trees of blocks (\<^verbatim>\<open>TAO/Ledger/block.cpp\<close>): one vector holds all levels, the leaves first; an odd level
  pairs its last node with itself. Against it stands the tree by levels, each half of the one before.
\<close>

section \<open>The code\<close>

definition hash_pair :: "env \<Rightarrow> u512 \<Rightarrow> u512 \<Rightarrow> u512" where
  "hash_pair E l r = SK512 E (ser_word l @ ser_word r)"

function merkle_level :: "env \<Rightarrow> u512 list \<Rightarrow> nat \<Rightarrow> nat \<Rightarrow> nat \<Rightarrow> u512 list" where
  "merkle_level E T j nSize i =
     (if i < nSize then merkle_level E (T @ [hash_pair E (T ! (j + i)) (T ! (j + min (i + 1) (nSize - 1)))]) j nSize (i + 2)
      else T)"
  by pat_completeness auto
termination
  by (relation "measure (\<lambda>(E, T, j, n, i). n - i)") auto

function merkle_loop :: "env \<Rightarrow> u512 list \<Rightarrow> nat \<Rightarrow> nat \<Rightarrow> u512 list" where
  "merkle_loop E T j nSize =
     (if nSize > 1 then merkle_loop E (merkle_level E T j nSize 0) (j + nSize) ((nSize + 1) div 2) else T)"
  by pat_completeness auto
termination
  by (relation "measure (\<lambda>(E, T, j, n). n)") auto

declare merkle_level.simps [simp del] merkle_loop.simps [simp del]

definition vMerkleTree :: "env \<Rightarrow> u512 list \<Rightarrow> u512 list" where
  "vMerkleTree E vtx = merkle_loop E vtx 0 (length vtx)"

definition BuildMerkleTree :: "env \<Rightarrow> u512 list \<Rightarrow> u512" where
  "BuildMerkleTree E vtx = (if vMerkleTree E vtx = [] then 0 else last (vMerkleTree E vtx))"

definition sibling :: "nat \<Rightarrow> nat" where
  "sibling k = (if even k then k + 1 else k - 1)"

function branch_loop :: "u512 list \<Rightarrow> nat \<Rightarrow> nat \<Rightarrow> nat \<Rightarrow> u512 list" where
  "branch_loop T j nSize nIndex =
     (if nSize > 1 then T ! (j + min (sibling nIndex) (nSize - 1)) # branch_loop T (j + nSize) ((nSize + 1) div 2) (nIndex div 2)
      else [])"
  by pat_completeness auto
termination
  by (relation "measure (\<lambda>(T, j, n, k). n)") auto

declare branch_loop.simps [simp del]

text \<open>The tree is the one that is cached in the block, where there is one.\<close>

definition GetMerkleBranch :: "env \<Rightarrow> u512 list \<Rightarrow> u512 list \<Rightarrow> nat \<Rightarrow> u512 list" where
  "GetMerkleBranch E cached vtx nIndex =
     branch_loop (if cached = [] then vMerkleTree E vtx else cached) 0 (length vtx) nIndex"

fun CheckMerkleBranch :: "env \<Rightarrow> u512 \<Rightarrow> u512 list \<Rightarrow> nat \<Rightarrow> u512" where
  "CheckMerkleBranch E h [] nIndex = h"
| "CheckMerkleBranch E h (leaf # branch) nIndex =
     CheckMerkleBranch E (if odd nIndex then hash_pair E leaf h else hash_pair E h leaf) branch (nIndex div 2)"

section \<open>The tree by levels\<close>

fun halve :: "('a \<Rightarrow> 'a \<Rightarrow> 'a) \<Rightarrow> 'a list \<Rightarrow> 'a list" where
  "halve f [] = []"
| "halve f [x] = [f x x]"
| "halve f (x # y # xs) = f x y # halve f xs"

lemma length_halve [simp]: "length (halve f xs) = (length xs + 1) div 2"
  by (induction f xs rule: halve.induct) auto

lemma nth_halve: "i < (length xs + 1) div 2 \<Longrightarrow> halve f xs ! i = f (xs ! (2 * i)) (xs ! min (2 * i + 1) (length xs - 1))"
proof (induction f xs arbitrary: i rule: halve.induct)
  case (3 f x y xs)
  show ?case
  proof (cases i)
    case (Suc k)
    have "xs = [] \<Longrightarrow> False" using "3.prems" Suc by simp
    then have "min (2 * i + 1) (length (x # y # xs) - 1) = Suc (Suc (min (2 * k + 1) (length xs - 1)))" using Suc by (cases xs) auto
    then show ?thesis using "3.IH" [of k] "3.prems" Suc by simp
  qed simp
qed simp_all

function tower :: "('a \<Rightarrow> 'a \<Rightarrow> 'a) \<Rightarrow> 'a list \<Rightarrow> 'a list" where
  "tower f xs = xs @ (if length xs \<le> 1 then [] else tower f (halve f xs))"
  by pat_completeness auto
termination
  by (relation "measure (\<lambda>(f, xs). length xs)") auto

function merkle_root :: "('a \<Rightarrow> 'a \<Rightarrow> 'a) \<Rightarrow> 'a list \<Rightarrow> 'a" where
  "merkle_root f xs = (if length xs \<le> 1 then hd xs else merkle_root f (halve f xs))"
  by pat_completeness auto
termination
  by (relation "measure (\<lambda>(f, xs). length xs)") auto

declare tower.simps [simp del] merkle_root.simps [simp del]

lemma last_tower: "xs \<noteq> [] \<Longrightarrow> last (tower f xs) = merkle_root f xs \<and> tower f xs \<noteq> []"
proof (induction f xs rule: merkle_root.induct)
  case (1 f xs)
  show ?case
  proof (cases "length xs \<le> 1")
    case True
    then obtain x where "xs = [x]" using "1.prems" by (cases xs) auto
    then show ?thesis by (simp add: tower.simps merkle_root.simps)
  next
    case False
    then have "halve f xs \<noteq> []" by (cases xs; cases "tl xs") auto
    then show ?thesis using "1.IH" [OF False] False by (subst (1 2) tower.simps, subst merkle_root.simps) auto
  qed
qed

section \<open>The code builds the tree\<close>

lemma merkle_level_halve:
  assumes "length T = length P + length xs + (i div 2)" and "even i" and "take (length P + length xs) T = P @ xs"
    and "i \<le> length xs + 1"
  shows "merkle_level E T (length P) (length xs) i = T @ drop (i div 2) (halve (hash_pair E) xs)"
  using assms
proof (induction "length xs - i" arbitrary: T i rule: less_induct)
  case less
  let ?h = "halve (hash_pair E) xs"
  have n: "T ! (length P + k) = xs ! k" if "k < length xs" for k
    using that less.prems(3) by (metis add_less_cancel_left nth_append_length_plus nth_take)
  show ?case
  proof (cases "i < length xs")
    case True
    let ?x = "hash_pair E (T ! (length P + i)) (T ! (length P + min (i + 1) (length xs - 1)))"
    have m: "i div 2 < (length xs + 1) div 2" using True less.prems(2) by auto
    have "?x = ?h ! (i div 2)"
      using nth_halve [OF m, of "hash_pair E"] n [of i] n [of "min (i + 1) (length xs - 1)"] True less.prems(2) by auto
    then have d: "drop (i div 2) ?h = ?x # drop (i div 2 + 1) ?h"
      using m Cons_nth_drop_Suc [of "i div 2" ?h] by simp
    have "merkle_level E T (length P) (length xs) i = merkle_level E (T @ [?x]) (length P) (length xs) (i + 2)"
      using True by (subst merkle_level.simps) simp
    also have "\<dots> = (T @ [?x]) @ drop ((i + 2) div 2) ?h"
      using less.prems True by (intro less.hyps) auto
    finally show ?thesis using d by simp
  next
    case False
    then have "(length xs + 1) div 2 \<le> i div 2" using less.prems(2) by presburger
    then have "drop (i div 2) ?h = []" by simp
    then show ?thesis using False by (subst merkle_level.simps) simp
  qed
qed

lemma merkle_loop_tower: "merkle_loop E (P @ xs) (length P) (length xs) = P @ tower (hash_pair E) xs"
proof (induction "hash_pair E" xs arbitrary: P rule: tower.induct)
  case (1 xs)
  show ?case
  proof (cases "length xs \<le> 1")
    case True
    then show ?thesis by (subst merkle_loop.simps, subst tower.simps) simp
  next
    case False
    have l: "merkle_level E (P @ xs) (length P) (length xs) 0 = (P @ xs) @ halve (hash_pair E) xs"
      using merkle_level_halve [of "P @ xs" P xs 0 E] by simp
    have "merkle_loop E (P @ xs) (length P) (length xs) =
        merkle_loop E ((P @ xs) @ halve (hash_pair E) xs) (length (P @ xs)) (length (halve (hash_pair E) xs))"
      using False l by (subst merkle_loop.simps) simp
    also have "\<dots> = (P @ xs) @ tower (hash_pair E) (halve (hash_pair E) xs)" by (rule 1 [OF False])
    finally show ?thesis using False tower.simps [of "hash_pair E" xs] by simp
  qed
qed

lemma BuildMerkleTree_root: "BuildMerkleTree E xs = (if xs = [] then 0 else merkle_root (hash_pair E) xs)"
proof -
  have t: "vMerkleTree E xs = tower (hash_pair E) xs" using merkle_loop_tower [of E "[]" xs] by (simp add: vMerkleTree_def)
  show ?thesis
  proof (cases "xs = []")
    case True
    then show ?thesis using t tower.simps [of "hash_pair E" "[]"] by (simp add: BuildMerkleTree_def)
  next
    case False
    then show ?thesis using t last_tower [OF False, of "hash_pair E"] by (simp add: BuildMerkleTree_def)
  qed
qed

section \<open>Branches\<close>

fun branch :: "nat \<Rightarrow> ('a \<Rightarrow> 'a \<Rightarrow> 'a) \<Rightarrow> 'a list \<Rightarrow> nat \<Rightarrow> 'a list" where
  "branch 0 f xs k = []"
| "branch (Suc m) f xs k =
     (if length xs > 1 then xs ! min (sibling k) (length xs - 1) # branch m f (halve f xs) (k div 2) else [])"

lemma branch_loop_branch:
  "length xs \<le> m \<Longrightarrow> branch_loop (P @ tower (hash_pair E) xs) (length P) (length xs) k = branch m (hash_pair E) xs k"
proof (induction m arbitrary: P xs k)
  case (Suc m)
  let ?f = "hash_pair E"
  show ?case
  proof (cases "length xs > 1")
    case True
    have t: "tower ?f xs = xs @ tower ?f (halve ?f xs)" using True by (subst tower.simps) simp
    have "min (sibling k) (length xs - 1) < length xs" using True by auto
    then have n: "(P @ tower ?f xs) ! (length P + min (sibling k) (length xs - 1)) = xs ! min (sibling k) (length xs - 1)"
      by (simp add: t nth_append)
    have "length (halve ?f xs) \<le> m" using Suc.prems True by auto
    then have "branch_loop (P @ tower ?f xs) (length P + length xs) ((length xs + 1) div 2) (k div 2) = branch m ?f (halve ?f xs) (k div 2)"
      using Suc.IH [of "halve ?f xs" "P @ xs" "k div 2"] t by simp
    then show ?thesis using True n by (subst branch_loop.simps) simp
  next
    case False
    then show ?thesis by (subst branch_loop.simps) simp
  qed
qed (simp add: branch_loop.simps)

lemma CheckMerkleBranch_root:
  "k < length xs \<Longrightarrow> length xs \<le> m \<Longrightarrow> CheckMerkleBranch E (xs ! k) (branch m (hash_pair E) xs k) k = merkle_root (hash_pair E) xs"
proof (induction m arbitrary: xs k)
  case (Suc m)
  let ?f = "hash_pair E"
  show ?case
  proof (cases "length xs > 1")
    case True
    have k: "k div 2 < (length xs + 1) div 2" "length (halve ?f xs) \<le> m" using Suc.prems True by auto
    have e: "(if odd k then ?f (xs ! min (sibling k) (length xs - 1)) (xs ! k) else ?f (xs ! k) (xs ! min (sibling k) (length xs - 1))) =
        halve ?f xs ! (k div 2)"
    proof (cases "odd k")
      case True
      then have "2 * (k div 2) = k - 1" "min (k - 1) (length xs - 1) = k - 1" "min (2 * (k div 2) + 1) (length xs - 1) = k"
        using Suc.prems(1) by (auto elim!: oddE)
      then show ?thesis using nth_halve [OF k(1), of ?f] True by (simp add: sibling_def)
    next
      case False
      then have "2 * (k div 2) = k" by auto
      then show ?thesis using nth_halve [OF k(1), of ?f] False by (simp add: sibling_def)
    qed
    have "CheckMerkleBranch E (xs ! k) (branch (Suc m) ?f xs k) k = CheckMerkleBranch E (halve ?f xs ! (k div 2)) (branch m ?f (halve ?f xs) (k div 2)) (k div 2)"
      using True e by (cases "odd k") simp_all
    also have "\<dots> = merkle_root ?f (halve ?f xs)" using k by (intro Suc.IH) simp_all
    finally show ?thesis using True by (subst merkle_root.simps) simp
  next
    case False
    then obtain x where "xs = [x]" using Suc.prems by (cases xs) auto
    then show ?thesis using Suc.prems by (simp add: merkle_root.simps)
  qed
qed simp

section \<open>What a root binds\<close>

text \<open>The strings that are hashed to build one level from the one below, and those of a whole tree. A node is bound by its
  children up to a collision among these strings: two of them that differ and have the same hash. No more is assumed of the hash.\<close>

definition node_string :: "u512 \<Rightarrow> u512 \<Rightarrow> byte list" where
  "node_string l r = ser_word l @ ser_word r"

fun level_strings :: "u512 list \<Rightarrow> byte list list" where
  "level_strings [] = []"
| "level_strings [x] = [node_string x x]"
| "level_strings (x # y # xs) = node_string x y # level_strings xs"

function tree_strings :: "env \<Rightarrow> u512 list \<Rightarrow> byte list list" where
  "tree_strings E xs = (if length xs \<le> 1 then [] else level_strings xs @ tree_strings E (halve (hash_pair E) xs))"
  by pat_completeness auto
termination
  by (relation "measure (\<lambda>(E, xs). length xs)") auto

declare tree_strings.simps [simp del]

definition collision_in :: "env \<Rightarrow> byte list list \<Rightarrow> bool" where
  "collision_in E S \<longleftrightarrow> (\<exists>x \<in> set S. \<exists>y \<in> set S. x \<noteq> y \<and> SK512 E x = SK512 E y)"

lemma halve_strings: "halve (hash_pair E) xs = map (SK512 E) (level_strings xs)"
  by (induction xs rule: level_strings.induct) (simp_all add: hash_pair_def node_string_def)

lemma node_string_inj: "node_string a b = node_string c d \<longleftrightarrow> a = c \<and> b = d"
proof
  assume "node_string a b = node_string c d"
  then have "ser_word a = ser_word c" "ser_word b = ser_word d" by (simp_all add: node_string_def append_eq_append_conv)
  then show "a = c \<and> b = d" using ser_word_inj [of a c] ser_word_inj [of b d] by simp
qed simp

lemma collision_in_map:
  assumes "map (SK512 E) xs = map (SK512 E) ys" and "set xs \<union> set ys \<subseteq> set S"
  shows "xs = ys \<or> collision_in E S"
proof (rule disjCI)
  assume n: "\<not> collision_in E S"
  have "inj_on (SK512 E) (set xs \<union> set ys)"
    using n assms(2) unfolding collision_in_def inj_on_def by blast
  then show "xs = ys" by (rule map_inj_on [OF assms(1)])
qed

text \<open>Lists without repetitions can be told apart by the strings of their levels, whatever their lengths; levels again have
  no repetitions.\<close>

lemma level_strings_inj: "distinct xs \<Longrightarrow> distinct ys \<Longrightarrow> level_strings xs = level_strings ys \<Longrightarrow> xs = ys"
proof (induction xs arbitrary: ys rule: level_strings.induct)
  case 1
  then show ?case by (cases ys rule: level_strings.cases) auto
next
  case (2 x)
  then show ?case by (cases ys rule: level_strings.cases) (auto simp: node_string_inj)
next
  case (3 x y xs)
  then show ?case by (cases ys rule: level_strings.cases) (auto simp: node_string_inj)
qed

lemma level_strings_set: "s \<in> set (level_strings xs) \<Longrightarrow> \<exists>a \<in> set xs. \<exists>b \<in> set xs. s = node_string a b"
  by (induction xs rule: level_strings.induct) auto

lemma distinct_level_strings: "distinct xs \<Longrightarrow> distinct (level_strings xs)"
proof (induction xs rule: level_strings.induct)
  case (3 x y xs)
  then have "node_string x y \<notin> set (level_strings xs)" by (auto dest!: level_strings_set simp: node_string_inj)
  then show ?case using 3 by simp
qed simp_all

lemma distinct_halve:
  assumes "distinct xs" and "set (level_strings xs) \<subseteq> set S"
  shows "distinct (halve (hash_pair E) xs) \<or> collision_in E S"
  using assms distinct_level_strings [OF assms(1)] unfolding halve_strings distinct_map collision_in_def inj_on_def by blast

fun levels :: "nat \<Rightarrow> nat" where
  "levels n = (if n \<le> 1 then 0 else Suc (levels ((n + 1) div 2)))"

declare levels.simps [simp del]

lemma root_eq:
  assumes "distinct xs" and "distinct ys" and "xs \<noteq> []" and "ys \<noteq> []" and "levels (length xs) = levels (length ys)"
    and "merkle_root (hash_pair E) xs = merkle_root (hash_pair E) ys"
    and "set (tree_strings E xs) \<union> set (tree_strings E ys) \<subseteq> set S"
  shows "xs = ys \<or> collision_in E S"
  using assms
proof (induction "hash_pair E" xs arbitrary: ys rule: merkle_root.induct)
  case (1 xs)
  have s: "length xs \<le> 1 \<longleftrightarrow> length ys \<le> 1"
    using "1.prems"(5) by (subst (asm) levels.simps, subst (asm) (2) levels.simps) (auto split: if_splits)
  show ?case
  proof (cases "length xs \<le> 1")
    case True
    then obtain x y where "xs = [x]" "ys = [y]" using "1.prems"(3,4) s by (cases xs; cases ys) auto
    then show ?thesis using "1.prems"(6) by (simp add: merkle_root.simps)
  next
    case False
    let ?x = "halve (hash_pair E) xs" and ?y = "halve (hash_pair E) ys"
    have r: "merkle_root (hash_pair E) ?x = merkle_root (hash_pair E) ?y"
      using "1.prems"(6) False s merkle_root.simps [of "hash_pair E" xs] merkle_root.simps [of "hash_pair E" ys] by simp
    have l: "levels (length ?x) = levels (length ?y)"
      using "1.prems"(5) False s levels.simps [of "length xs"] levels.simps [of "length ys"] by simp
    have "length ?x \<ge> 1" "length ?y \<ge> 1" using False s by auto
    then have n: "?x \<noteq> []" "?y \<noteq> []" by (metis list.size(3) not_one_le_zero)+
    have t: "tree_strings E xs = level_strings xs @ tree_strings E ?x" "tree_strings E ys = level_strings ys @ tree_strings E ?y"
      using False s tree_strings.simps [of E xs] tree_strings.simps [of E ys] by simp_all
    then have u: "set (tree_strings E ?x) \<union> set (tree_strings E ?y) \<subseteq> set S"
      and v: "set (level_strings xs) \<subseteq> set S" "set (level_strings ys) \<subseteq> set S" using "1.prems"(7) by auto
    consider (c) "collision_in E S" | (e) "?x = ?y"
      using "1.hyps" [OF False _ _ n l r u] distinct_halve [OF "1.prems"(1) v(1)] distinct_halve [OF "1.prems"(2) v(2)] by blast
    then show ?thesis
    proof cases
      case e
      then show ?thesis
        using collision_in_map [of E "level_strings xs" "level_strings ys" S] v level_strings_inj [OF "1.prems"(1,2)]
        unfolding halve_strings by blast
    qed simp
  qed
qed

lemma halve_repeat: "odd (length xs) \<Longrightarrow> halve f (xs @ [last xs]) = halve f xs"
proof (induction f xs rule: halve.induct)
  case (3 f x y xs)
  then have "xs \<noteq> []" by auto
  then show ?case using 3 by simp
qed simp_all

end
