(* ===== verification/Legacy_Block.thy ===== *)
theory Legacy_Block
  imports Legacy_Trust Merkle
begin

text \<open>
  Blocks of the legacy chain (\<^verbatim>\<open>Legacy/legacy.cpp\<close>): the check of a block that needs no chain, and the part
  of accepting it that compares it with its predecessor. The proof of work, the signature of the block, the lists of
  the addresses of ambassadors and developers, the checkpoints, the targets and rewards, and the proof of stake in
  floating point are arguments (record \<open>block_ext\<close>).
\<close>

record lblock =
  lbHeader :: block_header
  lbTime :: u32
  lbVtx :: "ltx list"
  lbSig :: "byte list"

record block_ext =
  yVerifyWork :: "lblock \<Rightarrow> bool"
  yBlockSig :: "byte list \<Rightarrow> lblock \<Rightarrow> bool"
  yAmbassador :: "bool \<Rightarrow> byte list list"
  yDeveloper :: "bool \<Rightarrow> byte list list"
  yTarget :: "block_state \<Rightarrow> u32 \<Rightarrow> u32"
  yReward :: "block_state \<Rightarrow> u32 \<Rightarrow> nat \<Rightarrow> u64"
  yDescendant :: "block_state \<Rightarrow> bool"
  yCheckStake :: "lblock \<Rightarrow> bool"

definition ser_lblock :: "lblock \<Rightarrow> byte list" where
  "ser_lblock b = (let h = lbHeader b in
     ser_word (bVersion h) @ ser_word (hashPrevBlock h) @ ser_word (hashMerkleRoot h) @ ser_word (bChannel h) @
     ser_word (bHeight h) @ ser_word (bBits h) @ ser_word (bNonce h) @ ser_word (lbTime b) @
     ser_vec ser_ltx (lbVtx b) @ ser_bytes (lbSig b))"

definition lb_IsProofOfWork :: "lblock \<Rightarrow> bool" where
  "lb_IsProofOfWork b \<longleftrightarrow> bChannel (lbHeader b) = 1 \<or> bChannel (lbHeader b) = 2"

definition lb_IsProofOfStake :: "lblock \<Rightarrow> bool" where
  "lb_IsProofOfStake b \<longleftrightarrow> bChannel (lbHeader b) = 0"

definition lb_GetHash :: "node \<Rightarrow> lblock \<Rightarrow> u1024" where
  "lb_GetHash N b = nBlockHash N (lbHeader b)"

text \<open>Scripts of 37 bytes are compared byte by byte; the lists have 13 of them.\<close>

definition VerifyAddress :: "byte list \<Rightarrow> byte list \<Rightarrow> bool" where
  "VerifyAddress script sig \<longleftrightarrow> length script = 37 \<and> script = take 37 sig"

definition VerifyAddressList :: "byte list \<Rightarrow> byte list list \<Rightarrow> bool" where
  "VerifyAddressList script sigs \<longleftrightarrow> (\<exists>sig \<in> set (take 13 sigs). VerifyAddress script sig)"

section \<open>The check of a block\<close>

definition check_work :: "block_ext \<Rightarrow> node \<Rightarrow> env \<Rightarrow> lblock \<Rightarrow> ltx \<Rightarrow> unit res" where
  "check_work Y N E b coinbase =
     (let outs = ltOut coinbase; nSize = length outs; fOld = (bVersion (lbHeader b) < 5) in
      if nSize < 3 then Inl (Reject ''coinbase too small'')
      else if \<not> fTestNet E \<and> bHeight (lbHeader b) \<noteq> 112283 \<and> \<not> VerifyAddressList (scriptPubKey (outs ! (nSize - 2))) (yAmbassador Y fOld)
      then Inl (Reject ''ambassador signatures invalid'')
      else if \<not> fTestNet E \<and> bHeight (lbHeader b) \<noteq> 112283 \<and> \<not> VerifyAddressList (scriptPubKey (outs ! (nSize - 1))) (yDeveloper Y fOld)
      then Inl (Reject ''developer signatures invalid'')
      else if \<not> ltx_IsCoinBase coinbase then Inl (Reject ''first tx is not coinbase for proof of work'')
      else if \<not> fSynchronizing N \<and> \<not> yVerifyWork Y b then Inl (Reject ''invalid proof of work'')
      else Inr ())"

definition check_stake_block :: "env \<Rightarrow> lblock \<Rightarrow> ltx \<Rightarrow> unit res" where
  "check_stake_block E b coinstake =
     (if bHeight (lbHeader b) > 2392970 \<and> bNonce (lbHeader b) = 0 then Inl (Reject ''stake cannot have nonce of 0'')
      else if ucast (ltTime coinstake) > unifiedtimestamp E + ucast (maxdrift E) then Inl (Reject ''coinstake too far in Future.'')
      else if \<not> ltx_IsCoinStake coinstake then Inl (Reject ''first transaction non-coinstake'')
      else if ltTime coinstake > lbTime b then Inl (Reject ''coinstake ahead of block time'')
      else Inr ())"

text \<open>All transactions, the first without the test for a further producer; the result counts the signature operations.\<close>

fun check_transactions :: "env \<Rightarrow> u32 \<Rightarrow> bool \<Rightarrow> ltx list \<Rightarrow> u32 \<Rightarrow> u32 res" where
  "check_transactions E nTime fFirst [] nSigOps = Inr nSigOps"
| "check_transactions E nTime fFirst (t # ts) nSigOps =
     (if \<not> fFirst \<and> (ltx_IsCoinBase t \<or> ltx_IsCoinStake t) then Inl (Reject ''more than one coinbase / coinstake'')
      else if nTime < ltTime t then Inl (Reject ''block timestamp earlier than transaction timestamp'')
      else rbind (or_error ''check transaction failed.'' (CheckTransaction E t)) (\<lambda>_.
        check_transactions E nTime False ts (nSigOps + GetLegacySigOpCount t)))"

definition check_block_signature :: "block_ext \<Rightarrow> node \<Rightarrow> lblock \<Rightarrow> ltx \<Rightarrow> unit res" where
  "check_block_signature Y N b producer =
     (if fSynchronizing N then Inr ()
      else if ltOut producer = [] then Inl (Undefined ''no output'')
      else let (f, whichType, vSolutions) = Solver (scriptPubKey (ltOut producer ! 0)) in
        if \<not> f then Inl (Reject ''solver failed for check signature.'')
        else if whichType = TX_PUBKEY \<and> \<not> yBlockSig Y (vSolutions ! 0) b then Inl (Reject ''bad block signature'')
        else Inr ())"

definition lb_Check :: "block_ext \<Rightarrow> node \<Rightarrow> env \<Rightarrow> lblock \<Rightarrow> world \<Rightarrow> unit res" where
  "lb_Check Y N E b W =
     (let h = lbHeader b; nTime = ucast (lbTime b) :: u64; hashes = map (ltx_GetHash E) (lbVtx b) in
      if ReadBlock (lb_GetHash N b) W \<noteq> None then Inl (Reject '''')
      else if length (ser_lblock b) > 1024 * 1024 * 2 then Inl (Reject ''size limits failed'')
      else if bChannel h > 2 then Inl (Reject ''channel out of range'')
      else if nTime > unifiedtimestamp E + ucast (maxdrift E) then Inl (Reject ''block timestamp too far in the future'')
      else if \<not> BlockVersionActive E nTime (bVersion h) then Inl (Reject ''block created with invalid version'')
      else if \<not> NetworkActive E nTime then Inl (Reject ''block created before network time-lock'')
      else rbind (ChannelActive E nTime (bChannel h)) (\<lambda>fActive.
      if \<not> fActive then Inl (Reject ''block created with invalid version'')
      else if lbVtx b = [] then Inl (Undefined ''front of an empty vector'')
      else rbind (if lb_IsProofOfWork b then check_work Y N E b (lbVtx b ! 0)
                  else if lb_IsProofOfStake b then check_stake_block E b (lbVtx b ! 0)
                  else Inl (Reject ''unknown block type'')) (\<lambda>_.
      if nTime > ucast (ltTime (lbVtx b ! 0)) + (if bVersion h < 4 then 1200 else 3600)
      then Inl (Reject ''coinbase/coinstake timestamp is too early'')
      else rbind (check_transactions E (lbTime b) True (lbVtx b) 0) (\<lambda>nSigOps.
      if \<not> distinct hashes then Inl (Reject ''duplicate transaction'')
      else if nSigOps > 40000 then Inl (Reject ''out-of-bounds SigOpCount'')
      else if hashMerkleRoot h \<noteq> BuildMerkleTree E hashes then Inl (Reject ''hashMerkleRoot mismatch'')
      else check_block_signature Y N b (lbVtx b ! 0)))))"

section \<open>Accepting a block\<close>

definition thousands :: "u64 \<Rightarrow> u64" where
  "thousands v = (let n = sint v in of_int (if n < 0 then - (- n div 1000) else n div 1000))"

text \<open>The rewards of a coinbase, but in version 2 and at two heights.\<close>

definition check_rewards :: "block_ext \<Rightarrow> lblock \<Rightarrow> block_state \<Rightarrow> unit res" where
  "check_rewards Y b statePrev =
     (let h = lbHeader b; outs = ltOut (lbVtx b ! 0); nSize = length outs;
          nMiningReward = sum_list (map nValue (take (nSize - 2) outs)) in
      if bVersion h = 2 \<or> bHeight h = 2061881 \<or> bHeight h = 2191756 then Inr ()
      else if nSize < 2 then Inl (Undefined ''read past the end of a vector'')
      else if nMiningReward div 1000 \<noteq> yReward Y statePrev (bChannel h) 0 div 1000 then Inl (Reject ''miner reward mismatch'')
      else if thousands (nValue (outs ! (nSize - 2))) \<noteq> yReward Y statePrev (bChannel h) 1 div 1000 then Inl (Reject ''ambassador reward mismatch'')
      else if thousands (nValue (outs ! (nSize - 1))) \<noteq> yReward Y statePrev (bChannel h) 2 div 1000 then Inl (Reject ''developer reward mismatch'')
      else Inr ())"

definition check_stake_time :: "block_ext \<Rightarrow> lblock \<Rightarrow> block_state \<Rightarrow> unit res" where
  "check_stake_time Y b statePrev =
     (if ucast (ltTime (lbVtx b ! 0)) < bTime statePrev then Inl (Reject ''coinstake transaction too early'')
      else if \<not> yCheckStake Y b then Inl (Reject ''invalid proof of stake'')
      else Inr ())"

text \<open>The part of accepting a block up to its index: the comparison with its predecessor, and its transactions on disk.\<close>

definition lb_Accept :: "block_ext \<Rightarrow> env \<Rightarrow> lblock \<Rightarrow> world \<Rightarrow> legacy_db \<Rightarrow> legacy_db res" where
  "lb_Accept Y E b W D =
     (let h = lbHeader b; nBlockTime = ucast (lbTime b) :: u64 in
      rbind (found ''previous block state not found'' (ReadBlock (hashPrevBlock h) W)) (\<lambda>statePrev.
      if bHeight statePrev + 1 \<noteq> bHeight h then Inl (Reject ''incorrect block height.'')
      else if bBits h \<noteq> yTarget Y statePrev (bChannel h) then Inl (Reject ''incorrect proof-of-work/proof-of-stake'')
      else if nBlockTime \<le> bTime statePrev then Inl (Reject ''blocks timestamp too early'')
      else if \<not> yDescendant Y statePrev then Inl (Reject ''not descendant of last checkpoint'')
      else rbind (if lb_IsProofOfWork b then check_rewards Y b statePrev
                  else if lb_IsProofOfStake b then check_stake_time Y b statePrev else Inr ()) (\<lambda>_.
      if \<not> (\<forall>t \<in> set (lbVtx b). IsFinal E t (sint (bHeight h)) (sint nBlockTime)) then Inl (Reject ''contains a non-final transaction'')
      else Inr (D\<lparr>gTx := foldl (\<lambda>m t. m(ltx_GetHash E t \<mapsto> t)) (gTx D) (lbVtx b)\<rparr>))))"

section \<open>Laws\<close>

lemma check_transactions_Inr:
  assumes "check_transactions E nTime f ts n = Inr m" and "t \<in> set ts"
  shows "CheckTransaction E t = Inr () \<and> ltTime t \<le> nTime"
  using assms by (induction E nTime f ts n rule: check_transactions.induct) (auto split: if_splits)

lemma check_transactions_producers:
  assumes "check_transactions E nTime False ts n = Inr m" and "t \<in> set ts"
  shows "\<not> ltx_IsCoinBase t \<and> \<not> ltx_IsCoinStake t"
  using assms by (induction ts arbitrary: n) (auto split: if_splits)

lemma lb_CheckE:
  assumes "lb_Check Y N E b W = Inr ()"
  obtains nSigOps where "lbVtx b \<noteq> []" and "distinct (map (ltx_GetHash E) (lbVtx b))"
    and "hashMerkleRoot (lbHeader b) = BuildMerkleTree E (map (ltx_GetHash E) (lbVtx b))"
    and "check_transactions E (lbTime b) True (lbVtx b) 0 = Inr nSigOps" and "nSigOps \<le> 40000"
    and "lb_IsProofOfWork b \<Longrightarrow> ltx_IsCoinBase (lbVtx b ! 0)" and "lb_IsProofOfStake b \<Longrightarrow> ltx_IsCoinStake (lbVtx b ! 0)"
    and "lb_IsProofOfWork b \<or> lb_IsProofOfStake b"
proof -
  note c = assms [unfolded lb_Check_def Let_def]
  obtain u nSigOps where n: "lbVtx b \<noteq> []"
    and p: "(if lb_IsProofOfWork b then check_work Y N E b (lbVtx b ! 0)
                  else if lb_IsProofOfStake b then check_stake_block E b (lbVtx b ! 0)
                  else Inl (Reject ''unknown block type'')) = Inr u"
    and t: "check_transactions E (lbTime b) True (lbVtx b) 0 = Inr nSigOps"
    and d: "distinct (map (ltx_GetHash E) (lbVtx b))" "\<not> nSigOps > 40000"
      "\<not> hashMerkleRoot (lbHeader b) \<noteq> BuildMerkleTree E (map (ltx_GetHash E) (lbVtx b))"
    using c by (elim if_InlE rbindE) simp
  have "lb_IsProofOfWork b \<Longrightarrow> ltx_IsCoinBase (lbVtx b ! 0)"
    using p by (simp add: check_work_def Let_def split: if_splits)
  moreover have "lb_IsProofOfStake b \<Longrightarrow> ltx_IsCoinStake (lbVtx b ! 0)"
    using p by (simp add: check_stake_block_def lb_IsProofOfWork_def lb_IsProofOfStake_def split: if_splits)
  moreover have "lb_IsProofOfWork b \<or> lb_IsProofOfStake b" using p by (auto split: if_splits)
  ultimately show thesis using that [OF n d(1) _ t] d(2,3) by (simp add: not_less)
qed

end
