(* ===== verification/Legacy_Connect.thy ===== *)
theory Legacy_Connect
  imports Legacy_Trust
begin

text \<open>
  The outputs that are spent: the inputs of a legacy transaction, and what connecting and disconnecting it does to
  the legacy database (\<^verbatim>\<open>Legacy/transaction.cpp\<close>). Connecting sees the world of the other databases and changes
  the mint of the block.
\<close>

section \<open>Fetching the inputs\<close>

definition fetch_legacy :: "txin \<Rightarrow> legacy_db \<Rightarrow> prev res" where
  "fetch_legacy i D =
     (case Legacy_ReadTx (opHash (prevout i)) D of
        None \<Rightarrow> Inl (Reject ''tx not found'')
      | Some p \<Rightarrow>
          if unat (opN (prevout i)) \<ge> length (ltOut p) then Inl (Reject ''prevout is out of range'') else Inr (PrevLegacy p))"

definition fetch_input :: "env \<Rightarrow> ltx \<Rightarrow> txin \<Rightarrow> world \<Rightarrow> legacy_db \<Rightarrow> prev res" where
  "fetch_input E t i W D =
     (let h = opHash (prevout i); n = opN (prevout i) in
      if ucast (ltTime t) \<ge> StartBlockTimelock E 7 \<and> GetType h = TX_TRITIUM then
        (case ReadTx h FLAGS_BLOCK W of
           Some p \<Rightarrow>
             if unat n \<ge> length (vContracts p) then Inl (Reject ''prevout is out of range'')
             else rbind (tx_contract p n) (\<lambda>c.
             rbind (Primitive c) (\<lambda>op.
             if op \<noteq> OP_LEGACY then Inl (Reject ''cant spend from UTXO with no OP::LEGACY'') else Inr (PrevTritium p)))
         | None \<Rightarrow> fetch_legacy i D)
      else fetch_legacy i D)"

fun fetch_inputs :: "env \<Rightarrow> ltx \<Rightarrow> txin list \<Rightarrow> world \<Rightarrow> legacy_db \<Rightarrow> inputs \<Rightarrow> inputs res" where
  "fetch_inputs E t [] W D inputs = Inr inputs"
| "fetch_inputs E t (i # is) W D inputs =
     (if inputs (opHash (prevout i)) \<noteq> None then fetch_inputs E t is W D inputs
      else rbind (fetch_input E t i W D) (\<lambda>p. fetch_inputs E t is W D (inputs(opHash (prevout i) \<mapsto> p))))"

definition FetchInputs :: "env \<Rightarrow> ltx \<Rightarrow> world \<Rightarrow> legacy_db \<Rightarrow> inputs \<Rightarrow> inputs res" where
  "FetchInputs E t W D inputs = (if ltx_IsCoinBase t then Inr inputs else fetch_inputs E t (spending t) W D inputs)"

section \<open>Connecting\<close>

definition MaturityCoinStake :: "env \<Rightarrow> node \<Rightarrow> block_state \<Rightarrow> u32" where
  "MaturityCoinStake E N b =
     (if fTestNet E then 10 else if (if Block_IsNull b then nBestVersion N else bVersion b) < 7 then 100 else 250)"

definition in_block :: "u8 \<Rightarrow> bool" where
  "in_block nFlags \<longleftrightarrow> nFlags = FLAGS_BLOCK \<or> nFlags = FLAGS_MINER"

definition check_maturity :: "node \<Rightarrow> env \<Rightarrow> ltx \<Rightarrow> block_state \<Rightarrow> world \<Rightarrow> unit res" where
  "check_maturity N E p b W =
     (if ltx_IsCoinBase p \<or> ltx_IsCoinStake p then
        (case ReadBlock_tx (ltx_GetHash E p) W of
           None \<Rightarrow> Inl (Reject ''failed to read previous tx block'')
         | Some statePrev \<Rightarrow>
             if bHeight b - bHeight statePrev < (if ltx_IsCoinBase p then MaturityCoinBase E N (Some b) else MaturityCoinStake E N b)
             then Inl (Reject ''tried to spend immature balance'') else Inr ())
      else Inr ())"

text \<open>What both kinds of outputs go through: the range of the amounts, the double spend, the signature and the
  spend. The amounts are compared as signed numbers.\<close>

definition spend_output :: "bool \<Rightarrow> txin \<Rightarrow> txout \<Rightarrow> u8 \<Rightarrow> u64 \<times> legacy_db \<Rightarrow> (u64 \<times> legacy_db) res" where
  "spend_output fSigned i out nFlags = (\<lambda>(nValueIn, D).
     let nValueIn = nValueIn + nValue out; h = opHash (prevout i); n = opN (prevout i) in
     if \<not> MoneyRange (sint (nValue out)) \<or> \<not> MoneyRange (sint nValueIn) then Inl (Reject ''txin values out of range'')
     else if IsSpent h n D then Inl (Reject ''prev tx is already spent'')
     else if \<not> fSigned then Inl (Reject ''signature is invalid'')
     else Inr (nValueIn, if nFlags = FLAGS_BLOCK then WriteSpend h n D else D))"

definition connect_legacy_input :: "verify \<Rightarrow> bignum \<Rightarrow> node \<Rightarrow> env \<Rightarrow> ltx \<Rightarrow> ltx \<Rightarrow> nat \<Rightarrow> block_state \<Rightarrow> u8 \<Rightarrow> world \<Rightarrow>
    u64 \<times> legacy_db \<Rightarrow> (u64 \<times> legacy_db) res" where
  "connect_legacy_input V B N E t p k b nFlags W s =
     (let i = ltIn t ! k; n = unat (opN (prevout i)) in
      if in_block nFlags \<and> \<not> HasIndex (opHash (prevout i)) W then Inl (Reject ''Legacy tx not connected'')
      else if n \<ge> length (ltOut p) then Inl (Reject ''prevout is out of range'')
      else rbind (check_maturity N E p b W) (\<lambda>_.
        if ltTime p > ltTime t then Inl (Reject ''transaction timestamp earlier than input transaction'')
        else spend_output (fSynchronizing N \<or> VerifySignature V E B p t k 0) i (ltOut p ! n) nFlags s))"

definition connect_tritium_input :: "verify \<Rightarrow> bignum \<Rightarrow> node \<Rightarrow> env \<Rightarrow> ltx \<Rightarrow> tx \<Rightarrow> nat \<Rightarrow> inputs \<Rightarrow> u8 \<Rightarrow> world \<Rightarrow>
    u64 \<times> legacy_db \<Rightarrow> (u64 \<times> legacy_db) res" where
  "connect_tritium_input V B N E t p k inputs nFlags W s =
     (let i = ltIn t ! k; n = unat (opN (prevout i)) in
      if ucast (ltTime t) < StartBlockTimelock E 7 then
        Inl (Reject ''legacy spends of tritium inputs not available until version 7'')
      else if in_block nFlags \<and> \<not> HasIndex (opHash (prevout i)) W then Inl (Reject ''Tritium tx not connected'')
      else if n \<ge> length (vContracts p) then Inl (Reject ''prevout is out of range'')
      else rbind (IsCoinBase p) (\<lambda>fCoinBase. rbind (if fCoinBase then Inr True else IsCoinStake p) (\<lambda>fProducer.
        if fProducer then Inl (Reject ''cannot spend producer from UTXO'')
        else if txTimestamp p > ucast (ltTime t) then Inl (Reject ''transaction timestamp earlier than input transaction'')
        else rbind (GetOutputFor i inputs) (\<lambda>out.
          spend_output (fSynchronizing N \<or> opHash (prevout i) = txHash p \<and>
              VerifyScript E B (CheckSig V E t k 0) (scriptSig i) (scriptPubKey out)) i out nFlags s))))"

fun connect_inputs :: "verify \<Rightarrow> bignum \<Rightarrow> node \<Rightarrow> env \<Rightarrow> ltx \<Rightarrow> nat list \<Rightarrow> inputs \<Rightarrow> block_state \<Rightarrow> u8 \<Rightarrow> world \<Rightarrow>
    u64 \<times> legacy_db \<Rightarrow> (u64 \<times> legacy_db) res" where
  "connect_inputs V B N E t [] inputs b nFlags W s = Inr s"
| "connect_inputs V B N E t (k # ks) inputs b nFlags W s =
     rbind (case inputs (opHash (prevout (ltIn t ! k))) of
              None \<Rightarrow> Inl (Undefined ''assertion'')
            | Some (PrevLegacy p) \<Rightarrow> connect_legacy_input V B N E t p k b nFlags W s
            | Some (PrevTritium p) \<Rightarrow> connect_tritium_input V B N E t p k inputs nFlags W s)
       (connect_inputs V B N E t ks inputs b nFlags W)"

text \<open>An output to a register is an event for the owner of the register.\<close>

fun connect_events :: "env \<Rightarrow> ltx \<Rightarrow> txout list \<Rightarrow> u8 \<Rightarrow> world \<Rightarrow> legacy_db \<Rightarrow> legacy_db res" where
  "connect_events E t [] nFlags W D = Inr D"
| "connect_events E t (out # outs) nFlags W D =
     (case (if nFlags = FLAGS_BLOCK then ExtractRegister (scriptPubKey out) else None) of
        None \<Rightarrow> connect_events E t outs nFlags W D
      | Some hashTo \<Rightarrow>
          (case ReadState hashTo nFlags W of
             None \<Rightarrow> Inl (Reject ''failed to read register to'')
           | Some s \<Rightarrow> connect_events E t outs nFlags W (Legacy_WriteEvent (hashOwner s) (ltx_GetHash E t) D)))"

definition check_values :: "legacy_stake \<Rightarrow> ltx \<Rightarrow> u64 \<Rightarrow> block_state \<Rightarrow> world \<Rightarrow> legacy_db \<Rightarrow> unit res" where
  "check_values X t nValueIn b W D =
     (if ltx_IsCoinStake t then
        rbind (xReward X t b W D) (\<lambda>nStakeReward.
        let nValue0 = sint (nValue (ltOut t ! 0)) in
        if (of_int (if nValue0 < 0 then - (- nValue0 div 1000) else nValue0 div 1000) :: u64) > (nStakeReward + nValueIn) div 1000
        then Inl (Reject ''stake reward mismatch'') else Inr ())
      else rbind (GetValueOut t) (\<lambda>nValueOut.
        if nValueIn < nValueOut then Inl (Reject ''value in below value out'') else Inr ()))"

definition check_producer_script :: "ltx \<Rightarrow> block_state \<Rightarrow> unit res" where
  "check_producer_script t b =
     (let n = length (scriptSig (ltIn t ! 0)) in
      if n < 2 \<or> n > (if bVersion b < 5 then 100 else 144) then Inl (Reject ''coinbase/coinstake script invalid size'') else Inr ())"

text \<open>The mint of the block: what a coinbase pays, and for other transactions the difference of both values, cut to 32
  bits.\<close>

definition Legacy_Connect :: "legacy_stake \<Rightarrow> verify \<Rightarrow> bignum \<Rightarrow> node \<Rightarrow> env \<Rightarrow> ltx \<Rightarrow> inputs \<Rightarrow> u8 \<Rightarrow> world \<Rightarrow>
    block_state \<times> legacy_db \<Rightarrow> (block_state \<times> legacy_db) res" where
  "Legacy_Connect X V B N E t inputs nFlags W = (\<lambda>(b, D).
     rbind (if ltx_IsCoinStake t \<or> ltx_IsCoinBase t then check_producer_script t b else Inr ()) (\<lambda>_.
     if ltx_IsCoinBase t then
       if nFlags = FLAGS_BLOCK then rbind (GetValueOut t) (\<lambda>n. Inr (b\<lparr>bMint := ucast n\<rparr>, D)) else Inr (b, D)
     else
     rbind (if ltx_IsCoinStake t then connect_trust_key X N E t b W D else Inr D) (\<lambda>D.
     rbind (connect_inputs V B N E t [(if ltx_IsCoinStake t then 1 else 0)..<length (ltIn t)] inputs b nFlags W (0, D)) (\<lambda>(nValueIn, D).
     rbind (check_values X t nValueIn b W D) (\<lambda>_.
     rbind (if nFlags = FLAGS_BLOCK then rbind (GetValueOut t) (\<lambda>n. Inr (b\<lparr>bMint := bMint b + ucast (n - nValueIn)\<rparr>)) else Inr b) (\<lambda>b.
     rbind (connect_events E t (ltOut t) nFlags W D) (\<lambda>D. Inr (b, D))))))))"

section \<open>Disconnecting\<close>

fun erase_events :: "txout list \<Rightarrow> world \<Rightarrow> legacy_db \<Rightarrow> legacy_db res" where
  "erase_events [] W D = Inr D"
| "erase_events (out # outs) W D =
     (case ExtractRegister (scriptPubKey out) of
        None \<Rightarrow> erase_events outs W D
      | Some hashTo \<Rightarrow>
          (case ReadState hashTo FLAGS_BLOCK W of
             None \<Rightarrow> Inl (Reject ''failed to read register to'')
           | Some s \<Rightarrow>
               (case Legacy_EraseEvent (hashOwner s) D of
                  None \<Rightarrow> Inl (Reject ''failed to write event for account'')
                | Some D \<Rightarrow> erase_events outs W D)))"

definition erase_spends :: "txin list \<Rightarrow> legacy_db \<Rightarrow> legacy_db" where
  "erase_spends is D = foldl (\<lambda>D i. EraseSpend (opHash (prevout i)) (opN (prevout i)) D) D is"

definition Legacy_Disconnect :: "legacy_stake \<Rightarrow> node \<Rightarrow> ltx \<Rightarrow> block_state \<Rightarrow> world \<Rightarrow> legacy_db \<Rightarrow> legacy_db res" where
  "Legacy_Disconnect X N t b W D =
     rbind (if ltx_IsCoinBase t then Inr D else erase_events (ltOut t) W (erase_spends (spending t) D)) (\<lambda>D.
     if ltx_IsCoinStake t then revert_trust_key X N t b W D else Inr D)"

end
