(* ===== verification/Legacy_Laws_Connect.thy ===== *)
theory Legacy_Laws_Connect
  imports Legacy_Connect
begin

text \<open>
  Laws of connecting and disconnecting legacy transactions: amounts in range add up without wrapping around, what
  an accepted run over the inputs has spent, and that erasing the spends undoes it.
\<close>

section \<open>Amounts\<close>

definition money :: "txout \<Rightarrow> int" where
  "money out = sint (nValue out)"

definition total :: "txout list \<Rightarrow> int" where
  "total outs = sum_list (map money outs)"

lemma total_simps [simp]: "total [] = 0" "total (out # outs) = money out + total outs"
  by (simp_all add: total_def)

lemma MoneyRange_bounds: "MoneyRange n \<longleftrightarrow> 0 \<le> n \<and> n \<le> 50000000000000"
  by (simp add: MoneyRange_def MaxTxOut_def)

lemma money_uint: "MoneyRange (sint (w :: u64)) \<Longrightarrow> uint w = sint w"
  by (subst uint_sint) (auto simp: MoneyRange_bounds intro: take_bit_int_eq_self)

lemma sint_of_int: "MoneyRange n \<Longrightarrow> sint (of_int n :: u64) = n"
  by (simp add: MoneyRange_bounds signed_of_int signed_take_bit_int_eq_self)

lemma uint_of_int: "MoneyRange n \<Longrightarrow> uint (of_int n :: u64) = n"
  by (simp add: MoneyRange_bounds uint_word_of_int)

lemma sint_plus_range:
  assumes "MoneyRange (sint (a :: u64))" and "MoneyRange (sint b)"
  shows "sint (a + b) = sint a + sint b"
proof -
  have "sint (a + b) = signed_take_bit 63 (sint a + sint b)" by (simp add: sint_word_ariths)
  also have "\<dots> = sint a + sint b"
    using assms by (intro signed_take_bit_int_eq_self) (auto simp: MoneyRange_bounds)
  finally show ?thesis .
qed

lemma value_out_total:
  assumes "value_out outs n = Inr m"
  shows "m = n + total outs \<and> (outs \<noteq> [] \<longrightarrow> MoneyRange m) \<and> (\<forall>out \<in> set outs. MoneyRange (money out))"
  using assms
proof (induction outs n rule: value_out.induct)
  case (2 out outs n)
  then show ?case by (cases outs) (auto simp: Let_def money_def split: if_splits)
qed simp

lemma GetValueOut_total:
  assumes "GetValueOut t = Inr v"
  shows "uint v = total (ltOut t)" and "MoneyRange (total (ltOut t))" and "\<forall>out \<in> set (ltOut t). MoneyRange (money out)"
proof -
  obtain m where m: "value_out (ltOut t) 0 = Inr m" "v = of_int m" using assms by (auto simp: GetValueOut_def)
  have r: "m = total (ltOut t)" "MoneyRange m"
    using value_out_total [OF m(1)] m(1) by (cases "ltOut t"; auto simp: MoneyRange_bounds)+
  then show "uint v = total (ltOut t)" "MoneyRange (total (ltOut t))" "\<forall>out \<in> set (ltOut t). MoneyRange (money out)"
    using m(2) uint_of_int value_out_total [OF m(1)] by auto
qed

section \<open>Spending\<close>

definition spot :: "txin \<Rightarrow> u512 \<times> u32" where
  "spot i = (opHash (prevout i), opN (prevout i))"

lemma spend_output_Inr:
  assumes "spend_output f i out FLAGS_BLOCK (v, D) = Inr (v', D')" and "MoneyRange (sint v)"
  shows "MoneyRange (money out)" and "MoneyRange (sint v')" and "sint v' = sint v + money out" and "\<not> gSpent D (spot i)" and f
    and "D' = D\<lparr>gSpent := (gSpent D)(spot i := True)\<rparr>"
  using assms sint_plus_range [OF assms(2), of "nValue out"]
  by (auto simp: spend_output_def Let_def money_def spot_def IsSpent_def WriteSpend_def split: if_splits)

text \<open>One input of an accepted transaction: the output is there and unspent, the signature is valid, and the output is
  spent afterwards.\<close>

definition authorised :: "verify \<Rightarrow> bignum \<Rightarrow> node \<Rightarrow> env \<Rightarrow> ltx \<Rightarrow> nat \<Rightarrow> txout \<Rightarrow> bool" where
  "authorised V B N E t k out \<longleftrightarrow> fSynchronizing N \<or> VerifyScript E B (CheckSig V E t k 0) (scriptSig (ltIn t ! k)) (scriptPubKey out)"

definition connect_one :: "verify \<Rightarrow> bignum \<Rightarrow> node \<Rightarrow> env \<Rightarrow> ltx \<Rightarrow> nat \<Rightarrow> inputs \<Rightarrow> block_state \<Rightarrow> u8 \<Rightarrow> world \<Rightarrow>
    u64 \<times> legacy_db \<Rightarrow> (u64 \<times> legacy_db) res" where
  "connect_one V B N E t k inputs b nFlags W s =
     (case inputs (opHash (prevout (ltIn t ! k))) of
        None \<Rightarrow> Inl (Undefined ''assertion'')
      | Some (PrevLegacy p) \<Rightarrow> connect_legacy_input V B N E t p k b nFlags W s
      | Some (PrevTritium p) \<Rightarrow> connect_tritium_input V B N E t p k inputs nFlags W s)"

lemma connect_inputs_Cons:
  "connect_inputs V B N E t (k # ks) inputs b nFlags W s =
    rbind (connect_one V B N E t k inputs b nFlags W s) (connect_inputs V B N E t ks inputs b nFlags W)"
  by (simp add: connect_one_def)

declare connect_inputs.simps(2) [simp del]

lemma connect_one_Inr:
  assumes "connect_one V B N E t k inputs b FLAGS_BLOCK W s = Inr s'"
  obtains out f where "GetOutputFor (ltIn t ! k) inputs = Inr out" and "spend_output f (ltIn t ! k) out FLAGS_BLOCK s = Inr s'"
    and "f \<Longrightarrow> authorised V B N E t k out"
proof -
  obtain p where p: "inputs (opHash (prevout (ltIn t ! k))) = Some p"
    using assms by (auto simp: connect_one_def split: option.splits)
  show thesis
  proof (cases p)
    case (PrevLegacy q)
    then have c: "connect_legacy_input V B N E t q k b FLAGS_BLOCK W s = Inr s'" using assms p by (simp add: connect_one_def)
    let ?n = "unat (opN (prevout (ltIn t ! k)))"
    have "GetOutputFor (ltIn t ! k) inputs = Inr (ltOut q ! ?n)"
      using c p PrevLegacy by (auto simp: connect_legacy_input_def GetOutputFor_def Let_def split: if_splits)
    moreover have "spend_output (fSynchronizing N \<or> VerifySignature V E B q t k 0) (ltIn t ! k) (ltOut q ! ?n) FLAGS_BLOCK s = Inr s'"
      using c by (auto simp: connect_legacy_input_def Let_def split: if_splits)
    ultimately show thesis
      by (rule that) (auto simp: authorised_def VerifySignature_def Let_def split: if_splits)
  next
    case (PrevTritium q)
    then have c: "connect_tritium_input V B N E t q k inputs FLAGS_BLOCK W s = Inr s'" using assms p by (simp add: connect_one_def)
    obtain out where "GetOutputFor (ltIn t ! k) inputs = Inr out" and
      "spend_output (fSynchronizing N \<or> opHash (prevout (ltIn t ! k)) = txHash q \<and>
         VerifyScript E B (CheckSig V E t k 0) (scriptSig (ltIn t ! k)) (scriptPubKey out)) (ltIn t ! k) out FLAGS_BLOCK s = Inr s'"
      using c by (auto simp: connect_tritium_input_def Let_def split: if_splits)
    then show thesis by (rule that) (auto simp: authorised_def)
  qed
qed

lemma connect_inputs_spent:
  assumes "connect_inputs V B N E t ks inputs b FLAGS_BLOCK W (v, D) = Inr (v', D')" and "MoneyRange (sint v)"
  shows "\<exists>outs. list_all2 (\<lambda>k out. GetOutputFor (ltIn t ! k) inputs = Inr out \<and> MoneyRange (money out) \<and> authorised V B N E t k out) ks outs
      \<and> sint v' = sint v + total outs \<and> MoneyRange (sint v')
      \<and> distinct (map (\<lambda>k. spot (ltIn t ! k)) ks) \<and> (\<forall>k \<in> set ks. \<not> gSpent D (spot (ltIn t ! k)))
      \<and> D' = D\<lparr>gSpent := (\<lambda>x. x \<in> (\<lambda>k. spot (ltIn t ! k)) ` set ks \<or> gSpent D x)\<rparr>"
  using assms
proof (induction ks arbitrary: v D)
  case Nil
  then show ?case by (auto intro: exI [of _ "[]"])
next
  case (Cons k ks)
  let ?s = "\<lambda>k. spot (ltIn t ! k)"
  obtain v1 D1 where 1: "connect_one V B N E t k inputs b FLAGS_BLOCK W (v, D) = Inr (v1, D1)"
    and 2: "connect_inputs V B N E t ks inputs b FLAGS_BLOCK W (v1, D1) = Inr (v', D')"
    using Cons.prems(1) by (auto simp: connect_inputs_Cons)
  obtain out f where o: "GetOutputFor (ltIn t ! k) inputs = Inr out" "spend_output f (ltIn t ! k) out FLAGS_BLOCK (v, D) = Inr (v1, D1)"
      "f \<Longrightarrow> authorised V B N E t k out"
    using connect_one_Inr [OF 1] by metis
  note s = spend_output_Inr [OF o(2) Cons.prems(2)]
  obtain outs where outs: "list_all2 (\<lambda>k out. GetOutputFor (ltIn t ! k) inputs = Inr out \<and> MoneyRange (money out) \<and> authorised V B N E t k out) ks outs"
      "sint v' = sint v1 + total outs" "MoneyRange (sint v')" "distinct (map ?s ks)" "\<forall>k \<in> set ks. \<not> gSpent D1 (?s k)"
      "D' = D1\<lparr>gSpent := (\<lambda>x. x \<in> ?s ` set ks \<or> gSpent D1 x)\<rparr>"
    using Cons.IH [OF 2 s(2)] by blast
  have "D' = D\<lparr>gSpent := (\<lambda>x. x \<in> ?s ` set (k # ks) \<or> gSpent D x)\<rparr>"
    using outs(6) s(6) by (auto simp: fun_eq_iff)
  moreover have n: "?s j \<noteq> ?s k \<and> \<not> gSpent D (?s j)" if "j \<in> set ks" for j
    using outs(5) [rule_format, OF that] s(6) by (auto split: if_splits)
  then have "?s k \<notin> ?s ` set ks" "\<forall>j \<in> set ks. \<not> gSpent D (?s j)" by (metis imageE, blast)
  ultimately show ?case
    using outs o(1,3) s by (intro exI [of _ "out # outs"]) auto
qed

lemma connect_inputs_other_flags:
  assumes "connect_inputs V B N E t ks inputs b nFlags W (v, D) = Inr (v', D')" and "nFlags \<noteq> FLAGS_BLOCK"
  shows "D' = D"
  using assms(1)
proof (induction ks arbitrary: v D)
  case (Cons k ks)
  have "D1 = D" if "connect_one V B N E t k inputs b nFlags W (v, D) = Inr (v1, D1)" for v1 D1
    using that assms(2)
    by (auto simp: connect_one_def connect_legacy_input_def connect_tritium_input_def spend_output_def Let_def
        split: option.splits prev.splits if_splits)
  then show ?case using Cons by (auto simp: connect_inputs_Cons)
qed simp

section \<open>Undoing\<close>

lemma erase_spends_eq: "erase_spends is D = D\<lparr>gSpent := (\<lambda>x. x \<notin> spot ` set is \<and> gSpent D x)\<rparr>"
  by (induction "is" arbitrary: D) (auto simp: erase_spends_def EraseSpend_def spot_def fun_eq_iff)

lemma connect_events_none:
  "\<forall>out \<in> set outs. ExtractRegister (scriptPubKey out) = None \<Longrightarrow> connect_events E t outs nFlags W D = Inr D"
  by (induction outs) auto

lemma erase_events_none:
  "\<forall>out \<in> set outs. ExtractRegister (scriptPubKey out) = None \<Longrightarrow> erase_events outs W D = Inr D"
  by (induction outs) auto

lemma connect_events_spent: "connect_events E t outs nFlags W D = Inr D' \<Longrightarrow> gSpent D' = gSpent D \<and> gTx D' = gTx D"
  by (induction outs arbitrary: D) (auto simp: Legacy_WriteEvent_def Let_def split: option.splits if_splits)

text \<open>The inputs of a transaction that is no coinstake, by position and by themselves.\<close>

lemma spots_of_inputs: "map (\<lambda>k. spot (ltIn t ! k)) [0..<length (ltIn t)] = map spot (ltIn t)"
  by (auto intro: nth_equalityI)

lemma spots_of_all: "(\<lambda>k. spot (ltIn t ! k)) ` set [0..<length (ltIn t)] = spot ` set (ltIn t)"
  using arg_cong [OF spots_of_inputs [of t], of set] by (simp del: set_upt)

section \<open>A whole transaction\<close>

lemma legacy_connectE:
  assumes "Legacy_Connect X V B N E t inputs nFlags W (b, D) = Inr (b', D')"
    and "\<not> ltx_IsCoinBase t" and "\<not> ltx_IsCoinStake t"
  obtains v D1 n where "connect_inputs V B N E t [0..<length (ltIn t)] inputs b nFlags W (0, D) = Inr (v, D1)"
    and "GetValueOut t = Inr n" and "\<not> v < n"
    and "b' = (if nFlags = FLAGS_BLOCK then b\<lparr>bMint := bMint b + ucast (n - v)\<rparr> else b)"
    and "connect_events E t (ltOut t) nFlags W D1 = Inr D'"
proof -
  note c = assms(1) [unfolded Legacy_Connect_def prod.case]
  obtain v D1 where 1: "connect_inputs V B N E t [0..<length (ltIn t)] inputs b nFlags W (0, D) = Inr (v, D1)"
    and c: "rbind (check_values X t v b W D1) (\<lambda>_.
     rbind (if nFlags = FLAGS_BLOCK then rbind (GetValueOut t) (\<lambda>n. Inr (b\<lparr>bMint := bMint b + ucast (n - v)\<rparr>)) else Inr b) (\<lambda>b.
     rbind (connect_events E t (ltOut t) nFlags W D1) (\<lambda>D. Inr (b, D)))) = Inr (b', D')"
    using c assms(2,3) by (auto simp only: if_False simp_thms rbind_Inr elim!: rbind_pairE)
  obtain b1 where 2: "check_values X t v b W D1 = Inr ()"
    and 3: "(if nFlags = FLAGS_BLOCK then rbind (GetValueOut t) (\<lambda>n. Inr (b\<lparr>bMint := bMint b + ucast (n - v)\<rparr>)) else Inr b) = Inr b1"
    and c: "rbind (connect_events E t (ltOut t) nFlags W D1) (\<lambda>D. Inr (b1, D)) = Inr (b', D')"
    using c by (elim rbindE) simp
  obtain n where 4: "GetValueOut t = Inr n" "\<not> v < n"
    using 2 assms(3) unfolding check_values_def by (auto simp only: if_False elim!: rbindE if_InlE)
  have "b1 = (if nFlags = FLAGS_BLOCK then b\<lparr>bMint := bMint b + ucast (n - v)\<rparr> else b)"
    using 3 4(1) by (simp split: if_splits)
  moreover have "b1 = b'" "connect_events E t (ltOut t) nFlags W D1 = Inr D'" using c by simp_all
  ultimately show thesis using that [OF 1 4] by simp
qed

lemma ucast_difference:
  assumes "MoneyRange (sint (v :: u64))" and "uint n = m" and "MoneyRange m"
  shows "(ucast (n - v) :: u32) = of_int (m - sint v)"
proof -
  have d: "n - v = of_int (m - sint v)" using assms(2) by auto
  have "(ucast (of_int i :: u64) :: u32) = of_int i" for i
    by (rule bit_word_eqI) (simp add: bit_simps)
  then show ?thesis unfolding d .
qed

lemma legacy_connect_spends:
  assumes "Legacy_Connect X V B N E t inputs FLAGS_BLOCK W (b, D) = Inr (b', D')"
    and "\<not> ltx_IsCoinBase t" and "\<not> ltx_IsCoinStake t"
  shows "\<exists>outs.
      list_all2 (\<lambda>k out. GetOutputFor (ltIn t ! k) inputs = Inr out \<and> MoneyRange (money out) \<and> authorised V B N E t k out)
        [0..<length (ltIn t)] outs
    \<and> distinct (map spot (ltIn t)) \<and> (\<forall>i \<in> set (ltIn t). \<not> gSpent D (spot i))
    \<and> (\<forall>out \<in> set (ltOut t). MoneyRange (money out)) \<and> total (ltOut t) \<le> total outs \<and> MoneyRange (total outs)
    \<and> gSpent D' = (\<lambda>x. x \<in> spot ` set (ltIn t) \<or> gSpent D x) \<and> gTx D' = gTx D
    \<and> b' = b\<lparr>bMint := bMint b + of_int (total (ltOut t) - total outs)\<rparr>"
proof -
  obtain v D1 n where c: "connect_inputs V B N E t [0..<length (ltIn t)] inputs b FLAGS_BLOCK W (0, D) = Inr (v, D1)"
    and g: "GetValueOut t = Inr n" and l: "\<not> v < n" and b: "b' = b\<lparr>bMint := bMint b + ucast (n - v)\<rparr>"
    and e: "connect_events E t (ltOut t) FLAGS_BLOCK W D1 = Inr D'"
    using legacy_connectE [OF assms] by (metis (full_types))
  note o = GetValueOut_total [OF g]
  obtain outs where outs: "list_all2 (\<lambda>k out. GetOutputFor (ltIn t ! k) inputs = Inr out \<and> MoneyRange (money out) \<and> authorised V B N E t k out)
        [0..<length (ltIn t)] outs" "sint v = total outs" "MoneyRange (sint v)"
      "distinct (map (\<lambda>k. spot (ltIn t ! k)) [0..<length (ltIn t)])" "\<forall>k \<in> set [0..<length (ltIn t)]. \<not> gSpent D (spot (ltIn t ! k))"
      "D1 = D\<lparr>gSpent := (\<lambda>x. x \<in> (\<lambda>k. spot (ltIn t ! k)) ` set [0..<length (ltIn t)] \<or> gSpent D x)\<rparr>"
    using connect_inputs_spent [OF c] by (auto simp: MoneyRange_bounds)
  note s = spots_of_inputs [of t]
  have "total (ltOut t) \<le> total outs"
    using l o(1) money_uint [OF outs(3)] outs(2) by (simp add: word_less_def)
  moreover have "(ucast (n - v) :: u32) = of_int (total (ltOut t) - total outs)"
    using ucast_difference [OF outs(3) o(1) o(2)] outs(2) by simp
  moreover have "\<forall>i \<in> set (ltIn t). \<not> gSpent D (spot i)" using outs(5) by (auto simp: in_set_conv_nth)
  ultimately show ?thesis
    using outs(1-4,6) s o(3) b connect_events_spent [OF e] spots_of_all [of t] by (intro exI [of _ outs]) simp
qed

lemma legacy_connect_db:
  assumes "Legacy_Connect X V B N E t inputs FLAGS_BLOCK W (b, D) = Inr (b', D')"
    and "\<not> ltx_IsCoinBase t" and "\<not> ltx_IsCoinStake t"
    and "\<forall>out \<in> set (ltOut t). ExtractRegister (scriptPubKey out) = None"
  shows "D' = D\<lparr>gSpent := (\<lambda>x. x \<in> spot ` set (ltIn t) \<or> gSpent D x)\<rparr>"
proof -
  obtain v D1 where c: "connect_inputs V B N E t [0..<length (ltIn t)] inputs b FLAGS_BLOCK W (0, D) = Inr (v, D1)"
    and e: "connect_events E t (ltOut t) FLAGS_BLOCK W D1 = Inr D'"
    using legacy_connectE [OF assms(1-3)] by metis
  have "D' = D1" using e connect_events_none [OF assms(4)] by simp
  then show ?thesis using connect_inputs_spent [OF c] spots_of_all [of t] by (auto simp: MoneyRange_bounds)
qed

text \<open>Outside a block nothing is spent, but a spent output is refused as well.\<close>

lemma connect_inputs_unspent:
  assumes "connect_inputs V B N E t ks inputs b nFlags W (v, D) = Inr r" and "k \<in> set ks"
  shows "\<not> gSpent D (spot (ltIn t ! k))"
  using assms
proof (induction ks arbitrary: v D)
  case (Cons j ks)
  obtain v1 D1 where 1: "connect_one V B N E t j inputs b nFlags W (v, D) = Inr (v1, D1)"
    and 2: "connect_inputs V B N E t ks inputs b nFlags W (v1, D1) = Inr r"
    using Cons.prems(1) by (auto simp: connect_inputs_Cons)
  have "\<not> gSpent D (spot (ltIn t ! j))" "D1 = D \<or> D1 = D\<lparr>gSpent := (gSpent D)(spot (ltIn t ! j) := True)\<rparr>"
    using 1 by (auto simp: connect_one_def connect_legacy_input_def connect_tritium_input_def spend_output_def Let_def IsSpent_def
        WriteSpend_def spot_def split: option.splits prev.splits if_splits)
  then show ?case using Cons.IH [OF 2] Cons.prems(2) by (auto split: if_splits)
qed simp

lemma legacy_connect_unspent:
  assumes "Legacy_Connect X V B N E t inputs nFlags W (b, D) = Inr r"
    and "\<not> ltx_IsCoinBase t" and "\<not> ltx_IsCoinStake t" and "i \<in> set (ltIn t)"
  shows "\<not> gSpent D (spot i)"
proof -
  obtain b' D' where r: "r = (b', D')" by (cases r)
  obtain k where k: "k < length (ltIn t)" "i = ltIn t ! k" using assms(4) by (auto simp: in_set_conv_nth)
  obtain s where c: "connect_inputs V B N E t [0..<length (ltIn t)] inputs b nFlags W (0, D) = Inr s"
    using legacy_connectE [OF assms(1) [unfolded r] assms(2,3)] by metis
  show ?thesis using connect_inputs_unspent [OF c, of k] k by simp
qed

end
