(* ===== verification/Legacy_Code.thy ===== *)
theory Legacy_Code
  imports Legacy_Transaction
begin

text \<open>
  The bytes of a legacy transaction determine it: every part of it is written in a way that no other value of the
  part, whatever follows, can begin with the same bytes. The locale states this for one way of writing;
  it is interpreted for each that a transaction is made of.
\<close>

locale prefix_code =
  fixes ok :: "'a \<Rightarrow> bool" and enc :: "'a \<Rightarrow> byte list"
  assumes unique: "\<lbrakk>ok x; ok y; enc x @ r = enc y @ s\<rbrakk> \<Longrightarrow> x = y \<and> r = s"
begin

lemma same: "\<lbrakk>ok x; ok y; enc x = enc y\<rbrakk> \<Longrightarrow> x = y"
  using unique [of x y "[]" "[]"] by simp

lemma run:
  assumes "\<forall>x \<in> set xs. ok x" and "\<forall>y \<in> set ys. ok y" and "length xs = length ys"
    and "concat (map enc xs) @ r = concat (map enc ys) @ s"
  shows "xs = ys \<and> r = s"
  using assms
proof (induction xs arbitrary: ys)
  case (Cons x xs)
  then obtain y zs where y: "ys = y # zs" by (cases ys) auto
  then have "x = y" "concat (map enc xs) @ r = concat (map enc zs) @ s"
    using Cons.prems unique [of x y "concat (map enc xs) @ r" "concat (map enc zs) @ s"] by simp_all
  then show ?case using Cons.IH [of zs] Cons.prems y by simp
qed simp

end

section \<open>Numbers and strings\<close>

lemma ser_word_prefix:
  assumes "8 dvd LENGTH('a::len)" and "ser_word (v :: 'a word) @ r = ser_word w @ s"
  shows "v = w \<and> r = s"
  using assms by (auto intro: ser_word_inj)

interpretation code32: prefix_code "\<lambda>_. True" "ser_word :: u32 \<Rightarrow> byte list"
  by unfold_locales (rule ser_word_prefix, simp_all)

interpretation code64: prefix_code "\<lambda>_. True" "ser_word :: u64 \<Rightarrow> byte list"
  by unfold_locales (rule ser_word_prefix, simp_all)

interpretation code512: prefix_code "\<lambda>_. True" "ser_word :: u512 \<Rightarrow> byte list"
  by unfold_locales (rule ser_word_prefix, simp_all)

lemma small_bytes: "n < 253 \<Longrightarrow> unat (of_nat n :: u8) = n"
  by (simp add: unat_of_nat)

lemma WriteCompactSize_prefix:
  assumes "m < 2 ^ 64" and "n < 2 ^ 64" and "WriteCompactSize m @ r = WriteCompactSize n @ s"
  shows "m = n \<and> r = s"
proof -
  have b: "(of_nat k :: u8) \<noteq> 253" "(of_nat k :: u8) \<noteq> 254" "(of_nat k :: u8) \<noteq> 255" if "k < 253" for k
    using small_bytes [OF that] that by auto
  define tag :: "nat \<Rightarrow> u8" where
    "tag k = (if k < 253 then of_nat k else if k \<le> 0xffff then 253 else if k \<le> 0xffffffff then 254 else 255)" for k
  have "tag k = hd (WriteCompactSize k @ r)" for k r by (simp add: WriteCompactSize_def tag_def)
  then have t: "tag m = tag n" using assms(3) by metis
  have e: "(of_nat k :: u8) = of_nat l \<longleftrightarrow> k = l" if "k < 253" "l < 253" for k l
    using small_bytes [OF that(1)] small_bytes [OF that(2)] by metis
  have l: "le_bytes k m @ r = le_bytes k n @ s \<Longrightarrow> le_bytes k m = le_bytes k n \<and> r = s" for k by simp
  have i: "le_bytes k m = le_bytes k n \<Longrightarrow> m < 256 ^ k \<Longrightarrow> n < 256 ^ k \<Longrightarrow> m = n" for k
    by (rule le_bytes_inj)
  have "m < 253 \<longleftrightarrow> n < 253" using t b [of m] b [of n] by (auto simp: tag_def split: if_split_asm)
  moreover have "m \<le> 0xffff \<longleftrightarrow> n \<le> 0xffff" if "\<not> m < 253" "\<not> n < 253"
    using t that by (auto simp: tag_def split: if_split_asm)
  moreover have "m \<le> 0xffffffff \<longleftrightarrow> n \<le> 0xffffffff" if "\<not> m \<le> 0xffff" "\<not> n \<le> 0xffff"
    using t that by (auto simp: tag_def split: if_split_asm)
  ultimately consider "m < 253" "n < 253" | "253 \<le> m" "m \<le> 0xffff" "253 \<le> n" "n \<le> 0xffff"
    | "0xffff < m" "m \<le> 0xffffffff" "0xffff < n" "n \<le> 0xffffffff" | "0xffffffff < m" "0xffffffff < n"
    using not_le by blast
  then show ?thesis
  proof cases
    case 1
    then show ?thesis using assms(3) e by (simp add: WriteCompactSize_def)
  next
    case 2
    then have "le_bytes 2 m @ r = le_bytes 2 n @ s" using assms(3) by (simp add: WriteCompactSize_def del: le_bytes.simps)
    from l [OF this] have e: "le_bytes 2 m = le_bytes 2 n" "r = s" by blast+
    have "m = n" by (rule i [OF e(1)]) (use 2 in simp_all)
    then show ?thesis using e(2) by simp
  next
    case 3
    then have "le_bytes 4 m @ r = le_bytes 4 n @ s" using assms(3) by (simp add: WriteCompactSize_def del: le_bytes.simps)
    from l [OF this] have e: "le_bytes 4 m = le_bytes 4 n" "r = s" by blast+
    have "m = n" by (rule i [OF e(1)]) (use 3 in simp_all)
    then show ?thesis using e(2) by simp
  next
    case 4
    then have "le_bytes 8 m @ r = le_bytes 8 n @ s" using assms(3) by (simp add: WriteCompactSize_def del: le_bytes.simps)
    from l [OF this] have e: "le_bytes 8 m = le_bytes 8 n" "r = s" by blast+
    have "m = n" by (rule i [OF e(1)]) (use assms(1,2) in simp_all)
    then show ?thesis using e(2) by simp
  qed
qed

interpretation code_size: prefix_code "\<lambda>n. n < 2 ^ 64" WriteCompactSize
  by unfold_locales (rule WriteCompactSize_prefix)

interpretation code_bytes: prefix_code "\<lambda>bs. length bs < 2 ^ 64" ser_bytes
proof
  fix x y r s :: "byte list"
  assume o: "length x < 2 ^ 64" "length y < 2 ^ 64" and e: "ser_bytes x @ r = ser_bytes y @ s"
  have "WriteCompactSize (length x) @ x @ r = WriteCompactSize (length y) @ y @ s"
    using e unfolding ser_bytes_def append_assoc .
  from code_size.unique [OF o this] have "length x = length y" "x @ r = y @ s" by blast+
  then show "x = y \<and> r = s" using append_eq_append_conv [of x y r s] by blast
qed

section \<open>Inputs, outputs and transactions\<close>

text \<open>A vector of parts that are told apart, behind its length.\<close>

lemma ser_vec_prefix:
  assumes "prefix_code ok f" and "length xs < 2 ^ 64" and "length ys < 2 ^ 64" and "\<forall>x \<in> set xs. ok x" and "\<forall>y \<in> set ys. ok y"
    and "ser_vec f xs @ r = ser_vec f ys @ s"
  shows "xs = ys \<and> r = s"
proof -
  have "WriteCompactSize (length xs) @ concat (map f xs) @ r = WriteCompactSize (length ys) @ concat (map f ys) @ s"
    using assms(6) unfolding ser_vec_def append_assoc .
  from code_size.unique [OF assms(2,3) this] show ?thesis using prefix_code.run [OF assms(1,4,5)] by blast
qed

interpretation code_outpoint: prefix_code "\<lambda>_. True" ser_outpoint
proof
  fix x y :: outpoint and r s :: "byte list"
  assume "ser_outpoint x @ r = ser_outpoint y @ s"
  then have "ser_word (opHash x) @ ser_word (opN x) @ r = ser_word (opHash y) @ ser_word (opN y) @ s"
    unfolding ser_outpoint_def append_assoc .
  from code512.unique [OF TrueI TrueI this] have "opHash x = opHash y" "ser_word (opN x) @ r = ser_word (opN y) @ s" by blast+
  then show "x = y \<and> r = s" using code32.unique [OF TrueI TrueI] by (metis outpoint.equality old.unit.exhaust)
qed

definition txin_ok :: "txin \<Rightarrow> bool" where
  "txin_ok i \<longleftrightarrow> length (scriptSig i) < 2 ^ 64"

definition txout_ok :: "txout \<Rightarrow> bool" where
  "txout_ok out \<longleftrightarrow> length (scriptPubKey out) < 2 ^ 64"

interpretation code_txin: prefix_code txin_ok ser_txin
proof
  fix x y :: txin and r s :: "byte list"
  assume o: "txin_ok x" "txin_ok y" and "ser_txin x @ r = ser_txin y @ s"
  then have "ser_outpoint (prevout x) @ ser_bytes (scriptSig x) @ ser_word (inSequence x) @ r =
      ser_outpoint (prevout y) @ ser_bytes (scriptSig y) @ ser_word (inSequence y) @ s"
    unfolding ser_txin_def append_assoc by blast
  from code_outpoint.unique [OF TrueI TrueI this] have p: "prevout x = prevout y"
    and e: "ser_bytes (scriptSig x) @ ser_word (inSequence x) @ r = ser_bytes (scriptSig y) @ ser_word (inSequence y) @ s"
    by blast+
  from code_bytes.unique [OF o [unfolded txin_ok_def] e] have q: "scriptSig x = scriptSig y"
    and e: "ser_word (inSequence x) @ r = ser_word (inSequence y) @ s" by blast+
  from code32.unique [OF TrueI TrueI e] p q show "x = y \<and> r = s" by (cases x; cases y) simp
qed

interpretation code_txout: prefix_code txout_ok ser_txout
proof
  fix x y :: txout and r s :: "byte list"
  assume o: "txout_ok x" "txout_ok y" and "ser_txout x @ r = ser_txout y @ s"
  then have "ser_word (nValue x) @ ser_bytes (scriptPubKey x) @ r = ser_word (nValue y) @ ser_bytes (scriptPubKey y) @ s"
    unfolding ser_txout_def append_assoc by blast
  from code64.unique [OF TrueI TrueI this] have p: "nValue x = nValue y"
    and e: "ser_bytes (scriptPubKey x) @ r = ser_bytes (scriptPubKey y) @ s" by blast+
  from code_bytes.unique [OF o [unfolded txout_ok_def] e] p show "x = y \<and> r = s" by (cases x; cases y) simp
qed

text \<open>The sizes that the format can carry.\<close>

definition ltx_ok :: "ltx \<Rightarrow> bool" where
  "ltx_ok t \<longleftrightarrow> length (ltIn t) < 2 ^ 64 \<and> length (ltOut t) < 2 ^ 64 \<and> (\<forall>i \<in> set (ltIn t). txin_ok i) \<and>
     (\<forall>out \<in> set (ltOut t). txout_ok out)"

interpretation code_ltx: prefix_code ltx_ok ser_ltx
proof
  fix x y :: ltx and r s :: "byte list"
  assume "ltx_ok x" "ltx_ok y" and e: "ser_ltx x @ r = ser_ltx y @ s"
  then have o: "length (ltIn x) < 2 ^ 64" "length (ltIn y) < 2 ^ 64" "\<forall>i \<in> set (ltIn x). txin_ok i" "\<forall>i \<in> set (ltIn y). txin_ok i"
      "length (ltOut x) < 2 ^ 64" "length (ltOut y) < 2 ^ 64" "\<forall>i \<in> set (ltOut x). txout_ok i" "\<forall>i \<in> set (ltOut y). txout_ok i"
    by (auto simp: ltx_ok_def)
  have "ser_word (ltVersion x) @ ser_word (ltTime x) @ ser_vec ser_txin (ltIn x) @ ser_vec ser_txout (ltOut x) @ ser_word (nLockTime x) @ r =
      ser_word (ltVersion y) @ ser_word (ltTime y) @ ser_vec ser_txin (ltIn y) @ ser_vec ser_txout (ltOut y) @ ser_word (nLockTime y) @ s"
    using e unfolding ser_ltx_def append_assoc .
  from code32.unique [OF TrueI TrueI this] have v: "ltVersion x = ltVersion y" and e:
      "ser_word (ltTime x) @ ser_vec ser_txin (ltIn x) @ ser_vec ser_txout (ltOut x) @ ser_word (nLockTime x) @ r =
      ser_word (ltTime y) @ ser_vec ser_txin (ltIn y) @ ser_vec ser_txout (ltOut y) @ ser_word (nLockTime y) @ s" by blast+
  from code32.unique [OF TrueI TrueI e] have t: "ltTime x = ltTime y" and e:
      "ser_vec ser_txin (ltIn x) @ ser_vec ser_txout (ltOut x) @ ser_word (nLockTime x) @ r =
      ser_vec ser_txin (ltIn y) @ ser_vec ser_txout (ltOut y) @ ser_word (nLockTime y) @ s" by blast+
  from ser_vec_prefix [OF code_txin.prefix_code_axioms o(1-4) e] have i: "ltIn x = ltIn y" and e:
      "ser_vec ser_txout (ltOut x) @ ser_word (nLockTime x) @ r = ser_vec ser_txout (ltOut y) @ ser_word (nLockTime y) @ s" by blast+
  from ser_vec_prefix [OF code_txout.prefix_code_axioms o(5-8) e] have u: "ltOut x = ltOut y" and e:
      "ser_word (nLockTime x) @ r = ser_word (nLockTime y) @ s" by blast+
  from code32.unique [OF TrueI TrueI e] v t i u show "x = y \<and> r = s" by (cases x; cases y) simp
qed

end
