(* ===== verification/Legacy_Laws.thy ===== *)
theory Legacy_Laws
  imports Legacy_Eval
begin

text \<open>
  Laws of the script machine: evaluating one operation at a time, the limits that hold of every script that is
  evaluated, and the search for signatures.
\<close>

section \<open>One operation\<close>

abbreviation start_eval :: "stack \<Rightarrow> byte list \<Rightarrow> eval_state" where
  "start_eval st script \<equiv> \<lparr>evStack = st, evAlt = [], evExec = [], evOps = 0, evCode = script\<rparr>"

lemma eval_Nil [simp]: "eval_from E B C [] s = Some s"
  by (simp add: eval_from.simps)

lemma eval_GetOp:
  assumes "GetOp pc = Some (opcode, v, r)"
  shows "eval_from E B C pc s =
    (case eval_step E B C opcode v r s of None \<Rightarrow> None | Some s \<Rightarrow> eval_from E B C r s)"
proof -
  have "pc \<noteq> []" using assms by auto
  then show ?thesis using assms by (subst eval_from.simps) simp
qed

lemma eval_push:
  assumes "GetOp pc = Some (opcode, v, r)" and "opcode \<le> S_PUSHDATA4" and "length v \<le> 520" and "\<forall>f \<in> set (evExec s). f"
  shows "eval_from E B C pc s =
    (if length (evStack s) + length (evAlt s) < 1000 then eval_from E B C r (s\<lparr>evStack := v # evStack s\<rparr>) else None)"
proof -
  have n: "(opcode > S_16) = False" "disabled_op opcode = False" "(length v > 520) = False"
    using assms(2,3) by (auto simp: disabled_op_def word_less_nat_alt word_le_nat_alt)
  have f: "(\<forall>f \<in> set (evExec s). f) = True" using assms(4) by blast
  have "eval_step E B C opcode v r s =
    (if length (evStack s) + length (evAlt s) < 1000 then Some (s\<lparr>evStack := v # evStack s\<rparr>) else None)"
    unfolding eval_step_def Let_def f n using assms(2) by simp
  then show ?thesis by (simp add: eval_GetOp [OF assms(1)])
qed

lemma eval_push_data:
  assumes "length v \<le> 520" and "\<forall>f \<in> set (evExec s). f"
  shows "eval_from E B C (push_data v @ r) s =
    (if length (evStack s) + length (evAlt s) < 1000 then eval_from E B C r (s\<lparr>evStack := v # evStack s\<rparr>) else None)"
proof -
  obtain opcode where "GetOp (push_data v @ r) = Some (opcode, v, r)" "opcode \<le> S_PUSHDATA4"
    using GetOp_push_data [of v r] assms(1) by auto
  then show ?thesis using assms by (intro eval_push)
qed

lemma eval_push_hash:
  assumes "\<forall>f \<in> set (evExec s). f"
  shows "eval_from E B C (push_hash h @ r) s =
    (if length (evStack s) + length (evAlt s) < 1000 then eval_from E B C r (s\<lparr>evStack := ser_word h # evStack s\<rparr>) else None)"
  using assms by (intro eval_push [OF GetOp_push_hash]) auto

lemma eval_code:
  assumes "\<not> c \<le> S_16" and "\<not> disabled_op c" and "\<not> (S_IF \<le> c \<and> c \<le> S_ENDIF)" and "\<forall>f \<in> set (evExec s). f" and "evOps s < 201"
  shows "eval_from E B C (c # r) s =
    (case eval_op E B C c r (s\<lparr>evOps := evOps s + 1\<rparr>) of
       None \<Rightarrow> None
     | Some s \<Rightarrow> if length (evStack s) + length (evAlt s) > 1000 then None else eval_from E B C r s)"
proof -
  have p: "(c \<le> S_PUSHDATA4) = False" using assms(1) by (auto simp: word_le_nat_alt)
  have n: "(c > S_16) = True" "disabled_op c = False" "(S_IF \<le> c \<and> c \<le> S_ENDIF) = False"
    using assms(1-3) by (auto simp: not_le)
  have f: "(\<forall>f \<in> set (evExec s). f) = True" using assms(4) by blast
  have "GetOp (c # r) = Some (c, [], r)" using p by (intro GetOp_code) simp
  moreover have "eval_step E B C c [] r s =
    (case eval_op E B C c r (s\<lparr>evOps := evOps s + 1\<rparr>) of
       None \<Rightarrow> None
     | Some s \<Rightarrow> if length (evStack s) + length (evAlt s) > 1000 then None else Some s)"
    unfolding eval_step_def Let_def f n p using assms(5) by (simp add: f)
  ultimately show ?thesis by (simp add: eval_GetOp split: option.splits)
qed

lemma length_push_data: "length (push_data v) \<le> length v + 5"
  by (auto simp: push_data_def)

text \<open>The operations of the standard outputs, where all branches are executed and the count allows one more.\<close>

lemma eval_hash:
  assumes "\<forall>f \<in> set (evExec s). f" and "evOps s < 201" and "length (evStack s) + length (evAlt s) \<le> 1000"
  shows "eval_from E B C (S_HASH256 # r) s =
    (case evStack s of
       [] \<Rightarrow> None
     | x # st \<Rightarrow> eval_from E B C r (s\<lparr>evOps := evOps s + 1, evStack := ser_word (SK256 E x) # st\<rparr>))"
  using assms by (subst eval_code) (auto simp: disabled_op_def eval_op_def IsStackOp_def IsUnary_def IsBinary_def
      split: list.splits)

lemma eval_dup:
  assumes "\<forall>f \<in> set (evExec s). f" and "evOps s < 201"
  shows "eval_from E B C (S_DUP # r) s =
    (case evStack s of
       [] \<Rightarrow> None
     | x # st \<Rightarrow> if length (evStack s) + length (evAlt s) < 1000
         then eval_from E B C r (s\<lparr>evOps := evOps s + 1, evStack := x # x # st\<rparr>) else None)"
  using assms by (subst eval_code) (auto simp: disabled_op_def eval_op_def IsStackOp_def stack_op_def
      split: list.splits)

lemma eval_equal:
  assumes "\<forall>f \<in> set (evExec s). f" and "evOps s < 201" and "evStack s = b # a # st"
    and "length (evStack s) + length (evAlt s) \<le> 1000"
  shows "eval_from E B C (S_EQUAL # r) s =
      eval_from E B C r (s\<lparr>evOps := evOps s + 1, evStack := bool_bytes (a = b) # st\<rparr>)"
    and "eval_from E B C (S_EQUALVERIFY # r) s =
      (if a = b then eval_from E B C r (s\<lparr>evOps := evOps s + 1, evStack := st\<rparr>) else None)"
  using assms by (subst eval_code; auto simp: disabled_op_def eval_op_def IsStackOp_def equal_op_def push_test_def
      on_stack_def)+

lemma eval_checksig:
  assumes "\<forall>f \<in> set (evExec s). f" and "evOps s < 201" and "evStack s = pub # sig # st"
    and "length (evStack s) + length (evAlt s) \<le> 1000"
  shows "eval_from E B C (S_CHECKSIG # r) s =
      eval_from E B C r (s\<lparr>evOps := evOps s + 1,
        evStack := bool_bytes (C sig pub (snd (FindAndDelete (push_data sig) (evCode s)))) # st\<rparr>)"
  using assms by (subst eval_code) (auto simp: disabled_op_def eval_op_def IsStackOp_def IsUnary_def IsBinary_def
      checksig_op_def push_test_def on_stack_def)

lemma CastToBool_bool_bytes [simp]: "CastToBool (bool_bytes b) = b"
  by (simp add: bool_bytes_def)

lemma eval_pushes:
  assumes "\<forall>v \<in> set vs. length v \<le> 520" and "\<forall>f \<in> set (evExec s). f"
    and "length vs + length (evStack s) + length (evAlt s) \<le> 1000"
  shows "eval_from E B C (concat (map push_data vs) @ r) s = eval_from E B C r (s\<lparr>evStack := rev vs @ evStack s\<rparr>)"
  using assms
proof (induction vs arbitrary: s)
  case (Cons v vs)
  then show ?case by (simp add: eval_push_data)
qed simp

section \<open>Limits\<close>

text \<open>The operations of a script, with what each one pushes; a script whose last operation is cut off has none.\<close>

function operations :: "byte list \<Rightarrow> (u8 \<times> byte list) list option" where
  "operations pc =
     (if pc = [] then Some []
      else case GetOp pc of
        None \<Rightarrow> None
      | Some (opcode, v, r) \<Rightarrow> map_option (\<lambda>ops. (opcode, v) # ops) (operations r))"
  by pat_completeness auto
termination
  by (relation "measure length") (auto dest: GetOp_shorter)

declare operations.simps [simp del]

definition counted :: "(u8 \<times> byte list) list \<Rightarrow> (u8 \<times> byte list) list" where
  "counted ops = filter (\<lambda>(opcode, v). opcode > S_16) ops"

lemma counted_simps [simp]:
  "counted [] = []"
  "counted ((opcode, v) # ops) = (if opcode > S_16 then (opcode, v) # counted ops else counted ops)"
  by (simp_all add: counted_def)

lemma cond_op_ops: "cond_op opcode f s = Some s' \<Longrightarrow> evOps s' = evOps s \<and> evStack s' = drop (length (evStack s) - length (evStack s')) (evStack s)"
  by (auto simp: cond_op_def split: if_splits list.splits)

lemma multisig_op_ops: "multisig_op B C f code n st = Some (st', n') \<Longrightarrow> n \<le> n' \<and> n' \<le> 201"
  by (auto simp: multisig_op_def Let_def split: list.splits option.splits if_splits)

lemma on_stack_ops: "on_stack s st = Some s' \<Longrightarrow> evOps s' = evOps s"
  by (auto simp: on_stack_def)

lemma eval_op_ops:
  assumes "eval_op E B C opcode pc s = Some s'" and "evOps s \<le> 201"
  shows "evOps s \<le> evOps s' \<and> evOps s' \<le> 201"
  using assms unfolding eval_op_def
  by (auto split: if_splits list.splits dest: on_stack_ops multisig_op_ops)

lemma eval_step_limits:
  assumes "eval_step E B C opcode v pc s = Some s'" and "evOps s \<le> 201"
  shows "length v \<le> 520" and "\<not> disabled_op opcode" and "evOps s' \<le> 201"
    and "evOps s + (if opcode > S_16 then 1 else 0) \<le> evOps s'"
    and "length (evStack s') + length (evAlt s') \<le> 1000"
proof -
  define t where "t = (if opcode > S_16 then s\<lparr>evOps := evOps s + 1\<rparr> else s)"
  define f where "f \<longleftrightarrow> (\<forall>f \<in> set (evExec s). f)"
  have r: "(if length v > 520 then None else if opcode > S_16 \<and> evOps t > 201 then None else if disabled_op opcode then None
      else case (if f \<and> opcode \<le> S_PUSHDATA4 then Some (t\<lparr>evStack := v # evStack t\<rparr>)
                 else if S_IF \<le> opcode \<and> opcode \<le> S_ENDIF then cond_op opcode f t
                 else if f then eval_op E B C opcode pc t
                 else Some t) of
        None \<Rightarrow> None
      | Some s \<Rightarrow> if length (evStack s) + length (evAlt s) > 1000 then None else Some s) = Some s'"
    using assms(1) unfolding eval_step_def Let_def t_def f_def .
  have t: "evOps t = evOps s + (if opcode > S_16 then 1 else 0)" "evOps t \<le> 201"
    using assms(2) r by (auto simp: t_def split: if_splits)
  obtain u where u: "(if f \<and> opcode \<le> S_PUSHDATA4 then Some (t\<lparr>evStack := v # evStack t\<rparr>)
                 else if S_IF \<le> opcode \<and> opcode \<le> S_ENDIF then cond_op opcode f t
                 else if f then eval_op E B C opcode pc t
                 else Some t) = Some u"
    and v: "length v \<le> 520" "\<not> disabled_op opcode" "s' = u" "length (evStack u) + length (evAlt u) \<le> 1000"
    using r by (auto split: if_splits option.splits)
  have "evOps t \<le> evOps u \<and> evOps u \<le> 201"
    using u t(2) by (auto split: if_splits dest: cond_op_ops eval_op_ops)
  then show "length v \<le> 520" "\<not> disabled_op opcode" "evOps s' \<le> 201"
      "evOps s + (if opcode > S_16 then 1 else 0) \<le> evOps s'" "length (evStack s') + length (evAlt s') \<le> 1000"
    using v t by simp_all
qed

lemma eval_from_limits:
  assumes "eval_from E B C pc s = Some s'" and "evOps s \<le> 201" and "length (evStack s) + length (evAlt s) \<le> 1000"
  shows "\<exists>ops. operations pc = Some ops \<and> (\<forall>(opcode, v) \<in> set ops. \<not> disabled_op opcode \<and> length v \<le> 520)
      \<and> evOps s + int (length (counted ops)) \<le> evOps s' \<and> evOps s' \<le> 201
      \<and> length (evStack s') + length (evAlt s') \<le> 1000"
  using assms
proof (induction E B C pc s rule: eval_from.induct)
  case (1 E B C pc s)
  show ?case
  proof (cases "pc = []")
    case True
    then show ?thesis using "1.prems" by (simp add: eval_from.simps operations.simps)
  next
    case False
    obtain opcode v r t where o: "GetOp pc = Some (opcode, v, r)" and t: "eval_step E B C opcode v r s = Some t"
      and e: "eval_from E B C r t = Some s'"
      using "1.prems"(1) False by (subst (asm) eval_from.simps) (auto split: option.splits)
    note l = eval_step_limits [OF t "1.prems"(2)]
    obtain ops where ops: "operations r = Some ops" "\<forall>(opcode, v) \<in> set ops. \<not> disabled_op opcode \<and> length v \<le> 520"
      "evOps t + int (length (counted ops)) \<le> evOps s'" "evOps s' \<le> 201" "length (evStack s') + length (evAlt s') \<le> 1000"
      using "1.IH" [OF False o refl refl t e l(3,5)] by blast
    have "operations pc = Some ((opcode, v) # ops)" using False o ops(1) by (subst operations.simps) simp
    then show ?thesis using ops l by (auto split: if_splits)
  qed
qed

section \<open>Several signatures\<close>

text \<open>The keys that signed, in the order of the signatures.\<close>

definition signed_by :: "(byte list \<Rightarrow> byte list \<Rightarrow> bool) \<Rightarrow> stack \<Rightarrow> stack \<Rightarrow> bool" where
  "signed_by C sigs keys \<longleftrightarrow> (\<exists>ks \<in> set (subseqs keys). list_all2 C sigs ks)"

lemma signed_by_length: "signed_by C sigs keys \<Longrightarrow> length sigs \<le> length keys"
  by (auto simp: signed_by_def dest!: list_all2_lengthD list_emb_length)

lemma signed_by_Nil [simp]: "signed_by C [] keys"
  by (auto simp: signed_by_def intro: bexI [of _ "[]"])

lemma signed_by_Cons:
  "signed_by C (sig # sigs) (key # keys) \<longleftrightarrow> C sig key \<and> signed_by C sigs keys \<or> signed_by C (sig # sigs) keys"
proof
  assume "signed_by C (sig # sigs) (key # keys)"
  then obtain k ks where "subseq (k # ks) (key # keys)" "C sig k" "list_all2 C sigs ks"
    by (auto simp: signed_by_def list_all2_Cons1 simp del: subseqs.simps)
  then show "C sig key \<and> signed_by C sigs keys \<or> signed_by C (sig # sigs) keys"
    by (auto simp: signed_by_def list_all2_Cons1 simp del: subseqs.simps split: if_splits)
next
  assume "C sig key \<and> signed_by C sigs keys \<or> signed_by C (sig # sigs) keys"
  then show "signed_by C (sig # sigs) (key # keys)"
  proof
    assume "C sig key \<and> signed_by C sigs keys"
    then obtain ks where "C sig key" "subseq ks keys" "list_all2 C sigs ks" by (auto simp: signed_by_def)
    then show ?thesis by (auto simp: signed_by_def simp del: subseqs.simps intro!: bexI [of _ "key # ks"])
  next
    assume "signed_by C (sig # sigs) keys"
    then obtain ks where "subseq ks keys" "list_all2 C (sig # sigs) ks" by (auto simp: signed_by_def)
    then show ?thesis by (auto simp: signed_by_def simp del: subseqs.simps intro!: bexI [of _ ks] list_emb_Cons)
  qed
qed

lemma signed_by_drop:
  assumes "signed_by C (sig # sigs) keys"
  shows "signed_by C sigs keys"
proof -
  obtain k ks where "subseq (k # ks) keys" "list_all2 C sigs ks"
    using assms by (auto simp: signed_by_def list_all2_Cons1)
  then show ?thesis using subseq_Cons' [of k ks keys] by (auto simp: signed_by_def)
qed

text \<open>Taking a key for the first signature that it verifies loses nothing.\<close>

lemma signed_by_greedy: "C sig key \<Longrightarrow> signed_by C (sig # sigs) (key # keys) \<longleftrightarrow> signed_by C sigs keys"
  by (auto simp: signed_by_Cons dest: signed_by_drop)

lemma check_sigs_signed: "length sigs \<le> length keys \<Longrightarrow> check_sigs C sigs keys \<longleftrightarrow> signed_by C sigs keys"
proof (induction C sigs keys rule: check_sigs.induct)
  case (3 C sig sigs key keys)
  show ?case
  proof (cases "C sig key")
    case True
    then show ?thesis using "3.IH" [OF refl] "3.prems" by (simp add: signed_by_greedy)
  next
    case False
    then show ?thesis using "3.IH" [OF refl] "3.prems" by (auto simp: signed_by_Cons dest: signed_by_length)
  qed
qed simp_all

section \<open>The standard scripts\<close>

lemma eval_length_limit:
  assumes "EvalScript E B C script st = Some st'" and "length st \<le> 1000"
  shows "length st' \<le> 1000"
proof -
  obtain s where e: "eval_from E B C script (start_eval st script) = Some s" and s: "st' = evStack s"
    using assms(1) by (auto simp: EvalScript_def split: if_splits option.splits)
  show ?thesis using eval_from_limits [OF e] assms(2) s by auto
qed

lemma EvalScript_pushes:
  assumes "\<forall>v \<in> set vs. length v \<le> 520" and "length vs \<le> 1000" and "length (concat (map push_data vs)) \<le> 10000"
  shows "EvalScript E B C (concat (map push_data vs)) [] = Some (rev vs)"
  using assms eval_pushes [of vs "start_eval [] (concat (map push_data vs))" E B C "[]"] by (simp add: EvalScript_def)

lemma EvalScript_push_two:
  assumes "length sig \<le> 520" and "length pub \<le> 520"
  shows "EvalScript E B C (push_data sig @ push_data pub) [] = Some [pub, sig]"
proof -
  have "length (push_data sig @ push_data pub) \<le> 10000"
    using assms length_push_data [of sig] length_push_data [of pub] by simp
  then show ?thesis using assms EvalScript_pushes [of "[sig, pub]" E B C] by simp
qed

lemma EvalScript_push_one:
  assumes "length v \<le> 520"
  shows "EvalScript E B C (push_data v) [] = Some [v]"
  using assms EvalScript_pushes [of "[v]" E B C] length_push_data [of v] by simp

lemma EvalScript_hash_equal:
  assumes "length st < 1000" and "st = x # st'"
  shows "EvalScript E B C (SetPayToScriptHash E sub) st = Some (bool_bytes (ser_word (SK256 E x) = ser_word (SK256 E sub)) # st')"
  using assms by (simp add: EvalScript_def SetPayToScriptHash_def eval_hash eval_push_hash eval_equal push_hash_def [symmetric])
    (simp add: push_hash_def)

lemma ser_256_inj [simp]: "ser_word (h :: u256) = ser_word h' \<longleftrightarrow> h = h'"
  using ser_word_inj [of h h'] by auto

lemma EvalScript_key_hash:
  assumes "st = pub # sig # st'" and "length st < 999"
  shows "EvalScript E B C (SetNexusAddress False h) st =
    (if SK256 E pub = h
     then Some (bool_bytes (C sig pub (snd (FindAndDelete (push_data sig) (SetNexusAddress False h)))) # st') else None)"
proof -
  let ?p = "SetNexusAddress False h"
  have "eval_from E B C ?p (start_eval st ?p) =
    (if SK256 E pub = h
     then Some \<lparr>evStack = bool_bytes (C sig pub (snd (FindAndDelete (push_data sig) ?p))) # st', evAlt = [], evExec = [], evOps = 4,
       evCode = ?p\<rparr> else None)" (is "?l = ?r")
  proof -
    define s where "s = start_eval st ?p"
    have "eval_from E B C ([S_DUP, S_HASH256] @ push_hash h @ [S_EQUALVERIFY, S_CHECKSIG]) s = ?r"
      using assms by (simp add: s_def eval_dup eval_hash eval_push_hash eval_equal eval_checksig)
    then show ?thesis by (simp add: s_def SetNexusAddress_def)
  qed
  moreover have "length ?p \<le> 10000" by (simp add: SetNexusAddress_def push_hash_def)
  ultimately show ?thesis by (simp add: EvalScript_def)
qed

text \<open>A script that the code recognises as paying to the hash of a script compares 20 bytes with the 32 of a hash.\<close>

lemma EvalScript_script_hash:
  assumes "IsPayToScriptHash pk" and "EvalScript E B C pk st = Some st'" and "length st \<le> 1000"
  shows "\<exists>t. st' = [] # t"
proof -
  define h where "h = take 20 (drop 2 pk)"
  have l: "length pk = 23" and b: "pk ! 0 = S_HASH256" "pk ! 1 = 20" "pk ! 22 = S_EQUAL"
    using assms(1) by (auto simp: IsPayToScriptHash_def)
  have pk: "pk = S_HASH256 # 20 # h @ [S_EQUAL]"
  proof (rule nth_equalityI)
    show "length pk = length (S_HASH256 # 20 # h @ [S_EQUAL])" using l by (simp add: h_def)
    fix i assume "i < length pk"
    then show "pk ! i = (S_HASH256 # 20 # h @ [S_EQUAL]) ! i"
      using l b by (cases "i = 22") (auto simp: h_def nth_Cons nth_append split: nat.splits)
  qed
  have h: "length h = 20" using l by (simp add: h_def)
  have g: "GetOp (20 # h @ [S_EQUAL]) = Some (20, h, [S_EQUAL])" using h by (simp add: GetOp_def)
  obtain s where e: "eval_from E B C pk (start_eval st pk) = Some s" and s: "st' = evStack s"
    using assms(2) by (auto simp: EvalScript_def split: if_splits option.splits)
  have n: "(ser_word (SK256 E x) = h) = False" for x
    using h length_ser_word [of "SK256 E x"] by auto
  have "eval_from E B C (S_HASH256 # 20 # h @ [S_EQUAL]) (start_eval st pk) = Some s" using e pk by simp
  then obtain x t where st: "st = x # t"
    and u: "eval_from E B C (20 # h @ [S_EQUAL]) \<lparr>evStack = ser_word (SK256 E x) # t, evAlt = [], evExec = [], evOps = 1, evCode = pk\<rparr> = Some s"
    using assms(3) by (auto simp: eval_hash split: list.splits)
  then have "eval_from E B C [S_EQUAL] \<lparr>evStack = h # ser_word (SK256 E x) # t, evAlt = [], evExec = [], evOps = 1, evCode = pk\<rparr> = Some s"
    and "length (h # ser_word (SK256 E x) # t) \<le> 1000"
    using eval_push [OF g] h by (simp_all split: if_splits)
  then have "evStack s = bool_bytes (ser_word (SK256 E x) = h) # t" by (auto simp: eval_equal)
  then show ?thesis using s by (simp add: n bool_bytes_def)
qed

section \<open>Matching\<close>

text \<open>One operation of a script against one of a template other than a run of keys.\<close>

lemma match_op:
  assumes "GetOp pc1 = Some (c, v, r)" and "\<not> t \<le> S_PUSHDATA4" and "t \<noteq> S_PUBKEYS"
  shows "match_script pc1 (t # pc2) acc =
    (if t = S_PUBKEY then if length v < 33 \<or> length v > 120 then None else match_script r pc2 (acc @ [v])
     else if t = S_PUBKEYHASH then if length v \<noteq> 32 then None else match_script r pc2 (acc @ [v])
     else if t = S_SMALLINTEGER then
       if c = S_0 \<or> S_1 \<le> c \<and> c \<le> S_16 then match_script r pc2 (acc @ [[of_int (DecodeOP_N c)]]) else None
     else if c \<noteq> t \<or> v \<noteq> [] then None
     else match_script r pc2 acc)"
  using assms GetOp_code [OF assms(2)] by (subst match_script.simps) (simp add: Let_def)

lemma match_keys:
  assumes "GetOp pc1 = Some (c, v, r)" and "\<not> t \<le> S_PUSHDATA4" and "t \<noteq> S_PUBKEYS"
    and "take_pubkeys acc c v r = (acc', c', v', r')" and "c' # r' = pc'" and "GetOp pc' = Some (c', v', r')"
  shows "match_script pc1 (S_PUBKEYS # t # pc2) acc = match_script pc' (t # pc2) acc'"
  using assms GetOp_code [OF assms(2)]
  by (subst (1 2) match_script.simps) (simp add: Let_def GetOp_def)

lemma match_end [simp]: "match_script [] [] acc = Some acc"
  by (simp add: match_script.simps)

lemma take_pubkeys_run:
  assumes "\<forall>k \<in> set ks. 33 \<le> length k \<and> length k \<le> 120" and "\<not> c \<le> S_PUSHDATA4"
    and "GetOp (concat (map push_data ks) @ c # r) = Some (c0, v0, r0)"
  shows "take_pubkeys acc c0 v0 r0 = (acc @ ks, c, [], r)"
  using assms(1,3)
proof (induction ks arbitrary: acc c0 v0 r0)
  case Nil
  then show ?case using GetOp_code [OF assms(2)] by (simp add: take_pubkeys.simps)
next
  case (Cons k ks)
  let ?r = "concat (map push_data ks) @ c # r"
  have "length k < 2 ^ 32" using Cons.prems(1) by auto
  then have o: "v0 = k" "r0 = ?r" using GetOp_push_data [of k ?r] Cons.prems(2) by auto
  obtain c1 v1 r1 where n: "GetOp ?r = Some (c1, v1, r1)"
  proof (cases ks)
    case Nil
    then show thesis using that GetOp_code [OF assms(2)] by simp
  next
    case (Cons k' ks')
    then have "length k' < 2 ^ 32" using Cons.prems(1) by auto
    then show thesis using that GetOp_push_data [of k' "concat (map push_data ks') @ c # r"] Cons by auto
  qed
  have "take_pubkeys acc c0 v0 r0 = take_pubkeys (acc @ [k]) c1 v1 r1"
    using Cons.prems(1) o n by (subst take_pubkeys.simps) simp
  then show ?case using Cons.IH [OF _ n, of "acc @ [k]"] Cons.prems(1) by simp
qed

lemma EncodeOP_N:
  assumes "1 \<le> n" and "n \<le> 16"
  shows "S_1 \<le> EncodeOP_N n" and "EncodeOP_N n \<le> S_16" and "DecodeOP_N (EncodeOP_N n) = int n"
proof -
  have "(EncodeOP_N n :: u8) = of_nat (0x50 + n)" using assms by (simp add: EncodeOP_N_def)
  moreover have "unat (of_nat (0x50 + n) :: u8) = 0x50 + n" using assms by (simp only: unat_of_nat) simp
  ultimately have u: "unat (EncodeOP_N n) = 0x50 + n" by simp
  then show "S_1 \<le> EncodeOP_N n" "EncodeOP_N n \<le> S_16" using assms by (simp_all add: word_le_nat_alt)
  have "EncodeOP_N n \<noteq> 0" using u by auto
  moreover have "uint (EncodeOP_N n) = 0x50 + int n" using u by (simp add: uint_nat)
  ultimately show "DecodeOP_N (EncodeOP_N n) = int n" by (simp add: DecodeOP_N_def)
qed

end
