(* ===== verification/Legacy_Properties.thy ===== *)
theory Legacy_Properties
  imports Legacy_Laws Samples
begin

text \<open>
  Properties of the legacy scripts: the standard outputs and what spends them, the limits of an evaluation,
  the search for signatures, and what the standard scripts are recognised as.
\<close>

section \<open>A library of big numbers\<close>

text \<open>The documented format of the library: four bytes of length, then the magnitude from its highest byte, whose first bit is
  the sign.\<close>

fun nat_bytes :: "nat \<Rightarrow> byte list" where
  "nat_bytes n = (if n = 0 then [] else of_nat n # nat_bytes (n div 256))"

declare nat_bytes.simps [simp del]

definition mpi_bytes :: "int \<Rightarrow> byte list" where
  "mpi_bytes n =
     (let b = nat_bytes (nat \<bar>n\<bar>); b = (if b \<noteq> [] \<and> last b \<ge> 0x80 then b @ [0] else b) in
      rev (if n < 0 then butlast b @ [last b + 0x80] else b))"

definition mpi_int :: "byte list \<Rightarrow> int" where
  "mpi_int m =
     (case drop 4 m of
        [] \<Rightarrow> 0
      | b # bs \<Rightarrow>
          if b \<ge> 0x80 then - int (le_nat (rev ((b - 0x80) # bs))) else int (le_nat (rev (b # bs))))"

definition sample_bn :: bignum where
  "sample_bn = \<lparr>BN_mpi2bn = mpi_int, BN_bn2mpi = (\<lambda>n. rev (le_bytes 4 (length (mpi_bytes n))) @ mpi_bytes n),
     BN_get_word = (\<lambda>n. of_int \<bar>n\<bar>)\<rparr>"

section \<open>Recognising the standard scripts\<close>

lemma Solver_key_hash: "Solver (SetNexusAddress False h) = (True, TX_PUBKEYHASH, [ser_word h])"
proof -
  have "GetOp (S_DUP # r) = Some (S_DUP, [], r)" "GetOp (S_HASH256 # r) = Some (S_HASH256, [], r)"
    "GetOp (S_EQUALVERIFY # r) = Some (S_EQUALVERIFY, [], r)" "GetOp (S_CHECKSIG # r) = Some (S_CHECKSIG, [], r)" for r
    by (auto intro!: GetOp_code)
  note m = match_op [OF this(1)] match_op [OF this(2)] match_op [OF this(3)] match_op [OF this(4)]
    match_op [OF GetOp_push_hash]
  show ?thesis
    by (simp add: Solver_def SetNexusAddress_def IsPayToScriptHash_def template_pubkey_def template_pubkeyhash_def m)
qed

lemma Solver_multisig:
  assumes "1 \<le> m" and "m \<le> length keys" and "length keys \<le> 16"
    and "\<forall>k \<in> set keys. 33 \<le> length k \<and> length k \<le> 120"
  shows "Solver (SetMultisig m keys) = (True, TX_MULTISIG, [of_nat m] # keys @ [[of_nat (length keys)]])"
proof -
  let ?n = "EncodeOP_N (length keys)"
  have em: "S_1 \<le> EncodeOP_N m" "EncodeOP_N m \<le> S_16" "DecodeOP_N (EncodeOP_N m) = int m"
    and en: "S_1 \<le> ?n" "?n \<le> S_16" "DecodeOP_N ?n = int (length keys)"
    using EncodeOP_N [of m] EncodeOP_N [of "length keys"] assms by auto
  have nm: "\<not> EncodeOP_N m \<le> S_PUSHDATA4" "\<not> ?n \<le> S_PUSHDATA4" using em(1) en(1) by (auto simp: word_le_nat_alt)
  have g: "GetOp (EncodeOP_N m # r) = Some (EncodeOP_N m, [], r)" "GetOp (?n # r) = Some (?n, [], r)"
    "GetOp (S_CHECKMULTISIG # r) = Some (S_CHECKMULTISIG, [], r)" for r
    using nm by (auto intro!: GetOp_code)
  let ?r = "concat (map push_data keys) @ [?n, S_CHECKMULTISIG]"
  obtain c v r where o: "GetOp ?r = Some (c, v, r)"
  proof -
    obtain k ks where k: "keys = k # ks" using assms(1,2) by (cases keys) auto
    then have "length k < 2 ^ 32" using assms(4) by auto
    then show thesis using that GetOp_push_data [of k "concat (map push_data ks) @ [?n, S_CHECKMULTISIG]"] k by auto
  qed
  have t: "take_pubkeys acc c v r = (acc @ keys, ?n, [], [S_CHECKMULTISIG])" for acc
    using take_pubkeys_run [OF assms(4) nm(2)] o by simp
  have "match_script (SetMultisig m keys) template_multisig [] =
      match_script ?r [S_PUBKEYS, S_SMALLINTEGER, S_CHECKMULTISIG] [[of_nat m]]"
    using em by (simp add: SetMultisig_def template_multisig_def match_op [OF g(1)])
  also have "\<dots> = match_script [?n, S_CHECKMULTISIG] [S_SMALLINTEGER, S_CHECKMULTISIG] ([of_nat m] # keys)"
    by (subst match_keys [OF o _ _ t refl g(2)]) simp_all
  also have "\<dots> = Some ([of_nat m] # keys @ [[of_nat (length keys)]])"
    using en by (simp add: match_op [OF g(2)] match_op [OF g(3)])
  finally have f: "match_script (SetMultisig m keys) template_multisig [] = Some ([of_nat m] # keys @ [[of_nat (length keys)]])" .
  have d: "EncodeOP_N m \<noteq> S_DUP" "EncodeOP_N m \<noteq> S_HASH256" using em(2) by auto
  have z: "match_script (SetMultisig m keys) template_pubkey [] = None"
      "match_script (SetMultisig m keys) template_pubkeyhash [] = None"
    using d by (simp_all add: SetMultisig_def template_pubkey_def template_pubkeyhash_def match_op [OF g(1)])
  have p: "\<not> IsPayToScriptHash (SetMultisig m keys)" using d by (simp add: IsPayToScriptHash_def SetMultisig_def)
  have u: "unat (of_nat m :: u8) = m" "unat (of_nat (length keys) :: u8) = length keys"
    using assms(1-3) by (simp_all add: unat_of_nat)
  have "keys \<noteq> []" using assms(1,2) by auto
  then show ?thesis using p z f u assms(1-3) by (simp add: Solver_def word_less_nat_alt)
qed

lemma Solver_script_hash: "Solver (SetPayToScriptHash E sub) = (False, TX_NONSTANDARD, [])"
proof -
  have g: "GetOp (S_HASH256 # r) = Some (S_HASH256, [], r)" for r by (auto intro!: GetOp_code)
  have "match_script (SetPayToScriptHash E sub) template_multisig [] = None"
    by (simp add: SetPayToScriptHash_def template_multisig_def match_op [OF g])
  moreover have "match_script (SetPayToScriptHash E sub) template_pubkey [] = None"
      "match_script (SetPayToScriptHash E sub) template_pubkeyhash [] = None"
    by (simp_all add: SetPayToScriptHash_def template_pubkey_def template_pubkeyhash_def match_op [OF g])
  moreover have "\<not> IsPayToScriptHash (SetPayToScriptHash E sub)" by (simp add: IsPayToScriptHash_def SetPayToScriptHash_def push_hash_def)
  ultimately show ?thesis by (simp add: Solver_def)
qed

lemma verify_key_hash:
  assumes "length sig \<le> 520" and "length pub \<le> 520"
  shows "VerifyScript E B C (push_data sig @ push_data pub) (SetNexusAddress False h) \<longleftrightarrow>
    SK256 E pub = h \<and> C sig pub (snd (FindAndDelete (push_data sig) (SetNexusAddress False h)))"
proof -
  have "\<not> IsPayToScriptHash (SetNexusAddress False h)"
    by (simp add: IsPayToScriptHash_def SetNexusAddress_def push_hash_def)
  then show ?thesis
    using EvalScript_push_two [OF assms] EvalScript_key_hash [of "[pub, sig]" pub sig "[]" E B C h]
    by (simp add: VerifyScript_def)
qed

section \<open>Properties\<close>

text \<open>C17. An output that pays to the hash of a key, spent by a signature and a key, is spent exactly when the key has
  that hash and the signature verifies with it over the script less the signature: nothing else decides.\<close>

theorem key_hash_spent:
  assumes "length sig \<le> 520" and "length pub \<le> 520"
  shows "VerifyScript E B C (push_data sig @ push_data pub) (SetNexusAddress False h) \<longleftrightarrow>
    SK256 E pub = h \<and> C sig pub (snd (FindAndDelete (push_data sig) (SetNexusAddress False h)))"
  by (rule verify_key_hash [OF assms])

theorem key_hash_spent_witness:
  "VerifyScript node_2020 sample_bn (\<lambda>sig pub code. sig = [1]) (push_data [1] @ push_data [2]) (SetNexusAddress False (SK256 node_2020 [2]))"
  using key_hash_spent [of "[1]" "[2]" node_2020 sample_bn "\<lambda>sig pub code. sig = [1]" "SK256 node_2020 [2]"] by simp

text \<open>C18. The node's own output that pays to the hash of a script has 35 bytes, and the test for such outputs asks for 23:
  the output is spent by showing the script, which is never evaluated, whatever it demands.\<close>

theorem script_hash_not_executed:
  assumes "length sub \<le> 520" and "sub \<noteq> []"
  shows "VerifyScript E B C (push_data sub) (SetPayToScriptHash E sub)"
proof -
  have "\<not> IsPayToScriptHash (SetPayToScriptHash E sub)"
    by (simp add: IsPayToScriptHash_def SetPayToScriptHash_def push_hash_def)
  then show ?thesis
    using EvalScript_push_one [OF assms(1)] EvalScript_hash_equal [of "[sub]" sub "[]" E B C sub]
    by (simp add: VerifyScript_def)
qed

theorem script_hash_not_executed_witness:
  "VerifyScript node_2020 sample_bn (\<lambda>sig pub code. False) (push_data [S_0, S_RETURN]) (SetPayToScriptHash node_2020 [S_0, S_RETURN])
    \<and> EvalScript node_2020 sample_bn (\<lambda>sig pub code. False) [S_0, S_RETURN] [] = None"
proof -
  have "GetOp [S_0, S_RETURN] = Some (S_0, [], [S_RETURN])" by (simp add: GetOp_def)
  then have "eval_from node_2020 sample_bn (\<lambda>sig pub code. False) [S_0, S_RETURN] (start_eval [] [S_0, S_RETURN]) = None"
    by (subst eval_push) (auto simp: eval_code disabled_op_def eval_op_def IsStackOp_def IsUnary_def IsBinary_def)
  then have "EvalScript node_2020 sample_bn (\<lambda>sig pub code. False) [S_0, S_RETURN] [] = None" by (simp add: EvalScript_def)
  then show ?thesis
    using script_hash_not_executed [of "[S_0, S_RETURN]" node_2020 sample_bn "\<lambda>sig pub code. False"] by simp
qed

text \<open>C19. An output that the test does recognise as paying to the hash of a script holds 20 bytes, which are compared with a
  hash of 32: no input ever spends it.\<close>

theorem recognised_script_hash_unspendable:
  assumes "IsPayToScriptHash pk"
  shows "\<not> VerifyScript E B C scriptSig pk"
proof
  assume v: "VerifyScript E B C scriptSig pk"
  obtain st st' where e: "EvalScript E B C scriptSig [] = Some st" "EvalScript E B C pk st = Some st'"
      "st' \<noteq> []" "CastToBool (hd st')"
    using v by (auto simp: VerifyScript_def split: option.splits if_splits)
  have "length st \<le> 1000" using eval_length_limit [OF e(1)] by simp
  then show False using EvalScript_script_hash [OF assms e(2)] e(4) by auto
qed

theorem recognised_script_hash_unspendable_witness:
  "\<not> VerifyScript node_2020 sample_bn (\<lambda>sig pub code. True) (push_data [1]) (S_HASH256 # 20 # replicate 20 0 @ [S_EQUAL])"
  using recognised_script_hash_unspendable [of "S_HASH256 # 20 # replicate 20 0 @ [S_EQUAL]" node_2020 sample_bn "\<lambda>sig pub code. True" "push_data [1]"]
  by (simp add: IsPayToScriptHash_def nth_append)

text \<open>C20. An evaluation that succeeds stays within the limits, in the branches it skips too: the script has at most 10000
  bytes, it is read to its end, none of its operations is disabled or pushes more than 520 bytes, at most 201 of them do
  more than push a value, and it leaves at most 1000 values.\<close>

theorem evaluation_within_limits:
  assumes "EvalScript E B C script st = Some st'" and "length st \<le> 1000"
  shows "length script \<le> 10000
    \<and> (\<exists>ops. operations script = Some ops \<and> (\<forall>(opcode, v) \<in> set ops. \<not> disabled_op opcode \<and> length v \<le> 520)
        \<and> length (counted ops) \<le> 201)
    \<and> length st' \<le> 1000"
proof -
  obtain s where e: "eval_from E B C script (start_eval st script) = Some s" and s: "st' = evStack s"
    and n: "length script \<le> 10000"
    using assms(1) by (auto simp: EvalScript_def split: if_splits option.splits)
  then show ?thesis using eval_from_limits [OF e] assms(2) by fastforce
qed

theorem evaluation_within_limits_witness:
  "length (push_data [7]) \<le> 10000
    \<and> (\<exists>ops. operations (push_data [7]) = Some ops \<and> (\<forall>(opcode, v) \<in> set ops. \<not> disabled_op opcode \<and> length v \<le> 520)
        \<and> length (counted ops) \<le> 201)
    \<and> length [[7 :: u8]] \<le> 1000"
proof -
  have "EvalScript node_2020 sample_bn (\<lambda>sig pub code. True) (push_data [7]) [] = Some [[7]]"
    by (simp add: EvalScript_push_one)
  from evaluation_within_limits [OF this] show ?thesis by simp
qed

text \<open>C21. The search that takes each key for the next signature it verifies, and gives up when fewer keys than signatures are
  left, finds the signatures exactly when there is any choice of keys, in the order of the signatures, that verifies them all.\<close>

theorem signature_search_complete:
  assumes "length sigs \<le> length keys"
  shows "check_sigs C sigs keys \<longleftrightarrow> signed_by C sigs keys"
  by (rule check_sigs_signed [OF assms])

theorem signature_search_complete_witness:
  "check_sigs (\<lambda>sig key. sig = key \<or> key = [3]) [[1], [2]] [[3], [1], [2]]
    = signed_by (\<lambda>sig key. sig = key \<or> key = [3]) [[1], [2]] [[3], [1], [2 :: u8]]"
  using signature_search_complete [of "[[1], [2]]" "[[3], [1], [2 :: u8]]" "\<lambda>sig key. sig = key \<or> key = [3]"] by simp

text \<open>An input that only pushes values leaves exactly these on the stack, the last on top: what is written is read back.\<close>

theorem pushes_read_back:
  assumes "\<forall>v \<in> set vs. length v \<le> 520" and "length vs \<le> 1000" and "length (concat (map push_data vs)) \<le> 10000"
  shows "EvalScript E B C (concat (map push_data vs)) [] = Some (rev vs)"
  by (rule EvalScript_pushes [OF assms])

theorem pushes_read_back_witness:
  "EvalScript node_2020 sample_bn (\<lambda>sig pub code. True) (concat (map push_data [[1, 2], [], replicate 300 7])) [] = Some [replicate 300 7, [], [1, 2]]"
  using pushes_read_back [of "[[1, 2], [], replicate 300 7]" node_2020 sample_bn "\<lambda>sig pub code. True"] by (simp add: push_data_def)

text \<open>C22. The script that asks for several signatures is recognised as such, with the numbers and the keys it was written from
  (up to 16 keys of 33 to 120 bytes); the output that pays to the hash of a key with the hash; but the output that
  the node itself writes to pay to the hash of a script is recognised as nothing.\<close>

theorem standard_scripts_recognised:
  assumes "1 \<le> m" and "m \<le> length keys" and "length keys \<le> 16"
    and "\<forall>k \<in> set keys. 33 \<le> length k \<and> length k \<le> 120"
  shows "Solver (SetMultisig m keys) = (True, TX_MULTISIG, [of_nat m] # keys @ [[of_nat (length keys)]])
    \<and> Solver (SetNexusAddress False h) = (True, TX_PUBKEYHASH, [ser_word h])
    \<and> Solver (SetPayToScriptHash E sub) = (False, TX_NONSTANDARD, []) \<and> \<not> IsStandard (SetPayToScriptHash E sub)"
  using Solver_multisig [OF assms] by (simp add: Solver_key_hash Solver_script_hash IsStandard_def)

theorem standard_scripts_recognised_witness:
  "Solver (SetMultisig 1 [replicate 33 5]) = (True, TX_MULTISIG, [[1], replicate 33 5, [1]])
    \<and> Solver (SetNexusAddress False 1) = (True, TX_PUBKEYHASH, [ser_word (1 :: u256)])
    \<and> Solver (SetPayToScriptHash node_2020 [S_0]) = (False, TX_NONSTANDARD, []) \<and> \<not> IsStandard (SetPayToScriptHash node_2020 [S_0])"
  using standard_scripts_recognised [of 1 "[replicate 33 5]" 1 node_2020 "[S_0]"] by simp

end
