(* ===== verification/Legacy_Ledger_Properties.thy ===== *)
theory Legacy_Ledger_Properties
  imports Legacy_Laws_Connect Legacy_Code Legacy_Properties Ledger_Properties
begin

text \<open>
  Properties of the legacy transactions: what an accepted transaction spends and creates, that no output is
  spent twice, that disconnecting undoes connecting, and what the hash of a transaction and its signatures cover.
\<close>

section \<open>Samples\<close>

definition sample_prev :: ltx where
  "sample_prev = \<lparr>ltVersion = 1, ltTime = 1500000000, ltIn = [],
     ltOut = [\<lparr>nValue = 3000000000, scriptPubKey = SetNexusAddress False 0\<rparr>], nLockTime = 0\<rparr>"

definition sample_spend :: ltx where
  "sample_spend = \<lparr>ltVersion = 2, ltTime = 1590000000,
     ltIn = [\<lparr>prevout = \<lparr>opHash = 0, opN = 0\<rparr>, scriptSig = push_data [1] @ push_data [2], inSequence = - 1\<rparr>],
     ltOut = [\<lparr>nValue = 1, scriptPubKey = SetNexusAddress False 0\<rparr>], nLockTime = 0\<rparr>"

definition sample_db :: legacy_db where
  "sample_db = \<lparr>gTx = [0 \<mapsto> sample_prev], gSpent = (\<lambda>_. False), gSequence = (\<lambda>_. None), gEvents = (\<lambda>_. None), gTrust = (\<lambda>_. None)\<rparr>"

definition no_stake :: legacy_stake where
  "no_stake = \<lparr>xStakeRate = \<lambda>_ _ _ _. 0, xReward = \<lambda>_ _ _ _. Inl (Reject ''''), xFindGenesis = \<lambda>_ _ _ _. None\<rparr>"

definition sample_V :: verify where
  "sample_V pub h sig \<longleftrightarrow> pub = [2] \<and> sig = []"

lemma sample_kinds [simp]:
  "ltx_IsCoinBase sample_prev = False" "ltx_IsCoinStake sample_prev = False"
  "ltx_IsCoinBase sample_spend = False" "ltx_IsCoinStake sample_spend = False"
  by (simp_all add: sample_prev_def sample_spend_def ltx_IsCoinBase_def ltx_IsCoinStake_def OutPoint_IsNull_def)

definition indexed_world :: world where
  "indexed_world = IndexBlock 0 1 empty_world"

lemma sample_output: "GetOutputFor (ltIn sample_spend ! 0) [0 \<mapsto> PrevLegacy sample_prev] =
    Inr \<lparr>nValue = 3000000000, scriptPubKey = SetNexusAddress False 0\<rparr>"
  by (simp add: GetOutputFor_def sample_spend_def sample_prev_def)

lemma sample_signature: "VerifySignature sample_V node_2020 sample_bn sample_prev sample_spend 0 0"
proof -
  have "CheckSig sample_V node_2020 sample_spend 0 0 [1] [2] code" for code by (simp add: CheckSig_def sample_V_def)
  moreover have "SK256 node_2020 [2] = 0" "ltx_GetHash node_2020 sample_prev = 0"
    by (simp_all add: node_2020_def ltx_GetHash_def sample_prev_def)
  moreover have "ltIn sample_spend ! 0 = \<lparr>prevout = \<lparr>opHash = 0, opN = 0\<rparr>, scriptSig = push_data [1] @ push_data [2], inSequence = - 1\<rparr>"
    "ltOut sample_prev = [\<lparr>nValue = 3000000000, scriptPubKey = SetNexusAddress False 0\<rparr>]"
    by (simp_all add: sample_spend_def sample_prev_def)
  ultimately show ?thesis
    using verify_key_hash [of "[1]" "[2]" node_2020 sample_bn "CheckSig sample_V node_2020 sample_spend 0 0" 0]
    by (simp add: VerifySignature_def Let_def)
qed

text \<open>The sample transaction pays 1 from an output of 3000000000 in a block that has minted nothing so far.\<close>

definition fee_block :: block_state where
  "fee_block = base_block\<lparr>bMint := 0\<rparr>"

lemma sample_connected:
  "Legacy_Connect no_stake sample_V sample_bn sample_node node_2020 sample_spend [0 \<mapsto> PrevLegacy sample_prev] FLAGS_BLOCK indexed_world
     (fee_block, sample_db) = Inr (fee_block\<lparr>bMint := 1294967297\<rparr>, WriteSpend 0 0 sample_db)"
proof -
  have i: "HasIndex 0 indexed_world" by (simp add: indexed_world_def IndexBlock_def HasIndex_def)
  have o: "ltOut sample_prev ! 0 = \<lparr>nValue = 3000000000, scriptPubKey = SetNexusAddress False 0\<rparr>"
    "length (ltOut sample_prev) = 1" "ltTime sample_prev = 1500000000" by (simp_all add: sample_prev_def)
  have t: "prevout (ltIn sample_spend ! 0) = \<lparr>opHash = 0, opN = 0\<rparr>" "ltTime sample_spend = 1590000000"
    "length (ltIn sample_spend) = 1" "ltOut sample_spend = [\<lparr>nValue = 1, scriptPubKey = SetNexusAddress False 0\<rparr>]"
    by (simp_all add: sample_spend_def)
  have "connect_one sample_V sample_bn sample_node node_2020 sample_spend 0 [0 \<mapsto> PrevLegacy sample_prev] fee_block FLAGS_BLOCK
      indexed_world (0, sample_db) = Inr (3000000000, WriteSpend 0 0 sample_db)"
    by (simp add: connect_one_def connect_legacy_input_def t o i check_maturity_def spend_output_def sample_signature
        MoneyRange_bounds IsSpent_def sample_db_def)
  then have c: "connect_inputs sample_V sample_bn sample_node node_2020 sample_spend [0] [0 \<mapsto> PrevLegacy sample_prev] fee_block FLAGS_BLOCK
      indexed_world (0, sample_db) = Inr (3000000000, WriteSpend 0 0 sample_db)"
    by (simp add: connect_inputs_Cons)
  have v: "GetValueOut sample_spend = Inr 1" by (simp add: GetValueOut_def t MoneyRange_bounds)
  have "connect_events node_2020 sample_spend (ltOut sample_spend) FLAGS_BLOCK indexed_world D = Inr D" for D
    by (rule connect_events_none) (simp add: t ExtractRegister_def SetNexusAddress_def push_hash_def)
  then show ?thesis
    using c v by (simp add: Legacy_Connect_def t(3) check_values_def fee_block_def)
qed

lemma sample_fetched:
  "FetchInputs node_2020 sample_spend indexed_world sample_db Map.empty = Inr [0 \<mapsto> PrevLegacy sample_prev]"
proof -
  have "GetType (0 :: u512) \<noteq> TX_TRITIUM" by (simp add: GetType_def)
  then have "fetch_input node_2020 sample_spend (ltIn sample_spend ! 0) indexed_world sample_db = Inr (PrevLegacy sample_prev)"
    by (simp add: fetch_input_def fetch_legacy_def sample_spend_def sample_db_def Legacy_ReadTx_def sample_prev_def)
  then show ?thesis by (simp add: FetchInputs_def spending_def) (simp add: sample_spend_def)
qed

section \<open>Spending\<close>

text \<open>C14. A transaction of users that is connected in a block: the outputs it spends exist and were all different and unspent,
  each input's script is accepted by the output's (unless the node is synchronising), all amounts are in range, no
  more is paid than was spent, exactly these outputs are spent afterwards, and the mint of the block changes by the
  difference, cut to 32 bits.\<close>

theorem legacy_spends_sound:
  assumes "Legacy_Connect X V B N E t inputs FLAGS_BLOCK W (b, D) = Inr (b', D')"
    and "\<not> ltx_IsCoinBase t" and "\<not> ltx_IsCoinStake t"
  shows "\<exists>outs.
      list_all2 (\<lambda>k out. GetOutputFor (ltIn t ! k) inputs = Inr out \<and> MoneyRange (money out) \<and> authorised V B N E t k out)
        [0..<length (ltIn t)] outs
    \<and> distinct (map spot (ltIn t)) \<and> (\<forall>i \<in> set (ltIn t). \<not> gSpent D (spot i))
    \<and> (\<forall>out \<in> set (ltOut t). MoneyRange (money out)) \<and> total (ltOut t) \<le> total outs \<and> MoneyRange (total outs)
    \<and> gSpent D' = (\<lambda>x. x \<in> spot ` set (ltIn t) \<or> gSpent D x) \<and> gTx D' = gTx D
    \<and> b' = b\<lparr>bMint := bMint b + of_int (total (ltOut t) - total outs)\<rparr>"
  using legacy_connect_spends [OF assms] by blast

theorem legacy_spends_sound_witness:
  "\<exists>outs.
      list_all2 (\<lambda>k out. GetOutputFor (ltIn sample_spend ! k) [0 \<mapsto> PrevLegacy sample_prev] = Inr out \<and> MoneyRange (money out) \<and>
        authorised sample_V sample_bn sample_node node_2020 sample_spend k out) [0..<length (ltIn sample_spend)] outs
    \<and> distinct (map spot (ltIn sample_spend)) \<and> (\<forall>i \<in> set (ltIn sample_spend). \<not> gSpent sample_db (spot i))
    \<and> (\<forall>out \<in> set (ltOut sample_spend). MoneyRange (money out)) \<and> total (ltOut sample_spend) \<le> total outs \<and> MoneyRange (total outs)
    \<and> gSpent (WriteSpend 0 0 sample_db) = (\<lambda>x. x \<in> spot ` set (ltIn sample_spend) \<or> gSpent sample_db x)
    \<and> gTx (WriteSpend 0 0 sample_db) = gTx sample_db
    \<and> fee_block\<lparr>bMint := 1294967297\<rparr> = fee_block\<lparr>bMint := bMint fee_block + of_int (total (ltOut sample_spend) - total outs)\<rparr>"
  by (rule legacy_spends_sound [OF sample_connected]) simp_all

text \<open>C15. Once a transaction is connected in a block, any other transaction of users that spends one of the same outputs is
  refused, in a block, by a miner and by the memory pool alike.\<close>

theorem no_legacy_double_spend:
  assumes "Legacy_Connect X V B N E t inputs FLAGS_BLOCK W (b, D) = Inr (b', D')"
    and "\<not> ltx_IsCoinBase t" and "\<not> ltx_IsCoinStake t" and "\<not> ltx_IsCoinBase u" and "\<not> ltx_IsCoinStake u"
    and "i \<in> set (ltIn t)" and "j \<in> set (ltIn u)" and "prevout i = prevout j"
  shows "Legacy_Connect X V B N E u inputs' nFlags W' (c, D') \<noteq> Inr r"
proof
  assume "Legacy_Connect X V B N E u inputs' nFlags W' (c, D') = Inr r"
  then have "\<not> gSpent D' (spot j)" using legacy_connect_unspent assms(4,5,7) by metis
  moreover have "gSpent D' (spot i)" using legacy_connect_spends [OF assms(1-3)] assms(6) by auto
  ultimately show False using assms(8) by (simp add: spot_def)
qed

theorem no_legacy_double_spend_witness:
  "Legacy_Connect no_stake sample_V sample_bn sample_node node_2020 (sample_spend\<lparr>ltTime := 0\<rparr>) Map.empty FLAGS_MEMPOOL empty_world
     (base_block, WriteSpend 0 0 sample_db) \<noteq> Inr (base_block, sample_db)"
  by (rule no_legacy_double_spend [OF sample_connected, where i = "ltIn sample_spend ! 0" and j = "ltIn sample_spend ! 0"])
    (simp_all add: sample_spend_def ltx_IsCoinBase_def ltx_IsCoinStake_def OutPoint_IsNull_def)

text \<open>C16. Disconnecting a connected transaction of users that pays to no register leaves the database as it was.\<close>

theorem legacy_disconnect_restores:
  assumes "Legacy_Connect X V B N E t inputs FLAGS_BLOCK W (b, D) = Inr (b', D')"
    and "\<not> ltx_IsCoinBase t" and "\<not> ltx_IsCoinStake t"
    and "\<forall>out \<in> set (ltOut t). ExtractRegister (scriptPubKey out) = None"
  shows "Legacy_Disconnect X N t b' W' D' = Inr D"
proof -
  have u: "\<forall>i \<in> set (ltIn t). \<not> gSpent D (spot i)" and s: "D' = D\<lparr>gSpent := (\<lambda>x. x \<in> spot ` set (ltIn t) \<or> gSpent D x)\<rparr>"
    using legacy_connect_spends [OF assms(1-3)] legacy_connect_db [OF assms] by auto
  have "(\<lambda>x. x \<notin> spot ` set (ltIn t) \<and> gSpent D' x) = gSpent D" using u s by (auto simp: fun_eq_iff)
  then have "erase_spends (ltIn t) D' = D" using s by (simp add: erase_spends_eq)
  then show ?thesis using assms(2,3) erase_events_none [OF assms(4)] by (simp add: Legacy_Disconnect_def spending_def)
qed

theorem legacy_disconnect_restores_witness:
  "Legacy_Disconnect no_stake sample_node sample_spend (fee_block\<lparr>bMint := 1294967297\<rparr>) empty_world (WriteSpend 0 0 sample_db) = Inr sample_db"
  by (rule legacy_disconnect_restores [OF sample_connected])
    (simp_all add: sample_spend_def ExtractRegister_def SetNexusAddress_def push_hash_def ltx_IsCoinBase_def ltx_IsCoinStake_def
      OutPoint_IsNull_def)

text \<open>The difference of what goes in and out is cut to 32 bits: a transaction whose fee is about 3000 coins does not lower
  the mint of its block but raises it by more than 1294 coins.\<close>

theorem legacy_fee_mints:
  "\<exists>t inputs b' D'. Legacy_Connect no_stake sample_V sample_bn sample_node node_2020 t inputs FLAGS_BLOCK indexed_world (fee_block, sample_db) = Inr (b', D')
     \<and> total (ltOut t) = 1 \<and> GetValueIn t inputs = Inr 3000000000 \<and> sint (bMint fee_block) = 0 \<and> sint (bMint b') = 1294967297"
proof -
  have "spending sample_spend = [ltIn sample_spend ! 0]" by (simp add: spending_def) (simp add: sample_spend_def)
  then have "GetValueIn sample_spend [0 \<mapsto> PrevLegacy sample_prev] = Inr 3000000000"
    by (simp add: GetValueIn_def sample_output)
  moreover have "total (ltOut sample_spend) = 1" by (simp add: sample_spend_def money_def)
  ultimately show ?thesis using sample_connected by (fastforce simp: fee_block_def)
qed

section \<open>Checks\<close>

text \<open>The check of a transaction compares a signed amount with an unsigned minimum: a transaction with a negative output,
  whose total is in range, is accepted by it. Adding up the outputs later throws.\<close>

theorem negative_output_checked:
  "\<exists>t. CheckTransaction node_2020 t = Inr () \<and> (\<exists>out \<in> set (ltOut t). money out < 0) \<and>
     GetValueOut t = Inl (Throw ''value out of range'')"
proof -
  define t where "t = sample_spend\<lparr>ltOut := [\<lparr>nValue = 100, scriptPubKey = [1]\<rparr>, \<lparr>nValue = - 50, scriptPubKey = [1]\<rparr>]\<rparr>"
  have "StartBlockTimelock node_2020 7 = 1573539371"
    by code_simp
  then have "CheckTransaction node_2020 t = Inr ()"
    by (simp add: CheckTransaction_def t_def sample_spend_def LEGACY_TRANSACTION_VERSION_def ser_ltx_def ser_vec_def ser_txin_def
        ser_txout_def ser_outpoint_def ser_bytes_def WriteCompactSize_def push_data_def TxOut_IsEmpty_def MaxTxOut_def MoneyRange_def
        OutPoint_IsNull_def)
  moreover have "GetValueOut t = Inl (Throw ''value out of range'')"
    by (simp add: GetValueOut_def t_def MoneyRange_def MaxTxOut_def)
  moreover have "\<exists>out \<in> set (ltOut t). money out < 0" by (simp add: t_def money_def)
  ultimately show ?thesis by blast
qed

section \<open>Hashes and signatures\<close>

text \<open>C23. Two legacy transactions with the same bytes are the same transaction: whatever the hash covers is all there is.\<close>

theorem legacy_bytes_unique:
  assumes "ltx_ok t" and "ltx_ok u" and "ser_ltx t = ser_ltx u"
  shows "t = u"
  by (rule code_ltx.same [OF assms])

theorem legacy_bytes_unique_witness: "sample_spend\<lparr>ltTime := 1\<rparr> = sample_spend\<lparr>ltTime := 2, ltTime := 1\<rparr>"
  by (rule legacy_bytes_unique) (simp_all add: ltx_ok_def txin_ok_def txout_ok_def sample_spend_def push_data_def SetNexusAddress_def push_hash_def)

text \<open>A signature for the output at the place of its input, where there is none, signs the number one: the signature is
  valid for every transaction that has an input at that place and no output, whatever else it spends and pays.\<close>

theorem single_signs_one:
  assumes "and (ucast h) 0x1f = SIGHASH_SINGLE" and "k \<ge> length (ltOut t)"
  shows "CheckSig V E t k 0 (sig @ [h]) pub code \<longleftrightarrow> V pub 1 sig"
  using assms by (simp add: CheckSig_def SignatureHash_def signed_tx_def Let_def)

theorem single_signs_one_witness:
  "CheckSig (\<lambda>pub h sig. h = 1) node_2020 sample_spend 1 0 ([9] @ [3]) [2] [] \<longleftrightarrow> (\<lambda>pub h sig. h = 1) [2 :: byte] 1 [9 :: byte]"
  using single_signs_one [of 3 sample_spend 1 "\<lambda>pub h sig. h = 1" node_2020 "[9]" "[2]" "[]"]
  by (simp add: SIGHASH_SINGLE_def sample_spend_def)

end
