(* ===== verification/Legacy_Block_Properties.thy ===== *)
theory Legacy_Block_Properties
  imports Legacy_Block Legacy_Ledger_Properties
begin

text \<open>
  Properties of the blocks of the legacy chain and of Merkle trees, and of a coinstake that nothing checks.
\<close>

section \<open>Merkle trees\<close>

text \<open>C25. The branch that is given out for a transaction of a block leads from its hash to the root of the block's tree, for every
  position and every number of transactions.\<close>

theorem merkle_branch_checks:
  assumes "k < length vtx"
  shows "CheckMerkleBranch E (vtx ! k) (GetMerkleBranch E [] vtx k) k = BuildMerkleTree E vtx"
proof -
  have "vMerkleTree E vtx = tower (hash_pair E) vtx" using merkle_loop_tower [of E "[]" vtx] by (simp add: vMerkleTree_def)
  then have "GetMerkleBranch E [] vtx k = branch (length vtx) (hash_pair E) vtx k"
    using branch_loop_branch [of vtx "length vtx" "[]" E k] by (simp add: GetMerkleBranch_def)
  then show ?thesis using assms CheckMerkleBranch_root [OF assms order_refl] by (auto simp: BuildMerkleTree_root)
qed

theorem merkle_branch_checks_witness:
  "CheckMerkleBranch node_2020 ([1, 2, 3] ! 2) (GetMerkleBranch node_2020 [] [1, 2, 3] 2) 2 = BuildMerkleTree node_2020 [1, 2, 3]"
  by (rule merkle_branch_checks) simp

text \<open>A list with an odd number of hashes, three or more, has the root of the list that repeats its last hash: only the check
  for repeated transactions tells the two blocks apart.\<close>

theorem merkle_root_repeats:
  assumes "odd (length vtx)" and "length vtx > 1"
  shows "BuildMerkleTree E (vtx @ [last vtx]) = BuildMerkleTree E vtx \<and> \<not> distinct (vtx @ [last vtx])"
proof -
  have n: "vtx \<noteq> []" using assms(2) by auto
  moreover have "merkle_root (hash_pair E) (vtx @ [last vtx]) = merkle_root (hash_pair E) vtx"
    using assms n halve_repeat [OF assms(1), of "hash_pair E"] merkle_root.simps [of "hash_pair E" vtx]
      merkle_root.simps [of "hash_pair E" "vtx @ [last vtx]"] by simp
  ultimately show ?thesis by (simp add: BuildMerkleTree_root)
qed

theorem merkle_root_repeats_witness:
  "BuildMerkleTree node_2020 ([1, 2, 3] @ [last [1, 2, 3]]) = BuildMerkleTree node_2020 [1, 2, 3] \<and> \<not> distinct ([1, 2, 3] @ [last [1, 2, 3 :: u512]])"
  by (rule merkle_root_repeats) simp_all

section \<open>Blocks\<close>

definition sample_coinbase :: ltx where
  "sample_coinbase = \<lparr>ltVersion = 2, ltTime = 1590000000, ltIn = [\<lparr>prevout = \<lparr>opHash = 0, opN = - 1\<rparr>, scriptSig = [1, 2], inSequence = - 1\<rparr>],
     ltOut = [\<lparr>nValue = 1, scriptPubKey = [1]\<rparr>, \<lparr>nValue = 1, scriptPubKey = [1]\<rparr>, \<lparr>nValue = 1, scriptPubKey = [1]\<rparr>], nLockTime = 0\<rparr>"

definition sample_lblock :: lblock where
  "sample_lblock = \<lparr>lbHeader = \<lparr>bVersion = 8, hashPrevBlock = 1, hashMerkleRoot = ltx_GetHash node_2020 sample_coinbase, bChannel = 2,
     bHeight = 112283, bBits = 1, bNonce = 1, bTime = 1590000000, bOffsets = []\<rparr>, lbTime = 1590000000, lbVtx = [sample_coinbase], lbSig = []\<rparr>"

definition sample_ext_block :: block_ext where
  "sample_ext_block = \<lparr>yVerifyWork = \<lambda>_. True, yBlockSig = \<lambda>_ _. True, yAmbassador = \<lambda>_. [], yDeveloper = \<lambda>_. [], yTarget = \<lambda>_ _. 1,
     yReward = \<lambda>_ _ _. 0, yDescendant = \<lambda>_. True, yCheckStake = \<lambda>_. False\<rparr>"

lemma sample_coinbase_checked: "CheckTransaction node_2020 sample_coinbase = Inr ()" and sample_is_coinbase: "ltx_IsCoinBase sample_coinbase"
proof -
  have "StartBlockTimelock node_2020 7 = 1573539371" by code_simp
  moreover show "ltx_IsCoinBase sample_coinbase" by (simp add: ltx_IsCoinBase_def sample_coinbase_def OutPoint_IsNull_def)
  ultimately show "CheckTransaction node_2020 sample_coinbase = Inr ()"
    by (simp add: CheckTransaction_def) (simp add: sample_coinbase_def LEGACY_TRANSACTION_VERSION_def ser_ltx_def ser_vec_def ser_txin_def
        ser_txout_def ser_outpoint_def ser_bytes_def WriteCompactSize_def TxOut_IsEmpty_def MaxTxOut_def MoneyRange_def)
qed

lemma sample_lblock_fields:
  "lbTime sample_lblock = 1590000000" "lbVtx sample_lblock = [sample_coinbase]" "ltTime sample_coinbase = 1590000000"
  "bVersion (lbHeader sample_lblock) = 8" "bChannel (lbHeader sample_lblock) = 2" "bHeight (lbHeader sample_lblock) = 112283"
  "hashMerkleRoot (lbHeader sample_lblock) = ltx_GetHash node_2020 sample_coinbase" "length (ltOut sample_coinbase) = 3"
  by (simp_all add: sample_lblock_def sample_coinbase_def)

lemma sample_lblock_checked: "lb_Check sample_ext_block (sample_node\<lparr>fSynchronizing := True\<rparr>) node_2020 sample_lblock empty_world = Inr ()"
proof -
  have t: "BlockVersionActive node_2020 1590000000 8" "NetworkActive node_2020 1590000000" "ChannelActive node_2020 1590000000 2 = Inr True"
    "unifiedtimestamp node_2020 = 1600000000" "maxdrift node_2020 = 1"
    by code_simp+
  have s: "length (ser_lblock sample_lblock) \<le> 1024 * 1024 * 2"
    by (simp add: ser_lblock_def sample_lblock_def sample_coinbase_def ser_ltx_def ser_vec_def ser_txin_def ser_txout_def ser_outpoint_def
        ser_bytes_def WriteCompactSize_def Let_def)
  have g: "GetLegacySigOpCount sample_coinbase = 0"
    by (simp add: GetLegacySigOpCount_def sample_coinbase_def IsStakeSig_def GetSigOpCount_def sig_ops.simps GetOp_def)
  have c: "check_transactions node_2020 1590000000 True [sample_coinbase] 0 = Inr 0"
    using sample_coinbase_checked g by (simp add: sample_lblock_fields)
  have w: "check_work sample_ext_block (sample_node\<lparr>fSynchronizing := True\<rparr>) node_2020 sample_lblock sample_coinbase = Inr ()"
    by (simp add: check_work_def sample_is_coinbase sample_lblock_fields)
  have k: "check_block_signature sample_ext_block (sample_node\<lparr>fSynchronizing := True\<rparr>) sample_lblock sample_coinbase = Inr ()"
    by (simp add: check_block_signature_def)
  have r: "BuildMerkleTree node_2020 [h] = h" for h by (simp add: BuildMerkleTree_root merkle_root.simps)
  have b: "ReadBlock (lb_GetHash N b) empty_world = None" for N b by (simp add: ReadBlock_def empty_world_def)
  show ?thesis
    using s by (simp add: lb_Check_def Let_def b sample_lblock_fields t c w k r lb_IsProofOfWork_def sample_coinbase_checked g or_error_def del: rbind_eq_Inr)
qed

text \<open>C24. A block that passes the check has one producer, at its front and of the kind of its channel, and its header binds its
  transactions: another block that passes, with the same Merkle root and a tree of the same height, has the same transactions
  by hash, or else two different ones of the strings that were hashed to build the two trees have the same hash.\<close>

theorem checked_block_bound:
  assumes "lb_Check Y N E b W = Inr ()" and "lb_Check Y' N' E c W' = Inr ()"
    and "hashMerkleRoot (lbHeader b) = hashMerkleRoot (lbHeader c)" and "levels (length (lbVtx b)) = levels (length (lbVtx c))"
  shows "(map (ltx_GetHash E) (lbVtx b) = map (ltx_GetHash E) (lbVtx c)
      \<or> collision_in E (tree_strings E (map (ltx_GetHash E) (lbVtx b)) @ tree_strings E (map (ltx_GetHash E) (lbVtx c))))
    \<and> (lb_IsProofOfWork b \<longrightarrow> ltx_IsCoinBase (hd (lbVtx b))) \<and> (lb_IsProofOfStake b \<longrightarrow> ltx_IsCoinStake (hd (lbVtx b)))
    \<and> (\<forall>t \<in> set (tl (lbVtx b)). \<not> ltx_IsCoinBase t \<and> \<not> ltx_IsCoinStake t)
    \<and> (\<forall>t \<in> set (lbVtx b). CheckTransaction E t = Inr () \<and> ltTime t \<le> lbTime b)"
proof -
  obtain n where b: "lbVtx b \<noteq> []" "distinct (map (ltx_GetHash E) (lbVtx b))"
    "hashMerkleRoot (lbHeader b) = BuildMerkleTree E (map (ltx_GetHash E) (lbVtx b))"
    "check_transactions E (lbTime b) True (lbVtx b) 0 = Inr n"
    "lb_IsProofOfWork b \<Longrightarrow> ltx_IsCoinBase (lbVtx b ! 0)" "lb_IsProofOfStake b \<Longrightarrow> ltx_IsCoinStake (lbVtx b ! 0)"
    using lb_CheckE [OF assms(1)] by metis
  obtain c': "lbVtx c \<noteq> []" "distinct (map (ltx_GetHash E) (lbVtx c))"
    "hashMerkleRoot (lbHeader c) = BuildMerkleTree E (map (ltx_GetHash E) (lbVtx c))"
    using lb_CheckE [OF assms(2)] by metis
  have "map (ltx_GetHash E) (lbVtx b) = map (ltx_GetHash E) (lbVtx c)
      \<or> collision_in E (tree_strings E (map (ltx_GetHash E) (lbVtx b)) @ tree_strings E (map (ltx_GetHash E) (lbVtx c)))"
    using root_eq [OF b(2) c'(2), of E] b(1,3) c'(1,3) assms(3,4) by (simp add: BuildMerkleTree_root)
  moreover obtain t ts where v: "lbVtx b = t # ts" using b(1) by (cases "lbVtx b") auto
  moreover have "\<not> ltx_IsCoinBase u \<and> \<not> ltx_IsCoinStake u" if "u \<in> set ts" for u
    using b(4) v that check_transactions_producers [of E "lbTime b" ts _ n u] by (auto split: if_splits)
  moreover have "CheckTransaction E u = Inr () \<and> ltTime u \<le> lbTime b" if "u \<in> set (lbVtx b)" for u
    using check_transactions_Inr [OF b(4) that] .
  ultimately show ?thesis using b(5,6) by auto
qed

theorem checked_block_bound_witness:
  "lb_IsProofOfWork sample_lblock \<and> ltx_IsCoinBase (hd (lbVtx sample_lblock)) \<and> CheckTransaction node_2020 sample_coinbase = Inr ()"
  using checked_block_bound [OF sample_lblock_checked sample_lblock_checked refl refl]
  by (simp add: lb_IsProofOfWork_def sample_lblock_fields)

section \<open>Coinstakes\<close>

text \<open>C26. A coinstake whose first input names a transaction, but not its first output, is neither a genesis nor a trust: nothing of
  its trust is checked, and the key it stakes with is overwritten by one that has neither a public key nor a genesis block; its
  stake rate is what the function of the rates, an argument of the model, gives for such a key.\<close>

theorem coinstake_unchecked:
  assumes "ltx_IsCoinStake t" and "opHash (prevout (ltIn t ! 0)) \<noteq> 0" and "opN (prevout (ltIn t ! 0)) \<noteq> 0"
    and "ltx_TrustKey t = Inr v" and "SetBytes v = Inr cKey"
  shows "\<exists>key. connect_trust_key X N E t b W D = Inr (WriteTrustKey cKey key D) \<and> tkPubKey key = [] \<and> hashGenesisBlock key = 0
    \<and> (\<exists>r. key = r\<lparr>nStakeRate := xStakeRate X r b (bTime b) D\<rparr>)"
proof -
  have "\<not> ltx_IsGenesis t" "\<not> ltx_IsTrust t"
    using assms(2,3) by (auto simp: ltx_IsGenesis_def ltx_IsTrust_def OutPoint_IsNull_def)
  moreover define r where "r = TrustKey_default\<lparr>hashLastBlock := Block_GetHash N b, nLastBlockTime := bTime b\<rparr>"
  ultimately have "connect_trust_key X N E t b W D = Inr (WriteTrustKey cKey (r\<lparr>nStakeRate := xStakeRate X r b (bTime b) D\<rparr>) D)"
    using assms(4,5) by (simp add: connect_trust_key_def staking_key_def Let_def)
  moreover have "tkPubKey r = []" "hashGenesisBlock r = 0" by (simp_all add: r_def TrustKey_default_def)
  ultimately show ?thesis by (intro exI [of _ "r\<lparr>nStakeRate := xStakeRate X r b (bTime b) D\<rparr>"]) auto
qed

definition sample_coinstake :: ltx where
  "sample_coinstake = \<lparr>ltVersion = 1, ltTime = 1500000000,
     ltIn = [\<lparr>prevout = \<lparr>opHash = 1, opN = 1\<rparr>, scriptSig = [1, 2, 3, 5, 8, 13, 21, 34], inSequence = - 1\<rparr>,
       \<lparr>prevout = \<lparr>opHash = 1, opN = 0\<rparr>, scriptSig = [], inSequence = - 1\<rparr>],
     ltOut = [\<lparr>nValue = 1, scriptPubKey = push_data (replicate 72 0) @ [S_CHECKSIG]\<rparr>], nLockTime = 0\<rparr>"

lemma Solver_pubkey:
  assumes "33 \<le> length k" and "length k \<le> 120"
  shows "Solver (push_data k @ [S_CHECKSIG]) = (True, TX_PUBKEY, [k])"
proof -
  obtain c where g: "GetOp (push_data k @ [S_CHECKSIG]) = Some (c, k, [S_CHECKSIG])"
    using GetOp_push_data [of k "[S_CHECKSIG]"] assms by auto
  have "GetOp [S_CHECKSIG] = Some (S_CHECKSIG, [], [])" by (auto intro!: GetOp_code)
  then have "match_script (push_data k @ [S_CHECKSIG]) template_pubkey [] = Some [k]"
    using assms by (simp add: template_pubkey_def match_op [OF g] match_op)
  moreover have "length (push_data k @ [S_CHECKSIG]) > 23" using assms by (simp add: push_data_def)
  ultimately show ?thesis by (simp add: Solver_def IsPayToScriptHash_def)
qed

lemma sample_coinstake_key: "ltx_TrustKey sample_coinstake = Inr (replicate 72 0)"
  using Solver_pubkey [of "replicate 72 0"] by (simp add: ltx_TrustKey_def sample_coinstake_def)

theorem coinstake_unchecked_witness:
  "\<exists>key. connect_trust_key no_stake sample_node node_2020 sample_coinstake base_block empty_world sample_db =
      Inr (WriteTrustKey (deser_word (concat (map (\<lambda>k. rev (take 4 (drop (4 * k) (replicate 72 0)))) [0..<18]))) key sample_db)
    \<and> tkPubKey key = [] \<and> hashGenesisBlock key = 0
    \<and> (\<exists>r. key = r\<lparr>nStakeRate := xStakeRate no_stake r base_block (bTime base_block) sample_db\<rparr>)"
proof (rule coinstake_unchecked [OF _ _ _ sample_coinstake_key])
  show "ltx_IsCoinStake sample_coinstake" "opHash (prevout (ltIn sample_coinstake ! 0)) \<noteq> 0" "opN (prevout (ltIn sample_coinstake ! 0)) \<noteq> 0"
    by (simp_all add: sample_coinstake_def ltx_IsCoinStake_def IsStakeSig_def OutPoint_IsNull_def)
  show "SetBytes (replicate 72 0) = Inr (deser_word (concat (map (\<lambda>k. rev (take 4 (drop (4 * k) (replicate 72 0)))) [0..<18])))"
    unfolding SetBytes_def by simp
qed

end
