(* ===== verification/Base_Uint.thy ===== *)
theory Base_Uint
  imports LLL_Prelude
begin

text \<open>
  The big integers of the node (\<^verbatim>\<open>LLC/base_uint.cpp\<close>): an array of 32-bit words, the least significant
  first, here their list; the number of words of the template is its length. Every operator is the loop of the source
  over the words. The number an array stands for is \<open>num\<close>.
\<close>

unbundle bit_operations_syntax

type_synonym limbs = "u32 list"

primrec num :: "limbs \<Rightarrow> nat" where
  "num [] = 0"
| "num (p # ps) = unat p + 2 ^ 32 * num ps"

section \<open>Construction\<close>

definition bu_of64 :: "nat \<Rightarrow> u64 \<Rightarrow> limbs" where
  "bu_of64 w n = ucast n # ucast (drop_bit 32 n) # replicate (w - 2) 0"

fun words_of :: "byte list \<Rightarrow> limbs" where
  "words_of (a # b # c # d # bs) = deser_word [a, b, c, d] # words_of bs"
| "words_of _ = []"

definition bu_of_bytes :: "nat \<Rightarrow> byte list \<Rightarrow> limbs" where
  "bu_of_bytes w vch = (if length vch = 4 * w then words_of vch else bu_of64 w 0)"

definition bu_bytes :: "limbs \<Rightarrow> byte list" where
  "bu_bytes pn = concat (map ser_word pn)"

section \<open>Bitwise operators\<close>

definition bu_is_zero :: "limbs \<Rightarrow> bool" where
  "bu_is_zero pn \<longleftrightarrow> (\<forall>p \<in> set pn. p = 0)"

definition bu_not :: "limbs \<Rightarrow> limbs" where "bu_not pn = map NOT pn"

definition bu_xor :: "limbs \<Rightarrow> limbs \<Rightarrow> limbs" where "bu_xor pn b = map2 (XOR) pn b"

definition bu_or :: "limbs \<Rightarrow> limbs \<Rightarrow> limbs" where "bu_or pn b = map2 (OR) pn b"

definition bu_and :: "limbs \<Rightarrow> limbs \<Rightarrow> limbs" where "bu_and pn b = map2 (AND) pn b"

definition bu_xor64 :: "limbs \<Rightarrow> u64 \<Rightarrow> limbs" where
  "bu_xor64 pn b = pn[0 := pn ! 0 XOR ucast b, 1 := pn ! 1 XOR ucast (drop_bit 32 b)]"

definition bu_or64 :: "limbs \<Rightarrow> u64 \<Rightarrow> limbs" where
  "bu_or64 pn b = pn[0 := pn ! 0 OR ucast b, 1 := pn ! 1 OR ucast (drop_bit 32 b)]"

section \<open>Shifts\<close>

text \<open>One round of the loop takes the word \<open>i\<close> apart into two words of the result.\<close>

definition shl_step :: "limbs \<Rightarrow> nat \<Rightarrow> nat \<Rightarrow> nat \<Rightarrow> limbs \<Rightarrow> limbs" where
  "shl_step a k s i pn =
     (let pn = (if i + k + 1 < length a \<and> s \<noteq> 0 then pn[i + k + 1 := pn ! (i + k + 1) OR drop_bit (32 - s) (a ! i)] else pn) in
      if i + k < length a then pn[i + k := pn ! (i + k) OR push_bit s (a ! i)] else pn)"

definition bu_shl :: "limbs \<Rightarrow> nat \<Rightarrow> limbs" where
  "bu_shl a shift = fold (shl_step a (shift div 32) (shift mod 32)) [0..<length a] (replicate (length a) 0)"

definition shr_step :: "limbs \<Rightarrow> nat \<Rightarrow> nat \<Rightarrow> nat \<Rightarrow> limbs \<Rightarrow> limbs" where
  "shr_step a k s i pn =
     (let pn = (if i \<ge> k + 1 \<and> s \<noteq> 0 then pn[i - k - 1 := pn ! (i - k - 1) OR push_bit (32 - s) (a ! i)] else pn) in
      if i \<ge> k then pn[i - k := pn ! (i - k) OR drop_bit s (a ! i)] else pn)"

definition bu_shr :: "limbs \<Rightarrow> nat \<Rightarrow> limbs" where
  "bu_shr a shift = fold (shr_step a (shift div 32) (shift mod 32)) [0..<length a] (replicate (length a) 0)"

section \<open>Arithmetic\<close>

fun add_carry :: "u64 \<Rightarrow> limbs \<Rightarrow> limbs \<Rightarrow> limbs" where
  "add_carry carry (p # ps) (q # qs) =
     (let n = carry + ucast p + ucast q in ucast (n AND 0xffffffff) # add_carry (drop_bit 32 n) ps qs)"
| "add_carry carry _ _ = []"

definition bu_add :: "limbs \<Rightarrow> limbs \<Rightarrow> limbs" where "bu_add pn b = add_carry 0 pn b"

fun bu_inc :: "limbs \<Rightarrow> limbs" where
  "bu_inc [] = []"
| "bu_inc (p # ps) = (if p + 1 = 0 then 0 # bu_inc ps else (p + 1) # ps)"

fun bu_dec :: "limbs \<Rightarrow> limbs" where
  "bu_dec [] = []"
| "bu_dec (p # ps) = (if p - 1 = - 1 then - 1 # bu_dec ps else (p - 1) # ps)"

definition bu_neg :: "limbs \<Rightarrow> limbs" where "bu_neg pn = bu_inc (bu_not pn)"

definition bu_sub :: "limbs \<Rightarrow> limbs \<Rightarrow> limbs" where "bu_sub pn b = bu_add pn (bu_neg b)"

definition bu_add64 :: "limbs \<Rightarrow> u64 \<Rightarrow> limbs" where "bu_add64 pn b = bu_add pn (bu_of64 (length pn) b)"

definition bu_sub64 :: "limbs \<Rightarrow> u64 \<Rightarrow> limbs" where "bu_sub64 pn b = bu_sub pn (bu_of64 (length pn) b)"

text \<open>Row \<open>j\<close> of the product touches the words of the result from \<open>j\<close> on: these are the first list.\<close>

fun mul_row :: "u64 \<Rightarrow> u32 \<Rightarrow> limbs \<Rightarrow> limbs \<Rightarrow> limbs" where
  "mul_row carry p (x # a) (q # b) =
     (let n = carry + ucast x + ucast p * ucast q in ucast (n AND 0xffffffff) # mul_row (drop_bit 32 n) p a b)"
| "mul_row carry p _ _ = []"

fun mul_rows :: "limbs \<Rightarrow> limbs \<Rightarrow> limbs \<Rightarrow> limbs" where
  "mul_rows (p # pn) a b = (case mul_row 0 p a b of [] \<Rightarrow> [] | x # a \<Rightarrow> x # mul_rows pn a b)"
| "mul_rows [] a b = []"

definition bu_mul :: "limbs \<Rightarrow> limbs \<Rightarrow> limbs" where "bu_mul pn b = mul_rows pn (replicate (length pn) 0) b"

definition bu_mul64 :: "limbs \<Rightarrow> u64 \<Rightarrow> limbs" where "bu_mul64 pn n = bu_mul pn (bu_of64 (length pn) n)"

section \<open>Comparison\<close>

text \<open>The words are compared from the most significant on; the last argument is the answer for equal numbers.\<close>

fun below :: "limbs \<Rightarrow> limbs \<Rightarrow> bool \<Rightarrow> bool" where
  "below (p # ps) (q # qs) e = (if p < q then True else if p > q then False else below ps qs e)"
| "below _ _ e = e"

definition bu_less :: "limbs \<Rightarrow> limbs \<Rightarrow> bool" where "bu_less pn n = below (rev pn) (rev n) False"

definition bu_le :: "limbs \<Rightarrow> limbs \<Rightarrow> bool" where "bu_le pn n = below (rev pn) (rev n) True"

definition bu_greater :: "limbs \<Rightarrow> limbs \<Rightarrow> bool" where "bu_greater pn n = below (rev n) (rev pn) False"

definition bu_ge :: "limbs \<Rightarrow> limbs \<Rightarrow> bool" where "bu_ge pn n = below (rev n) (rev pn) True"

definition bu_eq :: "limbs \<Rightarrow> limbs \<Rightarrow> bool" where "bu_eq pn n \<longleftrightarrow> (\<forall>(p, q) \<in> set (zip pn n). p = q)"

definition bu_eq64 :: "limbs \<Rightarrow> u64 \<Rightarrow> bool" where
  "bu_eq64 pn n \<longleftrightarrow> pn ! 0 = ucast n \<and> pn ! 1 = ucast (drop_bit 32 n) \<and> (\<forall>p \<in> set (drop 2 pn). p = 0)"

section \<open>Bits\<close>

fun top_bit :: "u32 \<Rightarrow> nat \<Rightarrow> nat" where
  "top_bit p 0 = 1"
| "top_bit p (Suc n) = (if p AND push_bit (Suc n) 1 \<noteq> 0 then Suc n + 1 else top_bit p n)"

fun bits_from :: "limbs \<Rightarrow> nat \<Rightarrow> nat" where
  "bits_from pn 0 = 0"
| "bits_from pn (Suc pos) = (if pn ! pos \<noteq> 0 then 32 * pos + top_bit (pn ! pos) 31 else bits_from pn pos)"

definition bu_bits :: "limbs \<Rightarrow> nat" where "bu_bits pn = bits_from pn (length pn)"

text \<open>The counter of \<open>BitCount\<close> is unsigned: below 0 it goes on at the end of its range, far outside the array.\<close>

fun bit_count_from :: "limbs \<Rightarrow> nat \<Rightarrow> nat res" where
  "bit_count_from pn 0 = Inl (Undefined ''read past the end of an array'')"
| "bit_count_from pn (Suc i) =
     (if pn ! (i div 32) AND push_bit (i mod 32) 1 \<noteq> 0 then Inr (i + 1) else bit_count_from pn i)"

definition BitCount :: "limbs \<Rightarrow> nat res" where "BitCount pn = bit_count_from pn (32 * length pn)"

definition Get64 :: "limbs \<Rightarrow> nat \<Rightarrow> u64" where
  "Get64 pn n = ucast (pn ! (2 * n)) OR push_bit 32 (ucast (pn ! (2 * n + 1)))"

definition getuint32 :: "limbs \<Rightarrow> u32" where
  "getuint32 pn = (if bu_bits pn > 64 then - 1 else ucast (Get64 pn 0))"

section \<open>Division\<close>

text \<open>The number of shifts that are left, the rest, the shifted divisor and the quotient.\<close>

fun div_loop :: "nat \<Rightarrow> limbs \<Rightarrow> limbs \<Rightarrow> limbs \<Rightarrow> limbs \<times> limbs" where
  "div_loop 0 n d pn = (pn, n)"
| "div_loop (Suc shift) n d pn =
     (let (n, pn) = (if bu_ge n d then (bu_sub n d, pn[shift div 32 := pn ! (shift div 32) OR push_bit (shift mod 32) 1]) else (n, pn)) in
      div_loop shift n (bu_shr d 1) pn)"

definition bu_div :: "limbs \<Rightarrow> limbs \<Rightarrow> limbs res" where
  "bu_div pn b =
     (let num_bits = bu_bits pn; div_bits = bu_bits b; zero = bu_of64 (length pn) 0 in
      if div_bits = 0 then Inl (Throw ''Division by zero'')
      else if div_bits > num_bits then Inr zero
      else Inr (fst (div_loop (Suc (num_bits - div_bits)) pn (bu_shl b (num_bits - div_bits)) zero)))"

definition bu_div64 :: "limbs \<Rightarrow> u64 \<Rightarrow> limbs res" where "bu_div64 pn b = bu_div pn (bu_of64 (length pn) b)"

section \<open>Type bytes\<close>

definition bu_SetType :: "u8 \<Rightarrow> limbs \<Rightarrow> limbs" where
  "bu_SetType nType pn =
     (let k = length pn - 1 in pn[k := (pn ! k AND 0x00ffffff) + push_bit 24 (ucast nType)])"

definition bu_GetType :: "limbs \<Rightarrow> u8" where
  "bu_GetType pn = ucast (drop_bit 24 (pn ! (length pn - 1)))"

section \<open>Bytes from the highest of each word\<close>

definition GetBytes :: "limbs \<Rightarrow> byte list" where
  "GetBytes pn = concat (map (\<lambda>p. [ucast (drop_bit 24 p), ucast (drop_bit 16 p), ucast (drop_bit 8 p), ucast p]) pn)"

fun words_be :: "nat \<Rightarrow> byte list \<Rightarrow> limbs res" where
  "words_be 0 bs = Inr []"
| "words_be (Suc w) (a # b # c # d # bs) =
     rbind (words_be w bs) (\<lambda>ps. Inr ((push_bit 24 (ucast a) + push_bit 16 (ucast b) + push_bit 8 (ucast c) + ucast d) # ps))"
| "words_be (Suc w) _ = Inl (Undefined ''read past the end of a vector'')"

section \<open>Compact form\<close>

definition SetCompact :: "nat \<Rightarrow> u32 \<Rightarrow> limbs" where
  "SetCompact w nCompact =
     (let nSize = unat (drop_bit 24 nCompact); nWord = nCompact AND 0x007fffff in
      if nSize \<le> 3 then bu_of64 w (ucast (drop_bit (8 * (3 - nSize)) nWord))
      else bu_shl (bu_of64 w (ucast nWord)) (8 * (nSize - 3)))"

definition GetCompact :: "limbs \<Rightarrow> u32" where
  "GetCompact pn =
     (let nBits = bu_bits pn; nSize = (nBits + 7) div 8 + (if nBits mod 8 = 0 then 1 else 0);
          nCompact = (if nSize \<le> 3 then ucast (push_bit (8 * (3 - nSize)) (Get64 pn 0))
                      else ucast (Get64 (bu_shr pn (8 * (nSize - 3))) 0)) in
      nCompact OR push_bit 24 (of_nat nSize))"

section \<open>Hexadecimal strings\<close>

definition hex_digit :: "nat \<Rightarrow> char" where "hex_digit n = ''0123456789abcdef'' ! n"

definition hex2 :: "byte \<Rightarrow> string" where
  "hex2 b = [hex_digit (unat b div 16), hex_digit (unat b mod 16)]"

definition GetHex :: "limbs \<Rightarrow> string" where
  "GetHex pn = concat (map hex2 (rev (bu_bytes pn)))"

text \<open>The table of the digits; characters that are not in it have the value 0.\<close>

definition phexdigit :: "char \<Rightarrow> nat" where
  "phexdigit c =
     (let n = of_char c :: nat in
      if 0x31 \<le> n \<and> n \<le> 0x39 then n - 0x30 else if 0x41 \<le> n \<and> n \<le> 0x46 then n - 0x37
      else if 0x61 \<le> n \<and> n \<le> 0x66 then n - 0x57 else 0)"

definition is_space :: "char \<Rightarrow> bool" where
  "is_space c \<longleftrightarrow> (let n = of_char c :: nat in n = 32 \<or> 9 \<le> n \<and> n \<le> 13)"

definition skip_prefix :: "string \<Rightarrow> string" where
  "skip_prefix s = (case s of a # b # s' \<Rightarrow> if a = CHR ''0'' \<and> (b = CHR ''x'' \<or> b = CHR ''X'') then s' else s | _ \<Rightarrow> s)"

text \<open>The digits from the last: two make a byte.\<close>

fun hex_bytes :: "string \<Rightarrow> byte list" where
  "hex_bytes (c # d # cs) = (of_nat (phexdigit c) OR push_bit 4 (of_nat (phexdigit d))) # hex_bytes cs"
| "hex_bytes [c] = [of_nat (phexdigit c)]"
| "hex_bytes [] = []"

definition SetHex :: "nat \<Rightarrow> string \<Rightarrow> limbs" where
  "SetHex w s =
     (let digits = takeWhile (\<lambda>c. phexdigit c \<noteq> 0 \<or> c = CHR ''0'') (skip_prefix (dropWhile is_space s));
          bs = take (4 * w) (hex_bytes (rev digits)) in
      words_of (bs @ replicate (4 * w - length bs) 0))"

end
