(* ===== verification/Base_Uint_Laws.thy ===== *)
theory Base_Uint_Laws
  imports Base_Uint
begin

text \<open>
  Laws of the big integers: every operator computes on the number of the array, modulo two to the number
  of its bits.
\<close>

unbundle bit_operations_syntax

section \<open>Numbers\<close>

abbreviation modulus :: "limbs \<Rightarrow> nat" where "modulus ps \<equiv> 2 ^ (32 * length ps)"

lemma unat32 [simp]: "unat (p :: u32) < 4294967296"
  using unsigned_less [of p] by simp

lemma unat32_mod [simp]: "unat (p :: u32) mod 4294967296 = unat p" "unat (p :: u32) div 4294967296 = 0"
  by simp_all

lemma modulus_Cons: "modulus (p # ps) = 2 ^ 32 * modulus ps"
  by (simp add: power_add)

lemma mod_carry: "n mod B + B * ((n div B + x) mod M) = (n + B * x) mod (B * M)" if "B > 0" for n :: nat
  using that by (simp add: mod_mult2_eq add.commute)

lemma num_less: "num ps < modulus ps"
proof (induction ps)
  case (Cons p ps)
  have "unat p + 2 ^ 32 * num ps < 2 ^ 32 * (num ps + 1)" using unat32 [of p] by simp
  also have "\<dots> \<le> 2 ^ 32 * modulus ps" using Cons by (intro mult_le_mono) auto
  finally show ?case by (simp add: power_add)
qed simp

lemma num_mod [simp]: "num ps mod modulus ps = num ps"
  using num_less by simp

lemma num_append: "num (ps @ qs) = num ps + modulus ps * num qs"
  by (induction ps) (simp_all add: power_add algebra_simps)

lemma num_zeros [simp]: "num (replicate n 0) = 0"
  by (induction n) simp_all

lemma num_eq_0: "num ps = 0 \<longleftrightarrow> (\<forall>p \<in> set ps. p = 0)"
  by (induction ps) (auto simp: unat_eq_zero)

lemma num_inj: "num ps = num qs \<Longrightarrow> length ps = length qs \<Longrightarrow> ps = qs"
proof (induction ps arbitrary: qs)
  case (Cons p ps)
  then obtain q qs' where q: "qs = q # qs'" by (cases qs) auto
  have e: "unat p + 2 ^ 32 * num ps = unat q + 2 ^ 32 * num qs'" using Cons.prems(1) q by simp
  have "(unat p + 2 ^ 32 * num ps) mod 2 ^ 32 = unat p" "(unat q + 2 ^ 32 * num qs') mod 2 ^ 32 = unat q"
    by simp_all
  with e have u: "unat p = unat q" by metis
  then show ?case using e Cons.IH [of qs'] Cons.prems(2) q word_unat_eq_iff [of p q] by simp
qed simp

lemma num_drop: "num ps div 2 ^ (32 * k) = num (drop k ps)"
proof (cases "k \<le> length ps")
  case True
  have "num ps = num (take k ps) + 2 ^ (32 * k) * num (drop k ps)"
    using num_append [of "take k ps" "drop k ps"] True by simp
  moreover have "num (take k ps) < 2 ^ (32 * k)" using num_less [of "take k ps"] True by simp
  ultimately show ?thesis by simp
next
  case False
  have "num ps < 2 ^ (32 * length ps)" by (rule num_less)
  also have "(2::nat) ^ (32 * length ps) \<le> 2 ^ (32 * k)" using False by (intro power_increasing) auto
  finally show ?thesis using False by simp
qed

lemma bit_num: "bit (num ps) m \<longleftrightarrow> m div 32 < length ps \<and> bit (ps ! (m div 32)) (m mod 32)"
proof (induction ps arbitrary: m)
  case (Cons p ps)
  have e: "num (p # ps) = unat p + push_bit 32 (num ps)" by (simp add: push_bit_eq_mult)
  have "bit (num (p # ps)) m \<longleftrightarrow> (if m < 32 then bit p m else bit (num ps) (m - 32))"
  proof -
    have "\<not> bit (unat p) n \<or> \<not> bit (push_bit 32 (num ps)) n" for n
      using bit_imp_le_length [of p n] by (auto simp: bit_simps)
    then have "unat p + push_bit 32 (num ps) = unat p OR push_bit 32 (num ps)" by (simp add: disjunctive_add)
    then show ?thesis using e bit_imp_le_length [of p m] by (auto simp: bit_simps)
  qed
  moreover have "m div 32 = Suc ((m - 32) div 32)" "(m - 32) mod 32 = m mod 32" if "\<not> m < 32"
    using that by (simp_all add: div_if [of 32 m] le_mod_geq)
  ultimately show ?case using Cons.IH [of "m - 32"] by (cases "m < 32") auto
qed simp

lemma num_nat_bit_eqI: "num ps = n" if "\<And>m. bit n m \<longleftrightarrow> m div 32 < length ps \<and> bit (ps ! (m div 32)) (m mod 32)"
  by (rule bit_eqI) (simp add: bit_num that)

lemma num_of64:
  assumes "w \<ge> 2"
  shows "num (bu_of64 w n) = unat n"
proof -
  have "unat (ucast n :: u32) = unat n mod 2 ^ 32" by (simp add: unsigned_ucast_eq take_bit_eq_mod)
  moreover have "unat (ucast (drop_bit 32 n) :: u32) = unat n div 2 ^ 32"
  proof -
    have "unat n < 2 ^ 64" using unsigned_less [of n] by simp
    then have "unat n div 2 ^ 32 < 2 ^ 32" by (simp add: less_mult_imp_div_less)
    then show ?thesis by (simp add: unsigned_ucast_eq take_bit_eq_mod drop_bit_eq_div unat_div_distrib)
  qed
  ultimately show ?thesis using assms by (simp add: bu_of64_def)
qed

lemma length_of64 [simp]: "w \<ge> 2 \<Longrightarrow> length (bu_of64 w n) = w"
  by (simp add: bu_of64_def)

section \<open>Arithmetic\<close>

lemma low_word: "unat (ucast (n AND 0xffffffff) :: u32) = unat n mod 2 ^ 32" for n :: u64
proof -
  have "n AND 0xffffffff = take_bit 32 n" by (simp add: take_bit_eq_mask mask_eq_exp_minus_1)
  then show ?thesis by (simp add: unsigned_ucast_eq take_bit_eq_mod unat_mod_distrib)
qed

lemma high_word: "unat (drop_bit 32 n) = unat n div 2 ^ 32" for n :: u64
  by (simp add: drop_bit_eq_div unat_div_distrib)

lemma unat_ucast64 [simp]: "unat (ucast (p :: u32) :: u64) = unat p"
  using less_trans [OF unat32 [of p], of 18446744073709551616] by (simp add: unsigned_ucast_eq take_bit_eq_mod)

lemma length_add_carry [simp]: "length (add_carry c ps qs) = min (length ps) (length qs)"
  by (induction c ps qs rule: add_carry.induct) (simp_all add: Let_def)

lemma num_add_carry:
  "length ps = length qs \<Longrightarrow> unat c < 2 ^ 32 \<Longrightarrow> num (add_carry c ps qs) = (unat c + num ps + num qs) mod modulus ps"
proof (induction c ps qs rule: add_carry.induct)
  case (1 c p ps q qs)
  define n :: u64 where "n = c + ucast p + ucast q"
  have c: "unat c < 4294967296" using 1(3) by simp
  have le: "unat c + unat p + unat q < 18446744073709551616" using c unat32 [of p] unat32 [of q] by linarith
  then have "unat n = unat c + unat p + unat q"
    by (simp add: n_def unat_add_lem [THEN iffD1])
  moreover from this have "unat (drop_bit 32 n) < 2 ^ 32" using le by (simp add: high_word less_mult_imp_div_less)
  then have "num (add_carry (drop_bit 32 n) ps qs) = (unat n div 2 ^ 32 + (num ps + num qs)) mod modulus ps"
    using 1(1) [OF n_def] 1(2) by (simp add: high_word add.assoc)
  ultimately have "num (add_carry c (p # ps) (q # qs)) = (unat n + 2 ^ 32 * (num ps + num qs)) mod (2 ^ 32 * modulus ps)"
    using mod_carry [of "2 ^ 32" "unat n" "num ps + num qs" "modulus ps"] by (simp add: n_def [symmetric] Let_def low_word)
  then show ?case using \<open>unat n = _\<close> by (simp add: power_add algebra_simps)
qed auto

lemma num_add: "length ps = length qs \<Longrightarrow> num (bu_add ps qs) = (num ps + num qs) mod modulus ps"
  by (simp add: bu_add_def num_add_carry)

lemma length_not [simp]: "length (bu_not ps) = length ps" by (simp add: bu_not_def)

lemma num_not: "num (bu_not ps) = modulus ps - 1 - num ps"
proof -
  have "num (bu_not ps) + num ps + 1 = modulus ps"
  proof (induction ps)
    case (Cons p ps)
    have "p + NOT p = - 1" by (simp add: not_eq_complement)
    then have "unat p + unat (NOT p) = unat (- 1 :: u32)" using unat_plus_simple [of p "NOT p"] by simp
    then have "unat (NOT p) + unat p + 1 = 4294967296"
      unfolding unsigned_minus_1_eq_mask mask_eq_exp_minus_1 by simp
    with Cons show ?case by (simp add: bu_not_def power_add algebra_simps)
  qed (simp add: bu_not_def)
  then show ?thesis by simp
qed

lemma length_inc [simp]: "length (bu_inc ps) = length ps"
  by (induction ps) auto

lemma length_dec [simp]: "length (bu_dec ps) = length ps"
  by (induction ps) auto

lemma unat_plus1: "p + 1 \<noteq> 0 \<Longrightarrow> unat (p + 1) = unat p + 1" for p :: u32
  using unatSuc [of p] by (simp add: add.commute)

lemma num_inc: "num (bu_inc ps) = (num ps + 1) mod modulus ps"
proof (induction ps)
  case (Cons p ps)
  have m: "num (q # ps) mod modulus (p # ps) = num (q # ps)" for q
    using num_mod [of "q # ps"] by (simp only: list.size)
  show ?case
  proof (cases "p + 1 = 0")
    case True
    then have "p = - 1" by (simp add: eq_neg_iff_add_eq_0)
    then have "unat p = 4294967295" by (simp add: unsigned_minus_1_eq_mask mask_eq_exp_minus_1)
    then show ?thesis
      using True Cons.IH mod_carry [of "2 ^ 32" "2 ^ 32" "num ps" "modulus ps"] by (simp add: power_add)
  next
    case False
    then show ?thesis using m [of "p + 1"] unat_plus1 [OF False] by simp
  qed
qed simp

lemma num_dec: "num (bu_dec ps) = (num ps + (modulus ps - 1)) mod modulus ps"
proof (induction ps)
  case (Cons p ps)
  have m: "1 \<le> modulus ps" by simp
  show ?case
  proof (cases "p = 0")
    case True
    have "num (bu_dec (p # ps)) = 4294967295 + 2 ^ 32 * ((num ps + (modulus ps - 1)) mod modulus ps)"
      using True Cons.IH by (simp add: unsigned_minus_1_eq_mask mask_eq_exp_minus_1)
    also have "\<dots> = (4294967295 + 2 ^ 32 * (num ps + (modulus ps - 1))) mod (2 ^ 32 * modulus ps)"
      using mod_carry [of "2 ^ 32" 4294967295 "num ps + (modulus ps - 1)" "modulus ps"] by simp
    also have "4294967295 + 2 ^ 32 * (num ps + (modulus ps - 1)) = num (p # ps) + (modulus (p # ps) - 1)"
      using True m modulus_Cons [of p ps] by (cases "modulus ps") simp_all
    finally show ?thesis unfolding modulus_Cons .
  next
    case False
    then have u: "unat (p - 1) + 1 = unat p" by (simp add: unat_minus_one unat_gt_0)
    then have "num (p # ps) + (modulus (p # ps) - 1) = num ((p - 1) # ps) + modulus (p # ps)"
      by (simp add: power_add)
    then have "(num (p # ps) + (modulus (p # ps) - 1)) mod modulus (p # ps) = num ((p - 1) # ps)"
      using num_less [of "(p - 1) # ps"] by simp
    then show ?thesis using False by simp
  qed
qed simp

lemma length_neg [simp]: "length (bu_neg ps) = length ps" by (simp add: bu_neg_def)

lemma num_neg: "num (bu_neg ps) = (modulus ps - num ps) mod modulus ps"
proof -
  have "modulus ps - 1 - num ps + 1 = modulus ps - num ps" using num_less [of ps] by simp
  then show ?thesis by (simp add: bu_neg_def num_inc num_not)
qed

lemma num_sub:
  assumes "length ps = length qs"
  shows "num (bu_sub ps qs) = (num ps + (modulus ps - num qs)) mod modulus ps"
  using assms by (simp add: bu_sub_def num_add num_neg mod_simps)

lemma num_sub_le: "length ps = length qs \<Longrightarrow> num qs \<le> num ps \<Longrightarrow> num (bu_sub ps qs) = num ps - num qs"
proof -
  assume a: "length ps = length qs" "num qs \<le> num ps"
  have "num ps + (modulus ps - num qs) = num ps - num qs + modulus ps" using a num_less [of qs] by simp
  moreover have "num ps - num qs < modulus ps" using num_less [of ps] by linarith
  ultimately show ?thesis using num_sub [OF a(1)] by (metis mod_add_self2 mod_less)
qed

lemma length_mul_row [simp]: "length (mul_row c p a b) = min (length a) (length b)"
  by (induction c p a b rule: mul_row.induct) (simp_all add: Let_def)

lemma num_mul_row:
  "length a \<le> length b \<Longrightarrow> unat c < 4294967296 \<Longrightarrow> num (mul_row c p a b) = (unat c + num a + unat p * num b) mod modulus a"
proof (induction c p a b rule: mul_row.induct)
  case (1 c p x a q b)
  define n :: u64 where "n = c + ucast x + ucast p * ucast q"
  have pq: "unat p * unat q \<le> 4294967295 * 4294967295"
    using unat32 [of p] unat32 [of q] by (intro mult_le_mono) linarith+
  have le: "unat c + unat x + unat p * unat q < 18446744073709551616"
    using 1(3) pq unat32 [of x] by linarith
  have n: "unat n = unat c + unat x + unat p * unat q"
    using le by (simp add: n_def unat_add_lem [THEN iffD1] unat_mult_lem [THEN iffD1])
  then have "unat (drop_bit 32 n) < 4294967296" using le high_word [of n] by (simp add: less_mult_imp_div_less)
  then have "num (mul_row (drop_bit 32 n) p a b) = (unat n div 2 ^ 32 + (num a + unat p * num b)) mod modulus a"
    using 1(1) [OF n_def] 1(2) by (simp add: high_word add.assoc)
  then have "num (mul_row c p (x # a) (q # b)) = (unat n + 2 ^ 32 * (num a + unat p * num b)) mod (2 ^ 32 * modulus a)"
    using mod_carry [of "2 ^ 32" "unat n" "num a + unat p * num b" "modulus a"] by (simp add: n_def [symmetric] Let_def low_word)
  then show ?case using n by (simp add: power_add algebra_simps)
qed auto

lemma num_mul_rows:
  "length a = length ps \<Longrightarrow> length a \<le> length b \<Longrightarrow> num (mul_rows ps a b) = (num a + num ps * num b) mod modulus a"
proof (induction ps a b rule: mul_rows.induct)
  case (1 p ps a b)
  obtain x a' where r: "mul_row 0 p a b = x # a'" and l: "length a' = length ps"
    using 1(2,3) length_mul_row [of 0 p a b] by (cases "mul_row 0 p a b") auto
  define M where "M = modulus a'"
  have M: "modulus a = 4294967296 * M" using 1(2) l by (simp add: M_def power_add)
  have v: "unat x + 4294967296 * num a' = (num a + unat p * num b) mod (4294967296 * M)"
    using num_mul_row [of a b 0 p] r 1(3) M by simp
  have "num (mul_rows (p # ps) a b) = unat x + 4294967296 * ((num a' + num ps * num b) mod M)"
    using 1(1) [OF r] 1(2,3) r l by (simp add: M_def)
  also have "\<dots> = (unat x + 4294967296 * (num a' + num ps * num b)) mod (4294967296 * M)"
    using mod_carry [of 4294967296 "unat x" "num a' + num ps * num b" M] by simp
  also have "unat x + 4294967296 * (num a' + num ps * num b)
      = (num a + unat p * num b) mod (4294967296 * M) + 4294967296 * num ps * num b"
    using v by (simp add: algebra_simps)
  also have "\<dots> mod (4294967296 * M) = (num a + unat p * num b + 4294967296 * num ps * num b) mod (4294967296 * M)"
    by (simp add: mod_simps)
  finally show ?case using M by (simp add: algebra_simps)
qed simp

lemma length_mul_rows [simp]: "length a = length ps \<Longrightarrow> length ps \<le> length b \<Longrightarrow> length (mul_rows ps a b) = length ps"
proof (induction ps arbitrary: a)
  case (Cons p ps)
  then obtain x a' where "mul_row 0 p a b = x # a'" "length a' = length ps"
    using length_mul_row [of 0 p a b] by (cases "mul_row 0 p a b") auto
  then show ?case using Cons by simp
qed simp

lemma num_mul: "length ps = length qs \<Longrightarrow> num (bu_mul ps qs) = (num ps * num qs) mod modulus ps"
  by (simp add: bu_mul_def num_mul_rows)

section \<open>Comparison\<close>

lemma below_snoc: "length xs = length ys \<Longrightarrow> below (xs @ [p]) (ys @ [q]) e = below xs ys (below [p] [q] e)"
  by (induction xs ys rule: list_induct2) auto

lemma below_num: "length ps = length qs \<Longrightarrow> below (rev ps) (rev qs) e \<longleftrightarrow> num ps < num qs \<or> num ps = num qs \<and> e"
proof (induction ps qs arbitrary: e rule: list_induct2)
  case (Cons p ps q qs)
  have "below (rev (p # ps)) (rev (q # qs)) e \<longleftrightarrow> num ps < num qs \<or> num ps = num qs \<and> (p < q \<or> p = q \<and> e)"
    using Cons by (auto simp: below_snoc)
  moreover have "unat p + 4294967296 * num ps < unat q + 4294967296 * num qs \<longleftrightarrow> num ps < num qs \<or> num ps = num qs \<and> unat p < unat q"
    using unat32 [of p] unat32 [of q] by linarith
  moreover have "unat p + 4294967296 * num ps = unat q + 4294967296 * num qs \<longleftrightarrow> num ps = num qs \<and> unat p = unat q"
    using num_inj [of "p # ps" "q # qs"] Cons(1) by auto
  ultimately show ?case by (auto simp: word_less_nat_alt word_unat_eq_iff)
qed simp

section \<open>Bits\<close>

text \<open>The number of bits of a number.\<close>

definition has_bits :: "nat \<Rightarrow> nat \<Rightarrow> bool" where
  "has_bits r n \<longleftrightarrow> n < 2 ^ r \<and> (n = 0 \<longrightarrow> r = 0) \<and> (n \<noteq> 0 \<longrightarrow> 2 ^ (r - 1) \<le> n)"

lemma has_bits_unique: "has_bits r n \<Longrightarrow> has_bits s n \<Longrightarrow> r = s"
proof (induction r s rule: linorder_wlog)
  case (le r s)
  show ?case
  proof (rule ccontr)
    assume "r \<noteq> s"
    then have "r \<le> s - 1" using le(1) by simp
    then have "(2::nat) ^ r \<le> 2 ^ (s - 1)" by (intro power_increasing) auto
    moreover have "n \<noteq> 0" using le(2,3) \<open>r \<noteq> s\<close> by (auto simp: has_bits_def)
    ultimately show False using le(2,3) unfolding has_bits_def by linarith
  qed
qed auto

lemma bit_top: "bit n k \<longleftrightarrow> 2 ^ k \<le> n" if "n < 2 ^ Suc k" for n :: nat
proof -
  have "n div 2 ^ k < 2" using that by (simp add: less_mult_imp_div_less)
  moreover have "2 ^ k \<le> n \<longleftrightarrow> n div 2 ^ k \<noteq> 0" by (auto simp: div_eq_0_iff)
  ultimately show ?thesis by (auto simp: bit_iff_odd less_2_cases_iff)
qed

lemma and_bit: "p AND push_bit k 1 \<noteq> 0 \<longleftrightarrow> bit p k" for p :: u32
  by (simp add: and_exp_eq_0_iff_not_bit push_bit_eq_mult)

lemma top_bit: "unat p < 2 ^ Suc n \<Longrightarrow> p \<noteq> 0 \<Longrightarrow> n < 32 \<Longrightarrow> has_bits (top_bit p n) (unat p)"
proof (induction n)
  case (Suc n)
  have "bit p (Suc n) \<longleftrightarrow> 2 ^ Suc n \<le> unat p" using bit_top [OF Suc.prems(1)] by (simp add: bit_unsigned_iff)
  then show ?case using Suc and_bit [of p "Suc n"] by (auto simp: has_bits_def unat_eq_zero)
qed (auto simp: has_bits_def unat_eq_zero Suc_le_eq unat_gt_0)

lemma has_bits_shift:
  assumes "has_bits t p" and "p \<noteq> 0" and "n < 2 ^ k"
  shows "has_bits (k + t) (n + 2 ^ k * p)"
proof -
  have "n + 2 ^ k * p < 2 ^ k * (p + 1)" using assms(3) by simp
  also have "\<dots> \<le> 2 ^ k * 2 ^ t" using assms(1) by (intro mult_le_mono) (auto simp: has_bits_def)
  finally have "n + 2 ^ k * p < 2 ^ (k + t)" by (simp add: power_add)
  moreover have "t > 0" using assms(1,2) by (cases t) (auto simp: has_bits_def)
  moreover from this have "(2::nat) ^ (k + t - 1) = 2 ^ k * 2 ^ (t - 1)" by (simp flip: power_add)
  moreover have "2 ^ k * 2 ^ (t - 1) \<le> 2 ^ k * p" using assms(1,2) by (simp add: has_bits_def)
  ultimately have "2 ^ (k + t - 1) \<le> n + 2 ^ k * p" by linarith
  then show ?thesis using \<open>n + 2 ^ k * p < 2 ^ (k + t)\<close> assms(2) by (simp add: has_bits_def)
qed

lemma num_take_Suc: "k < length ps \<Longrightarrow> num (take (Suc k) ps) = num (take k ps) + 2 ^ (32 * k) * unat (ps ! k)"
  by (simp add: take_Suc_conv_app_nth num_append)

lemma bits_from: "pos \<le> length ps \<Longrightarrow> has_bits (bits_from ps pos) (num (take pos ps))"
proof (induction pos)
  case (Suc pos)
  have l: "num (take pos ps) < 2 ^ (32 * pos)" using num_less [of "take pos ps"] Suc.prems by simp
  show ?case
  proof (cases "ps ! pos = 0")
    case False
    then have "has_bits (top_bit (ps ! pos) 31) (unat (ps ! pos))" using top_bit [of "ps ! pos" 31] by simp
    then show ?thesis
      using has_bits_shift [OF _ _ l, of "top_bit (ps ! pos) 31" "unat (ps ! pos)"] False Suc.prems
      by (simp add: num_take_Suc unat_eq_zero)
  qed (use Suc num_take_Suc [of pos ps] in simp)
qed (simp add: has_bits_def)

lemma has_bits_num: "has_bits (bu_bits ps) (num ps)"
  using bits_from [of "length ps" ps] by (simp add: bu_bits_def)

lemma bits_le: "bu_bits ps \<le> 32 * length ps"
proof (rule ccontr)
  assume "\<not> bu_bits ps \<le> 32 * length ps"
  then have "(2::nat) ^ (32 * length ps) \<le> 2 ^ (bu_bits ps - 1)" by (intro power_increasing) auto
  moreover have "num ps \<noteq> 0" using has_bits_num [of ps] \<open>\<not> _\<close> by (auto simp: has_bits_def)
  ultimately show False using has_bits_num [of ps] num_less [of ps] unfolding has_bits_def by linarith
qed

lemma bit_count_from:
  "i \<le> 32 * length ps \<Longrightarrow> (if take_bit i (num ps) = 0 then bit_count_from ps i = Inl (Undefined ''read past the end of an array'')
     else \<exists>r. bit_count_from ps i = Inr r \<and> has_bits r (take_bit i (num ps)))"
proof (induction i)
  case (Suc i)
  have b: "ps ! (i div 32) AND push_bit (i mod 32) 1 \<noteq> 0 \<longleftrightarrow> bit (num ps) i"
    using Suc.prems unfolding and_bit bit_num by auto
  have t: "take_bit (Suc i) (num ps) = 2 ^ i * of_bool (bit (num ps) i) + take_bit i (num ps)"
    by (rule take_bit_Suc_from_most)
  show ?case
  proof (cases "bit (num ps) i")
    case True
    have "take_bit i (num ps) < 2 ^ i" by simp
    then show ?thesis using True b t by (auto simp: has_bits_def)
  qed (use Suc b t in simp)
qed simp

lemma BitCount_bits: "BitCount ps = (if num ps = 0 then Inl (Undefined ''read past the end of an array'') else Inr (bu_bits ps))"
proof -
  have "take_bit (32 * length ps) (num ps) = num ps" by (simp add: take_bit_eq_mod)
  then show ?thesis
    using bit_count_from [of "32 * length ps" ps] has_bits_unique [OF has_bits_num [of ps]] by (auto simp: BitCount_def)
qed

section \<open>Shifts\<close>

lemma div_mod32: "r < 32 \<Longrightarrow> (32 * q + r) div 32 = q" "r < 32 \<Longrightarrow> (32 * q + r) mod 32 = r" for q r :: nat
  by auto

lemma shl_fold:
  "n \<le> length a \<Longrightarrow> length (fold (shl_step a k s) [0..<n] (replicate (length a) 0)) = length a \<and>
     (\<forall>m < length a. fold (shl_step a k s) [0..<n] (replicate (length a) 0) ! m =
       (if k \<le> m \<and> m - k < n then push_bit s (a ! (m - k)) else 0) OR
       (if k + 1 \<le> m \<and> m - k - 1 < n \<and> s \<noteq> 0 then drop_bit (32 - s) (a ! (m - k - 1)) else 0))"
proof (induction n)
  case (Suc n)
  define r where "r = fold (shl_step a k s) [0..<n] (replicate (length a) 0)"
  have r: "length r = length a" and v: "\<forall>m < length a. r ! m =
       (if k \<le> m \<and> m - k < n then push_bit s (a ! (m - k)) else 0) OR
       (if k + 1 \<le> m \<and> m - k - 1 < n \<and> s \<noteq> 0 then drop_bit (32 - s) (a ! (m - k - 1)) else 0)"
    using Suc by (auto simp: r_def)
  have e: "fold (shl_step a k s) [0..<Suc n] (replicate (length a) 0) = shl_step a k s n r" by (simp add: r_def)
  have c: "m = n + k \<or> m = n + k + 1 \<or> (m - k < Suc n \<longleftrightarrow> m - k < n) \<and> (m - k - 1 < Suc n \<longleftrightarrow> m - k - 1 < n) \<and> m \<noteq> n + k \<and> m \<noteq> n + k + 1"
    if "k \<le> m" for m using that by linarith
  have "shl_step a k s n r ! m =
       (if k \<le> m \<and> m - k < Suc n then push_bit s (a ! (m - k)) else 0) OR
       (if k + 1 \<le> m \<and> m - k - 1 < Suc n \<and> s \<noteq> 0 then drop_bit (32 - s) (a ! (m - k - 1)) else 0)" if m: "m < length a" for m
  proof (cases "k \<le> m")
    case True
    from c [OF this] consider "m = n + k" | "m = n + k + 1" |
      "(m - k < Suc n \<longleftrightarrow> m - k < n)" "(m - k - 1 < Suc n \<longleftrightarrow> m - k - 1 < n)" "m \<noteq> n + k" "m \<noteq> n + k + 1" by blast
    then show ?thesis
    proof cases
      case 1 then show ?thesis using m v r by (auto simp: shl_step_def Let_def or.commute)
    next
      case 2 then show ?thesis using m v r by (auto simp: shl_step_def Let_def)
    next
      case 3 then show ?thesis using m v r by (auto simp: shl_step_def Let_def nth_list_update)
    qed
  qed (use m v r in \<open>auto simp: shl_step_def Let_def nth_list_update\<close>)
  then show ?case unfolding e using r by (auto simp: shl_step_def Let_def)
qed simp

lemma shr_fold:
  "n \<le> length a \<Longrightarrow> length (fold (shr_step a k s) [0..<n] (replicate (length a) 0)) = length a \<and>
     (\<forall>m < length a. fold (shr_step a k s) [0..<n] (replicate (length a) 0) ! m =
       (if m + k < n then drop_bit s (a ! (m + k)) else 0) OR
       (if m + k + 1 < n \<and> s \<noteq> 0 then push_bit (32 - s) (a ! (m + k + 1)) else 0))"
proof (induction n)
  case (Suc n)
  define r where "r = fold (shr_step a k s) [0..<n] (replicate (length a) 0)"
  have r: "length r = length a" and v: "\<forall>m < length a. r ! m =
       (if m + k < n then drop_bit s (a ! (m + k)) else 0) OR
       (if m + k + 1 < n \<and> s \<noteq> 0 then push_bit (32 - s) (a ! (m + k + 1)) else 0)"
    using Suc by (auto simp: r_def)
  have e: "fold (shr_step a k s) [0..<Suc n] (replicate (length a) 0) = shr_step a k s n r" by (simp add: r_def)
  have "shr_step a k s n r ! m =
       (if m + k < Suc n then drop_bit s (a ! (m + k)) else 0) OR
       (if m + k + 1 < Suc n \<and> s \<noteq> 0 then push_bit (32 - s) (a ! (m + k + 1)) else 0)" if m: "m < length a" for m
  proof -
    consider "m + k = n" | "m + k + 1 = n" | "m + k \<noteq> n" "m + k + 1 \<noteq> n" by blast
    then show ?thesis
    proof cases
      case 1 then show ?thesis using m v r Suc.prems by (auto simp: shr_step_def Let_def nth_list_update)
    next
      case 2 then show ?thesis using m v r Suc.prems by (auto simp: shr_step_def Let_def nth_list_update)
    next
      case 3 
      then have "m \<noteq> n - k \<or> n < k" "m \<noteq> n - k - 1 \<or> n < k + 1" by linarith+
      then show ?thesis using m v r 3 by (auto simp: shr_step_def Let_def nth_list_update)
    qed
  qed
  then show ?case unfolding e using r by (auto simp: shr_step_def Let_def)
qed simp

lemma length_shl [simp]: "length (bu_shl a n) = length a"
  using shl_fold [of "length a" a] by (simp add: bu_shl_def)

lemma length_shr [simp]: "length (bu_shr a n) = length a"
  using shr_fold [of "length a" a] by (simp add: bu_shr_def)

lemma num_shl: "num (bu_shl a n) = take_bit (32 * length a) (push_bit n (num a))"
proof (rule num_nat_bit_eqI)
  fix i :: nat
  define k s m j where "k = n div 32" and "s = n mod 32" and "m = i div 32" and "j = i mod 32"
  have d: "n = 32 * k + s" "i = 32 * m + j" "s < 32" "j < 32" by (simp_all add: k_def s_def m_def j_def)
  have l: "i < 32 * length a \<longleftrightarrow> m < length a" using d by linarith
  show "bit (take_bit (32 * length a) (push_bit n (num a))) i \<longleftrightarrow> i div 32 < length (bu_shl a n) \<and> bit (bu_shl a n ! (i div 32)) (i mod 32)"
  proof (cases "m < length a")
    case True
    have v: "bu_shl a n ! m = (if k \<le> m then push_bit s (a ! (m - k)) else 0) OR
       (if k + 1 \<le> m \<and> s \<noteq> 0 then drop_bit (32 - s) (a ! (m - k - 1)) else 0)"
      using shl_fold [of "length a" a k s] True by (auto simp: bu_shl_def k_def s_def)
    have "n \<le> i \<and> bit (num a) (i - n) \<longleftrightarrow>
      (if s \<le> j then k \<le> m \<and> bit (a ! (m - k)) (j - s) else k + 1 \<le> m \<and> bit (a ! (m - k - 1)) (32 + j - s))"
    proof (cases "s \<le> j")
      case t: True
      show ?thesis
      proof (cases "k \<le> m")
        case True
        then have "i - n = 32 * (m - k) + (j - s)" "n \<le> i" using d t by (simp_all add: diff_mult_distrib2)
        moreover have "(32 * (m - k) + (j - s)) div 32 = m - k" "(32 * (m - k) + (j - s)) mod 32 = j - s" using d by auto
        ultimately show ?thesis using t True less_imp_diff_less [OF \<open>m < length a\<close>, of k] by (simp add: bit_num)
      qed (use d t in auto)
    next
      case f: False
      show ?thesis
      proof (cases "k + 1 \<le> m")
        case True
        then have "i - n = 32 * (m - k - 1) + (32 + j - s)" "n \<le> i" using d f by linarith+
        moreover have "(32 * (m - k - 1) + (32 + j - s)) div 32 = m - k - 1" "(32 * (m - k - 1) + (32 + j - s)) mod 32 = 32 + j - s"
          using d f by (intro div_mod32; linarith)+
        ultimately show ?thesis using f True less_imp_diff_less [OF \<open>m < length a\<close>, of "Suc k"] by (simp add: bit_num)
      qed (use d f in auto)
    qed
    moreover have "bit (bu_shl a n ! m) j \<longleftrightarrow>
      (if s \<le> j then k \<le> m \<and> bit (a ! (m - k)) (j - s) else k + 1 \<le> m \<and> bit (a ! (m - k - 1)) (32 + j - s))"
      using d(3,4) bit_imp_le_length [of "a ! (m - k - 1)" "32 + j - s"] by (auto simp: v bit_simps add.commute [of j])
    ultimately show ?thesis using True l by (simp add: bit_simps m_def [symmetric] j_def [symmetric])
  qed (use l in \<open>simp add: bit_simps m_def [symmetric] j_def [symmetric]\<close>)
qed

lemma num_shr: "num (bu_shr a n) = drop_bit n (num a)"
proof (rule num_nat_bit_eqI)
  fix i :: nat
  define k s m j where "k = n div 32" and "s = n mod 32" and "m = i div 32" and "j = i mod 32"
  have d: "n = 32 * k + s" "i = 32 * m + j" "s < 32" "j < 32" by (simp_all add: k_def s_def m_def j_def)
  have b: "bit (num a) (n + i) \<longleftrightarrow>
    (if s + j < 32 then m + k < length a \<and> bit (a ! (m + k)) (s + j) else m + k + 1 < length a \<and> bit (a ! (m + k + 1)) (s + j - 32))"
  proof (cases "s + j < 32")
    case True
    have "n + i = 32 * (m + k) + (s + j)" using d by simp
    moreover have "(32 * (m + k) + (s + j)) div 32 = m + k" "(32 * (m + k) + (s + j)) mod 32 = s + j" by (rule div_mod32 [OF True])+
    ultimately show ?thesis using True by (simp only: bit_num if_True)
  next
    case False
    have "n + i = 32 * (m + k + 1) + (s + j - 32)" using d False by simp
    moreover have "(32 * (m + k + 1) + (s + j - 32)) div 32 = m + k + 1" "(32 * (m + k + 1) + (s + j - 32)) mod 32 = s + j - 32"
      using False d by (intro div_mod32; linarith)+
    ultimately show ?thesis using False by (simp only: bit_num if_False)
  qed
  show "bit (drop_bit n (num a)) i \<longleftrightarrow> i div 32 < length (bu_shr a n) \<and> bit (bu_shr a n ! (i div 32)) (i mod 32)"
  proof (cases "m < length a")
    case True
    have v: "bu_shr a n ! m = (if m + k < length a then drop_bit s (a ! (m + k)) else 0) OR
       (if m + k + 1 < length a \<and> s \<noteq> 0 then push_bit (32 - s) (a ! (m + k + 1)) else 0)"
      using shr_fold [of "length a" a k s] True by (auto simp: bu_shr_def k_def s_def)
    have "bit (bu_shr a n ! m) j \<longleftrightarrow>
      (if s + j < 32 then m + k < length a \<and> bit (a ! (m + k)) (s + j) else m + k + 1 < length a \<and> bit (a ! (m + k + 1)) (s + j - 32))"
      using d(3,4) bit_imp_le_length [of "a ! (m + k)" "s + j"] by (auto simp: v bit_simps add.commute [of j s])
    then show ?thesis using True b by (simp add: bit_drop_bit_eq m_def [symmetric] j_def [symmetric])
  qed (use b in \<open>auto simp: bit_drop_bit_eq m_def [symmetric] j_def [symmetric]\<close>)
qed

end
