(* ===== verification/Base_Uint_Forms.thy ===== *)
theory Base_Uint_Forms
  imports Base_Uint_Laws
begin

text \<open>
  Division of big integers, and their other forms: the compact form of targets, hexadecimal strings and bytes.
\<close>

unbundle bit_operations_syntax

section \<open>Division\<close>

lemma num_set_bit:
  assumes "c < 32 * length ps"
  shows "num (ps[c div 32 := ps ! (c div 32) OR push_bit (c mod 32) 1]) = set_bit c (num ps)"
proof (rule num_nat_bit_eqI)
  fix i
  have "c = i \<longleftrightarrow> c div 32 = i div 32 \<and> c mod 32 = i mod 32" by (metis div_mult_mod_eq)
  moreover have "c div 32 < length ps" using assms by linarith
  ultimately show "bit (set_bit c (num ps)) i \<longleftrightarrow> i div 32 < length (ps[c div 32 := ps ! (c div 32) OR push_bit (c mod 32) 1])
      \<and> bit (ps[c div 32 := ps ! (c div 32) OR push_bit (c mod 32) 1] ! (i div 32)) (i mod 32)"
    by (auto simp: bit_num bit_set_bit_iff nth_list_update bit_simps)
qed

lemma set_bit_add: "2 ^ Suc c dvd n \<Longrightarrow> set_bit c n = n + 2 ^ c" for n :: nat
proof -
  assume "2 ^ Suc c dvd n"
  then obtain k where "n = 2 ^ c * (2 * k)" by (auto simp: dvd_def)
  then have "\<not> bit n c" by (simp add: bit_iff_odd)
  then show ?thesis by (simp add: set_bit_eq)
qed

lemma div_loop_num:
  assumes "num n < d0 * 2 ^ c" and "c > 0 \<longrightarrow> num d = d0 * 2 ^ (c - 1)" and "2 ^ c dvd num pn" and "c \<le> 32 * length pn"
    and "length n = length pn" and "length d = length pn"
  shows "num (fst (div_loop c n d pn)) = num pn + num n div d0 \<and> length (fst (div_loop c n d pn)) = length pn"
  using assms
proof (induction c arbitrary: n d pn)
  case (Suc c)
  have d: "num d = d0 * 2 ^ c" and l: "length n = length d" using Suc.prems by simp_all
  have d0: "d0 > 0" using Suc.prems(1) by (cases d0) simp_all
  have d': "c > 0 \<longrightarrow> num (bu_shr d 1) = d0 * 2 ^ (c - 1)"
    by (cases c) (simp_all add: num_shr d drop_bit_eq_div)
  show ?case
  proof (cases "bu_ge n d")
    case True
    then have ge: "d0 * 2 ^ c \<le> num n" using below_num [of d n True] l d by (auto simp: bu_ge_def)
    have n': "num (bu_sub n d) = num n - d0 * 2 ^ c" "length (bu_sub n d) = length pn"
      using num_sub_le [of n d] l d ge Suc.prems by (simp_all add: bu_sub_def bu_add_def)
    define pn' where "pn' = pn[c div 32 := pn ! (c div 32) OR push_bit (c mod 32) 1]"
    have p: "num pn' = num pn + 2 ^ c" "length pn' = length pn"
      using num_set_bit [of c pn] set_bit_add [OF Suc.prems(3)] Suc.prems(4) by (simp_all add: pn'_def)
    have "2 ^ c dvd num pn" using Suc.prems(3) by (auto simp: dvd_def)
    then have "num (fst (div_loop c (bu_sub n d) (bu_shr d 1) pn')) = num pn' + num (bu_sub n d) div d0
        \<and> length (fst (div_loop c (bu_sub n d) (bu_shr d 1) pn')) = length pn'"
      using Suc.prems ge n' p d' by (intro Suc.IH) auto
    moreover have "num n div d0 = (num n - d0 * 2 ^ c) div d0 + 2 ^ c"
      using ge d0 div_mult_self4 [of d0 "2 ^ c" "num n - d0 * 2 ^ c"] by (simp add: add.commute)
    ultimately show ?thesis using True p n' by (simp add: pn'_def)
  next
    case False
    then have "num n < d0 * 2 ^ c" using below_num [of d n True] l d by (auto simp: bu_ge_def)
    moreover have "2 ^ c dvd num pn" using Suc.prems(3) by (auto simp: dvd_def)
    ultimately show ?thesis using False Suc.IH [of n "bu_shr d 1" pn] Suc.prems d' by simp
  qed
qed simp

lemma num_div:
  assumes l: "length ps = length qs" "2 \<le> length ps" and z: "num qs \<noteq> 0"
  shows "\<exists>r. bu_div ps qs = Inr r \<and> length r = length ps \<and> num r = num ps div num qs"
proof -
  define N D where "N = bu_bits ps" and "D = bu_bits qs"
  have n: "num ps < 2 ^ N" and d: "num qs < 2 ^ D" "2 ^ (D - 1) \<le> num qs"
    using has_bits_num [of ps] has_bits_num [of qs] z by (auto simp: has_bits_def N_def D_def)
  have D0: "D > 0" using d z by (cases D) auto
  show ?thesis
  proof (cases "D > N")
    case True
    then have "(2::nat) ^ N \<le> 2 ^ (D - 1)" by (intro power_increasing) auto
    then have "num ps < num qs" using n d by linarith
    then show ?thesis using True D0 l by (simp add: bu_div_def N_def [symmetric] D_def [symmetric] Let_def num_of64)
  next
    case False
    define s where "s = N - D"
    have ND: "N = D + s" using False by (simp add: s_def)
    have N: "N \<le> 32 * length ps" using bits_le [of ps] by (simp add: N_def)
    have "num qs * 2 ^ s < 2 ^ D * 2 ^ s" using d by simp
    also have "\<dots> \<le> 2 ^ (32 * length ps)" unfolding power_add [symmetric] ND [symmetric] using N by (intro power_increasing) auto
    finally have sh: "num (bu_shl qs s) = num qs * 2 ^ s" using l by (simp add: num_shl push_bit_eq_mult take_bit_eq_mod)
    have "num ps < 2 ^ (D - 1) * 2 ^ Suc s" using n D0 by (cases D) (simp_all add: ND power_add)
    also have "\<dots> \<le> num qs * 2 ^ Suc s" using d by (intro mult_le_mono) auto
    finally have "num ps < num qs * 2 ^ Suc s" .
    moreover have "Suc s \<le> 32 * length ps" using N D0 ND by simp
    ultimately have "num (fst (div_loop (Suc s) ps (bu_shl qs s) (bu_of64 (length ps) 0))) = num ps div num qs
        \<and> length (fst (div_loop (Suc s) ps (bu_shl qs s) (bu_of64 (length ps) 0))) = length ps"
      using div_loop_num [of ps "num qs" "Suc s" "bu_shl qs s" "bu_of64 (length ps) 0"] sh l by (simp add: num_of64)
    then show ?thesis using False D0 by (simp add: bu_div_def N_def [symmetric] D_def [symmetric] Let_def s_def)
  qed
qed

section \<open>Compact form\<close>

lemma unat_of_nat_small: "n < 4294967296 \<Longrightarrow> unat (of_nat n :: u32) = n"
    "n < 18446744073709551616 \<Longrightarrow> unat (of_nat n :: u64) = n"
  by (simp_all add: unat_of_nat)

lemma ucast_of_unat: "unat (w :: u64) = n \<Longrightarrow> (ucast w :: u32) = of_nat n"
  using of_nat_unat [of w, where ?'a = "32 word"] by simp

lemma unat_Get64: "2 \<le> length ps \<Longrightarrow> unat (Get64 ps 0) = num ps mod 2 ^ 64"
proof -
  assume "2 \<le> length ps"
  then obtain p q qs where ps: "ps = p # q # qs" by (cases ps rule: remdups_adj.cases) auto
  have b: "\<not> bit (ucast p :: u64) n \<or> \<not> bit (push_bit 32 (ucast q) :: u64) n" for n
    using bit_imp_le_length [of p n] by (auto simp: bit_simps)
  have "Get64 ps 0 = ucast p + push_bit 32 (ucast q)" using disjunctive_add [OF b] by (simp add: Get64_def ps)
  moreover have "push_bit 32 (ucast q :: u64) = of_nat (4294967296 * unat q)" by (simp add: push_bit_eq_mult)
  ultimately have "Get64 ps 0 = of_nat (unat p + 4294967296 * unat q)" by simp
  moreover have "unat p + 4294967296 * unat q < 18446744073709551616" using unat32 [of p] unat32 [of q] by linarith
  ultimately have "unat (Get64 ps 0) = unat p + 4294967296 * unat q" by (simp only: unat_of_nat_small)
  moreover have "num ps = unat p + 4294967296 * unat q + 18446744073709551616 * num qs" by (simp add: ps)
  ultimately show ?thesis using \<open>unat p + 4294967296 * unat q < _\<close> by simp
qed

lemma compact_parts:
  assumes "v < 2 ^ 23" and "s < 256"
  shows "unat ((of_nat v OR push_bit 24 (of_nat s) :: u32) AND 0x007fffff) = v"
    and "unat (drop_bit 24 (of_nat v OR push_bit 24 (of_nat s) :: u32)) = s"
proof -
  have b: "\<not> bit v n \<or> \<not> bit (push_bit 24 s) n" for n
  proof (cases "n < 24")
    case False
    then have "v < 2 ^ n" using assms(1) power_increasing [of 23 n "2::nat"] by linarith
    then show ?thesis by (simp add: bit_iff_odd)
  qed (simp add: bit_simps)
  define c :: u32 where "c = of_nat v OR push_bit 24 (of_nat s)"
  have "v OR push_bit 24 s = v + 16777216 * s" unfolding disjunctive_add [OF b, symmetric] by (simp add: push_bit_eq_mult)
  moreover have "c = of_nat (v OR push_bit 24 s)" by (simp add: c_def of_nat_or_eq of_nat_push_bit)
  moreover have "v + 16777216 * s < 4294967296" using assms by simp
  ultimately have u: "unat c = v + 16777216 * s" by (simp only: unat_of_nat_small)
  have "c AND 0x007fffff = take_bit 23 c" by (simp add: take_bit_eq_mask mask_eq_exp_minus_1)
  then have "unat (c AND 0x007fffff) = unat c mod 8388608" by (simp add: take_bit_eq_mod unat_mod_distrib)
  also have "\<dots> = v"
  proof -
    have "v + 16777216 * s = v + 8388608 * (2 * s)" by simp
    then show ?thesis unfolding u using assms by (simp only: mod_mult_self2) simp
  qed
  finally show "unat ((of_nat v OR push_bit 24 (of_nat s) :: u32) AND 0x007fffff) = v" unfolding c_def .
  have "unat (drop_bit 24 c) = unat c div 16777216" by (simp add: drop_bit_eq_div unat_div_distrib)
  also have "\<dots> = s" unfolding u using assms by simp
  finally show "unat (drop_bit 24 (of_nat v OR push_bit 24 (of_nat s) :: u32)) = s" unfolding c_def .
qed

lemma compact_size: "(n + 7) div 8 + (if n mod 8 = 0 then 1 else 0) = n div 8 + (1::nat)"
  by presburger

lemma num_SetCompact:
  assumes "2 \<le> w"
  shows "num (SetCompact w c) =
    (let s = unat (drop_bit 24 c); v = unat (c AND 0x007fffff) in if s \<le> 3 then v div 2 ^ (8 * (3 - s)) else (v * 2 ^ (8 * (s - 3))) mod 2 ^ (32 * w))"
proof -
  have "unat (ucast (drop_bit k (x :: u32)) :: u64) = unat x div 2 ^ k" for k x
    unfolding unat_ucast64 unat_drop_bit_eq by (rule drop_bit_eq_div)
  moreover define x where "x = c AND 0x007fffff"
  ultimately show ?thesis
    using assms unfolding SetCompact_def x_def [symmetric] by (simp add: SetCompact_def Let_def num_of64 num_shl push_bit_eq_mult take_bit_eq_mod)
qed

lemma compact_round:
  assumes w: "2 \<le> length ps" "length ps \<le> 63"
  defines "k \<equiv> bu_bits ps div 8 - 2"
  shows "num (SetCompact (length ps) (GetCompact ps)) = num ps div 256 ^ k * 256 ^ k"
    and "\<not> bit (GetCompact ps) 23" and "unat (drop_bit 24 (GetCompact ps)) = bu_bits ps div 8 + 1"
proof -
  define B s where "B = bu_bits ps" and "s = B div 8 + 1"
  have n: "num ps < 2 ^ B" using has_bits_num [of ps] by (simp add: has_bits_def B_def)
  have "B \<le> 32 * 63" using bits_le [of ps] w by (simp add: B_def)
  then have s: "s < 256" by (simp add: s_def)
  have B: "B \<le> 8 * s - 1" by (simp add: s_def)
  define v where "v = (if s \<le> 3 then num ps * 2 ^ (8 * (3 - s)) else num ps div 2 ^ (8 * (s - 3)))"
  have v: "v < 2 ^ 23"
  proof (cases "s \<le> 3")
    case True
    have "num ps * 2 ^ (8 * (3 - s)) < 2 ^ B * 2 ^ (8 * (3 - s))" using n by simp
    also have "\<dots> \<le> 2 ^ 23" unfolding power_add [symmetric] using True B by (intro power_increasing) (auto simp: s_def)
    finally show ?thesis using True by (simp add: v_def)
  next
    case False
    have "(2::nat) ^ B \<le> 2 ^ (23 + 8 * (s - 3))" using False B by (intro power_increasing) auto
    then have "num ps < 2 ^ 23 * 2 ^ (8 * (s - 3))" using n by (simp only: power_add)
    then show ?thesis using False by (simp add: v_def less_mult_imp_div_less)
  qed
  have g: "GetCompact ps = of_nat v OR push_bit 24 (of_nat s)"
  proof (cases "s \<le> 3")
    case True
    have "(2::nat) ^ B \<le> 2 ^ 64" using True by (intro power_increasing) (auto simp: s_def)
    then have "unat (Get64 ps 0) = num ps" using unat_Get64 [OF w(1)] n by simp
    moreover have "of_nat (unat (Get64 ps 0)) = Get64 ps 0" by simp
    ultimately have "Get64 ps 0 = of_nat (num ps)" by simp
    then have "push_bit (8 * (3 - s)) (Get64 ps 0) = of_nat (push_bit (8 * (3 - s)) (num ps))" by (simp add: of_nat_push_bit)
    then have "push_bit (8 * (3 - s)) (Get64 ps 0) = of_nat v" using True by (simp add: v_def push_bit_eq_mult)
    then have "ucast (push_bit (8 * (3 - s)) (Get64 ps 0)) = (of_nat v :: u32)"
      using ucast_of_unat [of "push_bit (8 * (3 - s)) (Get64 ps 0)" v] v unat_of_nat_small(2) [of v] by simp
    then show ?thesis using True unfolding GetCompact_def Let_def compact_size B_def [symmetric] s_def [symmetric] by simp
  next
    case False
    have "num (bu_shr ps (8 * (s - 3))) = v" using False by (simp add: num_shr drop_bit_eq_div v_def)
    then have "unat (Get64 (bu_shr ps (8 * (s - 3))) 0) = v" using unat_Get64 [of "bu_shr ps (8 * (s - 3))"] w v by simp
    then have "ucast (Get64 (bu_shr ps (8 * (s - 3))) 0) = (of_nat v :: u32)" by (rule ucast_of_unat)
    then show ?thesis using False unfolding GetCompact_def Let_def compact_size B_def [symmetric] s_def [symmetric] by simp
  qed
  have "\<not> bit v 23" using v by (simp add: bit_iff_odd)
  then show "\<not> bit (GetCompact ps) 23" by (simp add: g bit_simps)
  show "unat (drop_bit 24 (GetCompact ps)) = bu_bits ps div 8 + 1"
    unfolding g compact_parts [OF v s] by (simp add: s_def B_def)
  have r: "num (SetCompact (length ps) (GetCompact ps)) =
      (if s \<le> 3 then v div 2 ^ (8 * (3 - s)) else (v * 2 ^ (8 * (s - 3))) mod 2 ^ (32 * length ps))"
    unfolding num_SetCompact [OF w(1)] g compact_parts [OF v s] by simp
  show "num (SetCompact (length ps) (GetCompact ps)) = num ps div 256 ^ k * 256 ^ k"
  proof (cases "s \<le> 3")
    case True
    then show ?thesis unfolding r by (simp add: v_def k_def B_def [symmetric] s_def)
  next
    case False
    have "v * 2 ^ (8 * (s - 3)) \<le> num ps" using False by (simp add: v_def)
    then have "v * 2 ^ (8 * (s - 3)) < 2 ^ (32 * length ps)" using num_less [of ps] by linarith
    moreover have "k = s - 3" by (simp add: k_def B_def [symmetric] s_def)
    moreover have "(256::nat) ^ k = 2 ^ (8 * k)" by (simp add: power_mult)
    ultimately show ?thesis unfolding r using False by (simp add: v_def)
  qed
qed

section \<open>Strings and bytes\<close>

lemma words_of_append: "words_of (ser_word (p :: u32) @ bs) = p # words_of bs"
proof -
  have "\<exists>a b c d. xs = [a, b, c, d]" if "length xs = 4" for xs :: "byte list"
    using that by (auto simp: length_Suc_conv numeral_eq_Suc)
  from this [of "ser_word p"] obtain a b c d where e: "ser_word p = [a, b, c, d]" by auto
  then have "deser_word [a, b, c, d] = p" using deser_ser_word [where ?'a = 32, of p] by simp
  then show ?thesis by (simp add: e)
qed

lemma words_of_bytes [simp]: "words_of (bu_bytes ps) = ps"
  by (induction ps) (simp_all add: bu_bytes_def words_of_append)

lemma length_bu_bytes [simp]: "length (bu_bytes ps) = 4 * length ps"
  by (induction ps) (simp_all add: bu_bytes_def)

lemma digit_value:
  assumes "n < 16"
  shows "phexdigit (hex_digit n) = n \<and> (phexdigit (hex_digit n) \<noteq> 0 \<or> hex_digit n = CHR ''0'') \<and> \<not> is_space (hex_digit n)
    \<and> hex_digit n \<noteq> CHR ''x'' \<and> hex_digit n \<noteq> CHR ''X''"
proof -
  have "\<forall>n \<in> set [0..<16]. phexdigit (hex_digit n) = n \<and> (phexdigit (hex_digit n) \<noteq> 0 \<or> hex_digit n = CHR ''0'') \<and> \<not> is_space (hex_digit n)
    \<and> hex_digit n \<noteq> CHR ''x'' \<and> hex_digit n \<noteq> CHR ''X''"
    by code_simp
  moreover have "n \<in> set [0..<16]" using assms by simp
  ultimately show ?thesis by blast
qed

lemma nibbles: "unat (b :: byte) div 16 < 16" "unat b mod 16 < 16"
proof -
  have "unat b < 256" using unsigned_less [of b] by simp
  then show "unat b div 16 < 16" by linarith
qed simp

lemma byte_of_nibbles: "(of_nat (unat b mod 16) OR push_bit 4 (of_nat (unat b div 16)) :: byte) = b"
proof -
  have "of_nat (unat b mod 16) = take_bit 4 b"
    by (rule word_unat_eq_iff [THEN iffD2]) (simp add: unat_of_nat unsigned_take_bit_eq take_bit_eq_mod unat_mod_distrib)
  moreover have "of_nat (unat b div 16) = drop_bit 4 b"
    by (rule word_unat_eq_iff [THEN iffD2]) (use nibbles(1) [of b] in \<open>simp add: unat_of_nat drop_bit_eq_div unat_div_distrib\<close>)
  moreover have "take_bit 4 b OR push_bit 4 (drop_bit 4 b) = b"
  proof (rule bit_eqI)
    fix n show "bit (take_bit 4 b OR push_bit 4 (drop_bit 4 b)) n \<longleftrightarrow> bit b n"
      using bit_imp_le_length [of b n] by (cases "n < 4") (auto simp: bit_simps)
  qed
  ultimately show ?thesis by simp
qed

lemma hex_bytes_GetHex: "hex_bytes (rev (concat (map hex2 (rev bs)))) = bs"
proof (induction bs)
  case (Cons b bs)
  have "rev (concat (map hex2 (rev (b # bs)))) = hex_digit (unat b mod 16) # hex_digit (unat b div 16) # rev (concat (map hex2 (rev bs)))"
    by (simp add: hex2_def)
  then show ?case using Cons digit_value nibbles [of b] byte_of_nibbles [of b] by simp
qed simp

lemma GetHex_digits:
  assumes "c \<in> set (GetHex ps)"
  shows "\<exists>n < 16. c = hex_digit n"
proof -
  obtain b :: byte where "c = hex_digit (unat b div 16) \<or> c = hex_digit (unat b mod 16)"
    using assms by (auto simp: GetHex_def hex2_def)
  then show ?thesis using nibbles [of b] by blast
qed

lemma length_concat_hex2 [simp]: "length (concat (map hex2 bs)) = 2 * length bs"
  by (induction bs) (simp_all add: hex2_def)

lemma SetHex_GetHex: "ps \<noteq> [] \<Longrightarrow> SetHex (length ps) (GetHex ps) = ps"
proof -
  assume "ps \<noteq> []"
  then have "length (GetHex ps) \<ge> 2" by (cases ps) (simp_all add: GetHex_def)
  then obtain c d cs where h: "GetHex ps = c # d # cs" by (cases "GetHex ps" rule: remdups_adj.cases) auto
  have p: "\<not> is_space x" "x \<noteq> CHR ''x''" "x \<noteq> CHR ''X''" "phexdigit x \<noteq> 0 \<or> x = CHR ''0''" if "x \<in> set (GetHex ps)" for x
    using GetHex_digits [OF that] digit_value by auto
  have a: "dropWhile is_space (GetHex ps) = GetHex ps" using p(1) [of c] by (simp add: h)
  have b: "skip_prefix (GetHex ps) = GetHex ps" using p(2,3) [of d] by (simp add: h skip_prefix_def)
  have t: "takeWhile (\<lambda>c. phexdigit c \<noteq> 0 \<or> c = CHR ''0'') (GetHex ps) = GetHex ps" using p(4) by (simp add: takeWhile_eq_all_conv)
  have "hex_bytes (rev (GetHex ps)) = bu_bytes ps" by (simp add: GetHex_def hex_bytes_GetHex)
  then show ?thesis unfolding SetHex_def Let_def a b t by simp
qed

lemma word_of_bytes_be:
  "push_bit 24 (ucast (ucast (drop_bit 24 p) :: u8)) + push_bit 16 (ucast (ucast (drop_bit 16 p) :: u8))
    + push_bit 8 (ucast (ucast (drop_bit 8 p) :: u8)) + ucast (ucast p :: u8) = (p :: u32)" (is "?a + ?b + ?c + ?d = p")
proof -
  have "?a + ?b = ?a OR ?b" by (rule disjunctive_add) (auto simp: bit_simps)
  moreover have "(?a OR ?b) + ?c = ?a OR ?b OR ?c" by (subst disjunctive_add) (auto simp: bit_simps or.assoc)
  moreover have "(?a OR ?b OR ?c) + ?d = ?a OR ?b OR ?c OR ?d" by (subst disjunctive_add) (auto simp: bit_simps or.assoc)
  moreover have "?a OR ?b OR ?c OR ?d = p"
  proof (rule bit_eqI)
    fix n :: nat
    consider "n < 8" | "8 \<le> n" "n < 16" | "16 \<le> n" "n < 24" | "24 \<le> n" by linarith
    then show "bit (?a OR ?b OR ?c OR ?d) n \<longleftrightarrow> bit p n"
      using bit_imp_le_length [of p n] by cases (auto simp: bit_simps)
  qed
  ultimately show ?thesis by simp
qed

lemma words_be_GetBytes: "words_be (length ps) (GetBytes ps) = Inr ps"
proof (induction ps)
  case (Cons p ps)
  then show ?case using word_of_bytes_be [of p] by (simp add: GetBytes_def)
qed (simp add: GetBytes_def)

section \<open>Properties\<close>

text \<open>C27. The operators of big integers compute on numbers modulo two to the width: the sum, the difference, the negation, the
  product, both shifts and the order of two numbers of the same width.\<close>

theorem big_integers_compute:
  assumes "length ps = length qs"
  shows "num (bu_add ps qs) = (num ps + num qs) mod 2 ^ (32 * length ps)
    \<and> num (bu_sub ps qs) = (num ps + (2 ^ (32 * length ps) - num qs)) mod 2 ^ (32 * length ps)
    \<and> num (bu_neg ps) = (2 ^ (32 * length ps) - num ps) mod 2 ^ (32 * length ps)
    \<and> num (bu_mul ps qs) = (num ps * num qs) mod 2 ^ (32 * length ps)
    \<and> num (bu_shl ps k) = (num ps * 2 ^ k) mod 2 ^ (32 * length ps)
    \<and> num (bu_shr ps k) = num ps div 2 ^ k
    \<and> num (bu_inc ps) = (num ps + 1) mod 2 ^ (32 * length ps)
    \<and> num (bu_dec ps) = (num ps + (2 ^ (32 * length ps) - 1)) mod 2 ^ (32 * length ps)
    \<and> (bu_less ps qs \<longleftrightarrow> num ps < num qs) \<and> (bu_le ps qs \<longleftrightarrow> num ps \<le> num qs)
    \<and> (bu_greater ps qs \<longleftrightarrow> num ps > num qs) \<and> (bu_ge ps qs \<longleftrightarrow> num ps \<ge> num qs)"
proof -
  have "num (bu_shl ps k) = (num ps * 2 ^ k) mod 2 ^ (32 * length ps)" "num (bu_shr ps k) = num ps div 2 ^ k"
    unfolding num_shl num_shr push_bit_eq_mult take_bit_eq_mod drop_bit_eq_div by (rule refl)+
  moreover have "bu_less ps qs \<longleftrightarrow> num ps < num qs" "bu_le ps qs \<longleftrightarrow> num ps \<le> num qs"
    "bu_greater ps qs \<longleftrightarrow> num ps > num qs" "bu_ge ps qs \<longleftrightarrow> num ps \<ge> num qs"
    using assms below_num [of ps qs] below_num [of qs ps] by (auto simp: bu_less_def bu_le_def bu_greater_def bu_ge_def)
  ultimately show ?thesis
    using num_add [OF assms] num_sub [OF assms] num_mul [OF assms] num_neg [of ps] num_inc [of ps] num_dec [of ps] by blast
qed

theorem big_integers_compute_witness:
  "num (bu_sub [1, 0] [2, 0]) = 18446744073709551615 \<and> num (bu_mul [4294967295, 1] [3, 0]) = 25769803773
    \<and> num (bu_shr [0, 1] 4) = 268435456 \<and> bu_less [4294967295, 0] [0, 1]"
  using big_integers_compute [of "[1, 0]" "[2, 0]" 0] big_integers_compute [of "[4294967295, 1]" "[3, 0]" 0]
    big_integers_compute [of "[0, 1]" "[0, 1]" 4] big_integers_compute [of "[4294967295, 0]" "[0, 1]" 0]
  by simp

text \<open>C28. Division is exact for every width of two words or more: the quotient rounded down, and an exception for a divisor of zero.\<close>

theorem big_integers_divide:
  assumes "length ps = length qs" and "2 \<le> length ps"
  shows "(num qs = 0 \<longrightarrow> bu_div ps qs = Inl (Throw ''Division by zero''))
    \<and> (num qs \<noteq> 0 \<longrightarrow> (\<exists>r. bu_div ps qs = Inr r \<and> length r = length ps \<and> num r = num ps div num qs))"
proof -
  have "num qs = 0 \<longrightarrow> bu_bits qs = 0" using has_bits_num [of qs] by (simp add: has_bits_def)
  then have "num qs = 0 \<longrightarrow> bu_div ps qs = Inl (Throw ''Division by zero'')" by (simp add: bu_div_def Let_def)
  then show ?thesis using num_div [OF assms] by blast
qed

theorem big_integers_divide_witness:
  "\<exists>r. bu_div [7, 3, 0, 0] [2, 0, 0, 0] = Inr r \<and> length r = 4 \<and> num r = 6442450947"
proof -
  have l: "length [7, 3, 0, 0 :: u32] = 4" by simp
  show ?thesis using big_integers_divide [of "[7, 3, 0, 0]" "[2, 0, 0, 0]", unfolded l] by simp
qed

text \<open>C29. Reading back the compact form of a number of n bits gives the number with its lowest n div 8 - 2 bytes cleared (none of
  them where n is less than 24). The bit of the compact form that would be its sign is never set, and its top byte is n div 8 + 1. The
  numbers are of 2 to 63 words.\<close>

theorem compact_round_trip:
  assumes "2 \<le> length ps" and "length ps \<le> 63"
  shows "num (SetCompact (length ps) (GetCompact ps)) = num ps div 256 ^ (bu_bits ps div 8 - 2) * 256 ^ (bu_bits ps div 8 - 2)
    \<and> \<not> bit (GetCompact ps) 23 \<and> unat (drop_bit 24 (GetCompact ps)) = bu_bits ps div 8 + 1"
  using compact_round [OF assms] by blast

theorem compact_round_trip_witness:
  "num (SetCompact 8 (GetCompact [1, 2, 3, 4, 0, 0, 0, 0])) = num [0, 0, 0, 4, 0, 0, 0, 0]
    \<and> \<not> bit (GetCompact [1, 2, 3, 4, 0, 0, 0, 0]) 23 \<and> unat (drop_bit 24 (GetCompact [1, 2, 3, 4, 0, 0, 0, 0])) = 13"
proof -
  have "bu_bits [1, 2, 3, 4, 0, 0, 0, 0] = 99" by code_simp
  moreover have "length [1, 2, 3, 4, 0, 0, 0, 0 :: u32] = 8" by simp
  ultimately show ?thesis using compact_round_trip [of "[1, 2, 3, 4, 0, 0, 0, 0]"] by (simp only:) simp
qed

text \<open>A big integer is read back from its hexadecimal string and from its bytes, at every width.\<close>

theorem big_integers_read_back:
  assumes "ps \<noteq> []"
  shows "SetHex (length ps) (GetHex ps) = ps \<and> words_be (length ps) (GetBytes ps) = Inr ps \<and> bu_of_bytes (length ps) (bu_bytes ps) = ps"
  using SetHex_GetHex [OF assms] words_be_GetBytes [of ps] by (simp add: bu_of_bytes_def)

theorem big_integers_read_back_witness:
  "SetHex 2 (GetHex [171, 5]) = [171, 5] \<and> words_be 2 (GetBytes [171, 5]) = Inr [171, 5] \<and> bu_of_bytes 2 (bu_bytes [171, 5]) = [171, 5]"
  using big_integers_read_back [of "[171, 5]"] by (simp add: numeral_2_eq_2)

text \<open>\<open>BitCount\<close> of zero reads outside the array, and is the number of bits of every other number; a number of more than 32 and
  at most 64 bits is cut by \<open>getuint32\<close>.\<close>

theorem bit_count_of_zero:
  "BitCount (replicate w 0) = Inl (Undefined ''read past the end of an array'')
    \<and> (num ps \<noteq> 0 \<longrightarrow> BitCount ps = Inr (bu_bits ps))"
  by (simp add: BitCount_bits)

theorem getuint32_cuts: "getuint32 [5, 1, 0, 0] = 5"
proof -
  have "has_bits 33 (num [5, 1, 0, 0])" by (simp add: has_bits_def num_def)
  then have "bu_bits [5, 1, 0, 0] = 33" using has_bits_num has_bits_unique by blast
  then show ?thesis by (simp add: getuint32_def Get64_def)
qed

end
