(* ===== verification/Register_Build.thy ===== *)
theory Register_Build
  imports Ledger_Transaction
begin

text \<open>
  The building of a contract's register stream (\<^verbatim>\<open>TAO/Register/build.cpp\<close>), the work a wallet does before it
  signs: from the operation and the registers as they are, record the pre-state and the checksum of the post-state.
  The map carries the post-states of the contracts of the same transaction that have been built before. Then the
  building of a whole transaction (\<^verbatim>\<open>Build\<close> in \<^verbatim>\<open>TAO/Ledger/transaction.cpp\<close>), with the search for the work of a
  first transaction.
\<close>

section \<open>Writing the register stream\<close>

text \<open>\<open>contract <<= x\<close>, for the byte image of \<open>x\<close>.\<close>

definition reg_write :: "byte list \<Rightarrow> contract \<Rightarrow> contract" where
  "reg_write bs c = c\<lparr>ssRegister := stream_write bs (ssRegister c)\<rparr>"

text \<open>What the cases share: the pre-state, from the map or the database, is recorded; where the operation asks for
  it, the caller must own it; the operation, computed on it, gives the post-state, whose checksum is recorded and
  which enters the map. The state byte is written before the state is known to exist.\<close>

definition build_poststate :: "env \<Rightarrow> u256 \<Rightarrow> reg_state \<Rightarrow> state_map \<Rightarrow> contract \<Rightarrow> contract \<times> state_map" where
  "build_poststate E hashAddress state mapStates c =
     (let c = reg_write [STATES_POSTSTATE] c; c = reg_write (ser_word (GetHash E state)) c
      in (c, mapStates(hashAddress \<mapsto> state)))"

definition build_state :: "env \<Rightarrow> bool \<Rightarrow> u256 \<Rightarrow> (contract \<Rightarrow> reg_state \<Rightarrow> reg_state res) \<Rightarrow> u8 \<Rightarrow> world \<Rightarrow>
    state_map \<Rightarrow> contract \<Rightarrow> verify_res" where
  "build_state E fOwner hashAddress exec nFlags W mapStates c =
     (let c = reg_write [STATES_PRESTATE] c in
      rbind (current_state mapStates hashAddress nFlags W) (\<lambda>state.
      if fOwner \<and> hashOwner state \<noteq> hashCaller c then Inl (Reject ''cannot generate pre-state if not owner'')
      else let c = reg_write (ser_state state) c in
        rbind (exec c state) (\<lambda>state. Inr (build_poststate E hashAddress state mapStates c))))"

section \<open>The operations\<close>

definition build_write :: "env \<Rightarrow> u8 \<Rightarrow> world \<Rightarrow> state_map \<Rightarrow> contract \<Rightarrow> verify_res" where
  "build_write E nFlags W m c =
     rbind (op_word c) (\<lambda>(hashAddress, c).
     rbind (op_vector c) (\<lambda>(vchData, c).
     build_state E True hashAddress (\<lambda>c state. Write_Execute E state vchData (nTimestamp c)) nFlags W m c))"

definition build_append :: "env \<Rightarrow> u8 \<Rightarrow> world \<Rightarrow> state_map \<Rightarrow> contract \<Rightarrow> verify_res" where
  "build_append E nFlags W m c =
     rbind (op_word c) (\<lambda>(hashAddress, c).
     rbind (op_vector c) (\<lambda>(vchData, c).
     build_state E True hashAddress (\<lambda>c state. Append_Execute E state vchData (nTimestamp c)) nFlags W m c))"

definition build_create :: "env \<Rightarrow> state_map \<Rightarrow> contract \<Rightarrow> verify_res" where
  "build_create E m c =
     rbind (op_word c) (\<lambda>(hashAddress :: u256, c).
     rbind (op_word c) (\<lambda>(t, c).
     rbind (op_vector c) (\<lambda>(vchData, c).
     rbind (Create_Execute E ((State_default E)\<lparr>nVersion := 1, nType := t, hashOwner := hashCaller c\<rparr>)
              vchData (nTimestamp c)) (\<lambda>state.
     Inr (build_poststate E hashAddress state m c)))))"

definition build_transfer :: "env \<Rightarrow> u8 \<Rightarrow> world \<Rightarrow> state_map \<Rightarrow> contract \<Rightarrow> verify_res" where
  "build_transfer E nFlags W m c =
     rbind (op_word c) (\<lambda>(hashAddress, c).
     rbind (op_word c) (\<lambda>(hashTransfer, c).
     rbind (op_word c) (\<lambda>(t, c).
     build_state E True hashAddress
       (\<lambda>c state. Transfer_Execute E state (transfer_owner c t hashTransfer) (nTimestamp c)) nFlags W m c)))"

definition build_claim :: "env \<Rightarrow> u8 \<Rightarrow> world \<Rightarrow> state_map \<Rightarrow> contract \<Rightarrow> verify_res" where
  "build_claim E nFlags W m c =
     rbind (Contract_Seek 68 OPERATIONS STREAM_CURSOR c) (\<lambda>c.
     rbind (op_word c) (\<lambda>(hashAddress, c).
     build_state E False hashAddress (\<lambda>c state. Claim_Execute E state (hashCaller c) (nTimestamp c)) nFlags W m c))"

definition build_coinbase :: "state_map \<Rightarrow> contract \<Rightarrow> verify_res" where
  "build_coinbase m c = rbind (Contract_Seek 48 OPERATIONS STREAM_CURSOR c) (\<lambda>c. Inr (c, m))"

text \<open>A coinstake asks for the trust index, and a genesis for its absence.\<close>

definition build_trust :: "env \<Rightarrow> nat \<Rightarrow> u8 \<Rightarrow> world \<Rightarrow> state_map \<Rightarrow> contract \<Rightarrow> verify_res" where
  "build_trust E nSkip nFlags W m c =
     rbind (trust_address E c) (\<lambda>hashAddress.
     rbind (Contract_Seek nSkip OPERATIONS STREAM_CURSOR c) (\<lambda>c.
     rbind (op_word c) (\<lambda>(nScore, c).
     rbind (op_word c) (\<lambda>(nStakeChange, c).
     rbind (op_word c) (\<lambda>(nReward, c).
     if \<not> HasTrust (hashCaller c) W then Inl (Reject ''no trust without genesis'')
     else build_state E False hashAddress
       (\<lambda>c. on_object (\<lambda>ob. Trust_Execute E ob nReward nScore nStakeChange (nTimestamp c))) nFlags W m c)))))"

definition build_genesis :: "env \<Rightarrow> nat \<Rightarrow> u8 \<Rightarrow> world \<Rightarrow> state_map \<Rightarrow> contract \<Rightarrow> verify_res" where
  "build_genesis E nSkip nFlags W m c =
     rbind (trust_address E c) (\<lambda>hashAddress.
     rbind (if nSkip = 0 then Inr c else Contract_Seek nSkip OPERATIONS STREAM_CURSOR c) (\<lambda>c.
     rbind (op_word c) (\<lambda>(nReward, c).
     if HasTrust (hashCaller c) W then Inl (Reject ''trust account previously indexed'')
     else build_state E False hashAddress
       (\<lambda>c. on_object (\<lambda>ob. Genesis_Execute E ob nReward (nTimestamp c))) nFlags W m c)))"

definition build_debit :: "env \<Rightarrow> u8 \<Rightarrow> world \<Rightarrow> state_map \<Rightarrow> contract \<Rightarrow> verify_res" where
  "build_debit E nFlags W m c =
     rbind (op_word c) (\<lambda>(hashFrom, c).
     rbind (Contract_Seek 32 OPERATIONS STREAM_CURSOR c) (\<lambda>c.
     rbind (op_word c) (\<lambda>(nAmount, c).
     rbind (op_word c) (\<lambda>(nReference :: u64, c).
     build_state E False hashFrom
       (\<lambda>c. on_object (\<lambda>ob. Debit_Execute E ob nAmount (nTimestamp c))) nFlags W m c))))"

definition build_credit :: "env \<Rightarrow> u8 \<Rightarrow> world \<Rightarrow> state_map \<Rightarrow> contract \<Rightarrow> verify_res" where
  "build_credit E nFlags W m c =
     rbind (Contract_Seek 68 OPERATIONS STREAM_CURSOR c) (\<lambda>c.
     rbind (op_word c) (\<lambda>(hashAddress, c).
     rbind (op_word c) (\<lambda>(hashProof :: u256, c).
     rbind (op_word c) (\<lambda>(nAmount, c).
     build_state E False hashAddress
       (\<lambda>c. on_object (\<lambda>ob. Credit_Execute E ob nAmount (nTimestamp c))) nFlags W m c))))"

definition build_migrate :: "env \<Rightarrow> u8 \<Rightarrow> world \<Rightarrow> state_map \<Rightarrow> contract \<Rightarrow> verify_res" where
  "build_migrate E nFlags W m c =
     rbind (Contract_Seek 64 OPERATIONS STREAM_CURSOR c) (\<lambda>c.
     rbind (op_word c) (\<lambda>(hashAccount, c).
     rbind (Contract_Seek 72 OPERATIONS STREAM_CURSOR c) (\<lambda>c.
     rbind (op_word c) (\<lambda>(nAmount, c).
     rbind (op_word c) (\<lambda>(nScore, c).
     rbind (Contract_Seek 64 OPERATIONS STREAM_CURSOR c) (\<lambda>c.
     if HasTrust (hashCaller c) W then Inl (Reject ''trust account previously indexed'')
     else build_state E False hashAccount
       (\<lambda>c. on_object (\<lambda>ob. Migrate_Execute E ob nAmount nScore (nTimestamp c))) nFlags W m c))))))"

definition build_fee :: "env \<Rightarrow> u8 \<Rightarrow> world \<Rightarrow> state_map \<Rightarrow> contract \<Rightarrow> verify_res" where
  "build_fee E nFlags W m c =
     rbind (op_word c) (\<lambda>(hashAddress, c).
     rbind (op_word c) (\<lambda>(nFees, c).
     build_state E False hashAddress
       (\<lambda>c. on_object (\<lambda>ob. Fee_Execute E ob nFees (nTimestamp c))) nFlags W m c))"

text \<open>The script of a legacy output is read as the vector it is.\<close>

definition build_legacy :: "env \<Rightarrow> u8 \<Rightarrow> world \<Rightarrow> state_map \<Rightarrow> contract \<Rightarrow> verify_res" where
  "build_legacy E nFlags W m c =
     rbind (op_word c) (\<lambda>(hashAddress, c).
     rbind (op_word c) (\<lambda>(nAmount, c).
     rbind (build_state E False hashAddress
       (\<lambda>c. on_object (\<lambda>ob. Legacy_Execute E ob nAmount (nTimestamp c))) nFlags W m c) (\<lambda>(c, m).
     rbind (op_vector c) (\<lambda>(script, c). Inr (c, m)))))"

section \<open>Build\<close>

definition build_primitive :: "env \<Rightarrow> u8 \<Rightarrow> world \<Rightarrow> state_map \<Rightarrow> u8 \<Rightarrow> contract \<Rightarrow> verify_res" where
  "build_primitive E nFlags W m nOP c =
     (if nOP = OP_WRITE then build_write E nFlags W m c
      else if nOP = OP_APPEND then build_append E nFlags W m c
      else if nOP = OP_CREATE then build_create E m c
      else if nOP = OP_TRANSFER then build_transfer E nFlags W m c
      else if nOP = OP_CLAIM then build_claim E nFlags W m c
      else if nOP = OP_COINBASE then build_coinbase m c
      else if nOP = OP_TRUST then build_trust E 64 nFlags W m c
      else if nOP = OP_GENESIS then build_genesis E 0 nFlags W m c
      else if nOP = OP_TRUSTPOOL then build_trust E 112 nFlags W m c
      else if nOP = OP_GENESISPOOL then build_genesis E 48 nFlags W m c
      else if nOP = OP_DEBIT then build_debit E nFlags W m c
      else if nOP = OP_CREDIT then build_credit E nFlags W m c
      else if nOP = OP_MIGRATE then build_migrate E nFlags W m c
      else if nOP = OP_FEE then build_fee E nFlags W m c
      else if nOP = 0x03 then rbind (Contract_Seek 96 OPERATIONS STREAM_CURSOR c) (\<lambda>c. Inr (c, m))
      else if nOP = OP_VALIDATE then rbind (Contract_Seek 68 OPERATIONS STREAM_CURSOR c) (\<lambda>c. Inr (c, m))
      else if nOP = OP_LEGACY then build_legacy E nFlags W m c
      else Inl (Reject ''invalid code for register buildling''))"

text \<open>The step to the primitive is outside the handler of exceptions: an empty contract makes \<open>Build\<close> throw.\<close>

definition Register_Build :: "env \<Rightarrow> contract \<Rightarrow> state_map \<Rightarrow> u8 \<Rightarrow> world \<Rightarrow> verify_res" where
  "Register_Build E c m nFlags W =
     rbind (Contract_Reset ALL_STREAMS c) (\<lambda>c.
     let c = Contract_Clear REGISTERS c in
     rbind (SeekToPrimitive c) (\<lambda>c.
     catch_all (rbind (op_word c) (\<lambda>(nOP, c).
       rbind (build_primitive E nFlags W m nOP c) (\<lambda>(c, m).
       if \<not> Contract_End OPERATIONS c then Inl (Reject ''can only include one PRIMITIVE OP'')
       else Inr (c, m))))))"

section \<open>A transaction\<close>

text \<open>The inner loop builds all contracts over one map. The outer loop, over the same contracts, runs it once per
  contract, each time with a new map. \<open>Bind(this, false)\<close> there is the \<open>Bind\<close> that takes a hash: the hash of the
  contract becomes 0.\<close>

fun build_contracts :: "env \<Rightarrow> tx \<Rightarrow> world \<Rightarrow> contract list \<Rightarrow> state_map \<Rightarrow> contract list res" where
  "build_contracts E t W [] m = Inr []"
| "build_contracts E t W (c # cs) m =
     rbind (Register_Build E (Contract_Bind E (txTimestamp t) (txGenesis t) c) m FLAGS_MEMPOOL W) (\<lambda>(c, m).
     rbind (build_contracts E t W cs m) (\<lambda>cs. Inr (c # cs)))"

fun build_rounds :: "env \<Rightarrow> tx \<Rightarrow> world \<Rightarrow> nat list \<Rightarrow> contract list \<Rightarrow> contract list res" where
  "build_rounds E t W [] cs = Inr cs"
| "build_rounds E t W (i # is) cs =
     (let cs = cs[i := Contract_Bind_tx (txGenesis t) (txTimestamp t) (txVersion t) 0 (cs ! i)] in
      rbind (build_contracts E t W cs Map.empty) (build_rounds E t W is))"

text \<open>The work of a first transaction: the field of the previous transaction, unused there, is counted up from
  the value it has until the hash is small enough or, at the \<open>k\<close>-th turn, the node is shut down.\<close>

partial_function (option) solve_work :: "node \<Rightarrow> (nat \<Rightarrow> bool) \<Rightarrow> nat \<Rightarrow> tx \<Rightarrow> tx option" where
  "solve_work N fShutdown k t =
     (if fShutdown k then Some t
      else if nProofHash N t < FIRST_REQUIRED_WORK then Some t
      else solve_work N fShutdown (Suc k) (t\<lparr>txPrevTx := txPrevTx t + 1\<rparr>))"

definition Transaction_Build :: "node \<Rightarrow> env \<Rightarrow> (nat \<Rightarrow> bool) \<Rightarrow> tx \<Rightarrow> world \<Rightarrow> tx res" where
  "Transaction_Build N E fShutdown t W =
     (if length (vContracts t) > MAX_TRANSACTION_CONTRACTS then Inl (Reject ''exceeded MAX_TRANSACTION_CONTRACTS'')
      else rbind (build_rounds E t W [0..<length (vContracts t)] (vContracts t)) (\<lambda>cs.
        let t = t\<lparr>vContracts := cs\<rparr> in
        if IsFirst t \<and> \<not> fPrivate N then
          (case solve_work N fShutdown 0 t of None \<Rightarrow> Inl Diverges | Some t \<Rightarrow> Inr t)
        else Inr t))"

end
