(* ===== verification/Build_Properties.thy ===== *)
theory Build_Properties
  imports Register_Build Ledger_Properties Rollback_Whole
begin

text \<open>
  What a wallet builds, the network accepts: the pre-states that \<open>Build\<close> records pass \<open>Verify\<close> on the same registers,
  contract by contract and for a whole transaction.
\<close>

section \<open>Two contracts that differ in their register streams\<close>

text \<open>And in the hash of their transaction, which is not known while a contract is built.\<close>

definition with_reg :: "u512 \<Rightarrow> stream \<Rightarrow> contract \<Rightarrow> contract" where
  "with_reg h r c = c\<lparr>ssRegister := r, hashTx := h\<rparr>"

definition script_of :: "contract \<Rightarrow> contract" where
  "script_of c = with_reg 0 (stream_of []) (start c)"

lemma with_reg_fields [simp]:
  "ssOperation (with_reg h r c) = ssOperation c" "ssCondition (with_reg h r c) = ssCondition c"
  "ssRegister (with_reg h r c) = r" "hashCaller (with_reg h r c) = hashCaller c" "nTimestamp (with_reg h r c) = nTimestamp c"
  "hashTx (with_reg h r c) = h" "cVersion (with_reg h r c) = cVersion c"
  "with_reg h q (with_reg g r c) = with_reg h q c" "with_reg h r (opos k c) = opos k (with_reg h r c)"
  by (simp_all add: with_reg_def opos_def)

lemma rewound_eq: "(s :: stream)\<lparr>sPos := n\<rparr> = t\<lparr>sPos := n\<rparr> \<longleftrightarrow> sData s = sData t"
  by (cases s; cases t) simp

lemma script_of_eq:
  "script_of b = script_of c \<longleftrightarrow> sData (ssOperation b) = sData (ssOperation c) \<and> sData (ssCondition b) = sData (ssCondition c) \<and>
     hashCaller b = hashCaller c \<and> nTimestamp b = nTimestamp c \<and> cVersion b = cVersion c"
  by (cases b; cases c) (auto simp: script_of_def with_reg_def start_def rewound_eq)

lemma script_of_moved [simp]:
  "script_of (opos k c) = script_of c" "script_of (with_reg h r c) = script_of c" "script_of (reg_write bs c) = script_of c"
  "script_of (start c) = script_of c" "script_of (Contract_Clear REGISTERS c) = script_of c"
  by (simp_all add: script_of_eq reg_write_def with_reg_def Contract_Clear_def Let_def)

lemma with_reg_reads:
  "op_word (with_reg h r c) = rbind (op_word c) (\<lambda>(x :: 'a::len word, c). Inr (x, with_reg h r c))"
  "op_vector (with_reg h r c) = rbind (op_vector c) (\<lambda>(v, c). Inr (v, with_reg h r c))"
  "seek_op n k (with_reg h r c) = rbind (seek_op n k c) (\<lambda>c. Inr (with_reg h r c))"
  "Contract_Seek m OPERATIONS k (with_reg h r c) = rbind (Contract_Seek m OPERATIONS k c) (\<lambda>c. Inr (with_reg h r c))"
  "SeekToPrimitive (with_reg h r c) = rbind (SeekToPrimitive c) (\<lambda>c. Inr (with_reg h r c))"
  by (auto simp: op_word_def op_vector_def cop_lift_def seek_op_def Contract_Seek_def SeekToPrimitive_def with_reg_def rbind_def
      split: sum.splits)

lemma op_vector_script:
  assumes "op_vector c = Inr (v, c')"
  shows "script_of c' = script_of c \<and> ssRegister c' = ssRegister c"
proof -
  have "skip_sized c = Inr c'" by (rule skip_vector [OF assms])
  then obtain n s where "ReadCompactSize stream_read (ssOperation c) = Inr (n, s)" and "c' = opos (int (n mod 2 ^ 32)) (c\<lparr>ssOperation := s\<rparr>)"
    by (auto simp: skip_sized_def Contract_ReadCompactSize_def cop_lift_def dest!: Seek_pos elim!: rbind_pairE simp del: rbind_eq_Inr)
  then show ?thesis using ReadCompactSize_pos by (auto simp: script_of_eq)
qed

section \<open>The two runs\<close>

text \<open>\<open>sims P D B r r'\<close>: whenever the building run \<open>r\<close> ends with the register stream \<open>D\<close>, it has kept the script \<open>B\<close>,
  and under \<open>P\<close> the verifying run \<open>r'\<close>, which reads \<open>D\<close>, ends at the same place with the same map.\<close>

definition sims :: "bool \<Rightarrow> byte list \<Rightarrow> contract \<Rightarrow> verify_res \<Rightarrow> verify_res \<Rightarrow> bool" where
  "sims P D B r r' \<longleftrightarrow> (\<forall>c' m'. r = Inr (c', m') \<longrightarrow> sData (ssRegister c') = D \<longrightarrow>
     script_of c' = B \<and> (P \<longrightarrow> (\<exists>q h. r' = Inr (with_reg h q c', m'))))"

definition fresh :: "contract \<Rightarrow> contract \<Rightarrow> bool" where
  "fresh B b \<longleftrightarrow> ssRegister b = stream_of [] \<and> script_of b = B"

lemma fresh_reads:
  "fresh B b \<Longrightarrow> op_word b = Inr (x :: 'a::len word, c) \<Longrightarrow> fresh B c"
  "fresh B b \<Longrightarrow> op_vector b = Inr (v, c) \<Longrightarrow> fresh B c"
  "fresh B b \<Longrightarrow> Contract_Seek n OPERATIONS STREAM_CURSOR b = Inr c \<Longrightarrow> fresh B c"
  by (auto simp: fresh_def dest!: op_word_pos op_vector_script Seek_pos)

lemma sims_Inl: "sims P D B (Inl e) r"
  by (simp add: sims_def)

lemma sims_const: "(\<And>x. sims P D B (f x) (g x)) \<Longrightarrow> sims P D B (rbind m f) (rbind m g)"
  by (cases m) (simp_all add: sims_Inl)

lemma sims_guard: "(\<not> b \<Longrightarrow> sims P D B r r') \<Longrightarrow> sims P D B (if b then Inl e else r) r'"
  by (simp add: sims_Inl)

lemma sims_op:
  assumes "fresh B b" and "\<And>x c. fresh B c \<Longrightarrow> sims P D B (f x c) (g x (with_reg h r c))"
  shows "sims P D B (rbind (op_word b) (\<lambda>(x :: 'a::len word, c). f x c)) (rbind (op_word (with_reg h r b)) (\<lambda>(x, c). g x c))"
  using assms(2) fresh_reads(1) [OF assms(1), where 'a = 'a]
  by (cases "op_word b :: ('a word \<times> contract) res") (auto simp: with_reg_reads sims_Inl)

lemma sims_vector:
  assumes "fresh B b" and "\<And>x c. fresh B c \<Longrightarrow> sims P D B (f x c) (g x (with_reg h r c))"
  shows "sims P D B (rbind (op_vector b) (\<lambda>(x, c). f x c)) (rbind (op_vector (with_reg h r b)) (\<lambda>(x, c). g x c))"
  using assms(2) fresh_reads(2) [OF assms(1)] by (cases "op_vector b") (auto simp: with_reg_reads sims_Inl)

lemma sims_seek:
  assumes "fresh B b" and "\<And>c. fresh B c \<Longrightarrow> sims P D B (f c) (g (with_reg h r c))"
  shows "sims P D B (rbind (Contract_Seek n OPERATIONS STREAM_CURSOR b) f) (rbind (Contract_Seek n OPERATIONS STREAM_CURSOR (with_reg h r b)) g)"
  using assms(2) fresh_reads(3) [OF assms(1)]
  by (cases "Contract_Seek n OPERATIONS STREAM_CURSOR b") (auto simp: with_reg_reads sims_Inl)

lemmas sims_reads = sims_op sims_vector sims_seek

text \<open>Where the verification skips the bytes that the building reads.\<close>

lemma sims_skip:
  fixes f :: "u256 \<Rightarrow> contract \<Rightarrow> verify_res"
  assumes "fresh B b" and "\<And>x c. fresh B c \<Longrightarrow> sims P D B (f x c) (j (with_reg h r c))"
  shows "sims P D B (rbind (op_word b) (\<lambda>(x, c). f x c)) (rbind (Contract_Seek 32 OPERATIONS STREAM_CURSOR (with_reg h r b)) j)"
proof (cases "op_word b :: (u256 \<times> contract) res")
  case (Inr p)
  obtain x c where p: "p = (x, c)" by (cases p)
  have "Contract_Seek 32 OPERATIONS STREAM_CURSOR b = Inr c" using skip_word Inr p by fastforce
  moreover have "fresh B c" using fresh_reads(1) [OF assms(1)] Inr p by blast
  ultimately show ?thesis using Inr p assms(2) by (simp add: with_reg_reads)
qed (simp add: sims_Inl)

lemma take_prestate_with_reg:
  assumes D: "D = states_script s chk" and len: "length (vchState s) \<le> MAX_SIZE"
  shows "\<exists>p. take_prestate (with_reg h (stream_of D) c) = Inr (s, with_reg h \<lparr>sData = D, sPos = p\<rparr> c)"
proof -
  have p: "rpos p (with_reg h \<lparr>sData = D, sPos = q\<rparr> c) = with_reg h \<lparr>sData = D, sPos = p\<rparr> c" for p q
    by (simp add: rpos_def with_reg_def)
  have "sData (ssRegister (with_reg h (stream_of D) c)) = states_script s chk" by (simp add: stream_of_def D)
  from states_script_at(1) [OF this len] show ?thesis unfolding stream_of_def p by blast
qed

lemma built_script:
  assumes "fresh B b"
  shows "sData (ssRegister (reg_write (ser_word h) (reg_write [STATES_POSTSTATE] (reg_write (ser_state s)
     (reg_write [STATES_PRESTATE] b))))) = states_script s h"
  using assms by (simp add: fresh_def reg_write_def stream_write_def stream_of_def states_script_def)

lemma sims_state:
  assumes fr: "fresh B b" and len: "P \<Longrightarrow> length D \<le> MAX_SIZE"
    and own: "P \<Longrightarrow> fV \<Longrightarrow> fB \<or> (\<forall>s chk. D = states_script s chk \<longrightarrow> hashOwner s = hashCaller B)"
    and ex: "\<And>c h q s. exec (with_reg h q c) s = exec c s"
  shows "sims P D B (build_state E fB a exec f W m b) (verify_state E fV a exec f W m (with_reg h (stream_of D) b))"
  unfolding sims_def
proof (intro allI impI)
  fix c' m' assume r: "build_state E fB a exec f W m b = Inr (c', m')" and D: "sData (ssRegister c') = D"
  from r obtain s s' where s: "current_state m a f W = Inr s" and o: "fB \<Longrightarrow> hashOwner s = hashCaller b"
    and e: "exec (reg_write (ser_state s) (reg_write [STATES_PRESTATE] b)) s = Inr s'"
    and c': "c' = reg_write (ser_word (GetHash E s')) (reg_write [STATES_POSTSTATE] (reg_write (ser_state s)
       (reg_write [STATES_PRESTATE] b)))" and m': "m' = m(a \<mapsto> s')"
    by (auto simp: build_state_def build_poststate_def Let_def reg_write_def elim!: rbindE split: if_splits simp del: rbind_eq_Inr)
  have "with_reg h q (reg_write (ser_state s) (reg_write [STATES_PRESTATE] b)) = with_reg h q b" for h q
    by (simp add: reg_write_def with_reg_def)
  then have e: "exec (with_reg h q b) s = Inr s'" for h q using e ex by metis
  have sc: "D = states_script s (GetHash E s')" using D c' built_script [OF fr] by simp
  have B: "hashCaller B = hashCaller b" using fr by (auto simp: fresh_def script_of_def)
  have wc: "with_reg g q c' = with_reg g q b" for g q by (simp add: c' with_reg_def reg_write_def)
  have "\<exists>q g. verify_state E fV a exec f W m (with_reg h (stream_of D) b) = Inr (with_reg g q c', m')" if P
  proof -
    have l: "length (vchState s) \<le> MAX_SIZE"
      using len [OF that] sc by (simp add: states_script_def ser_state_def length_ser_bytes)
    obtain p where t: "take_prestate (with_reg h (stream_of D) b) = Inr (s, with_reg h \<lparr>sData = D, sPos = p\<rparr> b)"
      using take_prestate_with_reg [OF sc l, of h b] by blast
    have "fV \<Longrightarrow> hashCaller b = hashOwner s" using own [OF that] o sc B by fastforce
    then have "verify_state E fV a exec f W m (with_reg h (stream_of D) b) = Inr (with_reg h \<lparr>sData = D, sPos = p\<rparr> b, m')"
      using t s e m' by (simp add: verify_state_def State_eq_def)
    then show ?thesis by (auto simp: wc)
  qed
  moreover have "script_of c' = B" using fr by (simp add: c' fresh_def)
  ultimately show "script_of c' = B \<and> (P \<longrightarrow> (\<exists>q g. verify_state E fV a exec f W m (with_reg h (stream_of D) b) = Inr (with_reg g q c', m')))"
    by blast
qed

section \<open>Every operation\<close>

definition owned :: "byte list \<Rightarrow> contract \<Rightarrow> bool" where
  "owned D c \<longleftrightarrow> (\<forall>s chk. D = states_script s chk \<longrightarrow> hashOwner s = hashCaller c)"

lemma exec_with_reg [simp]:
  "transfer_owner (with_reg h q c) t a = transfer_owner c t a" "trust_address E (with_reg h q c) = trust_address E c"
  by (simp_all add: transfer_owner_def trust_address_def)

lemma sims_owned:
  assumes "fresh B b" "P \<Longrightarrow> length D \<le> MAX_SIZE" "P \<Longrightarrow> owned D B" "\<And>c h q s. exec (with_reg h q c) s = exec c s"
  shows "sims P D B (build_state E fB a exec f W m b) (verify_state E True a exec f W m (with_reg h (stream_of D) b))"
  using assms by (intro sims_state) (auto simp: owned_def)

lemma sims_objects:
  assumes "fresh B b" and "P \<Longrightarrow> length D \<le> MAX_SIZE" and "P \<Longrightarrow> owned D B"
  shows "sims P D B (build_debit E f W m b) (verify_debit E f W m (with_reg h (stream_of D) b))"
    and "sims P D B (build_fee E f W m b) (verify_fee E f W m (with_reg h (stream_of D) b))"
    and "sims P D B (build_credit E f W m b) (verify_credit E f W m (with_reg h (stream_of D) b))"
    and "sims P D B (build_migrate E f W m b) (verify_migrate E f W m (with_reg h (stream_of D) b))"
    and "sims P D B (build_trust E n f W m b) (verify_trust E n f W m (with_reg h (stream_of D) b))"
  unfolding build_debit_def verify_debit_def build_fee_def verify_fee_def build_credit_def verify_credit_def
    build_migrate_def verify_migrate_def build_trust_def verify_trust_def exec_with_reg
  by (intro sims_reads sims_const sims_skip sims_guard sims_owned assms; simp)+

lemma sims_genesis:
  assumes "fresh B b" and "P \<Longrightarrow> length D \<le> MAX_SIZE" and "P \<Longrightarrow> owned D B"
  shows "sims P D B (build_genesis E n f W m b) (verify_genesis E n f W m (with_reg h (stream_of D) b))"
proof (cases "n = 0")
  case True
  then show ?thesis unfolding build_genesis_def verify_genesis_def exec_with_reg
    by simp (intro sims_reads sims_const sims_guard sims_owned assms, simp_all)
next
  case False
  then show ?thesis unfolding build_genesis_def verify_genesis_def exec_with_reg
    by simp (intro sims_reads sims_const sims_guard sims_owned assms, simp_all)
qed

lemma sims_states:
  assumes "fresh B b" and "P \<Longrightarrow> length D \<le> MAX_SIZE"
  shows "sims P D B (build_write E f W m b) (verify_write E f W m (with_reg h (stream_of D) b))"
    and "sims P D B (build_append E f W m b) (verify_append E f W m (with_reg h (stream_of D) b))"
    and "sims P D B (build_transfer E f W m b) (verify_transfer E f W m (with_reg h (stream_of D) b))"
    and "sims P D B (build_claim E f W m b) (verify_claim E f W m (with_reg h (stream_of D) b))"
  unfolding build_write_def verify_write_def build_append_def verify_append_def build_transfer_def verify_transfer_def
    build_claim_def verify_claim_def
  by (intro sims_reads sims_const sims_state assms; simp)+

lemma with_reg_write [simp]: "with_reg h r (reg_write bs c) = with_reg h r c"
  by (simp add: with_reg_def reg_write_def)

lemma sims_create:
  assumes "fresh B b"
  shows "sims P D B (build_create E m b) (verify_create E m (with_reg h r b))"
  unfolding build_create_def verify_create_def
  by (intro sims_reads sims_const assms,
      auto simp: sims_def fresh_def build_poststate_def Let_def, blast)

lemma sims_legacy:
  assumes "fresh B b" and "P \<Longrightarrow> length D \<le> MAX_SIZE" and "P \<Longrightarrow> owned D B"
  shows "sims P D B (build_legacy E f W m b) (verify_legacy E f W m (with_reg h (stream_of D) b))"
proof -
  have tail: "sims P D B (rbind r (\<lambda>(c, m). rbind (op_vector c) (\<lambda>(script, c). Inr (c, m))))
      (rbind r' (\<lambda>(c, m). rbind (skip_sized c) (\<lambda>c. Inr (c, m))))" if s: "sims P D B r r'" for r r'
    unfolding sims_def
  proof (intro allI impI)
    fix c' m' assume e: "rbind r (\<lambda>(c, m). rbind (op_vector c) (\<lambda>(script, c). Inr (c, m))) = Inr (c', m')"
      and D: "sData (ssRegister c') = D"
    from e obtain c v where c: "r = Inr (c, m')" and v: "op_vector c = Inr (v, c')"
      by (auto elim!: rbindE rbind_pairE simp del: rbind_eq_Inr)
    note k = op_vector_script [OF v]
    have q: "P \<Longrightarrow> \<exists>q h. r' = Inr (with_reg h q c, m')" and B: "script_of c = B" using s c D k by (auto simp: sims_def)
    have "skip_sized (with_reg h q c) = Inr (with_reg h q c')" for h q by (rule skip_vector) (simp add: with_reg_reads v)
    then show "script_of c' = B \<and> (P \<longrightarrow> (\<exists>q h. rbind r' (\<lambda>(c, m). rbind (skip_sized c) (\<lambda>c. Inr (c, m))) = Inr (with_reg h q c', m')))"
      using q k B by fastforce
  qed
  show ?thesis unfolding build_legacy_def verify_legacy_def
    by (intro sims_reads tail sims_owned assms; simp)
qed

lemma sims_moves:
  assumes "fresh B b"
  shows "sims P D B (rbind (Contract_Seek n OPERATIONS STREAM_CURSOR b) (\<lambda>c. Inr (c, m)))
    (rbind (Contract_Seek n OPERATIONS STREAM_CURSOR (with_reg h r b)) (\<lambda>c. Inr (c, m)))"
  by (intro sims_seek assms) (auto simp: sims_def fresh_def)

lemma sims_primitive:
  assumes "fresh B b" and "P \<Longrightarrow> length D \<le> MAX_SIZE" and "P \<Longrightarrow> nOP \<noteq> OP_CLAIM \<Longrightarrow> owned D B"
  shows "sims P D B (build_primitive E f W m nOP b) (verify_primitive E f W m nOP (with_reg h (stream_of D) b))"
  unfolding build_primitive_def verify_primitive_def build_coinbase_def verify_coinbase_def
  using assms by (simp add: sims_Inl sims_moves sims_objects sims_genesis sims_states sims_create sims_legacy)

section \<open>A contract\<close>

definition claims :: "contract \<Rightarrow> bool" where
  "claims c = (case at_primitive c of Inl _ \<Rightarrow> False | Inr (nOP, _) \<Rightarrow> nOP = OP_CLAIM)"

lemma start_script: "start c = with_reg (hashTx c) (stream_of (sData (ssRegister c))) (script_of c)"
  by (simp add: script_of_def start_def with_reg_def stream_of_def)

lemma start_script_of [simp]: "start (script_of c) = script_of c"
  by (simp add: script_of_def start_def with_reg_def stream_of_def)

lemma cleared_script: "Contract_Clear REGISTERS (start c) = with_reg (hashTx c) (stream_of []) (script_of c)"
  by (cases c) (simp add: Contract_Clear_def script_of_def with_reg_def start_def)

lemma prefix_at_primitive:
  assumes "SeekToPrimitive (start c) = Inr c0" and "op_word c0 = Inr (nOP, c1)"
    and "length (sData (ssOperation c)) < 2 ^ 63"
  shows "verify_prefix (start c) = Inr (nOP, c1)"
proof -
  have ne: "sData (ssOperation c) \<noteq> []" using assms(1) by (auto simp: SeekToPrimitive_def)
  then have w: "op_word (start c) = Inr (hd (sData (ssOperation c)), opos 1 (start c))"
    using op_word_byte [of "start c"] assms(3) by (simp add: hd_conv_nth)
  have "seek_op 69 STREAM_CURSOR (start c) = Contract_Seek 69 OPERATIONS STREAM_CURSOR (start c)"
    by (cases "seek_op 69 STREAM_CURSOR (start c)") (simp_all add: Contract_Seek_def)
  then have p: "seek_op 69 STREAM_CURSOR (start c) = Contract_Seek 68 OPERATIONS STREAM_CURSOR (opos 1 (start c))"
    by (simp add: Seek_iff)
  show ?thesis
    using assms(1,2) w unfolding SeekToPrimitive_start [OF ne] verify_prefix_def
    by (auto split: if_splits dest: seek_op_pos simp: p)
qed

lemma script_of_idem [simp]: "script_of (script_of c) = script_of c"
  by (cases c) (simp add: script_of_def with_reg_def start_def stream_of_def)

lemma built_contract:
  assumes b: "Register_Build E c m f W = Inr (c', m')"
    and len: "P \<Longrightarrow> length (sData (ssOperation c)) < 2 ^ 63" "P \<Longrightarrow> length (sData (ssRegister c')) \<le> MAX_SIZE"
    and own: "P \<Longrightarrow> claims c \<or> owned (sData (ssRegister c')) c" and c2: "script_of c2 = script_of c'" "sData (ssRegister c2) = sData (ssRegister c')"
  shows "script_of c' = script_of c \<and> (P \<longrightarrow> Register_Verify E c2 m f W = Inr m')"
proof -
  define B D where "B = script_of c" and "D = sData (ssRegister c')"
  let ?b = "with_reg (hashTx c) (stream_of []) B" and ?v = "with_reg (hashTx c2) (stream_of D)"
  from b obtain c0 nOP c1 where c0: "SeekToPrimitive ?b = Inr c0" and op: "op_word c0 = Inr (nOP, c1)"
    and bp: "build_primitive E f W m nOP c1 = Inr (c', m')" and en: "Contract_End OPERATIONS c'"
    by (auto simp: Register_Build_def cleared_script B_def elim!: rbindE rbind_pairE split: if_splits simp del: rbind_eq_Inr)
  have sB [simp]: "start ?b = ?b" "script_of B = B" by (simp_all add: B_def script_of_def start_def with_reg_def stream_of_def)
  have "sData (ssOperation ?b) \<noteq> []" using c0 by (auto simp: SeekToPrimitive_def)
  from SeekToPrimitive_start [OF this] have "fresh B c0" using c0
    by (auto simp: fresh_def split: if_splits dest!: seek_op_pos sym [of "Inr c0"])
  then have fr: "fresh B c1" by (rule fresh_reads(1) [OF _ op])
  have cl: "at_primitive c = Inr (nOP, with_reg (hashTx c) (ssRegister (start c)) c1)"
  proof -
    have "start c = with_reg (hashTx c) (ssRegister (start c)) ?b" by (simp add: B_def script_of_def with_reg_def start_def)
    then have "at_primitive c = rbind (SeekToPrimitive (with_reg (hashTx c) (ssRegister (start c)) ?b)) op_word"
      unfolding at_primitive_def by simp
    then show ?thesis by (simp only: with_reg_reads(5) [of _ _ ?b] c0 rbind_Inr with_reg_reads(1) op prod.case)
  qed
  have ow: "P \<Longrightarrow> nOP \<noteq> OP_CLAIM \<Longrightarrow> owned D B"
    using own cl by (auto simp: claims_def owned_def D_def B_def script_of_def)
  have "sims P D B (build_primitive E f W m nOP c1) (verify_primitive E f W m nOP (?v c1))"
    by (rule sims_primitive [OF fr _ ow]) (simp_all add: D_def len(2))
  then have B: "script_of c' = B" and v: "P \<Longrightarrow> \<exists>q h. verify_primitive E f W m nOP (?v c1) = Inr (with_reg h q c', m')"
    using bp by (auto simp: sims_def D_def)
  have st: "start c2 = ?v ?b" using start_script [of c2] B c2 by (simp add: D_def)
  have pf: "verify_prefix (start c2) = Inr (nOP, ?v c1)" if P
  proof (rule prefix_at_primitive)
    show "SeekToPrimitive (start c2) = Inr (?v c0)" by (simp only: st with_reg_reads(5) [of _ _ ?b] c0 rbind_Inr)
    show "op_word (?v c0) = Inr (nOP, ?v c1)" by (simp add: with_reg_reads op)
    show "length (sData (ssOperation c2)) < 2 ^ 63" using B c2 len(1) [OF that] by (simp add: B_def script_of_eq)
  qed
  have "Contract_End OPERATIONS (with_reg h q c')" for h q using en by (simp add: Contract_End_def flag_set_def)
  then have "P \<Longrightarrow> Register_Verify E c2 m f W = Inr m'" using v by (auto simp: Register_Verify_def pf)
  then show ?thesis using B by (simp add: B_def)
qed

text \<open>The contract claims a register, or its caller owns the register whose pre-state it records.\<close>

definition owner_signs :: "contract \<Rightarrow> bool" where
  "owner_signs c = (claims c \<or> (case prestate_of c of Inl _ \<Rightarrow> True | Inr s \<Rightarrow> hashOwner s = hashCaller c))"

lemma claims_script: "claims c = claims (script_of c)"
proof -
  have "at_primitive c = rbind (SeekToPrimitive (with_reg (hashTx c) (stream_of (sData (ssRegister c))) (script_of c))) op_word"
    unfolding at_primitive_def by (subst start_script) (rule refl)
  then show ?thesis unfolding claims_def
    by (cases "SeekToPrimitive (script_of c)") (auto simp: at_primitive_def with_reg_reads rbind_def split: sum.splits)
qed

lemma script_of_claims: "script_of b = script_of c \<Longrightarrow> claims b = claims c"
  by (simp add: claims_script [of b] claims_script [of c])

lemma owner_signs_owned:
  assumes "owner_signs c'" and "script_of c' = script_of c" and "length (sData (ssRegister c')) \<le> MAX_SIZE"
  shows "claims c \<or> owned (sData (ssRegister c')) c"
proof -
  have "hashOwner s = hashCaller c" if s: "sData (ssRegister c') = states_script s chk" and nc: "\<not> claims c" for s chk
  proof -
    have "length (vchState s) \<le> MAX_SIZE" using assms(3) by (simp add: s states_script_def ser_state_def length_ser_bytes)
    then have "prestate_of c' = Inr s" by (rule prestate_of_script [OF s])
    then show ?thesis using assms(1,2) nc script_of_claims [OF assms(2)] by (auto simp: owner_signs_def script_of_eq)
  qed
  then show ?thesis by (auto simp: owned_def)
qed

lemma built_script_of:
  assumes "Register_Build E c m f W = Inr (c', m')"
  shows "script_of c' = script_of c"
  using built_contract [OF assms, of False c'] by simp

lemma built_contract_verifies:
  assumes b: "Register_Build E c m f W = Inr (c', m')"
    and len: "length (sData (ssOperation c)) < 2 ^ 63" "length (sData (ssRegister c')) \<le> MAX_SIZE"
    and own: "owner_signs c'" and c2: "script_of c2 = script_of c'" "sData (ssRegister c2) = sData (ssRegister c')"
  shows "Register_Verify E c2 m f W = Inr m'"
  using built_contract [OF b _ _ _ c2, of True] len owner_signs_owned [OF own built_script_of [OF b] len(2)] by blast

section \<open>A transaction\<close>

text \<open>Binding with the genesis and the time gives the version that the node would give a new transaction.\<close>

definition built_version :: "env \<Rightarrow> u64 \<Rightarrow> u32" where
  "built_version E nTime = cVersion (Contract_Bind E nTime 0 (Contract_default E))"

definition buildable :: "contract \<Rightarrow> bool" where
  "buildable c = (length (sData (ssOperation c)) < 2 ^ 63 \<and> length (sData (ssRegister c)) \<le> MAX_SIZE \<and> owner_signs c)"

lemma Bind_fields [simp]:
  "sData (ssOperation (Contract_Bind E n h c)) = sData (ssOperation c)" "sData (ssCondition (Contract_Bind E n h c)) = sData (ssCondition c)"
  "hashCaller (Contract_Bind E n h c) = h" "nTimestamp (Contract_Bind E n h c) = n"
  "cVersion (Contract_Bind E n h c) = built_version E n"
  by (simp_all add: Contract_Bind_def built_version_def Let_def)

text \<open>The operations and the conditions are the user's.\<close>

definition scripts :: "contract list \<Rightarrow> (byte list \<times> byte list) list" where
  "scripts = map (\<lambda>c. (sData (ssOperation c), sData (ssCondition c)))"

lemma build_contracts_ConsE:
  assumes "build_contracts E t W (c # cs) m = Inr cs'"
  obtains c' m1 cs1 where "Register_Build E (Contract_Bind E (txTimestamp t) (txGenesis t) c) m FLAGS_MEMPOOL W = Inr (c', m1)"
    and "build_contracts E t W cs m1 = Inr cs1" and "cs' = c' # cs1"
  using assms by (auto elim!: rbindE rbind_pairE simp del: rbind_eq_Inr)

lemma build_contracts_verify:
  assumes "build_contracts E t W cs m = Inr cs'" and "\<forall>c\<in>set cs'. buildable c"
    and t2: "txGenesis t2 = txGenesis t" "txTimestamp t2 = txTimestamp t" "txVersion t2 = built_version E (txTimestamp t)"
  shows "\<exists>m'. verify_contracts E t2 FLAGS_MEMPOOL W cs' m = Inr m'"
  using assms(1,2)
proof (induction cs arbitrary: m cs')
  case (Cons c cs)
  let ?c = "Contract_Bind E (txTimestamp t) (txGenesis t) c"
  from Cons.prems(1) obtain c' m1 cs1 where c': "Register_Build E ?c m FLAGS_MEMPOOL W = Inr (c', m1)"
    and r: "build_contracts E t W cs m1 = Inr cs1" and cs': "cs' = c' # cs1"
    by (rule build_contracts_ConsE)
  note s = built_script_of [OF c']
  have l: "length (sData (ssOperation ?c)) < 2 ^ 63" using Cons.prems(2) s by (simp add: cs' buildable_def script_of_eq)
  have "script_of (tx_bind t2 c') = script_of c'"
    using t2 s by (simp add: script_of_eq tx_bind_def Contract_Bind_tx_def)
  moreover have "sData (ssRegister (tx_bind t2 c')) = sData (ssRegister c')" by (simp add: tx_bind_def Contract_Bind_tx_def)
  ultimately have "Register_Verify E (tx_bind t2 c') m FLAGS_MEMPOOL W = Inr m1"
    using built_contract_verifies [OF c' l] Cons.prems(2) cs' by (simp add: buildable_def)
  then show ?case using Cons.IH [OF r] Cons.prems(2) cs' by simp
qed simp

lemma build_contracts_scripts: "build_contracts E t W cs m = Inr cs' \<Longrightarrow> scripts cs' = scripts cs"
proof (induction cs arbitrary: m cs')
  case (Cons c cs)
  from Cons.prems(1) obtain c' m1 cs1 where c': "Register_Build E (Contract_Bind E (txTimestamp t) (txGenesis t) c) m FLAGS_MEMPOOL W = Inr (c', m1)"
    and r: "build_contracts E t W cs m1 = Inr cs1" and cs': "cs' = c' # cs1"
    by (rule build_contracts_ConsE)
  show ?case using Cons.IH [OF r] built_script_of [OF c'] cs' by (simp add: scripts_def script_of_eq)
qed simp

lemma scripts_rebound: "scripts (cs[i := Contract_Bind_tx g n v h (cs ! i)]) = scripts cs"
  by (cases "i < length cs") (auto simp: scripts_def nth_list_update Contract_Bind_tx_def intro!: nth_equalityI)

lemma build_rounds_last:
  assumes "build_rounds E t W is cs = Inr cs'"
  shows "is = [] \<and> cs' = cs \<or> (\<exists>cs0. build_contracts E t W cs0 Map.empty = Inr cs' \<and> scripts cs0 = scripts cs)"
  using assms
proof (induction "is" arbitrary: cs)
  case (Cons i "is")
  let ?cs = "cs[i := Contract_Bind_tx (txGenesis t) (txTimestamp t) (txVersion t) 0 (cs ! i)]"
  from Cons.prems(1) obtain cs1 where b: "build_contracts E t W ?cs Map.empty = Inr cs1" and r: "build_rounds E t W is cs1 = Inr cs'"
    by (auto simp: Let_def elim!: rbindE simp del: rbind_eq_Inr)
  have s: "scripts cs1 = scripts cs" using build_contracts_scripts [OF b] scripts_rebound by simp
  from Cons.IH [OF r] show ?case
  proof
    assume "is = [] \<and> cs' = cs1"
    then have "build_contracts E t W ?cs Map.empty = Inr cs' \<and> scripts ?cs = scripts cs" using b scripts_rebound by simp
    then show ?thesis by blast
  qed (simp add: s)
qed simp

lemma built_rounds:
  assumes "build_rounds E t W [0..<length cs] cs = Inr cs'"
  shows "scripts cs' = scripts cs" and "cs' = [] \<or> (\<exists>cs0. build_contracts E t W cs0 Map.empty = Inr cs')"
  using build_rounds_last [OF assms] build_contracts_scripts [of E t W _ Map.empty cs'] by auto

lemma solve_work_found:
  assumes "solve_work N sh k t = Some t'"
  shows "(\<exists>n. t' = t\<lparr>txPrevTx := txPrevTx t + of_nat n\<rparr>) \<and> ((\<forall>j. \<not> sh j) \<longrightarrow> nProofHash N t' < FIRST_REQUIRED_WORK)"
proof (rule solve_work.raw_induct [of "\<lambda>N sh k t t'. (\<exists>n. t' = t\<lparr>txPrevTx := txPrevTx t + of_nat n\<rparr>) \<and>
     ((\<forall>j. \<not> sh j) \<longrightarrow> nProofHash N t' < FIRST_REQUIRED_WORK)", OF _ assms], goal_cases)
  case (1 solve N sh k t t')
  show ?case
  proof (cases "sh k \<or> nProofHash N t < FIRST_REQUIRED_WORK")
    case True
    then have "t' = t" using 1(2) by (auto split: if_splits)
    then have "t' = t\<lparr>txPrevTx := txPrevTx t + of_nat 0\<rparr>" by simp
    moreover have "(\<forall>j. \<not> sh j) \<longrightarrow> nProofHash N t' < FIRST_REQUIRED_WORK" using True \<open>t' = t\<close> by auto
    ultimately show ?thesis by blast
  next
    case False
    let ?t = "t\<lparr>txPrevTx := txPrevTx t + 1\<rparr>"
    have "solve N sh (Suc k) ?t = Some t'" using 1(2) False by simp
    from 1(1) [OF this] obtain n where n: "t' = ?t\<lparr>txPrevTx := txPrevTx ?t + of_nat n\<rparr>"
      and w: "(\<forall>j. \<not> sh j) \<longrightarrow> nProofHash N t' < FIRST_REQUIRED_WORK" by blast
    have "t' = t\<lparr>txPrevTx := txPrevTx t + of_nat (Suc n)\<rparr>" by (simp add: n add.assoc)
    then show ?thesis using w by blast
  qed
qed

lemma solve_work_returns:
  "nProofHash N (t\<lparr>txPrevTx := txPrevTx t + of_nat n\<rparr>) < FIRST_REQUIRED_WORK \<Longrightarrow> \<exists>t'. solve_work N sh k t = Some t'"
proof (induction n arbitrary: k t)
  case 0
  then show ?case by (simp add: solve_work.simps)
next
  case (Suc n)
  then have "\<exists>t'. solve_work N sh (Suc k) (t\<lparr>txPrevTx := txPrevTx t + 1\<rparr>) = Some t'"
    by (intro Suc.IH) (simp add: add.assoc)
  then show ?case by (subst solve_work.simps) simp
qed

section \<open>A debit is built\<close>

text \<open>Building a debit records the debited account and the checksum of what is left of it.\<close>

lemma debit_built:
  assumes ops: "sData (ssOperation c) = debit_script a b n r" and st: "current_state m a f W = Inr s"
    and ex: "Debit_Execute E (Object_of s) n (nTimestamp c) = Inr ob"
  shows "\<exists>c'. Register_Build E c m f W = Inr (c', m(a \<mapsto> State_of ob)) \<and> sData (ssRegister c') = states_script s (GetHash E ob)"
proof -
  define d where "d = Contract_Clear REGISTERS (start c)"
  have d: "start d = d" "sData (ssOperation d) = debit_script a b n r" "ssRegister d = stream_of []" "nTimestamp d = nTimestamp c"
    using ops by (simp_all add: d_def cleared_script) (simp_all add: script_of_def with_reg_def start_def stream_of_def)
  note op = debit_script_at [OF d(2), unfolded d(1)]
  have L: "length (sData (ssOperation d)) = 81" by (simp add: d(2) debit_script_def)
  have "hd (sData (ssOperation d)) = OP_DEBIT" by (simp add: d(2) debit_script_def)
  then have sk: "SeekToPrimitive d = Inr d" using SeekToPrimitive_start [of d] d(1) L by fastforce
  have s32: "Contract_Seek 32 OPERATIONS STREAM_CURSOR (opos 33 d) = Inr (opos 65 d)" using skip_word [OF op(3)] by simp
  have "Contract_End OPERATIONS (opos 81 d)" using stream_end_start [of 81 d 0] L rpos_start [of d] d(1) by simp
  then have en: "Contract_End OPERATIONS (reg_write bs (opos 81 d))" for bs
    by (simp add: Contract_End_def reg_write_def flag_set_def)
  show ?thesis
    using sk op s32 st ex en d(3,4) unfolding Register_Build_def Reset_ALL rbind_Inr Let_def d_def [symmetric]
    by (auto simp: build_primitive_def build_debit_def build_state_def build_poststate_def on_object_def Let_def reg_write_def
      stream_write_def stream_of_def states_script_def Contract_End_def flag_set_def)
qed

lemma memory_reads: "ReadState debit_from FLAGS_MEMPOOL connect_world = Some acct"
  by (simp add: connect_world_def undo_world_def sample_world_def ReadState_def WriteState_def WriteTx_def WriteLast_def WriteBlock_def
      write_state_def empty_world_def empty_overlay_def overlay_defs read_register_def mem_lookup_def or_disk_def)

lemma debit_tx_built:
  "\<exists>c'. Transaction_Build sample_node node_2020 (\<lambda>_. False) debit_tx connect_world = Inr (debit_tx\<lparr>vContracts := [c']\<rparr>) \<and> buildable c'"
proof -
  obtain ob where ob: "Debit_Execute node_2020 (Object_of acct) 30 1600000000 = Inr ob" "GetHash node_2020 ob = 108" using acct_debit by blast
  let ?c = "Contract_Bind node_2020 1600000000 5 (Contract_Bind_tx 5 1600000000 2 0 sample_debit)"
  have o: "sData (ssOperation ?c) = debit_script debit_from debit_to 30 0" by (simp add: Contract_Bind_tx_def sample_debit_def)
  have "current_state Map.empty debit_from FLAGS_MEMPOOL connect_world = Inr acct"
    by (simp add: current_state_def memory_reads found_def)
  from debit_built [OF o this, of node_2020 ob] ob obtain c' where c': "Register_Build node_2020 ?c Map.empty FLAGS_MEMPOOL connect_world = Inr (c', [debit_from \<mapsto> State_of ob])"
    and r: "sData (ssRegister c') = states_script acct 108" by auto
  have s: "script_of c' = script_of ?c" by (rule built_script_of [OF c'])
  have "prestate_of c' = Inr acct" by (rule prestate_of_script [OF r]) (simp add: MAX_SIZE_def)
  then have "owner_signs c'" using s by (simp add: owner_signs_def script_of_eq acct_def)
  moreover have "length (sData (ssOperation c')) < 2 ^ 63" using s o by (simp add: script_of_eq debit_script_def)
  moreover have "length (sData (ssRegister c')) \<le> MAX_SIZE"
    by (simp add: r states_script_def length_ser_state length_ser_bytes GetSizeOfCompactSize_def MAX_SIZE_def acct_def)
  ultimately have "buildable c'" by (simp add: buildable_def)
  moreover have "Transaction_Build sample_node node_2020 (\<lambda>_. False) debit_tx connect_world = Inr (debit_tx\<lparr>vContracts := [c']\<rparr>)"
    using c' by (simp add: Transaction_Build_def debit_tx_def tx_of_def IsFirst_def MAX_TRANSACTION_CONTRACTS_def)
  ultimately show ?thesis by blast
qed

text \<open>
  C9. What a wallet builds the network accepts: once \<open>Build\<close> has run over all the contracts of a transaction, the operations
  and the conditions are as they were and the pre-states it recorded pass \<open>Verify\<close> on the same registers, contract after
  contract over the states predicted for the earlier ones, whatever the register streams held before. This needs that the
  recorded states have the sizes that can be read back, that the version of the transaction is the one \<open>Build\<close> computed
  with, and that the caller owns the registers: \<open>Build\<close> itself checks the owner only for a write, an append and a transfer,
  while \<open>Verify\<close> demands it everywhere but for a claim. The work found for a first transaction is enough, unless the node
  is shut down meanwhile.\<close>

theorem built_transaction_verifies:
  assumes "Transaction_Build N E fShutdown t W = Inr t'" and "\<forall>c\<in>set (vContracts t'). buildable c"
    and "txVersion t = built_version E (txTimestamp t)"
  shows "Transaction_Verify E t' FLAGS_MEMPOOL W = Inr () \<and> scripts (vContracts t') = scripts (vContracts t) \<and>
    (IsFirst t \<and> \<not> fPrivate N \<and> (\<forall>k. \<not> fShutdown k) \<longrightarrow> nProofHash N t' < FIRST_REQUIRED_WORK)"
proof -
  from assms(1) obtain cs where r: "build_rounds E t W [0..<length (vContracts t)] (vContracts t) = Inr cs"
    and t': "(if IsFirst t \<and> \<not> fPrivate N then (case solve_work N fShutdown 0 (t\<lparr>vContracts := cs\<rparr>) of None \<Rightarrow> Inl Diverges | Some t \<Rightarrow> Inr t)
      else Inr (t\<lparr>vContracts := cs\<rparr>)) = Inr t'"
    by (auto simp: Transaction_Build_def IsFirst_def Let_def elim!: rbindE split: if_splits simp del: rbind_eq_Inr)
  obtain n where n: "t' = t\<lparr>vContracts := cs, txPrevTx := n\<rparr>"
    using t' solve_work_found [of N fShutdown 0 "t\<lparr>vContracts := cs\<rparr>"]
    by (fastforce split: if_splits option.splits intro: that [of "txPrevTx t"] simp: that)
  have w: "IsFirst t \<and> \<not> fPrivate N \<and> (\<forall>k. \<not> fShutdown k) \<longrightarrow> nProofHash N t' < FIRST_REQUIRED_WORK"
    using t' solve_work_found [of N fShutdown 0 "t\<lparr>vContracts := cs\<rparr>"] by (auto split: option.splits)
  have "\<exists>m. verify_contracts E t' FLAGS_MEMPOOL W cs Map.empty = Inr m"
    using built_rounds(2) [OF r] assms(2,3) build_contracts_verify [of E t W _ Map.empty cs t'] by (auto simp: n)
  then show ?thesis using w built_rounds(1) [OF r] by (auto simp: Transaction_Verify_def n)
qed


theorem built_transaction_verifies_witness:
  "\<exists>t'. Transaction_Build sample_node node_2020 (\<lambda>_. False) debit_tx connect_world = Inr t' \<and>
     Transaction_Verify node_2020 t' FLAGS_MEMPOOL connect_world = Inr ()"
proof -
  obtain c' where b: "Transaction_Build sample_node node_2020 (\<lambda>_. False) debit_tx connect_world = Inr (debit_tx\<lparr>vContracts := [c']\<rparr>)"
    "buildable c'" using debit_tx_built by blast
  have "built_version node_2020 1600000000 = 2" by code_simp
  then have "txVersion debit_tx = built_version node_2020 (txTimestamp debit_tx)" by (simp add: debit_tx_def)
  then show ?thesis using built_transaction_verifies [OF b(1)] b by auto
qed

end
