(* ===== verification/Spec2Isabelle.thy ===== *)
theory Spec2Isabelle
  imports Component_Properties Condition_Properties Block_Properties Chain_Properties Legacy_Block_Properties Base_Uint_Forms Build_Properties
begin

text \<open>
  A model of the core of the Nexus node: the contracts of the Tritium chain and the registers they change, the
  transactions and blocks that carry them, the proof of stake and the spent outputs of the older legacy chain.

  \<^bold>\<open>The program.\<close> A Tritium transaction holds contracts. A contract has three byte streams: its operation, its
  conditions, and the register states it was built on. Executing it (\<^verbatim>\<open>TAO/Operation\<close>) reads the operation, checks the
  recorded pre-state and the rules of the operation, computes the post-state, compares its checksum with the recorded one
  and commits it to the databases (\<^verbatim>\<open>LLD\<close>), where three layers of memory lie over the disk. Before that a transaction is
  verified against a map of states (\<^verbatim>\<open>TAO/Register/verify.cpp\<close>), and when its block leaves the chain it is rolled back
  from the recorded pre-states (\<^verbatim>\<open>TAO/Register/rollback.cpp\<close>). Blocks connect their transactions in order; a better chain
  is reached by disconnecting blocks down to the fork and connecting others (\<^verbatim>\<open>TAO/Ledger/state.cpp\<close>). Legacy
  transactions spend the outputs of earlier ones with scripts (\<^verbatim>\<open>Legacy\<close>); contracts can pay to such scripts.

  \<^bold>\<open>Theories and sources.\<close>
  \<^item> \<open>LLL_Prelude\<close>: machine words, the result type (refusal, exception, undefined behaviour, no end) and byte images.
  \<^item> \<open>Serialize\<close>: the streams and templates of \<^verbatim>\<open>Util/templates\<close>. The locale \<open>byte_reader\<close> states what a reader promises; it
    is interpreted for streams here and for register states in \<open>Register_State\<close>.
  \<^item> \<open>Timelocks\<close>: the environment of a node (record \<open>env\<close>: time, network, hashes) and \<^verbatim>\<open>TAO/Ledger/timelocks.cpp\<close>.
  \<^item> \<open>Register_Address\<close>, \<open>Register_State\<close>, \<open>Register_Object\<close>, \<open>Object_Layout\<close>: addresses, raw states and object registers
    (\<^verbatim>\<open>TAO/Register\<close>), and where the fields of a parsed object lie.
  \<^item> \<open>Memory_Overlay\<close>, \<open>Databases\<close>: the layered memory of \<^verbatim>\<open>LLD/register.cpp\<close>, \<^verbatim>\<open>ledger.cpp\<close> and \<^verbatim>\<open>contract.cpp\<close>; the locale
    \<open>store\<close> is what a database owes its callers, interpreted for registers, claims and proofs. The record \<open>world\<close> holds all.
  \<^item> \<open>Contract\<close>, \<open>Base_VM\<close>, \<open>Condition_VM\<close>: contracts, the register memory and the machine of the conditions
    (\<^verbatim>\<open>contract.cpp\<close>, \<^verbatim>\<open>basevm.cpp\<close>, \<^verbatim>\<open>condition.cpp\<close>), with \<open>Condition_Laws\<close> and \<open>VM_Laws\<close>.
  \<^item> \<open>Op_Register\<close>, \<open>Op_Finance\<close>, \<open>Op_Create\<close>, \<open>Op_Stake\<close>, \<open>Op_Validate\<close>, \<open>Op_Cost\<close>: Verify, Execute and Commit of every operation;
    \<open>Execute\<close> is \<^verbatim>\<open>execute.cpp\<close>, with every case of its switch.
  \<^item> \<open>Register_Verify\<close>, \<open>Rollback\<close>: the check of the pre-states and the way back; \<open>Register_Build\<close>: how a wallet records them
    (\<^verbatim>\<open>TAO/Register/build.cpp\<close> and Build of a transaction).
  \<^item> \<open>Ledger_Transaction\<close>, \<open>Stake\<close>, \<open>Block_Chain\<close>: \<^verbatim>\<open>TAO/Ledger/transaction.cpp\<close>, \<^verbatim>\<open>stake.cpp\<close> and \<^verbatim>\<open>state.cpp\<close>.
  \<^item> \<open>Legacy_Script\<close>, \<open>Legacy_Eval\<close>, \<open>Legacy_Transaction\<close>, \<open>Legacy_Trust\<close>, \<open>Legacy_Connect\<close>, \<open>Merkle\<close>, \<open>Legacy_Block\<close>: scripts and
    their evaluation, transactions, trust keys, the spent outputs, Merkle trees and blocks of the legacy chain.
    \<open>Legacy_Code\<close> interprets the locale \<open>prefix_code\<close> for every part of a transaction.
  \<^item> \<open>Base_Uint\<close>: the big integers of \<^verbatim>\<open>LLC/base_uint.cpp\<close> as lists of 32-bit words.

  \<^bold>\<open>Laws.\<close> \<open>Execute_Laws\<close> inverts an accepted execution into operands, pre-state, computation and commit; \<open>Acceptance\<close> is the
  other direction, for contracts built as a wallet builds them, and \<open>Build_Properties\<close> shows that what is built is verified.
  \<open>Runs\<close> and \<open>Backing\<close> follow sequences of contracts: the locale
  \<open>consumable\<close> says that what is used once is not used again, interpreted for proofs of credits and for fulfilled conditions.
  \<open>Block_View\<close> is a refinement: execution for a block is the execution on plain stores, whatever the memory holds.
  \<open>Rollback_Laws\<close>, \<open>Rollback_Whole\<close> and \<open>Ledger_Disconnect\<close> show that the roll-back restores what later contracts depend on, first
  for a contract and then for a transaction; \<open>Chain_Laws\<close>, \<open>Chain_Disconnect\<close> and \<open>Chain_Fork\<close> lift this to blocks and to the
  search for the fork. \<open>Legacy_Laws\<close> and \<open>Legacy_Laws_Connect\<close> do the same for scripts and spent outputs, \<open>Base_Uint_Laws\<close> and
  \<open>Base_Uint_Forms\<close> relate words to numbers. The theories named Properties, \<open>Base_Uint_Forms\<close> and this theory state the
  properties, each applied to a sample (\<open>Samples\<close>) where it has hypotheses.

  \<^bold>\<open>Bounds and fuel.\<close> Streams are shorter than two to the 63, the data of registers shorter than two to the 16 where a property
  says so (the node allows 1024 bytes). Conditions are evaluated with fuel, one more than the bytes of the script: every step
  reads a byte, so it is enough (\<open>conditions_end\<close>). Loops that need not end in the code (the last coinstake of a
  chain, the consistency of stakes, the last block of a channel, the search for the fork, the work of a first transaction) are partial functions whose value
  None is the loop that never ends; \<open>fork_found\<close> proves that the search ends on chains that join, and
  \<open>solve_work_returns\<close> that the work is found where there is any. Integers keep their width and
  wrap around as in the code.

  \<^bold>\<open>Arguments of the model.\<close> Hash functions, signatures and keys, addresses of ambassadors and developers, wall-clock time,
  computations in software floating point (stake rates and the rewards that follow), proof of work, targets, and
  checkpoints are fields of the records \<open>env\<close>, \<open>node\<close>, \<open>legacy_stake\<close> and \<open>block_ext\<close>. Nothing is assumed of them
  except where a property says so. The transactions of the legacy chain are connected by an argument in \<open>Block_Chain\<close>, which
  gives the new mint of the block and the world, and by \<open>Legacy_Connect\<close> on their own; where a property of blocks relies on it,
  \<open>legacy_keeps\<close> says that it writes neither blocks nor transactions of signature chains.

  \<^bold>\<open>Not modelled.\<close> Building new blocks, the memory pool, the search for proofs, the file formats of the
  databases and their journal, the client mode, the wallet, the network protocol and the API: these are input and output
  around the core, or produce what the modelled checks accept. Assertions of the legacy code are undefined behaviour. Vendored
  code (compression, JSON, floating point, lattice signatures) is left out.
\<close>

section \<open>Accepted contracts\<close>

text \<open>
  C1. An accepted contract whose primitive is a debit: the recorded pre-state is valid and owned by
  the caller, the amount does not exceed its balance, the register at the debited address becomes
  that pre-state with its balance lowered by the amount, and every other register is as before. Of the
  data of the register only the eight bytes of the balance change; its fields lie where they lay, and of
  the rest of the register only the time of modification and the checksum change.
\<close>

theorem accepted_debit:
  assumes "Execute X E c f W k = Inr (W', k')" and "at_primitive c = Inr (OP_DEBIT, c1)"
    and "wlive f W" and "length (sData (ssOperation c)) < 2 ^ 63"
    and "\<forall>s. prestate_of c = Inr s \<longrightarrow> length (vchState s) < 2 ^ 16"
  shows "\<exists>s s' a t n b. authorized E c s \<and> debit_operands c1 = Inr (a, t, n) \<and> n \<le> b \<and>
    moved E s s' b (b - n) (nTimestamp c) \<and>
    (\<forall>x. ReadState x f W' = (if x = a then Some s' else ReadState x f W))"
proof -
  obtain v c2 W1 k1 where e: "exec_primitive X E f OP_DEBIT v c1 W1 k1 = Inr (c2, W', k')"
    and pos: "sPos (ssOperation c1) < 2 ^ 64" "sPos (ssRegister c1) = 0" and w1: "wlive f W1"
    and same: "\<forall>a. ReadState a f W1 = ReadState a f W"
    and c1: "nTimestamp c1 = nTimestamp c" "authorized E c1 = authorized E c"
    by (rule Execute_op [OF assms(1-4)])
  from e have "exec_debit E f c1 W1 k1 = Inr (c2, W', k')" by (simp add: exec_primitive_def)
  from exec_debit_facts [OF this pos] c1 obtain s a t n ob where
    au: "authorized E c s" and o: "debit_operands c1 = Inr (a, t, n)"
    and ex: "Debit_Execute E (Object_of s) n (nTimestamp c) = Inr ob"
    and cm: "Debit_Commit E ob (hashTx c1) a t f W1 = Inr W'" by auto
  have "length (vchState s) < 2 ^ 16" using assms(5) au by (simp add: authorized_def)
  with ex obtain b where "n \<le> b" "moved E s (State_of ob) b (b - n) (nTimestamp c)"
    by (rule Debit_Execute_facts)
  then show ?thesis using au o Debit_Commit_reads [OF cm w1] same by auto
qed

theorem accepted_debit_witness:
  "\<exists>W' s' b. Execute sample_ext node_2020 sample_debit FLAGS_BLOCK sample_world 0 = Inr (W', 0) \<and>
     30 \<le> b \<and> moved node_2020 acct s' b (b - 30) 1600000000 \<and> ReadState debit_from FLAGS_BLOCK W' = Some s'"
proof -
  obtain W' where e: "Execute sample_ext node_2020 sample_debit FLAGS_BLOCK sample_world 0 = Inr (W', 0)"
    using sample_debit_accepted by blast
  then show ?thesis
    using accepted_debit [OF e sample_debit_at(1) wlive_BLOCK] by (auto simp: sample_debit_at)
qed

text \<open>
  C2. An accepted credit: its proof was unused before and is used afterwards, the account at the
  credited address becomes the recorded pre-state with its balance raised by the amount (modulo
  2 to the 64), every other register is as before, and outside client mode the account belongs to the
  caller. Of the data of the register only the eight bytes of the balance change; its fields lie where
  they lay, and of the rest of the register only the time of modification and the checksum change.
\<close>

theorem accepted_credit:
  assumes "Execute X E c f W k = Inr (W', k')" and "at_primitive c = Inr (OP_CREDIT, c1)"
    and "wlive f W" and "length (sData (ssOperation c)) < 2 ^ 63"
    and "\<forall>s. prestate_of c = Inr s \<longrightarrow> length (vchState s) < 2 ^ 16"
  shows "\<exists>s s' h n a p m b. prestate_of c = Inr s \<and> credit_operands c1 = Inr (h, n, a, p, m) \<and>
    moved E s s' b (b + m) (nTimestamp c) \<and> \<not> HasProof p h n f W \<and> HasProof p h n f W' \<and>
    (\<forall>x. ReadState x f W' = (if x = a then Some s' else ReadState x f W)) \<and>
    (fClient E \<or> hashOwner s = hashCaller c)"
proof -
  obtain v c2 W1 k1 where e: "exec_primitive X E f OP_CREDIT v c1 W1 k1 = Inr (c2, W', k')"
    and pos: "sPos (ssRegister c1) = 0" and w1: "wlive f W1"
    and same: "\<forall>a. ReadState a f W1 = ReadState a f W" "\<forall>p h n. HasProof p h n f W1 = HasProof p h n f W"
    and c1: "nTimestamp c1 = nTimestamp c" "prestate_of c1 = prestate_of c" "hashCaller c1 = hashCaller c"
    by (rule Execute_op [OF assms(1-4)])
  from e have "exec_credit X E f c1 W1 k1 = Inr (c2, W', k')" by (simp add: exec_primitive_def)
  from exec_credit_facts [OF this pos, unfolded c1] obtain s h n a p m ob d where
    p: "prestate_of c = Inr s" "\<not> fClient E \<longrightarrow> hashOwner s = hashCaller c"
    and o: "credit_operands c1 = Inr (h, n, a, p, m)"
    and ex: "Credit_Execute E (Object_of s) m (nTimestamp c) = Inr ob"
    and cm: "Credit_Commit E ob d a p h n m f W1 = Inr W'" by blast
  have "length (vchState s) < 2 ^ 16" using assms(5) p by simp
  with ex obtain b where "moved E s (State_of ob) b (b + m) (nTimestamp c)" by (rule Credit_Execute_facts)
  then show ?thesis using p o Credit_Commit_facts [OF cm w1] same by auto
qed

theorem accepted_credit_witness:
  "\<exists>W' s' b. Execute sample_ext node_2020 sample_credit FLAGS_BLOCK sample_world 0 = Inr (W', 0) \<and>
     moved node_2020 acct s' b (b + 30) 1600000000 \<and> ReadState debit_to FLAGS_BLOCK W' = Some s' \<and>
     HasProof debit_from sample_txid 0 FLAGS_BLOCK W'"
proof -
  obtain W' where e: "Execute sample_ext node_2020 sample_credit FLAGS_BLOCK sample_world 0 = Inr (W', 0)"
    using sample_credit_accepted by blast
  then show ?thesis
    using accepted_credit [OF e sample_credit_at(1) wlive_BLOCK] by (auto simp: sample_credit_at)
qed

text \<open>
  C3. Outside client mode every accepted credit is backed by a contract in the ledger: a coinbase of
  the caller over the same amount, or a debit; and unless the debit went to an object register,
  the credit has the debit's amount, uses the debited account as its proof, and is the debit's
  recipient, anyone for a debit to the wildcard, or the debited account itself.
\<close>

theorem credit_is_backed:
  assumes "Execute X E c f W k = Inr (W', k')" and "at_primitive c = Inr (OP_CREDIT, c1)"
    and "length (sData (ssOperation c)) < 2 ^ 63" and "\<not> fClient E"
  shows "\<exists>h n a p m d. credit_operands c1 = Inr (h, n, a, p, m) \<and>
    Ledger_ReadContract E h n f W = Inr d \<and> backed d (hashCaller c) a p m"
  using Execute_credit_backed [OF assms(1,3,2,4)] by blast

theorem credit_is_backed_witness:
  "\<exists>d. Ledger_ReadContract node_2020 sample_txid 0 FLAGS_BLOCK sample_world = Inr d \<and>
     backed d 5 debit_to debit_from 30"
proof -
  obtain W' where e: "Execute sample_ext node_2020 sample_credit FLAGS_BLOCK sample_world 0 = Inr (W', 0)"
    using sample_credit_accepted by blast
  then show ?thesis
    using credit_is_backed [OF e sample_credit_at(1)] by (auto simp: sample_credit_at)
qed

text \<open>
  C4. No double spending: in any sequence of accepted contracts, the proofs of the credits and claims
  are pairwise different, and none of them was used before the sequence.
\<close>

theorem no_double_spend:
  assumes "run (accepts X E f) W cs W'" and "wlive f W"
  shows "distinct (List.map_filter proof_key cs) \<and>
    (\<forall>k\<in>set (List.map_filter proof_key cs). \<not> proof_used f k W \<and> proof_used f k W')"
  using spend.run_distinct [OF assms] spend.run_uses [OF assms] by blast

theorem no_double_spend_witness:
  "\<exists>W'. run (accepts sample_ext node_2020 FLAGS_BLOCK) sample_world [sample_credit] W' \<and>
     proof_used FLAGS_BLOCK (debit_from, sample_txid, 0) W'"
proof -
  obtain W' where "Execute sample_ext node_2020 sample_credit FLAGS_BLOCK sample_world 0 = Inr (W', 0)"
    using sample_credit_accepted by blast
  then have "accepts sample_ext node_2020 FLAGS_BLOCK sample_credit sample_world W'"
    using sample_credit_at(5) by (auto simp: accepts_def)
  then have r: "run (accepts sample_ext node_2020 FLAGS_BLOCK) sample_world [sample_credit] W'"
    by (rule run_cons [OF _ run_nil])
  have "proof_key sample_credit = Some (debit_from, sample_txid, 0)"
    by (simp add: proof_key_def sample_credit_at)
  then show ?thesis
    using r no_double_spend [OF r wlive_BLOCK] by (auto simp: List.map_filter_simps)
qed

text \<open>
  C33. In any sequence of accepted contracts, no two validations fulfil the conditions of the same
  contract, and none of these conditions was fulfilled before.
\<close>

theorem no_double_validation:
  assumes "run (accepts X E f) W cs W'" and "wlive f W"
  shows "distinct (List.map_filter validate_key cs) \<and>
    (\<forall>k\<in>set (List.map_filter validate_key cs). \<not> validated f k W \<and> validated f k W')"
  using fulfil.run_distinct [OF assms] fulfil.run_uses [OF assms] by blast

theorem no_double_validation_witness:
  "\<exists>W'. run (accepts sample_ext node_2020 FLAGS_BLOCK) condition_world [sample_validate] W' \<and>
     \<not> validated FLAGS_BLOCK (sample_txid, 0) condition_world \<and> validated FLAGS_BLOCK (sample_txid, 0) W'"
proof -
  have r: "run (accepts sample_ext node_2020 FLAGS_BLOCK) condition_world [sample_validate]
      (WriteContract sample_txid 0 5 FLAGS_BLOCK condition_world)"
    by (rule run_cons) (rule sample_validate_accepted, rule run_nil)
  have "validate_key sample_validate = Some (sample_txid, 0)" by (simp add: validate_key_def sample_validate_at)
  then show ?thesis using r no_double_validation [OF r wlive_BLOCK] by (auto simp: List.map_filter_simps)
qed

text \<open>
  An accepted write: the register belongs to the caller and is neither read-only nor append-only;
  it keeps its size, its owner, its type and its creation time, and an object register keeps its
  standard type and every reserved field; every other register is as before.
\<close>

theorem accepted_write:
  assumes "Execute X E c f W k = Inr (W', k')" and "at_primitive c = Inr (OP_WRITE, c1)"
    and "wlive f W" and "length (sData (ssOperation c)) < 2 ^ 63"
    and "\<forall>s. prestate_of c = Inr s \<longrightarrow> length (vchState s) < 2 ^ 16"
  shows "\<exists>s s' a d. authorized E c s \<and> nType s \<noteq> REGISTER_READONLY \<and> nType s \<noteq> REGISTER_APPEND \<and>
    write_operands c1 = Inr (a, d) \<and> length (vchState s') = length (vchState s) \<and>
    s' = SetChecksum E (s\<lparr>vchState := vchState s', nModified := nTimestamp c\<rparr>) \<and>
    (nType s = REGISTER_OBJECT \<longrightarrow> kept_fields s s') \<and>
    (\<forall>x. ReadState x f W' = (if x = a then Some s' else ReadState x f W))"
proof -
  obtain v c2 W1 k1 where e: "exec_primitive X E f OP_WRITE v c1 W1 k1 = Inr (c2, W', k')"
    and pos: "sPos (ssOperation c1) < 2 ^ 64" "sPos (ssRegister c1) = 0" and w1: "wlive f W1"
    and same: "\<forall>a. ReadState a f W1 = ReadState a f W"
    and c1: "nTimestamp c1 = nTimestamp c" "authorized E c1 = authorized E c"
    by (rule Execute_op [OF assms(1-4)])
  from e have "exec_write E f c1 W1 k1 = Inr (c2, W', k')" by (simp add: exec_primitive_def)
  from exec_write_facts [OF this pos, unfolded c1] obtain s a d s' where
    au: "authorized E c s" "nType s \<noteq> REGISTER_READONLY" "nType s \<noteq> REGISTER_APPEND"
    and o: "write_operands c1 = Inr (a, d)" and ex: "Write_Execute E s d (nTimestamp c) = Inr s'"
    and cm: "Write_Commit E s' a f W1 = Inr W'" by blast
  have "length (vchState s) < 2 ^ 16" using assms(5) au by (simp add: authorized_def)
  then show ?thesis
    using au o Write_Execute_kept [OF ex] cm w1 same
    by (intro exI [of _ s] exI [of _ s'] exI [of _ a] exI [of _ d]) (auto simp: Write_Commit_def ReadState_WriteState)
qed

theorem accepted_write_witness:
  "\<exists>W' s'. Execute sample_ext node_2020 sample_write FLAGS_BLOCK empty_world 0 = Inr (W', 0) \<and>
     length (vchState s') = 3 \<and> ReadState raw_addr FLAGS_BLOCK W' = Some s'"
  using accepted_write [OF sample_write_accepted sample_write_at(1) wlive_BLOCK] sample_write_accepted
  by (auto simp: sample_write_at)

text \<open>
  An accepted append: the register belongs to the caller and is raw or append-only, the new data
  is the old data followed by the operand and has at most 1024 bytes, and every other register is
  as before.
\<close>

theorem accepted_append:
  assumes "Execute X E c f W k = Inr (W', k')" and "at_primitive c = Inr (OP_APPEND, c1)"
    and "wlive f W" and "length (sData (ssOperation c)) < 2 ^ 63"
  shows "\<exists>s s' a d. authorized E c s \<and> (nType s = REGISTER_RAW \<or> nType s = REGISTER_APPEND) \<and>
    write_operands c1 = Inr (a, d) \<and> vchState s' = vchState s @ d \<and> length (vchState s') \<le> 1024 \<and>
    s' = SetChecksum E (s\<lparr>vchState := vchState s', nModified := nTimestamp c\<rparr>) \<and>
    (\<forall>x. ReadState x f W' = (if x = a then Some s' else ReadState x f W))"
proof -
  obtain v c2 W1 k1 where e: "exec_primitive X E f OP_APPEND v c1 W1 k1 = Inr (c2, W', k')"
    and pos: "sPos (ssOperation c1) < 2 ^ 64" "sPos (ssRegister c1) = 0" and w1: "wlive f W1"
    and same: "\<forall>a. ReadState a f W1 = ReadState a f W"
    and c1: "nTimestamp c1 = nTimestamp c" "authorized E c1 = authorized E c"
    by (rule Execute_op [OF assms(1-4)])
  from e have "exec_append E f c1 W1 k1 = Inr (c2, W', k')" by (simp add: exec_primitive_def)
  from exec_append_facts [OF this pos, unfolded c1] obtain s a d s' where
    au: "authorized E c s" "nType s = REGISTER_RAW \<or> nType s = REGISTER_APPEND"
    and o: "write_operands c1 = Inr (a, d)" and ex: "Append_Execute E s d (nTimestamp c) = Inr s'"
    and m: "length (vchState s') \<le> MAX_REGISTER_SIZE" and cm: "Append_Commit E s' a f W1 = Inr W'" by blast
  have "vchState s' = vchState s @ d \<and> s' = SetChecksum E (s\<lparr>vchState := vchState s', nModified := nTimestamp c\<rparr>)"
    using ex by (auto simp: Append_Execute_def Let_def State_Append_def SetChecksum_def GetHash_def ser_state_hash_def)
  then show ?thesis
    using au o m cm w1 same
    by (intro exI [of _ s] exI [of _ s'] exI [of _ a] exI [of _ d])
      (auto simp: Append_Commit_def ReadState_WriteState MAX_REGISTER_SIZE_def)
qed

theorem accepted_append_witness:
  "\<exists>W' s'. Execute sample_ext node_2020 sample_append FLAGS_BLOCK empty_world 0 = Inr (W', 0) \<and>
     vchState s' = [1, 2, 3] @ [4] \<and> ReadState raw_addr FLAGS_BLOCK W' = Some s'"
  using accepted_append [OF sample_append_accepted sample_append_at(1) wlive_BLOCK] sample_append_accepted
  by (auto simp: sample_append_at)


text \<open>
  C34. An accepted transfer: the register belongs to the caller and is not a trust account; only its
  owner and its time stamp change, the new owner being the recipient of a forced transfer and
  otherwise the custody of the system; every other register is as before.
\<close>

theorem accepted_transfer:
  assumes "Execute X E c f W k = Inr (W', k')" and "at_primitive c = Inr (OP_TRANSFER, c1)"
    and "wlive f W" and "length (sData (ssOperation c)) < 2 ^ 63"
  shows "\<exists>s s' a b t. authorized E c s \<and> transfer_operands c1 = Inr (a, b, t) \<and>
    (nType s = REGISTER_OBJECT \<longrightarrow> standard_of s \<noteq> Inr OBJECTS_TRUST) \<and>
    s' = SetChecksum E (s\<lparr>hashOwner := transfer_owner c t b, nModified := nTimestamp c\<rparr>) \<and>
    (t = TRANSFER_FORCE \<or> GetType (hashOwner s') = GENESIS_SYSTEM) \<and>
    (\<forall>x. ReadState x f W' = (if x = a then Some s' else ReadState x f W))"
proof -
  obtain v c2 W1 k1 where e: "exec_primitive X E f OP_TRANSFER v c1 W1 k1 = Inr (c2, W', k')"
    and pos: "sPos (ssOperation c1) < 2 ^ 64" "sPos (ssRegister c1) = 0" and w1: "wlive f W1"
    and same: "\<forall>a. ReadState a f W1 = ReadState a f W"
    and c1: "nTimestamp c1 = nTimestamp c" "authorized E c1 = authorized E c" "transfer_owner c1 = transfer_owner c"
    by (rule Execute_op [OF assms(1-4)])
  from e have "exec_transfer E f c1 W1 k1 = Inr (c2, W', k')" by (simp add: exec_primitive_def)
  from exec_transfer_facts [OF this pos, unfolded c1] obtain s a b t s' where
    au: "authorized E c s" "nType s = REGISTER_OBJECT \<longrightarrow> standard_of s \<noteq> Inr OBJECTS_TRUST"
    and o: "transfer_operands c1 = Inr (a, b, t)"
    and ex: "Transfer_Execute E s (transfer_owner c t b) (nTimestamp c) = Inr s'"
    and cm: "Transfer_Commit E s' (hashTx c1) a b f W1 = Inr W'" by blast
  have s': "s' = SetChecksum E (s\<lparr>hashOwner := transfer_owner c t b, nModified := nTimestamp c\<rparr>)"
    using ex by (auto simp: Transfer_Execute_def Let_def)
  have z: "GetType (0 :: u256) = GENESIS_SYSTEM" by (simp add: GetType_def)
  have "t = TRANSFER_FORCE \<or> GetType (hashOwner s') = GENESIS_SYSTEM"
    by (simp add: s' transfer_owner_def GetType_SetType z)
  then show ?thesis
    using au o s' Transfer_Commit_reads [OF cm w1] same
    by (intro exI [of _ s] exI [of _ s'] exI [of _ a] exI [of _ b] exI [of _ t]) auto
qed

theorem accepted_transfer_witness:
  "\<exists>W' s'. Execute sample_ext node_2020 sample_transfer FLAGS_BLOCK empty_world 0 = Inr (W', 0) \<and>
     GetType (hashOwner s') = GENESIS_SYSTEM \<and> ReadState raw_addr FLAGS_BLOCK W' = Some s'"
  using accepted_transfer [OF sample_transfer_accepted sample_transfer_at(1) wlive_BLOCK] sample_transfer_accepted
  by (auto simp: sample_transfer_at)

text \<open>
  C35. An accepted claim: the register was in the custody of the system, its proof was unused before
  and is used afterwards, only its owner, now the caller, and its time stamp change, and every
  other register is as before.
\<close>

theorem accepted_claim:
  assumes "Execute X E c f W k = Inr (W', k')" and "at_primitive c = Inr (OP_CLAIM, c1)"
    and "wlive f W" and "length (sData (ssOperation c)) < 2 ^ 63"
  shows "\<exists>s s' h n a. prestate_of c = Inr s \<and> claim_operands c1 = Inr (h, n, a) \<and>
    GetType (hashOwner s) = GENESIS_SYSTEM \<and>
    s' = SetChecksum E (s\<lparr>hashOwner := hashCaller c, nModified := nTimestamp c\<rparr>) \<and>
    \<not> HasProof a h n f W \<and> HasProof a h n f W' \<and>
    (\<forall>x. ReadState x f W' = (if x = a then Some s' else ReadState x f W))"
proof -
  obtain v c2 W1 k1 where e: "exec_primitive X E f OP_CLAIM v c1 W1 k1 = Inr (c2, W', k')"
    and pos: "sPos (ssRegister c1) = 0" and w1: "wlive f W1"
    and same: "\<forall>a. ReadState a f W1 = ReadState a f W" "\<forall>p h n. HasProof p h n f W1 = HasProof p h n f W"
    and c1: "nTimestamp c1 = nTimestamp c" "prestate_of c1 = prestate_of c" "hashCaller c1 = hashCaller c"
    by (rule Execute_op [OF assms(1-4)])
  from e have "exec_claim X E f c1 W1 k1 = Inr (c2, W', k')" by (simp add: exec_primitive_def)
  from exec_claim_facts [OF this pos, unfolded c1] obtain s h n a s' where
    p: "prestate_of c = Inr s" and o: "claim_operands c1 = Inr (h, n, a)"
    and ex: "Claim_Execute E s (hashCaller c) (nTimestamp c) = Inr s'"
    and cm: "Claim_Commit E s' a h n f W1 = Inr W'" by blast
  have "GetType (hashOwner s) = GENESIS_SYSTEM \<and>
      s' = SetChecksum E (s\<lparr>hashOwner := hashCaller c, nModified := nTimestamp c\<rparr>)"
    using ex by (auto simp: Claim_Execute_def Let_def)
  then show ?thesis
    using p o Claim_Commit_reads [OF cm w1] same
    by (intro exI [of _ s] exI [of _ s'] exI [of _ h] exI [of _ n] exI [of _ a]) auto
qed

theorem accepted_claim_witness:
  "\<exists>W' s'. Execute sample_ext node_2020 sample_claim FLAGS_BLOCK transfer_world 0 = Inr (W', 0) \<and>
     hashOwner s' = 9 \<and> HasProof raw_addr sample_txid 0 FLAGS_BLOCK W' \<and> ReadState raw_addr FLAGS_BLOCK W' = Some s'"
  using accepted_claim [OF sample_claim_accepted sample_claim_at(1) wlive_BLOCK] sample_claim_accepted
  by (auto simp: sample_claim_at)

text \<open>
  An accepted fee: it is paid from an account of the native token that belongs to the caller
  and covers it, the balance is lowered by the fee and nothing else changes.
\<close>

theorem accepted_fee:
  assumes "Execute X E c f W k = Inr (W', k')" and "at_primitive c = Inr (OP_FEE, c1)"
    and "wlive f W" and "length (sData (ssOperation c)) < 2 ^ 63"
    and "\<forall>s. prestate_of c = Inr s \<longrightarrow> length (vchState s) < 2 ^ 16"
  shows "\<exists>s s' a n b. authorized E c s \<and> fee_operands c1 = Inr (a, n) \<and> n \<le> b \<and>
    field_of name_token s = Inr (0 :: u256) \<and> moved E s s' b (b - n) (nTimestamp c) \<and>
    (\<forall>x. ReadState x f W' = (if x = a then Some s' else ReadState x f W))"
proof -
  obtain v c2 W1 k1 where e: "exec_primitive X E f OP_FEE v c1 W1 k1 = Inr (c2, W', k')"
    and pos: "sPos (ssOperation c1) < 2 ^ 64" "sPos (ssRegister c1) = 0" and w1: "wlive f W1"
    and same: "\<forall>a. ReadState a f W1 = ReadState a f W"
    and c1: "nTimestamp c1 = nTimestamp c" "authorized E c1 = authorized E c"
    by (rule Execute_op [OF assms(1-4)])
  from e have "exec_fee E f c1 W1 k1 = Inr (c2, W', k')" by (simp add: exec_primitive_def)
  from exec_fee_facts [OF this pos, unfolded c1] obtain s a n ob where
    au: "authorized E c s" and o: "fee_operands c1 = Inr (a, n)"
    and ex: "Fee_Execute E (Object_of s) n (nTimestamp c) = Inr ob" and cm: "Fee_Commit E ob a f W1 = Inr W'"
    by blast
  have "length (vchState s) < 2 ^ 16" using assms(5) au by (simp add: authorized_def)
  with ex obtain b where "n \<le> b" "moved E s (State_of ob) b (b - n) (nTimestamp c)"
    "field_of name_token s = Inr (0 :: u256)" by (rule Fee_Execute_facts)
  then show ?thesis using au o cm w1 same
    by (intro exI [of _ s] exI [of _ "State_of ob"] exI [of _ a] exI [of _ n] exI [of _ b])
      (auto simp: Fee_Commit_def ReadState_WriteState)
qed

theorem accepted_fee_witness:
  "\<exists>W' s' b. Execute sample_ext node_2020 sample_fee FLAGS_BLOCK empty_world 0 = Inr (W', 0) \<and>
     30 \<le> b \<and> moved node_2020 acct s' b (b - 30) 1600000000 \<and> ReadState debit_from FLAGS_BLOCK W' = Some s'"
proof -
  obtain W' where e: "Execute sample_ext node_2020 sample_fee FLAGS_BLOCK empty_world 0 = Inr (W', 0)"
    using sample_fee_accepted by blast
  then show ?thesis
    using accepted_fee [OF e sample_fee_at(1) wlive_BLOCK] by (auto simp: sample_fee_at)
qed

text \<open>
  C36. An accepted creation allocates exactly one register: outside client mode its address was free,
  it belongs to the caller, is valid, has at most 1024 bytes and, when it is an object register,
  has the initial values of its standard type; every other register is as before.
\<close>

theorem accepted_create:
  assumes "Execute X E c f W k = Inr (W', k')" and "at_primitive c = Inr (OP_CREATE, c1)"
    and "wlive f W" and "length (sData (ssOperation c)) < 2 ^ 63"
  shows "\<exists>a s'. hashOwner s' = hashCaller c \<and> State_IsValid E s' = Inr () \<and> length (vchState s') \<le> 1024 \<and>
    (nType s' = REGISTER_OBJECT \<longrightarrow> initial_object E s' = Inr ()) \<and>
    (fClient E \<or> ReadState a f W = None) \<and>
    (\<forall>x. ReadState x f W' = (if x = a then Some s' else ReadState x f W))"
proof -
  obtain v c2 W1 k1 where e: "exec_primitive X E f OP_CREATE v c1 W1 k1 = Inr (c2, W', k')"
    and pos: "sPos (ssRegister c1) = 0" and w1: "wlive f W1"
    and same: "\<forall>a. ReadState a f W1 = ReadState a f W" and c1: "hashCaller c1 = hashCaller c"
    by (rule Execute_op [OF assms(1-4)])
  from e have "exec_create E f c1 W1 k1 = Inr (c2, W', k')" by (simp add: exec_primitive_def)
  from exec_create_facts [OF this pos, unfolded c1] obtain a s' where
    s': "hashOwner s' = hashCaller c" "length (vchState s') \<le> MAX_REGISTER_SIZE" "State_IsValid E s' = Inr ()"
      "nType s' = REGISTER_OBJECT \<longrightarrow> initial_object E s' = Inr ()"
    and h: "\<not> fClient E \<longrightarrow> \<not> HasState a f W1" and cm: "W' = WriteState E a s' f W1" by blast
  have "HasState a f W1 \<longleftrightarrow> ReadState a f W1 \<noteq> None"
    using assms(3) by (auto simp: HasState_def has_register_def ReadState_def read_register_def wlive_def live_def)
  then show ?thesis using s' h cm w1 same
    by (intro exI [of _ a] exI [of _ s']) (auto simp: ReadState_WriteState MAX_REGISTER_SIZE_def)
qed

theorem accepted_create_witness:
  "\<exists>W' a s'. Execute sample_ext node_2020 sample_create FLAGS_BLOCK empty_world 0 = Inr (W', 0) \<and>
     hashOwner s' = 5 \<and> ReadState a FLAGS_BLOCK empty_world = None \<and> ReadState a FLAGS_BLOCK W' = Some s'"
proof -
  have "\<not> fClient node_2020" by (simp add: node_2020_def)
  then show ?thesis
    using accepted_create [OF sample_create_accepted sample_create_at(1) wlive_BLOCK sample_create_at(2)]
      sample_create_accepted
    by (auto simp: sample_create_at(3))
qed

section \<open>Acceptance and refusal\<close>

text \<open>
  A debit goes through: a contract with the byte layout of a debit whose pre-state is valid and
  owned by the caller, to the account of an existing register, is accepted, and stores the
  computed post-state.
\<close>

theorem debit_goes_through:
  assumes "sData (ssOperation c) = debit_script a b n r"
    and "sData (ssRegister c) = states_script s (GetHash E ob)" and "length (vchState s) \<le> MAX_SIZE"
    and "State_IsValid E s = Inr ()" and "hashOwner s = hashCaller c"
    and "\<not> Reserved_address a" and "\<not> Reserved_address b" and "IsAccount b" and "a \<noteq> b"
    and "Debit_Execute E (Object_of s) n (nTimestamp c) = Inr ob" and "ReadState b f W = Some st"
  shows "\<exists>W'. Execute X E c f W k = Inr (W', k) \<and> (wlive f W \<longrightarrow> ReadState a f W' = Some (State_of ob))"
  using debit_accepted [OF assms] by (auto simp: ReadState_WriteState)

theorem debit_goes_through_witness:
  "\<exists>W'. Execute sample_ext node_2020 sample_debit FLAGS_BLOCK sample_world 0 = Inr (W', 0)"
proof -
  obtain ob where "Debit_Execute node_2020 (Object_of acct) 30 1600000000 = Inr ob" "GetHash node_2020 ob = 108"
    using acct_debit by blast
  then show ?thesis
    using debit_goes_through [of sample_debit debit_from debit_to 30 0 acct node_2020 ob FLAGS_BLOCK sample_world acct]
      acct_valid debit_from_to
    by (auto simp: sample_debit_def MAX_SIZE_def)
qed

text \<open>
  A claim goes through: the recipient of an unforced transfer in the ledger can claim a register
  that is in the custody of the system. The address \<open>a'\<close> of the transfer need not be the address
  \<open>a\<close> that is claimed: the sources never compare the two.
\<close>

theorem claim_goes_through:
  assumes "sData (ssOperation c) = claim_script h n a" and "sData (ssCondition c) = []"
    and "sData (ssRegister c) = states_script s (GetHash E s')" and "length (vchState s) \<le> MAX_SIZE"
    and "GetType h = TX_TRITIUM" and "ReadTx h f W = Some t"
    and "unat n < length (vContracts t)" and "tc = vContracts t ! unat n"
    and "sData (ssOperation tc) = transfer_script a' b y" and "sData (ssCondition tc) = []"
    and "sData (ssRegister tc) = states_script s0 chk" and "length (vchState s0) \<le> MAX_SIZE"
    and "State_IsValid E s0 = Inr ()" and "\<not> Reserved_address a'" and "b = hashCaller c"
    and "Claim_Execute E s (hashCaller c) (nTimestamp c) = Inr s'" and "\<not> HasProof a h n f W"
  shows "\<exists>W'. Execute X E c f W k = Inr (W', k) \<and> (wlive f W \<longrightarrow> ReadState a f W' = Some s')"
  using claim_accepted [OF assms] by (auto simp: ReadState_WriteState)

text \<open>A register that was never transferred to the caller is claimed with his own transfer of
  another register.\<close>

theorem claim_goes_through_witness:
  "\<exists>W'. Execute sample_ext node_2020
       (sample_contract (claim_script sample_txid 0 (addr ADDR_RAW 77)) (raw_states custody 9 [1, 2, 3]) 9)
       FLAGS_BLOCK transfer_world 0 = Inr (W', 0) \<and>
     ReadState (addr ADDR_RAW 77) FLAGS_BLOCK W' = Some (raw_at 9 [1, 2, 3])"
proof -
  have r: "ReadTx sample_txid FLAGS_BLOCK transfer_world = Some (tx_of [sample_transfer])"
    by (simp add: transfer_world_def world_ops)
  have np: "\<not> HasProof (addr ADDR_RAW 77) sample_txid 0 FLAGS_BLOCK transfer_world"
    by (simp add: transfer_world_def world_ops read_proof_def empty_world_def empty_overlay_def)
  have "\<exists>W'. Execute sample_ext node_2020
       (sample_contract (claim_script sample_txid 0 (addr ADDR_RAW 77)) (raw_states custody 9 [1, 2, 3]) 9)
       FLAGS_BLOCK transfer_world 0 = Inr (W', 0) \<and>
     (wlive FLAGS_BLOCK transfer_world \<longrightarrow> ReadState (addr ADDR_RAW 77) FLAGS_BLOCK W' = Some (raw_at 9 [1, 2, 3]))"
    by (rule claim_goes_through [OF _ _ _ _ _ r _ refl, where ?a' = raw_addr and b = 9 and y = TRANSFER_CLAIM and ?s0.0 = "raw 5"
       and s = "raw custody"])
      (use np raw_claim [of custody 9] in \<open>simp_all add: sample_transfer_def raw_states_def MAX_SIZE_def\<close>)
  then show ?thesis by simp
qed

text \<open>
  C37. A debit to an object register can be returned to the debited account as a credit of any
  amount whatsoever, as long as nothing of it has been claimed.
\<close>

theorem object_debit_any_credit:
  assumes "sData (ssOperation c) = credit_script h n a a m" and "sData (ssCondition c) = []"
    and "sData (ssRegister c) = states_script s (GetHash E ob)" and "length (vchState s) \<le> MAX_SIZE"
    and "hashOwner s = hashCaller c" and "Object_Parse (Object_of s) = Inr ac"
    and "Credit_Execute E (Object_of s) m (nTimestamp c) = Inr ob"
    and "GetType h = TX_TRITIUM" and "ReadTx h f W = Some t"
    and "unat n < length (vContracts t)" and "d = vContracts t ! unat n"
    and "sData (ssOperation d) = debit_script a b n0 r" and "sData (ssCondition d) = []"
    and "sData (ssRegister d) = states_script s0 chk" and "length (vchState s0) \<le> MAX_SIZE"
    and "\<not> Reserved_address a" and "\<not> Reserved_address b" and "a \<noteq> WILDCARD_ADDRESS"
    and "Object_Parse (Object_of s0) = Inr ob0" and "Object_Base ob0 = Inr OBJECTS_ACCOUNT"
    and "Object_get name_token ob0 = Inr (tk :: u256)" and "Object_get name_token ac = Inr tk"
    and "IsObject b" and "ReadClaimed h n f W = None" and "\<not> HasProof a h n f W" and "\<not> fClient E"
  shows "\<exists>W'. Execute X E c f W k = Inr (W', k)"
  by (rule credit_accepted [OF assms(1-22)]) (use assms(23-26) in \<open>simp_all add: covered_def\<close>)

text \<open>A debit of 1 to an object register comes back as a credit of a billion.\<close>

theorem object_debit_any_credit_witness:
  "\<exists>W'. Execute sample_ext node_2020
     (sample_contract (credit_script sample_txid 1 debit_from debit_from 1000000000) (states_script acct 108) 5)
     FLAGS_BLOCK sample_world 0 = Inr (W', 0)"
proof -
  obtain ob where "Credit_Execute node_2020 (Object_of acct) 1000000000 1600000000 = Inr ob" "GetHash node_2020 ob = 108"
    using acct_credit by blast
  then show ?thesis
    using object_debit_any_credit [of "sample_contract (credit_script sample_txid 1 debit_from debit_from 1000000000) (states_script acct 108) 5"
       sample_txid 1 debit_from 1000000000 acct node_2020 ob acct_ob
       FLAGS_BLOCK sample_world sample_tx object_debit "addr ADDR_OBJECT 3" 1 0 acct 108 acct_ob 0 sample_ext 0]
      acct_parse acct_base acct_token
    by (simp add: object_debit_def sample_tx_def MAX_SIZE_def)
qed

text \<open>
  The execution of a contract never ends in an exception: whatever the contract, it is
  accepted or refused.
\<close>

theorem execute_no_exception: "Execute X E c f W k \<noteq> Inl (Throw msg)"
  by (auto simp: Execute_def catch_all_def split: sum.splits error.splits)

text \<open>
  Outside client mode a credit cannot follow a validation in one contract: \<open>Credit::Verify\<close>
  expects its own operation byte at the start of the stream.
\<close>

theorem validate_credit_refused:
  assumes "at_primitive c = Inr (OP_CREDIT, c1)" and "op_word (start c) = Inr (OP_VALIDATE, c0)"
    and "length (sData (ssOperation c)) < 2 ^ 63" and "\<not> fClient E"
  shows "Execute X E c f W k \<noteq> Inr (W', k')"
  using Execute_credit_backed [OF _ assms(3,1,4)] assms(2) by fastforce

theorem validate_credit_refused_witness:
  "\<not> isl (at_primitive validated_credit) \<and>
     (\<forall>W W'. Execute sample_ext node_2020 validated_credit FLAGS_BLOCK W 0 \<noteq> Inr (W', 0))"
  using validate_credit_refused [OF validated_credit_at(1,2) _ fClient_node_2020] validated_credit_at
  by simp

end
